(* ===== verification/Prelude.thy ===== *)
theory Prelude
  imports Main "HOL-Library.Word"
begin

text \<open>
  Shared vocabulary of the development.

  \<^item> Machine integers: the fixed-width Rust integers as words, \<open>usize\<close> as \<open>nat\<close> with the
    64-bit overflow checks written out, and the \<open>u32\<close> counters (heights, instruction
    indices) as \<open>nat\<close> with explicit truncation and overflow.
  \<^item> Results: \<open>result\<close> is a Rust \<open>Result\<close> with a third value for a panic, so every early return,
    trap and panic of the source is a branch of the model.
  \<^item> Operations on a mutable state: \<open>op\<close>, a state passing function into \<open>result\<close> that keeps
    the state also on an error, because a trapping call leaves its effects behind.
  \<^item> A weakest-precondition calculus \<open>wp\<close> for such operations: all component proofs are
    simplification with it.
\<close>

unbundle bit_operations_syntax

section \<open>Machine integers\<close>

type_synonym u8 = "8 word"
type_synonym u16 = "16 word"
type_synonym u32 = "32 word"
type_synonym u64 = "64 word"
type_synonym usize = nat

abbreviation U32_MAX :: nat where "U32_MAX \<equiv> 4294967295"
abbreviation USIZE_MAX :: nat where "USIZE_MAX \<equiv> 18446744073709551615"

text \<open>Rust's \<open>n as u32\<close> on a wider unsigned integer: the low 32 bits.\<close>

definition as_u32 :: "nat \<Rightarrow> nat" where
  "as_u32 n = n mod 4294967296"

text \<open>Rust's \<open>checked_add\<close> at the two widths the code uses it at.\<close>

definition u32_checked_add :: "nat \<Rightarrow> nat \<Rightarrow> nat option" where
  "u32_checked_add a b = (if a + b \<le> U32_MAX then Some (a + b) else None)"

definition usize_checked_add :: "usize \<Rightarrow> usize \<Rightarrow> usize option" where
  "usize_checked_add a b = (if a + b \<le> USIZE_MAX then Some (a + b) else None)"

lemma as_u32_id [simp]: "n \<le> U32_MAX \<Longrightarrow> as_u32 n = n"
  by (simp add: as_u32_def)

lemma as_u32_bound [simp]: "as_u32 n \<le> U32_MAX"
  using mod_less_divisor [of 4294967296 n] by (simp add: as_u32_def)

lemma u32_checked_add_eq_Some: "u32_checked_add a b = Some c \<longleftrightarrow> c = a + b \<and> a + b \<le> U32_MAX"
  by (auto simp: u32_checked_add_def)

lemma usize_checked_add_eq_Some:
  "usize_checked_add a b = Some c \<longleftrightarrow> c = a + b \<and> a + b \<le> USIZE_MAX"
  by (auto simp: usize_checked_add_def)

lemma usize_checked_add_eq_None: "usize_checked_add a b = None \<longleftrightarrow> USIZE_MAX < a + b"
  by (auto simp: usize_checked_add_def)

section \<open>Results\<close>

text \<open>
  \<open>Ok\<close> and \<open>Err\<close> are Rust's; \<open>Panic\<close> is a panic (an index out of bounds, an arithmetic
  overflow in a build with overflow checks, an \<open>unreachable!\<close>, a failed \<open>debug_assert!\<close>).
  A theorem that excludes \<open>Panic\<close> therefore also says that a release build, which wraps
  instead, never gets to wrap.
\<close>

datatype ('e, 'a) result = Ok 'a | Err 'e | Panic

fun and_then :: "('e, 'a) result \<Rightarrow> ('a \<Rightarrow> ('e, 'b) result) \<Rightarrow> ('e, 'b) result" where
  "and_then (Ok a) f = f a"
| "and_then (Err e) f = Err e"
| "and_then Panic f = Panic"

definition ok_or :: "'a option \<Rightarrow> 'e \<Rightarrow> ('e, 'a) result" where
  "ok_or x e = (case x of Some a \<Rightarrow> Ok a | None \<Rightarrow> Err e)"

text \<open>Indexing a slice: a panic out of bounds.\<close>

definition index :: "'a list \<Rightarrow> nat \<Rightarrow> ('e, 'a) result" where
  "index xs i = (if i < length xs then Ok (xs ! i) else Panic)"

text \<open>Unchecked \<open>u32\<close> arithmetic: out of range is the overflow panic.\<close>

definition u32_add :: "nat \<Rightarrow> nat \<Rightarrow> ('e, nat) result" where
  "u32_add a b = (if a + b \<le> U32_MAX then Ok (a + b) else Panic)"

definition u32_sub :: "nat \<Rightarrow> nat \<Rightarrow> ('e, nat) result" where
  "u32_sub a b = (if b \<le> a then Ok (a - b) else Panic)"

text \<open>The same two at \<open>usize\<close>: only the width of the panic differs, and subtraction has none.\<close>

definition usize_sub :: "usize \<Rightarrow> usize \<Rightarrow> ('e, usize) result" where
  "usize_sub a b = (if b \<le> a then Ok (a - b) else Panic)"

lemma and_then_eq_Ok: "and_then r f = Ok b \<longleftrightarrow> (\<exists>a. r = Ok a \<and> f a = Ok b)"
  by (cases r) auto

lemma and_then_eq_Err: "and_then r f = Err e \<longleftrightarrow> r = Err e \<or> (\<exists>a. r = Ok a \<and> f a = Err e)"
  by (cases r) auto

lemma index_eq_Ok [simp]: "index xs i = Ok x \<longleftrightarrow> i < length xs \<and> x = xs ! i"
  by (auto simp: index_def)

lemma index_neq_Err [simp]: "index xs i \<noteq> Err e"
  by (simp add: index_def)

lemma u32_add_eq_Ok: "u32_add a b = Ok c \<longleftrightarrow> c = a + b \<and> a + b \<le> U32_MAX"
  by (auto simp: u32_add_def)

lemma u32_sub_eq_Ok: "u32_sub a b = Ok c \<longleftrightarrow> c = a - b \<and> b \<le> a"
  by (auto simp: u32_sub_def)

section \<open>Operations on a state\<close>

type_synonym ('s, 'e, 'a) op = "'s \<Rightarrow> ('e \<times> 's, 'a \<times> 's) result"

definition ret :: "'a \<Rightarrow> ('s, 'e, 'a) op" where
  "ret a = (\<lambda>s. Ok (a, s))"

definition fail :: "'e \<Rightarrow> ('s, 'e, 'a) op" where
  "fail e = (\<lambda>s. Err (e, s))"

definition panic :: "('s, 'e, 'a) op" where
  "panic = (\<lambda>s. Panic)"

definition bnd :: "('s, 'e, 'a) op \<Rightarrow> ('a \<Rightarrow> ('s, 'e, 'b) op) \<Rightarrow> ('s, 'e, 'b) op" where
  "bnd m f = (\<lambda>s. case m s of
      Ok (a, s') \<Rightarrow> f a s'
    | Err (e, s') \<Rightarrow> Err (e, s')
    | Panic \<Rightarrow> Panic)"

text \<open>Reading the state, replacing it, and a result that does not touch it.\<close>

definition gets :: "('s \<Rightarrow> 'a) \<Rightarrow> ('s, 'e, 'a) op" where
  "gets f = (\<lambda>s. Ok (f s, s))"

definition modify :: "('s \<Rightarrow> 's) \<Rightarrow> ('s, 'e, unit) op" where
  "modify f = (\<lambda>s. Ok ((), f s))"

definition lift_result :: "('e, 'a) result \<Rightarrow> ('s, 'e, 'a) op" where
  "lift_result r = (\<lambda>s. case r of Ok a \<Rightarrow> Ok (a, s) | Err e \<Rightarrow> Err (e, s) | Panic \<Rightarrow> Panic)"

text \<open>
  An operation on one field of a larger state. \<open>conv\<close> is the \<open>From\<close> conversion that the
  \<open>?\<close> operator applies to the error.
\<close>

definition on_field ::
    "('s \<Rightarrow> 'f) \<Rightarrow> ('f \<Rightarrow> 's \<Rightarrow> 's) \<Rightarrow> ('e \<Rightarrow> 'e2) \<Rightarrow> ('f, 'e, 'a) op \<Rightarrow> ('s, 'e2, 'a) op" where
  "on_field get put conv m = (\<lambda>s. case m (get s) of
      Ok (a, x) \<Rightarrow> Ok (a, put x s)
    | Err (e, x) \<Rightarrow> Err (conv e, put x s)
    | Panic \<Rightarrow> Panic)"

text \<open>Matching on the \<open>Result\<close> of an operation instead of propagating its error.\<close>

definition attempt :: "('s, 'e, 'a) op \<Rightarrow> ('s, 'e2, 'e + 'a) op" where
  "attempt m = (\<lambda>s. case m s of
      Ok (a, s') \<Rightarrow> Ok (Inr a, s')
    | Err (e, s') \<Rightarrow> Ok (Inl e, s')
    | Panic \<Rightarrow> Panic)"

section \<open>Weakest preconditions\<close>

text \<open>
  \<open>wp m Q E s\<close>: run from \<open>s\<close>, the operation does not panic, its value and state satisfy \<open>Q\<close>
  if it returns, and its error and state satisfy \<open>E\<close> if it fails.
\<close>

definition wp :: "('s, 'e, 'a) op \<Rightarrow> ('a \<Rightarrow> 's \<Rightarrow> bool) \<Rightarrow> ('e \<Rightarrow> 's \<Rightarrow> bool) \<Rightarrow> 's \<Rightarrow> bool" where
  "wp m Q E s = (case m s of Ok (a, s') \<Rightarrow> Q a s' | Err (e, s') \<Rightarrow> E e s' | Panic \<Rightarrow> False)"

named_theorems wp_rules \<open>simplification of weakest preconditions\<close>

lemma wp_ret [wp_rules, simp]: "wp (ret a) Q E = Q a"
  by (rule ext) (simp add: wp_def ret_def)

lemma wp_fail [wp_rules, simp]: "wp (fail e) Q E = E e"
  by (rule ext) (simp add: wp_def fail_def)

lemma wp_panic [wp_rules, simp]: "wp panic Q E = (\<lambda>s. False)"
  by (rule ext) (simp add: wp_def panic_def)

lemma wp_bnd [wp_rules, simp]: "wp (bnd m f) Q E = wp m (\<lambda>a. wp (f a) Q E) E"
  by (rule ext) (auto simp: wp_def bnd_def split: result.splits)

lemma wp_gets [wp_rules, simp]: "wp (gets f) Q E = (\<lambda>s. Q (f s) s)"
  by (rule ext) (simp add: wp_def gets_def)

lemma wp_modify [wp_rules, simp]: "wp (modify f) Q E = (\<lambda>s. Q () (f s))"
  by (rule ext) (simp add: wp_def modify_def)

lemma wp_lift_result [wp_rules, simp]:
  "wp (lift_result r) Q E =
     (\<lambda>s. case r of Ok a \<Rightarrow> Q a s | Err e \<Rightarrow> E e s | Panic \<Rightarrow> False)"
  by (rule ext) (simp add: wp_def lift_result_def split: result.splits)

lemma wp_on_field [wp_rules, simp]:
  "wp (on_field get put conv m) Q E =
     (\<lambda>s. wp m (\<lambda>a x. Q a (put x s)) (\<lambda>e x. E (conv e) (put x s)) (get s))"
  by (rule ext) (auto simp: wp_def on_field_def split: result.splits)

lemma wp_attempt [wp_rules, simp]:
  "wp (attempt m) Q E = wp m (\<lambda>a. Q (Inr a)) (\<lambda>e. Q (Inl e))"
  by (rule ext) (auto simp: wp_def attempt_def split: result.splits)

lemma wp_if [wp_rules, simp]:
  "wp (if b then m else n) Q E s = (if b then wp m Q E s else wp n Q E s)"
  by simp

lemma wp_mono:
  assumes "wp m Q E s"
    and "\<And>a s'. Q a s' \<Longrightarrow> Q' a s'" and "\<And>e s'. E e s' \<Longrightarrow> E' e s'"
  shows "wp m Q' E' s"
  using assms by (auto simp: wp_def split: result.splits)

lemma wp_conj:
  "wp m Q E s \<Longrightarrow> wp m Q' E' s \<Longrightarrow> wp m (\<lambda>a t. Q a t \<and> Q' a t) (\<lambda>e t. E e t \<and> E' e t) s"
  by (auto simp: wp_def split: result.splits)

lemma wp_Ok: "m s = Ok (a, s') \<Longrightarrow> wp m Q E s = Q a s'"
  by (simp add: wp_def)

lemma wp_Err: "m s = Err (e, s') \<Longrightarrow> wp m Q E s = E e s'"
  by (simp add: wp_def)

lemma wp_OkD: "wp m Q E s \<Longrightarrow> m s = Ok (a, s') \<Longrightarrow> Q a s'"
  by (simp add: wp_def)

lemma wp_ErrD: "wp m Q E s \<Longrightarrow> m s = Err (e, s') \<Longrightarrow> E e s'"
  by (simp add: wp_def)

lemma wp_not_panic: "wp m Q E s \<Longrightarrow> m s \<noteq> Panic"
  by (auto simp: wp_def)

lemma wp_cases:
  assumes "wp m Q E s"
  obtains (Ok) a s' where "m s = Ok (a, s')" "Q a s'"
    | (Err) e s' where "m s = Err (e, s')" "E e s'"
  using assms by (cases "m s") (auto simp: wp_def)

section \<open>Weakest liberal preconditions\<close>

text \<open>\<open>wlp m Q s\<close>: if the operation returns, its value and state satisfy \<open>Q\<close>.\<close>

definition wlp :: "('s, 'e, 'a) op \<Rightarrow> ('a \<Rightarrow> 's \<Rightarrow> bool) \<Rightarrow> 's \<Rightarrow> bool" where
  "wlp m Q s = (case m s of Ok (a, s') \<Rightarrow> Q a s' | Err _ \<Rightarrow> True | Panic \<Rightarrow> True)"

lemma wlp_ret [simp]: "wlp (ret a) Q = Q a"
  by (rule ext) (simp add: wlp_def ret_def)

lemma wlp_fail [simp]: "wlp (fail e) Q = (\<lambda>s. True)"
  by (rule ext) (simp add: wlp_def fail_def)

lemma wlp_panic [simp]: "wlp panic Q = (\<lambda>s. True)"
  by (rule ext) (simp add: wlp_def panic_def)

lemma wlp_bnd [simp]: "wlp (bnd m f) Q = wlp m (\<lambda>a. wlp (f a) Q)"
  by (rule ext) (auto simp: wlp_def bnd_def split: result.splits)

lemma wlp_gets [simp]: "wlp (gets f) Q = (\<lambda>s. Q (f s) s)"
  by (rule ext) (simp add: wlp_def gets_def)

lemma wlp_modify [simp]: "wlp (modify f) Q = (\<lambda>s. Q () (f s))"
  by (rule ext) (simp add: wlp_def modify_def)

lemma wlp_lift_result [simp]: "wlp (lift_result r) Q = (\<lambda>s. \<forall>a. r = Ok a \<longrightarrow> Q a s)"
  by (rule ext) (simp add: wlp_def lift_result_def split: result.splits)

lemma wlp_on_field [simp]:
  "wlp (on_field get put conv m) Q = (\<lambda>s. wlp m (\<lambda>a x. Q a (put x s)) (get s))"
  by (rule ext) (auto simp: wlp_def on_field_def split: result.splits)

lemma wlp_if [simp]: "wlp (if b then m else n) Q s = (if b then wlp m Q s else wlp n Q s)"
  by simp

lemma wlp_mono: "wlp m Q s \<Longrightarrow> (\<And>a s'. Q a s' \<Longrightarrow> Q' a s') \<Longrightarrow> wlp m Q' s"
  by (auto simp: wlp_def split: result.splits)

lemma wp_imp_wlp: "wp m Q E s \<Longrightarrow> wlp m Q s"
  by (auto simp: wp_def wlp_def split: result.splits)

lemma wp_wlp_conj: "wp m Q E s \<Longrightarrow> wlp m Q' s \<Longrightarrow> wp m (\<lambda>a t. Q a t \<and> Q' a t) E s"
  by (auto simp: wp_def wlp_def split: result.splits)

lemma wlp_True: "wlp m (\<lambda>_ _. True) s"
  by (auto simp: wlp_def split: result.splits)

section \<open>Loops\<close>

text \<open>
  \<open>for_range i n f\<close> is \<open>for j in i..i + n { f(j) }\<close>, \<open>for_each\<close> a loop over a slice, and
  \<open>for_collect\<close> a loop that pushes one element per iteration onto a vector.
\<close>

fun for_range :: "nat \<Rightarrow> nat \<Rightarrow> (nat \<Rightarrow> ('s, 'e, unit) op) \<Rightarrow> ('s, 'e, unit) op" where
  "for_range i 0 f = ret ()"
| "for_range i (Suc n) f = bnd (f i) (\<lambda>_. for_range (Suc i) n f)"

fun for_each :: "'a list \<Rightarrow> ('a \<Rightarrow> ('s, 'e, unit) op) \<Rightarrow> ('s, 'e, unit) op" where
  "for_each [] f = ret ()"
| "for_each (x # xs) f = bnd (f x) (\<lambda>_. for_each xs f)"

fun for_collect :: "nat \<Rightarrow> nat \<Rightarrow> (nat \<Rightarrow> ('s, 'e, 'a) op) \<Rightarrow> ('s, 'e, 'a list) op" where
  "for_collect i 0 f = ret []"
| "for_collect i (Suc n) f =
     bnd (f i) (\<lambda>x. bnd (for_collect (Suc i) n f) (\<lambda>xs. ret (x # xs)))"

fun map_op :: "('a \<Rightarrow> ('s, 'e, 'b) op) \<Rightarrow> 'a list \<Rightarrow> ('s, 'e, 'b list) op" where
  "map_op f [] = ret []"
| "map_op f (x # xs) = bnd (f x) (\<lambda>y. bnd (map_op f xs) (\<lambda>ys. ret (y # ys)))"

lemma wp_for_range:
  assumes "I i s"
    and "\<And>j t. i \<le> j \<Longrightarrow> j < i + n \<Longrightarrow> I j t \<Longrightarrow> wp (f j) (\<lambda>_ t'. I (Suc j) t') E t"
  shows "wp (for_range i n f) (\<lambda>_ t. I (i + n) t) E s"
  using assms
proof (induction n arbitrary: i s)
  case 0
  then show ?case by simp
next
  case (Suc n)
  have "wp (f i) (\<lambda>_ t. I (Suc i) t) E s"
    by (rule Suc.prems(2)) (use Suc.prems(1) in auto)
  then have "wp (f i) (\<lambda>_. wp (for_range (Suc i) n f) (\<lambda>_ t. I (Suc i + n) t) E) E s"
  proof (rule wp_mono)
    fix t assume "I (Suc i) t"
    then show "wp (for_range (Suc i) n f) (\<lambda>_ t. I (Suc i + n) t) E t"
      by (rule Suc.IH) (use Suc.prems(2) in auto)
  qed
  then show ?case by simp
qed

lemma for_collect_pure:
  assumes "\<And>j. i \<le> j \<Longrightarrow> j < i + n \<Longrightarrow> f j s = Ok (g j, s)"
  shows "for_collect i n f s = Ok (map g [i..<i + n], s)"
  using assms
proof (induction n arbitrary: i)
  case 0
  then show ?case by (simp add: ret_def)
next
  case (Suc n)
  have "for_collect (Suc i) n f s = Ok (map g [Suc i..<Suc i + n], s)"
    by (rule Suc.IH) (use Suc.prems in auto)
  moreover have "f i s = Ok (g i, s)"
    by (rule Suc.prems) auto
  ultimately show ?case
    by (simp add: bnd_def ret_def upt_conv_Cons del: upt_Suc)
qed

section \<open>Slices of lists\<close>

text \<open>
  \<open>sub_slice xs off n\<close> is \<open>&xs[off..off+n]\<close>; \<open>overwrite xs off ys\<close> is \<open>xs\<close> after
  \<open>xs[off..off+ys.len()].copy_from_slice(ys)\<close>, both in bounds.
\<close>

definition sub_slice :: "'a list \<Rightarrow> nat \<Rightarrow> nat \<Rightarrow> 'a list" where
  "sub_slice xs off n = take n (drop off xs)"

definition overwrite :: "'a list \<Rightarrow> nat \<Rightarrow> 'a list \<Rightarrow> 'a list" where
  "overwrite xs off ys = take off xs @ ys @ drop (off + length ys) xs"

lemma length_sub_slice [simp]: "off + n \<le> length xs \<Longrightarrow> length (sub_slice xs off n) = n"
  by (simp add: sub_slice_def)

lemma length_overwrite [simp]:
  "off + length ys \<le> length xs \<Longrightarrow> length (overwrite xs off ys) = length xs"
  by (simp add: overwrite_def)

lemma sub_slice_0 [simp]: "sub_slice xs off 0 = []"
  by (simp add: sub_slice_def)

lemma overwrite_Nil [simp]: "overwrite xs off [] = xs"
  by (simp add: overwrite_def)

lemma nth_sub_slice: "off + n \<le> length xs \<Longrightarrow> i < n \<Longrightarrow> sub_slice xs off n ! i = xs ! (off + i)"
  by (simp add: sub_slice_def)

lemma nth_overwrite:
  "off + length ys \<le> length xs \<Longrightarrow> i < length xs \<Longrightarrow>
     overwrite xs off ys ! i =
       (if off \<le> i \<and> i < off + length ys then ys ! (i - off) else xs ! i)"
  by (auto simp: overwrite_def nth_append)

lemma sub_slice_overwrite_same [simp]:
  "off + length ys \<le> length xs \<Longrightarrow> n = length ys \<Longrightarrow> sub_slice (overwrite xs off ys) off n = ys"
  by (simp add: sub_slice_def overwrite_def)

lemma sub_slice_overwrite_disjoint:
  assumes "off + length ys \<le> length xs" "off' + n \<le> length xs"
    and "off' + n \<le> off \<or> off + length ys \<le> off'"
  shows "sub_slice (overwrite xs off ys) off' n = sub_slice xs off' n"
  using assms by (intro nth_equalityI) (auto simp: nth_sub_slice nth_overwrite)

lemma overwrite_overwrite_adjacent:
  assumes "off + length ys + length zs \<le> length xs"
  shows "overwrite (overwrite xs off ys) (off + length ys) zs = overwrite xs off (ys @ zs)"
  using assms by (intro nth_equalityI) (auto simp: nth_overwrite nth_append)

end
