(* ===== verification/Errors.thy ===== *)
theory Errors
  imports Prelude
begin

text \<open>
  The index newtypes and type descriptions of \<open>module/mod.rs\<close> and the error values of
  \<open>error.rs\<close>. Everything rendered as text by \<open>Display\<close> is carried as data; the strings the
  code formats into an error (the operands of a failed division, the float of a failed
  truncation, the value of a mismatched global, the signatures of a mismatched indirect call) are carried as the values they are
  formatted from. \<open>anyhow::Error\<close> is opaque to the code and is a string here.
\<close>

section \<open>Module entity indices and types\<close>

type_synonym FuncIndex = u32
type_synonym TyIndex = u32
type_synonym GlobalIndex = u32
type_synonym TableIndex = u32
type_synonym LocalIndex = u32

text \<open>
  \<open>wasmparser::RefType\<close> is an opaque bit pattern for this crate: it is stored, compared and
  printed, and no other operation of the modelled code looks at it.
\<close>

datatype RefType = RefType nat

datatype ValType = T_I32 | T_I64 | T_F32 | T_F64 | T_V128 | T_Ref RefType

record FuncType =
  ft_params :: "ValType list"
  ft_results :: "ValType list"

datatype FuncKind = Local | Imported string string

record FuncDecl =
  fd_kind :: FuncKind
  fd_ty :: TyIndex

record GlobalType =
  gt_content_type :: ValType
  gt_mutable :: bool

section \<open>Tagged values\<close>

type_synonym f32 = u32
type_synonym f64 = u64

datatype Val = I32 u32 | I64 u64 | F32 f32 | F64 f64 | Ref "FuncIndex option"

section \<open>Errors\<close>

datatype MemoryAccessKind = Read | Write

datatype MemoryError =
    OutOfBoundsAccess MemoryAccessKind usize usize
  | EffectiveAddressOverflow u32 u32
  | GrowFailed nat nat nat

text \<open>
  The five error types refer to one another: a failed host call is a \<open>TraceWasmError\<close> inside an
  \<open>InstructionExecutionError\<close>, and a failed \<open>start\<close> function is a whole \<open>FuncCallError\<close>, with
  its backtrace, inside a \<open>TraceWasmError\<close>.
\<close>

datatype TraceWasmError =
    StartFunctionError FuncCallError
  | ImportedFunctionNotCallable u32
  | MemoryErr MemoryError
  | Unsupported string
  | IncorrectParamsResultsStructure string u32 "ValType list" "ValType list"
  | ImportNotFound string string
  | ImportCountMismatch nat nat
  | ImportSignatureMismatch string string string "ValType list" "ValType list"
  | ImportGlobalTypeMismatch string string ValType Val
  | ImportGlobalCountMismatch nat nat
  | TableTooLarge nat nat
  | MemoryTooLarge nat nat
  | RegisterFrameTooLarge string nat nat
  | ToManyUniqueValues string nat nat
  | ElementSegmentOutOfBounds usize usize usize
  | ExportNotFound string
  | ExportNotA string
  | Parsing string
  | CallToImportedItemReturnedError string
  | UtilsError nat nat
and InstructionExecutionError =
    UnreachableTrap
  | CallErr FuncIndex TraceWasmError
  | CallStackExhausted nat
  | CallIndirectErr TableIndex CallIndirectError
  | Memory MemoryError
  | Division int int
  | Remainder int int
  | FloatToIntTruncation u64 string
and CallIndirectError =
    TableSlotOutOfBounds
  | NullElementInTable
  | FunctionSignatureMismatch
      "ValType list \<times> ValType list" "ValType list \<times> ValType list"
  | FunctionCall FuncIndex TraceWasmError
and TraceRecordKind =
    CallRecord FuncIndex "TableIndex option"
  | NonCall InstructionExecutionError
and TraceRecord =
    TraceRecord (tr_func_index: FuncIndex) (tr_instr_index: nat)
      (tr_kind: TraceRecordKind) (tr_instr_offset: nat)
and FuncCallError =
    FuncCallError (fce_func_name: string) (fce_trace: "TraceRecord list")

text \<open>
  \<open>FuncCallError::cause\<close>: the leaf record is always a \<open>NonCall\<close>; anything else is the
  \<open>unreachable\<close> panic, as is an empty trace (an index out of bounds).
\<close>

definition cause :: "FuncCallError \<Rightarrow> ('e, InstructionExecutionError) result" where
  "cause err = (case fce_trace err of
      [] \<Rightarrow> Panic
    | r # _ \<Rightarrow> (case tr_kind r of NonCall e \<Rightarrow> Ok e | CallRecord _ _ \<Rightarrow> Panic))"

end
