(* ===== verification/MemoryView.thy ===== *)
theory MemoryView
  imports Errors
begin

text \<open>
  \<open>memory/mod.rs\<close>: the \<open>MemoryView\<close> and \<open>Memory\<close> traits. A trait with its implementation is a
  record of operations (\<open>memory_impl\<close>), which the interpreter takes as an argument the way the
  Rust code is generic over \<open>M: Memory\<close>. The trait's default methods are functions of the
  methods they call. The locale \<open>memory_view\<close> is the contract that the trait's documentation
  states; the lemmas proved in it are the ones the interpreter's theorems rest on.

  Reads are operations on the memory too, not functions of it: an embedder's memory may
  record them (\<open>CountingMemory\<close> of \<open>bin/playground\<close> does).
\<close>

unbundle bit_operations_syntax

definition WASM_MEMORY_PAGE_SIZE :: nat where "WASM_MEMORY_PAGE_SIZE = 64 * 1024"

section \<open>Little-endian bytes\<close>

text \<open>\<open>from_le_bytes\<close> and \<open>to_le_bytes\<close> of the Rust integers.\<close>

fun from_le_bytes :: "u8 list \<Rightarrow> 'a::len word" where
  "from_le_bytes [] = 0"
| "from_le_bytes (b # bs) = ucast b OR push_bit 8 (from_le_bytes bs)"

fun to_le_bytes :: "nat \<Rightarrow> 'a::len word \<Rightarrow> u8 list" where
  "to_le_bytes 0 w = []"
| "to_le_bytes (Suc n) w = ucast w # to_le_bytes n (drop_bit 8 w)"

lemma length_to_le_bytes [simp]: "length (to_le_bytes n w) = n"
  by (induction n arbitrary: w) auto

lemma from_to_le_bytes:
  "from_le_bytes (to_le_bytes n w) = take_bit (8 * n) w"
proof (induction n arbitrary: w)
  case 0
  then show ?case by simp
next
  case (Suc n)
  show ?case
    by (rule bit_word_eqI)
      (auto simp: Suc.IH bit_simps not_less dest: bit_imp_le_length)
qed

lemma le_bytes_u8 [simp]: "from_le_bytes (to_le_bytes 1 w) = (w :: u8)"
  and le_bytes_u16 [simp]: "from_le_bytes (to_le_bytes 2 w16) = (w16 :: u16)"
  and le_bytes_u32 [simp]: "from_le_bytes (to_le_bytes 4 w32) = (w32 :: u32)"
  and le_bytes_u64 [simp]: "from_le_bytes (to_le_bytes 8 w64) = (w64 :: u64)"
  by (simp_all only: from_to_le_bytes, simp_all add: take_bit_word_eq_self)

section \<open>The traits\<close>

record 'm memory_impl =
  mv_size_in_bytes :: "'m \<Rightarrow> usize"
  mv_size_in_pages :: "'m \<Rightarrow> nat"
  mv_copy_within :: "usize \<Rightarrow> usize \<Rightarrow> usize \<Rightarrow> ('m, MemoryError, unit) op"
  mv_fill :: "usize \<Rightarrow> u32 \<Rightarrow> usize \<Rightarrow> ('m, MemoryError, unit) op"
  mv_read :: "usize \<Rightarrow> usize \<Rightarrow> ('m, MemoryError, u8 list) op"
  mv_write :: "usize \<Rightarrow> u8 list \<Rightarrow> ('m, MemoryError, unit) op"
  mv_read_u8 :: "usize \<Rightarrow> ('m, MemoryError, u8) op"
  mv_read_i8 :: "usize \<Rightarrow> ('m, MemoryError, u8) op"
  mv_write_u8 :: "usize \<Rightarrow> u8 \<Rightarrow> ('m, MemoryError, unit) op"
  mv_read_u16 :: "usize \<Rightarrow> ('m, MemoryError, u16) op"
  mv_read_i16 :: "usize \<Rightarrow> ('m, MemoryError, u16) op"
  mv_write_u16 :: "usize \<Rightarrow> u16 \<Rightarrow> ('m, MemoryError, unit) op"
  mv_read_u32 :: "usize \<Rightarrow> ('m, MemoryError, u32) op"
  mv_read_i32 :: "usize \<Rightarrow> ('m, MemoryError, u32) op"
  mv_write_u32 :: "usize \<Rightarrow> u32 \<Rightarrow> ('m, MemoryError, unit) op"
  mv_read_u64 :: "usize \<Rightarrow> ('m, MemoryError, u64) op"
  mv_read_i64 :: "usize \<Rightarrow> ('m, MemoryError, u64) op"
  mv_write_u64 :: "usize \<Rightarrow> u64 \<Rightarrow> ('m, MemoryError, unit) op"
  mv_read_f32 :: "usize \<Rightarrow> ('m, MemoryError, u32) op"
  mv_write_f32 :: "usize \<Rightarrow> u32 \<Rightarrow> ('m, MemoryError, unit) op"
  mv_read_f64 :: "usize \<Rightarrow> ('m, MemoryError, u64) op"
  mv_write_f64 :: "usize \<Rightarrow> u64 \<Rightarrow> ('m, MemoryError, unit) op"
  mv_allocate_initial_memory :: "nat \<Rightarrow> 'm"
  mv_grow :: "nat \<Rightarrow> nat \<Rightarrow> ('m, MemoryError, nat) op"

section \<open>Default methods\<close>

text \<open>The type of the two required access methods that the defaults marshal through.\<close>

type_synonym 'm read_method = "usize \<Rightarrow> usize \<Rightarrow> ('m, MemoryError, u8 list) op"
type_synonym 'm write_method = "usize \<Rightarrow> u8 list \<Rightarrow> ('m, MemoryError, unit) op"

definition default_size_in_pages :: "('m \<Rightarrow> usize) \<Rightarrow> 'm \<Rightarrow> nat" where
  "default_size_in_pages sz m = as_u32 (sz m div WASM_MEMORY_PAGE_SIZE)"

definition CHUNK_LEN :: nat where "CHUNK_LEN = 4096"

text \<open>The chunked loop of the default \<open>fill\<close>: \<open>while written < len\<close>.\<close>

function fill_loop ::
    "'m write_method \<Rightarrow> usize \<Rightarrow> u8 \<Rightarrow> usize \<Rightarrow> usize \<Rightarrow> ('m, MemoryError, unit) op" where
  "fill_loop wr dest b len written =
     (if written < len then
        let n = min (len - written) CHUNK_LEN
        in bnd (wr (dest + written) (replicate n b))
             (\<lambda>_. fill_loop wr dest b len (written + n))
      else ret ())"
  by pat_completeness auto
termination
  by (relation "measure (\<lambda>(wr, dest, b, len, written). len - written)") (auto simp: CHUNK_LEN_def)

declare fill_loop.simps [simp del]

definition default_fill ::
    "('m \<Rightarrow> usize) \<Rightarrow> 'm write_method \<Rightarrow> usize \<Rightarrow> u32 \<Rightarrow> usize \<Rightarrow> ('m, MemoryError, unit) op" where
  "default_fill sz wr dest val len =
     bnd (gets sz) (\<lambda>mem_len.
       case usize_checked_add dest len of
         None \<Rightarrow> fail (OutOfBoundsAccess Write dest mem_len)
       | Some end_ \<Rightarrow>
           if mem_len < end_ then fail (OutOfBoundsAccess Write dest mem_len)
           else fill_loop wr dest (ucast val) len 0)"

definition default_read_u8 :: "'m read_method \<Rightarrow> usize \<Rightarrow> ('m, MemoryError, u8) op" where
  "default_read_u8 rd offset = bnd (rd offset 1) (\<lambda>buf. ret (from_le_bytes buf))"

definition default_read_i8 ::
    "(usize \<Rightarrow> ('m, MemoryError, u8) op) \<Rightarrow> usize \<Rightarrow> ('m, MemoryError, u8) op" where
  "default_read_i8 rd_u8 offset = rd_u8 offset"

definition default_write_u8 :: "'m write_method \<Rightarrow> usize \<Rightarrow> u8 \<Rightarrow> ('m, MemoryError, unit) op" where
  "default_write_u8 wr offset data = wr offset (replicate 1 data)"

definition default_read_u16 :: "'m read_method \<Rightarrow> usize \<Rightarrow> ('m, MemoryError, u16) op" where
  "default_read_u16 rd offset = bnd (rd offset 2) (\<lambda>buf. ret (from_le_bytes buf))"

definition default_read_i16 ::
    "(usize \<Rightarrow> ('m, MemoryError, u16) op) \<Rightarrow> usize \<Rightarrow> ('m, MemoryError, u16) op" where
  "default_read_i16 rd_u16 offset = rd_u16 offset"

definition default_write_u16 ::
    "'m write_method \<Rightarrow> usize \<Rightarrow> u16 \<Rightarrow> ('m, MemoryError, unit) op" where
  "default_write_u16 wr offset data = wr offset (to_le_bytes 2 data)"

definition default_read_u32 :: "'m read_method \<Rightarrow> usize \<Rightarrow> ('m, MemoryError, u32) op" where
  "default_read_u32 rd offset = bnd (rd offset 4) (\<lambda>buf. ret (from_le_bytes buf))"

definition default_read_i32 ::
    "(usize \<Rightarrow> ('m, MemoryError, u32) op) \<Rightarrow> usize \<Rightarrow> ('m, MemoryError, u32) op" where
  "default_read_i32 rd_u32 offset = rd_u32 offset"

definition default_write_u32 ::
    "'m write_method \<Rightarrow> usize \<Rightarrow> u32 \<Rightarrow> ('m, MemoryError, unit) op" where
  "default_write_u32 wr offset data = wr offset (to_le_bytes 4 data)"

definition default_read_u64 :: "'m read_method \<Rightarrow> usize \<Rightarrow> ('m, MemoryError, u64) op" where
  "default_read_u64 rd offset = bnd (rd offset 8) (\<lambda>buf. ret (from_le_bytes buf))"

definition default_read_i64 ::
    "(usize \<Rightarrow> ('m, MemoryError, u64) op) \<Rightarrow> usize \<Rightarrow> ('m, MemoryError, u64) op" where
  "default_read_i64 rd_u64 offset = rd_u64 offset"

definition default_write_u64 ::
    "'m write_method \<Rightarrow> usize \<Rightarrow> u64 \<Rightarrow> ('m, MemoryError, unit) op" where
  "default_write_u64 wr offset data = wr offset (to_le_bytes 8 data)"

text \<open>A float is its bit pattern, so \<open>f32::from_bits\<close> and \<open>to_bits\<close> do not show.\<close>

definition default_read_f32 :: "'m read_method \<Rightarrow> usize \<Rightarrow> ('m, MemoryError, u32) op" where
  "default_read_f32 rd offset = bnd (rd offset 4) (\<lambda>buf. ret (from_le_bytes buf))"

definition default_write_f32 ::
    "'m write_method \<Rightarrow> usize \<Rightarrow> u32 \<Rightarrow> ('m, MemoryError, unit) op" where
  "default_write_f32 wr offset data = wr offset (to_le_bytes 4 data)"

definition default_read_f64 :: "'m read_method \<Rightarrow> usize \<Rightarrow> ('m, MemoryError, u64) op" where
  "default_read_f64 rd offset = bnd (rd offset 8) (\<lambda>buf. ret (from_le_bytes buf))"

definition default_write_f64 ::
    "'m write_method \<Rightarrow> usize \<Rightarrow> u64 \<Rightarrow> ('m, MemoryError, unit) op" where
  "default_write_f64 wr offset data = wr offset (to_le_bytes 8 data)"

section \<open>The contract\<close>

text \<open>
  \<open>reads_value valid c w dec rd\<close>: an accessor of width \<open>w\<close> that decodes the bytes at its offset
  with \<open>dec\<close> when they are all inside the memory, and otherwise fails with the out-of-bounds
  error carrying the requested offset and the current length; the contents do not change.
  \<open>writes_value\<close> and \<open>all_or_nothing\<close> are its counterparts for the operations that write.
\<close>

definition reads_value ::
    "('m \<Rightarrow> bool) \<Rightarrow> ('m \<Rightarrow> u8 list) \<Rightarrow> nat \<Rightarrow> (u8 list \<Rightarrow> 'a) \<Rightarrow>
     (usize \<Rightarrow> ('m, MemoryError, 'a) op) \<Rightarrow> bool" where
  "reads_value valid c w dec rd \<longleftrightarrow> (\<forall>m off. valid m \<longrightarrow>
     wp (rd off)
       (\<lambda>v m'. off + w \<le> length (c m) \<and> v = dec (sub_slice (c m) off w) \<and> c m' = c m \<and> valid m')
       (\<lambda>e m'. length (c m) < off + w \<and> e = OutOfBoundsAccess Read off (length (c m)) \<and>
          c m' = c m \<and> valid m') m)"

definition writes_value ::
    "('m \<Rightarrow> bool) \<Rightarrow> ('m \<Rightarrow> u8 list) \<Rightarrow> nat \<Rightarrow> ('a \<Rightarrow> u8 list) \<Rightarrow>
     (usize \<Rightarrow> 'a \<Rightarrow> ('m, MemoryError, unit) op) \<Rightarrow> bool" where
  "writes_value valid c w enc wr \<longleftrightarrow> (\<forall>m off x. valid m \<longrightarrow>
     wp (wr off x)
       (\<lambda>_ m'. off + w \<le> length (c m) \<and> c m' = overwrite (c m) off (enc x) \<and> valid m')
       (\<lambda>e m'. length (c m) < off + w \<and> e = OutOfBoundsAccess Write off (length (c m)) \<and>
          c m' = c m \<and> valid m') m)"

lemma reads_valueD:
  assumes "reads_value valid c w dec rd" "valid m"
  shows "wp (rd off)
       (\<lambda>v m'. off + w \<le> length (c m) \<and> v = dec (sub_slice (c m) off w) \<and> c m' = c m \<and> valid m')
       (\<lambda>e m'. length (c m) < off + w \<and> e = OutOfBoundsAccess Read off (length (c m)) \<and>
          c m' = c m \<and> valid m') m"
  using assms unfolding reads_value_def by blast

lemma writes_valueD:
  assumes "writes_value valid c w enc wr" "valid m"
  shows "wp (wr off x)
       (\<lambda>_ m'. off + w \<le> length (c m) \<and> c m' = overwrite (c m) off (enc x) \<and> valid m')
       (\<lambda>e m'. length (c m) < off + w \<and> e = OutOfBoundsAccess Write off (length (c m)) \<and>
          c m' = c m \<and> valid m') m"
  using assms unfolding writes_value_def by blast

text \<open>A value written is the value read back, at any width and through any memory.\<close>

lemma write_then_read:
  assumes wr: "writes_value valid c w enc wr" and rd: "reads_value valid c w dec rd"
    and enc: "length (enc x) = w" and dec: "dec (enc x) = x"
    and valid: "valid m" and fits: "off + w \<le> length (c m)"
  shows "wp (bnd (wr off x) (\<lambda>_. rd off)) (\<lambda>v m'. v = x \<and> c m' = overwrite (c m) off (enc x))
           (\<lambda>_ _. False) m"
proof -
  have "wp (wr off x) (\<lambda>_ m'. c m' = overwrite (c m) off (enc x) \<and> valid m') (\<lambda>_ _. False) m"
    using writes_valueD [OF wr valid, of off x] by (rule wp_mono) (use fits in auto)
  then show ?thesis
    unfolding wp_bnd
  proof (rule wp_mono)
    fix a m' assume m': "c m' = overwrite (c m) off (enc x) \<and> valid m'"
    then have "wp (rd off)
       (\<lambda>v m''. off + w \<le> length (c m') \<and> v = dec (sub_slice (c m') off w) \<and> c m'' = c m' \<and> valid m'')
       (\<lambda>e m''. length (c m') < off + w \<and> e = OutOfBoundsAccess Read off (length (c m')) \<and>
          c m'' = c m' \<and> valid m'') m'"
      using reads_valueD [OF rd] by blast
    then show "wp (rd off) (\<lambda>v m'. v = x \<and> c m' = overwrite (c m) off (enc x)) (\<lambda>_ _. False) m'"
      by (rule wp_mono) (use fits enc dec m' in auto)
  qed simp
qed

section \<open>The interface an embedder implements\<close>

text \<open>
  The four required methods of \<open>MemoryView\<close> with the behaviour their documentation states.
  \<open>contents\<close> is what the memory holds, \<open>valid\<close> the implementation's own invariant.
\<close>

locale memory_view =
  fixes sz :: "'m \<Rightarrow> usize"
    and rd :: "'m read_method"
    and wr :: "'m write_method"
    and cp :: "usize \<Rightarrow> usize \<Rightarrow> usize \<Rightarrow> ('m, MemoryError, unit) op"
    and contents :: "'m \<Rightarrow> u8 list"
    and valid :: "'m \<Rightarrow> bool"
  assumes size_law: "valid m \<Longrightarrow> sz m = length (contents m)"
    and size_bound: "valid m \<Longrightarrow> length (contents m) \<le> USIZE_MAX"
    and read_law: "reads_value valid contents n (\<lambda>bs. bs) (\<lambda>off. rd off n)"
    and write_law: "writes_value valid contents (length bs) (\<lambda>_ :: unit. bs) (\<lambda>off _. wr off bs)"
    and copy_law: "valid m \<Longrightarrow>
      wp (cp dest src len)
        (\<lambda>_ m'. src + len \<le> length (contents m) \<and> dest + len \<le> length (contents m) \<and>
           contents m' = overwrite (contents m) dest (sub_slice (contents m) src len) \<and> valid m')
        (\<lambda>e m'. contents m' = contents m \<and> valid m' \<and>
           (if length (contents m) < src + len
            then e = OutOfBoundsAccess Read src (length (contents m))
            else length (contents m) < dest + len \<and>
              e = OutOfBoundsAccess Write dest (length (contents m)))) m"
begin

lemma write_bytes_law:
  "valid m \<Longrightarrow>
     wp (wr off bs)
       (\<lambda>_ m'. off + length bs \<le> length (contents m) \<and> contents m' = overwrite (contents m) off bs \<and> valid m')
       (\<lambda>e m'. length (contents m) < off + length bs \<and>
          e = OutOfBoundsAccess Write off (length (contents m)) \<and> contents m' = contents m \<and> valid m') m"
  using writes_valueD [OF write_law] by blast

lemma read_through:
  "reads_value valid contents n dec (\<lambda>off. bnd (rd off n) (\<lambda>buf. ret (dec buf)))"
  unfolding reads_value_def
proof (intro allI impI)
  fix m off assume "valid m"
  from reads_valueD [OF read_law this, of off n]
  show "wp (bnd (rd off n) (\<lambda>buf. ret (dec buf)))
     (\<lambda>v m'. off + n \<le> length (contents m) \<and> v = dec (sub_slice (contents m) off n) \<and>
        contents m' = contents m \<and> valid m')
     (\<lambda>e m'. length (contents m) < off + n \<and> e = OutOfBoundsAccess Read off (length (contents m)) \<and>
        contents m' = contents m \<and> valid m') m"
    unfolding wp_bnd by (rule wp_mono) auto
qed

lemma write_through:
  "(\<And>x. length (enc x) = n) \<Longrightarrow> writes_value valid contents n enc (\<lambda>off x. wr off (enc x))"
  unfolding writes_value_def
proof (intro allI impI)
  fix m off x
  assume len: "\<And>x. length (enc x) = n" and "valid m"
  from write_bytes_law [OF this(2), of off "enc x"]
  show "wp (wr off (enc x))
     (\<lambda>_ m'. off + n \<le> length (contents m) \<and>
        contents m' = overwrite (contents m) off (enc x) \<and> valid m')
     (\<lambda>e m'. length (contents m) < off + n \<and> e = OutOfBoundsAccess Write off (length (contents m)) \<and>
        contents m' = contents m \<and> valid m') m"
    by (simp only: len)
qed

lemma default_read_laws:
  shows "reads_value valid contents 1 from_le_bytes (default_read_u8 rd)"
    and "reads_value valid contents 2 from_le_bytes (default_read_u16 rd)"
    and "reads_value valid contents 4 from_le_bytes (default_read_u32 rd)"
    and "reads_value valid contents 8 from_le_bytes (default_read_u64 rd)"
    and "reads_value valid contents 4 from_le_bytes (default_read_f32 rd)"
    and "reads_value valid contents 8 from_le_bytes (default_read_f64 rd)"
  unfolding default_read_u8_def [abs_def] default_read_u16_def [abs_def]
    default_read_u32_def [abs_def] default_read_u64_def [abs_def]
    default_read_f32_def [abs_def] default_read_f64_def [abs_def]
  by (rule read_through)+

lemma default_write_laws:
  shows "writes_value valid contents 1 (replicate 1) (default_write_u8 wr)"
    and "writes_value valid contents 2 (to_le_bytes 2) (default_write_u16 wr)"
    and "writes_value valid contents 4 (to_le_bytes 4) (default_write_u32 wr)"
    and "writes_value valid contents 8 (to_le_bytes 8) (default_write_u64 wr)"
    and "writes_value valid contents 4 (to_le_bytes 4) (default_write_f32 wr)"
    and "writes_value valid contents 8 (to_le_bytes 8) (default_write_f64 wr)"
  unfolding default_write_u8_def [abs_def] default_write_u16_def [abs_def]
    default_write_u32_def [abs_def] default_write_u64_def [abs_def]
    default_write_f32_def [abs_def] default_write_f64_def [abs_def]
  by (rule write_through; simp)+

text \<open>
  The chunked loop writes exactly the remaining bytes, and none of its writes can fail: the
  range was checked before the loop.
\<close>

lemma fill_loop_law:
  assumes "valid m" and "written \<le> len" and "dest + len \<le> length (contents m)"
  shows "wp (fill_loop wr dest b len written)
    (\<lambda>_ m'. contents m' = overwrite (contents m) (dest + written) (replicate (len - written) b) \<and> valid m')
    (\<lambda>_ _. False) m"
  using assms
proof (induction "len - written" arbitrary: written m rule: less_induct)
  case less
  show ?case
  proof (cases "written < len")
    case False
    with less.prems show ?thesis by (subst fill_loop.simps) simp
  next
    case True
    define n where "n = min (len - written) CHUNK_LEN"
    from True have n: "0 < n" "written + n \<le> len"
      by (auto simp: n_def CHUNK_LEN_def)
    have "wp (wr (dest + written) (replicate n b))
        (\<lambda>_ m'. contents m' = overwrite (contents m) (dest + written) (replicate n b) \<and> valid m')
        (\<lambda>_ _. False) m"
      using write_bytes_law [OF less.prems(1), of "dest + written" "replicate n b"]
      by (rule wp_mono) (use n less.prems in auto)
    then have "wp (bnd (wr (dest + written) (replicate n b)) (\<lambda>_. fill_loop wr dest b len (written + n)))
        (\<lambda>_ m'. contents m' = overwrite (contents m) (dest + written) (replicate (len - written) b) \<and> valid m')
        (\<lambda>_ _. False) m"
      unfolding wp_bnd
    proof (rule wp_mono)
      fix a m'
      assume m': "contents m' = overwrite (contents m) (dest + written) (replicate n b) \<and> valid m'"
      have "overwrite (contents m') (dest + (written + n)) (replicate (len - (written + n)) b) =
          overwrite (contents m) (dest + written) (replicate (len - written) b)"
        using m' n less.prems
          overwrite_overwrite_adjacent [of "dest + written" "replicate n b"
            "replicate (len - (written + n)) b" "contents m"]
        by (simp add: ac_simps flip: replicate_add)
      moreover have "wp (fill_loop wr dest b len (written + n))
          (\<lambda>_ m''. contents m'' =
             overwrite (contents m') (dest + (written + n)) (replicate (len - (written + n)) b) \<and> valid m'')
          (\<lambda>_ _. False) m'"
        by (rule less.hyps) (use m' n True less.prems in auto)
      ultimately show "wp (fill_loop wr dest b len (written + n))
          (\<lambda>_ m'. contents m' =
             overwrite (contents m) (dest + written) (replicate (len - written) b) \<and> valid m')
          (\<lambda>_ _. False) m'" by simp
    qed simp
    with True show ?thesis
      by (subst fill_loop.simps) (simp add: n_def Let_def)
  qed
qed

lemma default_fill_law:
  assumes "valid m"
  shows "wp (default_fill sz wr dest val len)
    (\<lambda>_ m'. dest + len \<le> length (contents m) \<and>
       contents m' = overwrite (contents m) dest (replicate len (ucast val)) \<and> valid m')
    (\<lambda>e m'. length (contents m) < dest + len \<and>
       e = OutOfBoundsAccess Write dest (length (contents m)) \<and> contents m' = contents m \<and> valid m') m"
proof (cases "dest + len \<le> length (contents m)")
  case True
  with assms size_bound [of m] have fits: "usize_checked_add dest len = Some (dest + len)"
    by (auto simp: usize_checked_add_eq_Some)
  have "wp (fill_loop wr dest (ucast val) len 0)
      (\<lambda>_ m'. contents m' = overwrite (contents m) (dest + 0) (replicate (len - 0) (ucast val)) \<and> valid m')
      (\<lambda>_ _. False) m"
    by (rule fill_loop_law) (use True assms in auto)
  with True fits assms have "wp (default_fill sz wr dest val len)
      (\<lambda>_ m'. contents m' = overwrite (contents m) dest (replicate len (ucast val)) \<and> valid m')
      (\<lambda>_ _. False) m"
    by (simp add: default_fill_def size_law)
  then show ?thesis
    by (rule wp_mono) (use True in auto)
next
  case False
  with assms show ?thesis
    by (auto simp: default_fill_def size_law usize_checked_add_def)
qed

end

text \<open>
  A complete implementation: the sized accessors, \<open>fill\<close>, the page count and the two resizing
  operations, whether inherited or overridden, behave as the trait documents. This is what the
  interpreter assumes of the memory it is given.
\<close>

locale memory_backend =
  memory_view "mv_size_in_bytes D" "mv_read D" "mv_write D" "mv_copy_within D" contents valid
  for D :: "'m memory_impl" and contents :: "'m \<Rightarrow> u8 list" and valid :: "'m \<Rightarrow> bool" +
  assumes pages_law: "valid m \<Longrightarrow> mv_size_in_pages D m = length (contents m) div WASM_MEMORY_PAGE_SIZE"
    and fill_law: "valid m \<Longrightarrow>
      wp (mv_fill D dest val len)
        (\<lambda>_ m'. dest + len \<le> length (contents m) \<and>
           contents m' = overwrite (contents m) dest (replicate len (ucast val)) \<and> valid m')
        (\<lambda>e m'. length (contents m) < dest + len \<and>
           e = OutOfBoundsAccess Write dest (length (contents m)) \<and>
           contents m' = contents m \<and> valid m') m"
    and read_u8_law: "reads_value valid contents 1 from_le_bytes (mv_read_u8 D)"
    and read_i8_law: "reads_value valid contents 1 from_le_bytes (mv_read_i8 D)"
    and read_u16_law: "reads_value valid contents 2 from_le_bytes (mv_read_u16 D)"
    and read_i16_law: "reads_value valid contents 2 from_le_bytes (mv_read_i16 D)"
    and read_u32_law: "reads_value valid contents 4 from_le_bytes (mv_read_u32 D)"
    and read_i32_law: "reads_value valid contents 4 from_le_bytes (mv_read_i32 D)"
    and read_u64_law: "reads_value valid contents 8 from_le_bytes (mv_read_u64 D)"
    and read_i64_law: "reads_value valid contents 8 from_le_bytes (mv_read_i64 D)"
    and read_f32_law: "reads_value valid contents 4 from_le_bytes (mv_read_f32 D)"
    and read_f64_law: "reads_value valid contents 8 from_le_bytes (mv_read_f64 D)"
    and write_u8_law: "writes_value valid contents 1 (replicate 1) (mv_write_u8 D)"
    and write_u16_law: "writes_value valid contents 2 (to_le_bytes 2) (mv_write_u16 D)"
    and write_u32_law: "writes_value valid contents 4 (to_le_bytes 4) (mv_write_u32 D)"
    and write_u64_law: "writes_value valid contents 8 (to_le_bytes 8) (mv_write_u64 D)"
    and write_f32_law: "writes_value valid contents 4 (to_le_bytes 4) (mv_write_f32 D)"
    and write_f64_law: "writes_value valid contents 8 (to_le_bytes 8) (mv_write_f64 D)"
    and alloc_law: "p \<le> U32_MAX \<Longrightarrow>
      valid (mv_allocate_initial_memory D p) \<and>
      contents (mv_allocate_initial_memory D p) = replicate (p * WASM_MEMORY_PAGE_SIZE) 0"
    and grow_law: "valid m \<Longrightarrow> P = length (contents m) div WASM_MEMORY_PAGE_SIZE \<Longrightarrow>
      wp (mv_grow D delta cap)
        (\<lambda>old m'. old = P \<and> P + delta \<le> cap \<and> P + delta \<le> U32_MAX \<and>
           contents m' = contents m @ replicate (delta * WASM_MEMORY_PAGE_SIZE) 0 \<and> valid m')
        (\<lambda>e m'. \<not> (P + delta \<le> cap \<and> P + delta \<le> U32_MAX) \<and> e = GrowFailed cap delta P \<and>
           contents m' = contents m \<and> valid m') m"
begin

lemmas read_laws =
  read_u8_law read_i8_law read_u16_law read_i16_law read_u32_law read_i32_law
  read_u64_law read_i64_law read_f32_law read_f64_law

lemmas write_laws =
  write_u8_law write_u16_law write_u32_law write_u64_law write_f32_law write_f64_law

lemma u32_round_trip:
  "valid m \<Longrightarrow> off + 4 \<le> length (contents m) \<Longrightarrow>
     wp (bnd (mv_write_u32 D off x) (\<lambda>_. mv_read_u32 D off))
       (\<lambda>v m'. v = x \<and> contents m' = overwrite (contents m) off (to_le_bytes 4 x)) (\<lambda>_ _. False) m"
  by (rule write_then_read [OF write_u32_law read_u32_law])
    (simp_all del: to_le_bytes.simps from_le_bytes.simps)

lemma u64_round_trip:
  "valid m \<Longrightarrow> off + 8 \<le> length (contents m) \<Longrightarrow>
     wp (bnd (mv_write_u64 D off x) (\<lambda>_. mv_read_u64 D off))
       (\<lambda>v m'. v = x \<and> contents m' = overwrite (contents m) off (to_le_bytes 8 x)) (\<lambda>_ _. False) m"
  by (rule write_then_read [OF write_u64_law read_u64_law])
    (simp_all del: to_le_bytes.simps from_le_bytes.simps)

end

end
