(* ===== verification/Values.thy ===== *)
theory Values
  imports Errors
begin

text \<open>
  \<open>runtime/value.rs\<close>: the operations of the tagged \<open>Val\<close> of the API boundary (declared in
  \<open>Errors\<close>, since an error carries one), the untagged 64-bit \<open>Value\<close> slot of
  a frame, the conversions between them, and the table, element and data stores. A float is its
  bit pattern: \<open>from_bits\<close> and \<open>to_bits\<close> are the identity, which is what the code relies on for
  NaN payloads and signed zeroes.
\<close>

section \<open>Tagged values\<close>

fun Val_as_i32 :: "Val \<Rightarrow> ('e, u32) result" where
  "Val_as_i32 (I32 v) = Ok v"
| "Val_as_i32 _ = Panic"

fun Val_as_i64 :: "Val \<Rightarrow> ('e, u64) result" where
  "Val_as_i64 (I64 v) = Ok v"
| "Val_as_i64 _ = Panic"

fun Val_as_f32 :: "Val \<Rightarrow> ('e, f32) result" where
  "Val_as_f32 (F32 v) = Ok v"
| "Val_as_f32 _ = Panic"

fun Val_as_f64 :: "Val \<Rightarrow> ('e, f64) result" where
  "Val_as_f64 (F64 v) = Ok v"
| "Val_as_f64 _ = Panic"

fun Val_as_ref :: "Val \<Rightarrow> ('e, FuncIndex option) result" where
  "Val_as_ref (Ref v) = Ok v"
| "Val_as_ref _ = Panic"

fun Val_zero_of_ty :: "ValType \<Rightarrow> ('e, Val) result" where
  "Val_zero_of_ty T_I32 = Ok (I32 0)"
| "Val_zero_of_ty T_I64 = Ok (I64 0)"
| "Val_zero_of_ty T_F32 = Ok (F32 0)"
| "Val_zero_of_ty T_F64 = Ok (F64 0)"
| "Val_zero_of_ty (T_Ref _) = Ok (Ref None)"
| "Val_zero_of_ty T_V128 = Panic"

fun has_ty :: "Val \<Rightarrow> ValType \<Rightarrow> (TraceWasmError, bool) result" where
  "has_ty v T_I32 = Ok (case v of I32 _ \<Rightarrow> True | _ \<Rightarrow> False)"
| "has_ty v T_I64 = Ok (case v of I64 _ \<Rightarrow> True | _ \<Rightarrow> False)"
| "has_ty v T_F32 = Ok (case v of F32 _ \<Rightarrow> True | _ \<Rightarrow> False)"
| "has_ty v T_F64 = Ok (case v of F64 _ \<Rightarrow> True | _ \<Rightarrow> False)"
| "has_ty v (T_Ref _) = Ok (case v of Ref _ \<Rightarrow> True | _ \<Rightarrow> False)"
| "has_ty v T_V128 = Err (Unsupported ''v128 type'')"

section \<open>Untagged slots\<close>

type_synonym Value = u64

definition TAG_SHIFT :: nat where "TAG_SHIFT = 56"

definition TAG_SOME :: u64 where "TAG_SOME = push_bit TAG_SHIFT 1"

definition from_i32 :: "u32 \<Rightarrow> Value" where "from_i32 v = ucast v"

definition from_i64 :: "u64 \<Rightarrow> Value" where "from_i64 v = v"

definition from_f32 :: "f32 \<Rightarrow> Value" where "from_f32 v = ucast v"

definition from_f64 :: "f64 \<Rightarrow> Value" where "from_f64 v = v"

definition from_ref :: "FuncIndex option \<Rightarrow> Value" where
  "from_ref func_ref =
     (let x = (case func_ref of Some x \<Rightarrow> ucast x | None \<Rightarrow> (0 :: u64));
          tag = (if func_ref \<noteq> None then TAG_SOME else 0)
      in tag OR x)"

definition as_i32 :: "Value \<Rightarrow> u32" where "as_i32 v = ucast v"

definition as_i64 :: "Value \<Rightarrow> u64" where "as_i64 v = v"

definition as_f32 :: "Value \<Rightarrow> f32" where "as_f32 v = ucast v"

definition as_f64 :: "Value \<Rightarrow> f64" where "as_f64 v = v"

definition as_ref :: "Value \<Rightarrow> FuncIndex option" where
  "as_ref v =
     (let is_some = (drop_bit TAG_SHIFT v \<noteq> 0); val = (ucast v :: u32)
      in if is_some then Some val else None)"

text \<open>\<open>impl From<&Val> for Value\<close> and \<open>impl From<Val> for Value\<close>.\<close>

fun value_of_val :: "Val \<Rightarrow> Value" where
  "value_of_val (I32 v) = from_i32 v"
| "value_of_val (I64 v) = from_i64 v"
| "value_of_val (F32 v) = from_f32 v"
| "value_of_val (F64 v) = from_f64 v"
| "value_of_val (Ref r) = from_ref r"

fun zero_of_ty :: "ValType \<Rightarrow> ('e, Value) result" where
  "zero_of_ty T_I32 = Ok (from_i32 0)"
| "zero_of_ty T_I64 = Ok (from_i64 0)"
| "zero_of_ty T_F32 = Ok (from_f32 0)"
| "zero_of_ty T_F64 = Ok (from_f64 0)"
| "zero_of_ty (T_Ref _) = Ok (from_i32 0)"
| "zero_of_ty T_V128 = Panic"

fun into_val :: "Value \<Rightarrow> ValType \<Rightarrow> ('e, Val) result" where
  "into_val v T_I32 = Ok (I32 (as_i32 v))"
| "into_val v T_I64 = Ok (I64 (as_i64 v))"
| "into_val v T_F32 = Ok (F32 (as_f32 v))"
| "into_val v T_F64 = Ok (F64 (as_f64 v))"
| "into_val v (T_Ref _) = Ok (Ref (as_ref v))"
| "into_val v T_V128 = Panic"

section \<open>Tables and passive segments\<close>

record TableVal =
  table :: "FuncIndex option list"
  tv_maximum :: nat

datatype ElementVal = ElemDropped | ElemPassive "FuncIndex option list"

datatype DataVal = DataDropped | DataPassive "u8 list"

section \<open>Round trips\<close>

lemma ucast_low_32 [simp]: "(ucast (ucast (x :: u32) :: u64) :: u32) = x"
  by (rule bit_word_eqI) (simp add: bit_simps)

lemma as_from_i32 [simp]: "as_i32 (from_i32 v) = v"
  by (simp add: as_i32_def from_i32_def)

lemma as_from_i64 [simp]: "as_i64 (from_i64 v) = v"
  by (simp add: as_i64_def from_i64_def)

lemma as_from_f32 [simp]: "as_f32 (from_f32 v) = v"
  by (simp add: as_f32_def from_f32_def)

lemma as_from_f64 [simp]: "as_f64 (from_f64 v) = v"
  by (simp add: as_f64_def from_f64_def)

lemma from_i32_0 [simp]: "from_i32 0 = 0"
  by (simp add: from_i32_def)

lemma from_f32_0 [simp]: "from_f32 0 = 0"
  by (simp add: from_f32_def)

lemma from_ref_None [simp]: "from_ref None = 0"
  by (simp add: from_ref_def)

lemma from_ref_Some: "from_ref (Some f) = TAG_SOME OR ucast f"
  by (simp add: from_ref_def)

lemma bit_TAG_SOME: "bit TAG_SOME n \<longleftrightarrow> n = 56"
proof -
  have "TAG_SOME = 2 ^ 56"
    by (simp add: TAG_SOME_def TAG_SHIFT_def)
  then show ?thesis
    using bit_exp_iff [where ?'a = u64, of 56 n] by (auto simp: possible_bit_def)
qed

lemma not_bit_u32 [simp]: "32 \<le> n \<Longrightarrow> \<not> bit (f :: u32) n"
  using bit_imp_le_length [of f n] by auto

lemma drop_bit_tag [simp]: "drop_bit TAG_SHIFT (TAG_SOME OR ucast (f :: u32)) = (1 :: u64)"
  by (rule bit_word_eqI) (auto simp: bit_simps bit_TAG_SOME TAG_SHIFT_def)

lemma low_tag [simp]: "(ucast (TAG_SOME OR (ucast (f :: u32) :: u64)) :: u32) = f"
  by (rule bit_word_eqI) (auto simp: bit_simps bit_TAG_SOME)

lemma as_from_ref [simp]: "as_ref (from_ref r) = r"
proof (cases r)
  case None
  then show ?thesis by (simp add: as_ref_def)
next
  case (Some f)
  have "drop_bit TAG_SHIFT (TAG_SOME OR ucast f) \<noteq> (0 :: u64)"
    by (simp only: drop_bit_tag) simp
  with Some show ?thesis
    by (simp add: as_ref_def from_ref_Some del: drop_bit_or)
qed

end
