(* ===== verification/OperandStack.thy ===== *)
theory OperandStack
  imports Values
begin

text \<open>
  \<open>runtime/stack.rs\<close>: the operand stack, whose height \<open>stack_pointer\<close> is decoupled from the
  length of its backing vector, and the \<open>RuntimeFrame\<close> operations of the stack machine on it.
  The locale \<open>lifo\<close> states what the interpreter relies on, in terms of the live values; the
  stack implements it as long as its height does not pass its backing vector.
\<close>

section \<open>The stack\<close>

record 'a stack =
  backing :: "'a list"
  stack_pointer :: usize

definition new_stack :: "'a stack" where
  "new_stack = \<lparr>backing = [], stack_pointer = 0\<rparr>"

definition top :: "('a stack, 'e, 'a) op" where
  "top = bnd (gets stack_pointer) (\<lambda>sp.
     if sp = 0 then panic else bnd (gets backing) (\<lambda>b. lift_result (index b (sp - 1))))"

definition stack_reset :: "('a stack, 'e, unit) op" where
  "stack_reset = modify (stack_pointer_update (\<lambda>_. 0))"

definition height :: "'a stack \<Rightarrow> nat" where
  "height s = as_u32 (stack_pointer s)"

definition push_grow :: "'a \<Rightarrow> ('a stack, 'e, unit) op" where
  "push_grow val = modify (\<lambda>s.
     s\<lparr>backing := backing s @ [val], stack_pointer := stack_pointer s + 1\<rparr>)"

definition push :: "'a \<Rightarrow> ('a stack, 'e, unit) op" where
  "push val = (\<lambda>s.
     if stack_pointer s < length (backing s)
     then modify (\<lambda>s. s\<lparr>backing := (backing s)[stack_pointer s := val],
                          stack_pointer := stack_pointer s + 1\<rparr>) s
     else push_grow val s)"

definition pop :: "('a stack, 'e, 'a) op" where
  "pop = bnd (gets stack_pointer) (\<lambda>sp0.
     if sp0 = 0 then panic
     else let sp = sp0 - 1 in
       bnd (gets backing) (\<lambda>b.
       bnd (lift_result (index b sp)) (\<lambda>val.
       bnd (modify (stack_pointer_update (\<lambda>_. sp))) (\<lambda>_.
       ret val))))"

text \<open>\<open>self.stack[i].clone()\<close> and \<open>self.stack[i] = x\<close>, both a panic out of bounds.\<close>

definition slot :: "usize \<Rightarrow> ('a stack, 'e, 'a) op" where
  "slot i = bnd (gets backing) (\<lambda>b. lift_result (index b i))"

definition set_slot :: "usize \<Rightarrow> 'a \<Rightarrow> ('a stack, 'e, unit) op" where
  "set_slot i x = bnd (gets (length o backing)) (\<lambda>n.
     if i < n then modify (\<lambda>s. s\<lparr>backing := (backing s)[i := x]\<rparr>) else panic)"

definition lower_pointer :: "usize \<Rightarrow> ('a stack, 'e, unit) op" where
  "lower_pointer num = bnd (gets stack_pointer) (\<lambda>sp.
     bnd (lift_result (usize_sub sp num)) (\<lambda>sp'.
     modify (stack_pointer_update (\<lambda>_. sp'))))"

definition pops :: "nat \<Rightarrow> ('a stack, 'e, 'a list) op" where
  "pops num = bnd (gets stack_pointer) (\<lambda>sp.
     bnd (for_collect 0 num (\<lambda>i.
       bnd (lift_result (usize_sub sp 1)) (\<lambda>t. bnd (lift_result (usize_sub t i)) slot))) (\<lambda>v.
     bnd (lower_pointer num) (\<lambda>_. ret v)))"

definition pops_and_reverse :: "nat \<Rightarrow> ('a stack, 'e, 'a list) op" where
  "pops_and_reverse num = bnd (gets stack_pointer) (\<lambda>sp.
     bnd (for_collect 0 num (\<lambda>i.
       bnd (lift_result (usize_sub sp num)) (\<lambda>base. slot (base + i)))) (\<lambda>v.
     bnd (lower_pointer num) (\<lambda>_. ret v)))"

definition stack_truncate :: "nat \<Rightarrow> ('a stack, 'e, unit) op" where
  "stack_truncate new_height = modify (stack_pointer_update (\<lambda>_. new_height))"

definition truncate_by_preserving_arity :: "nat \<Rightarrow> nat \<Rightarrow> ('a stack, 'e, unit) op" where
  "truncate_by_preserving_arity new_height arity = bnd (gets stack_pointer) (\<lambda>sp.
     bnd (for_range 0 arity (\<lambda>i.
       bnd (lift_result (usize_sub sp arity)) (\<lambda>base.
       bnd (slot (base + i)) (\<lambda>x.
       set_slot (new_height + i) x)))) (\<lambda>_.
     modify (stack_pointer_update (\<lambda>_. new_height + arity))))"

definition tee :: "('a stack, 'e, 'a) op" where
  "tee = bnd (gets stack_pointer) (\<lambda>sp. bnd (lift_result (usize_sub sp 1)) slot)"

definition peek_from_top :: "nat \<Rightarrow> ('a stack, 'e, 'a) op" where
  "peek_from_top depth = bnd (gets height) (\<lambda>h.
     bnd (lift_result (u32_sub h 1)) (\<lambda>t. bnd (lift_result (u32_sub t depth)) slot))"

section \<open>\<open>impl RuntimeFrame for Stack<Value>\<close>\<close>

record StackCallerBaseData =
  base_height :: nat
  callee_frame_base_height :: nat

definition set_initial_params :: "Val list \<Rightarrow> (Value stack, 'e, unit) op" where
  "set_initial_params params = for_each params (\<lambda>param. push (value_of_val param))"

definition get_params_for_import_call ::
    "nat \<Rightarrow> StackCallerBaseData \<Rightarrow> (Value stack, 'e, Value list) op" where
  "get_params_for_import_call params_count _ = bnd (gets stack_pointer) (\<lambda>sp.
     bnd (for_collect 0 params_count (\<lambda>i.
       bnd (lift_result (usize_sub sp params_count)) (\<lambda>base. slot (base + i)))) (\<lambda>s.
     bnd (lower_pointer params_count) (\<lambda>_. ret s)))"

definition set_results_from_import_call ::
    "Val list \<Rightarrow> StackCallerBaseData \<Rightarrow> (Value stack, 'e, unit) op" where
  "set_results_from_import_call results _ = for_each results (\<lambda>res. push (value_of_val res))"

definition get_final_results :: "nat \<Rightarrow> (Value stack, 'e, Value list) op" where
  "get_final_results results_count = bnd (gets stack_pointer) (\<lambda>sp.
     bnd (for_collect 0 results_count (\<lambda>i.
       bnd (lift_result (usize_sub sp results_count)) (\<lambda>base. slot (base + i)))) (\<lambda>s.
     bnd (lower_pointer results_count) (\<lambda>_. ret s)))"

text \<open>
  The caller's base data comes back with the callee's operand base filled in. The locals of a
  function are its parameters, which the caller pushed, followed by the declared locals, which
  are pushed as zeroes here.
\<close>

definition enter_frame ::
    "nat \<Rightarrow> ValType list \<Rightarrow> StackCallerBaseData \<Rightarrow> (Value stack, 'e, StackCallerBaseData) op" where
  "enter_frame params_count locals_ty caller_base_data =
     (if length locals_ty < params_count then panic
      else bnd (for_range 0 (length locals_ty - params_count) (\<lambda>i.
             bnd (lift_result (index locals_ty (i + params_count))) (\<lambda>ty.
             bnd (lift_result (zero_of_ty ty)) push))) (\<lambda>_.
           bnd (lift_result (u32_add (base_height caller_base_data) (as_u32 (length locals_ty)))) (\<lambda>h.
           ret (caller_base_data\<lparr>callee_frame_base_height := h\<rparr>))))"

definition exit_frame :: "nat \<Rightarrow> StackCallerBaseData \<Rightarrow> (Value stack, 'e, unit) op" where
  "exit_frame results_count caller_base_data =
     truncate_by_preserving_arity (base_height caller_base_data) results_count"

section \<open>The contract\<close>

text \<open>
  \<open>rep s vs\<close>: the stack \<open>s\<close> holds the values \<open>vs\<close>, deepest first. What the interpreter needs
  of an operand stack is that the four basic operations and the two unwinding ones act on
  \<open>vs\<close> alone.
\<close>

locale lifo =
  fixes rep :: "'s \<Rightarrow> 'a list \<Rightarrow> bool"
    and psh :: "'a \<Rightarrow> ('s, 'e, unit) op"
    and pp :: "('s, 'e, 'a) op"
    and tp :: "('s, 'e, 'a) op"
  assumes push_law: "rep s vs \<Longrightarrow> wp (psh v) (\<lambda>_ s'. rep s' (vs @ [v])) E s"
    and pop_law: "rep s (vs @ [v]) \<Longrightarrow> wp pp (\<lambda>x s'. x = v \<and> rep s' vs) E s"
    and top_law: "rep s (vs @ [v]) \<Longrightarrow> wp tp (\<lambda>x s'. x = v \<and> s' = s) E s"
begin

lemma push_wp: "rep s vs \<Longrightarrow> (\<And>s'. rep s' (vs @ [v]) \<Longrightarrow> Q () s') \<Longrightarrow> wp (psh v) Q E s"
  by (rule wp_mono [OF push_law]) auto

lemma pop_wp: "rep s (vs @ [v]) \<Longrightarrow> (\<And>s'. rep s' vs \<Longrightarrow> Q v s') \<Longrightarrow> wp pp Q E s"
  by (rule wp_mono [OF pop_law]) auto

lemma top_wp: "rep s (vs @ [v]) \<Longrightarrow> Q v s \<Longrightarrow> wp tp Q E s"
  by (rule wp_mono [OF top_law]) auto

lemma push_each:
  "rep s vs \<Longrightarrow> wp (for_each xs (\<lambda>x. psh (f x))) (\<lambda>_ s'. rep s' (vs @ map f xs)) E s"
proof (induction xs arbitrary: s vs)
  case Nil
  then show ?case by simp
next
  case (Cons x xs)
  have "wp (for_each xs (\<lambda>x. psh (f x))) (\<lambda>_ s'. rep s' (vs @ f x # map f xs)) E s'"
    if "rep s' (vs @ [f x])" for s'
    using Cons.IH [OF that] by simp
  with Cons.prems show ?case by (auto intro: push_wp)
qed

end

locale unwinding_stack = lifo rep psh pp tp
  for rep :: "'s \<Rightarrow> 'a list \<Rightarrow> bool"
    and psh :: "'a \<Rightarrow> ('s, 'e, unit) op" and pp and tp +
  fixes trunc :: "nat \<Rightarrow> ('s, 'e, unit) op"
    and unwind :: "nat \<Rightarrow> nat \<Rightarrow> ('s, 'e, unit) op"
  assumes truncate_law: "rep s vs \<Longrightarrow> n \<le> length vs \<Longrightarrow> wp (trunc n) (\<lambda>_ s'. rep s' (take n vs)) E s"
    and unwind_law: "rep s vs \<Longrightarrow> n + arity \<le> length vs \<Longrightarrow>
      wp (unwind n arity) (\<lambda>_ s'. rep s' (take n vs @ drop (length vs - arity) vs)) E s"
begin

lemma truncate_wp:
  "rep s vs \<Longrightarrow> n \<le> length vs \<Longrightarrow> (\<And>s'. rep s' (take n vs) \<Longrightarrow> Q () s') \<Longrightarrow> wp (trunc n) Q E s"
  by (rule wp_mono [OF truncate_law]) auto

lemma unwind_wp:
  "rep s (us @ ws @ rs) \<Longrightarrow> n = length us \<Longrightarrow> k = length rs \<Longrightarrow>
     (\<And>s'. rep s' (us @ rs) \<Longrightarrow> Q () s') \<Longrightarrow> wp (unwind n k) Q E s"
  by (rule wp_mono [OF unwind_law]) (auto simp: add.commute)

end

section \<open>The stack implements it\<close>

definition stack_inv :: "'a stack \<Rightarrow> bool" where
  "stack_inv s \<longleftrightarrow> stack_pointer s \<le> length (backing s)"

definition live :: "'a stack \<Rightarrow> 'a list" where
  "live s = take (stack_pointer s) (backing s)"

definition holds :: "'a stack \<Rightarrow> 'a list \<Rightarrow> bool" where
  "holds s vs \<longleftrightarrow> stack_inv s \<and> live s = vs"

lemma holds_pointer: "holds s vs \<Longrightarrow> stack_pointer s = length vs"
  by (auto simp: holds_def stack_inv_def live_def)

lemma holds_bound: "holds s vs \<Longrightarrow> length vs \<le> length (backing s)"
  by (auto simp: holds_def stack_inv_def live_def)

lemma holds_nth: "holds s vs \<Longrightarrow> i < length vs \<Longrightarrow> backing s ! i = vs ! i"
  by (auto simp: holds_def stack_inv_def live_def)

lemma holdsI:
  "stack_pointer s = length vs \<Longrightarrow> length vs \<le> length (backing s) \<Longrightarrow>
     (\<And>i. i < length vs \<Longrightarrow> backing s ! i = vs ! i) \<Longrightarrow> holds s vs"
  by (auto simp: holds_def stack_inv_def live_def intro!: nth_equalityI)

lemma holds_new [simp]: "holds new_stack []"
  by (simp add: holds_def stack_inv_def live_def new_stack_def)

lemma wp_slot:
  "holds s vs \<Longrightarrow> i < length vs \<Longrightarrow> wp (slot i) Q E s = Q (vs ! i) s"
  using holds_bound [of s vs] holds_nth [of s vs i] by (simp add: slot_def index_def)

lemma slot_Ok: "holds s vs \<Longrightarrow> i < length vs \<Longrightarrow> slot i s = Ok (vs ! i, s)"
  using holds_bound [of s vs] holds_nth [of s vs i]
  by (simp add: slot_def index_def bnd_def gets_def lift_result_def)

lemma holds_push: "holds s vs \<Longrightarrow> wp (push v) (\<lambda>_ s'. holds s' (vs @ [v])) E s"
  using holds_pointer [of s vs] holds_bound [of s vs] holds_nth [of s vs]
  by (auto simp: push_def push_grow_def wp_def modify_def nth_append less_Suc_eq intro!: holdsI)

lemma holds_lower: "holds s vs \<Longrightarrow> n \<le> length vs \<Longrightarrow> holds (s\<lparr>stack_pointer := n\<rparr>) (take n vs)"
  using holds_bound [of s vs] holds_nth [of s vs] by (auto intro!: holdsI)

lemma holds_pop: "holds s (vs @ [v]) \<Longrightarrow> wp pop (\<lambda>x s'. x = v \<and> holds s' vs) E s"
  using holds_pointer [of s "vs @ [v]"] holds_bound [of s "vs @ [v]"]
    holds_nth [of s "vs @ [v]" "length vs"] holds_lower [of s "vs @ [v]" "length vs"]
  by (auto simp: pop_def Let_def index_def)

lemma holds_top: "holds s (vs @ [v]) \<Longrightarrow> wp top (\<lambda>x s'. x = v \<and> s' = s) E s"
  using holds_pointer [of s "vs @ [v]"] holds_bound [of s "vs @ [v]"]
    holds_nth [of s "vs @ [v]" "length vs"]
  by (auto simp: top_def index_def)

lemma holds_unwind:
  assumes s: "holds (s :: 'a stack) vs" and fits: "n + arity \<le> length vs"
  shows "wp (truncate_by_preserving_arity n arity)
    (\<lambda>_ s'. holds s' (take n vs @ drop (length vs - arity) vs)) E s"
proof -
  let ?base = "length vs - arity"
  define I where "I i t \<longleftrightarrow> stack_pointer t = length vs \<and> length (backing t) = length (backing s) \<and>
      (\<forall>k < length vs. backing t ! k = (if n \<le> k \<and> k < n + i then vs ! (?base + (k - n)) else vs ! k))"
    for i and t :: "'a stack"
  have sp: "stack_pointer s = length vs" and bound: "length vs \<le> length (backing s)"
    using s by (auto dest: holds_pointer holds_bound)
  have "wp (for_range 0 arity (\<lambda>i.
       bnd (lift_result (usize_sub (length vs) arity)) (\<lambda>base.
       bnd (slot (base + i)) (\<lambda>x. set_slot (n + i) x)))) (\<lambda>_ t. I (0 + arity) t) E s"
  proof (rule wp_for_range)
    show "I 0 s" using sp s by (auto simp: I_def holds_nth)
  next
    fix j t assume j: "j < 0 + arity" and t: "I j t"
    have "backing t ! (?base + j) = vs ! (?base + j)"
      using t j fits by (auto simp: I_def)
    moreover have "k = n + j" if "k < Suc (n + j)" "\<not> k < n + j" for k
      using that by simp
    ultimately show "wp (bnd (lift_result (usize_sub (length vs) arity)) (\<lambda>base.
       bnd (slot (base + j)) (\<lambda>x. set_slot (n + j) x))) (\<lambda>_ t'. I (Suc j) t') E t"
      using t j fits bound
      by (auto simp: I_def usize_sub_def slot_def set_slot_def index_def nth_list_update)
  qed
  then show ?thesis
    unfolding truncate_by_preserving_arity_def wp_bnd wp_gets sp
  proof (rule wp_mono, goal_cases)
    case (1 a t)
    then have len: "length (backing t) = length (backing s)"
      and nth: "\<And>k. k < length vs \<Longrightarrow>
        backing t ! k = (if n \<le> k \<and> k < n + arity then vs ! (?base + (k - n)) else vs ! k)"
      by (auto simp: I_def)
    show ?case
      using fits bound by (auto simp: len nth nth_append intro!: holdsI)
  qed simp
qed

interpretation value_stack: unwinding_stack
  "holds :: 'a stack \<Rightarrow> _" push pop top stack_truncate truncate_by_preserving_arity
proof unfold_locales
  fix s :: "'a stack" and vs v and E :: "'e \<Rightarrow> 'a stack \<Rightarrow> bool"
  assume s: "holds s vs"
  show "wp (push v) (\<lambda>_ s'. holds s' (vs @ [v])) E s" using s by (rule holds_push)
  fix n
  show "wp (stack_truncate n) (\<lambda>_ s'. holds s' (take n vs)) E s" if "n \<le> length vs"
    using holds_lower [OF s that] by (simp add: stack_truncate_def)
qed (rule holds_pop holds_top holds_unwind; assumption)+

end
