(* ===== verification/Instructions.thy ===== *)
theory Instructions
  imports OperandStack
begin

text \<open>
  The lowered instruction set of the stack machine (\<open>StackInstruction\<close> of
  \<open>instruction/stack/mod.rs\<close>), the operators it is lowered from (\<open>wasmparser::Operator\<close>, as far
  as the lowering matches on it) and the block types.

  The variants keep their names. Those that the source lists under one comment and treats
  alike are grouped into an enumeration of their own (constants, loads, stores, the unary and
  the binary operators of each number type), which the operators share, since the source
  gives both sides the same variant names. Absolute instruction indices, arities and heights
  are \<open>u32\<close> in the source and \<open>nat\<close> here, with their truncations and overflow checks explicit.
\<close>

section \<open>Groups of variants\<close>

datatype const_instr =
    I32Const u32 | I64Const u64 | F32Const f32 | F64Const f64 | RefNull | RefFunc FuncIndex

datatype load_op =
    I32Load | I32Load8U | I32Load8S | I32Load16U | I32Load16S
  | I64Load | I64Load8U | I64Load8S | I64Load16U | I64Load16S | I64Load32U | I64Load32S
  | F32Load | F64Load

datatype store_op =
    I32Store | I32Store8 | I32Store16 | I64Store | I64Store8 | I64Store16 | I64Store32
  | F32Store | F64Store

datatype i32_unop =
    I32Clz | I32Ctz | I32Popcnt | I32Eqz | I32Extend8S | I32Extend16S | I32WrapI64
  | I32TruncF32U | I32TruncF32S | I32TruncF64U | I32TruncF64S
  | I32TruncSatF32U | I32TruncSatF32S | I32TruncSatF64U | I32TruncSatF64S
  | I32ReinterpretF32

datatype i32_binop =
    I32Add | I32Sub | I32Mul | I32DivU | I32DivS | I32RemU | I32RemS
  | I32And | I32Or | I32Xor | I32Shl | I32ShrU | I32ShrS | I32Rotl | I32Rotr

datatype i32_relop =
    I32Eq | I32Ne | I32LtU | I32LtS | I32GtU | I32GtS | I32LeU | I32LeS | I32GeU | I32GeS

datatype i64_unop =
    I64Clz | I64Ctz | I64Popcnt | I64Eqz | I64Extend8S | I64Extend16S | I64Extend32S
  | I64ExtendI32U | I64ExtendI32S
  | I64TruncF32U | I64TruncF32S | I64TruncF64U | I64TruncF64S
  | I64TruncSatF32U | I64TruncSatF32S | I64TruncSatF64U | I64TruncSatF64S
  | I64ReinterpretF64

datatype i64_binop =
    I64Add | I64Sub | I64Mul | I64DivU | I64DivS | I64RemU | I64RemS
  | I64And | I64Or | I64Xor | I64Shl | I64ShrU | I64ShrS | I64Rotl | I64Rotr

datatype i64_relop =
    I64Eq | I64Ne | I64LtU | I64LtS | I64GtU | I64GtS | I64LeU | I64LeS | I64GeU | I64GeS

datatype f32_unop =
    F32Abs | F32Neg | F32Ceil | F32Floor | F32Trunc | F32Sqrt | F32Nearest
  | F32ConvertI32U | F32ConvertI32S | F32ConvertI64U | F32ConvertI64S
  | F32DemoteF64 | F32ReinterpretI32

datatype f32_binop =
    F32Add | F32Sub | F32Mul | F32Div | F32Min | F32Max | F32Copysign

datatype f32_relop =
    F32Eq | F32Ne | F32Lt | F32Gt | F32Le | F32Ge

datatype f64_unop =
    F64Abs | F64Neg | F64Ceil | F64Floor | F64Trunc | F64Sqrt | F64Nearest
  | F64ConvertI32U | F64ConvertI32S | F64ConvertI64U | F64ConvertI64S
  | F64PromoteF32 | F64ReinterpretI64

datatype f64_binop =
    F64Add | F64Sub | F64Mul | F64Div | F64Min | F64Max | F64Copysign

datatype f64_relop =
    F64Eq | F64Ne | F64Lt | F64Gt | F64Le | F64Ge

datatype numeric_instr =
    I32Unary i32_unop | I32Binary i32_binop | I32Compare i32_relop
  | I64Unary i64_unop | I64Binary i64_binop | I64Compare i64_relop
  | F32Unary f32_unop | F32Binary f32_binop | F32Compare f32_relop
  | F64Unary f64_unop | F64Binary f64_binop | F64Compare f64_relop

section \<open>The lowered instructions\<close>

datatype StackInstruction =
    Unreachable
  | Nop
  | Const const_instr
  | RefIsNull
  | MemorySize | MemoryGrow | MemoryCopy | MemoryFill
  | MemoryInit u32
  | DataDrop u32
  | Load load_op u32
  | Store store_op u32
  | Numeric numeric_instr
  | LocalGet LocalIndex | LocalSet LocalIndex | LocalTee LocalIndex
  | GlobalGet GlobalIndex | GlobalSet GlobalIndex
  | Call FuncIndex nat
  | CallIndirect TyIndex TableIndex
  | Drop
  | Select
  | Block
  | Loop
  | If (if_else_index: "nat option") (if_end_index: nat)
  | Else (else_if_end_index: nat)
  | Br nat nat nat
  | BrIf nat nat nat
  | BrTable nat nat
  | Return nat nat nat
  | End nat nat

record StackBrTableTarget =
  bt_target_index :: nat
  bt_arity :: nat
  bt_recorded_height :: nat

record StackFrameLayout =
  br_targets_arena :: "StackBrTableTarget list"

section \<open>The operators\<close>

datatype BlockType = BT_Empty | BT_Type ValType | BT_FuncType u32

text \<open>
  The targets of a \<open>br_table\<close> are parsed when they are asked for, which can fail.
  \<open>Op_Other\<close> stands for every operator the crate does not model.
\<close>

datatype Operator =
    Op_Unreachable
  | Op_Nop
  | Op_I32Const u32 | Op_I64Const u64 | Op_F32Const f32 | Op_F64Const f64
  | Op_RefNull nat
  | Op_RefFunc u32
  | Op_RefIsNull
  | Op_MemorySize u32
  | Op_MemoryGrow u32
  | Op_MemoryCopy u32 u32
  | Op_MemoryFill u32
  | Op_MemoryInit u32 u32
  | Op_DataDrop u32
  | Op_Load load_op u64
  | Op_Store store_op u64
  | Op_Numeric numeric_instr
  | Op_LocalGet u32 | Op_LocalSet u32 | Op_LocalTee u32
  | Op_GlobalGet u32 | Op_GlobalSet u32
  | Op_Call u32
  | Op_CallIndirect u32 u32
  | Op_Select
  | Op_Drop
  | Op_Block BlockType
  | Op_Loop BlockType
  | Op_If BlockType
  | Op_Else
  | Op_Br nat
  | Op_BrIf nat
  | Op_BrTable "string + nat list" nat
  | Op_Return
  | Op_End
  | Op_Other string

text \<open>
  \<open>OperatorsReader\<close>: what is left to read, each item an operator with its offset in the module
  or a parse error.
\<close>

type_synonym OperatorsReader = "(string + Operator \<times> usize) list"

end
