(* ===== verification/Instance.thy ===== *)
theory Instance
  imports MemoryView Instructions
begin

text \<open>
  What an execution runs against: the resource limits (\<open>instance/config.rs\<close>), the mutable
  \<open>Instance\<close> (\<open>instance/mod.rs\<close>), the parts of the immutable \<open>Module\<close> the interpreter reads
  (\<open>module/mod.rs\<close>), and the \<open>ImportRegistry\<close> of the embedder, which like the memory is a
  trait and so a record of operations. The \<open>Arc<Module>\<close> an instance holds is immutable and
  is passed beside it.
\<close>

section \<open>Limits\<close>

record Config =
  max_memory_size_in_pages :: u32
  max_table_elements :: u32
  max_locals_per_func :: u32
  max_call_stack_depth :: u32
  max_imported_funcs :: u32

definition default_config :: Config where
  "default_config = \<lparr>max_memory_size_in_pages = 1000, max_table_elements = 10000,
     max_locals_per_func = 50000, max_call_stack_depth = 2000, max_imported_funcs = 1000\<rparr>"

definition set_max_call_stack_depth :: "u32 \<Rightarrow> Config \<Rightarrow> Config" where
  "set_max_call_stack_depth depth c = c\<lparr>max_call_stack_depth := depth\<rparr>"

definition set_max_memory_size_in_pages :: "u32 \<Rightarrow> Config \<Rightarrow> Config" where
  "set_max_memory_size_in_pages val c = c\<lparr>max_memory_size_in_pages := val\<rparr>"

definition set_max_table_elements :: "u32 \<Rightarrow> Config \<Rightarrow> Config" where
  "set_max_table_elements val c = c\<lparr>max_table_elements := val\<rparr>"

definition set_max_locals_per_func :: "u32 \<Rightarrow> Config \<Rightarrow> Config" where
  "set_max_locals_per_func val c = c\<lparr>max_locals_per_func := val\<rparr>"

definition set_max_imported_funcs :: "u32 \<Rightarrow> Config \<Rightarrow> Config" where
  "set_max_imported_funcs val c = c\<lparr>max_imported_funcs := val\<rparr>"

section \<open>The module\<close>

record ('instr, 'layout) FuncBody =
  fb_locals :: "ValType list"
  fb_instructions :: "'instr list"
  fb_instruction_offsets :: "nat list"
  fb_frame_layout :: 'layout

record ('instr, 'layout) Module =
  md_types :: "FuncType list"
  md_func_decls :: "FuncDecl list"
  md_globals :: "GlobalType list"
  md_imported_func_count :: nat
  md_func_bodies :: "('instr, 'layout) FuncBody list"
  md_exported_func_index_to_name :: "FuncIndex \<Rightarrow> string option"

type_synonym StackModule = "(StackInstruction, StackFrameLayout) Module"

section \<open>The import registry\<close>

text \<open>
  A host function sees the registry's own state and the memory, and fails with an opaque
  \<open>anyhow::Error\<close>.
\<close>

record ('m, 'i) import_registry_impl =
  ir_execute :: "string \<Rightarrow> string \<Rightarrow> Val list \<Rightarrow> ('i \<times> 'm, string, Val list) op"

section \<open>The instance\<close>

record ('m, 'i, 'fr) Instance =
  memory :: 'm
  frame :: 'fr
  import_registry :: 'i
  config :: Config
  global_vals :: "Val list"
  table_vals :: "TableVal list"
  element_vals :: "ElementVal list"
  data_vals :: "DataVal list"

definition new_instance ::
    "'m \<Rightarrow> 'i \<Rightarrow> Config \<Rightarrow> Val list \<Rightarrow> TableVal list \<Rightarrow> ElementVal list \<Rightarrow> DataVal list \<Rightarrow>
     ('m, 'i, 'a stack) Instance" where
  "new_instance mem registry conf globals tables elements datas = \<lparr>memory = mem, frame = new_stack,
     import_registry = registry, config = conf, global_vals = globals, table_vals = tables,
     element_vals = elements, data_vals = datas\<rparr>"

type_synonym ('m, 'i) StackInstance = "('m, 'i, Value stack) Instance"

abbreviation on_frame :: "('fr, 'e, 'a) op \<Rightarrow> (('m, 'i, 'fr) Instance, 'e, 'a) op" where
  "on_frame m \<equiv> on_field frame (\<lambda>x. frame_update (\<lambda>_. x)) (\<lambda>e. e) m"

text \<open>A memory operation under \<open>?\<close>: \<open>From<MemoryError>\<close> wraps its error.\<close>

abbreviation on_memory ::
    "('m, MemoryError, 'a) op \<Rightarrow> (('m, 'i, 'fr) Instance, InstructionExecutionError, 'a) op" where
  "on_memory m \<equiv> on_field memory (\<lambda>x. memory_update (\<lambda>_. x)) Memory m"

end
