(* ===== verification/Floats.thy ===== *)
theory Floats
  imports Values
begin

text \<open>
  The part of Rust's \<open>f32\<close> and \<open>f64\<close> that the interpreter uses: IEEE 754 binary32 and binary64
  with round-to-nearest, ties to even, on bit patterns and executable by integer arithmetic.
  A finite value is \<open>(-1)^s * m * 2^q\<close>; every rounded operation computes an exact
  significand (with a sticky bit for what a quotient or a root leaves out) and rounds it once.

  Rust leaves the payload of a NaN that arithmetic produces unspecified; the \<open>float_env\<close> that
  the arithmetic takes as an argument is that choice.
\<close>

section \<open>Formats\<close>

record fmt =
  mbits :: nat
  ebits :: nat

definition F32_fmt :: fmt where "F32_fmt = \<lparr>mbits = 23, ebits = 8\<rparr>"
definition F64_fmt :: fmt where "F64_fmt = \<lparr>mbits = 52, ebits = 11\<rparr>"

text \<open>The exponent of the least significand bit of a subnormal number.\<close>

definition qmin :: "fmt \<Rightarrow> int" where
  "qmin F = 2 - 2 ^ (ebits F - 1) - int (mbits F)"

definition inf_mag :: "fmt \<Rightarrow> nat" where
  "inf_mag F = (2 ^ ebits F - 1) * 2 ^ mbits F"

definition sign_weight :: "fmt \<Rightarrow> nat" where
  "sign_weight F = 2 ^ (mbits F + ebits F)"

datatype fval = FNan | FInf bool | FFin bool nat int

definition decode :: "fmt \<Rightarrow> nat \<Rightarrow> fval" where
  "decode F b =
     (let s = (b \<ge> sign_weight F);
          mag = b mod sign_weight F;
          e = mag div 2 ^ mbits F;
          m = mag mod 2 ^ mbits F
      in if mag > inf_mag F then FNan
         else if mag = inf_mag F then FInf s
         else if e = 0 then FFin s m (qmin F)
         else FFin s (m + 2 ^ mbits F) (qmin F + int e - 1))"

fun bitlen :: "nat \<Rightarrow> nat" where
  "bitlen n = (if n = 0 then 0 else Suc (bitlen (n div 2)))"

declare bitlen.simps [simp del]

definition with_sign :: "fmt \<Rightarrow> bool \<Rightarrow> nat \<Rightarrow> nat" where
  "with_sign F s mag = (if s then sign_weight F + mag else mag)"

text \<open>
  \<open>round_to F s m e sticky\<close> packs the number whose magnitude is \<open>m * 2^e\<close>, or lies strictly
  between that and \<open>(m + 1) * 2^e\<close> when \<open>sticky\<close> is set. The packed magnitude of a significand
  \<open>m\<close> with exponent \<open>q\<close> is \<open>(q - qmin) * 2^mbits + m\<close> for subnormal and normal numbers alike,
  and the carry of a rounded-up significand goes into the exponent by itself.
\<close>

definition round_significand :: "nat \<Rightarrow> nat \<Rightarrow> bool \<Rightarrow> nat" where
  "round_significand m sh sticky =
     (let r = m mod 2 ^ sh; half = 2 ^ (sh - 1); d = m div 2 ^ sh
      in if sh = 0 then m
         else if r > half \<or> (r = half \<and> (sticky \<or> odd d)) then d + 1 else d)"

definition round_to :: "fmt \<Rightarrow> bool \<Rightarrow> nat \<Rightarrow> int \<Rightarrow> bool \<Rightarrow> nat" where
  "round_to F s m e sticky =
     (if m = 0 then with_sign F s 0
      else let q = max (int (bitlen m) + e - int (mbits F + 1)) (qmin F);
               sig = (if q \<le> e then m * 2 ^ nat (e - q) else round_significand m (nat (q - e)) sticky)
           in with_sign F s (min (nat (q - qmin F) * 2 ^ mbits F + sig) (inf_mag F)))"

definition pack_inf :: "fmt \<Rightarrow> bool \<Rightarrow> nat" where
  "pack_inf F s = with_sign F s (inf_mag F)"

section \<open>Arithmetic\<close>

text \<open>\<open>None\<close> is a NaN whose payload the environment picks.\<close>

definition signed :: "bool \<Rightarrow> nat \<Rightarrow> int" where
  "signed s m = (if s then - int m else int m)"

definition round_int :: "fmt \<Rightarrow> bool \<Rightarrow> int \<Rightarrow> int \<Rightarrow> nat" where
  "round_int F zero_sign x e =
     (if x = 0 then with_sign F zero_sign 0 else round_to F (x < 0) (nat \<bar>x\<bar>) e False)"

definition scaled :: "fval \<Rightarrow> int \<Rightarrow> int" where
  "scaled x e = (case x of FFin s m q \<Rightarrow> signed s m * 2 ^ nat (q - e) | _ \<Rightarrow> 0)"

fun negate_fval :: "fval \<Rightarrow> fval" where
  "negate_fval FNan = FNan"
| "negate_fval (FInf s) = FInf (\<not> s)"
| "negate_fval (FFin s m q) = FFin (\<not> s) m q"

fun add_fval :: "fmt \<Rightarrow> fval \<Rightarrow> fval \<Rightarrow> nat option" where
  "add_fval F FNan y = None"
| "add_fval F x FNan = None"
| "add_fval F (FInf s) (FInf t) = (if s = t then Some (pack_inf F s) else None)"
| "add_fval F (FInf s) y = Some (pack_inf F s)"
| "add_fval F x (FInf t) = Some (pack_inf F t)"
| "add_fval F (FFin s m p) (FFin t n q) =
     (let e = min p q
      in Some (round_int F (s \<and> t) (scaled (FFin s m p) e + scaled (FFin t n q) e) e))"

fun mul_fval :: "fmt \<Rightarrow> fval \<Rightarrow> fval \<Rightarrow> nat option" where
  "mul_fval F FNan y = None"
| "mul_fval F x FNan = None"
| "mul_fval F (FInf s) (FInf t) = Some (pack_inf F (s \<noteq> t))"
| "mul_fval F (FInf s) (FFin t n q) = (if n = 0 then None else Some (pack_inf F (s \<noteq> t)))"
| "mul_fval F (FFin s m p) (FInf t) = (if m = 0 then None else Some (pack_inf F (s \<noteq> t)))"
| "mul_fval F (FFin s m p) (FFin t n q) = Some (round_to F (s \<noteq> t) (m * n) (p + q) False)"

fun div_fval :: "fmt \<Rightarrow> fval \<Rightarrow> fval \<Rightarrow> nat option" where
  "div_fval F FNan y = None"
| "div_fval F x FNan = None"
| "div_fval F (FInf s) (FInf t) = None"
| "div_fval F (FInf s) (FFin t n q) = Some (pack_inf F (s \<noteq> t))"
| "div_fval F (FFin s m p) (FInf t) = Some (with_sign F (s \<noteq> t) 0)"
| "div_fval F (FFin s m p) (FFin t n q) =
     (if n = 0 then (if m = 0 then None else Some (pack_inf F (s \<noteq> t)))
      else let k = mbits F + 3 + bitlen n; x = m * 2 ^ k
           in Some (round_to F (s \<noteq> t) (x div n) (p - q - int k) (x mod n \<noteq> 0)))"

text \<open>The integer square root, two bits of the radicand at a time.\<close>

definition isqrt_step :: "nat \<Rightarrow> nat \<Rightarrow> nat" where
  "isqrt_step n r = (if (r + 1) * (r + 1) \<le> n then r + 1 else r)"

fun isqrt :: "nat \<Rightarrow> nat" where
  "isqrt n = (if n = 0 then 0 else isqrt_step n (2 * isqrt (n div 4)))"

declare isqrt.simps [simp del]

fun sqrt_fval :: "fmt \<Rightarrow> fval \<Rightarrow> nat option" where
  "sqrt_fval F FNan = None"
| "sqrt_fval F (FInf s) = (if s then None else Some (pack_inf F False))"
| "sqrt_fval F (FFin s m q) =
     (if m = 0 then Some (with_sign F s 0)
      else if s then None
      else let k = 2 * (mbits F + 3) + nat (q mod 2); x = m * 2 ^ k; r = isqrt x
           in Some (round_to F False r ((q - int k) div 2) (r * r \<noteq> x)))"

section \<open>Rounding to an integer\<close>

datatype rounding = Ceil | Floor | TowardZero | TiesEven

definition round_away :: "rounding \<Rightarrow> bool \<Rightarrow> nat \<Rightarrow> nat \<Rightarrow> nat \<Rightarrow> bool" where
  "round_away mode s d r den = (case mode of
      Ceil \<Rightarrow> \<not> s \<and> r \<noteq> 0
    | Floor \<Rightarrow> s \<and> r \<noteq> 0
    | TowardZero \<Rightarrow> False
    | TiesEven \<Rightarrow> 2 * r > den \<or> (2 * r = den \<and> odd d))"

definition integral_magnitude :: "rounding \<Rightarrow> bool \<Rightarrow> nat \<Rightarrow> int \<Rightarrow> nat" where
  "integral_magnitude mode s m q =
     (if 0 \<le> q then m * 2 ^ nat q
      else let den = 2 ^ nat (- q); d = m div den; r = m mod den
           in if round_away mode s d r den then d + 1 else d)"

fun integral_fval :: "fmt \<Rightarrow> rounding \<Rightarrow> fval \<Rightarrow> nat option" where
  "integral_fval F mode FNan = None"
| "integral_fval F mode (FInf s) = Some (pack_inf F s)"
| "integral_fval F mode (FFin s m q) =
     Some (round_to F s (integral_magnitude mode s m q) 0 False)"

text \<open>The value a float truncates to, when it is finite.\<close>

fun truncated :: "fval \<Rightarrow> int option" where
  "truncated (FFin s m q) = Some (signed s (integral_magnitude TowardZero s m q))"
| "truncated _ = None"

section \<open>Comparison\<close>

fun lt_fval :: "fval \<Rightarrow> fval \<Rightarrow> bool" where
  "lt_fval FNan y = False"
| "lt_fval x FNan = False"
| "lt_fval (FInf s) (FInf t) = (s \<and> \<not> t)"
| "lt_fval (FInf s) (FFin _ _ _) = s"
| "lt_fval (FFin _ _ _) (FInf t) = (\<not> t)"
| "lt_fval (FFin s m p) (FFin t n q) =
     (let e = min p q in scaled (FFin s m p) e < scaled (FFin t n q) e)"

fun eq_fval :: "fval \<Rightarrow> fval \<Rightarrow> bool" where
  "eq_fval FNan y = False"
| "eq_fval x FNan = False"
| "eq_fval (FInf s) (FInf t) = (s = t)"
| "eq_fval (FInf s) (FFin _ _ _) = False"
| "eq_fval (FFin _ _ _) (FInf t) = False"
| "eq_fval (FFin s m p) (FFin t n q) =
     (let e = min p q in scaled (FFin s m p) e = scaled (FFin t n q) e)"

definition is_nan :: "fmt \<Rightarrow> nat \<Rightarrow> bool" where
  "is_nan F b \<longleftrightarrow> inf_mag F < b mod sign_weight F"

section \<open>Conversions\<close>

text \<open>Rust's \<open>as\<close>: a float to an integer saturates and sends a NaN to 0.\<close>

definition saturate :: "int \<Rightarrow> int \<Rightarrow> fval \<Rightarrow> int" where
  "saturate lo hi x = (case x of
      FNan \<Rightarrow> 0
    | FInf s \<Rightarrow> if s then lo else hi
    | FFin s m q \<Rightarrow> max lo (min hi (signed s (integral_magnitude TowardZero s m q))))"

definition convert_int :: "fmt \<Rightarrow> int \<Rightarrow> nat" where
  "convert_int F x = round_int F False x 0"

fun convert_float :: "fmt \<Rightarrow> fval \<Rightarrow> nat option" where
  "convert_float F FNan = None"
| "convert_float F (FInf s) = Some (pack_inf F s)"
| "convert_float F (FFin s m q) = Some (round_to F s m q False)"

lemmas float_eval =
  F32_fmt_def F64_fmt_def qmin_def inf_mag_def sign_weight_def decode_def Let_def bitlen.simps
  with_sign_def round_significand_def round_to_def pack_inf_def signed_def round_int_def
  scaled_def isqrt.simps isqrt_step_def round_away_def integral_magnitude_def saturate_def convert_int_def

end
