(* ===== verification/Numeric.thy ===== *)
theory Numeric
  imports Floats Instructions "HOL-Library.Signed_Division"
begin

text \<open>
  The numeric operators as the interpreter computes them (\<open>StackInstruction::execute\<close> of
  \<open>instruction/stack/mod.rs\<close> and \<open>trunc_float_to_int\<close> of \<open>runtime/mod.rs\<close>): functions of the
  popped slots to the pushed one, or to the trap. Rust's integer methods are written out on
  words: wrapping arithmetic is the words' own, the \<open>checked_\<close> ones return \<open>None\<close>.
\<close>

unbundle bit_operations_syntax

section \<open>Rust's integer methods\<close>

definition leading_zeros :: "'a::len word \<Rightarrow> nat" where
  "leading_zeros w = LENGTH('a) - bitlen (unat w)"

fun zeros_below :: "nat \<Rightarrow> nat \<Rightarrow> nat" where
  "zeros_below 0 x = 0"
| "zeros_below (Suc k) x = (if odd x then 0 else Suc (zeros_below k (x div 2)))"

fun ones_below :: "nat \<Rightarrow> nat \<Rightarrow> nat" where
  "ones_below 0 x = 0"
| "ones_below (Suc k) x = x mod 2 + ones_below k (x div 2)"

definition trailing_zeros :: "'a::len word \<Rightarrow> nat" where
  "trailing_zeros w = zeros_below LENGTH('a) (unat w)"

definition count_ones :: "'a::len word \<Rightarrow> nat" where
  "count_ones w = ones_below LENGTH('a) (unat w)"

definition checked_div_u :: "'a::len word \<Rightarrow> 'a word \<Rightarrow> 'a word option" where
  "checked_div_u a b = (if b = 0 then None else Some (a div b))"

definition checked_rem_u :: "'a::len word \<Rightarrow> 'a word \<Rightarrow> 'a word option" where
  "checked_rem_u a b = (if b = 0 then None else Some (a mod b))"

definition checked_div_s :: "'a::len word \<Rightarrow> 'a word \<Rightarrow> 'a word option" where
  "checked_div_s a b =
     (if b = 0 \<or> (sint a = - (2 ^ (LENGTH('a) - 1)) \<and> sint b = -1) then None
      else Some (word_of_int (sint a sdiv sint b)))"

definition wrapping_rem_s :: "'a::len word \<Rightarrow> 'a word \<Rightarrow> 'a word" where
  "wrapping_rem_s a b = word_of_int (sint a smod sint b)"

definition wrapping_shl :: "'a::len word \<Rightarrow> u32 \<Rightarrow> 'a word" where
  "wrapping_shl a n = push_bit (unat n mod LENGTH('a)) a"

definition wrapping_shr_u :: "'a::len word \<Rightarrow> u32 \<Rightarrow> 'a word" where
  "wrapping_shr_u a n = drop_bit (unat n mod LENGTH('a)) a"

definition wrapping_shr_s :: "'a::len word \<Rightarrow> u32 \<Rightarrow> 'a word" where
  "wrapping_shr_s a n = signed_drop_bit (unat n mod LENGTH('a)) a"

section \<open>Rust's floats\<close>

text \<open>
  The bit patterns Rust leaves open: the \<open>NAN\<close> constants, and the result of an operation that
  produces a NaN from the given operands.
\<close>

record float_env =
  fe_NAN32 :: f32
  fe_NAN64 :: f64
  fe_nan32 :: "f32 list \<Rightarrow> f32"
  fe_nan64 :: "f64 list \<Rightarrow> f64"
  fe_demote_nan :: "f64 \<Rightarrow> f32"
  fe_promote_nan :: "f32 \<Rightarrow> f64"

definition d32 :: "f32 \<Rightarrow> fval" where "d32 a = decode F32_fmt (unat a)"
definition d64 :: "f64 \<Rightarrow> fval" where "d64 a = decode F64_fmt (unat a)"

definition or_nan :: "'a::len word \<Rightarrow> nat option \<Rightarrow> 'a word" where
  "or_nan nan r = (case r of Some b \<Rightarrow> of_nat b | None \<Rightarrow> nan)"

definition sign_bit :: "'a::len word" where
  "sign_bit = push_bit (LENGTH('a) - 1) 1"

definition is_sign_negative :: "'a::len word \<Rightarrow> bool" where
  "is_sign_negative a \<longleftrightarrow> bit a (LENGTH('a) - 1)"

definition float_abs :: "'a::len word \<Rightarrow> 'a word" where
  "float_abs a = a AND NOT sign_bit"

definition float_neg :: "'a::len word \<Rightarrow> 'a word" where
  "float_neg a = a XOR sign_bit"

definition float_copysign :: "'a::len word \<Rightarrow> 'a word \<Rightarrow> 'a word" where
  "float_copysign a b = (a AND NOT sign_bit) OR (b AND sign_bit)"

definition le_fval :: "fval \<Rightarrow> fval \<Rightarrow> bool" where
  "le_fval x y \<longleftrightarrow> lt_fval x y \<or> eq_fval x y"

definition promote :: "float_env \<Rightarrow> f32 \<Rightarrow> f64" where
  "promote fe a = or_nan (fe_promote_nan fe a) (convert_float F64_fmt (d32 a))"

definition demote :: "float_env \<Rightarrow> f64 \<Rightarrow> f32" where
  "demote fe a = or_nan (fe_demote_nan fe a) (convert_float F32_fmt (d64 a))"

text \<open>
  \<open>f32::min\<close> and \<open>max\<close> are not used: the interpreter writes them out, and \<open>lt\<close> is the comparison
  that picks the first operand.
\<close>

definition wasm_min :: "'a::len word \<Rightarrow> ('a word \<Rightarrow> fval) \<Rightarrow> 'a word \<Rightarrow> 'a word \<Rightarrow> 'a word" where
  "wasm_min NAN d a b =
     (if d a = FNan \<or> d b = FNan then NAN
      else if eq_fval (d a) (d b) then (if is_sign_negative a then a else b)
      else if lt_fval (d a) (d b) then a else b)"

definition wasm_max :: "'a::len word \<Rightarrow> ('a word \<Rightarrow> fval) \<Rightarrow> 'a word \<Rightarrow> 'a word \<Rightarrow> 'a word" where
  "wasm_max NAN d a b =
     (if d a = FNan \<or> d b = FNan then NAN
      else if eq_fval (d a) (d b) then (if \<not> is_sign_negative a then a else b)
      else if lt_fval (d b) (d a) then a else b)"

section \<open>Truncation to an integer\<close>

text \<open>The bounds, computed through the casts the source computes them through.\<close>

definition f64_of_f32 :: "nat \<Rightarrow> f64" where
  "f64_of_f32 b = (case convert_float F64_fmt (decode F32_fmt b) of Some x \<Rightarrow> of_nat x | None \<Rightarrow> 0)"

definition I32_TRUNC_LOW :: f64 where "I32_TRUNC_LOW = f64_of_f32 (convert_int F32_fmt (-2147483648))"
definition I32_TRUNC_HIGH :: f64 where "I32_TRUNC_HIGH = f64_of_f32 (convert_int F32_fmt 2147483647)"
definition U32_TRUNC_HIGH :: f64 where "U32_TRUNC_HIGH = f64_of_f32 (convert_int F32_fmt 4294967295)"
definition I64_TRUNC_LOW :: f64 where
  "I64_TRUNC_LOW = of_nat (convert_int F64_fmt (-9223372036854775808))"
definition I64_TRUNC_HIGH :: f64 where
  "I64_TRUNC_HIGH = of_nat (convert_int F64_fmt 9223372036854775807)"
definition U64_TRUNC_HIGH :: f64 where
  "U64_TRUNC_HIGH = of_nat (convert_int F64_fmt 18446744073709551615)"

definition is_infinite :: "fval \<Rightarrow> bool" where
  "is_infinite x = (case x of FInf _ \<Rightarrow> True | _ \<Rightarrow> False)"

definition f64_trunc :: "float_env \<Rightarrow> f64 \<Rightarrow> f64" where
  "f64_trunc fe a = or_nan (fe_nan64 fe [a]) (integral_fval F64_fmt TowardZero (d64 a))"

definition trunc_float_to_int ::
    "float_env \<Rightarrow> f64 \<Rightarrow> f64 \<Rightarrow> f64 \<Rightarrow> string \<Rightarrow> (InstructionExecutionError, f64) result" where
  "trunc_float_to_int fe operand low high target =
     (if d64 operand = FNan \<or> is_infinite (d64 operand)
      then Err (FloatToIntTruncation operand target)
      else let truncated = f64_trunc fe operand
        in if \<not> (le_fval (d64 low) (d64 truncated) \<and> lt_fval (d64 truncated) (d64 high))
           then Err (FloatToIntTruncation operand target)
           else Ok truncated)"

text \<open>\<open>as\<close> from a float to each integer type.\<close>

definition as_int_u :: "fval \<Rightarrow> 'a::len word" where
  "as_int_u x = word_of_int (saturate 0 (2 ^ LENGTH('a) - 1) x)"

definition as_int_s :: "fval \<Rightarrow> 'a::len word" where
  "as_int_s x = word_of_int (saturate (- (2 ^ (LENGTH('a) - 1))) (2 ^ (LENGTH('a) - 1) - 1) x)"

section \<open>The \<open>i32\<close> operators\<close>

type_synonym numeric_result = "(InstructionExecutionError, Value) result"

abbreviation bool_i32 :: "bool \<Rightarrow> Value" where
  "bool_i32 b \<equiv> from_i32 (if b then 1 else 0)"

fun i32_unary :: "float_env \<Rightarrow> i32_unop \<Rightarrow> Value \<Rightarrow> numeric_result" where
  "i32_unary fe I32Clz v = Ok (from_i32 (of_nat (leading_zeros (as_i32 v))))"
| "i32_unary fe I32Ctz v = Ok (from_i32 (of_nat (trailing_zeros (as_i32 v))))"
| "i32_unary fe I32Popcnt v = Ok (from_i32 (of_nat (count_ones (as_i32 v))))"
| "i32_unary fe I32Eqz v = Ok (bool_i32 (as_i32 v = 0))"
| "i32_unary fe I32Extend8S v = Ok (from_i32 (scast (ucast (as_i32 v) :: u8)))"
| "i32_unary fe I32Extend16S v = Ok (from_i32 (scast (ucast (as_i32 v) :: u16)))"
| "i32_unary fe I32WrapI64 v = Ok (from_i32 (ucast (as_i64 v)))"
| "i32_unary fe I32TruncF32U v =
     and_then (trunc_float_to_int fe (promote fe (as_f32 v)) 0 U32_TRUNC_HIGH ''u32'')
       (\<lambda>t. Ok (from_i32 (as_int_u (d64 t))))"
| "i32_unary fe I32TruncF32S v =
     and_then (trunc_float_to_int fe (promote fe (as_f32 v)) I32_TRUNC_LOW I32_TRUNC_HIGH ''i32'')
       (\<lambda>t. Ok (from_i32 (as_int_s (d64 t))))"
| "i32_unary fe I32TruncF64U v =
     and_then (trunc_float_to_int fe (as_f64 v) 0 U32_TRUNC_HIGH ''u32'')
       (\<lambda>t. Ok (from_i32 (as_int_u (d64 t))))"
| "i32_unary fe I32TruncF64S v =
     and_then (trunc_float_to_int fe (as_f64 v) I32_TRUNC_LOW I32_TRUNC_HIGH ''i32'')
       (\<lambda>t. Ok (from_i32 (as_int_s (d64 t))))"
| "i32_unary fe I32TruncSatF32U v = Ok (from_i32 (as_int_u (d32 (as_f32 v))))"
| "i32_unary fe I32TruncSatF32S v = Ok (from_i32 (as_int_s (d32 (as_f32 v))))"
| "i32_unary fe I32TruncSatF64U v = Ok (from_i32 (as_int_u (d64 (as_f64 v))))"
| "i32_unary fe I32TruncSatF64S v = Ok (from_i32 (as_int_s (d64 (as_f64 v))))"
| "i32_unary fe I32ReinterpretF32 v = Ok (from_i32 (as_f32 v))"

text \<open>The second operand is on top of the stack: \<open>a\<close> was pushed before \<open>b\<close>.\<close>

fun i32_arith :: "i32_binop \<Rightarrow> u32 \<Rightarrow> u32 \<Rightarrow> (InstructionExecutionError, u32) result" where
  "i32_arith I32Add a b = Ok (a + b)"
| "i32_arith I32Sub a b = Ok (a - b)"
| "i32_arith I32Mul a b = Ok (a * b)"
| "i32_arith I32DivU a b = ok_or (checked_div_u a b) (Division (uint a) (uint b))"
| "i32_arith I32DivS a b = ok_or (checked_div_s a b) (Division (sint a) (sint b))"
| "i32_arith I32RemU a b = ok_or (checked_rem_u a b) (Remainder (uint a) (uint b))"
| "i32_arith I32RemS a b =
     (if b = 0 then Err (Remainder (sint a) (sint b)) else Ok (wrapping_rem_s a b))"
| "i32_arith I32And a b = Ok (a AND b)"
| "i32_arith I32Or a b = Ok (a OR b)"
| "i32_arith I32Xor a b = Ok (a XOR b)"
| "i32_arith I32Shl a b = Ok (wrapping_shl a b)"
| "i32_arith I32ShrU a b = Ok (wrapping_shr_u a b)"
| "i32_arith I32ShrS a b = Ok (wrapping_shr_s a b)"
| "i32_arith I32Rotl a b = Ok (word_rotl (unat b) a)"
| "i32_arith I32Rotr a b = Ok (word_rotr (unat b) a)"

definition i32_binary :: "i32_binop \<Rightarrow> Value \<Rightarrow> Value \<Rightarrow> numeric_result" where
  "i32_binary op x y = and_then (i32_arith op (as_i32 x) (as_i32 y)) (\<lambda>r. Ok (from_i32 r))"

fun i32_rel :: "i32_relop \<Rightarrow> u32 \<Rightarrow> u32 \<Rightarrow> bool" where
  "i32_rel I32Eq a b = (a = b)"
| "i32_rel I32Ne a b = (a \<noteq> b)"
| "i32_rel I32LtU a b = (a < b)"
| "i32_rel I32LtS a b = (sint a < sint b)"
| "i32_rel I32GtU a b = (a > b)"
| "i32_rel I32GtS a b = (sint a > sint b)"
| "i32_rel I32LeU a b = (a \<le> b)"
| "i32_rel I32LeS a b = (sint a \<le> sint b)"
| "i32_rel I32GeU a b = (a \<ge> b)"
| "i32_rel I32GeS a b = (sint a \<ge> sint b)"

definition i32_compare :: "i32_relop \<Rightarrow> Value \<Rightarrow> Value \<Rightarrow> numeric_result" where
  "i32_compare op x y = Ok (bool_i32 (i32_rel op (as_i32 x) (as_i32 y)))"

section \<open>The \<open>i64\<close> operators\<close>

fun i64_unary :: "float_env \<Rightarrow> i64_unop \<Rightarrow> Value \<Rightarrow> numeric_result" where
  "i64_unary fe I64Clz v = Ok (from_i64 (of_nat (leading_zeros (as_i64 v))))"
| "i64_unary fe I64Ctz v = Ok (from_i64 (of_nat (trailing_zeros (as_i64 v))))"
| "i64_unary fe I64Popcnt v = Ok (from_i64 (of_nat (count_ones (as_i64 v))))"
| "i64_unary fe I64Eqz v = Ok (bool_i32 (as_i64 v = 0))"
| "i64_unary fe I64Extend8S v = Ok (from_i64 (scast (ucast (as_i64 v) :: u8)))"
| "i64_unary fe I64Extend16S v = Ok (from_i64 (scast (ucast (as_i64 v) :: u16)))"
| "i64_unary fe I64Extend32S v = Ok (from_i64 (scast (ucast (as_i64 v) :: u32)))"
| "i64_unary fe I64ExtendI32U v = Ok (from_i64 (ucast (as_i32 v)))"
| "i64_unary fe I64ExtendI32S v = Ok (from_i64 (scast (as_i32 v)))"
| "i64_unary fe I64TruncF32U v =
     and_then (trunc_float_to_int fe (promote fe (as_f32 v)) 0 U64_TRUNC_HIGH ''u64'')
       (\<lambda>t. Ok (from_i64 (as_int_u (d64 t))))"
| "i64_unary fe I64TruncF32S v =
     and_then (trunc_float_to_int fe (promote fe (as_f32 v)) I64_TRUNC_LOW I64_TRUNC_HIGH ''i64'')
       (\<lambda>t. Ok (from_i64 (as_int_s (d64 t))))"
| "i64_unary fe I64TruncF64U v =
     and_then (trunc_float_to_int fe (as_f64 v) 0 U64_TRUNC_HIGH ''u64'')
       (\<lambda>t. Ok (from_i64 (as_int_u (d64 t))))"
| "i64_unary fe I64TruncF64S v =
     and_then (trunc_float_to_int fe (as_f64 v) I64_TRUNC_LOW I64_TRUNC_HIGH ''i64'')
       (\<lambda>t. Ok (from_i64 (as_int_s (d64 t))))"
| "i64_unary fe I64TruncSatF32U v = Ok (from_i64 (as_int_u (d32 (as_f32 v))))"
| "i64_unary fe I64TruncSatF32S v = Ok (from_i64 (as_int_s (d32 (as_f32 v))))"
| "i64_unary fe I64TruncSatF64U v = Ok (from_i64 (as_int_u (d64 (as_f64 v))))"
| "i64_unary fe I64TruncSatF64S v = Ok (from_i64 (as_int_s (d64 (as_f64 v))))"
| "i64_unary fe I64ReinterpretF64 v = Ok (from_i64 (as_f64 v))"

text \<open>A shift count is narrowed to \<open>u32\<close> before the shift masks it.\<close>

fun i64_arith :: "i64_binop \<Rightarrow> u64 \<Rightarrow> u64 \<Rightarrow> (InstructionExecutionError, u64) result" where
  "i64_arith I64Add a b = Ok (a + b)"
| "i64_arith I64Sub a b = Ok (a - b)"
| "i64_arith I64Mul a b = Ok (a * b)"
| "i64_arith I64DivU a b = ok_or (checked_div_u a b) (Division (uint a) (uint b))"
| "i64_arith I64DivS a b = ok_or (checked_div_s a b) (Division (sint a) (sint b))"
| "i64_arith I64RemU a b = ok_or (checked_rem_u a b) (Remainder (uint a) (uint b))"
| "i64_arith I64RemS a b =
     (if b = 0 then Err (Remainder (sint a) (sint b)) else Ok (wrapping_rem_s a b))"
| "i64_arith I64And a b = Ok (a AND b)"
| "i64_arith I64Or a b = Ok (a OR b)"
| "i64_arith I64Xor a b = Ok (a XOR b)"
| "i64_arith I64Shl a b = Ok (wrapping_shl a (ucast b))"
| "i64_arith I64ShrU a b = Ok (wrapping_shr_u a (ucast b))"
| "i64_arith I64ShrS a b = Ok (wrapping_shr_s a (ucast b))"
| "i64_arith I64Rotl a b = Ok (word_rotl (unat (ucast b :: u32)) a)"
| "i64_arith I64Rotr a b = Ok (word_rotr (unat (ucast b :: u32)) a)"

definition i64_binary :: "i64_binop \<Rightarrow> Value \<Rightarrow> Value \<Rightarrow> numeric_result" where
  "i64_binary op x y = and_then (i64_arith op (as_i64 x) (as_i64 y)) (\<lambda>r. Ok (from_i64 r))"

fun i64_rel :: "i64_relop \<Rightarrow> u64 \<Rightarrow> u64 \<Rightarrow> bool" where
  "i64_rel I64Eq a b = (a = b)"
| "i64_rel I64Ne a b = (a \<noteq> b)"
| "i64_rel I64LtU a b = (a < b)"
| "i64_rel I64LtS a b = (sint a < sint b)"
| "i64_rel I64GtU a b = (a > b)"
| "i64_rel I64GtS a b = (sint a > sint b)"
| "i64_rel I64LeU a b = (a \<le> b)"
| "i64_rel I64LeS a b = (sint a \<le> sint b)"
| "i64_rel I64GeU a b = (a \<ge> b)"
| "i64_rel I64GeS a b = (sint a \<ge> sint b)"

definition i64_compare :: "i64_relop \<Rightarrow> Value \<Rightarrow> Value \<Rightarrow> numeric_result" where
  "i64_compare op x y = Ok (bool_i32 (i64_rel op (as_i64 x) (as_i64 y)))"

section \<open>The \<open>f32\<close> operators\<close>

definition f32_op1 :: "float_env \<Rightarrow> (fval \<Rightarrow> nat option) \<Rightarrow> f32 \<Rightarrow> f32" where
  "f32_op1 fe f a = or_nan (fe_nan32 fe [a]) (f (d32 a))"

definition f32_op2 :: "float_env \<Rightarrow> (fval \<Rightarrow> fval \<Rightarrow> nat option) \<Rightarrow> f32 \<Rightarrow> f32 \<Rightarrow> f32" where
  "f32_op2 fe f a b = or_nan (fe_nan32 fe [a, b]) (f (d32 a) (d32 b))"

fun f32_unary :: "float_env \<Rightarrow> f32_unop \<Rightarrow> Value \<Rightarrow> Value" where
  "f32_unary fe F32Abs v = from_f32 (float_abs (as_f32 v))"
| "f32_unary fe F32Neg v = from_f32 (float_neg (as_f32 v))"
| "f32_unary fe F32Ceil v = from_f32 (f32_op1 fe (integral_fval F32_fmt Ceil) (as_f32 v))"
| "f32_unary fe F32Floor v = from_f32 (f32_op1 fe (integral_fval F32_fmt Floor) (as_f32 v))"
| "f32_unary fe F32Trunc v = from_f32 (f32_op1 fe (integral_fval F32_fmt TowardZero) (as_f32 v))"
| "f32_unary fe F32Sqrt v = from_f32 (f32_op1 fe (sqrt_fval F32_fmt) (as_f32 v))"
| "f32_unary fe F32Nearest v = from_f32 (f32_op1 fe (integral_fval F32_fmt TiesEven) (as_f32 v))"
| "f32_unary fe F32ConvertI32U v = from_f32 (of_nat (convert_int F32_fmt (uint (as_i32 v))))"
| "f32_unary fe F32ConvertI32S v = from_f32 (of_nat (convert_int F32_fmt (sint (as_i32 v))))"
| "f32_unary fe F32ConvertI64U v = from_f32 (of_nat (convert_int F32_fmt (uint (as_i64 v))))"
| "f32_unary fe F32ConvertI64S v = from_f32 (of_nat (convert_int F32_fmt (sint (as_i64 v))))"
| "f32_unary fe F32DemoteF64 v = from_f32 (demote fe (as_f64 v))"
| "f32_unary fe F32ReinterpretI32 v = from_f32 (as_i32 v)"

fun f32_arith :: "float_env \<Rightarrow> f32_binop \<Rightarrow> f32 \<Rightarrow> f32 \<Rightarrow> f32" where
  "f32_arith fe F32Add a b = f32_op2 fe (add_fval F32_fmt) a b"
| "f32_arith fe F32Sub a b = f32_op2 fe (\<lambda>x y. add_fval F32_fmt x (negate_fval y)) a b"
| "f32_arith fe F32Mul a b = f32_op2 fe (mul_fval F32_fmt) a b"
| "f32_arith fe F32Div a b = f32_op2 fe (div_fval F32_fmt) a b"
| "f32_arith fe F32Min a b = wasm_min (fe_NAN32 fe) d32 a b"
| "f32_arith fe F32Max a b = wasm_max (fe_NAN32 fe) d32 a b"
| "f32_arith fe F32Copysign a b = float_copysign a b"

definition f32_binary :: "float_env \<Rightarrow> f32_binop \<Rightarrow> Value \<Rightarrow> Value \<Rightarrow> Value" where
  "f32_binary fe op x y = from_f32 (f32_arith fe op (as_f32 x) (as_f32 y))"

fun f32_rel :: "f32_relop \<Rightarrow> fval \<Rightarrow> fval \<Rightarrow> bool" where
  "f32_rel F32Eq a b = eq_fval a b"
| "f32_rel F32Ne a b = (\<not> eq_fval a b)"
| "f32_rel F32Lt a b = lt_fval a b"
| "f32_rel F32Gt a b = lt_fval b a"
| "f32_rel F32Le a b = le_fval a b"
| "f32_rel F32Ge a b = le_fval b a"

definition f32_compare :: "f32_relop \<Rightarrow> Value \<Rightarrow> Value \<Rightarrow> Value" where
  "f32_compare op x y = bool_i32 (f32_rel op (d32 (as_f32 x)) (d32 (as_f32 y)))"

section \<open>The \<open>f64\<close> operators\<close>

definition f64_op1 :: "float_env \<Rightarrow> (fval \<Rightarrow> nat option) \<Rightarrow> f64 \<Rightarrow> f64" where
  "f64_op1 fe f a = or_nan (fe_nan64 fe [a]) (f (d64 a))"

definition f64_op2 :: "float_env \<Rightarrow> (fval \<Rightarrow> fval \<Rightarrow> nat option) \<Rightarrow> f64 \<Rightarrow> f64 \<Rightarrow> f64" where
  "f64_op2 fe f a b = or_nan (fe_nan64 fe [a, b]) (f (d64 a) (d64 b))"

fun f64_unary :: "float_env \<Rightarrow> f64_unop \<Rightarrow> Value \<Rightarrow> Value" where
  "f64_unary fe F64Abs v = from_f64 (float_abs (as_f64 v))"
| "f64_unary fe F64Neg v = from_f64 (float_neg (as_f64 v))"
| "f64_unary fe F64Ceil v = from_f64 (f64_op1 fe (integral_fval F64_fmt Ceil) (as_f64 v))"
| "f64_unary fe F64Floor v = from_f64 (f64_op1 fe (integral_fval F64_fmt Floor) (as_f64 v))"
| "f64_unary fe F64Trunc v = from_f64 (f64_trunc fe (as_f64 v))"
| "f64_unary fe F64Sqrt v = from_f64 (f64_op1 fe (sqrt_fval F64_fmt) (as_f64 v))"
| "f64_unary fe F64Nearest v = from_f64 (f64_op1 fe (integral_fval F64_fmt TiesEven) (as_f64 v))"
| "f64_unary fe F64ConvertI32U v = from_f64 (of_nat (convert_int F64_fmt (uint (as_i32 v))))"
| "f64_unary fe F64ConvertI32S v = from_f64 (of_nat (convert_int F64_fmt (sint (as_i32 v))))"
| "f64_unary fe F64ConvertI64U v = from_f64 (of_nat (convert_int F64_fmt (uint (as_i64 v))))"
| "f64_unary fe F64ConvertI64S v = from_f64 (of_nat (convert_int F64_fmt (sint (as_i64 v))))"
| "f64_unary fe F64PromoteF32 v = from_f64 (promote fe (as_f32 v))"
| "f64_unary fe F64ReinterpretI64 v = from_f64 (as_i64 v)"

fun f64_arith :: "float_env \<Rightarrow> f64_binop \<Rightarrow> f64 \<Rightarrow> f64 \<Rightarrow> f64" where
  "f64_arith fe F64Add a b = f64_op2 fe (add_fval F64_fmt) a b"
| "f64_arith fe F64Sub a b = f64_op2 fe (\<lambda>x y. add_fval F64_fmt x (negate_fval y)) a b"
| "f64_arith fe F64Mul a b = f64_op2 fe (mul_fval F64_fmt) a b"
| "f64_arith fe F64Div a b = f64_op2 fe (div_fval F64_fmt) a b"
| "f64_arith fe F64Min a b = wasm_min (fe_NAN64 fe) d64 a b"
| "f64_arith fe F64Max a b = wasm_max (fe_NAN64 fe) d64 a b"
| "f64_arith fe F64Copysign a b = float_copysign a b"

definition f64_binary :: "float_env \<Rightarrow> f64_binop \<Rightarrow> Value \<Rightarrow> Value \<Rightarrow> Value" where
  "f64_binary fe op x y = from_f64 (f64_arith fe op (as_f64 x) (as_f64 y))"

fun f64_rel :: "f64_relop \<Rightarrow> fval \<Rightarrow> fval \<Rightarrow> bool" where
  "f64_rel F64Eq a b = eq_fval a b"
| "f64_rel F64Ne a b = (\<not> eq_fval a b)"
| "f64_rel F64Lt a b = lt_fval a b"
| "f64_rel F64Gt a b = lt_fval b a"
| "f64_rel F64Le a b = le_fval a b"
| "f64_rel F64Ge a b = le_fval b a"

definition f64_compare :: "f64_relop \<Rightarrow> Value \<Rightarrow> Value \<Rightarrow> Value" where
  "f64_compare op x y = bool_i32 (f64_rel op (d64 (as_f64 x)) (d64 (as_f64 y)))"

end
