(* ===== verification/StackExec.thy ===== *)
theory StackExec
  imports Instance Numeric
begin

text \<open>
  \<open>StackInstruction::execute\<close>: one step of the stack machine. An arm changes the instance and
  reports to its driver where to go next, or traps; what it had changed before the trap stays
  changed.
\<close>

datatype 'base Step =
    Next
  | StepCall FuncIndex 'base "TableIndex option"
  | JumpTo nat

type_synonym ('m, 'i, 'a) exec = "(('m, 'i) StackInstance, InstructionExecutionError, 'a) op"
type_synonym ('m, 'i) arm = "('m, 'i, StackCallerBaseData Step) exec"

section \<open>Helpers\<close>

definition pop_value :: "('m, 'i, Value) exec" where
  "pop_value = on_frame pop"

definition pop_i32 :: "('m, 'i, u32) exec" where
  "pop_i32 = bnd pop_value (\<lambda>v. ret (as_i32 v))"

definition push_value :: "Value \<Rightarrow> ('m, 'i, unit) exec" where
  "push_value v = on_frame (push v)"

text \<open>\<open>as u32 as usize\<close> of a popped \<open>i32\<close>.\<close>

definition pop_usize :: "('m, 'i, usize) exec" where
  "pop_usize = bnd pop_i32 (\<lambda>v. ret (unat v))"

definition push_next :: "Value \<Rightarrow> ('m, 'i) arm" where
  "push_next v = bnd (push_value v) (\<lambda>_. ret Next)"

definition frame_height :: "('m, 'i, nat) exec" where
  "frame_height = gets (\<lambda>s. height (frame s))"

definition pop_effective_address :: "u32 \<Rightarrow> ('m, 'i, usize) exec" where
  "pop_effective_address memarg_offset =
     bnd pop_i32 (\<lambda>addr.
       case u32_checked_add (unat addr) (unat memarg_offset) of
         None \<Rightarrow> fail (Memory (EffectiveAddressOverflow addr memarg_offset))
       | Some effective_offset \<Rightarrow> ret effective_offset)"

text \<open>
  The two unchecked accesses to a local's slot: reading or writing outside the backing vector
  would be undefined behaviour, and is a failed \<open>debug_assert!\<close> first.
\<close>

definition get_local :: "LocalIndex \<Rightarrow> nat \<Rightarrow> ('m, 'i, Value) exec" where
  "get_local i caller_base_height =
     bnd (lift_result (u32_add (unat i) caller_base_height)) (\<lambda>sl. on_frame (slot sl))"

definition set_local :: "LocalIndex \<Rightarrow> Value \<Rightarrow> nat \<Rightarrow> ('m, 'i, unit) exec" where
  "set_local i val caller_base_height =
     bnd (lift_result (u32_add (unat i) caller_base_height)) (\<lambda>sl. on_frame (set_slot sl val))"

section \<open>Calls\<close>

fun into_vals :: "Value list \<Rightarrow> ValType list \<Rightarrow> ('e, Val list) result" where
  "into_vals (v # vs) (ty # tys) =
     and_then (into_val v ty) (\<lambda>x. and_then (into_vals vs tys) (\<lambda>xs. Ok (x # xs)))"
| "into_vals _ _ = Ok []"

definition host_error :: "FuncIndex \<Rightarrow> TableIndex option \<Rightarrow> string \<Rightarrow> InstructionExecutionError" where
  "host_error callee is_indirect err = (case is_indirect of
      Some table_index \<Rightarrow>
        CallIndirectErr table_index (FunctionCall callee (CallToImportedItemReturnedError err))
    | None \<Rightarrow> CallErr callee (CallToImportedItemReturnedError err))"

definition call_imported ::
    "('m, 'i) import_registry_impl \<Rightarrow> StackModule \<Rightarrow> FuncIndex \<Rightarrow> TableIndex option \<Rightarrow>
     StackCallerBaseData \<Rightarrow> ('m, 'i, unit) exec" where
  "call_imported R module callee is_indirect caller_base_data =
     bnd (lift_result (index (md_func_decls module) (unat callee))) (\<lambda>decl.
     bnd (lift_result (index (md_types module) (unat (fd_ty decl)))) (\<lambda>ty.
       case fd_kind decl of
         Local \<Rightarrow> panic
       | Imported module_name imported_func_name \<Rightarrow>
           bnd (on_frame (get_params_for_import_call (as_u32 (length (ft_params ty))) caller_base_data))
             (\<lambda>params.
           bnd (lift_result (into_vals params (ft_params ty))) (\<lambda>callee_params.
           bnd (on_field (\<lambda>s. (import_registry s, memory s))
                  (\<lambda>(r, m) s. s\<lparr>import_registry := r, memory := m\<rparr>)
                  (host_error callee is_indirect)
                  (ir_execute R module_name imported_func_name callee_params)) (\<lambda>results.
           on_frame (set_results_from_import_call results caller_base_data))))))"

definition dispatch_call ::
    "('m, 'i) import_registry_impl \<Rightarrow> StackModule \<Rightarrow> nat \<Rightarrow> FuncIndex \<Rightarrow> nat \<Rightarrow> TableIndex option \<Rightarrow>
     ('m, 'i) arm" where
  "dispatch_call R module imported_func_count callee params_count is_indirect =
     bnd frame_height (\<lambda>h.
     bnd (lift_result (u32_sub h params_count)) (\<lambda>base.
       let callee_base = \<lparr>base_height = base, callee_frame_base_height = U32_MAX\<rparr>
       in if imported_func_count \<le> unat callee
          then ret (StepCall callee callee_base is_indirect)
          else bnd (call_imported R module callee is_indirect callee_base) (\<lambda>_. ret Next)))"

definition exec_call ::
    "('m, 'i) import_registry_impl \<Rightarrow> StackModule \<Rightarrow> nat \<Rightarrow> FuncIndex \<Rightarrow> nat \<Rightarrow> ('m, 'i) arm" where
  "exec_call R module imported_func_count callee params_count =
     dispatch_call R module imported_func_count callee params_count None"

definition signature_mismatch :: "TableIndex \<Rightarrow> FuncType \<Rightarrow> FuncType \<Rightarrow> InstructionExecutionError" where
  "signature_mismatch table_index declared expected =
     CallIndirectErr table_index (FunctionSignatureMismatch
       (ft_params declared, ft_results declared) (ft_params expected, ft_results expected))"

definition exec_call_indirect ::
    "('m, 'i) import_registry_impl \<Rightarrow> StackModule \<Rightarrow> nat \<Rightarrow> TyIndex \<Rightarrow> TableIndex \<Rightarrow> ('m, 'i) arm" where
  "exec_call_indirect R module imported_func_count ty_index table_index =
     bnd (gets table_vals) (\<lambda>tables.
     bnd (lift_result (index tables (unat table_index))) (\<lambda>tab.
     bnd pop_usize (\<lambda>i.
       if length (table tab) \<le> i then fail (CallIndirectErr table_index TableSlotOutOfBounds)
       else (case table tab ! i of
         None \<Rightarrow> fail (CallIndirectErr table_index NullElementInTable)
       | Some callee \<Rightarrow>
           bnd (lift_result (index (md_types module) (unat ty_index))) (\<lambda>func_ty.
           bnd (lift_result (index (md_func_decls module) (unat callee))) (\<lambda>func.
           bnd (lift_result (index (md_types module) (unat (fd_ty func)))) (\<lambda>ty.
             if ft_params func_ty \<noteq> ft_params ty \<or> ft_results func_ty \<noteq> ft_results ty
             then fail (signature_mismatch table_index ty func_ty)
             else dispatch_call R module imported_func_count callee
                    (as_u32 (length (ft_params ty))) (Some table_index))))))))"

section \<open>Constants and references\<close>

fun exec_const :: "const_instr \<Rightarrow> ('m, 'i) arm" where
  "exec_const (I32Const v) = push_next (from_i32 v)"
| "exec_const (I64Const v) = push_next (from_i64 v)"
| "exec_const (F32Const v) = push_next (from_f32 v)"
| "exec_const (F64Const v) = push_next (from_f64 v)"
| "exec_const RefNull = push_next (from_ref None)"
| "exec_const (RefFunc f) = push_next (from_ref (Some f))"

definition exec_ref_is_null :: "('m, 'i) arm" where
  "exec_ref_is_null =
     bnd pop_value (\<lambda>v. push_next (if as_ref v = None then from_i32 1 else from_i32 0))"

section \<open>Memory\<close>

definition exec_memory_size :: "'m memory_impl \<Rightarrow> ('m, 'i) arm" where
  "exec_memory_size D =
     bnd (gets (\<lambda>s. mv_size_in_pages D (memory s))) (\<lambda>n. push_next (from_i32 (of_nat n)))"

definition exec_memory_grow :: "'m memory_impl \<Rightarrow> ('m, 'i) arm" where
  "exec_memory_grow D =
     bnd pop_usize (\<lambda>delta_in_pages.
     bnd (gets (\<lambda>s. unat (max_memory_size_in_pages (config s)))) (\<lambda>max_pages.
     bnd (attempt (on_memory (mv_grow D delta_in_pages max_pages))) (\<lambda>r.
       case r of
         Inr old_page \<Rightarrow> push_next (from_i32 (of_nat old_page))
       | Inl _ \<Rightarrow> push_next (from_i32 (- 1)))))"

definition exec_memory_copy :: "'m memory_impl \<Rightarrow> ('m, 'i) arm" where
  "exec_memory_copy D =
     bnd pop_usize (\<lambda>len. bnd pop_usize (\<lambda>src. bnd pop_usize (\<lambda>dest.
     bnd (on_memory (mv_copy_within D dest src len)) (\<lambda>_. ret Next))))"

definition exec_memory_fill :: "'m memory_impl \<Rightarrow> ('m, 'i) arm" where
  "exec_memory_fill D =
     bnd pop_usize (\<lambda>len. bnd pop_i32 (\<lambda>val. bnd pop_usize (\<lambda>dest.
     bnd (on_memory (mv_fill D dest val len)) (\<lambda>_. ret Next))))"

definition data_segment :: "DataVal \<Rightarrow> u8 list" where
  "data_segment d = (case d of DataDropped \<Rightarrow> [] | DataPassive segment \<Rightarrow> segment)"

definition exec_memory_init :: "'m memory_impl \<Rightarrow> u32 \<Rightarrow> ('m, 'i) arm" where
  "exec_memory_init D data_index =
     bnd pop_usize (\<lambda>len. bnd pop_usize (\<lambda>src. bnd pop_usize (\<lambda>dest.
     bnd (gets data_vals) (\<lambda>ds.
     bnd (lift_result (index ds (unat data_index))) (\<lambda>d.
       let segment = data_segment d
       in case usize_checked_add src len of
            None \<Rightarrow> fail (Memory (OutOfBoundsAccess Read src (length segment)))
          | Some end_ \<Rightarrow>
              if length segment < end_
              then fail (Memory (OutOfBoundsAccess Read src (length segment)))
              else bnd (on_memory (mv_write D dest (sub_slice segment src (end_ - src))))
                     (\<lambda>_. ret Next))))))"

definition exec_data_drop :: "u32 \<Rightarrow> ('m, 'i) arm" where
  "exec_data_drop data_index =
     bnd (gets data_vals) (\<lambda>ds.
       if unat data_index < length ds
       then bnd (modify (\<lambda>s. s\<lparr>data_vals := ds[unat data_index := DataDropped]\<rparr>)) (\<lambda>_. ret Next)
       else panic)"

text \<open>The value of a load, zero or sign extended, as the slot that is pushed.\<close>

fun load_value :: "'m memory_impl \<Rightarrow> load_op \<Rightarrow> usize \<Rightarrow> ('m, MemoryError, Value) op" where
  "load_value D I32Load a = bnd (mv_read_i32 D a) (\<lambda>v. ret (from_i32 v))"
| "load_value D I32Load8U a = bnd (mv_read_u8 D a) (\<lambda>v. ret (from_i32 (ucast v)))"
| "load_value D I32Load8S a = bnd (mv_read_i8 D a) (\<lambda>v. ret (from_i32 (scast v)))"
| "load_value D I32Load16U a = bnd (mv_read_u16 D a) (\<lambda>v. ret (from_i32 (ucast v)))"
| "load_value D I32Load16S a = bnd (mv_read_i16 D a) (\<lambda>v. ret (from_i32 (scast v)))"
| "load_value D I64Load a = bnd (mv_read_i64 D a) (\<lambda>v. ret (from_i64 v))"
| "load_value D I64Load8U a = bnd (mv_read_u8 D a) (\<lambda>v. ret (from_i64 (ucast v)))"
| "load_value D I64Load8S a = bnd (mv_read_i8 D a) (\<lambda>v. ret (from_i64 (scast v)))"
| "load_value D I64Load16U a = bnd (mv_read_u16 D a) (\<lambda>v. ret (from_i64 (ucast v)))"
| "load_value D I64Load16S a = bnd (mv_read_i16 D a) (\<lambda>v. ret (from_i64 (scast v)))"
| "load_value D I64Load32U a = bnd (mv_read_u32 D a) (\<lambda>v. ret (from_i64 (ucast v)))"
| "load_value D I64Load32S a = bnd (mv_read_i32 D a) (\<lambda>v. ret (from_i64 (scast v)))"
| "load_value D F32Load a = bnd (mv_read_f32 D a) (\<lambda>v. ret (from_f32 v))"
| "load_value D F64Load a = bnd (mv_read_f64 D a) (\<lambda>v. ret (from_f64 v))"

definition exec_load :: "'m memory_impl \<Rightarrow> load_op \<Rightarrow> u32 \<Rightarrow> ('m, 'i) arm" where
  "exec_load D l offset =
     bnd (pop_effective_address offset) (\<lambda>a.
     bnd (on_memory (load_value D l a)) push_next)"

fun store_value :: "'m memory_impl \<Rightarrow> store_op \<Rightarrow> usize \<Rightarrow> Value \<Rightarrow> ('m, MemoryError, unit) op" where
  "store_value D I32Store a v = mv_write_u32 D a (as_i32 v)"
| "store_value D I32Store8 a v = mv_write_u8 D a (ucast (as_i32 v))"
| "store_value D I32Store16 a v = mv_write_u16 D a (ucast (as_i32 v))"
| "store_value D I64Store a v = mv_write_u64 D a (as_i64 v)"
| "store_value D I64Store8 a v = mv_write_u8 D a (ucast (as_i64 v))"
| "store_value D I64Store16 a v = mv_write_u16 D a (ucast (as_i64 v))"
| "store_value D I64Store32 a v = mv_write_u32 D a (ucast (as_i64 v))"
| "store_value D F32Store a v = mv_write_f32 D a (as_f32 v)"
| "store_value D F64Store a v = mv_write_f64 D a (as_f64 v)"

text \<open>The value is on top of the address.\<close>

definition exec_store :: "'m memory_impl \<Rightarrow> store_op \<Rightarrow> u32 \<Rightarrow> ('m, 'i) arm" where
  "exec_store D st offset =
     bnd pop_value (\<lambda>v.
     bnd (pop_effective_address offset) (\<lambda>a.
     bnd (on_memory (store_value D st a v)) (\<lambda>_. ret Next)))"

section \<open>Numeric operators\<close>

definition exec_unary :: "(Value \<Rightarrow> numeric_result) \<Rightarrow> ('m, 'i) arm" where
  "exec_unary f = bnd pop_value (\<lambda>v. bnd (lift_result (f v)) push_next)"

definition exec_binary :: "(Value \<Rightarrow> Value \<Rightarrow> numeric_result) \<Rightarrow> ('m, 'i) arm" where
  "exec_binary f =
     bnd pop_value (\<lambda>b. bnd pop_value (\<lambda>a. bnd (lift_result (f a b)) push_next))"

fun exec_numeric :: "float_env \<Rightarrow> numeric_instr \<Rightarrow> ('m, 'i) arm" where
  "exec_numeric fe (I32Unary u) = exec_unary (i32_unary fe u)"
| "exec_numeric fe (I32Binary b) = exec_binary (i32_binary b)"
| "exec_numeric fe (I32Compare r) = exec_binary (i32_compare r)"
| "exec_numeric fe (I64Unary u) = exec_unary (i64_unary fe u)"
| "exec_numeric fe (I64Binary b) = exec_binary (i64_binary b)"
| "exec_numeric fe (I64Compare r) = exec_binary (i64_compare r)"
| "exec_numeric fe (F32Unary u) = exec_unary (\<lambda>v. Ok (f32_unary fe u v))"
| "exec_numeric fe (F32Binary b) = exec_binary (\<lambda>x y. Ok (f32_binary fe b x y))"
| "exec_numeric fe (F32Compare r) = exec_binary (\<lambda>x y. Ok (f32_compare r x y))"
| "exec_numeric fe (F64Unary u) = exec_unary (\<lambda>v. Ok (f64_unary fe u v))"
| "exec_numeric fe (F64Binary b) = exec_binary (\<lambda>x y. Ok (f64_binary fe b x y))"
| "exec_numeric fe (F64Compare r) = exec_binary (\<lambda>x y. Ok (f64_compare r x y))"

section \<open>Variables\<close>

definition exec_local_get :: "StackCallerBaseData \<Rightarrow> LocalIndex \<Rightarrow> ('m, 'i) arm" where
  "exec_local_get cb i = bnd (get_local i (base_height cb)) push_next"

definition exec_local_set :: "StackCallerBaseData \<Rightarrow> LocalIndex \<Rightarrow> ('m, 'i) arm" where
  "exec_local_set cb i =
     bnd pop_value (\<lambda>v. bnd (set_local i v (base_height cb)) (\<lambda>_. ret Next))"

definition exec_local_tee :: "StackCallerBaseData \<Rightarrow> LocalIndex \<Rightarrow> ('m, 'i) arm" where
  "exec_local_tee cb i =
     bnd (on_frame tee) (\<lambda>v. bnd (set_local i v (base_height cb)) (\<lambda>_. ret Next))"

definition exec_global_get :: "GlobalIndex \<Rightarrow> ('m, 'i) arm" where
  "exec_global_get i =
     bnd (gets global_vals) (\<lambda>gs.
     bnd (lift_result (index gs (unat i))) (\<lambda>v. push_next (value_of_val v)))"

definition exec_global_set :: "StackModule \<Rightarrow> GlobalIndex \<Rightarrow> ('m, 'i) arm" where
  "exec_global_set module i =
     bnd pop_value (\<lambda>v.
     bnd (lift_result (index (md_globals module) (unat i))) (\<lambda>g.
     bnd (lift_result (into_val v (gt_content_type g))) (\<lambda>x.
     bnd (gets global_vals) (\<lambda>gs.
       if unat i < length gs
       then bnd (modify (\<lambda>s. s\<lparr>global_vals := gs[unat i := x]\<rparr>)) (\<lambda>_. ret Next)
       else panic))))"

section \<open>Control\<close>

definition exec_select :: "('m, 'i) arm" where
  "exec_select =
     bnd pop_i32 (\<lambda>cond. bnd pop_value (\<lambda>b. bnd pop_value (\<lambda>a.
     push_next (if cond \<noteq> 0 then a else b))))"

definition exec_if :: "nat option \<Rightarrow> nat \<Rightarrow> ('m, 'i) arm" where
  "exec_if else_index end_index =
     bnd pop_i32 (\<lambda>cond.
       if cond \<noteq> 0 then ret Next
       else (case else_index of
               Some i \<Rightarrow> bnd (lift_result (u32_add i 1)) (\<lambda>t. ret (JumpTo t))
             | None \<Rightarrow> ret (JumpTo end_index)))"

definition unwind_to :: "StackCallerBaseData \<Rightarrow> nat \<Rightarrow> nat \<Rightarrow> ('m, 'i, unit) exec" where
  "unwind_to cb recorded_height arity =
     bnd (lift_result (u32_add recorded_height (callee_frame_base_height cb))) (\<lambda>h.
     on_frame (truncate_by_preserving_arity h arity))"

definition exec_br :: "StackCallerBaseData \<Rightarrow> nat \<Rightarrow> nat \<Rightarrow> nat \<Rightarrow> ('m, 'i) arm" where
  "exec_br cb target_index arity recorded_height =
     bnd (unwind_to cb recorded_height arity) (\<lambda>_. ret (JumpTo target_index))"

definition exec_br_if :: "StackCallerBaseData \<Rightarrow> nat \<Rightarrow> nat \<Rightarrow> nat \<Rightarrow> ('m, 'i) arm" where
  "exec_br_if cb target_index arity recorded_height =
     bnd pop_i32 (\<lambda>cond.
       if cond \<noteq> 0 then exec_br cb target_index arity recorded_height else ret Next)"

definition exec_br_table ::
    "StackFrameLayout \<Rightarrow> StackCallerBaseData \<Rightarrow> nat \<Rightarrow> nat \<Rightarrow> ('m, 'i) arm" where
  "exec_br_table layout cb start_index len =
     (let arena = br_targets_arena layout
      in if length arena < start_index + len then panic
         else let targets = sub_slice arena start_index len
         in bnd pop_usize (\<lambda>i.
            bnd (lift_result (usize_sub (length targets) 1)) (\<lambda>target_count.
            bnd (lift_result (index targets (if target_count \<le> i then target_count else i))) (\<lambda>branch.
            exec_br cb (bt_target_index branch) (bt_arity branch) (bt_recorded_height branch)))))"

definition exec_end :: "StackCallerBaseData \<Rightarrow> nat \<Rightarrow> nat \<Rightarrow> ('m, 'i) arm" where
  "exec_end cb arity recorded_height =
     bnd (lift_result (u32_add recorded_height arity)) (\<lambda>x.
     bnd (lift_result (u32_add x (callee_frame_base_height cb))) (\<lambda>expected.
     bnd frame_height (\<lambda>h. if h = expected then ret Next else panic)))"

section \<open>The dispatch\<close>

fun execute ::
    "float_env \<Rightarrow> 'm memory_impl \<Rightarrow> ('m, 'i) import_registry_impl \<Rightarrow> StackInstruction \<Rightarrow> StackModule \<Rightarrow>
     StackFrameLayout \<Rightarrow> StackCallerBaseData \<Rightarrow> nat \<Rightarrow> ('m, 'i) arm" where
  "execute fe D R (Call f n) module layout cb imported = exec_call R module imported f n"
| "execute fe D R (CallIndirect ty tab) module layout cb imported =
     exec_call_indirect R module imported ty tab"
| "execute fe D R Unreachable module layout cb imported = fail UnreachableTrap"
| "execute fe D R Nop module layout cb imported = ret Next"
| "execute fe D R (Const c) module layout cb imported = exec_const c"
| "execute fe D R RefIsNull module layout cb imported = exec_ref_is_null"
| "execute fe D R MemorySize module layout cb imported = exec_memory_size D"
| "execute fe D R MemoryGrow module layout cb imported = exec_memory_grow D"
| "execute fe D R MemoryCopy module layout cb imported = exec_memory_copy D"
| "execute fe D R MemoryFill module layout cb imported = exec_memory_fill D"
| "execute fe D R (MemoryInit i) module layout cb imported = exec_memory_init D i"
| "execute fe D R (DataDrop i) module layout cb imported = exec_data_drop i"
| "execute fe D R (Load l off) module layout cb imported = exec_load D l off"
| "execute fe D R (Store st off) module layout cb imported = exec_store D st off"
| "execute fe D R (Numeric n) module layout cb imported = exec_numeric fe n"
| "execute fe D R (LocalGet i) module layout cb imported = exec_local_get cb i"
| "execute fe D R (LocalSet i) module layout cb imported = exec_local_set cb i"
| "execute fe D R (LocalTee i) module layout cb imported = exec_local_tee cb i"
| "execute fe D R (GlobalGet i) module layout cb imported = exec_global_get i"
| "execute fe D R (GlobalSet i) module layout cb imported = exec_global_set module i"
| "execute fe D R Drop module layout cb imported = bnd pop_value (\<lambda>_. ret Next)"
| "execute fe D R Select module layout cb imported = exec_select"
| "execute fe D R Block module layout cb imported = ret Next"
| "execute fe D R Loop module layout cb imported = ret Next"
| "execute fe D R (If e n) module layout cb imported = exec_if e n"
| "execute fe D R (Else n) module layout cb imported = ret (JumpTo n)"
| "execute fe D R (Br t a h) module layout cb imported = exec_br cb t a h"
| "execute fe D R (BrIf t a h) module layout cb imported = exec_br_if cb t a h"
| "execute fe D R (BrTable st n) module layout cb imported = exec_br_table layout cb st n"
| "execute fe D R (Return t a h) module layout cb imported = exec_br cb t a h"
| "execute fe D R (End a h) module layout cb imported = exec_end cb a h"

section \<open>Constant expressions\<close>

text \<open>\<open>TraceVM::const_expr_evaluator\<close>: the same instructions on a small stack of tagged values.\<close>

definition const_binary_i32 :: "(u32 \<Rightarrow> u32 \<Rightarrow> u32) \<Rightarrow> (Val stack, 'e, unit) op" where
  "const_binary_i32 f =
     bnd pop (\<lambda>y. bnd (lift_result (Val_as_i32 y)) (\<lambda>b.
     bnd pop (\<lambda>x. bnd (lift_result (Val_as_i32 x)) (\<lambda>a. push (I32 (f a b))))))"

definition const_binary_i64 :: "(u64 \<Rightarrow> u64 \<Rightarrow> u64) \<Rightarrow> (Val stack, 'e, unit) op" where
  "const_binary_i64 f =
     bnd pop (\<lambda>y. bnd (lift_result (Val_as_i64 y)) (\<lambda>b.
     bnd pop (\<lambda>x. bnd (lift_result (Val_as_i64 x)) (\<lambda>a. push (I64 (f a b))))))"

fun const_step :: "Val list \<Rightarrow> StackInstruction \<Rightarrow> (Val stack, 'e, unit) op" where
  "const_step globals (Const (I32Const v)) = push (I32 v)"
| "const_step globals (Const (I64Const v)) = push (I64 v)"
| "const_step globals (Const (F32Const v)) = push (F32 v)"
| "const_step globals (Const (F64Const v)) = push (F64 v)"
| "const_step globals (GlobalGet i) = bnd (lift_result (index globals (unat i))) push"
| "const_step globals (Const RefNull) = push (Ref None)"
| "const_step globals (Const (RefFunc f)) = push (Ref (Some f))"
| "const_step globals (Numeric (I32Binary I32Add)) = const_binary_i32 (+)"
| "const_step globals (Numeric (I32Binary I32Sub)) = const_binary_i32 (-)"
| "const_step globals (Numeric (I32Binary I32Mul)) = const_binary_i32 (*)"
| "const_step globals (Numeric (I64Binary I64Add)) = const_binary_i64 (+)"
| "const_step globals (Numeric (I64Binary I64Sub)) = const_binary_i64 (-)"
| "const_step globals (Numeric (I64Binary I64Mul)) = const_binary_i64 (*)"
| "const_step globals (End a h) = ret ()"
| "const_step globals _ = panic"

definition const_expr_evaluator :: "StackInstruction list \<Rightarrow> Val list \<Rightarrow> ('e, Val) result" where
  "const_expr_evaluator instructions globals =
     (case bnd (for_each instructions (const_step globals)) (\<lambda>_. pop) new_stack of
        Ok (v, _) \<Rightarrow> Ok v
      | Err (e, _) \<Rightarrow> Err e
      | Panic \<Rightarrow> Panic)"

end
