(* ===== verification/Driver.thy ===== *)
theory Driver
  imports StackExec
begin

text \<open>
  The two drivers of \<open>runtime/mod.rs\<close>: \<open>execute_on_native_stack\<close>, which recurses once per wasm
  call, and \<open>_execute_on_frame_stack\<close>, which keeps its suspended callers in a vector. Both are
  generic over the machine, a record of the operations that the \<open>Instruction\<close> and
  \<open>RuntimeFrame\<close> traits name.

  A guest program may loop forever, so the drivers run on fuel: \<open>None\<close> is a run that has not
  returned yet. One unit is spent per instruction and one per call.
\<close>

section \<open>Runs that may not return\<close>

type_synonym ('s, 'e, 'a) fop = "'s \<Rightarrow> ('e \<times> 's, 'a \<times> 's) result option"

definition fbnd :: "('s, 'e, 'a) fop \<Rightarrow> ('a \<Rightarrow> ('s, 'e, 'b) fop) \<Rightarrow> ('s, 'e, 'b) fop" where
  "fbnd m f = (\<lambda>s. case m s of
      None \<Rightarrow> None
    | Some (Ok (a, s')) \<Rightarrow> f a s'
    | Some (Err (e, s')) \<Rightarrow> Some (Err (e, s'))
    | Some Panic \<Rightarrow> Some Panic)"

definition fop_of :: "('s, 'e, 'a) op \<Rightarrow> ('s, 'e, 'a) fop" where
  "fop_of m = (\<lambda>s. Some (m s))"

text \<open>A run's error, mapped.\<close>

definition fmap_err :: "('e \<Rightarrow> ('e2, 'e2) result) \<Rightarrow> ('s, 'e, 'a) fop \<Rightarrow> ('s, 'e2, 'a) fop" where
  "fmap_err conv m = (\<lambda>s. case m s of
      None \<Rightarrow> None
    | Some (Ok r) \<Rightarrow> Some (Ok r)
    | Some (Err (e, s')) \<Rightarrow> (case conv e of Ok e' \<Rightarrow> Some (Err (e', s')) | _ \<Rightarrow> Some Panic)
    | Some Panic \<Rightarrow> Some Panic)"

section \<open>The machine\<close>

record ('instr, 'layout, 'base, 'inst) machine =
  vm_execute :: "'instr \<Rightarrow> ('instr, 'layout) Module \<Rightarrow> 'layout \<Rightarrow> 'base \<Rightarrow> nat \<Rightarrow>
    ('inst, InstructionExecutionError, 'base Step) op"
  vm_initial_data :: 'base
  vm_reset :: "'inst \<Rightarrow> 'inst"
  vm_set_initial_params :: "Val list \<Rightarrow> 'inst \<Rightarrow> 'inst option"
  vm_get_final_results :: "nat \<Rightarrow> 'inst \<Rightarrow> (Value list \<times> 'inst) option"
  vm_enter_frame :: "nat \<Rightarrow> ValType list \<Rightarrow> 'base \<Rightarrow> 'layout \<Rightarrow> 'inst \<Rightarrow> ('base \<times> 'inst) option"
  vm_exit_frame :: "nat \<Rightarrow> 'base \<Rightarrow> 'layout \<Rightarrow> 'inst \<Rightarrow> 'inst option"
  vm_max_call_stack_depth :: "'inst \<Rightarrow> nat"

text \<open>An operation without an error: \<open>None\<close> is a panic.\<close>

definition infallible :: "('s \<Rightarrow> ('a \<times> 's) option) \<Rightarrow> ('s, 'e, 'a) op" where
  "infallible m = (\<lambda>s. case m s of Some r \<Rightarrow> Ok r | None \<Rightarrow> Panic)"

definition infallible_update :: "('s \<Rightarrow> 's option) \<Rightarrow> ('s, 'e, unit) op" where
  "infallible_update m = (\<lambda>s. case m s of Some s' \<Rightarrow> Ok ((), s') | None \<Rightarrow> Panic)"

definition run_infallible :: "('s, unit, 'a) op \<Rightarrow> 's \<Rightarrow> ('a \<times> 's) option" where
  "run_infallible m s = (case m s of Ok r \<Rightarrow> Some r | _ \<Rightarrow> None)"

definition stack_machine ::
    "float_env \<Rightarrow> 'm memory_impl \<Rightarrow> ('m, 'i) import_registry_impl \<Rightarrow>
     (StackInstruction, StackFrameLayout, StackCallerBaseData, ('m, 'i) StackInstance) machine" where
  "stack_machine fe D R = \<lparr>
     vm_execute = execute fe D R,
     vm_initial_data = \<lparr>base_height = 0, callee_frame_base_height = U32_MAX\<rparr>,
     vm_reset = (\<lambda>s. s\<lparr>frame := frame s\<lparr>stack_pointer := 0\<rparr>\<rparr>),
     vm_set_initial_params = (\<lambda>ps s.
       map_option snd (run_infallible (on_frame (set_initial_params ps)) s)),
     vm_get_final_results = (\<lambda>n. run_infallible (on_frame (get_final_results n))),
     vm_enter_frame = (\<lambda>n tys cb _. run_infallible (on_frame (enter_frame n tys cb))),
     vm_exit_frame = (\<lambda>n cb _ s. map_option snd (run_infallible (on_frame (exit_frame n cb)) s)),
     vm_max_call_stack_depth = (\<lambda>s. unat (max_call_stack_depth (config s)))\<rparr>"

section \<open>Traces\<close>

type_synonym Unwind = "TraceRecord list"

definition trap_here ::
    "FuncIndex \<Rightarrow> nat \<Rightarrow> nat list \<Rightarrow> InstructionExecutionError \<Rightarrow> ('e, Unwind) result" where
  "trap_here func_index pc instruction_offsets err =
     and_then (index instruction_offsets pc) (\<lambda>off.
       Ok [TraceRecord func_index pc (NonCall err) off])"

definition exported_func_name :: "('instr, 'layout) Module \<Rightarrow> FuncIndex \<Rightarrow> string" where
  "exported_func_name module func_index =
     (case md_exported_func_index_to_name module func_index of
        Some name \<Rightarrow> name | None \<Rightarrow> ''<unknown>'')"

definition func_call_err_from_unwind ::
    "FuncIndex \<Rightarrow> Unwind \<Rightarrow> ('instr, 'layout) Module \<Rightarrow> FuncCallError" where
  "func_call_err_from_unwind func_index trace module =
     FuncCallError (exported_func_name module func_index) trace"

text \<open>Failing with a trace that may itself panic.\<close>

definition fail_with :: "('e, 'e) result \<Rightarrow> ('s, 'e, 'a) op" where
  "fail_with r = (\<lambda>s. case r of Ok e \<Rightarrow> Err (e, s) | Err e \<Rightarrow> Err (e, s) | Panic \<Rightarrow> Panic)"

section \<open>The native driver\<close>

text \<open>
  A running function: its index, its body, its base data, and the result count that tearing
  its frame down needs.
\<close>

record ('instr, 'layout, 'base) activation =
  ac_func_index :: FuncIndex
  ac_body :: "('instr, 'layout) FuncBody"
  ac_base :: 'base
  ac_results_count :: nat

text \<open>What both drivers do when they enter a function: look it up and enter its frame.\<close>

definition enter_function ::
    "('instr, 'layout, 'base, 'inst) machine \<Rightarrow> ('instr, 'layout) Module \<Rightarrow> FuncIndex \<Rightarrow> 'base \<Rightarrow>
     'inst \<Rightarrow> (('instr, 'layout, 'base) activation \<times> 'inst) option" where
  "enter_function vm module func_index caller_base_data = run_infallible
     (if unat func_index < md_imported_func_count module then panic
      else bnd (lift_result (index (md_func_decls module) (unat func_index))) (\<lambda>decl.
           bnd (lift_result (index (md_types module) (unat (fd_ty decl)))) (\<lambda>ty.
           bnd (lift_result (index (md_func_bodies module)
                  (unat func_index - md_imported_func_count module))) (\<lambda>body.
           bnd (infallible (vm_enter_frame vm (as_u32 (length (ft_params ty))) (fb_locals body)
                  caller_base_data (fb_frame_layout body))) (\<lambda>base.
           ret \<lparr>ac_func_index = func_index, ac_body = body, ac_base = base,
                ac_results_count = as_u32 (length (ft_results ty))\<rparr>)))))"

definition execute_at ::
    "('instr, 'layout, 'base, 'inst) machine \<Rightarrow> ('instr, 'layout) Module \<Rightarrow>
     ('instr, 'layout, 'base) activation \<Rightarrow> nat \<Rightarrow>
     'inst \<Rightarrow> ((InstructionExecutionError + 'base Step) \<times> 'inst) option" where
  "execute_at vm module ac pc = run_infallible
     (bnd (lift_result (index (fb_instructions (ac_body ac)) pc)) (\<lambda>instr.
      attempt (vm_execute vm instr module (fb_frame_layout (ac_body ac)) (ac_base ac)
        (md_imported_func_count module))))"

text \<open>
  \<open>native_loop\<close> is the driver loop from \<open>pc\<close> on, the teardown after it included; it returns the
  depth counter. \<open>advance\<close> is the test at the end of every iteration.
\<close>

fun execute_on_native_stack ::
    "nat \<Rightarrow> ('instr, 'layout, 'base, 'inst) machine \<Rightarrow> ('instr, 'layout) Module \<Rightarrow> FuncIndex \<Rightarrow> 'base \<Rightarrow>
     nat \<Rightarrow> ('inst, Unwind, nat) fop"
and native_loop ::
    "nat \<Rightarrow> ('instr, 'layout, 'base, 'inst) machine \<Rightarrow> ('instr, 'layout) Module \<Rightarrow>
     ('instr, 'layout, 'base) activation \<Rightarrow> nat \<Rightarrow> nat \<Rightarrow> ('inst, Unwind, nat) fop" where
  "execute_on_native_stack 0 vm module func_index base depth = (\<lambda>s. None)"
| "execute_on_native_stack (Suc n) vm module func_index base depth =
     fbnd (fop_of (infallible (enter_function vm module func_index base))) (\<lambda>ac.
     fbnd (fop_of (lift_result (u32_add depth 1))) (\<lambda>depth.
     native_loop n vm module ac 0 depth))"
| "native_loop 0 vm module ac pc depth = (\<lambda>s. None)"
| "native_loop (Suc n) vm module ac pc depth =
     (let advance = (\<lambda>pc depth.
            if pc = length (fb_instructions (ac_body ac))
            then fbnd (fop_of (infallible_update (vm_exit_frame vm (ac_results_count ac) (ac_base ac)
                   (fb_frame_layout (ac_body ac))))) (\<lambda>_. fop_of (lift_result (u32_sub depth 1)))
            else native_loop n vm module ac pc depth)
      in fbnd (fop_of (infallible (execute_at vm module ac pc))) (\<lambda>r.
         case r of
           Inl err \<Rightarrow>
             fop_of (fail_with (trap_here (ac_func_index ac) pc (fb_instruction_offsets (ac_body ac)) err))
         | Inr Next \<Rightarrow> advance (pc + 1) depth
         | Inr (JumpTo target) \<Rightarrow> advance target depth
         | Inr (StepCall callee callee_base is_indirect) \<Rightarrow>
             fbnd (fop_of (gets (vm_max_call_stack_depth vm))) (\<lambda>max_depth.
               if max_depth \<le> depth
               then fop_of (fail_with (trap_here (ac_func_index ac) pc
                      (fb_instruction_offsets (ac_body ac)) (CallStackExhausted max_depth)))
               else fbnd (fmap_err (\<lambda>trace.
                        and_then (index (fb_instruction_offsets (ac_body ac)) pc) (\<lambda>off.
                        Ok (trace @ [TraceRecord (ac_func_index ac) pc
                               (CallRecord callee is_indirect) off])))
                      (execute_on_native_stack n vm module callee callee_base depth)) (\<lambda>depth.
                    advance (pc + 1) depth))))"

section \<open>The frame driver\<close>

record ('instr, 'layout, 'base) Frame =
  fr_activation :: "('instr, 'layout, 'base) activation"
  fr_pc :: nat
  fr_callee_results_count :: nat
  fr_callee_func_index :: FuncIndex
  fr_callee_is_indirect :: "TableIndex option"

definition frame_record :: "('instr, 'layout, 'base) Frame \<Rightarrow> ('e, TraceRecord) result" where
  "frame_record f =
     and_then (index (fb_instruction_offsets (ac_body (fr_activation f))) (fr_pc f)) (\<lambda>off.
     Ok (TraceRecord (ac_func_index (fr_activation f)) (fr_pc f)
           (CallRecord (fr_callee_func_index f) (fr_callee_is_indirect f)) off))"

fun frame_records :: "('instr, 'layout, 'base) Frame list \<Rightarrow> ('e, TraceRecord list) result" where
  "frame_records [] = Ok []"
| "frame_records (f # fs) =
     and_then (frame_record f) (\<lambda>r. and_then (frame_records fs) (\<lambda>rs. Ok (r # rs)))"

text \<open>
  \<open>func_call_err\<close>, with the suspended callers newest first: the innermost record names the
  callee of the newest frame, or the entry function.
\<close>

definition func_call_err ::
    "FuncIndex \<Rightarrow> ('instr, 'layout, 'base) Frame list \<Rightarrow> InstructionExecutionError \<Rightarrow> nat \<Rightarrow> nat list \<Rightarrow>
     ('instr, 'layout) Module \<Rightarrow> ('e, FuncCallError) result" where
  "func_call_err entry_func_index frames err instr_index instruction_offsets module =
     and_then (index instruction_offsets instr_index) (\<lambda>off.
     and_then (frame_records frames) (\<lambda>rs.
     Ok (FuncCallError (exported_func_name module entry_func_index)
       (TraceRecord (case frames of [] \<Rightarrow> entry_func_index | f # _ \<Rightarrow> fr_callee_func_index f)
          instr_index (NonCall err) off # rs))))"

text \<open>
  The state of the loop: the suspended callers and the running activation at its \<open>pc\<close>.
  \<open>results_count\<close> of the teardown is the entry function's when no caller is suspended, and the
  one the caller saved otherwise; both are the running activation's own.
\<close>

fun frame_loop ::
    "nat \<Rightarrow> ('instr, 'layout, 'base, 'inst) machine \<Rightarrow> ('instr, 'layout) Module \<Rightarrow> FuncIndex \<Rightarrow> nat \<Rightarrow>
     ('instr, 'layout, 'base) Frame list \<Rightarrow> ('instr, 'layout, 'base) activation \<Rightarrow> nat \<Rightarrow>
     ('inst, FuncCallError, unit) fop" where
  "frame_loop 0 vm module entry results_count frames ac pc = (\<lambda>s. None)"
| "frame_loop (Suc n) vm module entry results_count frames ac pc =
     (let finish = (\<lambda>pc.
            if pc = length (fb_instructions (ac_body ac))
            then (case frames of
                [] \<Rightarrow> fop_of (infallible_update (vm_exit_frame vm results_count (ac_base ac)
                        (fb_frame_layout (ac_body ac))))
              | f # fs \<Rightarrow>
                  fbnd (fop_of (infallible_update (vm_exit_frame vm (fr_callee_results_count f)
                    (ac_base ac) (fb_frame_layout (ac_body ac))))) (\<lambda>_.
                  frame_loop n vm module entry results_count fs (fr_activation f) (fr_pc f + 1)))
            else frame_loop n vm module entry results_count frames ac pc)
      in fbnd (fop_of (infallible (execute_at vm module ac pc))) (\<lambda>r.
         case r of
           Inl err \<Rightarrow>
             fop_of (fail_with (func_call_err entry frames err pc
               (fb_instruction_offsets (ac_body ac)) module))
         | Inr Next \<Rightarrow> finish (pc + 1)
         | Inr (JumpTo target) \<Rightarrow> finish target
         | Inr (StepCall callee callee_base is_indirect) \<Rightarrow>
             fbnd (fop_of (gets (vm_max_call_stack_depth vm))) (\<lambda>max_depth.
             fbnd (fop_of (lift_result (u32_add (as_u32 (length frames)) 1))) (\<lambda>depth.
               if max_depth \<le> depth
               then fop_of (fail_with (func_call_err entry frames (CallStackExhausted max_depth) pc
                      (fb_instruction_offsets (ac_body ac)) module))
               else fbnd (fop_of (infallible (enter_function vm module callee callee_base))) (\<lambda>callee_ac.
                 frame_loop n vm module entry results_count
                   (\<lparr>fr_activation = ac, fr_pc = as_u32 pc,
                      fr_callee_results_count = ac_results_count callee_ac,
                      fr_callee_func_index = callee, fr_callee_is_indirect = is_indirect\<rparr> # frames)
                   callee_ac 0)))))"

definition execute_on_frame_stack ::
    "nat \<Rightarrow> ('instr, 'layout, 'base, 'inst) machine \<Rightarrow> ('instr, 'layout) Module \<Rightarrow> FuncIndex \<Rightarrow>
     ('inst, FuncCallError, unit) fop" where
  "execute_on_frame_stack n vm module func_index =
     fbnd (fop_of (infallible (enter_function vm module func_index (vm_initial_data vm)))) (\<lambda>ac.
     frame_loop n vm module func_index (ac_results_count ac) [] ac 0)"

declare frame_loop.simps [simp del] and execute_on_native_stack.simps [simp del] and
  native_loop.simps [simp del]

section \<open>The entry point\<close>

definition run ::
    "nat \<Rightarrow> ('instr, 'layout, 'base, 'inst) machine \<Rightarrow> FuncIndex \<Rightarrow> Val list \<Rightarrow> ('instr, 'layout) Module \<Rightarrow>
     ('inst, FuncCallError, Val list) fop" where
  "run n vm func_index params module =
     fbnd (fop_of (modify (vm_reset vm))) (\<lambda>_.
     fbnd (fop_of (infallible_update (vm_set_initial_params vm params))) (\<lambda>_.
     fbnd (fmap_err (\<lambda>trace. Ok (func_call_err_from_unwind func_index trace module))
            (execute_on_native_stack n vm module func_index (vm_initial_data vm) 0)) (\<lambda>_.
     fbnd (fop_of (lift_result (index (md_func_decls module) (unat func_index)))) (\<lambda>decl.
     fbnd (fop_of (lift_result (index (md_types module) (unat (fd_ty decl))))) (\<lambda>ty.
     fbnd (fop_of (infallible (vm_get_final_results vm (as_u32 (length (ft_results ty)))))) (\<lambda>results.
     fop_of (lift_result (into_vals results (ft_results ty)))))))))"

end
