(* ===== verification/DriverEquivalence.thy ===== *)
theory DriverEquivalence
  imports Driver
begin

text \<open>
  The two drivers agree: on every machine, whenever the recursive driver returns, the one with
  the explicit call stack returns the same, down to the trace and the state it leaves behind.
  What that needs of the program is that no body ends in a call, which the lowering guarantees
  since every body ends in \<open>end\<close>: the frame driver does not test for the end of the caller's
  body after it resumes it.
\<close>

definition calls_not_last ::
    "('instr, 'layout, 'base, 'inst) machine \<Rightarrow> ('instr, 'layout) Module \<Rightarrow> bool" where
  "calls_not_last vm module \<longleftrightarrow> (\<forall>body \<in> set (md_func_bodies module).
     length (fb_instructions body) \<le> U32_MAX \<and>
     (\<forall>base s pc callee callee_base is_indirect s'.
        pc < length (fb_instructions body) \<longrightarrow>
        vm_execute vm (fb_instructions body ! pc) module (fb_frame_layout body) base
          (md_imported_func_count module) s = Ok (StepCall callee callee_base is_indirect, s') \<longrightarrow>
        pc + 1 < length (fb_instructions body)))"

lemma execute_at_call:
  assumes "calls_not_last vm module" "ac_body ac \<in> set (md_func_bodies module)"
    and "execute_at vm module ac pc s = Some (Inr (StepCall callee base ind), s')"
  shows "pc + 1 < length (fb_instructions (ac_body ac))" and "as_u32 pc = pc"
proof -
  let ?xs = "fb_instructions (ac_body ac)"
  from assms(3) have pc: "pc < length ?xs"
    and ex: "vm_execute vm (?xs ! pc) module (fb_frame_layout (ac_body ac)) (ac_base ac)
      (md_imported_func_count module) s = Ok (StepCall callee base ind, s')"
    by (auto simp: execute_at_def run_infallible_def bnd_def lift_result_def index_def attempt_def
        split: if_splits result.splits)
  from assms(1,2) have "\<forall>base s pc callee callee_base is_indirect s'. pc < length ?xs \<longrightarrow>
      vm_execute vm (?xs ! pc) module (fb_frame_layout (ac_body ac)) base
        (md_imported_func_count module) s = Ok (StepCall callee callee_base is_indirect, s') \<longrightarrow>
      pc + 1 < length ?xs"
    unfolding calls_not_last_def by blast
  with ex pc show "pc + 1 < length ?xs" by blast
  moreover from assms(1,2) have "length ?xs \<le> U32_MAX" by (auto simp: calls_not_last_def)
  ultimately show "as_u32 pc = pc" by simp
qed

lemma enter_function_activation:
  assumes "enter_function vm module func_index base s = Some (ac, s')"
  shows "ac_func_index ac = func_index" and "ac_body ac \<in> set (md_func_bodies module)"
  using assms
  by (auto simp: enter_function_def run_infallible_def bnd_def lift_result_def index_def panic_def
      infallible_def ret_def split: if_splits result.splits option.splits)

text \<open>What the frame driver does when the running function's native run has ended in \<open>r\<close>.\<close>

definition frame_outcome ::
    "('instr, 'layout, 'base, 'inst) machine \<Rightarrow> ('instr, 'layout) Module \<Rightarrow> FuncIndex \<Rightarrow> nat \<Rightarrow>
     ('instr, 'layout, 'base) Frame list \<Rightarrow> (Unwind \<times> 'inst, nat \<times> 'inst) result \<Rightarrow> nat \<Rightarrow>
     (FuncCallError \<times> 'inst, unit \<times> 'inst) result option" where
  "frame_outcome vm module entry rc frames r m = (case r of
      Ok (_, s') \<Rightarrow> (case frames of
          [] \<Rightarrow> Some (Ok ((), s'))
        | f # fs \<Rightarrow> frame_loop m vm module entry rc fs (fr_activation f) (fr_pc f + 1) s')
    | Err (trace, s') \<Rightarrow> (case frame_records frames of
          Ok rs \<Rightarrow> Some (Err (FuncCallError (exported_func_name module entry) (trace @ rs), s'))
        | Err e \<Rightarrow> Some (Err (e, s'))
        | Panic \<Rightarrow> Some Panic)
    | Panic \<Rightarrow> Some Panic)"

text \<open>The suspended callers know whom they called.\<close>

definition frames_match ::
    "FuncIndex \<Rightarrow> nat \<Rightarrow> ('instr, 'layout, 'base) Frame list \<Rightarrow> ('instr, 'layout, 'base) activation \<Rightarrow> bool" where
  "frames_match entry rc frames ac = (case frames of
      [] \<Rightarrow> entry = ac_func_index ac \<and> rc = ac_results_count ac
    | f # _ \<Rightarrow> fr_callee_func_index f = ac_func_index ac \<and>
        fr_callee_results_count f = ac_results_count ac)"

lemmas fop_defs = fbnd_def fop_of_def infallible_def infallible_update_def lift_result_def
  gets_def fail_with_def fmap_err_def Let_def

lemma func_call_err_trap:
  assumes "frames_match entry rc frames ac"
  shows "(case func_call_err entry frames err pc offs module of
        Ok e \<Rightarrow> Some (Err (e, s)) | Err e \<Rightarrow> Some (Err (e, s)) | Panic \<Rightarrow> Some Panic) =
      frame_outcome vm module entry rc frames
        (case trap_here (ac_func_index ac) pc offs err of
           Ok e \<Rightarrow> Err (e, s) | Err e \<Rightarrow> Err (e, s) | Panic \<Rightarrow> Panic) m"
  using assms
  by (auto simp: func_call_err_def trap_here_def frame_outcome_def frames_match_def index_def
      split: list.splits result.split)

lemma frame_records_no_Err: "frame_records fs \<noteq> Err e"
  by (induction fs arbitrary: e) (auto simp: frame_record_def index_def and_then_eq_Err)


text \<open>The end of an iteration of the two loops.\<close>

definition native_advance ::
    "nat \<Rightarrow> ('instr, 'layout, 'base, 'inst) machine \<Rightarrow> ('instr, 'layout) Module \<Rightarrow>
     ('instr, 'layout, 'base) activation \<Rightarrow> nat \<Rightarrow> nat \<Rightarrow> ('inst, Unwind, nat) fop" where
  "native_advance n vm module ac pc depth =
     (if pc = length (fb_instructions (ac_body ac))
      then fbnd (fop_of (infallible_update (vm_exit_frame vm (ac_results_count ac) (ac_base ac)
             (fb_frame_layout (ac_body ac))))) (\<lambda>_. fop_of (lift_result (u32_sub depth 1)))
      else native_loop n vm module ac pc depth)"

definition frame_advance ::
    "nat \<Rightarrow> ('instr, 'layout, 'base, 'inst) machine \<Rightarrow> ('instr, 'layout) Module \<Rightarrow> FuncIndex \<Rightarrow> nat \<Rightarrow>
     ('instr, 'layout, 'base) Frame list \<Rightarrow> ('instr, 'layout, 'base) activation \<Rightarrow> nat \<Rightarrow>
     ('inst, FuncCallError, unit) fop" where
  "frame_advance n vm module entry rc frames ac pc =
     (if pc = length (fb_instructions (ac_body ac))
      then (case frames of
          [] \<Rightarrow> fop_of (infallible_update (vm_exit_frame vm rc (ac_base ac)
                  (fb_frame_layout (ac_body ac))))
        | f # fs \<Rightarrow>
            fbnd (fop_of (infallible_update (vm_exit_frame vm (fr_callee_results_count f)
              (ac_base ac) (fb_frame_layout (ac_body ac))))) (\<lambda>_.
            frame_loop n vm module entry rc fs (fr_activation f) (fr_pc f + 1)))
      else frame_loop n vm module entry rc frames ac pc)"

text \<open>One iteration of each loop, by what the instruction at \<open>pc\<close> reports.\<close>

lemma native_loop_Suc:
  "native_loop (Suc n) vm module ac pc depth s = (case execute_at vm module ac pc s of
      None \<Rightarrow> Some Panic
    | Some (Inl err, s') \<Rightarrow>
        fop_of (fail_with (trap_here (ac_func_index ac) pc (fb_instruction_offsets (ac_body ac)) err)) s'
    | Some (Inr Next, s') \<Rightarrow> native_advance n vm module ac (pc + 1) depth s'
    | Some (Inr (JumpTo target), s') \<Rightarrow> native_advance n vm module ac target depth s'
    | Some (Inr (StepCall callee callee_base ind), s') \<Rightarrow>
        if vm_max_call_stack_depth vm s' \<le> depth
        then fop_of (fail_with (trap_here (ac_func_index ac) pc (fb_instruction_offsets (ac_body ac))
               (CallStackExhausted (vm_max_call_stack_depth vm s')))) s'
        else fbnd (fmap_err (\<lambda>trace.
                 and_then (index (fb_instruction_offsets (ac_body ac)) pc) (\<lambda>off.
                 Ok (trace @ [TraceRecord (ac_func_index ac) pc (CallRecord callee ind) off])))
               (execute_on_native_stack n vm module callee callee_base depth)) (\<lambda>depth.
             native_advance n vm module ac (pc + 1) depth) s')"
  unfolding native_loop.simps(2) native_advance_def [abs_def] fbnd_def fop_of_def infallible_def gets_def Let_def
  by (simp del: add_Suc_right add_Suc One_nat_def Suc_eq_plus1_left split: option.split sum.split Step.split)

lemma frame_loop_Suc:
  "frame_loop (Suc n) vm module entry rc frames ac pc s = (case execute_at vm module ac pc s of
      None \<Rightarrow> Some Panic
    | Some (Inl err, s') \<Rightarrow>
        fop_of (fail_with (func_call_err entry frames err pc
          (fb_instruction_offsets (ac_body ac)) module)) s'
    | Some (Inr Next, s') \<Rightarrow> frame_advance n vm module entry rc frames ac (pc + 1) s'
    | Some (Inr (JumpTo target), s') \<Rightarrow> frame_advance n vm module entry rc frames ac target s'
    | Some (Inr (StepCall callee callee_base ind), s') \<Rightarrow>
        fbnd (fop_of (lift_result (u32_add (as_u32 (length frames)) 1))) (\<lambda>depth.
        if vm_max_call_stack_depth vm s' \<le> depth
        then fop_of (fail_with (func_call_err entry frames
               (CallStackExhausted (vm_max_call_stack_depth vm s')) pc
               (fb_instruction_offsets (ac_body ac)) module))
        else fbnd (fop_of (infallible (enter_function vm module callee callee_base))) (\<lambda>ac'.
             frame_loop n vm module entry rc
               (\<lparr>fr_activation = ac, fr_pc = as_u32 pc,
                  fr_callee_results_count = ac_results_count ac',
                  fr_callee_func_index = callee, fr_callee_is_indirect = ind\<rparr> # frames)
               ac' 0)) s')"
  unfolding frame_loop.simps(2) frame_advance_def [abs_def] fbnd_def fop_of_def infallible_def gets_def Let_def
  by (simp del: add_Suc_right add_Suc One_nat_def Suc_eq_plus1_left split: option.split sum.split Step.split)

text \<open>The recursive run of a function from \<open>pc\<close> on, simulated by the frame driver.\<close>

definition simulates ::
    "('instr, 'layout, 'base, 'inst) machine \<Rightarrow> ('instr, 'layout) Module \<Rightarrow> FuncIndex \<Rightarrow> nat \<Rightarrow>
     ('instr, 'layout, 'base) Frame list \<Rightarrow> ('instr, 'layout, 'base) activation \<Rightarrow> nat \<Rightarrow> 'inst \<Rightarrow>
     (Unwind \<times> 'inst, nat \<times> 'inst) result \<Rightarrow> bool" where
  "simulates vm module entry rc frames ac pc s r \<longleftrightarrow>
     (\<exists>k. \<forall>m. frame_loop (k + m) vm module entry rc frames ac pc s =
        frame_outcome vm module entry rc frames r m) \<and> (\<forall>d t. r = Ok (d, t) \<longrightarrow> d = length frames)"

lemma advance_simulation:
  assumes "native_advance n vm module ac pc (length frames + 1) s = Some r"
    and "frames_match entry rc frames ac"
    and "native_loop n vm module ac pc (length frames + 1) s = Some r \<Longrightarrow>
      simulates vm module entry rc frames ac pc s r"
  shows "\<exists>k. \<forall>m. frame_advance (k + m) vm module entry rc frames ac pc s =
          frame_outcome vm module entry rc frames r m"
    and "\<forall>d t. r = Ok (d, t) \<longrightarrow> d = length frames"
proof -
  have "(\<exists>k. \<forall>m. frame_advance (k + m) vm module entry rc frames ac pc s =
          frame_outcome vm module entry rc frames r m) \<and> (\<forall>d t. r = Ok (d, t) \<longrightarrow> d = length frames)"
  proof (cases "pc = length (fb_instructions (ac_body ac))")
    case True
    have "frame_advance (0 + m) vm module entry rc frames ac pc s =
          frame_outcome vm module entry rc frames r m" for m
      using assms(1,2) True unfolding native_advance_def frame_advance_def
      by (auto simp: fop_defs u32_sub_def frames_match_def frame_outcome_def split: list.split option.splits)
    moreover have "\<forall>d t. r = Ok (d, t) \<longrightarrow> d = length frames"
      using assms(1) True
      by (auto simp: native_advance_def fop_defs u32_sub_def split: option.splits)
    ultimately show ?thesis by blast
  next
    case False
    with assms(1,3) show ?thesis
      by (simp add: native_advance_def frame_advance_def simulates_def)
  qed
  then show "\<exists>k. \<forall>m. frame_advance (k + m) vm module entry rc frames ac pc s =
          frame_outcome vm module entry rc frames r m"
    and "\<forall>d t. r = Ok (d, t) \<longrightarrow> d = length frames"
    by blast+
qed

lemma simulates_Suc:
  assumes "\<exists>k. \<forall>m. frame_loop (Suc (k + m)) vm module entry rc frames ac pc s =
      frame_outcome vm module entry rc frames r m"
    and "\<forall>d t. r = Ok (d, t) \<longrightarrow> d = length frames"
  shows "simulates vm module entry rc frames ac pc s r"
  using assms unfolding simulates_def by (metis add_Suc)

lemma simulates_trap:
  assumes "frames_match entry rc frames ac"
    and "\<And>k. frame_loop (Suc k) vm module entry rc frames ac pc s =
      fop_of (fail_with (func_call_err entry frames err pc offs module)) s'"
    and "fop_of (fail_with (trap_here (ac_func_index ac) pc offs err)) s' = Some r"
  shows "simulates vm module entry rc frames ac pc s r"
proof (rule simulates_Suc)
  have r: "r = (case trap_here (ac_func_index ac) pc offs err of
           Ok e \<Rightarrow> Err (e, s') | Err e \<Rightarrow> Err (e, s') | Panic \<Rightarrow> Panic)"
    using assms(3) by (simp add: fop_of_def fail_with_def)
  then show "\<forall>d t. r = Ok (d, t) \<longrightarrow> d = length frames"
    by (auto split: result.splits)
  show "\<exists>k. \<forall>m. frame_loop (Suc (k + m)) vm module entry rc frames ac pc s =
      frame_outcome vm module entry rc frames r m"
    unfolding assms(2) using func_call_err_trap [OF assms(1), where err = err and pc = pc and offs = offs and module = module and s = s']
    by (simp add: r fop_of_def fail_with_def split: result.splits)
qed

lemma simulates_call:
  assumes run: "fmap_err (\<lambda>trace. and_then (index (fb_instruction_offsets (ac_body ac)) pc) (\<lambda>off.
        Ok (trace @ [TraceRecord (ac_func_index ac) pc (CallRecord callee ind) off])))
      (\<lambda>_. Some r1) s0 = Some r2"
    and callee: "simulates vm module entry rc
      (\<lparr>fr_activation = ac, fr_pc = pc, fr_callee_results_count = ac_results_count ac',
        fr_callee_func_index = callee, fr_callee_is_indirect = ind\<rparr> # frames) ac' 0 s' r1"
    and step: "\<And>k. frame_loop (Suc k) vm module entry rc frames ac pc s =
      frame_loop k vm module entry rc
      (\<lparr>fr_activation = ac, fr_pc = pc, fr_callee_results_count = ac_results_count ac',
        fr_callee_func_index = callee, fr_callee_is_indirect = ind\<rparr> # frames) ac' 0 s'"
    and rest: "case r2 of Ok (d, t) \<Rightarrow> d = length frames + 1 \<longrightarrow>
        simulates vm module entry rc frames ac (pc + 1) t r
      | Err e \<Rightarrow> r = Err e | Panic \<Rightarrow> r = Panic"
  shows "simulates vm module entry rc frames ac pc s r"
proof -
  let ?f = "\<lparr>fr_activation = ac, fr_pc = pc, fr_callee_results_count = ac_results_count ac',
        fr_callee_func_index = callee, fr_callee_is_indirect = ind\<rparr>"
  from callee obtain k1 where
    k1: "\<And>m. frame_loop (k1 + m) vm module entry rc (?f # frames) ac' 0 s' =
        frame_outcome vm module entry rc (?f # frames) r1 m"
    and d1: "\<And>d t. r1 = Ok (d, t) \<Longrightarrow> d = length frames + 1"
    unfolding simulates_def by auto
  show ?thesis
  proof (cases r1)
    case (Ok dt)
    then obtain t where r1: "r1 = Ok (length frames + 1, t)"
      using d1 by (cases dt) auto
    with run rest have "simulates vm module entry rc frames ac (pc + 1) t r"
      by (auto simp: fmap_err_def)
    then obtain k2 where
      k2: "\<And>m. frame_loop (k2 + m) vm module entry rc frames ac (pc + 1) t =
          frame_outcome vm module entry rc frames r m"
      and d2: "\<forall>d t. r = Ok (d, t) \<longrightarrow> d = length frames"
      unfolding simulates_def by auto
    have "frame_loop (Suc (k1 + k2 + m)) vm module entry rc frames ac pc s =
          frame_outcome vm module entry rc frames r m" for m
    proof -
      have "frame_loop (k1 + (k2 + m)) vm module entry rc (?f # frames) ac' 0 s' =
          frame_loop (k2 + m) vm module entry rc frames ac (pc + 1) t"
        by (simp add: k1 r1 frame_outcome_def)
      then show ?thesis unfolding step by (simp only: k2 add.assoc)
    qed
    with d2 show ?thesis by (intro simulates_Suc) blast+
  next
    case (Err et)
    then obtain e t where r1: "r1 = Err (e, t)" by (cases et) auto
    have "frame_loop (Suc (k1 + m)) vm module entry rc frames ac pc s =
        frame_outcome vm module entry rc frames r m" for m
      using run rest unfolding step k1 r1
      by (auto simp: fmap_err_def frame_outcome_def frame_record_def frame_records_no_Err index_def
          split: result.splits if_splits)
    moreover have "\<forall>d t. r = Ok (d, t) \<longrightarrow> d = length frames"
      using run rest r1 by (auto simp: fmap_err_def index_def split: result.splits if_splits)
    ultimately show ?thesis by (intro simulates_Suc) blast+
  next
    case Panic
    have "frame_loop (Suc (k1 + m)) vm module entry rc frames ac pc s =
        frame_outcome vm module entry rc frames r m" for m
      using run rest unfolding step k1 Panic
      by (auto simp: fmap_err_def frame_outcome_def)
    moreover have "\<forall>d t. r = Ok (d, t) \<longrightarrow> d = length frames"
      using run rest Panic by (auto simp: fmap_err_def)
    ultimately show ?thesis by (intro simulates_Suc) blast+
  qed
qed

lemma call_simulated:
  fixes vm :: "('instr, 'layout, 'base, 'inst) machine"
  assumes clean: "calls_not_last vm module"
    and bound: "\<And>s. vm_max_call_stack_depth vm s \<le> U32_MAX"
    and call: "execute_at vm module ac pc s = Some (Inr (StepCall f cb ind), s')"
    and run: "native_loop (Suc n') vm module ac pc (length frames + 1) s = Some r"
    and body: "ac_body ac \<in> set (md_func_bodies module)"
    and match: "frames_match entry rc frames ac"
    and depth: "length frames + 1 \<le> U32_MAX"
    and IH: "\<And>j ac pc frames s r. j \<le> n' \<Longrightarrow>
      native_loop j vm module ac pc (length frames + 1) s = Some r \<Longrightarrow>
      ac_body ac \<in> set (md_func_bodies module) \<Longrightarrow> frames_match entry rc frames ac \<Longrightarrow>
      length frames + 1 \<le> U32_MAX \<Longrightarrow> simulates vm module entry rc frames ac pc s r"
  shows "simulates vm module entry rc frames ac pc s r"
proof -
  have last: "pc + 1 < length (fb_instructions (ac_body ac))" and pc: "as_u32 pc = pc"
    using execute_at_call [OF clean body call] by simp_all
  have d: "as_u32 (length frames) = length frames" using depth by simp
  show ?thesis
  proof (cases "vm_max_call_stack_depth vm s' \<le> length frames + 1")
    case True
    show ?thesis
    proof (rule simulates_trap [OF match])
      show "frame_loop (Suc k) vm module entry rc frames ac pc s =
          fop_of (fail_with (func_call_err entry frames
            (CallStackExhausted (vm_max_call_stack_depth vm s')) pc
            (fb_instruction_offsets (ac_body ac)) module)) s'" for k
        using call True depth d
        by (simp add: frame_loop_Suc fbnd_def fop_of_def lift_result_def u32_add_def)
      show "fop_of (fail_with (trap_here (ac_func_index ac) pc (fb_instruction_offsets (ac_body ac))
          (CallStackExhausted (vm_max_call_stack_depth vm s')))) s' = Some r"
        using call True run
        by (simp add: native_loop_Suc)
    qed
  next
    case False
    let ?conv = "\<lambda>trace. and_then (index (fb_instruction_offsets (ac_body ac)) pc) (\<lambda>off.
          Ok (trace @ [TraceRecord (ac_func_index ac) pc (CallRecord f ind) off]))"
    let ?d = "length frames + 1"
    from call run False have run': "fbnd (fmap_err ?conv (execute_on_native_stack n' vm module f cb ?d))
        (native_advance n' vm module ac (pc + 1)) s' = Some r"
      by (simp add: native_loop_Suc)
    then obtain n'' where n': "n' = Suc n''"
      by (cases n') (auto simp: execute_on_native_stack.simps fbnd_def fmap_err_def)
    from False bound [of s'] have d1: "?d + 1 \<le> U32_MAX" by simp
    show ?thesis
    proof (cases "enter_function vm module f cb s'")
      case None
      with run' n' have "r = Panic"
        by (simp add: execute_on_native_stack.simps fop_defs)
      with None call False depth d show ?thesis
        by (intro simulates_Suc)
          (auto simp: frame_loop_Suc fop_defs u32_add_def frame_outcome_def)
    next
      case (Some p)
      then obtain ac' s2 where enter: "enter_function vm module f cb s' = Some (ac', s2)"
        by (cases p) auto
      let ?f = "\<lparr>fr_activation = ac, fr_pc = pc, fr_callee_results_count = ac_results_count ac',
        fr_callee_func_index = f, fr_callee_is_indirect = ind\<rparr>"
      have native: "execute_on_native_stack n' vm module f cb ?d s' =
          native_loop n'' vm module ac' 0 (?d + 1) s2"
        using enter d1 by (simp add: n' execute_on_native_stack.simps fop_defs u32_add_def)
      with run' obtain r1 where r1: "native_loop n'' vm module ac' 0 (?d + 1) s2 = Some r1"
        by (cases "native_loop n'' vm module ac' 0 (?d + 1) s2") (auto simp: fbnd_def fmap_err_def)
      have "frames_match entry rc (?f # frames) ac'"
        using enter_function_activation [OF enter] by (simp add: frames_match_def)
      then have callee: "simulates vm module entry rc (?f # frames) ac' 0 s2 r1"
        using IH [of n'' ac' 0 "?f # frames" s2 r1] r1 d1 n' enter_function_activation [OF enter]
        by simp
      obtain r2 where r2: "fmap_err ?conv (\<lambda>_. Some r1) s' = Some r2"
        by (cases "fmap_err ?conv (\<lambda>_. Some r1) s'") (auto simp: fmap_err_def split: result.splits)
      have rest: "(case r2 of Ok (d, t) \<Rightarrow> native_advance n' vm module ac (pc + 1) d t
          | Err e \<Rightarrow> Some (Err e) | Panic \<Rightarrow> Some Panic) = Some r"
      proof -
        have "fmap_err ?conv (execute_on_native_stack n' vm module f cb ?d) s' = Some r2"
          using r2 unfolding fmap_err_def native r1 .
        with run' show ?thesis unfolding fbnd_def by (cases r2) auto
      qed
      show ?thesis
      proof (rule simulates_call [OF r2 callee])
        show "frame_loop (Suc k) vm module entry rc frames ac pc s =
            frame_loop k vm module entry rc (?f # frames) ac' 0 s2" for k
          using call False depth d pc enter
          by (simp add: frame_loop_Suc fop_defs u32_add_def)
        show "case r2 of Ok (d, t) \<Rightarrow> d = length frames + 1 \<longrightarrow>
              simulates vm module entry rc frames ac (pc + 1) t r
            | Err e \<Rightarrow> r = Err e | Panic \<Rightarrow> r = Panic"
          using rest last IH [of n' ac "pc + 1" frames _ r] body match depth
          by (auto simp: native_advance_def split: result.splits)
      qed
    qed
  qed
qed

lemma native_loop_simulated:
  fixes vm :: "('instr, 'layout, 'base, 'inst) machine"
  assumes clean: "calls_not_last vm module"
    and bound: "\<And>s. vm_max_call_stack_depth vm s \<le> U32_MAX"
    and run: "native_loop n vm module ac pc (length frames + 1) s = Some r"
    and body: "ac_body ac \<in> set (md_func_bodies module)"
    and match: "frames_match entry rc frames ac"
    and depth: "length frames + 1 \<le> U32_MAX"
  shows "simulates vm module entry rc frames ac pc s r"
  using run body match depth
proof (induction n arbitrary: ac pc frames s r rule: less_induct)
  case (less n)
  then obtain n' where n: "n = Suc n'"
    by (cases n) (auto simp: native_loop.simps)
  have IH: "simulates vm module entry rc frames ac pc s r"
    if "j \<le> n'" "native_loop j vm module ac pc (length frames + 1) s = Some r"
      "ac_body ac \<in> set (md_func_bodies module)" "frames_match entry rc frames ac"
      "length frames + 1 \<le> U32_MAX" for j ac pc frames s r
    by (rule less.IH [of j]) (use that n in simp_all)
  note run = less.prems(1) [unfolded n]
  consider (panic) "execute_at vm module ac pc s = None"
    | (trap) err s' where "execute_at vm module ac pc s = Some (Inl err, s')"
    | (fall) s' where "execute_at vm module ac pc s = Some (Inr Next, s')"
    | (jump) t s' where "execute_at vm module ac pc s = Some (Inr (JumpTo t), s')"
    | (call) f cb ind s' where "execute_at vm module ac pc s = Some (Inr (StepCall f cb ind), s')"
    by (metis Step.exhaust option.exhaust prod.exhaust sum.exhaust)
  then show ?case
  proof cases
    case panic
    with run have "r = Panic"
      by (simp add: native_loop_Suc)
    with panic show ?thesis
      by (intro simulates_Suc) (auto simp: frame_loop_Suc frame_outcome_def)
  next
    case (trap err s')
    show ?thesis
    proof (rule simulates_trap [OF less.prems(3)])
      show "frame_loop (Suc k) vm module entry rc frames ac pc s =
          fop_of (fail_with (func_call_err entry frames err pc
            (fb_instruction_offsets (ac_body ac)) module)) s'" for k
        using trap by (simp add: frame_loop_Suc)
      show "fop_of (fail_with (trap_here (ac_func_index ac) pc
          (fb_instruction_offsets (ac_body ac)) err)) s' = Some r"
        using trap run
        by (simp add: native_loop_Suc)
    qed
  next
    case (fall s')
    from run fall have "native_advance n' vm module ac (pc + 1) (length frames + 1) s' = Some r"
      by (simp add: native_loop_Suc)
    note adv = advance_simulation [OF this less.prems(3) IH, OF order_refl _ less.prems(2-4)]
    from fall have "frame_loop (Suc k) vm module entry rc frames ac pc s =
        frame_advance k vm module entry rc frames ac (pc + 1) s'" for k
      by (simp add: frame_loop_Suc)
    with adv show ?thesis by (intro simulates_Suc) simp_all
  next
    case (jump t s')
    from run jump have "native_advance n' vm module ac t (length frames + 1) s' = Some r"
      by (simp add: native_loop_Suc)
    note adv = advance_simulation [OF this less.prems(3) IH, OF order_refl _ less.prems(2-4)]
    from jump have "frame_loop (Suc k) vm module entry rc frames ac pc s =
        frame_advance k vm module entry rc frames ac t s'" for k
      by (simp add: frame_loop_Suc)
    with adv show ?thesis by (intro simulates_Suc) simp_all
  next
    case (call f cb ind s')
    from call_simulated [OF clean bound call _ less.prems(2-4)] IH less.prems(1) n
    show ?thesis by blast
  qed
qed


section \<open>The agreement\<close>

definition forget_depth :: "('e, nat \<times> 's) result \<Rightarrow> ('e, unit \<times> 's) result" where
  "forget_depth r = (case r of Ok (_, s) \<Rightarrow> Ok ((), s) | Err e \<Rightarrow> Err e | Panic \<Rightarrow> Panic)"

lemma drivers_agree_from:
  fixes vm :: "('instr, 'layout, 'base, 'inst) machine"
  assumes clean: "calls_not_last vm module"
    and bound: "\<And>s. vm_max_call_stack_depth vm s \<le> U32_MAX"
    and run: "fmap_err (\<lambda>trace. Ok (func_call_err_from_unwind func_index trace module))
      (execute_on_native_stack n vm module func_index (vm_initial_data vm) 0) s = Some r"
  shows "\<exists>k. \<forall>m \<ge> k. execute_on_frame_stack m vm module func_index s = Some (forget_depth r)"
proof -
  from run obtain n' where n: "n = Suc n'"
    by (cases n) (auto simp: execute_on_native_stack.simps fmap_err_def)
  show ?thesis
  proof (cases "enter_function vm module func_index (vm_initial_data vm) s")
    case None
    with run n show ?thesis
      by (auto simp: execute_on_native_stack.simps execute_on_frame_stack_def fop_defs forget_depth_def)
  next
    case (Some p)
    then obtain ac s1 where enter: "enter_function vm module func_index (vm_initial_data vm) s = Some (ac, s1)"
      by (cases p) auto
    have native: "execute_on_native_stack n vm module func_index (vm_initial_data vm) 0 s =
        native_loop n' vm module ac 0 1 s1"
      using enter by (simp add: n execute_on_native_stack.simps fop_defs u32_add_def)
    with run obtain r1 where r1: "native_loop n' vm module ac 0 1 s1 = Some r1"
      by (cases "native_loop n' vm module ac 0 1 s1") (auto simp: fmap_err_def)
    have "simulates vm module func_index (ac_results_count ac) [] ac 0 s1 r1"
      using native_loop_simulated [OF clean bound, of n' ac 0 "[]" s1 r1 func_index "ac_results_count ac"]
        enter_function_activation [OF enter] r1 by (simp add: frames_match_def)
    then obtain k where k: "\<And>m. frame_loop (k + m) vm module func_index (ac_results_count ac) [] ac 0 s1 =
        frame_outcome vm module func_index (ac_results_count ac) [] r1 m"
      by (auto simp: simulates_def)
    have frame: "execute_on_frame_stack (k + m) vm module func_index s =
        frame_outcome vm module func_index (ac_results_count ac) [] r1 m" for m
      using enter k by (simp add: execute_on_frame_stack_def fop_defs)
    have "frame_outcome vm module func_index (ac_results_count ac) [] r1 m = Some (forget_depth r)" for m
      using run unfolding fmap_err_def native r1
      by (cases r1) (auto simp: frame_outcome_def forget_depth_def func_call_err_from_unwind_def)
    with frame show ?thesis by (metis le_iff_add)
  qed
qed

section \<open>More fuel\<close>

lemma fbnd_mono:
  assumes "fbnd m f s = Some r" and "\<And>t. m s = Some t \<Longrightarrow> m' s = Some t"
    and "\<And>a s' t. f a s' = Some t \<Longrightarrow> f' a s' = Some t"
  shows "fbnd m' f' s = Some r"
  using assms by (auto simp: fbnd_def split: option.splits result.splits prod.splits)

lemma fmap_err_mono:
  assumes "fmap_err conv m s = Some r" and "\<And>t. m s = Some t \<Longrightarrow> m' s = Some t"
  shows "fmap_err conv m' s = Some r"
  using assms by (auto simp: fmap_err_def split: option.splits)

lemma native_fuel_Suc:
  "execute_on_native_stack n vm module func_index base depth s = Some r \<Longrightarrow>
     execute_on_native_stack (Suc n) vm module func_index base depth s = Some r"
  "native_loop n vm module ac pc depth s = Some r2 \<Longrightarrow>
     native_loop (Suc n) vm module ac pc depth s = Some r2"
proof (induction n arbitrary: func_index base depth s r ac pc r2)
  case 0
  { case 1 then show ?case by (simp add: execute_on_native_stack.simps) }
  { case 2 then show ?case by (simp add: native_loop.simps) }
next
  case (Suc n)
  have adv: "native_advance (Suc n) vm module ac pc depth s = Some t"
    if "native_advance n vm module ac pc depth s = Some t" for ac pc depth s t
    using that Suc.IH(2) by (auto simp: native_advance_def split: if_splits)
  {
    case 1
    then show ?case
      unfolding execute_on_native_stack.simps(2)
      by (elim fbnd_mono) (use Suc.IH(2) in auto)
  next
    case 2
    then show ?case
      unfolding native_loop_Suc
      by (auto split: option.splits sum.splits Step.splits if_splits
          elim!: fbnd_mono fmap_err_mono intro: adv Suc.IH(1))
  }
qed

lemma native_fuel_mono:
  assumes "execute_on_native_stack n vm module func_index base depth s = Some r" "n \<le> m"
  shows "execute_on_native_stack m vm module func_index base depth s = Some r"
  using assms(2,1) by (induction m rule: dec_induct) (auto intro: native_fuel_Suc)

end
