(* ===== verification/Preservation.thy ===== *)
theory Preservation
  imports Driver
begin

text \<open>
  What no run changes. \<open>keeps g m\<close>: the operation \<open>m\<close> leaves the part \<open>g\<close> of the state alone,
  whether it succeeds or fails. No instruction changes the limits of the instance or its tables,
  so the call depth limit is one number for the whole run.
\<close>

section \<open>Operations that keep a part of the state\<close>

definition keeps :: "('s \<Rightarrow> 'g) \<Rightarrow> ('s, 'e, 'a) op \<Rightarrow> bool" where
  "keeps g m \<longleftrightarrow> (\<forall>s. case m s of
      Ok (_, s') \<Rightarrow> g s' = g s | Err (_, s') \<Rightarrow> g s' = g s | Panic \<Rightarrow> True)"

named_theorems keeps_intros \<open>operations that keep a part of the state\<close>

lemma keepsD:
  assumes "keeps g m"
  shows "m s = Ok (a, s') \<Longrightarrow> g s' = g s" and "m s = Err (e, s') \<Longrightarrow> g s' = g s"
  using assms by (auto simp: keeps_def dest!: spec [of _ s])

lemma keeps_ret [keeps_intros]: "keeps g (ret a)"
  and keeps_fail [keeps_intros]: "keeps g (fail e)"
  and keeps_panic [keeps_intros]: "keeps g panic"
  and keeps_gets [keeps_intros]: "keeps g (gets f)"
  and keeps_lift_result [keeps_intros]: "keeps g (lift_result r)"
  by (auto simp: keeps_def ret_def fail_def panic_def gets_def lift_result_def split: result.splits)

lemma keepsI:
  assumes "\<And>s a s'. m s = Ok (a, s') \<Longrightarrow> g s' = g s" and "\<And>s e s'. m s = Err (e, s') \<Longrightarrow> g s' = g s"
  shows "keeps g m"
  using assms by (auto simp: keeps_def split: result.split)

lemma keeps_bnd [keeps_intros]:
  assumes m: "keeps g m" and f: "\<And>a. keeps g (f a)"
  shows "keeps g (bnd m f)"
proof (rule keepsI)
  fix s a s' assume "bnd m f s = Ok (a, s')"
  then obtain b t where "m s = Ok (b, t)" "f b t = Ok (a, s')"
    by (auto simp: bnd_def split: result.splits)
  then show "g s' = g s" using keepsD(1) [OF m] keepsD(1) [OF f] by metis
next
  fix s e s' assume "bnd m f s = Err (e, s')"
  then consider "m s = Err (e, s')" | b t where "m s = Ok (b, t)" "f b t = Err (e, s')"
    by (auto simp: bnd_def split: result.splits)
  then show "g s' = g s"
    by cases (use keepsD [OF m] keepsD(2) [OF f] in metis)+
qed

lemma keeps_modify [keeps_intros]: "(\<And>s. g (f s) = g s) \<Longrightarrow> keeps g (modify f)"
  by (simp add: keeps_def modify_def)

lemma keeps_for_each [keeps_intros]: "(\<And>x. keeps g (f x)) \<Longrightarrow> keeps g (for_each xs f)"
  by (induction xs) (auto intro!: keeps_intros)

lemma keeps_attempt [keeps_intros]: "keeps g m \<Longrightarrow> keeps g (attempt m)"
  by (auto simp: keeps_def attempt_def split: result.splits)

lemma keeps_on_field [keeps_intros]: "(\<And>x s. g (put x s) = g s) \<Longrightarrow> keeps g (on_field get put conv m)"
  by (auto simp: keeps_def on_field_def split: result.splits)

lemma keeps_if [keeps_intros]: "keeps g m \<Longrightarrow> keeps g n \<Longrightarrow> keeps g (if b then m else n)"
  by simp

lemma keeps_option [keeps_intros]:
  "keeps g m \<Longrightarrow> (\<And>x. keeps g (f x)) \<Longrightarrow> keeps g (case z of None \<Rightarrow> m | Some x \<Rightarrow> f x)"
  by (cases z) auto

lemma keeps_sum [keeps_intros]:
  "(\<And>x. keeps g (m x)) \<Longrightarrow> (\<And>x. keeps g (f x)) \<Longrightarrow> keeps g (case z of Inl x \<Rightarrow> m x | Inr x \<Rightarrow> f x)"
  by (cases z) auto

lemma keeps_kind [keeps_intros]:
  "keeps g m \<Longrightarrow> (\<And>x y. keeps g (f x y)) \<Longrightarrow> keeps g (case k of Local \<Rightarrow> m | Imported x y \<Rightarrow> f x y)"
  by (cases k) auto

section \<open>The instructions\<close>

text \<open>The part of an instance that execution never writes.\<close>

definition settings :: "('m, 'i, 'fr) Instance \<Rightarrow> Config \<times> TableVal list \<times> ElementVal list" where
  "settings s = (config s, table_vals s, element_vals s)"

lemmas keeps_arms =
  frame_height_def pop_effective_address_def get_local_def set_local_def exec_call_def exec_call_indirect_def
  dispatch_call_def call_imported_def exec_ref_is_null_def exec_memory_size_def
  exec_memory_grow_def exec_memory_copy_def exec_memory_fill_def exec_memory_init_def
  exec_data_drop_def exec_load_def exec_store_def exec_local_get_def exec_local_set_def
  exec_local_tee_def exec_global_get_def exec_global_set_def exec_select_def exec_if_def
  unwind_to_def exec_br_def exec_br_if_def exec_br_table_def exec_end_def exec_unary_def
  exec_binary_def Let_def

lemma keeps_operands [keeps_intros]:
  "keeps settings pop_value" "keeps settings (push_value v)" "keeps settings pop_i32"
  "keeps settings pop_usize" "keeps settings (push_next v)"
  unfolding pop_value_def push_value_def pop_i32_def pop_usize_def push_next_def
  by (intro keeps_intros; simp add: settings_def)+

lemma keeps_const [keeps_intros]: "keeps settings (exec_const c)"
  by (cases c; simp only: exec_const.simps keeps_arms; intro keeps_intros; simp add: settings_def)

lemma keeps_numeric [keeps_intros]: "keeps settings (exec_numeric fe n)"
  by (cases n; simp only: exec_numeric.simps keeps_arms; intro keeps_intros; simp add: settings_def)

lemma execute_keeps_settings: "keeps settings (execute fe D R x md layout cb imported)"
  by (cases x; simp only: execute.simps keeps_arms)
    (intro keeps_intros; simp add: settings_def split: prod.split)+

end
