(* ===== verification/Backtraces.thy ===== *)
theory Backtraces
  imports DriverEquivalence Preservation
begin

text \<open>
  The traces the native driver builds while it unwinds: a chain of records from the trapping
  instruction out to the entry function, no longer than the call depth limit. The locale
  \<open>machine_invariant\<close> is what a machine must promise for the limit to be one number during a
  run; the stack machine does.
\<close>

section \<open>Chains of records\<close>

definition record_at :: "('instr, 'layout) Module \<Rightarrow> FuncIndex \<Rightarrow> nat \<Rightarrow> nat \<Rightarrow> bool" where
  "record_at module f pc off \<longleftrightarrow>
     md_imported_func_count module \<le> unat f \<and>
     unat f - md_imported_func_count module < length (md_func_bodies module) \<and>
     (let body = md_func_bodies module ! (unat f - md_imported_func_count module)
      in pc < length (fb_instructions body) \<and> pc < length (fb_instruction_offsets body) \<and>
         off = fb_instruction_offsets body ! pc)"

text \<open>
  \<open>backtrace md f t\<close>: \<open>t\<close> starts at an instruction that trapped, every further record is the
  call that entered the function of the record before it, and the last one is in \<open>f\<close>.
\<close>

inductive backtrace :: "('instr, 'layout) Module \<Rightarrow> FuncIndex \<Rightarrow> TraceRecord list \<Rightarrow> bool"
  for module where
  backtrace_trap: "record_at module f pc off \<Longrightarrow> backtrace module f [TraceRecord f pc (NonCall e) off]"
| backtrace_call: "backtrace module g t \<Longrightarrow> record_at module f pc off \<Longrightarrow>
    backtrace module f (t @ [TraceRecord f pc (CallRecord g ind) off])"

inductive_cases backtrace_NilE: "backtrace module f []"

lemma backtrace_starts_with_trap:
  "backtrace module f t \<Longrightarrow> \<exists>r rest e. t = r # rest \<and> tr_kind r = NonCall e"
  by (induction rule: backtrace.induct) auto

lemma backtrace_cause: "backtrace module f t \<Longrightarrow> \<exists>e. cause (FuncCallError name t) = Ok e"
  by (drule backtrace_starts_with_trap) (auto simp: cause_def)

lemma backtrace_last: "backtrace module f t \<Longrightarrow> t \<noteq> [] \<and> tr_func_index (last t) = f"
  by (induction rule: backtrace.induct) auto

section \<open>The driver builds them\<close>

definition running :: "('instr, 'layout) Module \<Rightarrow> ('instr, 'layout, 'base) activation \<Rightarrow> bool" where
  "running module ac \<longleftrightarrow>
     md_imported_func_count module \<le> unat (ac_func_index ac) \<and>
     unat (ac_func_index ac) - md_imported_func_count module < length (md_func_bodies module) \<and>
     ac_body ac = md_func_bodies module ! (unat (ac_func_index ac) - md_imported_func_count module)"

lemma enter_function_running:
  assumes "enter_function vm module f base s = Some (ac, s')"
  shows "running module ac" and "ac_func_index ac = f"
    and "\<exists>n tys layout b. vm_enter_frame vm n tys base layout s = Some (b, s')"
  using assms
  by (auto simp: enter_function_def run_infallible_def bnd_def lift_result_def index_def panic_def
      infallible_def ret_def running_def split: if_splits result.splits option.splits)

lemma execute_at_Some:
  assumes "execute_at vm module ac pc s = Some (r, s')"
  shows "pc < length (fb_instructions (ac_body ac))"
    and "\<exists>instr layout base. vm_execute vm instr module layout base (md_imported_func_count module) s =
      (case r of Inl e \<Rightarrow> Err (e, s') | Inr st \<Rightarrow> Ok (st, s'))"
  using assms
  by (auto simp: execute_at_def run_infallible_def bnd_def lift_result_def index_def attempt_def
      split: if_splits result.splits sum.splits)

lemma trap_here_backtrace:
  assumes "running module ac" and "pc < length (fb_instructions (ac_body ac))"
    and "trap_here (ac_func_index ac) pc (fb_instruction_offsets (ac_body ac)) e = Ok t"
  shows "backtrace module (ac_func_index ac) t" and "length t = 1"
  using assms
  by (auto simp: trap_here_def and_then_eq_Ok running_def record_at_def intro!: backtrace_trap)

locale machine_invariant =
  fixes vm :: "('instr, 'layout, 'base, 'inst) machine"
    and module :: "('instr, 'layout) Module"
    and inv :: "'inst \<Rightarrow> bool"
    and limit :: nat
  assumes execute_law: "inv s \<Longrightarrow> vm_execute vm instr module layout base n s = r \<Longrightarrow>
      (case r of Ok (_, s') \<Rightarrow> inv s' | Err (_, s') \<Rightarrow> inv s' | Panic \<Rightarrow> True)"
    and enter_law: "inv s \<Longrightarrow> vm_enter_frame vm p tys base layout s = Some (b, s') \<Longrightarrow> inv s'"
    and exit_law: "inv s \<Longrightarrow> vm_exit_frame vm k base layout s = Some s' \<Longrightarrow> inv s'"
    and limit_law: "inv s \<Longrightarrow> vm_max_call_stack_depth vm s = limit"
begin

lemma execute_at_inv: "execute_at vm module ac pc s = Some (r, s') \<Longrightarrow> inv s \<Longrightarrow> inv s'"
  using execute_at_Some(2) [of vm module ac pc s r s'] execute_law
  by (cases r) fastforce+

definition good :: "FuncIndex \<Rightarrow> nat \<Rightarrow> (Unwind \<times> 'inst, nat \<times> 'inst) result \<Rightarrow> bool" where
  "good f depth r \<longleftrightarrow> (case r of
      Ok (d, s') \<Rightarrow> inv s' \<and> d = depth
    | Err (t, s') \<Rightarrow> inv s' \<and> backtrace module f t \<and> length t + depth \<le> max (depth + 1) limit
    | Panic \<Rightarrow> True)"

lemma good_trap:
  assumes "running module ac" "pc < length (fb_instructions (ac_body ac))" "inv s"
    and "fop_of (fail_with (trap_here (ac_func_index ac) pc (fb_instruction_offsets (ac_body ac)) e)) s = Some r"
  shows "good (ac_func_index ac) depth r"
  using assms
  by (cases "pc < length (fb_instruction_offsets (ac_body ac))")
    (auto simp: fop_of_def fail_with_def good_def trap_here_def index_def
      dest: trap_here_backtrace [where e = e, unfolded trap_here_def])

lemma good_call:
  assumes "running module ac" "pc < length (fb_instructions (ac_body ac))" "good g depth r1"
    and "depth < limit" "1 \<le> depth"
    and "fmap_err (\<lambda>t. and_then (index (fb_instruction_offsets (ac_body ac)) pc) (\<lambda>off.
        Ok (t @ [TraceRecord (ac_func_index ac) pc (CallRecord g ind) off]))) (\<lambda>_. Some r1) s = Some r2"
  shows "case r2 of Ok (d, t) \<Rightarrow> d = depth \<and> inv t
    | Err e \<Rightarrow> good (ac_func_index ac) (depth - 1) (Err e) | Panic \<Rightarrow> True"
proof (cases r1)
  case (Err p)
  then obtain t u where p: "r1 = Err (t, u)" by (cases p) auto
  with assms(3) have t: "backtrace module g t" "inv u" "length t + depth \<le> limit"
    using assms(4) by (auto simp: good_def)
  show ?thesis
  proof (cases "pc < length (fb_instruction_offsets (ac_body ac))")
    case True
    with assms(1,2) have "record_at module (ac_func_index ac) pc (fb_instruction_offsets (ac_body ac) ! pc)"
      by (simp add: running_def record_at_def)
    from backtrace_call [OF t(1) this, of ind] True t assms(4-6) p show ?thesis
      by (auto simp: fmap_err_def index_def good_def)
  qed (use assms(6) p in \<open>auto simp: fmap_err_def index_def\<close>)
qed (use assms(3,6) in \<open>auto simp: fmap_err_def good_def\<close>)

lemma driver_good:
  "execute_on_native_stack n vm module f base depth s = Some r \<Longrightarrow> inv s \<Longrightarrow> good f depth r"
  "native_loop n vm module ac pc (Suc d) s' = Some r' \<Longrightarrow> inv s' \<Longrightarrow> running module ac \<Longrightarrow>
     good (ac_func_index ac) d r'"
proof (induction n arbitrary: f base depth s r ac pc d s' r')
  case 0
  { case 1 then show ?case by (simp add: execute_on_native_stack.simps) }
  { case 2 then show ?case by (simp add: native_loop.simps) }
next
  case (Suc n)
  have adv: "good (ac_func_index ac) d t"
    if "native_advance n vm module ac pc (Suc d) s = Some t" "inv s" "running module ac" for ac pc d s t
  proof (cases "pc = length (fb_instructions (ac_body ac))")
    case True
    with that show ?thesis
      by (auto simp: native_advance_def fop_defs u32_sub_def good_def dest: exit_law split: option.splits)
  next
    case False
    with that Suc.IH(2) show ?thesis by (simp add: native_advance_def)
  qed
  {
    case 1
    show ?case
    proof (cases "enter_function vm module f base s")
      case None
      with 1 have "r = Panic" by (auto simp: execute_on_native_stack.simps fop_defs)
      then show ?thesis by (simp add: good_def)
    next
      case (Some p)
      then obtain ac s1 where enter: "enter_function vm module f base s = Some (ac, s1)"
        by (cases p) auto
      note facts = enter_function_running [OF enter]
      from facts(3) 1(2) have "inv s1" by (auto dest: enter_law)
      with 1 enter facts Suc.IH(2) [of ac 0 depth s1 r] show ?thesis
        by (auto simp: execute_on_native_stack.simps fop_defs u32_add_def good_def split: if_splits)
    qed
  next
    case 2
    show ?case
    proof (cases "execute_at vm module ac pc s'")
      case None
      with 2(1) have "r' = Panic" by (simp add: native_loop_Suc)
      then show ?thesis by (simp add: good_def)
    next
      case (Some p)
      then obtain st t where ex: "execute_at vm module ac pc s' = Some (st, t)" by (cases p) auto
      note pc = execute_at_Some(1) [OF ex]
      from ex 2(2) have t: "inv t" by (rule execute_at_inv)
      consider (trap) e where "st = Inl e" | (fall) "st = Inr Next" | (jump) k where "st = Inr (JumpTo k)"
        | (call) g b ind where "st = Inr (StepCall g b ind)"
        by (metis Step.exhaust sum.exhaust)
      then show ?thesis
      proof cases
        case (trap e)
        with 2(1) ex good_trap [OF 2(3) pc t] show ?thesis by (simp add: native_loop_Suc)
      next
        case fall
        with 2(1) ex adv [OF _ t 2(3)] show ?thesis by (simp add: native_loop_Suc)
      next
        case (jump k)
        with 2(1) ex adv [OF _ t 2(3)] show ?thesis by (simp add: native_loop_Suc)
      next
        case (call g b ind)
        show ?thesis
        proof (cases "limit \<le> Suc d")
          case True
          with 2(1) ex call good_trap [OF 2(3) pc t] limit_law [OF t] show ?thesis
            by (simp add: native_loop_Suc)
        next
          case False
          let ?conv = "\<lambda>trace. and_then (index (fb_instruction_offsets (ac_body ac)) pc) (\<lambda>off.
              Ok (trace @ [TraceRecord (ac_func_index ac) pc (CallRecord g ind) off]))"
          from 2(1) ex call False limit_law [OF t]
          have run: "fbnd (fmap_err ?conv (execute_on_native_stack n vm module g b (Suc d)))
              (native_advance n vm module ac (pc + 1)) t = Some r'"
            by (simp add: native_loop_Suc)
          then obtain r1 where r1: "execute_on_native_stack n vm module g b (Suc d) t = Some r1"
            by (cases "execute_on_native_stack n vm module g b (Suc d) t") (auto simp: fbnd_def fmap_err_def)
          then have good: "good g (Suc d) r1" using t by (rule Suc.IH(1))
          obtain r2 where r2: "fmap_err ?conv (\<lambda>_. Some r1) t = Some r2"
            by (cases "fmap_err ?conv (\<lambda>_. Some r1) t") (auto simp: fmap_err_def split: result.splits)
          have "(case r2 of Ok (k, u) \<Rightarrow> native_advance n vm module ac (pc + 1) k u
              | Err e \<Rightarrow> Some (Err e) | Panic \<Rightarrow> Some Panic) = Some r'"
          proof -
            have "fmap_err ?conv (execute_on_native_stack n vm module g b (Suc d)) t = Some r2"
              using r2 unfolding fmap_err_def r1 .
            with run show ?thesis unfolding fbnd_def by (cases r2) auto
          qed
          with good_call [OF 2(3) pc good _ _ r2] False show ?thesis
            by (cases r2) (auto simp: good_def [of _ _ Panic] intro: adv [OF _ _ 2(3)])
        qed
      qed
    qed
  }
qed

end

end
