(* ===== verification/LinearMemory.thy ===== *)
theory LinearMemory
  imports MemoryView
begin

text \<open>
  \<open>memory/linear.rs\<close>, the default memory: a flat byte vector with bounds-checked accesses,
  its overrides of the sized reads, and \<open>grow\<close>; and the \<open>CountingMemory\<close> wrapper of
  \<open>bin/playground\<close>, which inherits every sized accessor. Both implement the contract
  \<open>memory_backend\<close>.
\<close>

section \<open>The byte vector\<close>

record LinearMemory =
  inner :: "u8 list"

definition vec_resize :: "'a list \<Rightarrow> nat \<Rightarrow> 'a \<Rightarrow> 'a list" where
  "vec_resize xs n x = take n xs @ replicate (n - length xs) x"

definition with_byte_len :: "usize \<Rightarrow> LinearMemory" where
  "with_byte_len len = \<lparr>inner = replicate len 0\<rparr>"

definition new_linear :: "nat \<Rightarrow> LinearMemory" where
  "new_linear size_in_pages = with_byte_len (size_in_pages * WASM_MEMORY_PAGE_SIZE)"

definition linear_size_in_bytes :: "LinearMemory \<Rightarrow> usize" where
  "linear_size_in_bytes m = length (inner m)"

definition linear_grow :: "nat \<Rightarrow> nat \<Rightarrow> (LinearMemory, MemoryError, nat) op" where
  "linear_grow delta_in_pages max_size_in_pages =
     bnd (gets (default_size_in_pages linear_size_in_bytes)) (\<lambda>old_size.
       case u32_checked_add delta_in_pages old_size of
         None \<Rightarrow> fail (GrowFailed max_size_in_pages delta_in_pages old_size)
       | Some new_size \<Rightarrow>
           if max_size_in_pages < new_size
           then fail (GrowFailed max_size_in_pages delta_in_pages old_size)
           else bnd (modify (\<lambda>m. m\<lparr>inner :=
                  vec_resize (inner m) (new_size * WASM_MEMORY_PAGE_SIZE) 0\<rparr>))
                (\<lambda>_. ret old_size))"

definition linear_copy_within ::
    "usize \<Rightarrow> usize \<Rightarrow> usize \<Rightarrow> (LinearMemory, MemoryError, unit) op" where
  "linear_copy_within dest src len =
     bnd (gets (\<lambda>m. length (inner m))) (\<lambda>mem_len.
       case usize_checked_add src len of
         None \<Rightarrow> fail (OutOfBoundsAccess Read src mem_len)
       | Some src_end \<Rightarrow>
           if mem_len < src_end then fail (OutOfBoundsAccess Read src mem_len)
           else (case usize_checked_add dest len of
             None \<Rightarrow> fail (OutOfBoundsAccess Write dest mem_len)
           | Some dest_end \<Rightarrow>
               if mem_len < dest_end then fail (OutOfBoundsAccess Write dest mem_len)
               else modify (\<lambda>m. m\<lparr>inner :=
                  overwrite (inner m) dest (sub_slice (inner m) src (src_end - src))\<rparr>)))"

definition linear_read :: "usize \<Rightarrow> usize \<Rightarrow> (LinearMemory, MemoryError, u8 list) op" where
  "linear_read offset len =
     bnd (gets (\<lambda>m. length (inner m))) (\<lambda>mem_len.
       case usize_checked_add offset len of
         None \<Rightarrow> fail (OutOfBoundsAccess Read offset mem_len)
       | Some end_ \<Rightarrow>
           if mem_len < end_ then fail (OutOfBoundsAccess Read offset mem_len)
           else gets (\<lambda>m. sub_slice (inner m) offset (end_ - offset)))"

definition linear_write :: "usize \<Rightarrow> u8 list \<Rightarrow> (LinearMemory, MemoryError, unit) op" where
  "linear_write offset data =
     bnd (gets (\<lambda>m. length (inner m))) (\<lambda>mem_len.
       case usize_checked_add offset (length data) of
         None \<Rightarrow> fail (OutOfBoundsAccess Write offset mem_len)
       | Some end_ \<Rightarrow>
           if mem_len < end_ then fail (OutOfBoundsAccess Write offset mem_len)
           else modify (\<lambda>m. m\<lparr>inner := overwrite (inner m) offset data\<rparr>))"

section \<open>The sized reads it overrides\<close>

definition linear_read_u8 :: "usize \<Rightarrow> (LinearMemory, MemoryError, u8) op" where
  "linear_read_u8 offset =
     bnd (gets (\<lambda>m. length (inner m))) (\<lambda>mem_len.
       case usize_checked_add offset 1 of
         None \<Rightarrow> fail (OutOfBoundsAccess Read offset mem_len)
       | Some end_ \<Rightarrow>
           if mem_len < end_ then fail (OutOfBoundsAccess Read offset mem_len)
           else gets (\<lambda>m. from_le_bytes (sub_slice (inner m) offset 1)))"

definition linear_read_u16 :: "usize \<Rightarrow> (LinearMemory, MemoryError, u16) op" where
  "linear_read_u16 offset =
     bnd (gets (\<lambda>m. length (inner m))) (\<lambda>mem_len.
       case usize_checked_add offset 2 of
         None \<Rightarrow> fail (OutOfBoundsAccess Read offset mem_len)
       | Some end_ \<Rightarrow>
           if mem_len < end_ then fail (OutOfBoundsAccess Read offset mem_len)
           else gets (\<lambda>m. from_le_bytes (sub_slice (inner m) offset 2)))"

definition linear_read_u32 :: "usize \<Rightarrow> (LinearMemory, MemoryError, u32) op" where
  "linear_read_u32 offset =
     bnd (gets (\<lambda>m. length (inner m))) (\<lambda>mem_len.
       case usize_checked_add offset 4 of
         None \<Rightarrow> fail (OutOfBoundsAccess Read offset mem_len)
       | Some end_ \<Rightarrow>
           if mem_len < end_ then fail (OutOfBoundsAccess Read offset mem_len)
           else gets (\<lambda>m. from_le_bytes (sub_slice (inner m) offset 4)))"

definition linear_read_u64 :: "usize \<Rightarrow> (LinearMemory, MemoryError, u64) op" where
  "linear_read_u64 offset =
     bnd (gets (\<lambda>m. length (inner m))) (\<lambda>mem_len.
       case usize_checked_add offset 8 of
         None \<Rightarrow> fail (OutOfBoundsAccess Read offset mem_len)
       | Some end_ \<Rightarrow>
           if mem_len < end_ then fail (OutOfBoundsAccess Read offset mem_len)
           else gets (\<lambda>m. from_le_bytes (sub_slice (inner m) offset 8)))"

definition linear_read_f32 :: "usize \<Rightarrow> (LinearMemory, MemoryError, u32) op" where
  "linear_read_f32 offset =
     bnd (gets (\<lambda>m. length (inner m))) (\<lambda>mem_len.
       case usize_checked_add offset 4 of
         None \<Rightarrow> fail (OutOfBoundsAccess Read offset mem_len)
       | Some end_ \<Rightarrow>
           if mem_len < end_ then fail (OutOfBoundsAccess Read offset mem_len)
           else gets (\<lambda>m. from_le_bytes (sub_slice (inner m) offset 4)))"

definition linear_read_f64 :: "usize \<Rightarrow> (LinearMemory, MemoryError, u64) op" where
  "linear_read_f64 offset =
     bnd (gets (\<lambda>m. length (inner m))) (\<lambda>mem_len.
       case usize_checked_add offset 8 of
         None \<Rightarrow> fail (OutOfBoundsAccess Read offset mem_len)
       | Some end_ \<Rightarrow>
           if mem_len < end_ then fail (OutOfBoundsAccess Read offset mem_len)
           else gets (\<lambda>m. from_le_bytes (sub_slice (inner m) offset 8)))"

text \<open>\<open>impl Memory for LinearMemory\<close> and \<open>impl MemoryView for LinearMemory\<close>, the inherited
  methods included.\<close>

definition linear_memory :: "LinearMemory memory_impl" where
  "linear_memory = \<lparr>
     mv_size_in_bytes = linear_size_in_bytes,
     mv_size_in_pages = default_size_in_pages linear_size_in_bytes,
     mv_copy_within = linear_copy_within,
     mv_fill = default_fill linear_size_in_bytes linear_write,
     mv_read = linear_read,
     mv_write = linear_write,
     mv_read_u8 = linear_read_u8,
     mv_read_i8 = default_read_i8 linear_read_u8,
     mv_write_u8 = default_write_u8 linear_write,
     mv_read_u16 = linear_read_u16,
     mv_read_i16 = default_read_i16 linear_read_u16,
     mv_write_u16 = default_write_u16 linear_write,
     mv_read_u32 = linear_read_u32,
     mv_read_i32 = default_read_i32 linear_read_u32,
     mv_write_u32 = default_write_u32 linear_write,
     mv_read_u64 = linear_read_u64,
     mv_read_i64 = default_read_i64 linear_read_u64,
     mv_write_u64 = default_write_u64 linear_write,
     mv_read_f32 = linear_read_f32,
     mv_write_f32 = default_write_f32 linear_write,
     mv_read_f64 = linear_read_f64,
     mv_write_f64 = default_write_f64 linear_write,
     mv_allocate_initial_memory = new_linear,
     mv_grow = linear_grow\<rparr>"

text \<open>A whole number of pages, at most \<open>u32::MAX\<close> of them.\<close>

definition linear_valid :: "LinearMemory \<Rightarrow> bool" where
  "linear_valid m \<longleftrightarrow>
     WASM_MEMORY_PAGE_SIZE dvd length (inner m) \<and>
     length (inner m) div WASM_MEMORY_PAGE_SIZE \<le> U32_MAX"

lemma linear_validE:
  assumes "linear_valid m"
  obtains p where "p \<le> U32_MAX" and "length (inner m) = p * WASM_MEMORY_PAGE_SIZE"
  using assms by (auto simp: linear_valid_def WASM_MEMORY_PAGE_SIZE_def elim!: dvdE)

lemma linear_valid_bound: "linear_valid m \<Longrightarrow> length (inner m) \<le> USIZE_MAX"
  by (erule linear_validE) (simp add: WASM_MEMORY_PAGE_SIZE_def)

lemma linear_valid_update [simp]:
  "length ys = length (inner m) \<Longrightarrow> linear_valid (m\<lparr>inner := ys\<rparr>) = linear_valid m"
  by (simp add: linear_valid_def)

section \<open>The overrides and the defaults\<close>

lemmas linear_read_defs =
  linear_read_u8_def linear_read_u16_def linear_read_u32_def linear_read_u64_def
  linear_read_f32_def linear_read_f64_def

lemmas default_read_defs =
  default_read_u8_def default_read_u16_def default_read_u32_def default_read_u64_def
  default_read_f32_def default_read_f64_def

lemma linear_read_through:
  "bnd (linear_read offset n) (\<lambda>buf. ret (dec buf)) =
     bnd (gets (\<lambda>m. length (inner m))) (\<lambda>mem_len.
       case usize_checked_add offset n of
         None \<Rightarrow> fail (OutOfBoundsAccess Read offset mem_len)
       | Some end_ \<Rightarrow>
           if mem_len < end_ then fail (OutOfBoundsAccess Read offset mem_len)
           else gets (\<lambda>m. dec (sub_slice (inner m) offset n)))"
  by (rule ext)
    (auto simp: linear_read_def bnd_def gets_def fail_def ret_def usize_checked_add_def)

lemma linear_overrides:
  "linear_read_u8 = default_read_u8 linear_read"
  "linear_read_u16 = default_read_u16 linear_read"
  "linear_read_u32 = default_read_u32 linear_read"
  "linear_read_u64 = default_read_u64 linear_read"
  "linear_read_f32 = default_read_f32 linear_read"
  "linear_read_f64 = default_read_f64 linear_read"
  by (rule ext, simp only: linear_read_defs default_read_defs linear_read_through)+

section \<open>It implements the contract\<close>

interpretation linear_view: memory_view
  linear_size_in_bytes linear_read linear_write linear_copy_within inner linear_valid
proof
  fix m :: LinearMemory assume "linear_valid m"
  then show "length (inner m) \<le> USIZE_MAX" by (rule linear_valid_bound)
next
  fix n show "reads_value linear_valid inner n (\<lambda>bs. bs) (\<lambda>off. linear_read off n)"
    by (auto simp: reads_value_def linear_read_def usize_checked_add_def
        dest: linear_valid_bound)
next
  fix bs
  show "writes_value linear_valid inner (length bs) (\<lambda>_ :: unit. bs) (\<lambda>off _. linear_write off bs)"
    by (auto simp: writes_value_def linear_write_def usize_checked_add_def
        dest: linear_valid_bound)
next
  fix m dest src len assume m: "linear_valid m"
  then show "wp (linear_copy_within dest src len)
        (\<lambda>_ m'. src + len \<le> length (inner m) \<and> dest + len \<le> length (inner m) \<and>
           inner m' = overwrite (inner m) dest (sub_slice (inner m) src len) \<and> linear_valid m')
        (\<lambda>e m'. inner m' = inner m \<and> linear_valid m' \<and>
           (if length (inner m) < src + len
            then e = OutOfBoundsAccess Read src (length (inner m))
            else length (inner m) < dest + len \<and>
              e = OutOfBoundsAccess Write dest (length (inner m)))) m"
    using linear_valid_bound [OF m]
    by (auto simp: linear_copy_within_def usize_checked_add_def)
qed (simp add: linear_size_in_bytes_def)

lemma linear_grow_law:
  assumes m: "linear_valid m" and P: "P = length (inner m) div WASM_MEMORY_PAGE_SIZE"
  shows "wp (linear_grow delta cap)
        (\<lambda>old m'. old = P \<and> P + delta \<le> cap \<and> P + delta \<le> U32_MAX \<and>
           inner m' = inner m @ replicate (delta * WASM_MEMORY_PAGE_SIZE) 0 \<and> linear_valid m')
        (\<lambda>e m'. \<not> (P + delta \<le> cap \<and> P + delta \<le> U32_MAX) \<and> e = GrowFailed cap delta P \<and>
           inner m' = inner m \<and> linear_valid m') m"
proof -
  from m P have P': "P \<le> U32_MAX" and len: "length (inner m) = P * WASM_MEMORY_PAGE_SIZE"
    by (auto simp: linear_valid_def)
  then have pages: "default_size_in_pages linear_size_in_bytes m = P"
    by (simp add: default_size_in_pages_def linear_size_in_bytes_def WASM_MEMORY_PAGE_SIZE_def)
  show ?thesis
    using m P'
    by (auto simp: linear_grow_def pages u32_checked_add_def vec_resize_def len add_mult_distrib
        linear_valid_def WASM_MEMORY_PAGE_SIZE_def ac_simps)
qed

interpretation linear: memory_backend linear_memory inner linear_valid
proof (unfold_locales, goal_cases)
  case (1 m)
  then show ?case by (simp add: linear_memory_def linear_view.size_law)
next
  case (2 m)
  then show ?case by (rule linear_view.size_bound)
next
  case (3 n)
  show ?case by (simp add: linear_memory_def linear_view.read_law)
next
  case (4 bs)
  show ?case by (simp add: linear_memory_def linear_view.write_law)
next
  case (5 m dest src len)
  then show ?case by (simp add: linear_memory_def linear_view.copy_law)
next
  case (6 m)
  then show ?case
    by (simp add: linear_memory_def default_size_in_pages_def linear_size_in_bytes_def linear_valid_def)
next
  case (7 m dest val len)
  then show ?case by (simp add: linear_memory_def linear_view.default_fill_law)
next
  case (24 p)
  then show ?case
    by (simp add: linear_memory_def new_linear_def with_byte_len_def linear_valid_def
        WASM_MEMORY_PAGE_SIZE_def)
next
  case (25 m P delta cap)
  show ?case using linear_grow_law [OF 25] by (simp add: linear_memory_def)
qed (simp_all add: linear_memory_def linear_overrides default_read_i8_def [abs_def]
    default_read_i16_def [abs_def] default_read_i32_def [abs_def] default_read_i64_def [abs_def]
    linear_view.default_read_laws linear_view.default_write_laws del: One_nat_def)

section \<open>A memory that records its reads\<close>

record CountingMemory =
  cm_inner :: LinearMemory
  cm_reads :: u64

text \<open>Delegation to the wrapped memory.\<close>

abbreviation delegated :: "(LinearMemory, MemoryError, 'a) op \<Rightarrow> (CountingMemory, MemoryError, 'a) op" where
  "delegated m \<equiv> on_field cm_inner (\<lambda>x. cm_inner_update (\<lambda>_. x)) (\<lambda>e. e) m"

definition counting_read :: "usize \<Rightarrow> usize \<Rightarrow> (CountingMemory, MemoryError, u8 list) op" where
  "counting_read offset len =
     bnd (modify (\<lambda>m. m\<lparr>cm_reads := cm_reads m + 1\<rparr>)) (\<lambda>_. delegated (linear_read offset len))"

definition counting_size_in_bytes :: "CountingMemory \<Rightarrow> usize" where
  "counting_size_in_bytes m = linear_size_in_bytes (cm_inner m)"

definition counting_write :: "usize \<Rightarrow> u8 list \<Rightarrow> (CountingMemory, MemoryError, unit) op" where
  "counting_write offset data = delegated (linear_write offset data)"

definition counting_copy_within ::
    "usize \<Rightarrow> usize \<Rightarrow> usize \<Rightarrow> (CountingMemory, MemoryError, unit) op" where
  "counting_copy_within dest src len = delegated (linear_copy_within dest src len)"

definition counting_grow :: "nat \<Rightarrow> nat \<Rightarrow> (CountingMemory, MemoryError, nat) op" where
  "counting_grow delta max_pages = delegated (linear_grow delta max_pages)"

definition new_counting :: "nat \<Rightarrow> CountingMemory" where
  "new_counting size_in_pages = \<lparr>cm_inner = new_linear size_in_pages, cm_reads = 0\<rparr>"

definition counting_memory :: "CountingMemory memory_impl" where
  "counting_memory = \<lparr>
     mv_size_in_bytes = counting_size_in_bytes,
     mv_size_in_pages = default_size_in_pages counting_size_in_bytes,
     mv_copy_within = counting_copy_within,
     mv_fill = default_fill counting_size_in_bytes counting_write,
     mv_read = counting_read,
     mv_write = counting_write,
     mv_read_u8 = default_read_u8 counting_read,
     mv_read_i8 = default_read_i8 (default_read_u8 counting_read),
     mv_write_u8 = default_write_u8 counting_write,
     mv_read_u16 = default_read_u16 counting_read,
     mv_read_i16 = default_read_i16 (default_read_u16 counting_read),
     mv_write_u16 = default_write_u16 counting_write,
     mv_read_u32 = default_read_u32 counting_read,
     mv_read_i32 = default_read_i32 (default_read_u32 counting_read),
     mv_write_u32 = default_write_u32 counting_write,
     mv_read_u64 = default_read_u64 counting_read,
     mv_read_i64 = default_read_i64 (default_read_u64 counting_read),
     mv_write_u64 = default_write_u64 counting_write,
     mv_read_f32 = default_read_f32 counting_read,
     mv_write_f32 = default_write_f32 counting_write,
     mv_read_f64 = default_read_f64 counting_read,
     mv_write_f64 = default_write_f64 counting_write,
     mv_allocate_initial_memory = new_counting,
     mv_grow = counting_grow\<rparr>"

interpretation counting_view: memory_view
  counting_size_in_bytes counting_read counting_write counting_copy_within
  "\<lambda>m. inner (cm_inner m)" "\<lambda>m. linear_valid (cm_inner m)"
proof
  fix m :: CountingMemory assume "linear_valid (cm_inner m)"
  then show "counting_size_in_bytes m = length (inner (cm_inner m))"
    by (simp add: counting_size_in_bytes_def linear_view.size_law)
next
  fix m :: CountingMemory assume "linear_valid (cm_inner m)"
  then show "length (inner (cm_inner m)) \<le> USIZE_MAX" by (rule linear_view.size_bound)
next
  fix n
  show "reads_value (\<lambda>m. linear_valid (cm_inner m)) (\<lambda>m. inner (cm_inner m)) n (\<lambda>bs. bs)
      (\<lambda>off. counting_read off n)"
    using linear_view.read_law [of n] by (simp add: reads_value_def counting_read_def)
next
  fix bs
  show "writes_value (\<lambda>m. linear_valid (cm_inner m)) (\<lambda>m. inner (cm_inner m)) (length bs)
      (\<lambda>_ :: unit. bs) (\<lambda>off _. counting_write off bs)"
    using linear_view.write_law [of bs] by (simp add: writes_value_def counting_write_def)
next
  fix m :: CountingMemory and dest src len assume "linear_valid (cm_inner m)"
  from linear_view.copy_law [OF this, of dest src len]
  show "wp (counting_copy_within dest src len)
        (\<lambda>_ m'. src + len \<le> length (inner (cm_inner m)) \<and> dest + len \<le> length (inner (cm_inner m)) \<and>
           inner (cm_inner m') =
             overwrite (inner (cm_inner m)) dest (sub_slice (inner (cm_inner m)) src len) \<and>
           linear_valid (cm_inner m'))
        (\<lambda>e m'. inner (cm_inner m') = inner (cm_inner m) \<and> linear_valid (cm_inner m') \<and>
           (if length (inner (cm_inner m)) < src + len
            then e = OutOfBoundsAccess Read src (length (inner (cm_inner m)))
            else length (inner (cm_inner m)) < dest + len \<and>
              e = OutOfBoundsAccess Write dest (length (inner (cm_inner m))))) m"
    by (simp add: counting_copy_within_def)
qed

interpretation counting: memory_backend counting_memory
  "\<lambda>m. inner (cm_inner m)" "\<lambda>m. linear_valid (cm_inner m)"
proof (unfold_locales, goal_cases)
  case (1 m)
  then show ?case by (simp add: counting_memory_def counting_view.size_law)
next
  case (2 m)
  then show ?case by (rule counting_view.size_bound)
next
  case (3 n)
  show ?case by (simp add: counting_memory_def counting_view.read_law)
next
  case (4 bs)
  show ?case by (simp add: counting_memory_def counting_view.write_law)
next
  case (5 m dest src len)
  then show ?case by (simp add: counting_memory_def counting_view.copy_law)
next
  case (6 m)
  then show ?case
    by (simp add: counting_memory_def default_size_in_pages_def counting_size_in_bytes_def
        linear_size_in_bytes_def linear_valid_def)
next
  case (7 m dest val len)
  then show ?case by (simp add: counting_memory_def counting_view.default_fill_law)
next
  case (24 p)
  then show ?case
    by (simp add: counting_memory_def new_counting_def new_linear_def with_byte_len_def
        linear_valid_def WASM_MEMORY_PAGE_SIZE_def)
next
  case (25 m P delta cap)
  show ?case using linear_grow_law [OF 25]
    by (simp add: counting_memory_def counting_grow_def)
qed (simp_all add: counting_memory_def default_read_i8_def [abs_def]
    default_read_i16_def [abs_def] default_read_i32_def [abs_def] default_read_i64_def [abs_def]
    counting_view.default_read_laws counting_view.default_write_laws del: One_nat_def)

end
