(* ===== verification/ExecRules.thy ===== *)
theory ExecRules
  imports StackExec LinearMemory
begin

text \<open>
  Rules for one step of the stack machine in terms of the values on its operand stack
  (\<open>operands s vs\<close>), and, in the context of the memory contract, for the instructions that
  access memory: what they compute, and exactly when and how they trap.
\<close>

section \<open>Operands\<close>

definition operands :: "('m, 'i) StackInstance \<Rightarrow> Value list \<Rightarrow> bool" where
  "operands s vs \<longleftrightarrow> holds (frame s) vs"

lemma operands_frame [simp]: "operands (s\<lparr>frame := f\<rparr>) vs = holds f vs"
  by (simp add: operands_def)

lemma operands_memory [simp]: "operands (s\<lparr>memory := m\<rparr>) vs = operands s vs"
  by (simp add: operands_def)

lemma operands_data [simp]: "operands (s\<lparr>data_vals := d\<rparr>) vs = operands s vs"
  by (simp add: operands_def)

text \<open>What an instruction may leave changed: its operands, and nothing else.\<close>

definition same_but_frame :: "('m, 'i, 'fr) Instance \<Rightarrow> ('m, 'i, 'fr) Instance \<Rightarrow> bool" where
  "same_but_frame s s' \<longleftrightarrow> s' = s\<lparr>frame := frame s'\<rparr>"

lemma same_but_frame_refl [simp]: "same_but_frame s s"
  by (simp add: same_but_frame_def)

lemma same_but_frame_update [simp]:
  "same_but_frame s (t\<lparr>frame := f\<rparr>) = same_but_frame s t"
  "same_but_frame (s\<lparr>frame := f\<rparr>) t = same_but_frame s t"
  by (cases s; cases t; simp add: same_but_frame_def)+

lemma same_but_frame_fields:
  assumes "same_but_frame s s'"
  shows "memory s' = memory s" "config s' = config s" "global_vals s' = global_vals s"
    "table_vals s' = table_vals s" "data_vals s' = data_vals s"
    "import_registry s' = import_registry s" "element_vals s' = element_vals s"
  using assms by (cases s; cases s'; simp add: same_but_frame_def)+

definition same_but_memory :: "('m, 'i, 'fr) Instance \<Rightarrow> ('m, 'i, 'fr) Instance \<Rightarrow> bool" where
  "same_but_memory s s' \<longleftrightarrow> s' = s\<lparr>frame := frame s', memory := memory s'\<rparr>"

lemma same_but_memory_refl [simp]: "same_but_memory s s"
  by (simp add: same_but_memory_def)

lemma same_but_memory_update [simp]:
  "same_but_memory s (t\<lparr>frame := f\<rparr>) = same_but_memory s t"
  "same_but_memory s (t\<lparr>memory := m\<rparr>) = same_but_memory s t"
  "same_but_memory (s\<lparr>frame := f\<rparr>) t = same_but_memory s t"
  "same_but_memory (s\<lparr>memory := m\<rparr>) t = same_but_memory s t"
  by (cases s; cases t; simp add: same_but_memory_def)+

lemma pop_value_wp:
  assumes "operands s (vs @ [v])"
    and "\<And>f. holds f vs \<Longrightarrow> Q v (s\<lparr>frame := f\<rparr>)"
  shows "wp pop_value Q E s"
  unfolding pop_value_def wp_on_field
  by (rule value_stack.pop_wp) (use assms in \<open>auto simp: operands_def\<close>)

lemma pop_i32_wp:
  assumes "operands s (vs @ [v])"
    and "\<And>f. holds f vs \<Longrightarrow> Q (as_i32 v) (s\<lparr>frame := f\<rparr>)"
  shows "wp pop_i32 Q E s"
  unfolding pop_i32_def wp_bnd by (rule pop_value_wp [OF assms(1)]) (simp add: assms(2))

lemma pop_usize_wp:
  assumes "operands s (vs @ [v])"
    and "\<And>f. holds f vs \<Longrightarrow> Q (unat (as_i32 v)) (s\<lparr>frame := f\<rparr>)"
  shows "wp pop_usize Q E s"
  unfolding pop_usize_def wp_bnd by (rule pop_i32_wp [OF assms(1)]) (simp add: assms(2))

lemma push_value_wp:
  assumes "operands s vs"
    and "\<And>f. holds f (vs @ [v]) \<Longrightarrow> Q () (s\<lparr>frame := f\<rparr>)"
  shows "wp (push_value v) Q E s"
  unfolding push_value_def wp_on_field
  by (rule value_stack.push_wp) (use assms in \<open>auto simp: operands_def\<close>)

lemma push_next_wp:
  assumes "operands s vs"
    and "\<And>f. holds f (vs @ [v]) \<Longrightarrow> Q Next (s\<lparr>frame := f\<rparr>)"
  shows "wp (push_next v) Q E s"
  unfolding push_next_def wp_bnd by (rule push_value_wp [OF assms(1)]) (simp add: assms(2))

lemma pop_three_wp:
  assumes "operands s (vs @ [d, sr, n])"
    and "\<And>f. holds f vs \<Longrightarrow>
      wp (k (unat (as_i32 n)) (unat (as_i32 sr)) (unat (as_i32 d))) Q E (s\<lparr>frame := f\<rparr>)"
  shows "wp (bnd pop_usize (\<lambda>n. bnd pop_usize (\<lambda>sr. bnd pop_usize (\<lambda>d. k n sr d)))) Q E s"
  unfolding wp_bnd
proof (rule pop_usize_wp [of s "vs @ [d, sr]" n], goal_cases)
  case 1
  show ?case using assms(1) by simp
next
  case (2 f)
  show ?case
  proof (rule pop_usize_wp [of _ "vs @ [d]" sr], goal_cases)
    case 1
    show ?case using 2 by simp
  next
    case (2 f)
    show ?case
      by (rule pop_usize_wp [of _ vs d]) (use 2 assms(2) in auto)
  qed
qed

lemma pop_effective_address_wp:
  assumes "operands s (vs @ [v])"
    and "\<And>f. holds f vs \<Longrightarrow> unat (as_i32 v) + unat off \<le> U32_MAX \<Longrightarrow>
      Q (unat (as_i32 v) + unat off) (s\<lparr>frame := f\<rparr>)"
    and "\<And>f. holds f vs \<Longrightarrow> U32_MAX < unat (as_i32 v) + unat off \<Longrightarrow>
      E (Memory (EffectiveAddressOverflow (as_i32 v) off)) (s\<lparr>frame := f\<rparr>)"
  shows "wp (pop_effective_address off) Q E s"
  unfolding pop_effective_address_def wp_bnd
  by (rule pop_i32_wp [OF assms(1)]) (auto simp: u32_checked_add_def assms(2,3))

section \<open>Loads and stores\<close>

fun load_width :: "load_op \<Rightarrow> nat" where
  "load_width I32Load = 4" | "load_width I32Load8U = 1" | "load_width I32Load8S = 1"
| "load_width I32Load16U = 2" | "load_width I32Load16S = 2"
| "load_width I64Load = 8" | "load_width I64Load8U = 1" | "load_width I64Load8S = 1"
| "load_width I64Load16U = 2" | "load_width I64Load16S = 2"
| "load_width I64Load32U = 4" | "load_width I64Load32S = 4"
| "load_width F32Load = 4" | "load_width F64Load = 8"

text \<open>The slot a load pushes, from the little-endian bytes at the effective address.\<close>

fun loaded :: "load_op \<Rightarrow> u8 list \<Rightarrow> Value" where
  "loaded I32Load bs = from_i32 (from_le_bytes bs)"
| "loaded I32Load8U bs = from_i32 (ucast (from_le_bytes bs :: u8))"
| "loaded I32Load8S bs = from_i32 (scast (from_le_bytes bs :: u8))"
| "loaded I32Load16U bs = from_i32 (ucast (from_le_bytes bs :: u16))"
| "loaded I32Load16S bs = from_i32 (scast (from_le_bytes bs :: u16))"
| "loaded I64Load bs = from_i64 (from_le_bytes bs)"
| "loaded I64Load8U bs = from_i64 (ucast (from_le_bytes bs :: u8))"
| "loaded I64Load8S bs = from_i64 (scast (from_le_bytes bs :: u8))"
| "loaded I64Load16U bs = from_i64 (ucast (from_le_bytes bs :: u16))"
| "loaded I64Load16S bs = from_i64 (scast (from_le_bytes bs :: u16))"
| "loaded I64Load32U bs = from_i64 (ucast (from_le_bytes bs :: u32))"
| "loaded I64Load32S bs = from_i64 (scast (from_le_bytes bs :: u32))"
| "loaded F32Load bs = from_f32 (from_le_bytes bs)"
| "loaded F64Load bs = from_f64 (from_le_bytes bs)"

fun store_width :: "store_op \<Rightarrow> nat" where
  "store_width I32Store = 4" | "store_width I32Store8 = 1" | "store_width I32Store16 = 2"
| "store_width I64Store = 8" | "store_width I64Store8 = 1" | "store_width I64Store16 = 2"
| "store_width I64Store32 = 4" | "store_width F32Store = 4" | "store_width F64Store = 8"

text \<open>The bytes a store writes: the low bytes of the slot.\<close>

definition stored :: "store_op \<Rightarrow> Value \<Rightarrow> u8 list" where
  "stored st v = to_le_bytes (store_width st) v"

lemma length_stored [simp]: "length (stored st v) = store_width st"
  by (simp add: stored_def)

lemma to_le_bytes_nth: "i < n \<Longrightarrow> to_le_bytes n w ! i = ucast (drop_bit (8 * i) w)"
proof (induction n arbitrary: w i)
  case (Suc n)
  then show ?case by (cases i) (auto simp: ac_simps)
qed simp

lemma to_le_bytes_ucast:
  fixes w :: "'a::len word"
  assumes "8 * n \<le> LENGTH('b::len)"
  shows "to_le_bytes n (ucast w :: 'b word) = to_le_bytes n w"
proof (rule nth_equalityI)
  fix i assume "i < length (to_le_bytes n (ucast w :: 'b word))"
  then have i: "i < n" by simp
  with assms have bit: "8 * i + k < LENGTH('b)" if "k < 8" for k
    using that by linarith
  have "ucast (drop_bit (8 * i) (ucast w :: 'b word)) = (ucast (drop_bit (8 * i) w) :: u8)"
    by (rule bit_word_eqI) (use bit in \<open>auto simp: bit_simps\<close>)
  with i show "to_le_bytes n (ucast w :: 'b word) ! i = to_le_bytes n w ! i"
    by (simp add: to_le_bytes_nth del: to_le_bytes.simps)
qed simp

lemma reads_mapped:
  assumes "reads_value valid c w dec rd" "valid m"
  shows "wp (bnd (rd a) (\<lambda>v. ret (g v)))
    (\<lambda>v m'. a + w \<le> length (c m) \<and> v = g (dec (sub_slice (c m) a w)) \<and> c m' = c m \<and> valid m')
    (\<lambda>e m'. length (c m) < a + w \<and> e = OutOfBoundsAccess Read a (length (c m)) \<and>
       c m' = c m \<and> valid m') m"
  unfolding wp_bnd by (rule wp_mono [OF reads_valueD [OF assms]]) auto

lemma writes_mapped:
  assumes "writes_value valid c w enc wr" "valid m" "enc x = bs"
  shows "wp (wr a x)
    (\<lambda>_ m'. a + w \<le> length (c m) \<and> c m' = overwrite (c m) a bs \<and> valid m')
    (\<lambda>e m'. length (c m) < a + w \<and> e = OutOfBoundsAccess Write a (length (c m)) \<and>
       c m' = c m \<and> valid m') m"
  using writes_valueD [OF assms(1,2), of a x] assms(3) by simp

lemma u8_bytes: "replicate 1 (w :: u8) = to_le_bytes 1 w"
  by simp

context memory_backend
begin

lemma load_value_law:
  assumes "valid m"
  shows "wp (load_value D l a)
    (\<lambda>v m'. a + load_width l \<le> length (contents m) \<and>
       v = loaded l (sub_slice (contents m) a (load_width l)) \<and> contents m' = contents m \<and> valid m')
    (\<lambda>e m'. length (contents m) < a + load_width l \<and>
       e = OutOfBoundsAccess Read a (length (contents m)) \<and> contents m' = contents m \<and> valid m') m"
  by (cases l; simp only: load_value.simps loaded.simps load_width.simps;
      rule reads_mapped [where c = contents and valid = valid]; (rule read_laws assms)?)

lemma store_value_law:
  assumes "valid m"
  shows "wp (store_value D st a v)
    (\<lambda>_ m'. a + store_width st \<le> length (contents m) \<and>
       contents m' = overwrite (contents m) a (stored st v) \<and> valid m')
    (\<lambda>e m'. length (contents m) < a + store_width st \<and>
       e = OutOfBoundsAccess Write a (length (contents m)) \<and> contents m' = contents m \<and> valid m') m"
  by (cases st; simp only: store_value.simps store_width.simps;
      rule writes_mapped [where c = contents and valid = valid]; (rule write_laws assms)?;
      simp add: u8_bytes stored_def as_i32_def as_i64_def as_f32_def as_f64_def to_le_bytes_ucast
        del: to_le_bytes.simps One_nat_def replicate.simps)

lemma exec_load_wp:
  assumes "operands s (vs @ [addr])" and "valid (memory s)"
    and "c = contents (memory s)" and "ea = unat (as_i32 addr) + unat off"
  shows "wp (exec_load D l off)
    (\<lambda>r s'. r = Next \<and> ea \<le> U32_MAX \<and> ea + load_width l \<le> length c \<and>
       operands s' (vs @ [loaded l (sub_slice c ea (load_width l))]) \<and>
       contents (memory s') = c \<and> valid (memory s') \<and> same_but_memory s s')
    (\<lambda>e s'. operands s' vs \<and> contents (memory s') = c \<and> valid (memory s') \<and> same_but_memory s s' \<and>
       (if U32_MAX < ea then e = Memory (EffectiveAddressOverflow (as_i32 addr) off)
        else length c < ea + load_width l \<and> e = Memory (OutOfBoundsAccess Read ea (length c)))) s"
  unfolding exec_load_def wp_bnd
proof (rule pop_effective_address_wp [OF assms(1)], goal_cases)
  case (1 f)
  show ?case
    unfolding wp_on_field
    by (rule wp_mono [OF load_value_law])
      (use 1 assms(2-4) in \<open>auto intro!: push_next_wp\<close>)
qed (use assms in auto)

lemma exec_store_wp:
  assumes "operands s (vs @ [addr, v])" and "valid (memory s)"
    and "c = contents (memory s)" and "ea = unat (as_i32 addr) + unat off"
  shows "wp (exec_store D st off)
    (\<lambda>r s'. r = Next \<and> ea \<le> U32_MAX \<and> ea + store_width st \<le> length c \<and> operands s' vs \<and>
       contents (memory s') = overwrite c ea (stored st v) \<and> valid (memory s') \<and> same_but_memory s s')
    (\<lambda>e s'. operands s' vs \<and> contents (memory s') = c \<and> valid (memory s') \<and> same_but_memory s s' \<and>
       (if U32_MAX < ea then e = Memory (EffectiveAddressOverflow (as_i32 addr) off)
        else length c < ea + store_width st \<and> e = Memory (OutOfBoundsAccess Write ea (length c)))) s"
  unfolding exec_store_def wp_bnd
proof (rule pop_value_wp [of s "vs @ [addr]" v], goal_cases)
  case 1
  show ?case using assms(1) by simp
next
  case (2 f)
  show ?case
  proof (rule pop_effective_address_wp [of _ vs addr], goal_cases)
    case 1
    show ?case using 2 by simp
  next
    case (2 f)
    show ?case
      unfolding wp_on_field
      by (rule wp_mono [OF store_value_law]) (use 2 assms(2-4) in auto)
  qed (use assms in auto)
qed

text \<open>\<open>memory.grow\<close> never traps: a refused growth is the value \<open>-1\<close> and changes nothing.\<close>

lemma exec_memory_grow_wp:
  assumes "operands s (vs @ [delta])" and "valid (memory s)"
    and "c = contents (memory s)" and "P = length c div WASM_MEMORY_PAGE_SIZE"
    and "n = unat (as_i32 delta)" and "cap = unat (max_memory_size_in_pages (config s))"
  shows "wp (exec_memory_grow D)
    (\<lambda>r s'. r = Next \<and> valid (memory s') \<and> same_but_memory s s' \<and>
       (if P + n \<le> cap
        then operands s' (vs @ [from_i32 (of_nat P)]) \<and>
          contents (memory s') = c @ replicate (n * WASM_MEMORY_PAGE_SIZE) 0
        else operands s' (vs @ [from_i32 (- 1)]) \<and> contents (memory s') = c))
    (\<lambda>_ _. False) s"
  unfolding exec_memory_grow_def wp_bnd
proof (rule pop_usize_wp [OF assms(1)], goal_cases)
  case (1 f)
  have cap: "cap \<le> U32_MAX"
    using unsigned_less [of "max_memory_size_in_pages (config s)", where ?'a = nat] by (simp add: assms(6))
  show ?case
    unfolding wp_gets wp_attempt wp_on_field
    by (rule wp_mono [OF grow_law [OF _ refl]])
      (use 1 assms cap in \<open>auto intro!: push_next_wp\<close>)
qed

lemma exec_memory_size_wp:
  assumes "operands s vs" and "valid (memory s)"
  shows "wp (exec_memory_size D)
    (\<lambda>r s'. r = Next \<and> same_but_frame s s' \<and> operands s'
       (vs @ [from_i32 (of_nat (length (contents (memory s)) div WASM_MEMORY_PAGE_SIZE))]))
    (\<lambda>_ _. False) s"
  unfolding exec_memory_size_def wp_bnd wp_gets
  by (rule push_next_wp [OF assms(1)]) (simp add: pages_law assms(2))

lemma exec_memory_copy_wp:
  assumes "operands s (vs @ [d, sr, n])" and "valid (memory s)" and "c = contents (memory s)"
    and "dest = unat (as_i32 d)" and "src = unat (as_i32 sr)" and "len = unat (as_i32 n)"
  shows "wp (exec_memory_copy D)
    (\<lambda>r s'. r = Next \<and> src + len \<le> length c \<and> dest + len \<le> length c \<and> operands s' vs \<and>
       contents (memory s') = overwrite c dest (sub_slice c src len) \<and>
       valid (memory s') \<and> same_but_memory s s')
    (\<lambda>e s'. operands s' vs \<and> contents (memory s') = c \<and> valid (memory s') \<and> same_but_memory s s' \<and>
       (if length c < src + len then e = Memory (OutOfBoundsAccess Read src (length c))
        else length c < dest + len \<and> e = Memory (OutOfBoundsAccess Write dest (length c)))) s"
  unfolding exec_memory_copy_def
proof (rule pop_three_wp [OF assms(1)], goal_cases)
  case (1 f)
  show ?case
    unfolding wp_bnd wp_on_field by (rule wp_mono [OF copy_law]) (use 1 assms in auto)
qed

lemma exec_memory_fill_wp:
  assumes "operands s (vs @ [d, b, n])" and "valid (memory s)" and "c = contents (memory s)"
    and "dest = unat (as_i32 d)" and "len = unat (as_i32 n)"
  shows "wp (exec_memory_fill D)
    (\<lambda>r s'. r = Next \<and> dest + len \<le> length c \<and> operands s' vs \<and>
       contents (memory s') = overwrite c dest (replicate len (ucast (as_i32 b))) \<and>
       valid (memory s') \<and> same_but_memory s s')
    (\<lambda>e s'. operands s' vs \<and> contents (memory s') = c \<and> valid (memory s') \<and> same_but_memory s s' \<and>
       length c < dest + len \<and> e = Memory (OutOfBoundsAccess Write dest (length c))) s"
  unfolding exec_memory_fill_def wp_bnd
proof (rule pop_usize_wp [of s "vs @ [d, b]" n], goal_cases)
  case 1
  show ?case using assms(1) by simp
next
  case (2 f)
  show ?case
  proof (rule pop_i32_wp [of _ "vs @ [d]" b], goal_cases)
    case 1
    show ?case using 2 by simp
  next
    case (2 f)
    show ?case
    proof (rule pop_usize_wp [of _ vs d], goal_cases)
      case 1
      show ?case using 2 by simp
    next
      case (2 f)
      show ?case
        unfolding wp_on_field
        by (rule wp_mono [OF fill_law]) (use 2 assms in auto)
    qed
  qed
qed

lemma exec_memory_init_wp:
  assumes "operands s (vs @ [d, sr, n])" and "valid (memory s)" and "c = contents (memory s)"
    and "dest = unat (as_i32 d)" and "src = unat (as_i32 sr)" and "len = unat (as_i32 n)"
    and "unat i < length (data_vals s)" and "seg = data_segment (data_vals s ! unat i)"
    and "length seg \<le> USIZE_MAX"
  shows "wp (exec_memory_init D i)
    (\<lambda>r s'. r = Next \<and> src + len \<le> length seg \<and> dest + len \<le> length c \<and> operands s' vs \<and>
       contents (memory s') = overwrite c dest (sub_slice seg src len) \<and>
       valid (memory s') \<and> same_but_memory s s')
    (\<lambda>e s'. operands s' vs \<and> contents (memory s') = c \<and> valid (memory s') \<and> same_but_memory s s' \<and>
       (if length seg < src + len then e = Memory (OutOfBoundsAccess Read src (length seg))
        else length c < dest + len \<and> e = Memory (OutOfBoundsAccess Write dest (length c)))) s"
  unfolding exec_memory_init_def
proof (rule pop_three_wp [OF assms(1)], goal_cases)
  case (1 f)
  have start: "wp (bnd (gets data_vals) (\<lambda>ds. bnd (lift_result (index ds (unat i))) k)) Q E (s\<lparr>frame := f\<rparr>) =
      wp (k (data_vals s ! unat i)) Q E (s\<lparr>frame := f\<rparr>)" for k Q E
    using assms(7) by (simp add: index_def)
  show ?case
  proof (cases "src + len \<le> length seg")
    case True
    then have fits: "usize_checked_add src len = Some (src + len)" and n: "length (sub_slice seg src len) = len"
      using assms(9) by (simp_all add: usize_checked_add_def)
    show ?thesis
      unfolding start Let_def assms(4-6,8) [symmetric] fits
      using True 1
      by (auto intro!: wp_mono [OF write_bytes_law] simp: n assms(2,3))
  next
    case False
    then show ?thesis
      unfolding start Let_def assms(4-6,8) [symmetric]
      using 1 assms(2,3) by (auto simp: usize_checked_add_def)
  qed
qed

end

end
