(* ===== verification/MemoryProperties.thy ===== *)
theory MemoryProperties
  imports ExecRules
begin

text \<open>
  What the memory subsystem and the instructions that use it do, stated of the two memories of
  the repository. The proofs instantiate the contract \<open>memory_backend\<close>.
\<close>

section \<open>\<open>LinearMemory\<close>\<close>

text \<open>C27: the sized accessors that \<open>LinearMemory\<close> overrides for speed compute exactly
  what the trait's default methods compute through \<open>read\<close>: the same value, the same error with
  the same data, at every offset and on every memory.\<close>

theorem linear_reads_are_the_defaults:
  "mv_read_u8 linear_memory = default_read_u8 (mv_read linear_memory) \<and>
   mv_read_i8 linear_memory = default_read_i8 (default_read_u8 (mv_read linear_memory)) \<and>
   mv_read_u16 linear_memory = default_read_u16 (mv_read linear_memory) \<and>
   mv_read_i16 linear_memory = default_read_i16 (default_read_u16 (mv_read linear_memory)) \<and>
   mv_read_u32 linear_memory = default_read_u32 (mv_read linear_memory) \<and>
   mv_read_i32 linear_memory = default_read_i32 (default_read_u32 (mv_read linear_memory)) \<and>
   mv_read_u64 linear_memory = default_read_u64 (mv_read linear_memory) \<and>
   mv_read_i64 linear_memory = default_read_i64 (default_read_u64 (mv_read linear_memory)) \<and>
   mv_read_f32 linear_memory = default_read_f32 (mv_read linear_memory) \<and>
   mv_read_f64 linear_memory = default_read_f64 (mv_read linear_memory)"
  by (simp add: linear_memory_def linear_overrides)

text \<open>\<open>copy_within\<close> is \<open>memmove\<close>, all or nothing. Every byte of the destination range is
  the byte the source range held before the copy, also when the ranges overlap; every other byte
  is untouched; a range out of bounds fails with the matching error and changes nothing.\<close>

theorem copy_within_is_memmove:
  assumes "linear_valid m"
  shows "wp (linear_copy_within dest src len)
    (\<lambda>_ m'. max src dest + len \<le> length (inner m) \<and> length (inner m') = length (inner m) \<and>
       (\<forall>i < length (inner m). inner m' ! i =
          (if dest \<le> i \<and> i < dest + len then inner m ! (src + (i - dest)) else inner m ! i)))
    (\<lambda>e m'. inner m' = inner m \<and>
       (if length (inner m) < src + len then e = OutOfBoundsAccess Read src (length (inner m))
        else length (inner m) < dest + len \<and> e = OutOfBoundsAccess Write dest (length (inner m)))) m"
  by (rule wp_mono [OF linear_view.copy_law [OF assms]])
    (auto simp: nth_overwrite nth_sub_slice split: if_splits)

definition one_page :: LinearMemory where "one_page = new_linear 1"

lemma one_page_valid: "linear_valid one_page"
  by (simp add: one_page_def linear_valid_def new_linear_def with_byte_len_def WASM_MEMORY_PAGE_SIZE_def)

lemma one_page_length: "length (inner one_page) = 65536"
  by (simp add: one_page_def new_linear_def with_byte_len_def WASM_MEMORY_PAGE_SIZE_def)

text \<open>On a page of memory, an overlapping copy succeeds and one that ends past the page does not.\<close>

theorem copy_within_is_memmove_witness:
  "wp (linear_copy_within 2 0 4) (\<lambda>_ m'. inner m' ! 5 = inner one_page ! 3) (\<lambda>_ _. False) one_page \<and>
   wp (linear_copy_within 65535 0 4) (\<lambda>_ _. False) (\<lambda>e _. e = OutOfBoundsAccess Write 65535 65536) one_page"
proof
  show "wp (linear_copy_within 2 0 4) (\<lambda>_ m'. inner m' ! 5 = inner one_page ! 3) (\<lambda>_ _. False) one_page"
    by (rule wp_mono [OF copy_within_is_memmove [OF one_page_valid]])
      (auto simp: one_page_length split: if_splits)
  show "wp (linear_copy_within 65535 0 4) (\<lambda>_ _. False) (\<lambda>e _. e = OutOfBoundsAccess Write 65535 65536) one_page"
    by (rule wp_mono [OF copy_within_is_memmove [OF one_page_valid]])
      (auto simp: one_page_length split: if_splits)
qed

text \<open>C28: the default \<open>fill\<close>, which writes in chunks through a fixed buffer, writes the low
  byte of the value to exactly the requested range, or fails before its first write: no call
  leaves a range half filled.\<close>

theorem fill_is_all_or_nothing:
  assumes "linear_valid m"
  shows "wp (mv_fill linear_memory dest val len)
    (\<lambda>_ m'. dest + len \<le> length (inner m) \<and> length (inner m') = length (inner m) \<and>
       (\<forall>i < length (inner m). inner m' ! i =
          (if dest \<le> i \<and> i < dest + len then ucast val else inner m ! i)))
    (\<lambda>e m'. length (inner m) < dest + len \<and> e = OutOfBoundsAccess Write dest (length (inner m)) \<and>
       inner m' = inner m) m"
  by (rule wp_mono [OF linear.fill_law [OF assms]]) (auto simp: nth_overwrite)

theorem fill_is_all_or_nothing_witness:
  "wp (mv_fill linear_memory 60000 0x1FF 5000) (\<lambda>_ m'. inner m' ! 64999 = 0xFF) (\<lambda>_ _. False) one_page"
  by (rule wp_mono [OF fill_is_all_or_nothing [OF one_page_valid]]) (auto simp: one_page_length)

text \<open>\<open>grow\<close> keeps the memory a whole number of pages, keeps every byte, zeroes the new
  ones and returns the old page count, exactly when the new count neither exceeds the cap nor
  overflows; otherwise it fails and changes nothing.\<close>

theorem grow_appends_zero_pages:
  assumes "linear_valid m" and "P = length (inner m) div WASM_MEMORY_PAGE_SIZE"
  shows "wp (mv_grow linear_memory delta cap)
    (\<lambda>old m'. old = P \<and> P + delta \<le> min cap U32_MAX \<and> linear_valid m' \<and>
       mv_size_in_pages linear_memory m' = P + delta \<and>
       inner m' = inner m @ replicate (delta * WASM_MEMORY_PAGE_SIZE) 0)
    (\<lambda>e m'. min cap U32_MAX < P + delta \<and> e = GrowFailed cap delta P \<and> m' = m) m"
proof (rule wp_mono [OF linear.grow_law [OF assms]], goal_cases)
  case (1 old m')
  with assms have "P = length (inner m) div WASM_MEMORY_PAGE_SIZE" "WASM_MEMORY_PAGE_SIZE dvd length (inner m)"
    by (auto simp: linear_valid_def)
  with 1 show ?case
    by (auto simp: linear.pages_law WASM_MEMORY_PAGE_SIZE_def)
qed auto

theorem grow_appends_zero_pages_witness:
  "wp (mv_grow linear_memory 2 3) (\<lambda>old m'. old = 1 \<and> mv_size_in_pages linear_memory m' = 3)
     (\<lambda>_ _. False) one_page"
  by (rule wp_mono [OF grow_appends_zero_pages [OF one_page_valid refl]])
    (auto simp: one_page_length WASM_MEMORY_PAGE_SIZE_def)



section \<open>Loads and stores\<close>

text \<open>
  The load that reads a store back, and what it yields: the slot narrowed to the stored bytes.
\<close>

fun reload :: "store_op \<Rightarrow> load_op" where
  "reload I32Store = I32Load" | "reload I32Store8 = I32Load8U" | "reload I32Store16 = I32Load16U"
| "reload I64Store = I64Load" | "reload I64Store8 = I64Load8U" | "reload I64Store16 = I64Load16U"
| "reload I64Store32 = I64Load32U" | "reload F32Store = F32Load" | "reload F64Store = F64Load"

lemma load_width_reload [simp]: "load_width (reload st) = store_width st"
  by (cases st) simp_all

lemma bit_from_to_le_bytes:
  fixes w :: "'a::len word"
  shows "bit (from_le_bytes (to_le_bytes n w) :: 'b::len word) k \<longleftrightarrow> k < LENGTH('b) \<and> k < 8 * n \<and> bit w k"
proof (induction n arbitrary: w k)
  case (Suc n)
  show ?case
    by (auto simp: bit_simps Suc.IH not_less dest: bit_imp_le_length)
qed simp

lemma loaded_stored: "loaded (reload st) (stored st v) = take_bit (8 * store_width st) v"
  by (rule bit_word_eqI, cases st)
    (auto simp: stored_def from_i32_def from_i64_def from_f32_def from_f64_def bit_simps
      bit_from_to_le_bytes simp del: to_le_bytes.simps from_le_bytes.simps)

definition at_linear :: "(LinearMemory, 'i) StackInstance \<Rightarrow> Value list \<Rightarrow> u8 list \<Rightarrow> bool" where
  "at_linear s vs c \<longleftrightarrow> operands s vs \<and> linear_valid (memory s) \<and> inner (memory s) = c"

text \<open>C21: every load instruction, on the default memory: the effective address is the popped
  address plus the static offset without wrap-around; the loaded bytes are zero or sign extended
  and pushed in place of the address; and the instruction traps exactly when the address does not
  fit in 32 bits or an accessed byte is outside the memory, with that error.\<close>

theorem load_instruction:
  assumes "at_linear s (vs @ [addr]) c" and "ea = unat (as_i32 addr) + unat off"
  shows "wp (execute fe linear_memory R (Load l off) md layout cb imported)
    (\<lambda>r s'. r = Next \<and> ea \<le> U32_MAX \<and> ea + load_width l \<le> length c \<and>
       at_linear s' (vs @ [loaded l (sub_slice c ea (load_width l))]) c \<and> same_but_memory s s')
    (\<lambda>e s'. at_linear s' vs c \<and> same_but_memory s s' \<and>
       (if U32_MAX < ea then e = Memory (EffectiveAddressOverflow (as_i32 addr) off)
        else length c < ea + load_width l \<and> e = Memory (OutOfBoundsAccess Read ea (length c)))) s"
  unfolding execute.simps
  by (rule wp_mono [OF linear.exec_load_wp [OF _ _ refl assms(2)]])
    (use assms(1) in \<open>auto simp: at_linear_def\<close>)

text \<open>
  A concrete embedding: an instance with a page of memory and the given operands, host functions
  that return nothing, and the canonical NaN wherever Rust leaves a payload open.
\<close>

definition demo_floats :: float_env where
  "demo_floats = \<lparr>fe_NAN32 = 0x7FC00000, fe_NAN64 = 0x7FF8000000000000,
     fe_nan32 = (\<lambda>_. 0x7FC00000), fe_nan64 = (\<lambda>_. 0x7FF8000000000000),
     fe_demote_nan = (\<lambda>_. 0x7FC00000), fe_promote_nan = (\<lambda>_. 0x7FF8000000000000)\<rparr>"

definition demo_registry :: "(LinearMemory, unit) import_registry_impl" where
  "demo_registry = \<lparr>ir_execute = (\<lambda>_ _ _. ret [])\<rparr>"

definition demo_module :: StackModule where
  "demo_module = \<lparr>md_types = [], md_func_decls = [], md_globals = [], md_imported_func_count = 0,
     md_func_bodies = [], md_exported_func_index_to_name = (\<lambda>_. None)\<rparr>"

definition demo_layout :: StackFrameLayout where
  "demo_layout = \<lparr>br_targets_arena = []\<rparr>"

definition demo_base :: StackCallerBaseData where
  "demo_base = \<lparr>base_height = 0, callee_frame_base_height = 0\<rparr>"

abbreviation demo_exec :: "StackInstruction \<Rightarrow> (LinearMemory, unit) arm" where
  "demo_exec x \<equiv>
     execute demo_floats linear_memory demo_registry x demo_module demo_layout demo_base 0"

definition page_instance :: "Value list \<Rightarrow> (LinearMemory, unit) StackInstance" where
  "page_instance vs = \<lparr>memory = one_page, frame = \<lparr>backing = vs, stack_pointer = length vs\<rparr>,
     import_registry = (), config = default_config, global_vals = [], table_vals = [],
     element_vals = [], data_vals = [DataPassive [1, 2, 3]]\<rparr>"

lemma page_instance_at: "at_linear (page_instance vs) vs (inner one_page)"
  by (simp add: at_linear_def page_instance_def operands_def one_page_valid holds_def stack_inv_def live_def)

theorem load_instruction_witness:
  "wp (demo_exec (Load I64Load 8))
     (\<lambda>_ _. False) (\<lambda>e s'. e = Memory (OutOfBoundsAccess Read 65529 65536)) (page_instance [65521])"
  by (rule wp_mono [OF load_instruction [OF _ refl, of _ "[]" 65521 "inner one_page"]])
    (use page_instance_at [of "[65521]"] in \<open>auto simp: one_page_length as_i32_def\<close>)

text \<open>C22: a store followed by the load of the same width at the same address pushes the
  stored value, narrowed to the bytes that were stored; no byte outside the accessed range
  changes.\<close>

theorem store_then_load:
  assumes "at_linear s (vs @ [addr, v]) c" and "ea = unat (as_i32 addr) + unat off"
    and "ea \<le> U32_MAX" and "ea + store_width st \<le> length c"
  shows "wp (bnd (execute fe linear_memory R (Store st off) md layout cb imported) (\<lambda>_.
        bnd (push_value addr) (\<lambda>_.
        execute fe linear_memory R (Load (reload st) off) md layout cb imported)))
    (\<lambda>_ s'. \<exists>c'. at_linear s' (vs @ [take_bit (8 * store_width st) v]) c' \<and>
       length c' = length c \<and>
       (\<forall>i < length c. (i < ea \<or> ea + store_width st \<le> i) \<longrightarrow> c' ! i = c ! i))
    (\<lambda>_ _. False) s"
proof -
  let ?c' = "overwrite c ea (stored st v)"
  have len: "length ?c' = length c" using assms(4) by simp
  have reloaded: "loaded (reload st) (sub_slice ?c' ea (store_width st)) = take_bit (8 * store_width st) v"
    using assms(4) by (simp add: loaded_stored)
  have load: "wp (execute fe linear_memory R (Load (reload st) off) md layout cb imported)
      (\<lambda>_ s'. at_linear s' (vs @ [take_bit (8 * store_width st) v]) ?c') (\<lambda>_ _. False) t"
    if "at_linear t (vs @ [addr]) ?c'" for t
    unfolding execute.simps
    by (rule wp_mono [OF linear.exec_load_wp [OF _ _ refl assms(2), of t vs]])
      (use that assms len in \<open>auto simp: at_linear_def reloaded loaded_stored\<close>)
  show ?thesis
    unfolding execute.simps wp_bnd
  proof (rule wp_mono [OF linear.exec_store_wp [OF _ _ refl assms(2), of s vs v]], goal_cases)
    case (3 r t)
    then have t: "operands t vs" "linear_valid (memory t)" "inner (memory t) = ?c'"
      using assms(1) by (auto simp: at_linear_def)
    show ?case
    proof (rule push_value_wp [OF t(1)])
      fix f assume "holds f (vs @ [addr])"
      with t have "at_linear (t\<lparr>frame := f\<rparr>) (vs @ [addr]) ?c'" by (simp add: at_linear_def)
      from load [OF this] show "wp (exec_load linear_memory (reload st) off)
          (\<lambda>_ s'. \<exists>c'. at_linear s' (vs @ [take_bit (8 * store_width st) v]) c' \<and> length c' = length c \<and>
             (\<forall>i < length c. (i < ea \<or> ea + store_width st \<le> i) \<longrightarrow> c' ! i = c ! i))
          (\<lambda>_ _. False) (t\<lparr>frame := f\<rparr>)"
        unfolding execute.simps
        by (rule wp_mono) (use assms(4) len in \<open>auto simp: nth_overwrite intro!: exI [of _ ?c']\<close>)
    qed
  qed (use assms in \<open>auto simp: at_linear_def\<close>)
qed

theorem store_then_load_witness:
  "wp (bnd (demo_exec (Store I32Store8 16)) (\<lambda>_.
        bnd (push_value 100) (\<lambda>_.
        demo_exec (Load I32Load8U 16))))
    (\<lambda>_ s'. operands s' [0xEF]) (\<lambda>_ _. False) (page_instance [100, 0xBEEF])"
proof -
  have ea: "unat (as_i32 100) + unat (16 :: u32) = 116" and low: "take_bit 8 (0xBEEF :: u64) = 0xEF"
    by (simp_all add: as_i32_def take_bit_eq_mod unat_mod)
  show ?thesis
    by (rule wp_mono [OF store_then_load [where vs = "[]" and addr = 100 and v = "0xBEEF" and st = I32Store8, unfolded reload.simps,
          OF _ ea [symmetric], of _ "inner one_page"]])
      (use page_instance_at [of "[100, 0xBEEF]"] in \<open>auto simp: one_page_length at_linear_def low\<close>)
qed

text \<open>C25: \<open>memory.grow\<close> never traps and never panics. It pushes the old page count after
  adding that many zero pages when the configured maximum allows it, and otherwise pushes -1 and
  leaves the memory as it was; nothing else of the instance changes.\<close>

theorem memory_grow_never_traps:
  assumes "at_linear s (vs @ [delta]) c" and "P = length c div WASM_MEMORY_PAGE_SIZE"
    and "n = unat (as_i32 delta)" and "cap = unat (max_memory_size_in_pages (config s))"
  shows "wp (execute fe linear_memory R MemoryGrow md layout cb imported)
    (\<lambda>r s'. r = Next \<and> same_but_memory s s' \<and>
       (if P + n \<le> cap
        then at_linear s' (vs @ [from_i32 (of_nat P)]) (c @ replicate (n * WASM_MEMORY_PAGE_SIZE) 0)
        else at_linear s' (vs @ [from_i32 (- 1)]) c))
    (\<lambda>_ _. False) s"
  unfolding execute.simps
  by (rule wp_mono [OF linear.exec_memory_grow_wp [OF _ _ refl _ assms(3,4)]])
    (use assms(1,2) in \<open>auto simp: at_linear_def split: if_splits\<close>)

theorem memory_grow_never_traps_witness:
  "wp (demo_exec MemoryGrow)
     (\<lambda>r s'. length (inner (memory s')) = 65536 * 3) (\<lambda>_ _. False) (page_instance [2]) \<and>
   wp (demo_exec MemoryGrow)
     (\<lambda>r s'. operands s' [from_i32 (- 1)]) (\<lambda>_ _. False) (page_instance [1000])"
proof
  have delta: "unat (as_i32 2) = 2" "unat (as_i32 1000) = 1000"
    and cap: "unat (max_memory_size_in_pages (config (page_instance vs))) = 1000" for vs
    by (simp_all add: as_i32_def page_instance_def default_config_def)
  show "wp (demo_exec MemoryGrow)
     (\<lambda>r s'. length (inner (memory s')) = 65536 * 3) (\<lambda>_ _. False) (page_instance [2])"
    by (rule wp_mono [OF memory_grow_never_traps [where vs = "[]" and delta = 2, OF _ refl refl refl,
          of _ "inner one_page"]])
      (use page_instance_at [of "[2]"] in
        \<open>auto simp: delta cap one_page_length at_linear_def WASM_MEMORY_PAGE_SIZE_def\<close>)
  show "wp (demo_exec MemoryGrow)
     (\<lambda>r s'. operands s' [from_i32 (- 1)]) (\<lambda>_ _. False) (page_instance [1000])"
    by (rule wp_mono [OF memory_grow_never_traps [where vs = "[]" and delta = 1000, OF _ refl refl refl,
          of _ "inner one_page"]])
      (use page_instance_at [of "[1000]"] in
        \<open>auto simp: delta cap one_page_length at_linear_def WASM_MEMORY_PAGE_SIZE_def\<close>)
qed



end
