(* ===== verification/FrameProperties.thy ===== *)
theory FrameProperties
  imports MemoryProperties
begin

text \<open>
  What the value slots and the operand stack guarantee: the conversions at the API boundary lose
  nothing, the stack is the list of its live values, and a call finds its arguments as its first
  locals and leaves exactly its results.
\<close>

section \<open>Slots\<close>

text \<open>C31: the untagged slot of a value determines it, given its type: converting a value of
  the type to a slot and back is the identity, references included, whose encoding is injective
  and makes exactly the null reference the zero slot; and the default value of a type is the
  zero slot read at that type.\<close>

theorem slots_round_trip:
  assumes "has_ty v ty = Ok True"
  shows "into_val (value_of_val v) ty = Ok v \<and>
    (\<forall>r r'. from_ref r = from_ref r' \<longleftrightarrow> r = r') \<and> (\<forall>r. from_ref r = 0 \<longleftrightarrow> r = None) \<and>
    and_then (zero_of_ty ty) (\<lambda>z. into_val z ty) = Val_zero_of_ty ty \<and> zero_of_ty ty = Ok 0"
proof -
  have inj: "from_ref r = from_ref r' \<longleftrightarrow> r = r'" for r r'
    by (metis as_from_ref)
  have "from_ref r = 0 \<longleftrightarrow> r = None" for r
    using inj [of r None] by simp
  moreover have "into_val (value_of_val v) ty = Ok v"
    using assms by (cases ty; cases v) auto
  moreover have "and_then (zero_of_ty ty) (\<lambda>z. into_val z ty) = Val_zero_of_ty ty" "zero_of_ty ty = Ok 0"
    using assms
    by (cases ty; simp add: from_i64_def from_f64_def as_i32_def as_f32_def as_i64_def as_f64_def as_ref_def)+
  ultimately show ?thesis using inj by simp
qed

theorem slots_round_trip_witness:
  "into_val (value_of_val (Ref (Some 7))) (T_Ref (RefType 0)) = Ok (Ref (Some 7))"
  by (rule slots_round_trip [THEN conjunct1]) simp

section \<open>The operand stack\<close>

lemma holds_lowered:
  assumes "holds s (vs @ ws)"
  shows "wp (lower_pointer (length ws)) (\<lambda>_ s'. holds s' vs) E s"
  using holds_pointer [OF assms] holds_lower [OF assms, of "length vs"]
  by (simp add: lower_pointer_def usize_sub_def)

lemma collect_live:
  assumes "holds s (vs @ ws)"
  shows "for_collect 0 (length ws) (\<lambda>i. bnd (lift_result (usize_sub (length vs + length ws) (length ws)))
      (\<lambda>base. slot (base + i))) s = Ok (ws, s)"
    and "for_collect 0 (length ws) (\<lambda>i. bnd (lift_result (usize_sub (length vs + length ws) 1))
      (\<lambda>t. bnd (lift_result (usize_sub t i)) slot)) s = Ok (rev ws, s)"
proof -
  have "for_collect 0 (length ws) (\<lambda>i. bnd (lift_result (usize_sub (length vs + length ws) (length ws)))
      (\<lambda>base. slot (base + i))) s = Ok (map (\<lambda>i. (vs @ ws) ! (length vs + i)) [0..<0 + length ws], s)"
    by (rule for_collect_pure)
      (use assms in \<open>simp add: bnd_def lift_result_def usize_sub_def slot_Ok [of _ "vs @ ws"]\<close>)
  moreover have "map (\<lambda>i. (vs @ ws) ! (length vs + i)) [0..<length ws] = ws"
    by (simp add: nth_append map_nth)
  ultimately show "for_collect 0 (length ws)
      (\<lambda>i. bnd (lift_result (usize_sub (length vs + length ws) (length ws)))
      (\<lambda>base. slot (base + i))) s = Ok (ws, s)" by simp
  have "for_collect 0 (length ws) (\<lambda>i. bnd (lift_result (usize_sub (length vs + length ws) 1))
      (\<lambda>t. bnd (lift_result (usize_sub t i)) slot)) s =
      Ok (map (\<lambda>i. (vs @ ws) ! (length vs + length ws - 1 - i)) [0..<0 + length ws], s)"
    by (rule for_collect_pure)
      (use assms in \<open>auto simp: bnd_def lift_result_def usize_sub_def slot_Ok [of _ "vs @ ws"]\<close>)
  moreover have "map (\<lambda>i. (vs @ ws) ! (length vs + length ws - 1 - i)) [0..<length ws] = rev ws"
    by (rule nth_equalityI) (auto simp: nth_append rev_nth)
  ultimately show "for_collect 0 (length ws) (\<lambda>i. bnd (lift_result (usize_sub (length vs + length ws) 1))
      (\<lambda>t. bnd (lift_result (usize_sub t i)) slot)) s = Ok (rev ws, s)" by simp
qed

lemma wp_collect_live:
  assumes "holds s (vs @ ws)"
  shows "wp (for_collect 0 (length ws) (\<lambda>i.
      bnd (lift_result (usize_sub (length vs + length ws) (length ws))) (\<lambda>base. slot (base + i)))) Q E s = Q ws s"
    and "wp (for_collect 0 (length ws) (\<lambda>i.
      bnd (lift_result (usize_sub (length vs + length ws) (Suc 0))) (\<lambda>t. bnd (lift_result (usize_sub t i)) slot)))
      Q E s = Q (rev ws) s"
  by (simp_all add: wp_def collect_live(1) [OF assms] collect_live(2) [OF assms, simplified])

lemma popped_wp:
  assumes "holds s (vs @ ws)"
  shows "wp (pops_and_reverse (length ws)) (\<lambda>xs s'. xs = ws \<and> holds s' vs) E s"
    and "wp (pops (length ws)) (\<lambda>xs s'. xs = rev ws \<and> holds s' vs) E s"
  using holds_pointer [OF assms] holds_lowered [OF assms, of E]
  by (simp_all add: pops_and_reverse_def pops_def wp_collect_live [OF assms])

lemma import_pops:
  "get_params_for_import_call n cb = pops_and_reverse n" "get_final_results n = pops_and_reverse n"
  by (simp_all add: get_params_for_import_call_def get_final_results_def pops_and_reverse_def)

lemma tee_wp: "holds s (vs @ [v]) \<Longrightarrow> wp tee (\<lambda>x s'. x = v \<and> s' = s) E s"
  using holds_pointer [of s "vs @ [v]"] by (auto simp: tee_def usize_sub_def wp_slot)

text \<open>C30: the operand stack is the list of its live values, whatever its backing vector holds
  above them: \<open>push\<close> and \<open>pop\<close> act at the end, \<open>tee\<close> reads the last value, \<open>pops\<close> takes values
  top first and \<open>pops_and_reverse\<close> deepest first, and unwinding to a recorded height keeps
  the branch's values and drops exactly what lies between. None of them panics when its operands
  are there.\<close>

theorem stack_is_its_live_values:
  assumes "holds s (us @ ws @ rs)"
  shows "wp (push v) (\<lambda>_ s'. holds s' (us @ ws @ rs @ [v])) E s \<and>
    wp (bnd (push v) (\<lambda>_. tee)) (\<lambda>x s'. x = v \<and> holds s' (us @ ws @ rs @ [v])) E s \<and>
    wp (bnd (push v) (\<lambda>_. pop)) (\<lambda>x s'. x = v \<and> holds s' (us @ ws @ rs)) E s \<and>
    wp (pops (length rs)) (\<lambda>xs s'. xs = rev rs \<and> holds s' (us @ ws)) E s \<and>
    wp (pops_and_reverse (length rs)) (\<lambda>xs s'. xs = rs \<and> holds s' (us @ ws)) E s \<and>
    wp (truncate_by_preserving_arity (length us) (length rs)) (\<lambda>_ s'. holds s' (us @ rs)) E s"
proof (intro conjI)
  show push: "wp (push v) (\<lambda>_ s'. holds s' (us @ ws @ rs @ [v])) E s"
    using holds_push [OF assms, of v E] by simp
  show "wp (bnd (push v) (\<lambda>_. tee)) (\<lambda>x s'. x = v \<and> holds s' (us @ ws @ rs @ [v])) E s"
    unfolding wp_bnd
    by (rule wp_mono [OF push], rule wp_mono [OF tee_wp [of _ "us @ ws @ rs" v]]) auto
  show "wp (bnd (push v) (\<lambda>_. pop)) (\<lambda>x s'. x = v \<and> holds s' (us @ ws @ rs)) E s"
    unfolding wp_bnd
    by (rule wp_mono [OF push], rule wp_mono [OF holds_pop [of _ "us @ ws @ rs" v]]) auto
  show "wp (pops (length rs)) (\<lambda>xs s'. xs = rev rs \<and> holds s' (us @ ws)) E s"
    and "wp (pops_and_reverse (length rs)) (\<lambda>xs s'. xs = rs \<and> holds s' (us @ ws)) E s"
    using popped_wp [of s "us @ ws" rs E] assms by simp_all
  show "wp (truncate_by_preserving_arity (length us) (length rs)) (\<lambda>_ s'. holds s' (us @ rs)) E s"
    using assms by (rule value_stack.unwind_wp) auto
qed

text \<open>A stack whose backing vector still holds an old value above its height.\<close>

theorem stack_is_its_live_values_witness:
  "wp (truncate_by_preserving_arity 1 2) (\<lambda>_ s'. holds s' [10, 30, 40]) (\<lambda>(_ :: unit) _. False)
     \<lparr>backing = [10, 20, 30, 40, 99 :: u64], stack_pointer = 4\<rparr>"
proof -
  have "holds \<lparr>backing = [10, 20, 30, 40, 99 :: u64], stack_pointer = 4\<rparr> ([10] @ [20] @ [30, 40])"
    by (simp add: holds_def stack_inv_def live_def)
  from stack_is_its_live_values [OF this, where v = 0 and E = "\<lambda>(_ :: unit) _. False"] show ?thesis
    by (simp add: numeral_2_eq_2)
qed

section \<open>Call frames\<close>

lemma zero_of_ty_plain: "ty \<noteq> T_V128 \<Longrightarrow> zero_of_ty ty = Ok 0"
  by (cases ty) (simp_all add: from_i64_def from_f64_def)

lemma push_zeros:
  assumes "holds s vs" and "\<forall>ty \<in> set tys. ty \<noteq> T_V128"
  shows "wp (for_range 0 (length tys - p) (\<lambda>i.
       bnd (lift_result (index tys (i + p))) (\<lambda>ty. bnd (lift_result (zero_of_ty ty)) push)))
     (\<lambda>_ s'. holds s' (vs @ replicate (length tys - p) 0)) E s"
proof -
  have "wp (for_range 0 (length tys - p) (\<lambda>i.
       bnd (lift_result (index tys (i + p))) (\<lambda>ty. bnd (lift_result (zero_of_ty ty)) push)))
     (\<lambda>_ s'. holds s' (vs @ replicate (0 + (length tys - p)) 0)) E s"
  proof (rule wp_for_range)
    show "holds s (vs @ replicate 0 0)" using assms by simp
  next
    fix j t assume j: "j < 0 + (length tys - p)" and t: "holds t (vs @ replicate j 0)"
    then have "tys ! (j + p) \<noteq> T_V128" using assms(2) by simp
    with j holds_push [OF t, of 0 E]
    show "wp (bnd (lift_result (index tys (j + p))) (\<lambda>ty. bnd (lift_result (zero_of_ty ty)) push))
        (\<lambda>_ t'. holds t' (vs @ replicate (Suc j) 0)) E t"
      by (simp add: index_def replicate_append_same zero_of_ty_plain)
  qed
  then show ?thesis by simp
qed

lemma enter_frame_wp:
  assumes "holds s (vs @ args)" and "length args = p" and "p \<le> length tys"
    and "\<forall>ty \<in> set tys. ty \<noteq> T_V128" and "base_height cb = length vs"
    and "length vs + length tys \<le> U32_MAX"
  shows "wp (enter_frame p tys cb) (\<lambda>cb' s'.
      cb' = cb\<lparr>callee_frame_base_height := length vs + length tys\<rparr> \<and>
      holds s' (vs @ args @ replicate (length tys - p) 0)) E s"
  using assms wp_mono [OF push_zeros [OF assms(1,4), of p E]]
  by (simp add: enter_frame_def u32_add_def)

lemma exit_frame_wp:
  assumes "holds s (vs @ ws @ results)" and "base_height cb = length vs" and "n = length results"
  shows "wp (exit_frame n cb) (\<lambda>_ s'. holds s' (vs @ results)) E s"
  unfolding exit_frame_def using assms(1) by (rule value_stack.unwind_wp) (use assms in auto)

text \<open>C15: the calling convention. A callee finds its arguments, which the caller pushed, as its
  first locals, its declared locals zero, and its operand base above both; local \<open>i\<close> is the slot
  at its base plus \<open>i\<close>. Whatever the body leaves above its results, tearing the frame down
  restores the caller's operands with the arguments replaced by the results.\<close>

theorem calling_convention:
  assumes "operands s (vs @ args)" and "length args = p" and "p \<le> length tys"
    and "\<forall>ty \<in> set tys. ty \<noteq> T_V128" and "base_height cb = length vs"
    and "length vs + length tys \<le> U32_MAX"
  shows "wp (on_frame (enter_frame p tys cb)) (\<lambda>cb' s'. same_but_frame s s' \<and>
      callee_frame_base_height cb' = length vs + length tys \<and> base_height cb' = length vs \<and>
      operands s' (vs @ args @ replicate (length tys - p) 0) \<and>
      (\<forall>i < length tys. wp (get_local (of_nat i) (base_height cb'))
         (\<lambda>v s''. v = (if i < p then args ! i else 0) \<and> s'' = s') (\<lambda>_ _. False) s') \<and>
      (\<forall>s'' locals junk results. same_but_frame s s'' \<longrightarrow> length locals = length tys \<longrightarrow>
         operands s'' (vs @ locals @ junk @ results) \<longrightarrow>
         wp (on_frame (exit_frame (length results) cb'))
           (\<lambda>_ t. operands t (vs @ results) \<and> same_but_frame s t) E s''))
    E s"
  unfolding wp_on_field
proof (rule wp_mono [OF enter_frame_wp [OF _ assms(2-6)]], goal_cases)
  case 1
  show ?case using assms(1) by (simp add: operands_def)
next
  case (2 cb' f)
  then have cb': "callee_frame_base_height cb' = length vs + length tys" "base_height cb' = length vs"
    and f: "holds f (vs @ args @ replicate (length tys - p) 0)"
    using assms(5) by auto
  have "wp (get_local (of_nat i) (length vs)) (\<lambda>v s''. v = (if i < p then args ! i else 0) \<and> s'' = s\<lparr>frame := f\<rparr>)
      (\<lambda>_ _. False) (s\<lparr>frame := f\<rparr>)" if i: "i < length tys" for i
  proof -
    have "unat (of_nat i :: LocalIndex) = i"
      using i assms(6) by (simp add: unat_of_nat)
    then show ?thesis
      using i assms(2,3,6) f
      by (simp add: get_local_def u32_add_def wp_slot [OF f] nth_append)
  qed
  moreover have "wp (on_frame (exit_frame (length results) cb'))
      (\<lambda>_ t. operands t (vs @ results) \<and> same_but_frame s t) E s''"
    if "same_but_frame s s''" "operands s'' (vs @ locals @ junk @ results)" for s'' locals junk results
    unfolding wp_on_field
    by (rule wp_mono [OF exit_frame_wp [of _ vs "locals @ junk"]])
      (use that cb' in \<open>auto simp: operands_def\<close>)
  ultimately show ?case
    using cb' f by auto
qed simp

theorem calling_convention_witness:
  "wp (on_frame (enter_frame 2 [T_I32, T_I32, T_I64] \<lparr>base_height = 1, callee_frame_base_height = U32_MAX\<rparr>))
     (\<lambda>cb' s'. operands s' [5, 7, 8, 0] \<and> callee_frame_base_height cb' = 4) (\<lambda>(_ :: unit) _. False)
     (page_instance [5, 7, 8])"
  by (rule wp_mono [OF calling_convention [where vs = "[5]" and args = "[7, 8]"]])
    (use page_instance_at [of "[5, 7, 8]"] in \<open>auto simp: at_linear_def\<close>)

end
