(* ===== verification/ControlStack.thy ===== *)
theory ControlStack
  imports Instructions
begin

text \<open>
  The labels of \<open>instruction/mod.rs\<close> and the lowering's \<open>ControlStack\<close> (\<open>instruction/stack/mod.rs\<close>):
  the open labels, outermost first, and the running height of the operand stack, which is frozen
  while the innermost label traverses dead code.
\<close>

section \<open>Labels\<close>

datatype BlockKind =
    BK_Func
  | BK_Block
  | BK_Loop nat
  | BK_If nat "nat option"

fun is_loop :: "BlockKind \<Rightarrow> nat option" where
  "is_loop (BK_Loop i) = Some i"
| "is_loop _ = None"

record Label =
  lb_kind :: BlockKind
  lb_recorded_height :: nat
  lb_params :: nat
  lb_results :: nat
  lb_is_unreachable_traversing :: bool
  lb_has_inherited :: bool
  lb_attached_breaks :: "(nat \<times> nat) list"

fun params_and_results_from_blockty :: "BlockType \<Rightarrow> FuncType list \<Rightarrow> ('e, nat \<times> nat) result" where
  "params_and_results_from_blockty BT_Empty types = Ok (0, 0)"
| "params_and_results_from_blockty (BT_Type _) types = Ok (0, 1)"
| "params_and_results_from_blockty (BT_FuncType i) types =
     and_then (index types (unat i)) (\<lambda>ty.
       Ok (as_u32 (length (ft_params ty)), as_u32 (length (ft_results ty))))"

definition check_memory_index :: "u32 \<Rightarrow> (TraceWasmError, unit) result" where
  "check_memory_index mem = (if mem \<noteq> 0 then Err (Unsupported ''more than one memory'') else Ok ())"

section \<open>The control stack\<close>

record ControlStack =
  cs_inner :: "Label list"
  curr_height :: nat
  max_height :: nat

definition default_control_stack :: ControlStack where
  "default_control_stack = \<lparr>cs_inner = [], curr_height = 0, max_height = 0\<rparr>"

type_synonym 'a control_op = "(ControlStack, TraceWasmError, 'a) op"

definition get_curr_block :: "Label control_op" where
  "get_curr_block = bnd (gets cs_inner) (\<lambda>bs.
     if bs = [] then panic else lift_result (index bs (length bs - 1)))"

definition update_block :: "nat \<Rightarrow> (Label \<Rightarrow> Label) \<Rightarrow> unit control_op" where
  "update_block i f = bnd (gets cs_inner) (\<lambda>bs.
     bnd (lift_result (index bs i)) (\<lambda>b.
     modify (\<lambda>cs. cs\<lparr>cs_inner := bs[i := f b]\<rparr>)))"

definition get_block :: "nat \<Rightarrow> Label control_op" where
  "get_block i = bnd (gets cs_inner) (\<lambda>bs. lift_result (index bs i))"

text \<open>The block a relative depth names, \<open>len() - 1 - relative_depth\<close>.\<close>

definition block_index :: "nat \<Rightarrow> nat control_op" where
  "block_index relative_depth = bnd (gets (length o cs_inner)) (\<lambda>n.
     bnd (lift_result (usize_sub n 1)) (\<lambda>t. lift_result (usize_sub t relative_depth)))"

definition update_curr_block :: "(Label \<Rightarrow> Label) \<Rightarrow> unit control_op" where
  "update_curr_block f = bnd (gets cs_inner) (\<lambda>bs.
     if bs = [] then panic else update_block (length bs - 1) f)"

definition push_block :: "Label \<Rightarrow> unit control_op" where
  "push_block b = modify (\<lambda>cs. cs\<lparr>cs_inner := cs_inner cs @ [b]\<rparr>)"

definition recorded_height_of :: "BlockKind \<Rightarrow> nat \<Rightarrow> nat \<Rightarrow> ('e, nat) result" where
  "recorded_height_of kind h params = (case kind of
      BK_Func \<Rightarrow> Ok 0
    | BK_Block \<Rightarrow> u32_sub h params
    | BK_Loop _ \<Rightarrow> u32_sub h params
    | BK_If _ _ \<Rightarrow> and_then (u32_sub h params) (\<lambda>x. u32_sub x 1))"

definition add_block :: "BlockKind \<Rightarrow> BlockType \<Rightarrow> FuncType list \<Rightarrow> unit control_op" where
  "add_block kind blockty types =
     bnd (lift_result (params_and_results_from_blockty blockty types)) (\<lambda>(params, results).
     bnd (gets cs_inner) (\<lambda>bs.
       if bs \<noteq> [] \<and> lb_is_unreachable_traversing (last bs)
       then push_block \<lparr>lb_kind = kind, lb_recorded_height = 0, lb_params = params,
              lb_results = results, lb_is_unreachable_traversing = True,
              lb_has_inherited = True, lb_attached_breaks = []\<rparr>
       else bnd (gets curr_height) (\<lambda>h.
            bnd (lift_result (recorded_height_of kind h params)) (\<lambda>recorded_height.
            push_block \<lparr>lb_kind = kind, lb_recorded_height = recorded_height,
              lb_params = params, lb_results = results, lb_is_unreachable_traversing = False,
              lb_has_inherited = False, lb_attached_breaks = []\<rparr>))))"

definition set_unreachable_traversing :: "unit control_op" where
  "set_unreachable_traversing =
     update_curr_block (\<lambda>b. b\<lparr>lb_is_unreachable_traversing := True\<rparr>)"

definition end_unreachable_traversing :: "unit control_op" where
  "end_unreachable_traversing = update_curr_block (\<lambda>b.
     if lb_has_inherited b then b else b\<lparr>lb_is_unreachable_traversing := False\<rparr>)"

definition pop_block :: "Label option control_op" where
  "pop_block = bnd (gets cs_inner) (\<lambda>bs.
     if bs = [] then ret None
     else bnd (modify (\<lambda>cs. cs\<lparr>cs_inner := butlast bs\<rparr>)) (\<lambda>_. ret (Some (last bs))))"

definition note_height :: "nat \<Rightarrow> unit control_op" where
  "note_height h = modify (\<lambda>cs.
     cs\<lparr>curr_height := h, max_height := (if max_height cs < h then h else max_height cs)\<rparr>)"

definition set_height :: "nat \<Rightarrow> unit control_op" where
  "set_height h = bnd (gets cs_inner) (\<lambda>bs.
     if bs = [] then note_height h
     else bnd get_curr_block (\<lambda>b.
       if lb_is_unreachable_traversing b then ret () else note_height h))"

definition apply_stack_effects_to_height :: "nat \<Rightarrow> nat \<Rightarrow> unit control_op" where
  "apply_stack_effects_to_height npops npushes = bnd (gets cs_inner) (\<lambda>bs.
     if bs = [] then ret ()
     else bnd get_curr_block (\<lambda>b.
       if lb_is_unreachable_traversing b then ret ()
       else bnd (gets curr_height) (\<lambda>h.
            bnd (lift_result (u32_sub h npops)) (\<lambda>x.
            bnd (lift_result (u32_add x npushes)) note_height))))"

end
