(* ===== verification/Lowering.thy ===== *)
theory Lowering
  imports ControlStack
begin

text \<open>
  \<open>StackInstruction::emit_instructions_for_func\<close>: one pass over the operators of a function body
  that resolves every branch to an absolute instruction index, forward branches by backpatching
  at the \<open>end\<close> of the label they name. The arms of every \<open>br_table\<close> go into one flat arena.
\<close>

section \<open>State and effects\<close>

record lower_state =
  ls_instructions :: "StackInstruction list"
  ls_offsets :: "nat list"
  ls_control :: ControlStack
  ls_br_targets :: "StackBrTableTarget list"

type_synonym 'a lower_op = "(lower_state, TraceWasmError, 'a) op"

datatype StackEffectResult =
    PopPush nat nat
  | SetHeight nat
  | NoEffect
  | SE_Unreachable
  | Loads
  | Stores
  | BinaryOperator
  | UnaryOperator

abbreviation control :: "'a control_op \<Rightarrow> 'a lower_op" where
  "control m \<equiv> on_field ls_control (\<lambda>x. ls_control_update (\<lambda>_. x)) (\<lambda>e. e) m"

text \<open>\<open>instructions.len() as u32\<close>: the index the operator being lowered will get.\<close>

definition next_index :: "nat lower_op" where
  "next_index = gets (\<lambda>s. as_u32 (length (ls_instructions s)))"

type_synonym lowered = "(StackInstruction \<times> StackEffectResult) lower_op"

section \<open>Operators without control flow\<close>

fun lower_const :: "const_instr \<Rightarrow> lowered" where
  "lower_const (I32Const v) = ret (Const (I32Const v), PopPush 0 1)"
| "lower_const (I64Const v) = ret (Const (I64Const v), PopPush 0 1)"
| "lower_const (F32Const v) = ret (Const (F32Const v), PopPush 0 1)"
| "lower_const (F64Const v) = ret (Const (F64Const v), PopPush 0 1)"
| "lower_const RefNull = ret (Const RefNull, PopPush 0 1)"
| "lower_const (RefFunc f) = ret (Const (RefFunc f), PopPush 0 1)"

fun lower_memory :: "Operator \<Rightarrow> lowered" where
  "lower_memory (Op_MemorySize mem) =
     bnd (lift_result (check_memory_index mem)) (\<lambda>_. ret (MemorySize, PopPush 0 1))"
| "lower_memory (Op_MemoryGrow mem) =
     bnd (lift_result (check_memory_index mem)) (\<lambda>_. ret (MemoryGrow, PopPush 1 1))"
| "lower_memory (Op_MemoryCopy dst_mem src_mem) =
     bnd (lift_result (check_memory_index dst_mem)) (\<lambda>_.
     bnd (lift_result (check_memory_index src_mem)) (\<lambda>_. ret (MemoryCopy, PopPush 3 0)))"
| "lower_memory (Op_MemoryFill mem) =
     bnd (lift_result (check_memory_index mem)) (\<lambda>_. ret (MemoryFill, PopPush 3 0))"
| "lower_memory (Op_MemoryInit data_index mem) =
     bnd (lift_result (check_memory_index mem)) (\<lambda>_. ret (MemoryInit data_index, PopPush 3 0))"
| "lower_memory (Op_DataDrop data_index) = ret (DataDrop data_index, NoEffect)"
| "lower_memory _ = panic"

definition lower_load :: "load_op \<Rightarrow> u64 \<Rightarrow> lowered" where
  "lower_load l memarg_offset = ret (Load l (ucast memarg_offset), Loads)"

definition lower_store :: "store_op \<Rightarrow> u64 \<Rightarrow> lowered" where
  "lower_store st memarg_offset = ret (Store st (ucast memarg_offset), Stores)"

fun lower_i32 :: "numeric_instr \<Rightarrow> lowered" where
  "lower_i32 (I32Unary u) = ret (Numeric (I32Unary u), UnaryOperator)"
| "lower_i32 (I32Binary b) = ret (Numeric (I32Binary b), BinaryOperator)"
| "lower_i32 (I32Compare r) = ret (Numeric (I32Compare r), BinaryOperator)"
| "lower_i32 _ = panic"

fun lower_i64 :: "numeric_instr \<Rightarrow> lowered" where
  "lower_i64 (I64Unary u) = ret (Numeric (I64Unary u), UnaryOperator)"
| "lower_i64 (I64Binary b) = ret (Numeric (I64Binary b), BinaryOperator)"
| "lower_i64 (I64Compare r) = ret (Numeric (I64Compare r), BinaryOperator)"
| "lower_i64 _ = panic"

fun lower_f32 :: "numeric_instr \<Rightarrow> lowered" where
  "lower_f32 (F32Unary u) = ret (Numeric (F32Unary u), UnaryOperator)"
| "lower_f32 (F32Binary b) = ret (Numeric (F32Binary b), BinaryOperator)"
| "lower_f32 (F32Compare r) = ret (Numeric (F32Compare r), BinaryOperator)"
| "lower_f32 _ = panic"

fun lower_f64 :: "numeric_instr \<Rightarrow> lowered" where
  "lower_f64 (F64Unary u) = ret (Numeric (F64Unary u), UnaryOperator)"
| "lower_f64 (F64Binary b) = ret (Numeric (F64Binary b), BinaryOperator)"
| "lower_f64 (F64Compare r) = ret (Numeric (F64Compare r), BinaryOperator)"
| "lower_f64 _ = panic"

fun lower_numeric :: "numeric_instr \<Rightarrow> lowered" where
  "lower_numeric (I32Unary u) = lower_i32 (I32Unary u)"
| "lower_numeric (I32Binary b) = lower_i32 (I32Binary b)"
| "lower_numeric (I32Compare r) = lower_i32 (I32Compare r)"
| "lower_numeric (I64Unary u) = lower_i64 (I64Unary u)"
| "lower_numeric (I64Binary b) = lower_i64 (I64Binary b)"
| "lower_numeric (I64Compare r) = lower_i64 (I64Compare r)"
| "lower_numeric (F32Unary u) = lower_f32 (F32Unary u)"
| "lower_numeric (F32Binary b) = lower_f32 (F32Binary b)"
| "lower_numeric (F32Compare r) = lower_f32 (F32Compare r)"
| "lower_numeric (F64Unary u) = lower_f64 (F64Unary u)"
| "lower_numeric (F64Binary b) = lower_f64 (F64Binary b)"
| "lower_numeric (F64Compare r) = lower_f64 (F64Compare r)"

fun lower_variable :: "Operator \<Rightarrow> lowered" where
  "lower_variable (Op_LocalGet i) = ret (LocalGet i, PopPush 0 1)"
| "lower_variable (Op_LocalSet i) = ret (LocalSet i, PopPush 1 0)"
| "lower_variable (Op_LocalTee i) = ret (LocalTee i, PopPush 1 1)"
| "lower_variable (Op_GlobalGet i) = ret (GlobalGet i, PopPush 0 1)"
| "lower_variable (Op_GlobalSet i) = ret (GlobalSet i, PopPush 1 0)"
| "lower_variable _ = panic"

definition lower_call :: "FuncType list \<Rightarrow> FuncDecl list \<Rightarrow> u32 \<Rightarrow> lowered" where
  "lower_call types func_decls function_index =
     bnd (lift_result (index func_decls (unat function_index))) (\<lambda>func_decl.
     bnd (lift_result (index types (unat (fd_ty func_decl)))) (\<lambda>ty.
     ret (Call function_index (as_u32 (length (ft_params ty))),
          PopPush (as_u32 (length (ft_params ty))) (as_u32 (length (ft_results ty))))))"

definition lower_call_indirect :: "FuncType list \<Rightarrow> u32 \<Rightarrow> u32 \<Rightarrow> lowered" where
  "lower_call_indirect types type_index table_index =
     bnd (lift_result (index types (unat type_index))) (\<lambda>func_ty.
     bnd (lift_result (u32_add 1 (as_u32 (length (ft_params func_ty))))) (\<lambda>n.
     ret (CallIndirect type_index table_index,
          PopPush n (as_u32 (length (ft_results func_ty))))))"

section \<open>Labels\<close>

definition lower_block :: "FuncType list \<Rightarrow> BlockType \<Rightarrow> lowered" where
  "lower_block types blockty =
     bnd (control (add_block BK_Block blockty types)) (\<lambda>_. ret (Block, NoEffect))"

definition lower_loop :: "FuncType list \<Rightarrow> BlockType \<Rightarrow> lowered" where
  "lower_loop types blockty =
     bnd next_index (\<lambda>i.
     bnd (control (add_block (BK_Loop i) blockty types)) (\<lambda>_. ret (Loop, NoEffect)))"

definition lower_if :: "FuncType list \<Rightarrow> BlockType \<Rightarrow> lowered" where
  "lower_if types blockty =
     bnd next_index (\<lambda>i.
     bnd (control (add_block (BK_If i None) blockty types)) (\<lambda>_.
     ret (If None U32_MAX, PopPush 1 0)))"

definition lower_else :: lowered where
  "lower_else =
     bnd next_index (\<lambda>i.
     bnd (control get_curr_block) (\<lambda>b.
       case lb_kind b of
         BK_If if_index _ \<Rightarrow>
           bnd (control (update_curr_block (\<lambda>b. b\<lparr>lb_kind := BK_If if_index (Some i)\<rparr>))) (\<lambda>_.
           bnd (control end_unreachable_traversing) (\<lambda>_.
           bnd (lift_result (u32_add (lb_recorded_height b) (lb_params b))) (\<lambda>h.
           ret (Else U32_MAX, SetHeight h))))
       | _ \<Rightarrow> panic))"

section \<open>Branches\<close>

definition with_break :: "nat \<times> nat \<Rightarrow> Label \<Rightarrow> Label" where
  "with_break br b = b\<lparr>lb_attached_breaks := lb_attached_breaks b @ [br]\<rparr>"

definition attach_break :: "nat \<Rightarrow> nat \<times> nat \<Rightarrow> unit lower_op" where
  "attach_break i br = control (update_block i (with_break br))"

text \<open>The target, arity and recorded height of a branch; a forward branch is attached to its label.\<close>

definition resolve_branch :: "nat \<Rightarrow> (nat \<times> nat \<times> nat) lower_op" where
  "resolve_branch relative_depth =
     bnd (control (block_index relative_depth)) (\<lambda>bi.
     bnd (control (get_block bi)) (\<lambda>b.
     bnd next_index (\<lambda>i.
       case is_loop (lb_kind b) of
         Some loop_index \<Rightarrow> ret (loop_index, lb_params b, lb_recorded_height b)
       | None \<Rightarrow>
           bnd (attach_break bi (i, U32_MAX)) (\<lambda>_.
           ret (U32_MAX, lb_results b, lb_recorded_height b)))))"

definition lower_br :: "nat \<Rightarrow> lowered" where
  "lower_br relative_depth =
     bnd (resolve_branch relative_depth) (\<lambda>(t, a, h).
     bnd (control set_unreachable_traversing) (\<lambda>_. ret (Br t a h, SE_Unreachable)))"

definition lower_br_if :: "nat \<Rightarrow> lowered" where
  "lower_br_if relative_depth =
     bnd (resolve_branch relative_depth) (\<lambda>(t, a, h). ret (BrIf t a h, PopPush 1 0))"

definition push_br_target :: "StackBrTableTarget \<Rightarrow> unit lower_op" where
  "push_br_target t = modify (\<lambda>s. s\<lparr>ls_br_targets := ls_br_targets s @ [t]\<rparr>)"

definition lower_br_table_arm :: "nat \<Rightarrow> nat \<Rightarrow> nat \<Rightarrow> nat \<Rightarrow> unit lower_op" where
  "lower_br_table_arm i br_targets_start k relative_depth =
     bnd (control (block_index relative_depth)) (\<lambda>bi.
     bnd (control (get_block bi)) (\<lambda>b.
       case is_loop (lb_kind b) of
         Some loop_index \<Rightarrow>
           push_br_target \<lparr>bt_target_index = loop_index, bt_arity = lb_params b,
             bt_recorded_height = lb_recorded_height b\<rparr>
       | None \<Rightarrow>
           bnd (lift_result (u32_add br_targets_start (as_u32 k))) (\<lambda>abs_slot.
           bnd (attach_break bi (i, abs_slot)) (\<lambda>_.
           push_br_target \<lparr>bt_target_index = U32_MAX, bt_arity = lb_results b,
             bt_recorded_height = lb_recorded_height b\<rparr>))))"

fun lower_br_table_arms :: "nat \<Rightarrow> nat \<Rightarrow> nat \<Rightarrow> nat list \<Rightarrow> nat \<Rightarrow> nat lower_op" where
  "lower_br_table_arms i br_targets_start k [] br_targets_len = ret br_targets_len"
| "lower_br_table_arms i br_targets_start k (d # ds) br_targets_len =
     bnd (lower_br_table_arm i br_targets_start k d) (\<lambda>_.
     bnd (lift_result (u32_add br_targets_len 1)) (\<lambda>n.
     lower_br_table_arms i br_targets_start (Suc k) ds n))"

definition lower_br_table :: "string + nat list \<Rightarrow> nat \<Rightarrow> lowered" where
  "lower_br_table targets default_depth =
     (case targets of
        Inl e \<Rightarrow> fail (Parsing e)
      | Inr ds \<Rightarrow>
          bnd next_index (\<lambda>i.
          bnd (gets (\<lambda>s. as_u32 (length (ls_br_targets s)))) (\<lambda>start.
          bnd (lower_br_table_arms i start 0 (ds @ [default_depth]) 0) (\<lambda>len.
          bnd (control set_unreachable_traversing) (\<lambda>_.
          ret (BrTable start len, SE_Unreachable))))))"

definition lower_return :: lowered where
  "lower_return =
     bnd (control (get_block 0)) (\<lambda>b.
     bnd next_index (\<lambda>i.
     bnd (attach_break 0 (i, U32_MAX)) (\<lambda>_.
     bnd (control set_unreachable_traversing) (\<lambda>_.
     ret (Return U32_MAX (lb_results b) (lb_recorded_height b), SE_Unreachable)))))"

section \<open>Backpatching at \<open>end\<close>\<close>

definition set_instruction :: "nat \<Rightarrow> StackInstruction \<Rightarrow> unit lower_op" where
  "set_instruction i x = modify (\<lambda>s. s\<lparr>ls_instructions := (ls_instructions s)[i := x]\<rparr>)"

definition get_instruction :: "nat \<Rightarrow> StackInstruction lower_op" where
  "get_instruction i = bnd (gets ls_instructions) (\<lambda>xs. lift_result (index xs i))"

definition patch_break :: "nat \<Rightarrow> nat \<times> nat \<Rightarrow> unit lower_op" where
  "patch_break end_index = (\<lambda>(br_index, br_targets_index).
     bnd (get_instruction br_index) (\<lambda>instr.
       case instr of
         Br t a h \<Rightarrow> set_instruction br_index (Br end_index a h)
       | BrIf t a h \<Rightarrow> set_instruction br_index (BrIf end_index a h)
       | BrTable start len \<Rightarrow>
           bnd (gets ls_br_targets) (\<lambda>ts.
           bnd (lift_result (index ts br_targets_index)) (\<lambda>t.
           modify (\<lambda>s. s\<lparr>ls_br_targets :=
             ts[br_targets_index := t\<lparr>bt_target_index := end_index\<rparr>]\<rparr>)))
       | Return t a h \<Rightarrow> set_instruction br_index (Return end_index a h)
       | _ \<Rightarrow> panic))"

definition patch_if :: "nat \<Rightarrow> BlockKind \<Rightarrow> unit lower_op" where
  "patch_if end_index kind = (case kind of
      BK_If if_index ei \<Rightarrow>
        bnd (get_instruction if_index) (\<lambda>instr.
          case instr of
            If _ _ \<Rightarrow>
              bnd (set_instruction if_index (If ei end_index)) (\<lambda>_.
                case ei of
                  None \<Rightarrow> ret ()
                | Some else_index \<Rightarrow>
                    bnd (get_instruction else_index) (\<lambda>instr.
                      case instr of
                        Else _ \<Rightarrow> set_instruction else_index (Else end_index)
                      | _ \<Rightarrow> panic))
          | _ \<Rightarrow> panic)
    | _ \<Rightarrow> ret ())"

definition lower_end :: lowered where
  "lower_end =
     bnd (control pop_block) (\<lambda>popped.
       case popped of
         None \<Rightarrow> panic
       | Some b \<Rightarrow>
           bnd next_index (\<lambda>i.
           bnd (for_each (lb_attached_breaks b) (patch_break i)) (\<lambda>_.
           bnd (patch_if i (lb_kind b)) (\<lambda>_.
           bnd (lift_result (u32_add (lb_recorded_height b) (lb_results b))) (\<lambda>h.
           ret (End (lb_results b) (lb_recorded_height b), SetHeight h))))))"

section \<open>The pass\<close>

fun lower_operator :: "FuncType list \<Rightarrow> FuncDecl list \<Rightarrow> Operator \<Rightarrow> lowered" where
  "lower_operator types func_decls operator = (case operator of
      Op_Unreachable \<Rightarrow>
        bnd (control set_unreachable_traversing) (\<lambda>_. ret (Unreachable, NoEffect))
    | Op_Nop \<Rightarrow> ret (Nop, NoEffect)
    | Op_I32Const v \<Rightarrow> lower_const (I32Const v)
    | Op_I64Const v \<Rightarrow> lower_const (I64Const v)
    | Op_F32Const v \<Rightarrow> lower_const (F32Const v)
    | Op_F64Const v \<Rightarrow> lower_const (F64Const v)
    | Op_RefNull _ \<Rightarrow> lower_const RefNull
    | Op_RefFunc f \<Rightarrow> lower_const (RefFunc f)
    | Op_RefIsNull \<Rightarrow> ret (RefIsNull, UnaryOperator)
    | Op_Load l off \<Rightarrow> lower_load l off
    | Op_Store st off \<Rightarrow> lower_store st off
    | Op_Numeric n \<Rightarrow> lower_numeric n
    | Op_Call f \<Rightarrow> lower_call types func_decls f
    | Op_CallIndirect ty tab \<Rightarrow> lower_call_indirect types ty tab
    | Op_Select \<Rightarrow> ret (Select, PopPush 3 1)
    | Op_Drop \<Rightarrow> ret (Drop, PopPush 1 0)
    | Op_Block blockty \<Rightarrow> lower_block types blockty
    | Op_Loop blockty \<Rightarrow> lower_loop types blockty
    | Op_If blockty \<Rightarrow> lower_if types blockty
    | Op_Else \<Rightarrow> lower_else
    | Op_Br d \<Rightarrow> lower_br d
    | Op_BrIf d \<Rightarrow> lower_br_if d
    | Op_BrTable ds d \<Rightarrow> lower_br_table ds d
    | Op_Return \<Rightarrow> lower_return
    | Op_End \<Rightarrow> lower_end
    | Op_LocalGet _ \<Rightarrow> lower_variable operator
    | Op_LocalSet _ \<Rightarrow> lower_variable operator
    | Op_LocalTee _ \<Rightarrow> lower_variable operator
    | Op_GlobalGet _ \<Rightarrow> lower_variable operator
    | Op_GlobalSet _ \<Rightarrow> lower_variable operator
    | Op_MemorySize _ \<Rightarrow> lower_memory operator
    | Op_MemoryGrow _ \<Rightarrow> lower_memory operator
    | Op_MemoryCopy _ _ \<Rightarrow> lower_memory operator
    | Op_MemoryFill _ \<Rightarrow> lower_memory operator
    | Op_MemoryInit _ _ \<Rightarrow> lower_memory operator
    | Op_DataDrop _ \<Rightarrow> lower_memory operator
    | Op_Other name \<Rightarrow> fail (Unsupported name))"

declare lower_operator.simps [simp del]

fun apply_stack_effect :: "StackEffectResult \<Rightarrow> unit control_op" where
  "apply_stack_effect (PopPush npops npushes) = apply_stack_effects_to_height npops npushes"
| "apply_stack_effect Stores = apply_stack_effects_to_height 2 0"
| "apply_stack_effect BinaryOperator = apply_stack_effects_to_height 2 1"
| "apply_stack_effect (SetHeight h) = set_height h"
| "apply_stack_effect NoEffect = ret ()"
| "apply_stack_effect SE_Unreachable = ret ()"
| "apply_stack_effect UnaryOperator = ret ()"
| "apply_stack_effect Loads = ret ()"

definition emit_instruction :: "StackInstruction \<Rightarrow> usize \<Rightarrow> unit lower_op" where
  "emit_instruction instr offset =
     (if U32_MAX < offset then panic
      else modify (\<lambda>s. s\<lparr>ls_offsets := ls_offsets s @ [as_u32 offset],
                         ls_instructions := ls_instructions s @ [instr]\<rparr>))"

definition lower_step :: "FuncType list \<Rightarrow> FuncDecl list \<Rightarrow> Operator \<Rightarrow> usize \<Rightarrow> unit lower_op" where
  "lower_step types func_decls operator offset =
     bnd (lower_operator types func_decls operator) (\<lambda>(instr, effect).
     bnd (control (apply_stack_effect effect)) (\<lambda>_.
     emit_instruction instr offset))"

fun emit_loop :: "FuncType list \<Rightarrow> FuncDecl list \<Rightarrow> OperatorsReader \<Rightarrow> unit lower_op" where
  "emit_loop types func_decls [] = ret ()"
| "emit_loop types func_decls (Inl e # rest) = fail (Parsing e)"
| "emit_loop types func_decls (Inr (operator, offset) # rest) =
     bnd (lower_step types func_decls operator offset) (\<lambda>_. emit_loop types func_decls rest)"

definition func_label :: "nat \<Rightarrow> nat \<Rightarrow> Label" where
  "func_label params results = \<lparr>lb_kind = BK_Func, lb_recorded_height = 0, lb_params = params,
     lb_results = results, lb_is_unreachable_traversing = False, lb_has_inherited = False,
     lb_attached_breaks = []\<rparr>"

definition initial_lower_state :: "nat \<Rightarrow> nat \<Rightarrow> lower_state" where
  "initial_lower_state params results = \<lparr>ls_instructions = [], ls_offsets = [],
     ls_control = default_control_stack\<lparr>cs_inner := [func_label params results]\<rparr>,
     ls_br_targets = []\<rparr>"

definition emit_instructions_for_func ::
    "OperatorsReader \<Rightarrow> nat \<Rightarrow> nat \<Rightarrow> FuncType list \<Rightarrow> FuncDecl list \<Rightarrow>
     (TraceWasmError, StackInstruction list \<times> nat list \<times> StackFrameLayout) result" where
  "emit_instructions_for_func operator_reader params results types func_decls =
     (case emit_loop types func_decls operator_reader (initial_lower_state params results) of
        Ok (_, s) \<Rightarrow> Ok (ls_instructions s, ls_offsets s, \<lparr>br_targets_arena = ls_br_targets s\<rparr>)
      | Err (e, _) \<Rightarrow> Err e
      | Panic \<Rightarrow> Panic)"

section \<open>Constant expressions\<close>

fun lower_const_operator :: "Operator \<Rightarrow> (TraceWasmError, StackInstruction) result" where
  "lower_const_operator (Op_I32Const v) = Ok (Const (I32Const v))"
| "lower_const_operator (Op_I64Const v) = Ok (Const (I64Const v))"
| "lower_const_operator (Op_F32Const v) = Ok (Const (F32Const v))"
| "lower_const_operator (Op_F64Const v) = Ok (Const (F64Const v))"
| "lower_const_operator (Op_GlobalGet i) = Ok (GlobalGet i)"
| "lower_const_operator (Op_RefNull _) = Ok (Const RefNull)"
| "lower_const_operator (Op_RefFunc f) = Ok (Const (RefFunc f))"
| "lower_const_operator (Op_Numeric n) =
     (if n \<in> {I32Binary I32Add, I32Binary I32Sub, I32Binary I32Mul,
              I64Binary I64Add, I64Binary I64Sub, I64Binary I64Mul}
      then Ok (Numeric n) else Err (Unsupported ''operator in const expression stream''))"
| "lower_const_operator _ = Err (Unsupported ''operator in const expression stream'')"

fun emit_instruction_for_const_expr ::
    "OperatorsReader \<Rightarrow> (TraceWasmError, StackInstruction list) result" where
  "emit_instruction_for_const_expr [] = Ok []"
| "emit_instruction_for_const_expr (Inl e # rest) = Err (Parsing e)"
| "emit_instruction_for_const_expr (Inr (operator, _) # rest) =
     (if operator = Op_End then Ok []
      else and_then (lower_const_operator operator) (\<lambda>instr.
           and_then (emit_instruction_for_const_expr rest) (\<lambda>instrs.
           Ok (instr # instrs))))"

end
