(* ===== verification/LoweringTargets.thy ===== *)
theory LoweringTargets
  imports Lowering
begin

text \<open>
  Branch resolution. \<open>resolved xs ts bs\<close> is the invariant of the lowering pass between two
  operators: every branch emitted so far either has a target that is an \<open>end\<close> or a \<open>loop\<close> of
  the body, or is attached to an open label that will patch it. When the last label has
  closed, only the first case is left.
\<close>

section \<open>The invariant\<close>

definition is_end :: "StackInstruction \<Rightarrow> bool" where
  "is_end x = (case x of End _ _ \<Rightarrow> True | _ \<Rightarrow> False)"

definition end_at :: "StackInstruction list \<Rightarrow> nat \<Rightarrow> bool" where
  "end_at xs t \<longleftrightarrow> t < length xs \<and> is_end (xs ! t)"

definition target_ok :: "StackInstruction list \<Rightarrow> nat \<Rightarrow> bool" where
  "target_ok xs t \<longleftrightarrow> end_at xs t \<or> (t < length xs \<and> xs ! t = Loop)"

definition waits :: "Label list \<Rightarrow> nat \<Rightarrow> nat \<Rightarrow> bool" where
  "waits bs i k \<longleftrightarrow> (\<exists>b \<in> set bs. (i, k) \<in> set (lb_attached_breaks b))"

definition opened :: "Label list \<Rightarrow> BlockKind \<Rightarrow> bool" where
  "opened bs kind \<longleftrightarrow> (\<exists>b \<in> set bs. lb_kind b = kind)"

fun instr_ok :: "StackInstruction list \<Rightarrow> StackBrTableTarget list \<Rightarrow> Label list \<Rightarrow> nat \<Rightarrow>
    StackInstruction \<Rightarrow> bool" where
  "instr_ok xs ts bs i (Br t a h) = (target_ok xs t \<or> waits bs i U32_MAX)"
| "instr_ok xs ts bs i (BrIf t a h) = (target_ok xs t \<or> waits bs i U32_MAX)"
| "instr_ok xs ts bs i (Return t a h) = (end_at xs t \<or> waits bs i U32_MAX)"
| "instr_ok xs ts bs i (BrTable st n) =
     (0 < n \<and> st + n \<le> length ts \<and>
      (\<forall>k. st \<le> k \<and> k < st + n \<longrightarrow> target_ok xs (bt_target_index (ts ! k)) \<or> waits bs i k))"
| "instr_ok xs ts bs i (If e n) =
     ((end_at xs n \<and> (\<forall>k. e = Some k \<longrightarrow> k < n)) \<or> (\<exists>e'. opened bs (BK_If i e')))"
| "instr_ok xs ts bs i (Else n) = (end_at xs n \<or> (\<exists>j. opened bs (BK_If j (Some i))))"
| "instr_ok xs ts bs i _ = True"

fun break_ok :: "StackBrTableTarget list \<Rightarrow> nat \<Rightarrow> StackInstruction \<Rightarrow> bool" where
  "break_ok ts k (Br t a h) = True"
| "break_ok ts k (BrIf t a h) = True"
| "break_ok ts k (Return t a h) = True"
| "break_ok ts k (BrTable st n) = (k < length ts)"
| "break_ok ts k _ = False"

definition kind_ok :: "StackInstruction list \<Rightarrow> BlockKind \<Rightarrow> bool" where
  "kind_ok xs kind = (case kind of
      BK_Loop j \<Rightarrow> j < length xs \<and> xs ! j = Loop
    | BK_If j e \<Rightarrow> j < length xs \<and> (\<exists>e' n. xs ! j = If e' n) \<and>
        (\<forall>k. e = Some k \<longrightarrow> k < length xs \<and> (\<exists>n. xs ! k = Else n))
    | _ \<Rightarrow> True)"

definition label_ok :: "StackInstruction list \<Rightarrow> StackBrTableTarget list \<Rightarrow> Label \<Rightarrow> bool" where
  "label_ok xs ts b \<longleftrightarrow> kind_ok xs (lb_kind b) \<and>
     (\<forall>(i, k) \<in> set (lb_attached_breaks b). i < length xs \<and> break_ok ts k (xs ! i))"

definition resolved ::
    "StackInstruction list \<Rightarrow> StackBrTableTarget list \<Rightarrow> Label list \<Rightarrow> bool" where
  "resolved xs ts bs \<longleftrightarrow>
     (\<forall>i < length xs. instr_ok xs ts bs i (xs ! i)) \<and> (\<forall>b \<in> set bs. label_ok xs ts b)"

lemma end_at_append: "end_at xs t \<Longrightarrow> end_at (xs @ ys) t"
  by (simp add: end_at_def nth_append)

lemma target_ok_append: "target_ok xs t \<Longrightarrow> target_ok (xs @ ys) t"
  by (auto simp: target_ok_def end_at_append nth_append)

lemma end_at_last [simp]: "is_end x \<Longrightarrow> end_at (xs @ [x]) (length xs)"
  by (simp add: end_at_def)

lemma target_ok_loop: "kind_ok xs (BK_Loop j) \<Longrightarrow> target_ok xs j"
  by (simp add: kind_ok_def target_ok_def)

section \<open>Growing the body and the labels\<close>

text \<open>\<open>grown P bs bs'\<close>: the same labels, with attached breaks added that satisfy \<open>P\<close>.\<close>

definition grown :: "(nat \<times> nat \<Rightarrow> bool) \<Rightarrow> Label list \<Rightarrow> Label list \<Rightarrow> bool" where
  "grown P bs bs' \<longleftrightarrow> length bs' = length bs \<and>
     (\<forall>i < length bs. lb_kind (bs' ! i) = lb_kind (bs ! i) \<and>
        set (lb_attached_breaks (bs ! i)) \<subseteq> set (lb_attached_breaks (bs' ! i)) \<and>
        set (lb_attached_breaks (bs' ! i)) \<subseteq> set (lb_attached_breaks (bs ! i)) \<union> Collect P)"

lemma grown_refl [simp]: "grown P bs bs"
  by (auto simp: grown_def)

lemma grown_trans: "grown P bs bs' \<Longrightarrow> grown P bs' bs'' \<Longrightarrow> grown P bs bs''"
  unfolding grown_def by (simp; blast)

lemma grown_mono: "grown P bs bs' \<Longrightarrow> Collect P \<subseteq> Collect Q \<Longrightarrow> grown Q bs bs'"
  unfolding grown_def by blast

lemma grown_length: "grown P bs bs' \<Longrightarrow> length bs' = length bs"
  by (simp add: grown_def)

lemma grown_update:
  assumes "lb_kind b = lb_kind (bs ! i)"
    and "set (lb_attached_breaks (bs ! i)) \<subseteq> set (lb_attached_breaks b)"
    and "set (lb_attached_breaks b) \<subseteq> set (lb_attached_breaks (bs ! i)) \<union> Collect P"
  shows "grown P bs (bs[i := b])"
  unfolding grown_def
proof (intro conjI allI impI, goal_cases)
  case (2 j)
  with assms show ?case by (cases "i = j") simp_all
next
  case (3 j)
  with assms show ?case by (cases "i = j") simp_all
next
  case (4 j)
  with assms show ?case by (cases "i = j") simp_all
qed simp

lemma grownD:
  assumes "grown P bs bs'" and "b \<in> set bs"
  shows "\<exists>b' \<in> set bs'. lb_kind b' = lb_kind b \<and>
     set (lb_attached_breaks b) \<subseteq> set (lb_attached_breaks b')"
proof -
  from assms(2) obtain i where "i < length bs" "b = bs ! i" by (auto simp: in_set_conv_nth)
  with assms(1) show ?thesis by (intro bexI [of _ "bs' ! i"]) (auto simp: grown_def)
qed

lemma grownD2:
  assumes "grown P bs bs'" and "b' \<in> set bs'"
  shows "\<exists>b \<in> set bs. lb_kind b' = lb_kind b \<and>
     set (lb_attached_breaks b') \<subseteq> set (lb_attached_breaks b) \<union> Collect P"
proof -
  from assms obtain i where "i < length bs" "b' = bs' ! i"
    by (auto simp: in_set_conv_nth grown_def)
  with assms(1) show ?thesis by (intro bexI [of _ "bs ! i"]) (auto simp: grown_def)
qed

lemma grown_waits: "grown P bs bs' \<Longrightarrow> waits bs i k \<Longrightarrow> waits bs' i k"
  unfolding waits_def by (meson grownD subsetD)

lemma grown_opened: "grown P bs bs' \<Longrightarrow> opened bs kind \<Longrightarrow> opened bs' kind"
  unfolding opened_def using grownD by fastforce

lemma instr_ok_mono:
  assumes "instr_ok xs ts bs i x"
    and waits: "\<And>i k. waits bs i k \<Longrightarrow> waits bs' i k"
    and if_opened: "\<And>i e. opened bs (BK_If i e) \<Longrightarrow> \<exists>e'. opened bs' (BK_If i e')"
    and else_opened: "\<And>i j. opened bs (BK_If j (Some i)) \<Longrightarrow> opened bs' (BK_If j (Some i))"
  shows "instr_ok (xs @ ys) (ts @ us) bs' i x"
  using assms(1)
proof (cases x)
  case (BrTable st n)
  then show ?thesis
    using assms(1) by (fastforce simp: nth_append intro: target_ok_append waits)
next
  case (If e n)
  then show ?thesis
    using assms(1) by (auto intro: end_at_append if_opened)
qed (auto intro: target_ok_append end_at_append waits else_opened)

lemma break_ok_mono: "break_ok ts k x \<Longrightarrow> break_ok (ts @ us) k x"
  by (cases x) auto

lemma kind_ok_append: "kind_ok xs kind \<Longrightarrow> kind_ok (xs @ ys) kind"
  by (auto simp: kind_ok_def nth_append split: BlockKind.splits)

lemma label_ok_append: "label_ok xs ts b \<Longrightarrow> label_ok (xs @ ys) (ts @ us) b"
  by (fastforce simp: label_ok_def kind_ok_append nth_append intro: break_ok_mono)

text \<open>One instruction is emitted, with the branches it makes attached to their labels.\<close>

lemma resolved_emit:
  assumes ok: "resolved xs ts bs" and grown: "grown P bs bs'"
    and new: "instr_ok (xs @ [x]) (ts @ us) bs' (length xs) x"
    and P: "\<And>i k. P (i, k) \<Longrightarrow> i = length xs \<and> break_ok (ts @ us) k x"
  shows "resolved (xs @ [x]) (ts @ us) bs'"
  unfolding resolved_def
proof (intro conjI allI impI ballI)
  fix i assume i: "i < length (xs @ [x])"
  show "instr_ok (xs @ [x]) (ts @ us) bs' i ((xs @ [x]) ! i)"
  proof (cases "i < length xs")
    case True
    with ok have "instr_ok xs ts bs i (xs ! i)" by (simp add: resolved_def)
    then have "instr_ok (xs @ [x]) (ts @ us) bs' i (xs ! i)"
      by (rule instr_ok_mono) (auto intro: grown_waits [OF grown] grown_opened [OF grown])
    with True show ?thesis by (simp add: nth_append)
  next
    case False
    with i have "i = length xs" by simp
    with new show ?thesis by simp
  qed
next
  fix b' assume "b' \<in> set bs'"
  from grownD2 [OF grown this] obtain b where b: "b \<in> set bs" "lb_kind b' = lb_kind b"
    and att: "set (lb_attached_breaks b') \<subseteq> set (lb_attached_breaks b) \<union> Collect P"
    by blast
  from ok b(1) have lok: "label_ok xs ts b" by (simp add: resolved_def)
  then have "label_ok (xs @ [x]) (ts @ us) b" by (rule label_ok_append)
  then show "label_ok (xs @ [x]) (ts @ us) b'"
    using b(2) att P by (fastforce simp: label_ok_def)
qed

lemma resolved_emit_plain:
  "resolved xs ts bs \<Longrightarrow> grown (\<lambda>_. False) bs bs' \<Longrightarrow> instr_ok (xs @ [x]) ts bs' (length xs) x \<Longrightarrow>
     resolved (xs @ [x]) ts bs'"
  using resolved_emit [of xs ts bs "\<lambda>_. False" bs' x "[]"] by simp

lemma resolved_open:
  assumes ok: "resolved xs ts bs" and b: "label_ok (xs @ [x]) ts b"
    and new: "instr_ok (xs @ [x]) ts (bs @ [b]) (length xs) x"
  shows "resolved (xs @ [x]) ts (bs @ [b])"
proof -
  have "instr_ok (xs @ [x]) ts (bs @ [b]) i ((xs @ [x]) ! i)" if i: "i < length (xs @ [x])" for i
  proof (cases "i < length xs")
    case True
    with ok have "instr_ok xs ts bs i (xs ! i)" by (simp add: resolved_def)
    then have "instr_ok (xs @ [x]) (ts @ []) (bs @ [b]) i (xs ! i)"
      by (rule instr_ok_mono) (auto simp: waits_def opened_def)
    with True show ?thesis by (simp add: nth_append)
  next
    case False
    with i have "i = length xs" by simp
    with new show ?thesis by simp
  qed
  moreover have "label_ok (xs @ [x]) ts c" if "c \<in> set (bs @ [b])" for c
    using that b ok label_ok_append [of xs ts c "[x]" "[]"] by (auto simp: resolved_def)
  ultimately show ?thesis by (simp add: resolved_def)
qed

section \<open>What the operations do to the labels\<close>

lemma wlp_update_block [simp]:
  "wlp (update_block i f) Q cs \<longleftrightarrow>
     (i < length (cs_inner cs) \<longrightarrow> Q () (cs\<lparr>cs_inner := (cs_inner cs)[i := f (cs_inner cs ! i)]\<rparr>))"
  by (simp add: update_block_def)

lemma wlp_update_curr_block [simp]:
  "wlp (update_curr_block f) Q cs \<longleftrightarrow> (cs_inner cs \<noteq> [] \<longrightarrow>
     Q () (cs\<lparr>cs_inner := (cs_inner cs)[length (cs_inner cs) - 1 := f (last (cs_inner cs))]\<rparr>))"
  by (auto simp: update_curr_block_def last_conv_nth)

lemma wlp_get_curr_block [simp]:
  "wlp get_curr_block Q cs \<longleftrightarrow> (cs_inner cs \<noteq> [] \<longrightarrow> Q (last (cs_inner cs)) cs)"
  by (auto simp: get_curr_block_def last_conv_nth)

lemma wlp_get_block [simp]:
  "wlp (get_block i) Q cs \<longleftrightarrow> (i < length (cs_inner cs) \<longrightarrow> Q (cs_inner cs ! i) cs)"
  by (simp add: get_block_def)

lemma wlp_block_index [simp]:
  "wlp (block_index d) Q cs \<longleftrightarrow>
     (d < length (cs_inner cs) \<longrightarrow> Q (length (cs_inner cs) - 1 - d) cs)"
  by (auto simp: block_index_def usize_sub_def)

lemma wlp_next_index [simp]: "wlp next_index Q s \<longleftrightarrow> Q (as_u32 (length (ls_instructions s))) s"
  by (simp add: next_index_def)

lemma with_break_simps [simp]:
  "lb_kind (with_break p b) = lb_kind b"
  "lb_params (with_break p b) = lb_params b"
  "lb_results (with_break p b) = lb_results b"
  "lb_recorded_height (with_break p b) = lb_recorded_height b"
  "lb_is_unreachable_traversing (with_break p b) = lb_is_unreachable_traversing b"
  "lb_has_inherited (with_break p b) = lb_has_inherited b"
  "lb_attached_breaks (with_break p b) = lb_attached_breaks b @ [p]"
  by (simp_all add: with_break_def)

lemma wlp_attach_break [simp]:
  "wlp (attach_break i br) Q s \<longleftrightarrow> (i < length (cs_inner (ls_control s)) \<longrightarrow>
     Q () (s\<lparr>ls_control := ls_control s\<lparr>cs_inner := (cs_inner (ls_control s))
       [i := with_break br (cs_inner (ls_control s) ! i)]\<rparr>\<rparr>))"
  by (simp add: attach_break_def)

lemma wlp_set_unreachable_traversing:
  "wlp set_unreachable_traversing
     (\<lambda>_ cs'. grown (\<lambda>_. False) (cs_inner cs) (cs_inner cs')) cs"
  by (auto simp: set_unreachable_traversing_def last_conv_nth intro!: grown_update)

lemma grown_False: "grown (\<lambda>_. False) bs bs' \<Longrightarrow> grown P bs bs'"
  by (rule grown_mono) auto

lemma waits_update:
  "i < length bs \<Longrightarrow> waits (bs[i := with_break (j, k) (bs ! i)]) j k"
  unfolding waits_def by (rule bexI [OF _ set_update_memI]) auto

lemma grown_attach:
  "P p \<Longrightarrow> grown P bs (bs[i := with_break p (bs ! i)])"
  by (rule grown_update) auto

section \<open>Operators that keep the labels\<close>

text \<open>Everything the invariant speaks of, with one instruction about to be emitted.\<close>

definition emits :: "lower_state \<Rightarrow> nat \<Rightarrow> StackInstruction \<Rightarrow> lower_state \<Rightarrow> bool" where
  "emits s n x s' \<longleftrightarrow> length (ls_instructions s') = length (ls_instructions s) \<and>
     length (ls_br_targets s') = length (ls_br_targets s) + n \<and>
     ls_offsets s' = ls_offsets s \<and>
     resolved (ls_instructions s' @ [x]) (ls_br_targets s') (cs_inner (ls_control s'))"

definition resolved_state :: "lower_state \<Rightarrow> bool" where
  "resolved_state s \<longleftrightarrow> resolved (ls_instructions s) (ls_br_targets s) (cs_inner (ls_control s))"

definition plain :: "StackInstruction \<Rightarrow> bool" where
  "plain x \<longleftrightarrow> (\<forall>xs ts bs i. instr_ok xs ts bs i x)"

lemma plain_simps [simp]:
  "plain Unreachable" "plain Nop" "plain (Const c)" "plain RefIsNull" "plain MemorySize"
  "plain MemoryGrow" "plain MemoryCopy" "plain MemoryFill" "plain (MemoryInit d)"
  "plain (DataDrop d)" "plain (Load l off)" "plain (Store st off)" "plain (Numeric n)"
  "plain (LocalGet i)" "plain (LocalSet i)" "plain (LocalTee i)" "plain (GlobalGet g)"
  "plain (GlobalSet g)" "plain (Call f m)" "plain (CallIndirect ty tab)" "plain Drop"
  "plain Select" "plain Block" "plain Loop" "plain (End a h)"
  by (simp_all add: plain_def)

lemma emits_plain:
  assumes "resolved_state s" "plain x"
    and "ls_instructions s' = ls_instructions s" "ls_br_targets s' = ls_br_targets s"
    and "ls_offsets s' = ls_offsets s"
    and "grown (\<lambda>_. False) (cs_inner (ls_control s)) (cs_inner (ls_control s'))"
  shows "emits s 0 x s'"
  using assms by (auto simp: emits_def resolved_state_def plain_def intro: resolved_emit_plain)

definition simple_lowering :: "lowered \<Rightarrow> bool" where
  "simple_lowering m \<longleftrightarrow> (\<forall>s. wlp m (\<lambda>(x, eff) s'. s' = s \<and> plain x) s)"

lemma simple_lowerings:
  "simple_lowering (lower_const c)" "simple_lowering (lower_load l off)"
  "simple_lowering (lower_store st off)" "simple_lowering (lower_numeric n)"
  "simple_lowering (lower_call types decls f)" "simple_lowering (lower_call_indirect types ty tab)"
  by (cases c; simp add: simple_lowering_def)
    (simp add: simple_lowering_def lower_load_def lower_store_def lower_call_def
      lower_call_indirect_def | cases n; simp add: simple_lowering_def)+

lemma simple_memory: "simple_lowering (lower_memory operator)"
  by (cases operator) (simp_all add: simple_lowering_def)

lemma simple_variable: "simple_lowering (lower_variable operator)"
  by (cases operator) (simp_all add: simple_lowering_def)

lemma simple_lowering_emits:
  "simple_lowering m \<Longrightarrow> resolved_state s \<Longrightarrow> wlp m (\<lambda>(x, eff) s'. emits s 0 x s') s"
  unfolding simple_lowering_def
  by (erule allE [of _ s], erule wlp_mono) (auto intro: emits_plain)

section \<open>Branches\<close>

lemma resolved_loop_target:
  assumes "resolved xs ts bs" "b \<in> set bs" "is_loop (lb_kind b) = Some j"
  shows "target_ok xs j"
proof -
  from assms(3) have "lb_kind b = BK_Loop j" by (cases "lb_kind b") auto
  with assms(1,2) have "kind_ok xs (BK_Loop j)"
    by (force simp: resolved_def label_ok_def)
  then show ?thesis by (rule target_ok_loop)
qed

lemma resolve_branch_targets:
  assumes ok: "resolved_state s" and len: "length (ls_instructions s) \<le> U32_MAX"
  shows "wlp (resolve_branch d) (\<lambda>(t, a, h) s'.
     (\<exists>bs'. s' = s\<lparr>ls_control := ls_control s\<lparr>cs_inner := bs'\<rparr>\<rparr> \<and>
        grown (\<lambda>p. p = (length (ls_instructions s), U32_MAX)) (cs_inner (ls_control s)) bs' \<and>
        (target_ok (ls_instructions s) t \<or> waits bs' (length (ls_instructions s)) U32_MAX))) s"
proof -
  let ?bs = "cs_inner (ls_control s)" and ?bi = "length (cs_inner (ls_control s)) - 1 - d"
  show ?thesis
  proof (cases "is_loop (lb_kind (?bs ! ?bi))")
    case None
    then show ?thesis
      using len by (auto simp: resolve_branch_def intro!: exI waits_update grown_attach)
  next
    case (Some j)
    then have "target_ok (ls_instructions s) j" if "d < length ?bs"
      using that ok unfolding resolved_state_def
      by (intro resolved_loop_target [where b = "?bs ! ?bi"]) auto
    with Some show ?thesis
      by (auto simp: resolve_branch_def intro!: exI [of _ ?bs])
  qed
qed

lemma emits_branch:
  assumes "resolved_state s"
    and "grown (\<lambda>p. p = (length (ls_instructions s), U32_MAX)) (cs_inner (ls_control s)) bs'"
    and "instr_ok (ls_instructions s @ [x]) (ls_br_targets s) bs' (length (ls_instructions s)) x"
    and "break_ok (ls_br_targets s) U32_MAX x"
    and "ls_instructions s' = ls_instructions s" "ls_br_targets s' = ls_br_targets s"
    and "ls_offsets s' = ls_offsets s" "cs_inner (ls_control s') = bs'"
  shows "emits s 0 x s'"
  using assms
    resolved_emit [of "ls_instructions s" "ls_br_targets s" "cs_inner (ls_control s)"
      "\<lambda>p. p = (length (ls_instructions s), U32_MAX)" bs' x "[]"]
  by (simp add: emits_def resolved_state_def)

lemma wlp_set_unreachable_grown:
  assumes "\<And>bs'. grown (\<lambda>_. False) (cs_inner cs) bs' \<Longrightarrow> Q () (cs\<lparr>cs_inner := bs'\<rparr>)"
  shows "wlp set_unreachable_traversing Q cs"
  unfolding set_unreachable_traversing_def wlp_update_curr_block
proof
  assume "cs_inner cs \<noteq> []"
  then show "Q () (cs\<lparr>cs_inner := (cs_inner cs)[length (cs_inner cs) - 1 :=
      last (cs_inner cs)\<lparr>lb_is_unreachable_traversing := True\<rparr>]\<rparr>)"
    by (intro assms grown_update) (auto simp: last_conv_nth)
qed

lemma lower_br_targets:
  assumes "resolved_state s" "length (ls_instructions s) \<le> U32_MAX"
  shows "wlp (lower_br d) (\<lambda>(x, eff) s'. emits s 0 x s') s"
  unfolding lower_br_def wlp_bnd
proof (rule wlp_mono [OF resolve_branch_targets [OF assms]], goal_cases)
  case (1 r s')
  let ?xs = "ls_instructions s" and ?bs = "cs_inner (ls_control s)"
  from 1 obtain t a h bs' where r: "r = (t, a, h)"
    and s': "s' = s\<lparr>ls_control := ls_control s\<lparr>cs_inner := bs'\<rparr>\<rparr>"
    and grown: "grown (\<lambda>p. p = (length ?xs, U32_MAX)) ?bs bs'"
    and t: "target_ok ?xs t \<or> waits bs' (length ?xs) U32_MAX"
    by (cases r) auto
  have "emits s 0 (Br t a h) (s\<lparr>ls_control := ls_control s\<lparr>cs_inner := bs''\<rparr>\<rparr>)"
    if bs'': "grown (\<lambda>_. False) bs' bs''" for bs''
  proof (rule emits_branch [OF assms(1) grown_trans [OF grown grown_False [OF bs'']]])
    show "instr_ok (?xs @ [Br t a h]) (ls_br_targets s) bs'' (length ?xs) (Br t a h)"
      using t grown_waits [OF bs''] target_ok_append by auto
  qed simp_all
  then show ?case
    by (auto simp: r s' intro!: wlp_set_unreachable_grown)
qed

lemma lower_br_if_targets:
  assumes "resolved_state s" "length (ls_instructions s) \<le> U32_MAX"
  shows "wlp (lower_br_if d) (\<lambda>(x, eff) s'. emits s 0 x s') s"
  unfolding lower_br_if_def wlp_bnd
proof (rule wlp_mono [OF resolve_branch_targets [OF assms]], goal_cases)
  case (1 r s')
  let ?xs = "ls_instructions s" and ?bs = "cs_inner (ls_control s)"
  from 1 obtain t a h bs' where r: "r = (t, a, h)"
    and s': "s' = s\<lparr>ls_control := ls_control s\<lparr>cs_inner := bs'\<rparr>\<rparr>"
    and grown: "grown (\<lambda>p. p = (length ?xs, U32_MAX)) ?bs bs'"
    and t: "target_ok ?xs t \<or> waits bs' (length ?xs) U32_MAX"
    by (cases r) auto
  have "emits s 0 (BrIf t a h) (s\<lparr>ls_control := ls_control s\<lparr>cs_inner := bs'\<rparr>\<rparr>)"
  proof (rule emits_branch [OF assms(1) grown])
    show "instr_ok (?xs @ [BrIf t a h]) (ls_br_targets s) bs' (length ?xs) (BrIf t a h)"
      using t target_ok_append by auto
  qed simp_all
  then show ?case by (simp add: r s')
qed

lemma lower_return_targets:
  assumes "resolved_state s" "length (ls_instructions s) \<le> U32_MAX"
  shows "wlp lower_return (\<lambda>(x, eff) s'. emits s 0 x s') s"
proof -
  let ?xs = "ls_instructions s" and ?bs = "cs_inner (ls_control s)"
  let ?P = "\<lambda>p. p = (length ?xs, U32_MAX)"
  let ?bs' = "?bs[0 := with_break (length ?xs, U32_MAX) (?bs ! 0)]"
  have emits: "emits s 0 (Return U32_MAX a h) (s\<lparr>ls_control := ls_control s\<lparr>cs_inner := bs''\<rparr>\<rparr>)"
    if "?bs \<noteq> []" and bs'': "grown (\<lambda>_. False) ?bs' bs''" for a h bs''
  proof -
    have bs': "grown ?P ?bs ?bs'" by (rule grown_attach) simp
    have "waits ?bs' (length ?xs) U32_MAX" using that(1) by (intro waits_update) simp
    with bs'' have w: "waits bs'' (length ?xs) U32_MAX" by (rule grown_waits)
    show ?thesis
      by (rule emits_branch [OF assms(1) grown_trans [OF bs' grown_False [OF bs'']]])
        (use w in simp_all)
  qed
  show ?thesis
    using assms(2) by (auto simp: lower_return_def intro!: wlp_set_unreachable_grown emits)
qed

section \<open>The arms of a \<open>br_table\<close>\<close>

text \<open>
  After \<open>m\<close> arms: the arena has grown by \<open>m\<close> targets, each a loop or waiting at the label it
  is attached to under its slot in the arena.
\<close>

definition arms_inv :: "lower_state \<Rightarrow> nat \<Rightarrow> lower_state \<Rightarrow> bool" where
  "arms_inv s m s' \<longleftrightarrow> (\<exists>us bs'.
     s' = s\<lparr>ls_br_targets := ls_br_targets s @ us, ls_control := ls_control s\<lparr>cs_inner := bs'\<rparr>\<rparr> \<and>
     length us = m \<and>
     grown (\<lambda>(i, k). i = length (ls_instructions s) \<and> k < length (ls_br_targets s) + m)
       (cs_inner (ls_control s)) bs' \<and>
     (\<forall>k < m. target_ok (ls_instructions s) (bt_target_index (us ! k)) \<or>
        waits bs' (length (ls_instructions s)) (length (ls_br_targets s) + k)))"

lemma arms_inv_0: "arms_inv s 0 s"
  unfolding arms_inv_def by (rule exI [of _ "[]"], rule exI [of _ "cs_inner (ls_control s)"]) simp

lemma arm_step:
  assumes ok: "resolved_state s" and inv: "arms_inv s m s'"
    and bound: "length (ls_br_targets s) + m < U32_MAX"
  shows "wlp (lower_br_table_arm (length (ls_instructions s)) (length (ls_br_targets s)) m d)
     (\<lambda>_ s''. arms_inv s (Suc m) s'') s'"
proof -
  let ?xs = "ls_instructions s" and ?ts = "ls_br_targets s" and ?bs = "cs_inner (ls_control s)"
  from inv obtain us bs' where
    s': "s' = s\<lparr>ls_br_targets := ?ts @ us, ls_control := ls_control s\<lparr>cs_inner := bs'\<rparr>\<rparr>"
    and m: "length us = m"
    and grown: "grown (\<lambda>(i, k). i = length ?xs \<and> k < length ?ts + m) ?bs bs'"
    and arms: "\<And>k. k < m \<Longrightarrow> target_ok ?xs (bt_target_index (us ! k)) \<or>
        waits bs' (length ?xs) (length ?ts + k)"
    unfolding arms_inv_def by blast
  let ?bi = "length bs' - 1 - d"
  let ?b = "bs' ! ?bi"
  have grown': "grown (\<lambda>(i, k). i = length ?xs \<and> k < length ?ts + Suc m) ?bs bs'"
    using grown by (rule grown_mono) auto
  show ?thesis
  proof (cases "is_loop (lb_kind ?b)")
    case (Some j)
    let ?t = "\<lparr>bt_target_index = j, bt_arity = lb_params ?b, bt_recorded_height = lb_recorded_height ?b\<rparr>"
    have "arms_inv s (Suc m) (s'\<lparr>ls_br_targets := ls_br_targets s' @ [?t]\<rparr>)" if d: "d < length bs'"
    proof -
      from d have "?b \<in> set bs'" by simp
      with grownD2 [OF grown] obtain b where "b \<in> set ?bs" "lb_kind ?b = lb_kind b" by metis
      with ok Some have j: "target_ok ?xs j"
        by (auto simp: resolved_state_def intro: resolved_loop_target)
      show ?thesis
        unfolding arms_inv_def
        by (rule exI [of _ "us @ [?t]"], rule exI [of _ bs'])
          (use m grown' arms j in \<open>auto simp: s' nth_append less_Suc_eq\<close>)
    qed
    then show ?thesis
      using Some by (auto simp: lower_br_table_arm_def push_br_target_def s')
  next
    case None
    let ?t = "\<lparr>bt_target_index = U32_MAX, bt_arity = lb_results ?b,
        bt_recorded_height = lb_recorded_height ?b\<rparr>"
    let ?p = "(length ?xs, length ?ts + m)"
    let ?bs'' = "bs'[?bi := with_break ?p ?b]"
    have "arms_inv s (Suc m) (s'\<lparr>ls_control := ls_control s'\<lparr>cs_inner := ?bs''\<rparr>,
        ls_br_targets := ls_br_targets s' @ [?t]\<rparr>)" if d: "d < length bs'"
    proof -
      have g: "grown (\<lambda>(i, k). i = length ?xs \<and> k < length ?ts + Suc m) bs' ?bs''"
        by (rule grown_attach) simp
      have w: "waits ?bs'' (length ?xs) (length ?ts + m)"
        using d by (intro waits_update) simp
      have "target_ok ?xs (bt_target_index (us ! k)) \<or> waits ?bs'' (length ?xs) (length ?ts + k)"
        if "k < m" for k
        using arms [OF that] grown_waits [OF g] by blast
      then show ?thesis
        unfolding arms_inv_def
        by (intro exI [of _ "us @ [?t]"] exI [of _ ?bs''])
          (use m grown_trans [OF grown' g] w in \<open>auto simp: s' nth_append less_Suc_eq\<close>)
    qed
    then show ?thesis
      using None bound by (auto simp: lower_br_table_arm_def push_br_target_def s' u32_add_def)
  qed
qed

lemma arms_loop:
  assumes ok: "resolved_state s" and inv: "arms_inv s m s'"
    and bound: "length (ls_br_targets s) + m + length ds \<le> U32_MAX"
  shows "wlp (lower_br_table_arms (length (ls_instructions s)) (length (ls_br_targets s)) m ds m)
     (\<lambda>n s''. n = m + length ds \<and> arms_inv s (m + length ds) s'') s'"
  using inv bound
proof (induction ds arbitrary: m s')
  case Nil
  then show ?case by simp
next
  case (Cons d ds)
  have "wlp (lower_br_table_arm (length (ls_instructions s)) (length (ls_br_targets s)) m d)
     (\<lambda>_ s''. arms_inv s (Suc m) s'') s'"
    by (rule arm_step [OF ok Cons.prems(1)]) (use Cons.prems(2) in simp)
  then show ?case
    unfolding lower_br_table_arms.simps wlp_bnd
  proof (rule wlp_mono)
    fix a s''
    assume "arms_inv s (Suc m) s''"
    from Cons.IH [OF this] Cons.prems(2)
    show "wlp (lift_result (u32_add m 1)) (\<lambda>n. wlp (lower_br_table_arms
        (length (ls_instructions s)) (length (ls_br_targets s)) (Suc m) ds n)
       (\<lambda>n s''. n = m + length (d # ds) \<and> arms_inv s (m + length (d # ds)) s'')) s''"
      by (auto simp: u32_add_def)
  qed
qed

lemma emits_table:
  assumes ok: "resolved_state s" and inv: "arms_inv s m s'" and m: "0 < m"
    and g: "grown (\<lambda>_. False) (cs_inner (ls_control s')) bs''"
  shows "emits s m (BrTable (length (ls_br_targets s)) m)
    (s'\<lparr>ls_control := ls_control s'\<lparr>cs_inner := bs''\<rparr>\<rparr>)"
proof -
  let ?xs = "ls_instructions s" and ?ts = "ls_br_targets s" and ?bs = "cs_inner (ls_control s)"
  from inv obtain us bs' where
    s': "s' = s\<lparr>ls_br_targets := ?ts @ us, ls_control := ls_control s\<lparr>cs_inner := bs'\<rparr>\<rparr>"
    and len: "length us = m"
    and grown: "grown (\<lambda>(i, k). i = length ?xs \<and> k < length ?ts + m) ?bs bs'"
    and arms: "\<And>k. k < m \<Longrightarrow> target_ok ?xs (bt_target_index (us ! k)) \<or>
        waits bs' (length ?xs) (length ?ts + k)"
    unfolding arms_inv_def by blast
  let ?x = "BrTable (length ?ts) m"
  have g': "grown (\<lambda>_. False) bs' bs''" using g by (simp add: s')
  have "target_ok (?xs @ [?x]) (bt_target_index ((?ts @ us) ! k)) \<or> waits bs'' (length ?xs) k"
    if k: "length ?ts \<le> k" "k < length ?ts + m" for k
  proof -
    from k have "k - length ?ts < m" by linarith
    from arms [OF this] k show ?thesis
      by (auto simp: nth_append intro: target_ok_append grown_waits [OF g'])
  qed
  then have "resolved (?xs @ [?x]) (?ts @ us) bs''"
    using ok m len
    by (intro resolved_emit [OF _ grown_trans [OF grown grown_False [OF g']]])
      (auto simp: resolved_state_def)
  then show ?thesis by (simp add: emits_def s' len)
qed

lemma lower_br_table_targets:
  assumes "resolved_state s" "length (ls_instructions s) \<le> U32_MAX"
    and "\<And>ds. targets = Inr ds \<Longrightarrow> length (ls_br_targets s) + length ds + 1 \<le> U32_MAX"
  shows "wlp (lower_br_table targets def)
    (\<lambda>(x, eff) s'. \<forall>ds. targets = Inr ds \<longrightarrow> emits s (length ds + 1) x s') s"
proof (cases targets)
  case (Inl e)
  then show ?thesis by (simp add: lower_br_table_def)
next
  case (Inr ds)
  have "wlp (lower_br_table_arms (length (ls_instructions s)) (length (ls_br_targets s)) 0 (ds @ [def]) 0)
     (\<lambda>n s''. n = 0 + length (ds @ [def]) \<and> arms_inv s (0 + length (ds @ [def])) s'') s"
    by (rule arms_loop [OF assms(1) arms_inv_0]) (use assms(3) [OF Inr] in simp)
  then have "wlp (lower_br_table_arms (length (ls_instructions s)) (length (ls_br_targets s)) 0 (ds @ [def]) 0)
     (\<lambda>n. wlp (control set_unreachable_traversing)
       (\<lambda>_ s'. emits s (length ds + 1) (BrTable (length (ls_br_targets s)) n) s')) s"
    by (rule wlp_mono) (auto intro!: wlp_set_unreachable_grown emits_table [OF assms(1)])
  moreover have "length (ls_br_targets s) \<le> U32_MAX" using assms(3) [OF Inr] by simp
  ultimately show ?thesis
    using Inr assms(2) by (simp add: lower_br_table_def)
qed

section \<open>Opening labels\<close>

lemma wlp_add_block:
  assumes "\<And>b. lb_kind b = kind \<Longrightarrow> lb_attached_breaks b = [] \<Longrightarrow>
      Q () (cs\<lparr>cs_inner := cs_inner cs @ [b]\<rparr>)"
  shows "wlp (add_block kind blockty types) Q cs"
  using assms by (auto simp: add_block_def push_block_def)

lemma lower_block_targets:
  assumes "resolved_state s"
  shows "wlp (lower_block types blockty) (\<lambda>(x, eff) s'. emits s 0 x s') s"
  using assms
  by (auto simp: lower_block_def emits_def resolved_state_def label_ok_def kind_ok_def
      intro!: wlp_add_block resolved_open)

lemma lower_loop_targets:
  assumes "resolved_state s" "length (ls_instructions s) \<le> U32_MAX"
  shows "wlp (lower_loop types blockty) (\<lambda>(x, eff) s'. emits s 0 x s') s"
  using assms
  by (auto simp: lower_loop_def emits_def resolved_state_def label_ok_def kind_ok_def
      intro!: wlp_add_block resolved_open)

lemma opened_snoc: "lb_kind b = kind \<Longrightarrow> opened (bs @ [b]) kind"
  by (simp add: opened_def)

lemma lower_if_targets:
  assumes "resolved_state s" "length (ls_instructions s) \<le> U32_MAX"
  shows "wlp (lower_if types blockty) (\<lambda>(x, eff) s'. emits s 0 x s') s"
  using assms
  by (auto simp: lower_if_def emits_def resolved_state_def label_ok_def kind_ok_def
      intro!: wlp_add_block resolved_open disjI2 exI [of _ "None :: nat option"] opened_snoc)

lemma resolved_else:
  assumes ok: "resolved xs ts (bs @ [b])" and b: "lb_kind b = BK_If j None"
    and b': "lb_kind b' = BK_If j (Some (length xs))" "lb_attached_breaks b' = lb_attached_breaks b"
  shows "resolved (xs @ [Else n]) ts (bs @ [b'])"
proof -
  let ?xs = "xs @ [Else n]"
  have "instr_ok ?xs ts (bs @ [b']) i (?xs ! i)" if i: "i < length ?xs" for i
  proof (cases "i < length xs")
    case True
    with ok have "instr_ok xs ts (bs @ [b]) i (xs ! i)" by (simp add: resolved_def)
    then have "instr_ok ?xs (ts @ []) (bs @ [b']) i (xs ! i)"
    proof (rule instr_ok_mono)
      show "waits (bs @ [b']) i k" if "waits (bs @ [b]) i k" for i k
        using that b' by (auto simp: waits_def)
      show "\<exists>e. opened (bs @ [b']) (BK_If i e)" if "opened (bs @ [b]) (BK_If i e)" for i e
        using that b b' by (auto simp: opened_def)
      show "opened (bs @ [b']) (BK_If j' (Some i))" if "opened (bs @ [b]) (BK_If j' (Some i))" for i j'
        using that b by (auto simp: opened_def)
    qed
    with True show ?thesis by (simp add: nth_append)
  next
    case False
    with i have "i = length xs" by simp
    with b' show ?thesis by (auto simp: opened_def)
  qed
  moreover have "label_ok ?xs ts c" if "c \<in> set (bs @ [b'])" for c
  proof (cases "c = b'")
    case True
    have "label_ok xs ts b" using ok by (simp add: resolved_def)
    then have "label_ok ?xs (ts @ []) b" by (rule label_ok_append)
    with b b' True show ?thesis by (auto simp: label_ok_def kind_ok_def)
  next
    case False
    with that ok have "label_ok xs ts c" by (auto simp: resolved_def)
    then show ?thesis using label_ok_append [of xs ts c "[Else n]" "[]"] by simp
  qed
  ultimately show ?thesis by (simp add: resolved_def)
qed

lemma lower_else_targets:
  assumes "resolved_state s" "length (ls_instructions s) \<le> U32_MAX"
    and kind: "lb_kind (last (cs_inner (ls_control s))) = BK_If j None"
  shows "wlp lower_else (\<lambda>(x, eff) s'. emits s 0 x s') s"
proof (cases "cs_inner (ls_control s) = []")
  case True
  then show ?thesis by (simp add: lower_else_def)
next
  case False
  then obtain bs b where bs: "cs_inner (ls_control s) = bs @ [b]"
    by (metis append_butlast_last_id)
  have "resolved (ls_instructions s @ [Else n]) (ls_br_targets s) (bs @ [b'])"
    if "lb_kind b' = BK_If j (Some (length (ls_instructions s)))"
      "lb_attached_breaks b' = lb_attached_breaks b" for n b'
    by (rule resolved_else [OF _ _ that]) (use assms bs in \<open>auto simp: resolved_state_def\<close>)
  with assms bs show ?thesis
    by (auto simp: lower_else_def end_unreachable_traversing_def emits_def)
qed

section \<open>Closing a label\<close>

text \<open>What an instruction is, apart from the targets that backpatching fills in.\<close>

fun shape :: "StackInstruction \<Rightarrow> StackInstruction" where
  "shape (Br t a h) = Br 0 a h"
| "shape (BrIf t a h) = BrIf 0 a h"
| "shape (Return t a h) = Return 0 a h"
| "shape (If e n) = If None 0"
| "shape (Else n) = Else 0"
| "shape x = x"

fun retarget :: "nat \<Rightarrow> StackInstruction \<Rightarrow> StackInstruction" where
  "retarget n (Br t a h) = Br n a h"
| "retarget n (BrIf t a h) = BrIf n a h"
| "retarget n (Return t a h) = Return n a h"
| "retarget n x = x"

definition is_table :: "StackInstruction \<Rightarrow> bool" where
  "is_table x = (case x of BrTable _ _ \<Rightarrow> True | _ \<Rightarrow> False)"

lemma shape_retarget [simp]: "shape (retarget n x) = shape x"
  by (cases x) auto

lemma shape_iffs:
  "shape x = Loop \<longleftrightarrow> x = Loop"
  "shape x = End a h \<longleftrightarrow> x = End a h"
  "shape x = BrTable st m \<longleftrightarrow> x = BrTable st m"
  "shape x = If None 0 \<longleftrightarrow> (\<exists>e n. x = If e n)"
  "shape x = Else 0 \<longleftrightarrow> (\<exists>n. x = Else n)"
  by (cases x; auto)+

lemma is_end_shape: "is_end (shape x) = is_end x"
  by (cases x) (auto simp: is_end_def)

lemma break_ok_shape: "length ts = length us \<Longrightarrow> break_ok ts k (shape x) = break_ok us k x"
  by (cases x) auto

definition patched :: "nat \<Rightarrow> (nat \<times> nat) list \<Rightarrow> StackInstruction list \<Rightarrow> StackBrTableTarget list \<Rightarrow>
    StackInstruction list \<Rightarrow> StackBrTableTarget list \<Rightarrow> bool" where
  "patched n att xs ts xs' ts' \<longleftrightarrow> length xs' = length xs \<and> length ts' = length ts \<and>
     (\<forall>j < length xs. xs' ! j = (if j \<in> fst ` set att then retarget n (xs ! j) else xs ! j)) \<and>
     (\<forall>k < length ts. ts' ! k =
        (if \<exists>j. (j, k) \<in> set att \<and> is_table (xs ! j) then (ts ! k)\<lparr>bt_target_index := n\<rparr> else ts ! k))"

lemma retarget_twice [simp]: "retarget n (retarget n x) = retarget n x"
  by (cases x) auto

lemma is_table_retarget [simp]: "is_table (retarget n x) = is_table x"
  by (cases x) (auto simp: is_table_def)

lemma break_ok_retarget [simp]: "break_ok ts k (retarget n x) = break_ok ts k x"
  by (cases x) auto

lemma break_ok_length: "length ts = length us \<Longrightarrow> break_ok ts k x = break_ok us k x"
  by (cases x) auto

lemma update_same: "xs ! j = x \<Longrightarrow> xs[j := x] = xs"
  by auto

lemma patch_one:
  assumes "j < length (ls_instructions s)" "break_ok (ls_br_targets s) k (ls_instructions s ! j)"
  shows "wp (patch_break n (j, k)) (\<lambda>_ s'. s' = s\<lparr>
      ls_instructions := (ls_instructions s)[j := retarget n (ls_instructions s ! j)],
      ls_br_targets := (if is_table (ls_instructions s ! j)
        then (ls_br_targets s)[k := (ls_br_targets s ! k)\<lparr>bt_target_index := n\<rparr>]
        else ls_br_targets s)\<rparr>) E s"
  using assms
  by (cases "ls_instructions s ! j")
    (auto simp: patch_break_def get_instruction_def set_instruction_def index_def is_table_def
      update_same)

lemma patch_breaks:
  assumes "\<And>j k. (j, k) \<in> set att \<Longrightarrow>
      j < length (ls_instructions s) \<and> break_ok (ls_br_targets s) k (ls_instructions s ! j)"
  shows "wp (for_each att (patch_break n)) (\<lambda>_ s'. \<exists>xs' ts'.
      s' = s\<lparr>ls_instructions := xs', ls_br_targets := ts'\<rparr> \<and>
      patched n att (ls_instructions s) (ls_br_targets s) xs' ts') E s"
  using assms
proof (induction att arbitrary: s)
  case Nil
  then show ?case
    by (auto simp: patched_def intro!: exI [of _ "ls_instructions s"] exI [of _ "ls_br_targets s"])
next
  case (Cons p att)
  obtain j k where p: "p = (j, k)" by (cases p)
  let ?xs = "ls_instructions s" and ?ts = "ls_br_targets s"
  define xs1 where "xs1 = ?xs[j := retarget n (?xs ! j)]"
  define ts1 where "ts1 = (if is_table (?xs ! j) then ?ts[k := (?ts ! k)\<lparr>bt_target_index := n\<rparr>] else ?ts)"
  let ?s1 = "s\<lparr>ls_instructions := xs1, ls_br_targets := ts1\<rparr>"
  have len: "length xs1 = length ?xs" "length ts1 = length ?ts" by (simp_all add: xs1_def ts1_def)
  have x1: "xs1 ! i = (if i = j then retarget n (?xs ! i) else ?xs ! i)" if "i < length ?xs" for i
    using that by (simp add: xs1_def nth_list_update)
  have jk: "j < length ?xs" "break_ok ?ts k (?xs ! j)" using Cons.prems [of j k] p by auto
  have "wp (patch_break n (j, k)) (\<lambda>_ s'. s' = ?s1) E s"
    unfolding xs1_def ts1_def by (rule patch_one) (use jk in auto)
  moreover have "wp (for_each att (patch_break n)) (\<lambda>_ s'. \<exists>xs' ts'.
      s' = s\<lparr>ls_instructions := xs', ls_br_targets := ts'\<rparr> \<and>
      patched n (p # att) ?xs ?ts xs' ts') E ?s1"
  proof (rule wp_mono [OF Cons.IH])
    show "j' < length (ls_instructions ?s1) \<and>
        break_ok (ls_br_targets ?s1) k' (ls_instructions ?s1 ! j')" if "(j', k') \<in> set att" for j' k'
      using Cons.prems [of j' k'] that by (auto simp: len x1 break_ok_length [OF len(2)])
  next
    fix a s'
    assume "\<exists>xs' ts'. s' = ?s1\<lparr>ls_instructions := xs', ls_br_targets := ts'\<rparr> \<and>
        patched n att (ls_instructions ?s1) (ls_br_targets ?s1) xs' ts'"
    then obtain xs' ts' where s': "s' = s\<lparr>ls_instructions := xs', ls_br_targets := ts'\<rparr>"
      and patched: "patched n att xs1 ts1 xs' ts'" by auto
    have "is_table (xs1 ! i) = is_table (?xs ! i)" if "i < length ?xs" for i
      using that by (simp add: x1)
    then have tab: "is_table (xs1 ! i) = is_table (?xs ! i)" if "(i, m) \<in> set att" for i m
      using Cons.prems [of i m] that by auto
    have t1: "ts1 ! m = (if is_table (?xs ! j) \<and> m = k then (?ts ! m)\<lparr>bt_target_index := n\<rparr> else ?ts ! m)"
      if "m < length ?ts" for m
      using that by (simp add: ts1_def nth_list_update)
    have "ts' ! m = (if \<exists>i. (i, m) \<in> set (p # att) \<and> is_table (?xs ! i)
        then (?ts ! m)\<lparr>bt_target_index := n\<rparr> else ?ts ! m)" if m: "m < length ?ts" for m
    proof -
      have "ts' ! m = (if \<exists>i. (i, m) \<in> set att \<and> is_table (xs1 ! i)
          then (ts1 ! m)\<lparr>bt_target_index := n\<rparr> else ts1 ! m)"
        using patched m by (simp add: patched_def len)
      moreover have "(\<exists>i. (i, m) \<in> set att \<and> is_table (xs1 ! i)) \<longleftrightarrow>
          (\<exists>i. (i, m) \<in> set att \<and> is_table (?xs ! i))"
        using tab by blast
      ultimately show ?thesis using t1 [OF m] by (auto simp: p)
    qed
    moreover have "xs' ! i = (if i \<in> fst ` set (p # att) then retarget n (?xs ! i) else ?xs ! i)"
      if "i < length ?xs" for i
      using patched that by (auto simp: patched_def len x1 p)
    ultimately have "patched n (p # att) ?xs ?ts xs' ts'"
      using patched by (simp add: patched_def len)
    with s' show "\<exists>xs' ts'. s' = s\<lparr>ls_instructions := xs', ls_br_targets := ts'\<rparr> \<and>
        patched n (p # att) ?xs ?ts xs' ts'" by blast
  qed
  ultimately show ?case
    unfolding p for_each.simps wp_bnd by (auto elim: wp_mono)
qed

text \<open>The \<open>if\<close> and the \<open>else\<close> of the label that closes.\<close>

definition close_if :: "nat \<Rightarrow> BlockKind \<Rightarrow> StackInstruction list \<Rightarrow> StackInstruction list" where
  "close_if n kind xs = (case kind of
      BK_If j e \<Rightarrow> (case e of
          None \<Rightarrow> xs[j := If e n]
        | Some k \<Rightarrow> xs[j := If e n, k := Else n])
    | _ \<Rightarrow> xs)"

lemma length_close_if [simp]: "length (close_if n kind xs) = length xs"
  by (simp add: close_if_def split: BlockKind.split option.split)

lemma patch_if_wp:
  assumes "kind_ok (ls_instructions s) kind"
  shows "wp (patch_if n kind)
     (\<lambda>_ s'. s' = s\<lparr>ls_instructions := close_if n kind (ls_instructions s)\<rparr>) E s"
proof (cases kind)
  case (BK_If j e)
  with assms obtain e' m where j: "j < length (ls_instructions s)" "ls_instructions s ! j = If e' m"
    by (auto simp: kind_ok_def)
  show ?thesis
  proof (cases e)
    case None
    with BK_If j show ?thesis
      by (simp add: patch_if_def close_if_def get_instruction_def set_instruction_def index_def)
  next
    case (Some k)
    with assms BK_If obtain m' where k: "k < length (ls_instructions s)" "ls_instructions s ! k = Else m'"
      by (auto simp: kind_ok_def)
    with j have "j \<noteq> k" by auto
    with Some BK_If j k show ?thesis
      by (simp add: patch_if_def close_if_def get_instruction_def set_instruction_def index_def)
  qed
qed (simp_all add: patch_if_def close_if_def)

lemma close_if_nth:
  assumes "kind_ok xs kind" "i < length xs"
  shows "close_if n kind xs ! i = (case kind of
      BK_If j e \<Rightarrow> if i = j then If e n else if e = Some i then Else n else xs ! i
    | _ \<Rightarrow> xs ! i)"
proof (cases kind)
  case (BK_If j e)
  with assms have "e \<noteq> Some j" by (auto simp: kind_ok_def)
  with BK_If assms(2) show ?thesis
    by (auto simp: close_if_def nth_list_update split: option.split)
qed (simp_all add: close_if_def)

lemma kind_ok_shape:
  assumes "kind_ok xs kind" "length ys = length xs" "\<And>i. i < length xs \<Longrightarrow> shape (ys ! i) = shape (xs ! i)"
  shows "kind_ok ys kind"
proof (cases kind)
  case (BK_If j e)
  have if': "(\<exists>e' n. ys ! i = If e' n) = (\<exists>e' n. xs ! i = If e' n)"
    and else': "(\<exists>n. ys ! i = Else n) = (\<exists>n. xs ! i = Else n)" if "i < length xs" for i
    using assms(3) [OF that] by (simp_all flip: shape_iffs(4,5))
  from assms(1) BK_If have j: "j < length xs" "\<exists>e' n. xs ! j = If e' n"
    and e: "\<And>k. e = Some k \<Longrightarrow> k < length xs \<and> (\<exists>n. xs ! k = Else n)"
    by (auto simp: kind_ok_def)
  from j if' [of j] have "\<exists>e' n. ys ! j = If e' n" by simp
  moreover have "k < length ys \<and> (\<exists>n. ys ! k = Else n)" if "e = Some k" for k
    using e [OF that] else' [of k] assms(2) by simp
  ultimately show ?thesis using BK_If j(1) assms(2) by (simp add: kind_ok_def)
next
  case (BK_Loop j)
  with assms have "shape (ys ! j) = shape (xs ! j)" "xs ! j = Loop" "j < length ys"
    by (auto simp: kind_ok_def)
  then show ?thesis using BK_Loop by (simp add: kind_ok_def shape_iffs)
qed (simp_all add: kind_ok_def)

lemma label_ok_shape:
  assumes b: "label_ok xs ts b" and len: "length ys = length xs" "length us = length ts"
    and shape: "\<And>i. i < length xs \<Longrightarrow> shape (ys ! i) = shape (xs ! i)"
  shows "label_ok ys us b"
proof -
  have "break_ok us k (ys ! i)" if "i < length xs" "break_ok ts k (xs ! i)" for i k
  proof -
    have "break_ok us k (shape (ys ! i))"
      unfolding shape [OF that(1)] using that(2) by (simp add: break_ok_shape len)
    then show ?thesis by (simp add: break_ok_shape [OF refl])
  qed
  moreover have "kind_ok ys (lb_kind b)"
    by (rule kind_ok_shape [OF _ len(1) shape]) (use b in \<open>simp_all add: label_ok_def\<close>)
  ultimately show ?thesis using b len by (auto simp: label_ok_def)
qed

text \<open>The body after the \<open>end\<close> of the innermost label \<open>b\<close>, which pops it.\<close>

lemma resolved_end:
  assumes ok: "resolved xs ts (bs @ [b])"
    and patched: "patched (length xs) (lb_attached_breaks b) xs ts xs' ts'"
  shows "resolved (close_if (length xs) (lb_kind b) xs' @ [End a h]) ts' bs"
proof -
  let ?n = "length xs" and ?att = "lb_attached_breaks b"
  define ys where "ys = close_if ?n (lb_kind b) xs'"
  let ?ys = "ys @ [End a h]"
  have len: "length ys = ?n" "length xs' = ?n" "length ts' = length ts"
    using patched by (auto simp: ys_def patched_def)
  have x': "xs' ! i = (if i \<in> fst ` set ?att then retarget ?n (xs ! i) else xs ! i)" if "i < ?n" for i
    using patched that by (simp add: patched_def)
  have b: "label_ok xs ts b" using ok by (simp add: resolved_def)
  then have kind: "kind_ok xs (lb_kind b)" by (simp add: label_ok_def)
  have kind': "kind_ok xs' (lb_kind b)"
    by (rule kind_ok_shape [OF kind len(2)]) (simp add: x')
  have ys: "ys ! i = (case lb_kind b of
      BK_If j e \<Rightarrow> if i = j then If e ?n else if e = Some i then Else ?n else xs' ! i
    | _ \<Rightarrow> xs' ! i)" if "i < ?n" for i
    unfolding ys_def by (rule close_if_nth [OF kind']) (simp add: that len)
  have shape: "shape (ys ! i) = shape (xs ! i)" if "i < ?n" for i
    using kind that by (auto simp: ys x' kind_ok_def split: BlockKind.split)
  have "is_end (ys ! t) = is_end (xs ! t)" if "t < ?n" for t
    by (metis is_end_shape shape that)
  then have end_at: "end_at ?ys t" if "end_at xs t" for t
    using that by (auto simp: end_at_def len nth_append)
  have loop: "ys ! t = Loop" if "t < ?n" "xs ! t = Loop" for t
    using shape [OF that(1)] that(2) by (simp add: shape_iffs)
  have target: "target_ok ?ys t" if "target_ok xs t" for t
    using that end_at loop by (auto simp: target_ok_def len nth_append)
  have n_end: "end_at ?ys ?n" by (simp add: end_at_def len nth_append is_end_def)
  then have n: "target_ok ?ys ?n" by (simp add: target_ok_def)
  have waits: "waits bs i k" if "waits (bs @ [b]) i k" "(i, k) \<notin> set ?att" for i k
    using that by (auto simp: waits_def)
  have waits': "waits bs i k" if "waits (bs @ [b]) i k" "i \<notin> fst ` set ?att" for i k
    using that by (intro waits) (auto simp: image_iff)
  have "instr_ok ?ys ts' bs i (ys ! i)" if i: "i < ?n" for i
  proof -
    have ok_i: "instr_ok xs ts (bs @ [b]) i (xs ! i)" using ok i by (simp add: resolved_def)
    show ?thesis
    proof (cases "xs ! i")
      case (Br t a h)
      then have "ys ! i = xs' ! i" using shape [OF i] kind i
        by (auto simp: ys kind_ok_def split: BlockKind.splits)
      then show ?thesis
        using ok_i Br n target waits' by (auto simp: x' [OF i])
    next
      case (BrIf t a h)
      then have "ys ! i = xs' ! i" using shape [OF i] kind i
        by (auto simp: ys kind_ok_def split: BlockKind.splits)
      then show ?thesis
        using ok_i BrIf n target waits' by (auto simp: x' [OF i])
    next
      case (Return t a h)
      then have "ys ! i = xs' ! i" using shape [OF i] kind i
        by (auto simp: ys kind_ok_def split: BlockKind.splits)
      then show ?thesis
        using ok_i Return n_end end_at waits' by (auto simp: x' [OF i])
    next
      case (BrTable st m)
      then have ysi: "ys ! i = BrTable st m" using shape [OF i] by (simp add: shape_iffs)
      have "target_ok ?ys (bt_target_index (ts' ! k)) \<or> waits bs i k"
        if k: "st \<le> k" "k < st + m" for k
      proof -
        have k': "k < length ts" using ok_i BrTable k by simp
        have t': "ts' ! k = (if \<exists>j. (j, k) \<in> set ?att \<and> is_table (xs ! j)
            then (ts ! k)\<lparr>bt_target_index := ?n\<rparr> else ts ! k)"
          using patched k' by (simp add: patched_def)
        have "target_ok xs (bt_target_index (ts ! k)) \<or> waits (bs @ [b]) i k"
          using ok_i BrTable k by simp
        moreover have "is_table (xs ! i)" using BrTable by (simp add: is_table_def)
        ultimately show ?thesis
          using n target waits [of i k] by (cases "(i, k) \<in> set ?att") (auto simp: t')
      qed
      with ysi ok_i BrTable len(3) show ?thesis by simp
    next
      case (If e m)
      show ?thesis
      proof (cases "\<exists>e'. lb_kind b = BK_If i e'")
        case True
        then obtain e' where e': "lb_kind b = BK_If i e'" by blast
        with kind have "k < ?n" if "e' = Some k" for k using that by (simp add: kind_ok_def)
        with e' n_end i show ?thesis by (simp add: ys)
      next
        case False
        with If kind i have "ys ! i = xs' ! i"
          by (auto simp: ys kind_ok_def split: BlockKind.splits)
        moreover have "opened bs (BK_If i e')" if "opened (bs @ [b]) (BK_If i e')" for e'
          using that False by (auto simp: opened_def)
        ultimately show ?thesis
          using ok_i If end_at by (auto simp: x' [OF i])
      qed
    next
      case (Else m)
      show ?thesis
      proof (cases "\<exists>j. lb_kind b = BK_If j (Some i)")
        case True
        with Else kind n_end i show ?thesis by (auto simp: ys kind_ok_def)
      next
        case False
        with Else kind i have "ys ! i = xs' ! i"
          by (auto simp: ys kind_ok_def split: BlockKind.splits)
        moreover have "opened bs (BK_If j (Some i))" if "opened (bs @ [b]) (BK_If j (Some i))" for j
          using that False by (auto simp: opened_def)
        ultimately show ?thesis
          using ok_i Else end_at by (auto simp: x' [OF i])
      qed
    qed (use shape [OF i] in \<open>cases "ys ! i"; simp\<close>)+
  qed
  then have "instr_ok ?ys ts' bs i (?ys ! i)" if "i < length ?ys" for i
    using that len by (cases "i = ?n") (auto simp: nth_append)
  moreover have "label_ok ?ys ts' c" if "c \<in> set bs" for c
  proof -
    have "label_ok xs ts c" using ok that by (simp add: resolved_def)
    then have "label_ok ys ts' c" by (rule label_ok_shape) (simp_all add: len shape)
    then show ?thesis using label_ok_append [of ys ts' c "[End a h]" "[]"] by simp
  qed
  ultimately show ?thesis unfolding ys_def [symmetric] by (simp add: resolved_def)
qed

end
