(* ===== verification/Validation.thy ===== *)
theory Validation
  imports LoweringTargets
begin

text \<open>
  What the lowering relies on of \<open>wasmparser\<close>'s validation, which runs over the module before
  any body is lowered: labels are balanced, every index is in range and the operand heights add
  up. \<open>vstep\<close> is the validation algorithm of the WebAssembly specification with the types left
  out: a frame per open label, innermost first, with the height its label starts at, and a
  height that is polymorphic in unreachable code. It also asks for what the crate supports
  (one memory, the operators it models) and for heights that fit in a \<open>u32\<close>.
\<close>

datatype vkind = V_Func | V_Block | V_Loop | V_If | V_Else

record vframe =
  vf_kind :: vkind
  vf_start :: nat
  vf_params :: nat
  vf_results :: nat
  vf_dead :: bool

type_synonym vstate = "vframe list \<times> nat"

fun vpop :: "nat \<Rightarrow> vstate \<Rightarrow> vstate option" where
  "vpop n ([], h) = None"
| "vpop n (f # fs, h) =
     (if vf_start f + n \<le> h then Some (f # fs, h - n)
      else if vf_dead f then Some (f # fs, vf_start f) else None)"

fun vpush :: "nat \<Rightarrow> vstate \<Rightarrow> vstate option" where
  "vpush n (fs, h) = (if h + n \<le> U32_MAX then Some (fs, h + n) else None)"

fun vdead :: "vstate \<Rightarrow> vstate option" where
  "vdead ([], h) = None"
| "vdead (f # fs, h) = Some (f\<lparr>vf_dead := True\<rparr> # fs, vf_start f)"

definition label_arity :: "vframe \<Rightarrow> nat" where
  "label_arity f = (if vf_kind f = V_Loop then vf_params f else vf_results f)"

definition blocktype_arity :: "FuncType list \<Rightarrow> BlockType \<Rightarrow> (nat \<times> nat) option" where
  "blocktype_arity types bt = (case bt of
      BT_Empty \<Rightarrow> Some (0, 0)
    | BT_Type _ \<Rightarrow> Some (0, 1)
    | BT_FuncType i \<Rightarrow>
        if unat i < length types
        then Some (length (ft_params (types ! unat i)), length (ft_results (types ! unat i)))
        else None)"

definition vopen :: "vkind \<Rightarrow> FuncType list \<Rightarrow> BlockType \<Rightarrow> vstate \<Rightarrow> vstate option" where
  "vopen kind types bt st =
     (case blocktype_arity types bt of
        None \<Rightarrow> None
      | Some (p, r) \<Rightarrow>
          Option.bind (vpop p st) (\<lambda>(fs, h).
          if h + p \<le> U32_MAX \<and> h + r \<le> U32_MAX
          then Some (\<lparr>vf_kind = kind, vf_start = h, vf_params = p, vf_results = r,
                 vf_dead = False\<rparr> # fs, h + p)
          else None))"

text \<open>The results of a label must be exactly what is left above its start.\<close>

definition vclose :: "vstate \<Rightarrow> (vframe \<times> vframe list) option" where
  "vclose st = (case fst st of
      [] \<Rightarrow> None
    | f # fs \<Rightarrow>
        Option.bind (vpop (vf_results f) st) (\<lambda>(_, h). if h = vf_start f then Some (f, fs) else None))"

fun numeric_effect :: "numeric_instr \<Rightarrow> nat \<times> nat" where
  "numeric_effect (I32Unary _) = (1, 1)"
| "numeric_effect (I64Unary _) = (1, 1)"
| "numeric_effect (F32Unary _) = (1, 1)"
| "numeric_effect (F64Unary _) = (1, 1)"
| "numeric_effect (I32Binary _) = (2, 1)"
| "numeric_effect (I32Compare _) = (2, 1)"
| "numeric_effect (I64Binary _) = (2, 1)"
| "numeric_effect (I64Compare _) = (2, 1)"
| "numeric_effect (F32Binary _) = (2, 1)"
| "numeric_effect (F32Compare _) = (2, 1)"
| "numeric_effect (F64Binary _) = (2, 1)"
| "numeric_effect (F64Compare _) = (2, 1)"

definition call_effect :: "FuncType list \<Rightarrow> u32 \<Rightarrow> (nat \<times> nat) option" where
  "call_effect types ty =
     (if unat ty < length types
      then Some (length (ft_params (types ! unat ty)), length (ft_results (types ! unat ty)))
      else None)"

text \<open>The pops and pushes of an operator without control flow.\<close>

definition op_effect :: "FuncType list \<Rightarrow> FuncDecl list \<Rightarrow> Operator \<Rightarrow> (nat \<times> nat) option" where
  "op_effect types decls operator = (case operator of
      Op_Nop \<Rightarrow> Some (0, 0)
    | Op_I32Const _ \<Rightarrow> Some (0, 1)
    | Op_I64Const _ \<Rightarrow> Some (0, 1)
    | Op_F32Const _ \<Rightarrow> Some (0, 1)
    | Op_F64Const _ \<Rightarrow> Some (0, 1)
    | Op_RefNull _ \<Rightarrow> Some (0, 1)
    | Op_RefFunc _ \<Rightarrow> Some (0, 1)
    | Op_RefIsNull \<Rightarrow> Some (1, 1)
    | Op_MemorySize m \<Rightarrow> if m = 0 then Some (0, 1) else None
    | Op_MemoryGrow m \<Rightarrow> if m = 0 then Some (1, 1) else None
    | Op_MemoryCopy m n \<Rightarrow> if m = 0 \<and> n = 0 then Some (3, 0) else None
    | Op_MemoryFill m \<Rightarrow> if m = 0 then Some (3, 0) else None
    | Op_MemoryInit _ m \<Rightarrow> if m = 0 then Some (3, 0) else None
    | Op_DataDrop _ \<Rightarrow> Some (0, 0)
    | Op_Load _ _ \<Rightarrow> Some (1, 1)
    | Op_Store _ _ \<Rightarrow> Some (2, 0)
    | Op_Numeric n \<Rightarrow> Some (numeric_effect n)
    | Op_LocalGet _ \<Rightarrow> Some (0, 1)
    | Op_LocalSet _ \<Rightarrow> Some (1, 0)
    | Op_LocalTee _ \<Rightarrow> Some (1, 1)
    | Op_GlobalGet _ \<Rightarrow> Some (0, 1)
    | Op_GlobalSet _ \<Rightarrow> Some (1, 0)
    | Op_Call f \<Rightarrow> if unat f < length decls then call_effect types (fd_ty (decls ! unat f)) else None
    | Op_CallIndirect ty _ \<Rightarrow> map_option (\<lambda>(p, r). (1 + p, r)) (call_effect types ty)
    | Op_Select \<Rightarrow> Some (3, 1)
    | Op_Drop \<Rightarrow> Some (1, 0)
    | _ \<Rightarrow> None)"

definition vstep :: "FuncType list \<Rightarrow> FuncDecl list \<Rightarrow> Operator \<Rightarrow> vstate \<Rightarrow> vstate option" where
  "vstep types decls operator st = (case operator of
      Op_Unreachable \<Rightarrow> vdead st
    | Op_Block bt \<Rightarrow> vopen V_Block types bt st
    | Op_Loop bt \<Rightarrow> vopen V_Loop types bt st
    | Op_If bt \<Rightarrow> Option.bind (vpop 1 st) (vopen V_If types bt)
    | Op_Else \<Rightarrow> Option.bind (vclose st) (\<lambda>(f, fs).
        if vf_kind f = V_If
        then Some (f\<lparr>vf_kind := V_Else, vf_dead := False\<rparr> # fs, vf_start f + vf_params f) else None)
    | Op_End \<Rightarrow> Option.bind (vclose st) (\<lambda>(f, fs).
        if vf_kind f = V_If \<and> vf_params f \<noteq> vf_results f then None
        else Some (fs, vf_start f + vf_results f))
    | Op_Br d \<Rightarrow>
        if d < length (fst st) then Option.bind (vpop (label_arity (fst st ! d)) st) vdead else None
    | Op_BrIf d \<Rightarrow>
        if d < length (fst st)
        then Option.bind (vpop 1 st) (\<lambda>st. let n = label_arity (fst st ! d) in
               Option.bind (vpop n st) (vpush n))
        else None
    | Op_BrTable (Inr ds) d \<Rightarrow>
        if (\<forall>e \<in> set (ds @ [d]). e < length (fst st) \<and>
              label_arity (fst st ! e) = label_arity (fst st ! d))
        then Option.bind (vpop 1 st) (\<lambda>st. Option.bind (vpop (label_arity (fst st ! d)) st) vdead)
        else None
    | Op_Return \<Rightarrow>
        if fst st = [] then None
        else Option.bind (vpop (vf_results (last (fst st))) st) vdead
    | _ \<Rightarrow> (case op_effect types decls operator of
              None \<Rightarrow> None
            | Some (p, q) \<Rightarrow> Option.bind (vpop p st) (vpush q)))"

fun vrun :: "FuncType list \<Rightarrow> FuncDecl list \<Rightarrow> OperatorsReader \<Rightarrow> vstate \<Rightarrow> vstate option" where
  "vrun types decls [] st = Some st"
| "vrun types decls (Inl e # rest) st = None"
| "vrun types decls (Inr (operator, offset) # rest) st =
     (if offset \<le> U32_MAX then Option.bind (vstep types decls operator st) (vrun types decls rest)
      else None)"

definition func_frame :: "nat \<Rightarrow> nat \<Rightarrow> vframe" where
  "func_frame params results = \<lparr>vf_kind = V_Func, vf_start = 0, vf_params = params,
     vf_results = results, vf_dead = False\<rparr>"

definition small_types :: "FuncType list \<Rightarrow> bool" where
  "small_types types \<longleftrightarrow>
     (\<forall>ty \<in> set types. length (ft_params ty) < U32_MAX \<and> length (ft_results ty) \<le> U32_MAX)"

fun op_arms :: "Operator \<Rightarrow> nat" where
  "op_arms (Op_BrTable (Inr ds) d) = length ds + 1"
| "op_arms _ = 0"

fun arms_of :: "string + Operator \<times> usize \<Rightarrow> nat" where
  "arms_of (Inl e) = 0"
| "arms_of (Inr (operator, offset)) = op_arms operator"

definition total_arms :: "OperatorsReader \<Rightarrow> nat" where
  "total_arms reader = sum_list (map arms_of reader)"

text \<open>
  A body that the lowering accepts: validated to the end of its last label, and small enough
  for \<open>u32\<close> indices.
\<close>

definition valid_body :: "FuncType list \<Rightarrow> FuncDecl list \<Rightarrow> nat \<Rightarrow> nat \<Rightarrow> OperatorsReader \<Rightarrow> bool" where
  "valid_body types decls params results reader \<longleftrightarrow>
     small_types types \<and> params \<le> U32_MAX \<and> results \<le> U32_MAX \<and>
     length reader \<le> U32_MAX \<and> total_arms reader \<le> U32_MAX \<and>
     (case vrun types decls reader ([func_frame params results], 0) of
        Some (fs, _) \<Rightarrow> fs = [] | None \<Rightarrow> False)"

section \<open>The validator's frames and the lowering's labels\<close>

fun same_kind :: "vkind \<Rightarrow> BlockKind \<Rightarrow> bool" where
  "same_kind V_Func BK_Func = True"
| "same_kind V_Block BK_Block = True"
| "same_kind V_Loop (BK_Loop _) = True"
| "same_kind V_If (BK_If _ None) = True"
| "same_kind V_Else (BK_If _ (Some _)) = True"
| "same_kind _ _ = False"

text \<open>
  A label that is live in the lowering is live in validation, and a label that was not born
  dead has the recorded height that validation computes. The lowering may consider code dead
  that validation does not: a label opened in dead code stays dead.
\<close>

definition label_rel :: "vframe \<Rightarrow> Label \<Rightarrow> bool" where
  "label_rel f b \<longleftrightarrow> same_kind (vf_kind f) (lb_kind b) \<and>
     lb_params b = vf_params f \<and> lb_results b = vf_results f \<and>
     (\<not> lb_has_inherited b \<longrightarrow> lb_recorded_height b = vf_start f) \<and>
     (lb_has_inherited b \<longrightarrow> lb_is_unreachable_traversing b) \<and>
     (\<not> lb_is_unreachable_traversing b \<longrightarrow> \<not> vf_dead f) \<and>
     lb_recorded_height b + lb_params b \<le> U32_MAX \<and>
     lb_recorded_height b + lb_results b \<le> U32_MAX"

text \<open>Innermost first: only a dead label has children that were born dead.\<close>

fun chain :: "Label list \<Rightarrow> bool" where
  "chain (b # c # bs) = ((lb_has_inherited b \<longrightarrow> lb_is_unreachable_traversing c) \<and> chain (c # bs))"
| "chain [b] = (\<not> lb_has_inherited b)"
| "chain [] = True"

definition height_inv :: "vstate \<Rightarrow> ControlStack \<Rightarrow> bool" where
  "height_inv st cs \<longleftrightarrow>
     list_all2 label_rel (fst st) (rev (cs_inner cs)) \<and> chain (rev (cs_inner cs)) \<and>
     (cs_inner cs \<noteq> [] \<and> \<not> lb_is_unreachable_traversing (last (cs_inner cs)) \<longrightarrow>
        curr_height cs = snd st)"

end
