(* ===== verification/LoweringTotal.thy ===== *)
theory LoweringTotal
  imports Validation
begin

text \<open>
  The lowering of a validated body returns, and what it returns is resolved: the heights the
  pass tracks are those of validation wherever code is live, so none of its subtractions
  underflows, and none of its lookups is out of range.
\<close>

section \<open>The operations of the control stack, totally\<close>

lemma wp_update_block [simp]:
  "wp (update_block i f) Q E cs \<longleftrightarrow>
     (i < length (cs_inner cs) \<and> Q () (cs\<lparr>cs_inner := (cs_inner cs)[i := f (cs_inner cs ! i)]\<rparr>))"
  by (auto simp: update_block_def index_def)

lemma wp_update_curr_block [simp]:
  "wp (update_curr_block f) Q E cs \<longleftrightarrow> (cs_inner cs \<noteq> [] \<and>
     Q () (cs\<lparr>cs_inner := butlast (cs_inner cs) @ [f (last (cs_inner cs))]\<rparr>))"
proof (cases "cs_inner cs = []")
  case False
  then have "(cs_inner cs)[length (cs_inner cs) - 1 := f (last (cs_inner cs))] =
      butlast (cs_inner cs) @ [f (last (cs_inner cs))]"
    by (metis append_butlast_last_id butlast_snoc length_butlast list_update_length)
  with False show ?thesis
    by (simp add: update_curr_block_def last_conv_nth)
qed (simp add: update_curr_block_def)

lemma wp_get_curr_block [simp]:
  "wp get_curr_block Q E cs \<longleftrightarrow> (cs_inner cs \<noteq> [] \<and> Q (last (cs_inner cs)) cs)"
  by (auto simp: get_curr_block_def last_conv_nth index_def)

lemma wp_get_block [simp]:
  "wp (get_block i) Q E cs \<longleftrightarrow> (i < length (cs_inner cs) \<and> Q (cs_inner cs ! i) cs)"
  by (simp add: get_block_def index_def)

lemma wp_block_index [simp]:
  "wp (block_index d) Q E cs \<longleftrightarrow>
     (d < length (cs_inner cs) \<and> Q (length (cs_inner cs) - 1 - d) cs)"
  by (auto simp: block_index_def usize_sub_def)

lemma wp_next_index [simp]: "wp next_index Q E s \<longleftrightarrow> Q (as_u32 (length (ls_instructions s))) s"
  by (simp add: next_index_def)

lemma wp_attach_break [simp]:
  "wp (attach_break i br) Q E s \<longleftrightarrow> (i < length (cs_inner (ls_control s)) \<and>
     Q () (s\<lparr>ls_control := ls_control s\<lparr>cs_inner := (cs_inner (ls_control s))
       [i := with_break br (cs_inner (ls_control s) ! i)]\<rparr>\<rparr>))"
  by (simp add: attach_break_def)

section \<open>The height relation\<close>

lemma height_inv_length: "height_inv st cs \<Longrightarrow> length (cs_inner cs) = length (fst st)"
  by (auto simp: height_inv_def dest: list_all2_lengthD)

lemma height_inv_cong:
  "height_inv st cs \<Longrightarrow> cs_inner cs' = cs_inner cs \<Longrightarrow> curr_height cs' = curr_height cs \<Longrightarrow>
     height_inv st cs'"
  by (simp add: height_inv_def)

text \<open>The innermost frame and label.\<close>

lemma height_invE:
  assumes "height_inv st cs" "cs_inner cs \<noteq> []"
  obtains f fs h bs b where "st = (f # fs, h)" "cs_inner cs = bs @ [b]" "label_rel f b"
    "list_all2 label_rel fs (rev bs)" "chain (b # rev bs)"
    "\<not> lb_is_unreachable_traversing b \<Longrightarrow> curr_height cs = h"
proof -
  from assms(2) obtain bs b where bs: "cs_inner cs = bs @ [b]"
    by (metis append_butlast_last_id)
  obtain gs h where st: "st = (gs, h)" by (cases st)
  with assms(1) bs obtain f fs where "gs = f # fs"
    by (auto simp: height_inv_def list_all2_Cons2)
  with assms(1) bs st that [of f fs h bs b] show thesis
    by (auto simp: height_inv_def)
qed

lemma height_invI:
  assumes "cs_inner cs = bs @ [b]" "label_rel f b" "list_all2 label_rel fs (rev bs)"
    "chain (b # rev bs)" "\<not> lb_is_unreachable_traversing b \<Longrightarrow> curr_height cs = h"
  shows "height_inv (f # fs, h) cs"
  using assms by (auto simp: height_inv_def)

lemma chain_head:
  "chain (b # bs) \<Longrightarrow> lb_has_inherited c = lb_has_inherited b \<Longrightarrow> chain (c # bs)"
  by (cases bs) auto

lemma chain_tail: "chain (b # bs) \<Longrightarrow> chain bs"
  by (cases bs) auto

lemma height_inv_break:
  assumes "height_inv st cs"
  shows "height_inv st (cs\<lparr>cs_inner := (cs_inner cs)[i := with_break p (cs_inner cs ! i)]\<rparr>)"
proof -
  let ?g = "\<lambda>bs. bs[i := with_break p (bs ! i)]"
  have rel: "list_all2 label_rel fs (rev bs) \<Longrightarrow> list_all2 label_rel fs (rev (?g bs))" for fs bs
    by (cases "i < length bs")
      (auto simp: rev_update label_rel_def list_all2_conv_all_nth nth_list_update rev_nth)
  have ch: "chain xs = chain ys"
    if "map lb_has_inherited xs = map lb_has_inherited ys"
      "map lb_is_unreachable_traversing xs = map lb_is_unreachable_traversing ys" for xs ys
    using that
  proof (induction xs arbitrary: ys rule: chain.induct)
    case (1 b c bs)
    then obtain b' c' bs' where ys: "ys = b' # c' # bs'" by (auto simp: map_eq_Cons_conv)
    with 1 have "chain (c # bs) = chain (c' # bs')" by simp
    with 1 ys show ?case by simp
  qed (auto simp: map_eq_Cons_conv)
  have nth: "lb_has_inherited (?g bs ! j) = lb_has_inherited (bs ! j)"
      "lb_is_unreachable_traversing (?g bs ! j) = lb_is_unreachable_traversing (bs ! j)"
    if "j < length bs" for bs j
    using that by (cases "j = i"; simp)+
  have m: "map lb_has_inherited (?g bs) = map lb_has_inherited bs"
    "map lb_is_unreachable_traversing (?g bs) = map lb_is_unreachable_traversing bs" for bs
    by (auto intro!: nth_equalityI simp: nth)
  have "chain (rev (?g bs)) = chain (rev bs)" for bs
    by (rule ch) (simp_all add: m flip: rev_map)
  moreover have "lb_is_unreachable_traversing (last (?g bs)) = lb_is_unreachable_traversing (last bs)"
    if "bs \<noteq> []" for bs
    using that m(2) [of bs] by (metis last_map list_update_nonempty)
  ultimately show ?thesis
    using assms rel by (auto simp: height_inv_def)
qed

section \<open>Effects\<close>

lemma wp_effects_live:
  assumes inv: "height_inv st cs" and ne: "cs_inner cs \<noteq> []" and st: "st = (f # fs, h)"
    and live: "\<not> vf_dead f \<Longrightarrow> p \<le> h \<and> h2 = h - p + q \<and> h2 \<le> U32_MAX"
  shows "wp (apply_stack_effects_to_height p q) (\<lambda>_ cs'. height_inv (f # fs, h2) cs') E cs"
proof -
  obtain bs b where bs: "cs_inner cs = bs @ [b]"
    and rel: "label_rel f b" "list_all2 label_rel fs (rev bs)" "chain (b # rev bs)"
    and curr: "\<not> lb_is_unreachable_traversing b \<Longrightarrow> curr_height cs = h"
    using inv ne by (rule height_invE) (use st in blast)
  show ?thesis
  proof (cases "lb_is_unreachable_traversing b")
    case True
    then show ?thesis
      using bs rel by (auto simp: apply_stack_effects_to_height_def intro!: height_invI)
  next
    case False
    with rel(1) have "\<not> vf_dead f" by (simp add: label_rel_def)
    with live have "p \<le> h" "h2 = h - p + q" "h2 \<le> U32_MAX" by auto
    with False curr bs rel show ?thesis
      by (auto simp: apply_stack_effects_to_height_def u32_sub_def u32_add_def note_height_def
          intro!: height_invI)
  qed
qed

lemma vpop_cases:
  assumes "vpop n st = Some st1"
  obtains f fs h h1 where "st = (f # fs, h)" "st1 = (f # fs, h1)"
    "\<not> vf_dead f \<Longrightarrow> n \<le> h \<and> h1 = h - n" "vf_start f \<le> h1"
  using assms by (cases "(n, st)" rule: vpop.cases) (auto split: if_splits)

lemma vpush_cases:
  assumes "vpush n (fs, h) = Some st1"
  obtains "st1 = (fs, h + n)" "h + n \<le> U32_MAX"
  using assms by (auto split: if_splits)

lemma wp_effects:
  assumes inv: "height_inv st cs" "cs_inner cs \<noteq> []"
    and pp: "vpop p st = Some st1" and pq: "vpush q st1 = Some st2"
  shows "wp (apply_stack_effects_to_height p q) (\<lambda>_ cs'. height_inv st2 cs') E cs"
  using pp
proof (rule vpop_cases)
  fix f fs h h1
  assume st: "st = (f # fs, h)" "st1 = (f # fs, h1)"
    and live: "\<not> vf_dead f \<Longrightarrow> p \<le> h \<and> h1 = h - p"
  from pq st have "st2 = (f # fs, h1 + q)" "h1 + q \<le> U32_MAX" by (auto split: if_splits)
  then show ?thesis using wp_effects_live [OF inv st(1)] live by auto
qed

lemma height_inv_neutral:
  assumes inv: "height_inv st cs" "cs_inner cs \<noteq> []"
    and pp: "vpop p st = Some st1" and pq: "vpush p st1 = Some st2"
  shows "height_inv st2 cs"
  using pp
proof (rule vpop_cases)
  fix f fs h h1
  assume st: "st = (f # fs, h)" "st1 = (f # fs, h1)"
    and live: "\<not> vf_dead f \<Longrightarrow> p \<le> h \<and> h1 = h - p"
  from pq st have st2: "st2 = (f # fs, h1 + p)" by (auto split: if_splits)
  obtain bs b where bs: "cs_inner cs = bs @ [b]"
    and rel: "label_rel f b" "list_all2 label_rel fs (rev bs)" "chain (b # rev bs)"
    and curr: "\<not> lb_is_unreachable_traversing b \<Longrightarrow> curr_height cs = h"
    using inv by (rule height_invE) (use st in blast)
  from rel(1) have "\<not> lb_is_unreachable_traversing b \<Longrightarrow> \<not> vf_dead f" by (simp add: label_rel_def)
  with bs rel curr live show ?thesis by (auto simp: st2 intro!: height_invI)
qed

section \<open>Operators without labels\<close>

text \<open>Lowering one operator and applying its effect takes the heights to \<open>st\<close>.\<close>

definition lowers_to :: "vstate \<Rightarrow> lowered \<Rightarrow> lower_state \<Rightarrow> bool" where
  "lowers_to st m s \<longleftrightarrow>
     wp m (\<lambda>(x, eff) s'. wp (apply_stack_effect eff) (\<lambda>_ cs'. height_inv st cs') (\<lambda>_ _. False)
       (ls_control s')) (\<lambda>_ _. False) s"

lemma lowers_to_ret:
  "lowers_to st (ret (x, eff)) s \<longleftrightarrow>
     wp (apply_stack_effect eff) (\<lambda>_ cs'. height_inv st cs') (\<lambda>_ _. False) (ls_control s)"
  by (simp add: lowers_to_def)

lemma lowers_to_bnd_lift:
  "lowers_to st (bnd (lift_result r) m) s \<longleftrightarrow> (\<exists>a. r = Ok a \<and> lowers_to st (m a) s)"
  by (cases r) (auto simp: lowers_to_def)

lemma lowers_to_effect:
  assumes inv: "height_inv st (ls_control s)" and ne: "cs_inner (ls_control s) \<noteq> []"
    and st: "vpop p st = Some st1" "vpush q st1 = Some st2"
  shows "(p, q) \<in> {(p, q)} \<Longrightarrow> lowers_to st2 (ret (x, PopPush p q)) s"
    and "(p, q) = (2, 0) \<Longrightarrow> lowers_to st2 (ret (x, Stores)) s"
    and "(p, q) = (2, 1) \<Longrightarrow> lowers_to st2 (ret (x, BinaryOperator)) s"
    and "(p, q) = (1, 1) \<Longrightarrow> lowers_to st2 (ret (x, UnaryOperator)) s"
    and "(p, q) = (1, 1) \<Longrightarrow> lowers_to st2 (ret (x, Loads)) s"
    and "(p, q) = (0, 0) \<Longrightarrow> lowers_to st2 (ret (x, NoEffect)) s"
  using wp_effects [OF inv ne st] height_inv_neutral [OF inv ne, of p st1 st2] st
  by (auto simp: lowers_to_ret)

lemma lower_numeric_heights:
  assumes inv: "height_inv st (ls_control s)" "cs_inner (ls_control s) \<noteq> []"
    and "numeric_effect n = (p, q)" and st: "vpop p st = Some st1" "vpush q st1 = Some st2"
  shows "lowers_to st2 (lower_numeric n) s"
  using assms(3) lowers_to_effect [OF inv st] by (cases n) auto

lemma small_types_nth:
  assumes "small_types types" "i < length types"
  shows "length (ft_params (types ! i)) < U32_MAX" "length (ft_results (types ! i)) \<le> U32_MAX"
  using assms by (auto simp: small_types_def)

lemma simple_heights:
  assumes inv: "height_inv st (ls_control s)" "cs_inner (ls_control s) \<noteq> []"
    and small: "small_types types"
    and eff: "op_effect types decls operator = Some (p, q)"
    and st: "vpop p st = Some st1" "vpush q st1 = Some st2"
  shows "lowers_to st2 (lower_operator types decls operator) s"
proof (cases operator)
  case (Op_Call f)
  with eff have "unat f < length decls" "unat (fd_ty (decls ! unat f)) < length types"
    and pq: "p = length (ft_params (types ! unat (fd_ty (decls ! unat f))))"
      "q = length (ft_results (types ! unat (fd_ty (decls ! unat f))))"
    by (auto simp: op_effect_def call_effect_def split: if_splits)
  moreover from this have "p < U32_MAX" "q \<le> U32_MAX"
    using small_types_nth [OF small] by simp_all
  ultimately show ?thesis
    using lowers_to_effect(1) [OF inv st]
    by (simp add: Op_Call lower_operator.simps lower_call_def lowers_to_bnd_lift index_def)
next
  case (Op_CallIndirect ty tab)
  with eff have ty: "unat ty < length types"
    and pq: "p = 1 + length (ft_params (types ! unat ty))" "q = length (ft_results (types ! unat ty))"
    by (auto simp: op_effect_def call_effect_def split: if_splits)
  with small_types_nth [OF small ty] show ?thesis
    using lowers_to_effect(1) [OF inv st]
    by (simp add: Op_CallIndirect lower_operator.simps lower_call_indirect_def lowers_to_bnd_lift
        index_def u32_add_def)
next
  case (Op_Numeric n)
  with eff show ?thesis
    using lower_numeric_heights [OF inv _ st, of n]
    by (simp add: lower_operator.simps op_effect_def del: lower_numeric.simps)
qed (use eff lowers_to_effect [OF inv st] in
    \<open>auto simp: lower_operator.simps op_effect_def lower_load_def lower_store_def
      lowers_to_bnd_lift check_memory_index_def split: if_splits\<close>)

section \<open>Branches\<close>

lemma vpop_frames: "vpop n st = Some st' \<Longrightarrow> fst st' = fst st \<and> fst st \<noteq> []"
  by (cases "(n, st)" rule: vpop.cases) (auto split: if_splits)

lemma vpush_frames: "vpush n st = Some st' \<Longrightarrow> fst st' = fst st"
  by (cases st) (auto split: if_splits)

lemma set_unreachable_heights:
  assumes "height_inv st cs" "vdead st1 = Some st'" "fst st1 = fst st"
  shows "wp set_unreachable_traversing (\<lambda>_ cs'. height_inv st' cs') E cs"
proof -
  from assms(2,3) have "fst st \<noteq> []" by (cases st1 rule: vdead.cases) auto
  with assms(1) have ne: "cs_inner cs \<noteq> []" by (auto dest: height_inv_length)
  obtain f fs h bs b where st: "st = (f # fs, h)" and bs: "cs_inner cs = bs @ [b]"
    and rel: "label_rel f b" "list_all2 label_rel fs (rev bs)" "chain (b # rev bs)"
    using assms(1) ne by (rule height_invE) blast
  from assms(2,3) st have "st' = (f\<lparr>vf_dead := True\<rparr> # fs, vf_start f)"
    by (cases st1 rule: vdead.cases) auto
  with bs rel show ?thesis
    by (auto simp: set_unreachable_traversing_def label_rel_def intro!: height_invI intro: chain_head)
qed

lemma resolve_branch_heights:
  assumes "height_inv st (ls_control s)" "d < length (fst st)"
  shows "wp (resolve_branch d) (\<lambda>_ s'. height_inv st (ls_control s') \<and>
     ls_instructions s' = ls_instructions s \<and> ls_br_targets s' = ls_br_targets s) E s"
  using assms height_inv_length [OF assms(1)]
  by (auto simp: resolve_branch_def height_inv_break split: option.split)

lemma br_heights:
  assumes "height_inv st (ls_control s)" "d < length (fst st)" "vdead st1 = Some st'" "fst st1 = fst st"
  shows "lowers_to st' (lower_br d) s"
  unfolding lowers_to_def lower_br_def wp_bnd
  by (rule wp_mono [OF resolve_branch_heights [OF assms(1,2)]])
    (use set_unreachable_heights [OF _ assms(3,4)] in auto)

lemma br_if_heights:
  assumes inv: "height_inv st (ls_control s)" and d: "d < length (fst st)"
    and st1: "vpop 1 st = Some st1" and st2: "vpop n st1 = Some st2" and st': "vpush n st2 = Some st'"
  shows "lowers_to st' (lower_br_if d) s"
  using st1
proof (rule vpop_cases)
  fix f fs h h1
  assume st: "st = (f # fs, h)" "st1 = (f # fs, h1)"
    and h1: "\<not> vf_dead f \<Longrightarrow> 1 \<le> h \<and> h1 = h - 1"
  from st2 st obtain h2 where h2: "st2 = (f # fs, h2)" "\<not> vf_dead f \<Longrightarrow> n \<le> h1 \<and> h2 = h1 - n"
    by (auto split: if_splits)
  with st' have eq: "st' = (f # fs, h2 + n)" "h2 + n \<le> U32_MAX" by (auto split: if_splits)
  have "wp (apply_stack_effects_to_height 1 0) (\<lambda>_ cs'. height_inv st' cs') (\<lambda>_ _. False) cs"
    if cs: "height_inv st cs" for cs
    unfolding eq(1)
  proof (rule wp_effects_live [OF cs _ st(1)])
    show "cs_inner cs \<noteq> []" using cs st by (auto dest: height_inv_length)
    show "1 \<le> h \<and> h2 + n = h - 1 + 0 \<and> h2 + n \<le> U32_MAX" if "\<not> vf_dead f"
      using h1 [OF that] h2(2) [OF that] eq(2) by auto
  qed
  then show ?thesis
    unfolding lowers_to_def lower_br_if_def wp_bnd
    by (intro wp_mono [OF resolve_branch_heights [OF inv d]]) auto
qed

lemma arms_heights:
  assumes "height_inv st (ls_control s)" "\<And>d. d \<in> set ds \<Longrightarrow> d < length (fst st)"
    and "start + k + length ds \<le> U32_MAX"
  shows "wp (lower_br_table_arms i start k ds k) (\<lambda>_ s'. height_inv st (ls_control s')) E s"
  using assms
proof (induction ds arbitrary: k s)
  case Nil
  then show ?case by simp
next
  case (Cons d ds)
  have d: "d < length (cs_inner (ls_control s))"
    using Cons.prems(1,2) by (simp add: height_inv_length)
  have "wp (lower_br_table_arm i start k d) (\<lambda>_ s'. height_inv st (ls_control s')) E s"
    using d Cons.prems(1,3)
    by (auto simp: lower_br_table_arm_def push_br_target_def u32_add_def height_inv_break
        split: option.split)
  then show ?case
    unfolding lower_br_table_arms.simps wp_bnd
    by (rule wp_mono) (use Cons.prems in \<open>auto simp: u32_add_def intro!: Cons.IH\<close>)
qed

lemma br_table_heights:
  assumes inv: "height_inv st (ls_control s)"
    and d: "\<And>e. e \<in> set (ds @ [d]) \<Longrightarrow> e < length (fst st)"
    and bound: "length (ls_br_targets s) + length ds + 1 \<le> U32_MAX"
    and st1: "vdead st1 = Some st'" "fst st1 = fst st"
  shows "lowers_to st' (lower_br_table (Inr ds) d) s"
proof -
  have "wp (lower_br_table_arms (as_u32 (length (ls_instructions s))) (length (ls_br_targets s)) 0 (ds @ [d]) 0)
      (\<lambda>_ s'. height_inv st (ls_control s')) (\<lambda>_ _. False) s"
    by (rule arms_heights [OF inv d]) (use bound in auto)
  then have "wp (lower_br_table_arms (as_u32 (length (ls_instructions s))) (length (ls_br_targets s)) 0 (ds @ [d]) 0)
      (\<lambda>_ s'. wp set_unreachable_traversing (\<lambda>_ cs'. height_inv st' cs') (\<lambda>_ _. False) (ls_control s'))
      (\<lambda>_ _. False) s"
    by (rule wp_mono) (auto intro: set_unreachable_heights [OF _ st1])
  then show ?thesis
    using bound by (simp add: lowers_to_def lower_br_table_def)
qed

lemma return_heights:
  assumes inv: "height_inv st (ls_control s)" and ne: "fst st \<noteq> []"
    and st1: "vdead st1 = Some st'" "fst st1 = fst st"
  shows "lowers_to st' lower_return s"
  using ne height_inv_length [OF inv] set_unreachable_heights [OF height_inv_break [OF inv] st1]
  by (auto simp: lowers_to_def lower_return_def)

section \<open>Labels\<close>

lemma arity_small:
  assumes "small_types types" "blocktype_arity types bt = Some (p, r)"
  shows "params_and_results_from_blockty bt types = Ok (p, r)"
proof (cases bt)
  case (BT_FuncType i)
  with assms(2) have i: "unat i < length types"
    and pr: "p = length (ft_params (types ! unat i))" "r = length (ft_results (types ! unat i))"
    by (auto simp: blocktype_arity_def split: if_splits)
  with small_types_nth [OF assms(1) i] BT_FuncType show ?thesis
    by (simp add: index_def)
qed (use assms in \<open>auto simp: blocktype_arity_def\<close>)

text \<open>
  A label that is opened with \<open>p\<close> parameters and, for an \<open>if\<close>, a condition above them
  (\<open>extra\<close>). Its parent's height is the one before either is popped.
\<close>

lemma add_block_heights:
  assumes inv: "height_inv (f # fs, h) cs" and ne: "cs_inner cs \<noteq> []"
    and small: "small_types types" and ar: "blocktype_arity types bt = Some (p, r)"
    and bounds: "h' + p \<le> U32_MAX" "h' + r \<le> U32_MAX"
    and live: "\<not> vf_dead f \<Longrightarrow> p + extra \<le> h \<and> h' = h - p - extra"
    and kind: "same_kind k kind" "kind \<noteq> BK_Func"
    and extra: "extra = (case kind of BK_If _ _ \<Rightarrow> 1 | _ \<Rightarrow> 0)"
  shows "wp (add_block kind bt types) (\<lambda>_ cs'. cs_inner cs' \<noteq> [] \<and>
     height_inv (\<lparr>vf_kind = k, vf_start = h', vf_params = p, vf_results = r, vf_dead = False\<rparr> # f # fs,
       h' + p + extra) cs') E cs"
proof -
  obtain bs b where bs: "cs_inner cs = bs @ [b]"
    and rel: "label_rel f b" "list_all2 label_rel fs (rev bs)" "chain (b # rev bs)"
    and curr: "\<not> lb_is_unreachable_traversing b \<Longrightarrow> curr_height cs = h"
    using inv ne by (rule height_invE) blast
  note pr = arity_small [OF small ar]
  show ?thesis
  proof (cases "lb_is_unreachable_traversing b")
    case True
    then show ?thesis
      using bs rel kind bounds
      by (auto simp: add_block_def push_block_def pr label_rel_def intro!: height_invI)
  next
    case False
    with rel(1) have "\<not> vf_dead f" by (simp add: label_rel_def)
    from live [OF this] curr [OF False]
    have h': "curr_height cs = h' + p + extra" by auto
    then have rh: "recorded_height_of kind (h' + p + extra) p = Ok h'"
      using kind(2) extra
      by (auto simp: recorded_height_of_def u32_sub_def split: BlockKind.split)
    show ?thesis
      using bs rel kind bounds False h'
      by (auto simp: add_block_def push_block_def pr rh label_rel_def intro!: height_invI)
  qed
qed

lemma vopenE:
  assumes "vopen k types bt st = Some st'"
  obtains p r fs h h' where "blocktype_arity types bt = Some (p, r)" "vpop p st = Some (fs, h')"
    "st' = (\<lparr>vf_kind = k, vf_start = h', vf_params = p, vf_results = r, vf_dead = False\<rparr> # fs, h' + p)"
    "h' + p \<le> U32_MAX" "h' + r \<le> U32_MAX"
  using assms by (auto simp: vopen_def bind_eq_Some_conv split: option.splits if_splits)

lemma block_heights:
  assumes inv: "height_inv st (ls_control s)" "cs_inner (ls_control s) \<noteq> []"
    and small: "small_types types" and st: "vopen k types bt st = Some st'"
    and kind: "same_kind k kind" "kind \<noteq> BK_Func" "\<And>i e. kind \<noteq> BK_If i e"
  shows "wp (add_block kind bt types) (\<lambda>_ cs'. height_inv st' cs') E (ls_control s)"
  using st
proof (rule vopenE)
  fix p r fs' h'
  assume ar: "blocktype_arity types bt = Some (p, r)" and pp: "vpop p st = Some (fs', h')"
    and st': "st' = (\<lparr>vf_kind = k, vf_start = h', vf_params = p, vf_results = r, vf_dead = False\<rparr> # fs', h' + p)"
    and bounds: "h' + p \<le> U32_MAX" "h' + r \<le> U32_MAX"
  obtain f fs h where f: "st = (f # fs, h)" "fs' = f # fs" "\<not> vf_dead f \<Longrightarrow> p \<le> h \<and> h' = h - p"
    using pp by (auto elim: vpop_cases)
  have "wp (add_block kind bt types) (\<lambda>_ cs'. cs_inner cs' \<noteq> [] \<and>
     height_inv (\<lparr>vf_kind = k, vf_start = h', vf_params = p, vf_results = r, vf_dead = False\<rparr> # f # fs,
       h' + p + 0) cs') E (ls_control s)"
    by (rule add_block_heights [OF _ inv(2) small ar bounds _ kind(1,2)])
      (use inv(1) f kind(3) in \<open>auto split: BlockKind.split\<close>)
  then show ?thesis by (rule wp_mono) (simp_all add: st' f(2))
qed

lemma lower_block_heights:
  assumes "height_inv st (ls_control s)" "cs_inner (ls_control s) \<noteq> []" "small_types types"
    and "vopen V_Block types bt st = Some st'"
  shows "lowers_to st' (lower_block types bt) s"
  using block_heights [OF assms, where kind = BK_Block] by (simp add: lowers_to_def lower_block_def)

lemma lower_loop_heights:
  assumes "height_inv st (ls_control s)" "cs_inner (ls_control s) \<noteq> []" "small_types types"
    and "vopen V_Loop types bt st = Some st'"
  shows "lowers_to st' (lower_loop types bt) s"
  using block_heights [OF assms] by (simp add: lowers_to_def lower_loop_def)

lemma lower_if_heights:
  assumes inv: "height_inv st (ls_control s)" "cs_inner (ls_control s) \<noteq> []"
    and small: "small_types types"
    and st1: "vpop 1 st = Some st1" and st': "vopen V_If types bt st1 = Some st'"
  shows "lowers_to st' (lower_if types bt) s"
  using st'
proof (rule vopenE)
  fix p r fs' h'
  assume ar: "blocktype_arity types bt = Some (p, r)" and pp: "vpop p st1 = Some (fs', h')"
    and st'_eq: "st' = (\<lparr>vf_kind = V_If, vf_start = h', vf_params = p, vf_results = r, vf_dead = False\<rparr> # fs', h' + p)"
    and bounds: "h' + p \<le> U32_MAX" "h' + r \<le> U32_MAX"
  let ?kind = "BK_If (as_u32 (length (ls_instructions s))) None"
  obtain f fs h h1 where f: "st = (f # fs, h)" "st1 = (f # fs, h1)"
      "\<not> vf_dead f \<Longrightarrow> 1 \<le> h \<and> h1 = h - 1"
    using st1 by (rule vpop_cases) simp
  with pp have fs': "fs' = f # fs" and h': "\<not> vf_dead f \<Longrightarrow> p \<le> h1 \<and> h' = h1 - p"
    by (auto split: if_splits)
  let ?f = "\<lparr>vf_kind = V_If, vf_start = h', vf_params = p, vf_results = r, vf_dead = False\<rparr>"
  have "wp (add_block ?kind bt types)
     (\<lambda>_ cs'. cs_inner cs' \<noteq> [] \<and> height_inv (?f # f # fs, h' + p + 1) cs') (\<lambda>_ _. False) (ls_control s)"
    by (rule add_block_heights [OF _ inv(2) small ar bounds, of f fs h 1])
      (use inv(1) f h' in auto)
  then have "wp (add_block ?kind bt types) (\<lambda>_ cs'.
      wp (apply_stack_effects_to_height 1 0) (\<lambda>_ cs''. height_inv st' cs'') (\<lambda>_ _. False) cs')
      (\<lambda>_ _. False) (ls_control s)"
    unfolding st'_eq fs'
    by (rule wp_mono) (use bounds in \<open>auto intro!: wp_effects_live\<close>)
  then show ?thesis by (simp add: lowers_to_def lower_if_def)
qed

lemma vcloseE:
  assumes "vclose st = Some (f, fs)"
  obtains h where "st = (f # fs, h)"
  using assms
  by (cases st) (auto simp: vclose_def bind_eq_Some_conv split: list.splits if_splits)

lemma same_kind_If: "same_kind V_If kind \<Longrightarrow> \<exists>j. kind = BK_If j None"
  by (cases "(V_If, kind)" rule: same_kind.cases) auto

lemma lower_else_heights:
  assumes inv: "height_inv st (ls_control s)" "cs_inner (ls_control s) \<noteq> []"
    and st: "vclose st = Some (f, fs)" "vf_kind f = V_If"
  shows "lowers_to (f\<lparr>vf_kind := V_Else, vf_dead := False\<rparr> # fs, vf_start f + vf_params f) lower_else s"
proof -
  obtain h where st': "st = (f # fs, h)" using st(1) by (rule vcloseE)
  obtain bs b where bs: "cs_inner (ls_control s) = bs @ [b]"
    and rel: "label_rel f b" "list_all2 label_rel fs (rev bs)" "chain (b # rev bs)"
    using inv by (rule height_invE) (use st' in blast)
  from rel(1) st(2) have "same_kind V_If (lb_kind b)" by (simp add: label_rel_def)
  then obtain j where j: "lb_kind b = BK_If j None" using same_kind_If by blast
  show ?thesis
    using bs rel j
    by (auto simp: lowers_to_def lower_else_def end_unreachable_traversing_def u32_add_def
        set_height_def note_height_def label_rel_def intro!: height_invI intro: chain_head)
qed

text \<open>The height after an \<open>end\<close>, with the label already popped.\<close>

lemma end_heights:
  assumes fs: "list_all2 label_rel fs (rev bs)" "chain (b # rev bs)" and f: "label_rel f b"
    and cs: "cs_inner cs = bs"
  shows "wp (set_height (lb_recorded_height b + lb_results b))
    (\<lambda>_ cs'. height_inv (fs, vf_start f + vf_results f) cs') E cs"
proof (cases bs rule: rev_cases)
  case Nil
  with fs cs show ?thesis by (simp add: set_height_def note_height_def height_inv_def)
next
  case (snoc bs' c)
  with fs obtain g gs where "fs = g # gs" "label_rel g c" "list_all2 label_rel gs (rev bs')"
    "chain (c # rev bs')" "lb_has_inherited b \<longrightarrow> lb_is_unreachable_traversing c"
    by (auto simp: list_all2_Cons2)
  with f cs snoc show ?thesis
    by (auto simp: set_height_def note_height_def label_rel_def intro!: height_invI)
qed

lemma lower_end_heights:
  assumes inv: "height_inv st (ls_control s)" "cs_inner (ls_control s) \<noteq> []"
    and resolved: "resolved_state s" and len: "length (ls_instructions s) \<le> U32_MAX"
    and st: "vclose st = Some (f, fs)"
  shows "wp lower_end (\<lambda>(x, eff) s'. emits s 0 x s' \<and> is_end x \<and>
     wp (apply_stack_effect eff) (\<lambda>_ cs'. height_inv (fs, vf_start f + vf_results f) cs')
       (\<lambda>_ _. False) (ls_control s')) (\<lambda>_ _. False) s"
proof -
  let ?xs = "ls_instructions s" and ?ts = "ls_br_targets s"
  obtain h where st': "st = (f # fs, h)" using st by (rule vcloseE)
  obtain bs b where bs: "cs_inner (ls_control s) = bs @ [b]"
    and rel: "label_rel f b" "list_all2 label_rel fs (rev bs)" "chain (b # rev bs)"
    using inv by (rule height_invE) (use st' in blast)
  from resolved bs have ok: "resolved ?xs ?ts (bs @ [b])" by (simp add: resolved_state_def)
  then have b: "label_ok ?xs ?ts b" by (simp add: resolved_def)
  let ?s0 = "s\<lparr>ls_control := ls_control s\<lparr>cs_inner := bs\<rparr>\<rparr>"
  let ?E = "End (lb_results b) (lb_recorded_height b)"
  have "wp (for_each (lb_attached_breaks b) (patch_break (length ?xs))) (\<lambda>_ s'. \<exists>xs' ts'.
      s' = ?s0\<lparr>ls_instructions := xs', ls_br_targets := ts'\<rparr> \<and>
      patched (length ?xs) (lb_attached_breaks b) ?xs ?ts xs' ts') (\<lambda>_ _. False) ?s0"
    using patch_breaks [of "lb_attached_breaks b" ?s0 "length ?xs" "\<lambda>_ _. False"] b
    by (auto simp: label_ok_def)
  then have "wp (for_each (lb_attached_breaks b) (patch_break (length ?xs)))
     (\<lambda>_. wp (patch_if (length ?xs) (lb_kind b)) (\<lambda>_ s'. emits s 0 ?E s' \<and>
        cs_inner (ls_control s') = bs) (\<lambda>_ _. False)) (\<lambda>_ _. False) ?s0"
  proof (rule wp_mono)
    fix a s1
    assume "\<exists>xs' ts'. s1 = ?s0\<lparr>ls_instructions := xs', ls_br_targets := ts'\<rparr> \<and>
      patched (length ?xs) (lb_attached_breaks b) ?xs ?ts xs' ts'"
    then obtain xs' ts' where s1: "s1 = ?s0\<lparr>ls_instructions := xs', ls_br_targets := ts'\<rparr>"
      and patched: "patched (length ?xs) (lb_attached_breaks b) ?xs ?ts xs' ts'" by blast
    have len': "length xs' = length ?xs" "length ts' = length ?ts"
      using patched by (simp_all add: patched_def)
    have kind: "kind_ok xs' (lb_kind b)"
      by (rule kind_ok_shape [of ?xs]) (use b patched in \<open>auto simp: label_ok_def patched_def\<close>)
    show "wp (patch_if (length ?xs) (lb_kind b)) (\<lambda>_ s'. emits s 0 ?E s' \<and>
        cs_inner (ls_control s') = bs) (\<lambda>_ _. False) s1"
      by (rule wp_mono [OF patch_if_wp])
        (use kind resolved_end [OF ok patched] len' in \<open>auto simp: s1 emits_def\<close>)
  qed simp
  then have "wp (for_each (lb_attached_breaks b) (patch_break (length ?xs)))
     (\<lambda>_. wp (patch_if (length ?xs) (lb_kind b)) (\<lambda>_ s'. emits s 0 ?E s' \<and>
        wp (set_height (lb_recorded_height b + lb_results b))
          (\<lambda>_ cs'. height_inv (fs, vf_start f + vf_results f) cs') (\<lambda>_ _. False) (ls_control s'))
        (\<lambda>_ _. False)) (\<lambda>_ _. False) ?s0"
    by (elim wp_mono) (auto intro!: end_heights [OF rel(2,3,1)])
  then show ?thesis
    using rel(1) len bs
    by (simp add: lower_end_def pop_block_def u32_add_def label_rel_def is_end_def)
qed

section \<open>One operator\<close>

lemma operator_targets:
  assumes ok: "resolved_state s" and len: "length (ls_instructions s) \<le> U32_MAX"
    and arms: "length (ls_br_targets s) + op_arms operator \<le> U32_MAX"
    and kind: "operator = Op_Else \<Longrightarrow> \<exists>j. lb_kind (last (cs_inner (ls_control s))) = BK_If j None"
    and op: "operator \<noteq> Op_End" "\<And>e d. operator \<noteq> Op_BrTable (Inl e) d"
  shows "wlp (lower_operator types decls operator) (\<lambda>(x, eff) s'. emits s (op_arms operator) x s') s"
proof (cases operator)
  case (Op_BrTable targets d)
  with op(2) obtain ds where ds: "targets = Inr ds" by (cases targets) auto
  have "wlp (lower_br_table targets d)
      (\<lambda>(x, eff) s'. \<forall>ds. targets = Inr ds \<longrightarrow> emits s (length ds + 1) x s') s"
    by (rule lower_br_table_targets [OF ok len]) (use arms Op_BrTable ds in auto)
  then show ?thesis by (simp add: Op_BrTable ds lower_operator.simps)
next
  case Op_Else
  with kind obtain j where "lb_kind (last (cs_inner (ls_control s))) = BK_If j None" by blast
  from lower_else_targets [OF ok len this] Op_Else show ?thesis
    by (simp add: lower_operator.simps)
next
  case Op_Unreachable
  show ?thesis
    using ok by (auto simp: Op_Unreachable lower_operator.simps
        intro!: wlp_set_unreachable_grown emits_plain)
next
  case Op_End
  with op(1) show ?thesis by simp
qed (use ok len op in \<open>auto simp: lower_operator.simps emits_plain
      simp del: lower_const.simps lower_numeric.simps lower_memory.simps lower_variable.simps
      intro: simple_lowering_emits simple_lowerings simple_memory simple_variable
        lower_br_targets lower_br_if_targets lower_return_targets lower_block_targets
        lower_loop_targets lower_if_targets\<close>)

lemma operator_heights:
  assumes inv: "height_inv st (ls_control s)" "cs_inner (ls_control s) \<noteq> []"
    and small: "small_types types"
    and arms: "length (ls_br_targets s) + op_arms operator \<le> U32_MAX"
    and st': "vstep types decls operator st = Some st'" and op: "operator \<noteq> Op_End"
  shows "lowers_to st' (lower_operator types decls operator) s"
proof (cases operator)
  case Op_Unreachable
  with st' set_unreachable_heights [OF inv(1)] show ?thesis
    by (simp add: lowers_to_def lower_operator.simps vstep_def)
next
  case (Op_Block bt)
  with st' lower_block_heights [OF inv small] show ?thesis
    by (simp add: lower_operator.simps vstep_def)
next
  case (Op_Loop bt)
  with st' lower_loop_heights [OF inv small] show ?thesis
    by (simp add: lower_operator.simps vstep_def)
next
  case (Op_If bt)
  with st' obtain st1 where "vpop 1 st = Some st1" "vopen V_If types bt st1 = Some st'"
    by (fastforce simp: vstep_def bind_eq_Some_conv)
  from lower_if_heights [OF inv small this] Op_If show ?thesis
    by (simp add: lower_operator.simps)
next
  case Op_Else
  with st' lower_else_heights [OF inv] show ?thesis
    by (auto simp: lower_operator.simps vstep_def bind_eq_Some_conv split: if_splits)
next
  case (Op_Br d)
  with st' obtain st1 where d: "d < length (fst st)"
    and st1: "vpop (label_arity (fst st ! d)) st = Some st1" "vdead st1 = Some st'"
    by (fastforce simp: vstep_def bind_eq_Some_conv split: if_splits)
  from br_heights [OF inv(1) d st1(2)] vpop_frames [OF st1(1)] Op_Br show ?thesis
    by (simp add: lower_operator.simps)
next
  case (Op_BrIf d)
  with st' obtain st1 st2 where d: "d < length (fst st)" and st1: "vpop 1 st = Some st1"
    and st2: "vpop (label_arity (fst st1 ! d)) st1 = Some st2"
      "vpush (label_arity (fst st1 ! d)) st2 = Some st'"
    by (fastforce simp: vstep_def bind_eq_Some_conv Let_def split: if_splits)
  from br_if_heights [OF inv(1) d st1 st2] Op_BrIf show ?thesis
    by (simp add: lower_operator.simps)
next
  case (Op_BrTable targets d)
  with st' obtain ds where ds: "targets = Inr ds" by (cases targets) (auto simp: vstep_def op_effect_def)
  with st' Op_BrTable obtain st1 st2 where st1: "vpop 1 st = Some st1"
    "vpop (label_arity (fst st1 ! d)) st1 = Some st2" "vdead st2 = Some st'"
    and d: "\<And>e. e \<in> set (ds @ [d]) \<Longrightarrow> e < length (fst st)"
    by (fastforce simp: vstep_def bind_eq_Some_conv split: if_splits)
  then have "fst st2 = fst st" by (auto dest!: vpop_frames)
  from br_table_heights [OF inv(1) d _ st1(3) this] arms Op_BrTable ds show ?thesis
    by (simp add: lower_operator.simps)
next
  case Op_Return
  with st' obtain st1 where ne: "fst st \<noteq> []"
    and st1: "vpop (vf_results (last (fst st))) st = Some st1" "vdead st1 = Some st'"
    by (fastforce simp: vstep_def bind_eq_Some_conv split: if_splits)
  from return_heights [OF inv(1) ne st1(2)] vpop_frames [OF st1(1)] Op_Return show ?thesis
    by (simp add: lower_operator.simps)
next
  case Op_End
  with op show ?thesis by simp
qed (use st' in \<open>auto simp: vstep_def bind_eq_Some_conv simp del: vpush.simps vpop.simps
      split: option.splits intro: simple_heights [OF inv small]\<close>)

lemma vstep_frames:
  assumes "vstep types decls operator st = Some st'"
  shows "fst st \<noteq> []" and "operator \<noteq> Op_End \<Longrightarrow> fst st' \<noteq> []"
proof -
  have dead: "fst st1 \<noteq> [] \<and> fst st2 \<noteq> []" if "vdead st1 = Some st2" for st1 st2
    using that by (cases st1 rule: vdead.cases) auto
  have "fst st \<noteq> [] \<and> (operator \<noteq> Op_End \<longrightarrow> fst st' \<noteq> [])"
    using assms
    by (cases operator)
      (fastforce simp: vstep_def bind_eq_Some_conv Let_def vopen_def vclose_def
        split: option.splits if_splits list.splits sum.splits
        dest!: vpop_frames vpush_frames dead)+
  then show "fst st \<noteq> []" and "operator \<noteq> Op_End \<Longrightarrow> fst st' \<noteq> []" by auto
qed

section \<open>The whole body\<close>

definition body_inv :: "vstate \<Rightarrow> lower_state \<Rightarrow> bool" where
  "body_inv st s \<longleftrightarrow> resolved_state s \<and> height_inv st (ls_control s) \<and>
     length (ls_offsets s) = length (ls_instructions s) \<and>
     (fst st = [] \<longrightarrow> ls_instructions s \<noteq> [] \<and> is_end (last (ls_instructions s)))"

lemma effect_keeps_labels:
  "wlp (apply_stack_effect eff) (\<lambda>_ cs'. cs_inner cs' = cs_inner cs) cs"
  by (cases eff) (auto simp: apply_stack_effects_to_height_def set_height_def note_height_def)

lemma finish_step:
  assumes eff: "wp (apply_stack_effect eff) (\<lambda>_ cs'. height_inv st' cs') (\<lambda>_ _. False) (ls_control s')"
    and emits: "emits s n x s'" and off: "offset \<le> U32_MAX"
    and len: "length (ls_offsets s) = length (ls_instructions s)"
    and last: "fst st' = [] \<Longrightarrow> is_end x"
  shows "wp (bnd (control (apply_stack_effect eff)) (\<lambda>_. emit_instruction x offset))
    (\<lambda>_ t. body_inv st' t \<and> length (ls_instructions t) = length (ls_instructions s) + 1 \<and>
       length (ls_br_targets t) = length (ls_br_targets s) + n) (\<lambda>_ _. False) s'"
proof -
  have "wp (apply_stack_effect eff) (\<lambda>_ cs'. height_inv st' cs' \<and>
      cs_inner cs' = cs_inner (ls_control s')) (\<lambda>_ _. False) (ls_control s')"
    using eff effect_keeps_labels by (rule wp_wlp_conj)
  then show ?thesis
    unfolding wp_bnd wp_on_field
    by (rule wp_mono) (use emits off len last in
        \<open>auto simp: emit_instruction_def emits_def body_inv_def resolved_state_def\<close>)
qed

lemma step_ok:
  assumes inv: "body_inv st s" and small: "small_types types"
    and st': "vstep types decls operator st = Some st'" and off: "offset \<le> U32_MAX"
    and len: "length (ls_instructions s) \<le> U32_MAX"
    and arms: "length (ls_br_targets s) + op_arms operator \<le> U32_MAX"
  shows "wp (lower_step types decls operator offset) (\<lambda>_ t. body_inv st' t \<and>
     length (ls_instructions t) = length (ls_instructions s) + 1 \<and>
     length (ls_br_targets t) = length (ls_br_targets s) + op_arms operator) (\<lambda>_ _. False) s"
proof -
  from inv have hs: "height_inv st (ls_control s)" and rs: "resolved_state s"
    and offs: "length (ls_offsets s) = length (ls_instructions s)"
    by (simp_all add: body_inv_def)
  from vstep_frames(1) [OF st'] hs have ne: "cs_inner (ls_control s) \<noteq> []"
    by (auto dest: height_inv_length)
  have "wp (lower_operator types decls operator) (\<lambda>(x, eff) s'.
      emits s (op_arms operator) x s' \<and> (fst st' = [] \<longrightarrow> is_end x) \<and>
      wp (apply_stack_effect eff) (\<lambda>_ cs'. height_inv st' cs') (\<lambda>_ _. False) (ls_control s'))
      (\<lambda>_ _. False) s"
  proof (cases "operator = Op_End")
    case True
    with st' obtain f fs where "vclose st = Some (f, fs)" "st' = (fs, vf_start f + vf_results f)"
      by (auto simp: vstep_def bind_eq_Some_conv split: if_splits)
    from lower_end_heights [OF hs ne rs len this(1)] this(2) True show ?thesis
      by (auto simp: lower_operator.simps elim: wp_mono)
  next
    case False
    have "\<exists>j. lb_kind (last (cs_inner (ls_control s))) = BK_If j None" if else': "operator = Op_Else"
    proof -
      from st' else' obtain f fs where vc: "vclose st = Some (f, fs)" and k: "vf_kind f = V_If"
        by (auto simp: vstep_def bind_eq_Some_conv split: if_splits)
      obtain h where st: "st = (f # fs, h)" using vc by (rule vcloseE)
      obtain bs b where "cs_inner (ls_control s) = bs @ [b]" "label_rel f b"
        using hs ne by (rule height_invE) (use st in blast)
      with k show ?thesis by (auto simp: label_rel_def dest!: same_kind_If)
    qed
    moreover have "operator \<noteq> Op_BrTable (Inl e) d" for e d
      using st' by (auto simp: vstep_def op_effect_def)
    ultimately have "wlp (lower_operator types decls operator)
        (\<lambda>(x, eff) s'. emits s (op_arms operator) x s') s"
      using operator_targets [OF rs len arms] False by blast
    with operator_heights [OF hs ne small arms st' False]
    have "wp (lower_operator types decls operator) (\<lambda>r s'.
        (case r of (x, eff) \<Rightarrow> \<lambda>s'. wp (apply_stack_effect eff) (\<lambda>_ cs'. height_inv st' cs')
           (\<lambda>_ _. False) (ls_control s')) s' \<and>
        (case r of (x, eff) \<Rightarrow> \<lambda>s'. emits s (op_arms operator) x s') s') (\<lambda>_ _. False) s"
      unfolding lowers_to_def by (rule wp_wlp_conj)
    then show ?thesis
      by (rule wp_mono) (use vstep_frames(2) [OF st' False] in auto)
  qed
  then show ?thesis
    unfolding lower_step_def wp_bnd
  proof (rule wp_mono, goal_cases)
    case (1 r s')
    then obtain x eff where r: "r = (x, eff)" by (cases r)
    with 1 have "wp (bnd (control (apply_stack_effect eff)) (\<lambda>_. emit_instruction x offset))
      (\<lambda>_ t. body_inv st' t \<and> length (ls_instructions t) = length (ls_instructions s) + 1 \<and>
       length (ls_br_targets t) = length (ls_br_targets s) + op_arms operator) (\<lambda>_ _. False) s'"
      by (intro finish_step) (use off offs in auto)
    with r show ?case by simp
  qed
qed

lemma loop_ok:
  assumes "body_inv st s" "small_types types" "vrun types decls reader st = Some st'"
    and "length (ls_instructions s) + length reader \<le> U32_MAX"
    and "length (ls_br_targets s) + total_arms reader \<le> U32_MAX"
  shows "wp (emit_loop types decls reader) (\<lambda>_ t. body_inv st' t \<and>
     length (ls_instructions t) = length (ls_instructions s) + length reader) (\<lambda>_ _. False) s"
  using assms
proof (induction reader arbitrary: st s)
  case Nil
  then show ?case by simp
next
  case (Cons item reader)
  from Cons.prems(3) obtain operator offset st1 where item: "item = Inr (operator, offset)"
    and off: "offset \<le> U32_MAX" and st1: "vstep types decls operator st = Some st1"
    and rest: "vrun types decls reader st1 = Some st'"
    by (cases item) (auto simp: bind_eq_Some_conv split: if_splits)
  have "wp (lower_step types decls operator offset) (\<lambda>_ t. body_inv st1 t \<and>
     length (ls_instructions t) = length (ls_instructions s) + 1 \<and>
     length (ls_br_targets t) = length (ls_br_targets s) + op_arms operator) (\<lambda>_ _. False) s"
    by (rule step_ok [OF Cons.prems(1,2) st1 off])
      (use Cons.prems(4,5) in \<open>auto simp: total_arms_def item\<close>)
  then show ?case
    unfolding item emit_loop.simps wp_bnd
  proof (rule wp_mono)
    fix a t
    assume t: "body_inv st1 t \<and> length (ls_instructions t) = length (ls_instructions s) + 1 \<and>
     length (ls_br_targets t) = length (ls_br_targets s) + op_arms operator"
    with Cons.prems(4,5) have "wp (emit_loop types decls reader) (\<lambda>_ t'. body_inv st' t' \<and>
        length (ls_instructions t') = length (ls_instructions t) + length reader) (\<lambda>_ _. False) t"
      by (intro Cons.IH [OF _ Cons.prems(2) rest]) (auto simp: total_arms_def item)
    with t show "wp (emit_loop types decls reader) (\<lambda>_ t. body_inv st' t \<and> length (ls_instructions t) =
        length (ls_instructions s) + length (Inr (operator, offset) # reader)) (\<lambda>_ _. False) t"
      by (simp add: item)
  qed simp
qed

text \<open>What a finished body promises its driver: every jump lands in the body.\<close>

fun jumps_ok :: "StackInstruction list \<Rightarrow> StackBrTableTarget list \<Rightarrow> StackInstruction \<Rightarrow> bool" where
  "jumps_ok xs ts (Br t a h) = target_ok xs t"
| "jumps_ok xs ts (BrIf t a h) = target_ok xs t"
| "jumps_ok xs ts (Return t a h) = end_at xs t"
| "jumps_ok xs ts (BrTable st n) =
     (0 < n \<and> st + n \<le> length ts \<and> (\<forall>k. st \<le> k \<and> k < st + n \<longrightarrow> target_ok xs (bt_target_index (ts ! k))))"
| "jumps_ok xs ts (If e n) = (end_at xs n \<and> (\<forall>k. e = Some k \<longrightarrow> k < n))"
| "jumps_ok xs ts (Else n) = end_at xs n"
| "jumps_ok xs ts _ = True"

definition body_ok :: "StackInstruction list \<Rightarrow> StackBrTableTarget list \<Rightarrow> bool" where
  "body_ok xs ts \<longleftrightarrow> xs \<noteq> [] \<and> is_end (last xs) \<and> (\<forall>x \<in> set xs. jumps_ok xs ts x)"

lemma instr_ok_closed: "instr_ok xs ts [] i x = jumps_ok xs ts x"
  by (cases x) (simp_all add: waits_def opened_def)

lemma initial_body_inv:
  assumes "params \<le> U32_MAX" "results \<le> U32_MAX"
  shows "body_inv ([func_frame params results], 0) (initial_lower_state params results)"
  using assms
  by (simp add: body_inv_def initial_lower_state_def resolved_state_def resolved_def label_ok_def
      kind_ok_def func_label_def func_frame_def default_control_stack_def height_inv_def label_rel_def)

lemma lowered_body:
  assumes "valid_body types decls params results reader"
  shows "\<exists>instrs offs layout.
    emit_instructions_for_func reader params results types decls = Ok (instrs, offs, layout) \<and>
    length instrs = length reader \<and> length offs = length instrs \<and>
    body_ok instrs (br_targets_arena layout)"
proof -
  from assms obtain h where run: "vrun types decls reader ([func_frame params results], 0) = Some ([], h)"
    and small: "small_types types" and pr: "params \<le> U32_MAX" "results \<le> U32_MAX"
    and len: "length reader \<le> U32_MAX" "total_arms reader \<le> U32_MAX"
    by (auto simp: valid_body_def split: option.splits)
  let ?s0 = "initial_lower_state params results"
  have "wp (emit_loop types decls reader) (\<lambda>_ t. body_inv ([], h) t \<and>
     length (ls_instructions t) = length (ls_instructions ?s0) + length reader) (\<lambda>_ _. False) ?s0"
    by (rule loop_ok [OF initial_body_inv [OF pr] small run])
      (use len in \<open>simp_all add: initial_lower_state_def\<close>)
  then show ?thesis
  proof (cases rule: wp_cases)
    case (Ok a t)
    then have inv: "body_inv ([], h) t" and n: "length (ls_instructions t) = length reader"
      by (simp_all add: initial_lower_state_def)
    then have "cs_inner (ls_control t) = []"
      using height_inv_length [of "([], h)" "ls_control t"] by (simp add: body_inv_def)
    with inv have "body_ok (ls_instructions t) (ls_br_targets t)"
      by (auto simp: body_inv_def body_ok_def resolved_state_def resolved_def instr_ok_closed in_set_conv_nth)
    with Ok(1) inv n show ?thesis
      by (auto simp: emit_instructions_for_func_def body_inv_def)
  qed simp
qed

end
