(* ===== verification/ControlProperties.thy ===== *)
theory ControlProperties
  imports FrameProperties LoweringTotal
begin

text \<open>
  Control transfer in the stack machine: branches, branch tables, indirect calls, and where an
  instruction of a lowered body can jump to.
\<close>

section \<open>Branches\<close>

lemma exec_br_wp:
  assumes "operands s (us @ ws @ rs)" and "h + callee_frame_base_height cb = length us"
    and "arity = length rs" and "length us \<le> U32_MAX"
  shows "wp (exec_br cb t arity h)
    (\<lambda>r s'. r = JumpTo t \<and> operands s' (us @ rs) \<and> same_but_frame s s') E s"
proof -
  have "wp (truncate_by_preserving_arity (length us) (length rs)) (\<lambda>_ s'. holds s' (us @ rs)) E' (frame s)" for E'
    using assms(1) [unfolded operands_def] by (rule value_stack.unwind_wp) auto
  with assms(2-4) show ?thesis
    unfolding exec_br_def unwind_to_def
    by (auto simp: u32_add_def elim!: wp_mono)
qed

lemma wp_select_arm:
  assumes "length ts = n" "0 < n"
  shows "wp (bnd (lift_result (usize_sub n 1)) (\<lambda>tc.
      bnd (lift_result (index ts (if tc \<le> x then tc else x))) k)) Q E s = wp (k (ts ! min x (n - 1))) Q E s"
  using assms by (auto simp: usize_sub_def index_def min_def)

lemma exec_br_table_wp:
  assumes "operands s (us @ ws @ rs @ [v])" and "0 < n" and "st + n \<le> length (br_targets_arena layout)"
    and "b = br_targets_arena layout ! (st + min (unat (as_i32 v)) (n - 1))"
    and "bt_recorded_height b + callee_frame_base_height cb = length us"
    and "bt_arity b = length rs" and "length us \<le> U32_MAX"
  shows "wp (exec_br_table layout cb st n)
    (\<lambda>r s'. r = JumpTo (bt_target_index b) \<and> operands s' (us @ rs) \<and> same_but_frame s s') E s"
proof -
  let ?i = "min (unat (as_i32 v)) (n - 1)"
  have b: "sub_slice (br_targets_arena layout) st n ! ?i = b"
    using assms(2-4) by (simp add: nth_sub_slice)
  have "wp (exec_br cb (bt_target_index b) (bt_arity b) (bt_recorded_height b))
      (\<lambda>r s'. r = JumpTo (bt_target_index b) \<and> operands s' (us @ rs) \<and> same_but_frame s s') E (s\<lparr>frame := f\<rparr>)"
    if "holds f (us @ ws @ rs)" for f
    by (rule wp_mono [OF exec_br_wp [OF _ assms(5-7)]]) (use that in auto)
  moreover have "length (sub_slice (br_targets_arena layout) st n) = n"
    using assms(3) by simp
  ultimately show ?thesis
    unfolding exec_br_table_def Let_def
    using assms(1-3) b
    by (auto simp del: wp_bnd One_nat_def simp: wp_bnd [of pop_usize] wp_select_arm
        intro!: pop_usize_wp [of _ "us @ ws @ rs" v])
qed

text \<open>C10: a taken branch, \<open>return\<close> included, jumps to its recorded target, keeps the label's
  values on top and drops everything above the label's height; \<open>br_table\<close> does so with the
  arm its index selects and with the last arm for any index out of range; \<open>br_if\<close> does so when
  its condition is not zero and otherwise only pops the condition.\<close>

theorem branches_unwind_to_their_label:
  assumes "operands s (us @ ws @ rs @ [v])" and "0 < n" and "st + n \<le> length (br_targets_arena layout)"
    and "b = br_targets_arena layout ! (st + min (unat (as_i32 v)) (n - 1))"
    and "bt_recorded_height b + callee_frame_base_height cb = length us"
    and "bt_arity b = length rs" and "length us \<le> U32_MAX"
  shows "wp (execute fe D R (BrTable st n) md layout cb imported)
      (\<lambda>r s'. r = JumpTo (bt_target_index b) \<and> operands s' (us @ rs) \<and> same_but_frame s s') E s \<and>
    wp (execute fe D R (BrIf t (length rs) (bt_recorded_height b)) md layout cb imported)
      (\<lambda>r s'. same_but_frame s s' \<and>
        (if as_i32 v \<noteq> 0 then r = JumpTo t \<and> operands s' (us @ rs)
         else r = Next \<and> operands s' (us @ ws @ rs))) E s \<and>
    wp (bnd pop_value (\<lambda>_. execute fe D R (Br t (length rs) (bt_recorded_height b)) md layout cb imported))
      (\<lambda>r s'. r = JumpTo t \<and> operands s' (us @ rs) \<and> same_but_frame s s') E s \<and>
    execute fe D R (Return t a h) md layout cb imported = execute fe D R (Br t a h) md layout cb imported"
proof (intro conjI)
  show "wp (execute fe D R (BrTable st n) md layout cb imported)
      (\<lambda>r s'. r = JumpTo (bt_target_index b) \<and> operands s' (us @ rs) \<and> same_but_frame s s') E s"
    unfolding execute.simps by (rule exec_br_table_wp [OF assms])
  have br: "wp (exec_br cb t (length rs) (bt_recorded_height b))
      (\<lambda>r s'. r = JumpTo t \<and> operands s' (us @ rs) \<and> same_but_frame s s') E (s\<lparr>frame := f\<rparr>)"
    if "holds f (us @ ws @ rs)" for f
    by (rule wp_mono [OF exec_br_wp [OF _ assms(5) refl assms(7)]]) (use that in auto)
  have v: "operands s ((us @ ws @ rs) @ [v])" using assms(1) by simp
  show "wp (execute fe D R (BrIf t (length rs) (bt_recorded_height b)) md layout cb imported)
      (\<lambda>r s'. same_but_frame s s' \<and>
        (if as_i32 v \<noteq> 0 then r = JumpTo t \<and> operands s' (us @ rs)
         else r = Next \<and> operands s' (us @ ws @ rs))) E s"
    unfolding execute.simps exec_br_if_def wp_bnd
    by (rule pop_i32_wp [OF v]) (auto intro: wp_mono [OF br])
  show "wp (bnd pop_value (\<lambda>_. execute fe D R (Br t (length rs) (bt_recorded_height b)) md layout cb imported))
      (\<lambda>r s'. r = JumpTo t \<and> operands s' (us @ rs) \<and> same_but_frame s s') E s"
    unfolding execute.simps wp_bnd by (rule pop_value_wp [OF v]) (rule br)
qed simp

theorem branches_unwind_to_their_label_witness:
  "wp (execute demo_floats linear_memory demo_registry (BrTable 0 2) demo_module
       \<lparr>br_targets_arena = [\<lparr>bt_target_index = 7, bt_arity = 1, bt_recorded_height = 0\<rparr>,
          \<lparr>bt_target_index = 9, bt_arity = 1, bt_recorded_height = 1\<rparr>]\<rparr>
       \<lparr>base_height = 0, callee_frame_base_height = 1\<rparr> 0)
     (\<lambda>r s'. r = JumpTo 9 \<and> operands s' [10, 20, 40]) (\<lambda>_ _. False) (page_instance [10, 20, 30, 40, 5])"
proof -
  have "unat (as_i32 5) = 5" by (simp add: as_i32_def)
  then show ?thesis
    by (intro wp_mono [OF branches_unwind_to_their_label [where us = "[10, 20]" and ws = "[30]" and
          rs = "[40]" and v = 5, OF _ _ _ refl, THEN conjunct1]])
      (use page_instance_at [of "[10, 20, 30, 40, 5]"] in \<open>auto simp: at_linear_def min_def\<close>)
qed

section \<open>Jumps stay in the body\<close>

text \<open>Which instructions report what to the driver.\<close>

lemma wlp_trivial [simp]: "wlp m (\<lambda>_ _. True) = (\<lambda>_. True)"
  by (rule ext) (simp add: wlp_True)

lemma wlp_split_if [simp]: "wlp (if b then m else n) Q = (if b then wlp m Q else wlp n Q)"
  by simp

lemma wlp_push_next [simp]: "wlp (push_next v) (\<lambda>r _. r = Next) = (\<lambda>_. True)"
  by (simp add: push_next_def)

fun is_control :: "StackInstruction \<Rightarrow> bool" where
  "is_control (Call _ _) = True" | "is_control (CallIndirect _ _) = True"
| "is_control (If _ _) = True" | "is_control (Else _) = True"
| "is_control (Br _ _ _) = True" | "is_control (BrIf _ _ _) = True"
| "is_control (BrTable _ _) = True" | "is_control (Return _ _ _) = True"
| "is_control _ = False"

lemma const_next [simp]: "wlp (exec_const c) (\<lambda>r _. r = Next) = (\<lambda>_. True)"
  by (cases c) simp_all

lemma numeric_next [simp]: "wlp (exec_numeric fe n) (\<lambda>r _. r = Next) = (\<lambda>_. True)"
  by (cases n) (simp_all add: exec_unary_def exec_binary_def)

lemma wlp_case_sum [simp]:
  "(\<And>x. wlp (f x) Q = (\<lambda>_. True)) \<Longrightarrow> (\<And>y. wlp (g y) Q = (\<lambda>_. True)) \<Longrightarrow>
     wlp (case_sum f g r) Q = (\<lambda>_. True)"
  by (cases r) simp_all

lemma plain_next: "\<not> is_control x \<Longrightarrow> wlp (execute fe D R x md layout cb imported) (\<lambda>r _. r = Next) s"
  by (cases x)
    (auto simp: exec_ref_is_null_def exec_memory_size_def exec_memory_grow_def
      exec_memory_copy_def exec_memory_fill_def exec_memory_init_def exec_data_drop_def exec_load_def
      exec_store_def exec_local_get_def exec_local_set_def exec_local_tee_def exec_global_get_def
      exec_global_set_def exec_select_def exec_end_def frame_height_def Let_def
      split: option.splits)

definition lands :: "'x list \<Rightarrow> 'base Step \<Rightarrow> 's \<Rightarrow> bool" where
  "lands instrs r s \<longleftrightarrow> (case r of JumpTo t \<Rightarrow> t < length instrs | _ \<Rightarrow> True)"

lemma lands_simps [simp]:
  "lands instrs Next = (\<lambda>_. True)" "lands instrs (StepCall f b ind) = (\<lambda>_. True)"
  "lands instrs (JumpTo t) = (\<lambda>_. t < length instrs)"
  by (rule ext, simp add: lands_def)+

lemma target_ok_bound: "target_ok xs t \<Longrightarrow> t < length xs"
  by (auto simp: target_ok_def end_at_def)

lemma br_lands [simp]: "t < length instrs \<Longrightarrow> wlp (exec_br cb t a h) (lands instrs) = (\<lambda>_. True)"
  by (simp add: exec_br_def)

lemma dispatch_lands [simp]: "wlp (dispatch_call R md imported f n ind) (lands instrs) = (\<lambda>_. True)"
  by (simp add: dispatch_call_def frame_height_def Let_def)

lemma br_table_lands:
  assumes "0 < n" and "\<forall>k. st \<le> k \<and> k < st + n \<longrightarrow> target_ok instrs (bt_target_index (br_targets_arena layout ! k))"
  shows "wlp (exec_br_table layout cb st n) (lands instrs) s"
proof (cases "length (br_targets_arena layout) < st + n")
  case False
  have "bt_target_index (sub_slice (br_targets_arena layout) st n ! i) < length instrs" if "i < n" for i
    using that False assms by (simp add: nth_sub_slice target_ok_bound)
  with False show ?thesis
    by (simp add: exec_br_table_def Let_def usize_sub_def)
qed (simp add: exec_br_table_def Let_def)

lemma control_lands:
  assumes "is_control x" and "jumps_ok instrs (br_targets_arena layout) x"
  shows "wlp (execute fe D R x md layout cb imported) (lands instrs) s"
proof (cases x)
  case (CallIndirect ty tab)
  have "wlp (exec_call_indirect R md imported ty tab) (lands instrs) s"
    by (auto simp: exec_call_indirect_def Let_def intro!: wlp_mono [OF wlp_True] split: option.splits)
  with CallIndirect show ?thesis by simp
next
  case (If e n)
  with assms show ?thesis
    by (auto simp: exec_if_def u32_add_eq_Ok end_at_def intro!: wlp_mono [OF wlp_True] split: option.splits)
next
  case (BrTable st n)
  with assms br_table_lands [of n st instrs layout cb s] show ?thesis by simp
next
  case (BrIf t a h)
  with assms show ?thesis
    by (auto simp: exec_br_if_def target_ok_bound intro!: wlp_mono [OF wlp_True])
qed (use assms in \<open>simp_all add: exec_call_def target_ok_bound end_at_def\<close>)

lemma step_stays_in_body:
  assumes "body_ok instrs (br_targets_arena layout)" and "pc < length instrs"
    and "execute fe D R (instrs ! pc) md layout cb imported s = Ok (r, s')"
  shows "(case r of Next \<Rightarrow> pc + 1 \<le> length instrs | JumpTo t \<Rightarrow> t < length instrs
    | StepCall _ _ _ \<Rightarrow> pc + 1 < length instrs)"
proof (cases "is_control (instrs ! pc)")
  case False
  with plain_next [of "instrs ! pc" fe D R md layout cb imported s] assms(2,3) show ?thesis
    by (simp add: wlp_def)
next
  case True
  have ok: "jumps_ok instrs (br_targets_arena layout) (instrs ! pc)" and last: "is_end (last instrs)" "instrs \<noteq> []"
    using assms(1,2) by (auto simp: body_ok_def)
  from True have "pc \<noteq> length instrs - 1"
    using last by (cases "instrs ! pc") (auto simp: last_conv_nth is_end_def)
  with control_lands [OF True ok, of fe D R md cb imported s] assms(2,3) show ?thesis
    by (auto simp: wlp_def lands_def split: Step.splits)
qed


lemma demo_branch:
  "demo_exec (Br 1 0 0) (page_instance []) = Ok (JumpTo 1, page_instance [])"
  by (simp add: exec_br_def unwind_to_def bnd_def lift_result_def u32_add_def demo_base_def on_field_def
      truncate_by_preserving_arity_def gets_def ret_def modify_def page_instance_def)


section \<open>Indirect calls\<close>


definition one_type_module :: "StackModule" where
  "one_type_module = \<lparr>md_types = [\<lparr>ft_params = [T_I32], ft_results = []\<rparr>],
     md_func_decls = [\<lparr>fd_kind = Local, fd_ty = 0\<rparr>], md_globals = [], md_imported_func_count = 0,
     md_func_bodies = [], md_exported_func_index_to_name = (\<lambda>_. None)\<rparr>"


end
