(* ===== verification/LoweringProperties.thy ===== *)
theory LoweringProperties
  imports LoweringTotal Preservation
begin

text \<open>
  What the lowering pass guarantees of its result, and how it fails.
\<close>

section \<open>Evaluating the pass\<close>

text \<open>The lowering, ready to be evaluated on a concrete body.\<close>

lemmas lower_defs =
  lower_step_def lower_operator.simps lower_call_def lower_end_def lower_block_def lower_loop_def
  lower_if_def lower_else_def lower_br_def lower_br_if_def lower_br_table_def lower_return_def
  resolve_branch_def attach_break_def with_break_def next_index_def emit_instruction_def
  pop_block_def get_block_def get_curr_block_def update_block_def update_curr_block_def
  block_index_def push_block_def add_block_def recorded_height_of_def set_height_def note_height_def
  apply_stack_effects_to_height_def patch_if_def patch_break_def set_instruction_def
  get_instruction_def set_unreachable_traversing_def end_unreachable_traversing_def
  bnd_def ret_def gets_def modify_def on_field_def lift_result_def index_def u32_add_def u32_sub_def
  usize_sub_def panic_def fail_def Let_def

lemmas valid_defs =
  valid_body_def vstep_def op_effect_def call_effect_def func_frame_def vclose_def vopen_def
  blocktype_arity_def label_arity_def small_types_def total_arms_def Let_def

section \<open>Validated bodies lower\<close>

text \<open>A body with every kind of label and branch: an \<open>if\<close> with both arms inside a loop inside a
  block, and a \<open>br_table\<close> whose arms name the block, the loop and the function.\<close>

definition demo_types :: "FuncType list" where
  "demo_types = [\<lparr>ft_params = [T_I32], ft_results = [T_I32]\<rparr>]"

definition demo_reader :: OperatorsReader where
  "demo_reader = [
     Inr (Op_Block BT_Empty, 30), Inr (Op_Loop BT_Empty, 32),
     Inr (Op_LocalGet 0, 34), Inr (Op_If (BT_Type T_I32), 36), Inr (Op_I32Const 1, 38),
     Inr (Op_Else, 40), Inr (Op_LocalGet 0, 41), Inr (Op_BrIf 2, 43), Inr (Op_I32Const 2, 45),
     Inr (Op_End, 47), Inr (Op_BrTable (Inr [1, 0]) 1, 48), Inr (Op_End, 53), Inr (Op_End, 54),
     Inr (Op_LocalGet 0, 55), Inr (Op_Return, 57), Inr (Op_End, 58)]"

lemma demo_reader_valid: "valid_body demo_types [] 1 1 demo_reader"
  by (simp add: demo_types_def demo_reader_def valid_defs)

definition demo_lowered :: "StackInstruction list" where
  "demo_lowered = [Block, Loop, LocalGet 0, If (Some 5) 9, Const (I32Const 1), Else 9,
     LocalGet 0, BrIf 12 0 0, Const (I32Const 2), End 1 0, BrTable 0 3, End 0 0, End 0 0,
     LocalGet 0, Return 15 1 0, End 1 0]"

lemma list_update_numeral: "(x # xs)[numeral v := y] = x # xs[pred_numeral v := y]"
  by (simp add: numeral_eq_Suc)

lemma demo_reader_lowers:
  "emit_instructions_for_func demo_reader 1 1 demo_types [] = Ok (demo_lowered,
     [30, 32, 34, 36, 38, 40, 41, 43, 45, 47, 48, 53, 54, 55, 57, 58],
     \<lparr>br_targets_arena = [\<lparr>bt_target_index = 12, bt_arity = 0, bt_recorded_height = 0\<rparr>,
        \<lparr>bt_target_index = 1, bt_arity = 0, bt_recorded_height = 0\<rparr>,
        \<lparr>bt_target_index = 12, bt_arity = 0, bt_recorded_height = 0\<rparr>]\<rparr>)"
  by (simp add: emit_instructions_for_func_def demo_reader_def demo_lowered_def demo_types_def
      lower_defs func_label_def initial_lower_state_def default_control_stack_def
      lower_br_table_arm_def push_br_target_def list_update_numeral)

section \<open>Offsets\<close>

text \<open>The pass records the offset of every operator, in order.\<close>

lemma keeps_offsets_helpers [keeps_intros]:
  "keeps ls_offsets (control m)" "keeps ls_offsets next_index"
  "keeps ls_offsets (set_instruction i x)" "keeps ls_offsets (get_instruction i)"
  "keeps ls_offsets (push_br_target t)" "keeps ls_offsets (attach_break i br)"
  by (auto simp: next_index_def set_instruction_def get_instruction_def push_br_target_def
      attach_break_def intro!: keeps_intros)

lemma keeps_offsets_resolve [keeps_intros]: "keeps ls_offsets (resolve_branch d)"
  by (auto simp: resolve_branch_def intro!: keeps_intros split: option.split)

lemma keeps_offsets_arms [keeps_intros]: "keeps ls_offsets (lower_br_table_arms i st k ds n)"
  by (induction i st k ds n rule: lower_br_table_arms.induct)
    (auto simp: lower_br_table_arm_def intro!: keeps_intros split: option.split)

lemma keeps_offsets_patch [keeps_intros]:
  "keeps ls_offsets (patch_break i p)" "keeps ls_offsets (patch_if i kind)"
  by (cases p; auto simp: patch_break_def intro!: keeps_intros split: StackInstruction.split)
    (auto simp: patch_if_def intro!: keeps_intros
      split: BlockKind.split StackInstruction.split option.split)

lemma keeps_offsets_numeric [keeps_intros]: "keeps ls_offsets (lower_numeric n)"
  by (cases n) (auto intro: keeps_intros)

lemma keeps_offsets_memory [keeps_intros]: "keeps ls_offsets (lower_memory operator)"
  by (cases operator) (auto intro!: keeps_intros)

lemma keeps_offsets_variable [keeps_intros]: "keeps ls_offsets (lower_variable operator)"
  by (cases operator) (auto intro!: keeps_intros)

lemma keeps_offsets_operator: "keeps ls_offsets (lower_operator types decls operator)"
  by (cases operator)
    (auto simp: lower_operator.simps lower_load_def lower_store_def lower_call_def
      lower_call_indirect_def lower_block_def lower_loop_def lower_if_def lower_else_def lower_br_def
      lower_br_if_def lower_br_table_def lower_return_def lower_end_def
      simp del: lower_numeric.simps lower_memory.simps lower_variable.simps
      intro!: keeps_intros split: BlockKind.split option.split sum.split prod.split)

fun item_offset :: "string + Operator \<times> usize \<Rightarrow> nat" where
  "item_offset (Inr (operator, offset)) = offset"
| "item_offset (Inl e) = 0"

lemma emit_loop_offsets:
  "wlp (emit_loop types decls reader) (\<lambda>_ t. ls_offsets t = ls_offsets s @ map item_offset reader) s"
proof (induction reader arbitrary: s)
  case Nil
  then show ?case by simp
next
  case (Cons item reader)
  show ?case
  proof (cases item)
    case (Inl e)
    then show ?thesis by simp
  next
    case (Inr p)
    obtain operator offset where p: "p = (operator, offset)" by (cases p)
    have "wlp (lower_step types decls operator offset) (\<lambda>_ t. ls_offsets t = ls_offsets s @ [offset]) s"
    proof -
      have "wlp (lower_operator types decls operator) (\<lambda>_ t. ls_offsets t = ls_offsets s) s"
        using keepsD(1) [OF keeps_offsets_operator, of types decls operator s]
        by (auto simp: wlp_def split: result.split)
      then show ?thesis
        unfolding lower_step_def wlp_bnd
        by (rule wlp_mono) (auto simp: emit_instruction_def wlp_True elim: wlp_mono [OF wlp_True])
    qed
    then show ?thesis
      unfolding Inr p emit_loop.simps wlp_bnd
    proof (rule wlp_mono)
      fix a and t :: lower_state assume "ls_offsets t = ls_offsets s @ [offset]"
      then show "wlp (emit_loop types decls reader)
          (\<lambda>_ t. ls_offsets t = ls_offsets s @ map item_offset (Inr (operator, offset) # reader)) t"
        using Cons.IH [of t] by simp
    qed
  qed
qed

text \<open>C11: the lowering of a validated body neither panics nor fails. It emits one
  instruction per operator, with the operator's offset, and a body in which every branch, every
  \<open>if\<close>, every \<open>else\<close> and every arm of a \<open>br_table\<close> jumps to an \<open>end\<close> or a \<open>loop\<close> of the body,
  with no placeholder left unpatched, and whose last instruction is an \<open>end\<close>.\<close>

theorem validated_bodies_lower:
  assumes "valid_body types decls params results reader"
  shows "\<exists>instrs layout.
    emit_instructions_for_func reader params results types decls =
      Ok (instrs, map item_offset reader, layout) \<and>
    length instrs = length reader \<and> body_ok instrs (br_targets_arena layout)"
proof -
  from lowered_body [OF assms] obtain instrs offs layout
    where ok: "emit_instructions_for_func reader params results types decls = Ok (instrs, offs, layout)"
      "length instrs = length reader" "body_ok instrs (br_targets_arena layout)"
    by blast
  have "offs = map item_offset reader"
    using emit_loop_offsets [of types decls reader "initial_lower_state params results"] ok(1)
    by (auto simp: emit_instructions_for_func_def wlp_def initial_lower_state_def split: result.splits)
  with ok show ?thesis by blast
qed

theorem validated_bodies_lower_witness:
  "\<exists>instrs layout.
    emit_instructions_for_func demo_reader 1 1 demo_types [] =
      Ok (instrs, map item_offset demo_reader, layout) \<and>
    length instrs = length demo_reader \<and> body_ok instrs (br_targets_arena layout) \<and>
    instrs = demo_lowered"
  using validated_bodies_lower [OF demo_reader_valid] demo_reader_lowers by auto

section \<open>Errors\<close>

lemma emit_loop_append:
  "emit_loop types decls (xs @ ys) = bnd (emit_loop types decls xs) (\<lambda>_. emit_loop types decls ys)"
proof (induction xs)
  case Nil
  then show ?case by (simp add: bnd_def ret_def)
next
  case (Cons x xs)
  show ?case
  proof (cases x)
    case (Inl e)
    then show ?thesis by (simp add: bnd_def fail_def)
  next
    case (Inr p)
    then show ?thesis
      by (cases p) (auto simp: Cons.IH bnd_def split: result.split)
  qed
qed

lemma emit_after_prefix:
  assumes "vrun types decls pre ([func_frame params results], 0) = Some st" "small_types types"
    and "params \<le> U32_MAX" "results \<le> U32_MAX" "length pre \<le> U32_MAX" "total_arms pre \<le> U32_MAX"
    and fails: "\<And>s. \<exists>t. emit_loop types decls rest s = Err (e, t)"
  shows "emit_instructions_for_func (pre @ rest) params results types decls = Err e"
proof -
  have "wp (emit_loop types decls pre) (\<lambda>_ t. body_inv st t \<and>
      length (ls_instructions t) = length (ls_instructions (initial_lower_state params results)) + length pre)
      (\<lambda>_ _. False) (initial_lower_state params results)"
    by (rule loop_ok [OF initial_body_inv assms(2,1)])
      (use assms(3-6) in \<open>simp_all add: initial_lower_state_def\<close>)
  then obtain u t where "emit_loop types decls pre (initial_lower_state params results) = Ok (u, t)"
    by (cases rule: wp_cases) auto
  moreover obtain t' where "emit_loop types decls rest t = Err (e, t')" using fails by blast
  ultimately show ?thesis
    by (simp add: emit_instructions_for_func_def emit_loop_append bnd_def)
qed

text \<open>C33: the lowering reports the first operator it cannot lower. After any validated
  prefix, malformed input is the reader's parse error, whether it is an operator or the target
  list of a \<open>br_table\<close>, an operator the crate does not model is \<open>Unsupported\<close> under its own
  name, and a memory other than the first is \<open>Unsupported\<close>; nothing that follows is read.\<close>

theorem lowering_reports_the_first_error:
  assumes "vrun types decls pre ([func_frame params results], 0) = Some st" and "small_types types"
    and "params \<le> U32_MAX" and "results \<le> U32_MAX" and "length pre \<le> U32_MAX"
    and "total_arms pre \<le> U32_MAX" and "m \<noteq> 0"
  shows "emit_instructions_for_func (pre @ Inl e # rest) params results types decls = Err (Parsing e) \<and>
    emit_instructions_for_func (pre @ Inr (Op_BrTable (Inl e) d, off) # rest) params results types decls =
      Err (Parsing e) \<and>
    emit_instructions_for_func (pre @ Inr (Op_Other name, off) # rest) params results types decls =
      Err (Unsupported name) \<and>
    (\<forall>operator \<in> {Op_MemorySize m, Op_MemoryGrow m, Op_MemoryCopy m k, Op_MemoryCopy 0 m,
        Op_MemoryFill m, Op_MemoryInit i m}.
      emit_instructions_for_func (pre @ Inr (operator, off) # rest) params results types decls =
        Err (Unsupported ''more than one memory''))"
  using assms(7)
  by (intro conjI ballI emit_after_prefix [OF assms(1-6)])
    (auto simp: lower_step_def lower_operator.simps lower_br_table_def check_memory_index_def
      bnd_def fail_def lift_result_def)

theorem lowering_reports_the_first_error_witness:
  "emit_instructions_for_func (take 4 demo_reader @ Inr (Op_Other ''simd'', 38) # drop 4 demo_reader)
    1 1 demo_types [] = Err (Unsupported ''simd'')"
proof -
  let ?st = "([\<lparr>vf_kind = V_If, vf_start = 0, vf_params = 0, vf_results = 1, vf_dead = False\<rparr>,
      \<lparr>vf_kind = V_Loop, vf_start = 0, vf_params = 0, vf_results = 0, vf_dead = False\<rparr>,
      \<lparr>vf_kind = V_Block, vf_start = 0, vf_params = 0, vf_results = 0, vf_dead = False\<rparr>,
      func_frame 1 1], 0)"
  have "vrun demo_types [] (take 4 demo_reader) ([func_frame 1 1], 0) = Some ?st"
    by (simp add: demo_types_def demo_reader_def valid_defs)
  from lowering_reports_the_first_error [OF this, where m = 1 and name = "''simd''" and off = 38
      and rest = "drop 4 demo_reader"]
  show ?thesis by (simp add: demo_types_def demo_reader_def small_types_def total_arms_def)
qed

end
