(* ===== verification/DriverProperties.thy ===== *)
theory DriverProperties
  imports Backtraces ControlProperties LoweringProperties
begin

text \<open>
  What the drivers guarantee of the stack machine on modules whose bodies come out of the
  lowering.
\<close>

section \<open>The stack machine as a machine\<close>

lemma keeps_on_frame: "keeps settings (on_frame m)"
  by (intro keeps_intros) (simp add: settings_def)

lemma run_on_frame_settings:
  "run_infallible (on_field frame (\<lambda>x. frame_update (\<lambda>_. x)) conv m) s = Some (a, s') \<Longrightarrow>
     settings s' = settings s"
  by (auto simp: run_infallible_def on_field_def settings_def split: result.splits)

lemma execute_settings:
  "execute fe D R x md layout cb imported s = r \<Longrightarrow>
     (case r of Ok (_, s') \<Rightarrow> settings s' = settings s | Err (_, s') \<Rightarrow> settings s' = settings s
      | Panic \<Rightarrow> True)"
  using execute_keeps_settings [of fe D R x md layout cb imported] unfolding keeps_def by blast

interpretation stack_limits: machine_invariant "stack_machine fe D R" md "\<lambda>s. settings s = c"
  "unat (max_call_stack_depth (fst c))" for fe D R md c
proof (unfold_locales, goal_cases)
  case (1 s instr layout base n r)
  then show ?case
    using execute_settings [of fe D R instr md layout base n s r]
    by (simp add: stack_machine_def split: result.splits prod.splits)
next
  case (2 s p tys base layout b s')
  then show ?case by (simp add: stack_machine_def run_on_frame_settings)
next
  case (3 s k base layout s')
  then show ?case by (auto simp: stack_machine_def run_on_frame_settings)
next
  case (4 s)
  then show ?case by (auto simp: stack_machine_def settings_def)
qed

lemma stack_machine_sel:
  "vm_execute (stack_machine fe D R) = execute fe D R"
  "vm_initial_data (stack_machine fe D R) = \<lparr>base_height = 0, callee_frame_base_height = U32_MAX\<rparr>"
  "vm_max_call_stack_depth (stack_machine fe D R) = (\<lambda>s. unat (max_call_stack_depth (config s)))"
  "vm_enter_frame (stack_machine fe D R) = (\<lambda>n tys cb _. run_infallible (on_frame (enter_frame n tys cb)))"
  "vm_exit_frame (stack_machine fe D R) =
     (\<lambda>n cb _ s. map_option snd (run_infallible (on_frame (exit_frame n cb)) s))"
  by (simp_all add: stack_machine_def)

section \<open>Modules that come out of the lowering\<close>

definition lowered_module :: "StackModule \<Rightarrow> bool" where
  "lowered_module module \<longleftrightarrow> (\<forall>body \<in> set (md_func_bodies module).
     \<exists>types decls params results reader. valid_body types decls params results reader \<and>
       emit_instructions_for_func reader params results types decls =
         Ok (fb_instructions body, fb_instruction_offsets body, fb_frame_layout body))"

lemma lowered_module_body:
  assumes "lowered_module module" "body \<in> set (md_func_bodies module)"
  shows "body_ok (fb_instructions body) (br_targets_arena (fb_frame_layout body))"
    and "length (fb_instructions body) \<le> U32_MAX"
    and "length (fb_instruction_offsets body) = length (fb_instructions body)"
proof -
  from assms obtain types decls params results reader
    where valid: "valid_body types decls params results reader"
      and emit: "emit_instructions_for_func reader params results types decls =
        Ok (fb_instructions body, fb_instruction_offsets body, fb_frame_layout body)"
    unfolding lowered_module_def by blast
  from lowered_body [OF valid] emit
  show "body_ok (fb_instructions body) (br_targets_arena (fb_frame_layout body))"
    and "length (fb_instruction_offsets body) = length (fb_instructions body)"
    by auto
  from lowered_body [OF valid] emit valid show "length (fb_instructions body) \<le> U32_MAX"
    by (auto simp: valid_body_def)
qed

lemma calls_not_last_lowered:
  assumes "lowered_module module"
  shows "calls_not_last (stack_machine fe D R) module"
  unfolding calls_not_last_def
proof (intro ballI conjI allI impI)
  fix body assume body: "body \<in> set (md_func_bodies module)"
  show "length (fb_instructions body) \<le> U32_MAX"
    by (rule lowered_module_body(2) [OF assms body])
  fix base s pc callee callee_base is_indirect s'
  assume "pc < length (fb_instructions body)"
    and "vm_execute (stack_machine fe D R) (fb_instructions body ! pc) module (fb_frame_layout body) base
      (md_imported_func_count module) s = Ok (StepCall callee callee_base is_indirect, s')"
  with step_stays_in_body [OF lowered_module_body(1) [OF assms body], of pc fe D R module base
      "md_imported_func_count module" s "StepCall callee callee_base is_indirect" s']
  show "pc + 1 < length (fb_instructions body)" by (simp add: stack_machine_def)
qed

text \<open>C3: the two drivers agree. On a module of lowered bodies, whenever the recursive driver
  returns, whatever it returns, the driver with the explicit call stack returns the same from any
  sufficient fuel on: the same state on success, and on failure the same error, with the same
  backtrace, record by record, and the same state.\<close>

theorem drivers_agree:
  assumes "lowered_module module"
    and "fmap_err (\<lambda>trace. Ok (func_call_err_from_unwind func_index trace module))
      (execute_on_native_stack n (stack_machine fe D R) module func_index
        (vm_initial_data (stack_machine fe D R)) 0) s = Some r"
  shows "\<exists>k. \<forall>m \<ge> k. execute_on_frame_stack m (stack_machine fe D R) module func_index s =
    Some (forget_depth r)"
proof (rule drivers_agree_from [OF calls_not_last_lowered [OF assms(1)] _ assms(2)])
  show "vm_max_call_stack_depth (stack_machine fe D R) s \<le> U32_MAX" for s
    using unsigned_less [of "max_call_stack_depth (config s)", where ?'a = nat]
    by (simp add: stack_machine_def)
qed



section \<open>A guest that only recurses\<close>

text \<open>The function that calls itself and ends, as the lowering emits it.\<close>

definition recursive_reader :: OperatorsReader where
  "recursive_reader = [Inr (Op_Call 0, 10), Inr (Op_End, 12)]"

definition recursive_body :: "(StackInstruction, StackFrameLayout) FuncBody" where
  "recursive_body = \<lparr>fb_locals = [], fb_instructions = [Call 0 0, End 0 0],
     fb_instruction_offsets = [10, 12], fb_frame_layout = \<lparr>br_targets_arena = []\<rparr>\<rparr>"

definition recursive_module :: StackModule where
  "recursive_module = \<lparr>md_types = [\<lparr>ft_params = [], ft_results = []\<rparr>],
     md_func_decls = [\<lparr>fd_kind = Local, fd_ty = 0\<rparr>], md_globals = [], md_imported_func_count = 0,
     md_func_bodies = [recursive_body], md_exported_func_index_to_name = (\<lambda>_. Some ''f'')\<rparr>"

lemma recursive_module_lowered: "lowered_module recursive_module"
proof -
  have "valid_body [\<lparr>ft_params = [], ft_results = []\<rparr>] [\<lparr>fd_kind = Local, fd_ty = 0\<rparr>] 0 0 recursive_reader"
    by (simp add: valid_body_def recursive_reader_def vstep_def op_effect_def call_effect_def
        func_frame_def vclose_def small_types_def total_arms_def)
  moreover have "emit_instructions_for_func recursive_reader 0 0 [\<lparr>ft_params = [], ft_results = []\<rparr>]
      [\<lparr>fd_kind = Local, fd_ty = 0\<rparr>] = Ok ([Call 0 0, End 0 0], [10, 12], \<lparr>br_targets_arena = []\<rparr>)"
    by (simp add: emit_instructions_for_func_def recursive_reader_def lower_defs func_label_def
        initial_lower_state_def default_control_stack_def)
  ultimately show ?thesis
    by (simp add: lowered_module_def recursive_module_def recursive_body_def) blast
qed

definition recursive_trace :: "nat \<Rightarrow> nat \<Rightarrow> Unwind" where
  "recursive_trace limit n = TraceRecord 0 0 (NonCall (CallStackExhausted limit)) 10 #
     replicate n (TraceRecord 0 0 (CallRecord 0 None) 10)"

lemma recursive_sel:
  "fb_instructions recursive_body = [Call 0 0, End 0 0]" "fb_instruction_offsets recursive_body = [10, 12]"
  "fb_locals recursive_body = []" "md_imported_func_count recursive_module = 0"
  "md_func_bodies recursive_module = [recursive_body]"
  "md_types recursive_module = [\<lparr>ft_params = [], ft_results = []\<rparr>]"
  "md_func_decls recursive_module = [\<lparr>fd_kind = Local, fd_ty = 0\<rparr>]"
  by (simp_all add: recursive_body_def recursive_module_def)

lemma recursive_step:
  assumes "ac_body ac = recursive_body"
  shows "execute_at (stack_machine fe D R) recursive_module ac 0 s =
    Some (Inr (StepCall 0 \<lparr>base_height = height (frame s), callee_frame_base_height = U32_MAX\<rparr> None), s)"
  using assms
  by (simp add: execute_at_def run_infallible_def bnd_def lift_result_def index_def attempt_def
      recursive_sel stack_machine_sel exec_call_def dispatch_call_def
      frame_height_def gets_def u32_sub_def Let_def ret_def)

lemma recursive_enter:
  assumes "base_height b \<le> U32_MAX"
  shows "enter_function (stack_machine fe D R) recursive_module 0 b s =
    Some (\<lparr>ac_func_index = 0, ac_body = recursive_body,
      ac_base = b\<lparr>callee_frame_base_height := base_height b\<rparr>, ac_results_count = 0\<rparr>, s)"
  using assms
  by (simp add: enter_function_def run_infallible_def bnd_def lift_result_def index_def infallible_def
      recursive_sel stack_machine_sel enter_frame_def on_field_def
      u32_add_def ret_def)

lemma height_bound: "height s \<le> U32_MAX"
  by (simp add: height_def)

lemma recursion_exhausts:
  assumes "ac_body ac = recursive_body" "ac_func_index ac = 0"
    and "limit = unat (max_call_stack_depth (config s))" and "1 \<le> k" and "j = limit - k"
  shows "native_loop (2 * j + 1) (stack_machine fe D R) recursive_module ac 0 k s =
    Some (Err (recursive_trace limit j, s))"
  using assms
proof (induction j arbitrary: k ac)
  case 0
  then show ?case
    by (simp add: native_loop_Suc recursive_step recursive_trace_def fop_of_def fail_with_def
        trap_here_def index_def recursive_sel stack_machine_sel)
next
  case (Suc j)
  have limit: "limit \<le> U32_MAX"
    using unsigned_less [of "max_call_stack_depth (config s)", where ?'a = nat] Suc.prems(3) by simp
  let ?b = "\<lparr>base_height = height (frame s), callee_frame_base_height = U32_MAX\<rparr>"
  let ?ac = "\<lparr>ac_func_index = 0, ac_body = recursive_body,
      ac_base = ?b\<lparr>callee_frame_base_height := height (frame s)\<rparr>, ac_results_count = 0\<rparr>"
  have IH: "native_loop (2 * j + 1) (stack_machine fe D R) recursive_module ?ac 0 (k + 1) s =
    Some (Err (recursive_trace limit j, s))"
    by (rule Suc.IH) (use Suc.prems in simp_all)
  have "execute_on_native_stack (2 * j + 2) (stack_machine fe D R) recursive_module 0 ?b k s =
      Some (Err (recursive_trace limit j, s))"
    using IH Suc.prems limit
    by (simp add: execute_on_native_stack.simps fop_defs recursive_enter height_bound u32_add_def)
  moreover have "\<not> limit \<le> k" using Suc.prems(5) by simp
  ultimately show ?case
    using Suc.prems(1-3)
    by (simp add: native_loop_Suc recursive_step fbnd_def fmap_err_def stack_machine_sel index_def
        recursive_sel recursive_trace_def replicate_append_same)
qed

lemma recursion_run:
  fixes s :: "('m, 'i) StackInstance"
  assumes "limit = unat (max_call_stack_depth (config s))"
  shows "execute_on_native_stack (2 * (limit - 1) + 2) (stack_machine fe D R) recursive_module 0
      \<lparr>base_height = 0, callee_frame_base_height = U32_MAX\<rparr> 0 s =
    Some (Err (recursive_trace limit (limit - 1), s))"
  using recursion_exhausts [OF _ _ assms order_refl refl, of
      "\<lparr>ac_func_index = 0, ac_body = recursive_body,
        ac_base = \<lparr>base_height = 0, callee_frame_base_height = 0\<rparr>, ac_results_count = 0\<rparr>" fe D R]
  by (simp add: execute_on_native_stack.simps fop_defs recursive_enter u32_add_def)

text \<open>C23: a guest function that calls itself without end does not run forever and does not
  exhaust the host: on enough fuel the run returns, with the \<open>CallStackExhausted\<close> trap carrying
  the configured limit and one record per activation, and the instance as it was.\<close>

theorem unbounded_recursion_traps:
  fixes s :: "('m, 'i) StackInstance"
  shows "\<exists>n. execute_on_native_stack n (stack_machine fe D R) recursive_module 0
      \<lparr>base_height = 0, callee_frame_base_height = U32_MAX\<rparr> 0 s =
    Some (Err (recursive_trace (unat (max_call_stack_depth (config s)))
      (unat (max_call_stack_depth (config s)) - 1), s))"
  using recursion_run [OF refl] by blast

section \<open>Concrete runs\<close>

abbreviation demo_machine where
  "demo_machine \<equiv> stack_machine demo_floats linear_memory demo_registry"

lemma demo_recursion:
  "execute_on_native_stack 4000 demo_machine recursive_module 0 (vm_initial_data demo_machine) 0
     (page_instance []) = Some (Err (recursive_trace 2000 1999, page_instance []))"
  using recursion_run [of 2000 "page_instance []" demo_floats linear_memory demo_registry]
  by (simp add: page_instance_def default_config_def stack_machine_sel)

lemma recursive_name: "exported_func_name recursive_module 0 = ''f''"
  by (simp add: exported_func_name_def recursive_module_def)

theorem drivers_agree_witness:
  "\<exists>k. \<forall>m \<ge> k. execute_on_frame_stack m demo_machine recursive_module 0 (page_instance []) =
     Some (Err (FuncCallError ''f'' (recursive_trace 2000 1999), page_instance []))"
  using drivers_agree [OF recursive_module_lowered, of 0 4000 demo_floats linear_memory demo_registry
      "page_instance []"]
  by (simp add: fmap_err_def demo_recursion func_call_err_from_unwind_def recursive_name forget_depth_def)



end
