(* ===== verification/Heights.thy ===== *)
theory Heights
  imports LoweringTotal
begin

text \<open>
  Operand heights of a lowered body. A certificate gives every instruction that control can
  reach the height of the operand stack above the frame's base, and \<open>fits\<close> asks of an
  instruction what the interpreter relies on: enough operands to pop, the right height at the
  next instruction and at every jump target, indices in range. The pass that resolves the
  branches constructs such a certificate as it goes (\<open>tracks\<close>), with branches to open labels
  still waiting for their target.
\<close>

section \<open>What an instruction does to the height\<close>

text \<open>What the instructions of a body may refer to, as far as it is fixed before any run.\<close>

record env =
  en_types :: "FuncType list"
  en_decls :: "FuncDecl list"
  en_locals :: nat
  en_globals :: nat
  en_tables :: nat
  en_datas :: nat

definition op_indices :: "env \<Rightarrow> Operator \<Rightarrow> bool" where
  "op_indices env operator = (case operator of
      Op_LocalGet i \<Rightarrow> unat i < en_locals env
    | Op_LocalSet i \<Rightarrow> unat i < en_locals env
    | Op_LocalTee i \<Rightarrow> unat i < en_locals env
    | Op_GlobalGet i \<Rightarrow> unat i < en_globals env
    | Op_GlobalSet i \<Rightarrow> unat i < en_globals env
    | Op_MemoryInit i _ \<Rightarrow> unat i < en_datas env
    | Op_DataDrop i \<Rightarrow> unat i < en_datas env
    | Op_CallIndirect _ tab \<Rightarrow> unat tab < en_tables env
    | _ \<Rightarrow> True)"

definition guarded :: "bool \<Rightarrow> 'a \<Rightarrow> 'a option" where
  "guarded b x = (if b then Some x else None)"

lemma guarded_eq_Some [simp]: "guarded b x = Some y \<longleftrightarrow> b \<and> y = x"
  by (auto simp: guarded_def)

fun instr_effect :: "env \<Rightarrow> StackInstruction \<Rightarrow> (nat \<times> nat) option" where
  "instr_effect env (Const c) = Some (0, 1)"
| "instr_effect env RefIsNull = Some (1, 1)"
| "instr_effect env MemorySize = Some (0, 1)"
| "instr_effect env MemoryGrow = Some (1, 1)"
| "instr_effect env MemoryCopy = Some (3, 0)"
| "instr_effect env MemoryFill = Some (3, 0)"
| "instr_effect env (MemoryInit i) = guarded (unat i < en_datas env) (3, 0)"
| "instr_effect env (DataDrop i) = guarded (unat i < en_datas env) (0, 0)"
| "instr_effect env (Load l off) = Some (1, 1)"
| "instr_effect env (Store st off) = Some (2, 0)"
| "instr_effect env (Numeric n) = Some (numeric_effect n)"
| "instr_effect env (LocalGet i) = guarded (unat i < en_locals env) (0, 1)"
| "instr_effect env (LocalSet i) = guarded (unat i < en_locals env) (1, 0)"
| "instr_effect env (LocalTee i) = guarded (unat i < en_locals env) (1, 1)"
| "instr_effect env (GlobalGet i) = guarded (unat i < en_globals env) (0, 1)"
| "instr_effect env (GlobalSet i) = guarded (unat i < en_globals env) (1, 0)"
| "instr_effect env (Call f n) =
     (if unat f < length (en_decls env)
      then Option.bind (call_effect (en_types env) (fd_ty (en_decls env ! unat f)))
             (\<lambda>(p, q). guarded (n = p) (p, q))
      else None)"
| "instr_effect env (CallIndirect ty tab) =
     (if unat tab < en_tables env
      then map_option (\<lambda>(p, q). (1 + p, q)) (call_effect (en_types env) ty) else None)"
| "instr_effect env Drop = Some (1, 0)"
| "instr_effect env Select = Some (3, 1)"
| "instr_effect env (If e n) = Some (1, 0)"
| "instr_effect env (BrIf t a h) = Some (1, 0)"
| "instr_effect env (BrTable st n) = Some (1, 0)"
| "instr_effect env _ = Some (0, 0)"

definition falls :: "StackInstruction \<Rightarrow> bool" where
  "falls x = (case x of
      Unreachable \<Rightarrow> False | Else _ \<Rightarrow> False | Br _ _ _ \<Rightarrow> False | BrTable _ _ \<Rightarrow> False
    | Return _ _ _ \<Rightarrow> False | _ \<Rightarrow> True)"

text \<open>
  A branch, by the slot its target is attached under: the target and the height it leaves. Only
  the arms of a \<open>br_table\<close> have a slot of their own.
\<close>

fun exit_of :: "StackBrTableTarget list \<Rightarrow> StackInstruction \<Rightarrow> nat \<Rightarrow> (nat \<times> nat) option" where
  "exit_of ts (Br t a h) k = guarded (k = U32_MAX) (t, h + a)"
| "exit_of ts (BrIf t a h) k = guarded (k = U32_MAX) (t, h + a)"
| "exit_of ts (Return t a h) k = guarded (k = U32_MAX) (t, h + a)"
| "exit_of ts (BrTable st n) k = guarded (st \<le> k \<and> k < st + n)
     (bt_target_index (ts ! k), bt_recorded_height (ts ! k) + bt_arity (ts ! k))"
| "exit_of ts _ k = None"

text \<open>The jump of an \<open>if\<close> whose condition is false and of an \<open>else\<close> that is reached.\<close>

fun skip_of :: "StackInstruction \<Rightarrow> nat option" where
  "skip_of (If e n) = Some (case e of Some k \<Rightarrow> Suc k | None \<Rightarrow> n)"
| "skip_of (Else n) = Some n"
| "skip_of _ = None"

definition arrives :: "nat option list \<Rightarrow> nat \<Rightarrow> nat \<Rightarrow> bool" where
  "arrives hs t h \<longleftrightarrow> t < length hs \<and> hs ! t = Some h"

fun if_of :: "BlockKind \<Rightarrow> nat \<Rightarrow> bool" where
  "if_of (BK_If j e) i = (i = j \<or> e = Some i)"
| "if_of _ i = False"

definition open_if :: "Label list \<Rightarrow> nat \<Rightarrow> bool" where
  "open_if bs i \<longleftrightarrow> (\<exists>b \<in> set bs. if_of (lb_kind b) i)"

definition fits ::
    "env \<Rightarrow> StackBrTableTarget list \<Rightarrow> Label list \<Rightarrow> nat option list \<Rightarrow> nat \<Rightarrow> StackInstruction \<Rightarrow>
     nat \<Rightarrow> bool" where
  "fits env ts bs hs i x h \<longleftrightarrow> (\<exists>p q. instr_effect env x = Some (p, q) \<and> p \<le> h \<and>
     (falls x \<longrightarrow> arrives hs (Suc i) (h - p + q)) \<and>
     (\<forall>k t e. exit_of ts x k = Some (t, e) \<longrightarrow> e \<le> h - p \<and> (arrives hs t e \<or> waits bs i k)) \<and>
     (\<forall>t. skip_of x = Some t \<longrightarrow> arrives hs t (h - p) \<or> open_if bs i) \<and>
     (\<forall>a r. x = End a r \<longrightarrow> h = r + a))"

lemma arrives_append: "arrives hs t h \<Longrightarrow> arrives (hs @ ys) t h"
  by (simp add: arrives_def nth_append)

lemma arrives_raise:
  "arrives (hs @ [c]) t h \<Longrightarrow> c = None \<or> c = d \<Longrightarrow> arrives (hs @ [d]) t h"
  by (auto simp: arrives_def nth_append split: if_splits)

text \<open>A certificate for a finished body: it may be entered at height 0 and left at its results.\<close>

definition certified ::
    "env \<Rightarrow> nat \<Rightarrow> StackInstruction list \<Rightarrow> StackBrTableTarget list \<Rightarrow> nat option list \<Rightarrow> bool" where
  "certified env results xs ts hs \<longleftrightarrow> length hs = Suc (length xs) \<and>
     hs ! 0 = Some 0 \<and> hs ! length xs = Some results \<and>
     (\<forall>i < length xs. \<forall>h. hs ! i = Some h \<longrightarrow> fits env ts [] hs i (xs ! i) h)"

section \<open>The invariant of the pass\<close>

fun owns :: "StackInstruction \<Rightarrow> nat \<Rightarrow> bool" where
  "owns (BrTable st n) k = (st \<le> k \<and> k < st + n)"
| "owns _ k = False"

text \<open>No two tables share a slot of the arena.\<close>

definition slots_owned :: "StackInstruction list \<Rightarrow> StackBrTableTarget list \<Rightarrow> bool" where
  "slots_owned xs ts \<longleftrightarrow> (\<forall>i < length xs. \<forall>k. owns (xs ! i) k \<longrightarrow>
     k < length ts \<and> (\<forall>j < length xs. owns (xs ! j) k \<longrightarrow> j = i))"

text \<open>Labels outermost first: a label inside dead code was born dead.\<close>

definition flags :: "Label list \<Rightarrow> bool" where
  "flags bs \<longleftrightarrow> sorted_wrt (\<lambda>outer inner.
     lb_is_unreachable_traversing outer \<longrightarrow> lb_has_inherited inner) bs"

definition entry_height :: "Label \<Rightarrow> nat" where
  "entry_height b = lb_recorded_height b + lb_params b"

definition end_height :: "Label \<Rightarrow> nat" where
  "end_height b = lb_recorded_height b + lb_results b"

text \<open>
  \<open>hs\<close> are the heights of the instructions emitted so far and \<open>c\<close> the one of the next. What an
  open label knows: its attached branches leave the height its \<open>end\<close> expects, and its \<open>loop\<close>,
  \<open>if\<close> and \<open>else\<close> have the heights of its type.
\<close>

definition kind_fits :: "nat option list \<Rightarrow> nat option \<Rightarrow> Label \<Rightarrow> bool" where
  "kind_fits hs c b = (case lb_kind b of
      BK_Loop j \<Rightarrow> j < length hs \<and> (\<not> lb_has_inherited b \<longrightarrow> arrives hs j (entry_height b))
    | BK_If j e \<Rightarrow> j < length hs \<and>
        (\<forall>h. hs ! j = Some h \<longrightarrow> \<not> lb_has_inherited b \<and> h = Suc (entry_height b)) \<and>
        (\<forall>k. e = Some k \<longrightarrow> k < length hs \<and>
           (\<not> lb_has_inherited b \<longrightarrow> arrives (hs @ [c]) (Suc k) (entry_height b)) \<and>
           (\<forall>h. hs ! k = Some h \<longrightarrow> \<not> lb_has_inherited b \<and> h = end_height b))
    | _ \<Rightarrow> True)"

definition break_fits ::
    "StackInstruction list \<Rightarrow> StackBrTableTarget list \<Rightarrow> nat option list \<Rightarrow> Label \<Rightarrow> nat \<times> nat \<Rightarrow> bool" where
  "break_fits xs ts hs b = (\<lambda>(i, k). i < length xs \<and> (\<exists>t e. exit_of ts (xs ! i) k = Some (t, e) \<and>
     (hs ! i \<noteq> None \<longrightarrow> \<not> lb_has_inherited b \<and> e = end_height b)))"

definition label_fits ::
    "StackInstruction list \<Rightarrow> StackBrTableTarget list \<Rightarrow> nat option list \<Rightarrow> nat option \<Rightarrow> Label \<Rightarrow> bool" where
  "label_fits xs ts hs c b \<longleftrightarrow>
     kind_fits hs c b \<and> (\<forall>p \<in> set (lb_attached_breaks b). break_fits xs ts hs b p)"

definition tracks ::
    "env \<Rightarrow> StackInstruction list \<Rightarrow> StackBrTableTarget list \<Rightarrow> Label list \<Rightarrow> nat option list \<Rightarrow>
     nat option \<Rightarrow> bool" where
  "tracks env xs ts bs hs c \<longleftrightarrow> length hs = length xs \<and> slots_owned xs ts \<and> flags bs \<and>
     (\<forall>i < length xs. \<forall>h. hs ! i = Some h \<longrightarrow> fits env ts bs (hs @ [c]) i (xs ! i) h) \<and>
     (\<forall>b \<in> set bs. label_fits xs ts hs c b)"

text \<open>The height of the next instruction, \<open>None\<close> in dead code.\<close>

definition next_height :: "vstate \<Rightarrow> Label list \<Rightarrow> nat option" where
  "next_height st bs =
     (if bs \<noteq> [] \<and> lb_is_unreachable_traversing (last bs) then None else Some (snd st))"


section \<open>Emitting an instruction\<close>

definition covers :: "Label list \<Rightarrow> Label list \<Rightarrow> bool" where
  "covers bs bs' \<longleftrightarrow> (\<forall>i k. waits bs i k \<longrightarrow> waits bs' i k) \<and> (\<forall>i. open_if bs i \<longrightarrow> open_if bs' i)"

lemma exit_of_append:
  assumes "\<And>k. owns x k \<Longrightarrow> k < length ts"
  shows "exit_of (ts @ us) x k = exit_of ts x k"
  using assms by (cases x) (auto simp: guarded_def nth_append)

lemma fits_covers:
  assumes "fits env ts bs hs i x h" "covers bs bs'" "\<And>k. owns x k \<Longrightarrow> k < length ts"
    and "\<And>t h. arrives hs t h \<Longrightarrow> arrives hs' t h"
  shows "fits env (ts @ us) bs' hs' i x h"
proof -
  from assms(1) obtain p q where eff: "instr_effect env x = Some (p, q)" "p \<le> h"
    and f: "falls x \<longrightarrow> arrives hs (Suc i) (h - p + q)"
    and e: "\<And>k t e. exit_of ts x k = Some (t, e) \<Longrightarrow> e \<le> h - p \<and> (arrives hs t e \<or> waits bs i k)"
    and s: "\<And>t. skip_of x = Some t \<Longrightarrow> arrives hs t (h - p) \<or> open_if bs i"
    and d: "\<And>a r. x = End a r \<Longrightarrow> h = r + a"
    unfolding fits_def by blast
  have w: "waits bs i k \<Longrightarrow> waits bs' i k" "open_if bs i \<Longrightarrow> open_if bs' i" for i k
    using assms(2) by (simp_all add: covers_def)
  have eq: "exit_of (ts @ us) x k = exit_of ts x k" for k
    by (rule exit_of_append) (rule assms(3))
  show ?thesis
    unfolding fits_def eq
  proof (rule exI [of _ p], rule exI [of _ q], intro conjI)
    show "\<forall>k t e. exit_of ts x k = Some (t, e) \<longrightarrow> e \<le> h - p \<and> (arrives hs' t e \<or> waits bs' i k)"
      using e assms(4) w by blast
    show "\<forall>t. skip_of x = Some t \<longrightarrow> arrives hs' t (h - p) \<or> open_if bs' i"
      using s assms(4) w by blast
  qed (use eff f d assms(4) in auto)
qed

lemma break_fits_append:
  assumes "break_fits xs ts hs b p" "length hs = length xs" "slots_owned xs ts"
  shows "break_fits (xs @ ys) (ts @ us) (hs @ gs) b p"
proof -
  obtain i k where p: "p = (i, k)" by (cases p)
  with assms have i: "i < length xs" by (simp add: break_fits_def)
  have "exit_of (ts @ us) (xs ! i) k = exit_of ts (xs ! i) k"
    by (rule exit_of_append) (use assms(3) i in \<open>auto simp: slots_owned_def\<close>)
  with assms(1,2) i p show ?thesis by (auto simp: break_fits_def nth_append)
qed

lemma kind_fits_append:
  assumes "kind_fits hs c b"
  shows "kind_fits (hs @ [c]) d b"
  using assms arrives_append [of hs _ _ "[c]"] arrives_append [of "hs @ [c]" _ _ "[d]"]
  by (cases "lb_kind b") (fastforce simp: kind_fits_def nth_append)+

lemma label_fits_append:
  assumes "label_fits xs ts hs c b" "length hs = length xs" "slots_owned xs ts"
  shows "label_fits (xs @ [x]) (ts @ us) (hs @ [c]) d b"
  using assms by (auto simp: label_fits_def intro: kind_fits_append break_fits_append)

lemma slots_owned_emit:
  assumes "slots_owned xs ts" "\<And>k. owns x k \<Longrightarrow> length ts \<le> k \<and> k < length ts + length us"
  shows "slots_owned (xs @ [x]) (ts @ us)"
  unfolding slots_owned_def
proof (intro allI impI conjI)
  fix i k assume i: "i < length (xs @ [x])" and o: "owns ((xs @ [x]) ! i) k"
  have old: "k < length ts" if "j < length xs" "owns (xs ! j) k" for j
    using assms(1) that by (auto simp: slots_owned_def)
  show "k < length (ts @ us)"
    using i o old [of i] assms(2) [of k] by (cases "i = length xs") (auto simp: nth_append)
  fix j assume j: "j < length (xs @ [x])" and o': "owns ((xs @ [x]) ! j) k"
  show "j = i"
  proof (cases "i = length xs \<or> j = length xs")
    case True
    with i o j o' assms(2) [of k] have "length ts \<le> k" by (auto simp: nth_append split: if_splits)
    with old i o j o' show ?thesis by (force simp: nth_append split: if_splits)
  next
    case False
    with i j o o' assms(1) show ?thesis by (auto simp: slots_owned_def nth_append)
  qed
qed

text \<open>One instruction is emitted; the labels become \<open>bs'\<close> and the next height is \<open>d\<close>.\<close>

lemma tracks_emit:
  assumes t: "tracks env xs ts bs hs c" and cov: "covers bs bs'" and fl: "flags bs'"
    and new: "\<And>h. c = Some h \<Longrightarrow> fits env (ts @ us) bs' (hs @ [c, d]) (length xs) x h"
    and own: "\<And>k. owns x k \<Longrightarrow> length ts \<le> k \<and> k < length ts + length us"
    and labels: "\<And>b. b \<in> set bs' \<Longrightarrow> label_fits (xs @ [x]) (ts @ us) (hs @ [c]) d b"
  shows "tracks env (xs @ [x]) (ts @ us) bs' (hs @ [c]) d"
proof -
  from t have len: "length hs = length xs" and so: "slots_owned xs ts"
    and old: "\<And>i h. i < length xs \<Longrightarrow> hs ! i = Some h \<Longrightarrow> fits env ts bs (hs @ [c]) i (xs ! i) h"
    by (auto simp: tracks_def)
  have "fits env (ts @ us) bs' ((hs @ [c]) @ [d]) i ((xs @ [x]) ! i) h"
    if i: "i < length (xs @ [x])" and h: "(hs @ [c]) ! i = Some h" for i h
  proof (cases "i < length xs")
    case True
    with h len have "hs ! i = Some h" by (simp add: nth_append)
    from old [OF True this] have "fits env (ts @ us) bs' ((hs @ [c]) @ [d]) i (xs ! i) h"
      by (rule fits_covers [OF _ cov])
        (use so True arrives_append [of "hs @ [c]" _ _ "[d]"] in \<open>auto simp: slots_owned_def\<close>)
    with True show ?thesis by (simp add: nth_append)
  next
    case False
    with i have "i = length xs" by simp
    with h len new show ?thesis by (simp add: nth_append)
  qed
  with len slots_owned_emit [OF so own] fl labels show ?thesis by (simp add: tracks_def)
qed

text \<open>A straight instruction leaves the labels alone and falls through.\<close>

definition straight :: "StackInstruction \<Rightarrow> bool" where
  "straight x \<longleftrightarrow> falls x \<and> (\<forall>ts k. exit_of ts x k = None) \<and> skip_of x = None \<and> \<not> is_end x"

lemma straight_owns: "straight x \<Longrightarrow> \<not> owns x k"
  by (cases x) (auto simp: straight_def falls_def)

lemma straight_End [simp]: "\<not> straight (End a r)"
  by (simp add: straight_def is_end_def)

lemma covers_refl [simp]: "covers bs bs"
  by (simp add: covers_def)

lemma tracks_straight:
  assumes t: "tracks env xs ts bs hs c" and x: "straight x" "instr_effect env x = Some (p, q)"
    and h: "\<And>h. c = Some h \<Longrightarrow> p \<le> h \<and> d = Some (h - p + q)"
  shows "tracks env (xs @ [x]) ts bs (hs @ [c]) d"
proof -
  from t have t': "length hs = length xs" "slots_owned xs ts" "flags bs"
    "\<And>b. b \<in> set bs \<Longrightarrow> label_fits xs ts hs c b"
    by (auto simp: tracks_def)
  have "tracks env (xs @ [x]) (ts @ []) bs (hs @ [c]) d"
  proof (rule tracks_emit [OF t covers_refl t'(3)])
    fix h assume c: "c = Some h"
    from h [OF c] x t'(1) show "fits env (ts @ []) bs (hs @ [c, d]) (length xs) x h"
      by (auto simp: fits_def straight_def arrives_def nth_append is_end_def)
  qed (use t' straight_owns [OF x(1)] label_fits_append [where us = "[]"] in auto)
  then show ?thesis by simp
qed


section \<open>Closing a label\<close>

text \<open>The \<open>end\<close> of a label can be reached by its branches where the code before it is dead.\<close>

lemma tracks_raise:
  assumes t: "tracks env xs ts bs hs c" and c: "c = None \<or> c = d"
  shows "tracks env xs ts bs hs d"
proof -
  have up: "arrives (hs @ [c]) t h \<Longrightarrow> arrives (hs @ [d]) t h" for t h
    using c by (rule arrives_raise [rotated])
  have "kind_fits hs d b" if "kind_fits hs c b" for b
    using that up by (auto simp: kind_fits_def split: BlockKind.splits)
  moreover have "fits env ts bs (hs @ [d]) i (xs ! i) h"
    if "i < length xs" "fits env ts bs (hs @ [c]) i (xs ! i) h" for i h
    using fits_covers [OF that(2) covers_refl _ up, where us = "[]"] t that(1)
    by (auto simp: tracks_def slots_owned_def)
  ultimately show ?thesis using t by (auto simp: tracks_def label_fits_def)
qed

lemma shape_invariants:
  assumes "shape x = shape y"
  shows "instr_effect env x = instr_effect env y" "falls x = falls y" "owns x k = owns y k"
    "x = End a r \<longleftrightarrow> y = End a r"
proof -
  have "instr_effect env (shape z) = instr_effect env z" "falls (shape z) = falls z"
    "owns (shape z) k = owns z k" for z
    by (cases z; simp add: falls_def)+
  with assms show "instr_effect env x = instr_effect env y" "falls x = falls y" "owns x k = owns y k"
    by metis+
  show "x = End a r \<longleftrightarrow> y = End a r" using assms by (metis shape_iffs(2))
qed

lemma patched_exit:
  assumes "patched n att xs ts xs' ts'" and own: "slots_owned xs ts" and i: "i < length xs"
    and att: "\<And>j k. (j, k) \<in> set att \<Longrightarrow> j < length xs \<and> exit_of ts (xs ! j) k \<noteq> None"
  shows "exit_of ts' (xs' ! i) k =
    map_option (\<lambda>(t, e). (if (i, k) \<in> set att then n else t, e)) (exit_of ts (xs ! i) k)"
proof -
  from assms(1) i have x': "xs' ! i = (if i \<in> fst ` set att then retarget n (xs ! i) else xs ! i)"
    by (simp add: patched_def)
  have mem: "i \<in> fst ` set att \<longleftrightarrow> (i, U32_MAX) \<in> set att"
    if "xs ! i = Br t a h \<or> xs ! i = BrIf t a h \<or> xs ! i = Return t a h" for t a h
  proof
    assume "i \<in> fst ` set att"
    then obtain k where k: "(i, k) \<in> set att" by force
    then have "exit_of ts (xs ! i) k \<noteq> None" using att by blast
    with that have "k = U32_MAX" by auto
    with k show "(i, U32_MAX) \<in> set att" by simp
  qed force
  show ?thesis
  proof (cases "xs ! i")
    case (BrTable st m)
    with x' have x'_eq: "xs' ! i = BrTable st m" by simp
    show ?thesis
    proof (cases "st \<le> k \<and> k < st + m")
      case True
      with BrTable own i have k: "k < length ts"
        and only: "\<And>j. j < length xs \<Longrightarrow> owns (xs ! j) k \<Longrightarrow> j = i"
        by (auto simp: slots_owned_def)
      have "owns (xs ! j) k" if "is_table (xs ! j)" "exit_of ts (xs ! j) k \<noteq> None" for j
        using that by (cases "xs ! j") (auto simp: is_table_def guarded_def split: if_splits)
      then have "(\<exists>j. (j, k) \<in> set att \<and> is_table (xs ! j)) \<longleftrightarrow> (i, k) \<in> set att"
        using att only BrTable by (auto simp: is_table_def) blast
      then have "ts' ! k = (if (i, k) \<in> set att then (ts ! k)\<lparr>bt_target_index := n\<rparr> else ts ! k)"
        using assms(1) k by (simp add: patched_def)
      with True show ?thesis by (simp add: BrTable x'_eq guarded_def)
    qed (auto simp: BrTable x'_eq guarded_def)
  next
    case (Br t a h)
    with mem [of t a h] x' show ?thesis by (auto simp: guarded_def)
  next
    case (BrIf t a h)
    with mem [of t a h] x' show ?thesis by (auto simp: guarded_def)
  next
    case (Return t a h)
    with mem [of t a h] x' show ?thesis by (auto simp: guarded_def)
  qed (use x' in auto)
qed


lemma flags_snoc: "flags (bs @ [b]) \<longleftrightarrow> flags bs \<and>
    (\<forall>c \<in> set bs. lb_is_unreachable_traversing c \<longrightarrow> lb_has_inherited b)"
  by (auto simp: flags_def sorted_wrt_append)

text \<open>The innermost label \<open>b\<close> closes at the instruction about to be emitted.\<close>

lemma tracks_close:
  assumes t: "tracks env xs ts (bs @ [b]) hs c" and b: "label_ok xs ts b"
    and c: "\<not> lb_has_inherited b \<Longrightarrow> c = Some (end_height b)"
    and if': "\<And>j. lb_kind b = BK_If j None \<Longrightarrow> entry_height b = end_height b"
    and patched: "patched (length xs) (lb_attached_breaks b) xs ts xs' ts'"
  shows "tracks env (close_if (length xs) (lb_kind b) xs') ts' bs hs c"
proof -
  let ?n = "length xs" and ?att = "lb_attached_breaks b"
  define ys where "ys = close_if ?n (lb_kind b) xs'"
  from t have hs: "length hs = ?n" and own: "slots_owned xs ts" and fl: "flags bs"
    and old: "\<And>i h. i < ?n \<Longrightarrow> hs ! i = Some h \<Longrightarrow> fits env ts (bs @ [b]) (hs @ [c]) i (xs ! i) h"
    and labels: "\<And>c'. c' \<in> set (bs @ [b]) \<Longrightarrow> label_fits xs ts hs c c'"
    by (auto simp: tracks_def flags_snoc)
  have len: "length ys = ?n" "length xs' = ?n" "length ts' = length ts"
    using patched by (auto simp: ys_def patched_def)
  have kind: "kind_ok xs (lb_kind b)" using b by (simp add: label_ok_def)
  have x': "xs' ! i = (if i \<in> fst ` set ?att then retarget ?n (xs ! i) else xs ! i)" if "i < ?n" for i
    using patched that by (simp add: patched_def)
  have kind': "kind_ok xs' (lb_kind b)"
    by (rule kind_ok_shape [OF kind len(2)]) (simp add: x')
  have ys: "ys ! i = (case lb_kind b of
      BK_If j e \<Rightarrow> if i = j then If e ?n else if e = Some i then Else ?n else xs' ! i
    | _ \<Rightarrow> xs' ! i)" if "i < ?n" for i
    unfolding ys_def by (rule close_if_nth [OF kind']) (simp add: that len)
  have shape: "shape (ys ! i) = shape (xs ! i)" if "i < ?n" for i
    using kind that by (auto simp: ys x' kind_ok_def split: BlockKind.split)
  note same = shape_invariants [OF shape]
  have b_fits: "label_fits xs ts hs c b" by (simp add: labels)
  have att: "j < ?n \<and> exit_of ts (xs ! j) k \<noteq> None" if "(j, k) \<in> set ?att" for j k
    using b_fits that by (auto simp: label_fits_def break_fits_def)
  have exit: "exit_of ts' (ys ! i) k =
      map_option (\<lambda>(t, e). (if (i, k) \<in> set ?att then ?n else t, e)) (exit_of ts (xs ! i) k)"
    if i: "i < ?n" for i k
  proof (cases "if_of (lb_kind b) i")
    case True
    with kind i have "exit_of ts (xs ! i) k = None \<and> exit_of ts' (ys ! i) k = None"
      by (cases "lb_kind b") (auto simp: ys kind_ok_def)
    then show ?thesis by simp
  next
    case False
    then have "ys ! i = xs' ! i" using i by (auto simp: ys split: BlockKind.split)
    with patched_exit [OF patched own i att] show ?thesis by simp
  qed
  have "fits env ts' bs (hs @ [c]) i (ys ! i) h" if i: "i < ?n" and h: "hs ! i = Some h" for i h
  proof -
    from old [OF i h] obtain p q where eff: "instr_effect env (xs ! i) = Some (p, q)" "p \<le> h"
      and f: "falls (xs ! i) \<longrightarrow> arrives (hs @ [c]) (Suc i) (h - p + q)"
      and e: "\<And>k t e. exit_of ts (xs ! i) k = Some (t, e) \<Longrightarrow>
        e \<le> h - p \<and> (arrives (hs @ [c]) t e \<or> waits (bs @ [b]) i k)"
      and s: "\<And>t. skip_of (xs ! i) = Some t \<Longrightarrow> arrives (hs @ [c]) t (h - p) \<or> open_if (bs @ [b]) i"
      and d: "\<And>a r. xs ! i = End a r \<Longrightarrow> h = r + a"
      unfolding fits_def by blast
    have live: "\<not> lb_has_inherited b \<Longrightarrow> arrives (hs @ [c]) ?n (end_height b)"
      using c hs by (simp add: arrives_def nth_append)
    have "e' \<le> h - p \<and> (arrives (hs @ [c]) t' e' \<or> waits bs i k)"
      if ex: "exit_of ts' (ys ! i) k = Some (t', e')" for k t' e'
    proof -
      from ex exit [OF i] obtain t where t: "exit_of ts (xs ! i) k = Some (t, e')"
        and t': "t' = (if (i, k) \<in> set ?att then ?n else t)" by auto
      show ?thesis
      proof (cases "(i, k) \<in> set ?att")
        case True
        with b_fits t h live t' have "arrives (hs @ [c]) t' e'"
          by (auto simp: label_fits_def break_fits_def)
        with e [OF t] show ?thesis by simp
      next
        case False
        with e [OF t] t' show ?thesis by (auto simp: waits_def)
      qed
    qed
    moreover have "arrives (hs @ [c]) t' (h - p) \<or> open_if bs i" if sk: "skip_of (ys ! i) = Some t'" for t'
    proof (cases "if_of (lb_kind b) i")
      case True
      then obtain j e where je: "lb_kind b = BK_If j e" and i_je: "i = j \<or> e = Some i"
        by (cases "lb_kind b") auto
      have "arrives (hs @ [c]) t' (h - p)"
      proof (cases "i = j")
        case True
        with je i have yi: "ys ! i = If e ?n" by (simp add: ys)
        from same(1) [OF i, of env] yi eff have p: "p = 1" by simp
        have "\<not> lb_has_inherited b" "h = Suc (entry_height b)"
          and els: "\<And>k. e = Some k \<Longrightarrow> arrives (hs @ [c]) (Suc k) (entry_height b)"
          using b_fits h je True by (auto simp: label_fits_def kind_fits_def)
        with sk yi p live if' [of j] je show ?thesis by (cases e) auto
      next
        case False
        with i_je je i have yi: "ys ! i = Else ?n" and e: "e = Some i" by (auto simp: ys)
        from same(1) [OF i, of env] yi eff have p: "p = 0" by simp
        have "\<not> lb_has_inherited b" "h = end_height b"
          using b_fits h je e by (auto simp: label_fits_def kind_fits_def)
        with sk yi p live show ?thesis by simp
      qed
      then show ?thesis ..
    next
      case False
      then have "ys ! i = xs' ! i" using i by (auto simp: ys split: BlockKind.split)
      with sk x' [OF i] have "skip_of (xs ! i) = Some t'"
        by (cases "xs ! i") (auto split: if_splits)
      with s False show ?thesis by (auto simp: open_if_def)
    qed
    ultimately show ?thesis
      using eff f d same(1,2) [OF i] same(4) [OF i] unfolding fits_def by auto
  qed
  moreover have "label_fits ys ts' hs c c'" if "c' \<in> set bs" for c'
    using labels [of c'] that exit by (fastforce simp: label_fits_def break_fits_def len)
  moreover have "slots_owned ys ts'"
    using own same(3) by (simp add: slots_owned_def len)
  ultimately show ?thesis
    unfolding ys_def [symmetric] using hs len fl by (simp add: tracks_def)
qed

end
