(* ===== verification/LoweringHeights.thy ===== *)
theory LoweringHeights
  imports Heights
begin

text \<open>
  The lowering pass builds a height certificate: every operator that validation accepts keeps
  \<open>tracks\<close>, and a body whose last label has closed is \<open>certified\<close>.
\<close>

section \<open>Labels with more breaks\<close>

definition same_label :: "Label \<Rightarrow> Label \<Rightarrow> bool" where
  "same_label b b' \<longleftrightarrow> lb_kind b' = lb_kind b \<and> lb_recorded_height b' = lb_recorded_height b \<and>
     lb_params b' = lb_params b \<and> lb_results b' = lb_results b \<and>
     lb_has_inherited b' = lb_has_inherited b"

definition gains :: "(Label \<Rightarrow> nat \<times> nat \<Rightarrow> bool) \<Rightarrow> Label list \<Rightarrow> Label list \<Rightarrow> bool" where
  "gains P = list_all2 (\<lambda>b b'. same_label b b' \<and>
     set (lb_attached_breaks b) \<subseteq> set (lb_attached_breaks b') \<and>
     set (lb_attached_breaks b') \<subseteq> set (lb_attached_breaks b) \<union> Collect (P b))"

definition dead_flags :: "Label list \<Rightarrow> bool list" where
  "dead_flags bs = map lb_is_unreachable_traversing bs"

lemma same_label_refl [simp]: "same_label b b"
  by (simp add: same_label_def)

lemma same_label_dead [simp]: "same_label b (b\<lparr>lb_is_unreachable_traversing := t\<rparr>)"
  by (simp add: same_label_def)

lemma same_label_break [simp]: "same_label b (with_break p b)"
  by (simp add: same_label_def)

lemma same_label_heights:
  "same_label b b' \<Longrightarrow> entry_height b' = entry_height b" "same_label b b' \<Longrightarrow> end_height b' = end_height b"
  by (simp_all add: same_label_def entry_height_def end_height_def)

lemma gains_refl [simp]: "gains P bs bs"
  by (simp add: gains_def list_all2_same)

lemma gains_length: "gains P bs bs' \<Longrightarrow> length bs' = length bs"
  by (auto simp: gains_def dest: list_all2_lengthD)

lemma gains_nth: "gains P bs bs' \<Longrightarrow> i < length bs \<Longrightarrow> same_label (bs ! i) (bs' ! i)"
  by (auto simp: gains_def dest: list_all2_nthD)

lemma gains_trans:
  assumes "gains P bs bs'" "gains Q bs' bs''" "\<And>b b' p. same_label b b' \<Longrightarrow> Q b' p \<Longrightarrow> P b p"
  shows "gains P bs bs''"
  using assms(1,2) unfolding gains_def
  by (rule list_all2_trans [rotated]) (use assms(3) in \<open>auto simp: same_label_def, blast?\<close>)

lemma gains_mono: "gains P bs bs' \<Longrightarrow> (\<And>b p. P b p \<Longrightarrow> Q b p) \<Longrightarrow> gains Q bs bs'"
  unfolding gains_def by (erule list_all2_mono) auto

lemma gains_attach: "P (bs ! i) p \<Longrightarrow> gains P bs (bs[i := with_break p (bs ! i)])"
  unfolding gains_def
proof (rule list_all2_all_nthI, goal_cases)
  case (2 n)
  then show ?case by (cases "i = n") auto
qed simp

lemma gains_last: "gains P (bs @ [b]) (bs @ [b\<lparr>lb_is_unreachable_traversing := t\<rparr>])"
  by (simp add: gains_def list_all2_same list_all2_appendI)

lemma gainsD:
  assumes "gains P bs bs'" "b' \<in> set bs'"
  obtains b where "b \<in> set bs" "same_label b b'"
    "set (lb_attached_breaks b') \<subseteq> set (lb_attached_breaks b) \<union> Collect (P b)"
  using assms unfolding gains_def list_all2_conv_all_nth in_set_conv_nth by force

lemma gains_covers: 
  assumes "gains P bs bs'"
  shows "covers bs bs'"
proof -
  have "\<exists>b' \<in> set bs'. same_label b b' \<and> set (lb_attached_breaks b) \<subseteq> set (lb_attached_breaks b')"
    if "b \<in> set bs" for b
    using assms that unfolding gains_def list_all2_conv_all_nth in_set_conv_nth by force
  then show ?thesis
    unfolding covers_def waits_def open_if_def same_label_def by (metis subsetD)
qed

lemma dead_flags_break [simp]: "dead_flags (bs[i := with_break p (bs ! i)]) = dead_flags bs"
  using list_update_id [of "map lb_is_unreachable_traversing bs" i]
  by (cases "i < length bs") (simp_all add: dead_flags_def map_update list_update_beyond)

lemma flags_gains:
  assumes "flags bs" "gains P bs bs'" "dead_flags bs' = dead_flags bs"
  shows "flags bs'"
proof -
  have "lb_is_unreachable_traversing (bs' ! i) = lb_is_unreachable_traversing (bs ! i)"
    if "i < length bs" for i
    using assms(3) that gains_length [OF assms(2)]
    by (metis dead_flags_def length_map nth_map)
  then show ?thesis
    using assms(1) gains_nth [OF assms(2)] gains_length [OF assms(2)]
    by (simp add: flags_def sorted_wrt_iff_nth_less same_label_def)
qed

lemma label_fits_same:
  assumes "label_fits xs ts hs c b" "same_label b b'"
    and "\<And>p. p \<in> set (lb_attached_breaks b') \<Longrightarrow> p \<notin> set (lb_attached_breaks b) \<Longrightarrow> break_fits xs ts hs b p"
  shows "label_fits xs ts hs c b'"
proof -
  have "kind_fits hs c b' = kind_fits hs c b" "\<And>p. break_fits xs ts hs b' p = break_fits xs ts hs b p"
    using assms(2) same_label_heights [OF assms(2)]
    by (cases "lb_kind b"; simp add: kind_fits_def break_fits_def same_label_def)+
  with assms(1,3) show ?thesis by (auto simp: label_fits_def)
qed

text \<open>A branch is emitted and attached to the labels it names.\<close>

lemma tracks_branch:
  assumes t: "tracks env xs ts bs hs c" and g: "gains P bs bs'" and fl: "flags bs'"
    and new: "\<And>h. c = Some h \<Longrightarrow> fits env (ts @ us) bs' (hs @ [c, d]) (length xs) x h"
    and own: "\<And>k. owns x k \<Longrightarrow> length ts \<le> k \<and> k < length ts + length us"
    and P: "\<And>b i k. b \<in> set bs \<Longrightarrow> P b (i, k) \<Longrightarrow> i = length xs \<and>
      (\<exists>t e. exit_of (ts @ us) x k = Some (t, e) \<and>
        (c \<noteq> None \<longrightarrow> \<not> lb_has_inherited b \<and> e = end_height b))"
  shows "tracks env (xs @ [x]) (ts @ us) bs' (hs @ [c]) d"
proof (rule tracks_emit [OF t gains_covers [OF g] fl new own])
  fix b' assume "b' \<in> set bs'"
  with g obtain b where b: "b \<in> set bs" "same_label b b'"
    and att: "set (lb_attached_breaks b') \<subseteq> set (lb_attached_breaks b) \<union> Collect (P b)"
    by (rule gainsD)
  from t b(1) have len: "length hs = length xs" "slots_owned xs ts" and lf: "label_fits xs ts hs c b"
    by (auto simp: tracks_def)
  show "label_fits (xs @ [x]) (ts @ us) (hs @ [c]) d b'"
  proof (rule label_fits_same [OF label_fits_append [OF lf len] b(2)])
    fix p assume "p \<in> set (lb_attached_breaks b')" "p \<notin> set (lb_attached_breaks b)"
    with att have "P b p" by blast
    with P [OF b(1), of "fst p" "snd p"] len(1)
    show "break_fits (xs @ [x]) (ts @ us) (hs @ [c]) b p"
      by (cases p) (auto simp: break_fits_def nth_append)
  qed
qed


section \<open>Live code\<close>

text \<open>Where code is live, validation knows its height, and every open label was born live.\<close>

definition at_height :: "vstate \<Rightarrow> Label list \<Rightarrow> nat option \<Rightarrow> bool" where
  "at_height st bs c \<longleftrightarrow> c = next_height st bs \<and> list_all2 label_rel (fst st) (rev bs) \<and> bs \<noteq> [] \<and> flags bs"

lemma at_heightI:
  "height_inv st cs \<Longrightarrow> cs_inner cs \<noteq> [] \<Longrightarrow> flags (cs_inner cs) \<Longrightarrow>
     at_height st (cs_inner cs) (next_height st (cs_inner cs))"
  by (simp add: at_height_def height_inv_def)

lemma at_height_live:
  assumes "at_height st bs (Some h)"
  obtains f fs bs' b where "st = (f # fs, h)" "\<not> vf_dead f" "bs = bs' @ [b]" "label_rel f b"
    "\<not> lb_is_unreachable_traversing b" "\<forall>b \<in> set bs. \<not> lb_has_inherited b"
proof -
  from assms obtain bs' b where bs: "bs = bs' @ [b]"
    by (auto simp: at_height_def) (metis append_butlast_last_id)
  with assms have live: "\<not> lb_is_unreachable_traversing b" and h: "h = snd st"
    and rel: "list_all2 label_rel (fst st) (b # rev bs')" and fl: "flags (bs' @ [b])"
    by (auto simp: at_height_def next_height_def split: if_splits)
  from rel obtain f fs where f: "fst st = f # fs" "label_rel f b" "list_all2 label_rel fs (rev bs')"
    by (auto simp: list_all2_Cons2)
  have inh: "lb_has_inherited c \<Longrightarrow> lb_is_unreachable_traversing c" if "c \<in> set bs" for c
  proof -
    from that obtain i where "i < length bs" "c = rev bs ! i"
      by (metis in_set_conv_nth length_rev set_rev)
    with rel bs list_all2_nthD2 [OF rel, of i] show "lb_has_inherited c \<Longrightarrow> lb_is_unreachable_traversing c"
      by (auto simp: label_rel_def)
  qed
  have "\<not> lb_has_inherited c" if "c \<in> set bs" for c
    using that inh [of c] inh [of b] live fl bs by (auto simp: flags_snoc)
  moreover have "\<not> vf_dead f" using f(2) live by (simp add: label_rel_def)
  ultimately show thesis using f h bs live by (intro that) (cases st, auto)
qed

definition branch_height :: "Label \<Rightarrow> nat" where
  "branch_height b = (if is_loop (lb_kind b) = None then end_height b else entry_height b)"

lemma same_label_branch: "same_label b b' \<Longrightarrow> branch_height b' = branch_height b"
  using same_label_heights [of b b'] by (auto simp: branch_height_def same_label_def)

lemma label_rel_branch:
  assumes "label_rel f b" "\<not> lb_has_inherited b"
  shows "branch_height b = vf_start f + label_arity f"
proof -
  have "same_kind (vf_kind f) (lb_kind b)" using assms(1) by (simp add: label_rel_def)
  then have "vf_kind f = V_Loop \<longleftrightarrow> is_loop (lb_kind b) \<noteq> None"
    by (cases "(vf_kind f, lb_kind b)" rule: same_kind.cases) auto
  with assms show ?thesis
    by (auto simp: label_rel_def branch_height_def label_arity_def end_height_def entry_height_def)
qed

text \<open>Frames start no lower than those around them.\<close>

definition nested :: "vstate \<Rightarrow> bool" where
  "nested st \<longleftrightarrow> sorted_wrt (\<lambda>f g. vf_start g \<le> vf_start f) (fst st) \<and>
     (fst st \<noteq> [] \<longrightarrow> vf_start (hd (fst st)) \<le> snd st)"

lemma vpop_0: "nested st \<Longrightarrow> d < length (fst st) \<Longrightarrow> vpop 0 st = Some st"
  by (cases "(0 :: nat, st)" rule: vpop.cases) (auto simp: nested_def)

lemma nested_start:
  "nested (f # fs, h) \<Longrightarrow> d < length (f # fs) \<Longrightarrow> vf_start ((f # fs) ! d) \<le> vf_start f"
  by (cases d) (auto simp: nested_def)

text \<open>A branch to the label at depth \<open>d\<close> that validation accepts after \<open>p\<close> pops.\<close>

lemma branch_target_height:
  assumes a: "at_height st bs (Some h)" and n: "nested st" and d: "d < length (fst st)"
    and st1: "vpop p st = Some st1" "vpop (label_arity (fst st ! d)) st1 = Some st2"
  shows "branch_height (bs ! (length bs - 1 - d)) \<le> h - p"
proof -
  obtain f fs bs' b where st: "st = (f # fs, h)" "\<not> vf_dead f"
    and "bs = bs' @ [b]" "label_rel f b" "\<not> lb_is_unreachable_traversing b"
    and inh: "\<forall>b \<in> set bs. \<not> lb_has_inherited b"
    using a by (rule at_height_live)
  from a have rel: "list_all2 label_rel (fst st) (rev bs)" by (simp add: at_height_def)
  with d have len: "d < length bs" by (auto dest: list_all2_lengthD)
  have "label_rel (fst st ! d) (rev bs ! d)" by (rule list_all2_nthD [OF rel d])
  then have "label_rel (fst st ! d) (bs ! (length bs - 1 - d))" using len by (simp add: rev_nth)
  moreover have "\<not> lb_has_inherited (bs ! (length bs - 1 - d))" using len inh by simp
  ultimately have "branch_height (bs ! (length bs - 1 - d)) = vf_start (fst st ! d) + label_arity (fst st ! d)"
    by (rule label_rel_branch)
  also have "\<dots> \<le> h - p"
    using st st1 nested_start [of f fs h d] n d by (auto split: if_splits)
  finally show ?thesis .
qed

lemma tracks_loop:
  assumes "tracks env xs ts bs hs c" "b \<in> set bs" "is_loop (lb_kind b) = Some j" "\<not> lb_has_inherited b"
  shows "arrives hs j (branch_height b)"
proof -
  from assms(3) have "lb_kind b = BK_Loop j" by (cases "lb_kind b") auto
  with assms show ?thesis
    by (auto simp: tracks_def label_fits_def kind_fits_def branch_height_def)
qed


section \<open>Branches\<close>

text \<open>\<open>s\<close> with other labels.\<close>

definition with_labels :: "lower_state \<Rightarrow> Label list \<Rightarrow> lower_state" where
  "with_labels s bs = s\<lparr>ls_control := ls_control s\<lparr>cs_inner := bs\<rparr>\<rparr>"

lemma with_labels_sel [simp]:
  "ls_instructions (with_labels s bs) = ls_instructions s" "ls_br_targets (with_labels s bs) = ls_br_targets s"
  "cs_inner (ls_control (with_labels s bs)) = bs"
  by (simp_all add: with_labels_def)

definition branch_to :: "nat \<Rightarrow> nat \<Rightarrow> nat \<Rightarrow> Label \<Rightarrow> nat \<times> nat \<Rightarrow> bool" where
  "branch_to i k e = (\<lambda>b p. p = (i, k) \<and> e = end_height b)"

lemma resolve_branch_tracks:
  assumes t: "tracks env (ls_instructions s) (ls_br_targets s) (cs_inner (ls_control s)) hs c"
    and len: "length (ls_instructions s) \<le> U32_MAX" and d: "d < length (cs_inner (ls_control s))"
    and live: "c \<noteq> None \<Longrightarrow> \<forall>b \<in> set (cs_inner (ls_control s)). \<not> lb_has_inherited b"
  shows "wlp (resolve_branch d) (\<lambda>(t, a, h) s'. \<exists>bs'. s' = with_labels s bs' \<and>
     gains (branch_to (length (ls_instructions s)) U32_MAX (h + a)) (cs_inner (ls_control s)) bs' \<and>
     dead_flags bs' = dead_flags (cs_inner (ls_control s)) \<and>
     h + a = branch_height (cs_inner (ls_control s) ! (length (cs_inner (ls_control s)) - 1 - d)) \<and>
     (c \<noteq> None \<longrightarrow> arrives hs t (h + a) \<or> waits bs' (length (ls_instructions s)) U32_MAX)) s"
proof -
  let ?bs = "cs_inner (ls_control s)" and ?n = "length (ls_instructions s)"
  let ?i = "length ?bs - 1 - d"
  let ?b = "?bs ! ?i"
  from d have i: "?i < length ?bs" by simp
  then have b: "?b \<in> set ?bs" by (rule nth_mem)
  show ?thesis
  proof (cases "is_loop (lb_kind ?b)")
    case None
    have "gains (branch_to ?n U32_MAX (end_height ?b)) ?bs (?bs[?i := with_break (?n, U32_MAX) ?b])"
      by (rule gains_attach) (simp add: branch_to_def)
    with None i len show ?thesis
      by (auto simp: resolve_branch_def with_labels_def branch_height_def end_height_def
          intro!: exI waits_update)
  next
    case (Some j)
    with tracks_loop [OF t b Some] live b d show ?thesis
      by (auto simp: resolve_branch_def with_labels_def branch_height_def entry_height_def
          intro!: exI [of _ ?bs])
  qed
qed

lemma next_height_dead: "next_height st (bs @ [b\<lparr>lb_is_unreachable_traversing := True\<rparr>]) = None"
  by (simp add: next_height_def)

lemma flags_last:
  "flags (bs @ [b]) \<Longrightarrow> lb_has_inherited b' = lb_has_inherited b \<Longrightarrow> flags (bs @ [b'])"
  by (simp add: flags_snoc)

text \<open>Dead code begins after the branch.\<close>

lemma wlp_set_unreachable:
  assumes "\<And>bs b. cs_inner cs = bs @ [b] \<Longrightarrow>
      Q () (cs\<lparr>cs_inner := bs @ [b\<lparr>lb_is_unreachable_traversing := True\<rparr>]\<rparr>)"
  shows "wlp set_unreachable_traversing Q cs"
proof (cases "cs_inner cs" rule: rev_cases)
  case (snoc bs b)
  with assms [of bs b] show ?thesis by (simp add: set_unreachable_traversing_def)
qed (simp add: set_unreachable_traversing_def)

text \<open>What one operator has to keep: \<open>x\<close> is about to be emitted, at height \<open>c\<close>.\<close>

definition next_tracks ::
    "env \<Rightarrow> vstate \<Rightarrow> nat option list \<Rightarrow> nat option \<Rightarrow> StackInstruction \<Rightarrow> lower_state \<Rightarrow> bool" where
  "next_tracks env st hs c x s \<longleftrightarrow> tracks env (ls_instructions s @ [x]) (ls_br_targets s)
     (cs_inner (ls_control s)) (hs @ [c]) (next_height st (cs_inner (ls_control s)))"

lemma branch_emitted:
  assumes t: "tracks env xs ts bs hs c"
    and g: "gains (branch_to (length xs) U32_MAX e) bs bs'" "dead_flags bs' = dead_flags bs"
    and g': "gains (\<lambda>_ _. False) bs' bs''" "flags bs''"
    and live: "\<And>h. c = Some h \<Longrightarrow> (\<forall>b \<in> set bs. \<not> lb_has_inherited b) \<and> e \<le> h - p \<and> p \<le> h \<and>
      (arrives hs tgt e \<or> waits bs' (length xs) U32_MAX) \<and> (falls x \<longrightarrow> d = Some (h - p + q))"
    and x: "exit_of ts x U32_MAX = Some (tgt, e)" "\<And>k. k \<noteq> U32_MAX \<Longrightarrow> exit_of ts x k = None"
      "instr_effect env x = Some (p, q)" "skip_of x = None" "\<not> is_end x" "\<And>k. \<not> owns x k"
  shows "tracks env (xs @ [x]) ts bs'' (hs @ [c]) d"
proof -
  from t have len: "length hs = length xs" by (simp add: tracks_def)
  have g'': "gains (branch_to (length xs) U32_MAX e) bs bs''"
    by (rule gains_trans [OF g(1) g'(1)]) simp
  have "tracks env (xs @ [x]) (ts @ []) bs'' (hs @ [c]) d"
  proof (rule tracks_branch [OF t g'' g'(2)])
    fix h assume c: "c = Some h"
    have "waits bs'' (length xs) U32_MAX" if "waits bs' (length xs) U32_MAX"
      using gains_covers [OF g'(1)] that by (simp add: covers_def)
    moreover have "k = U32_MAX \<and> t' = tgt \<and> e' = e" if "exit_of ts x k = Some (t', e')" for k t' e'
      using that x(1,2) by (cases "k = U32_MAX") auto
    ultimately show "fits env (ts @ []) bs'' (hs @ [c, d]) (length xs) x h"
      using live [OF c] x(3-5) len arrives_append [of hs tgt e "[c, d]"]
      by (auto simp: fits_def is_end_def arrives_def nth_append)
  qed (use x live in \<open>auto simp: branch_to_def\<close>)
  then show ?thesis by simp
qed


definition lowering_at :: "env \<Rightarrow> vstate \<Rightarrow> nat option list \<Rightarrow> nat option \<Rightarrow> lower_state \<Rightarrow> bool" where
  "lowering_at env st hs c s \<longleftrightarrow> length (ls_instructions s) \<le> U32_MAX \<and> nested st \<and>
     at_height st (cs_inner (ls_control s)) c \<and>
     tracks env (ls_instructions s) (ls_br_targets s) (cs_inner (ls_control s)) hs c"

lemma lowering_at_labels:
  "lowering_at env st hs c s \<Longrightarrow> length (cs_inner (ls_control s)) = length (fst st)"
  by (auto simp: lowering_at_def at_height_def dest: list_all2_lengthD)

lemma lowering_at_live:
  assumes "lowering_at env st hs c s" "c \<noteq> None"
  shows "\<forall>b \<in> set (cs_inner (ls_control s)). \<not> lb_has_inherited b"
  using assms by (auto simp: lowering_at_def elim: at_height_live)

lemma flags_dead_last:
  assumes "flags bs" "gains P bs (bs' @ [b])" "dead_flags (bs' @ [b]) = dead_flags bs"
  shows "flags (bs' @ [b\<lparr>lb_is_unreachable_traversing := t\<rparr>])"
  using flags_gains [OF assms] by (rule flags_last) simp

lemma resolved_branch:
  assumes "lowering_at env st hs c s" "d < length (fst st)"
  shows "wlp (resolve_branch d) (\<lambda>(t, a, h) s'. \<exists>bs'. s' = with_labels s bs' \<and>
     gains (branch_to (length (ls_instructions s)) U32_MAX (h + a)) (cs_inner (ls_control s)) bs' \<and>
     dead_flags bs' = dead_flags (cs_inner (ls_control s)) \<and>
     h + a = branch_height (cs_inner (ls_control s) ! (length (cs_inner (ls_control s)) - 1 - d)) \<and>
     (c \<noteq> None \<longrightarrow> arrives hs t (h + a) \<or> waits bs' (length (ls_instructions s)) U32_MAX)) s"
  by (rule resolve_branch_tracks)
    (use assms lowering_at_labels [OF assms(1)] lowering_at_live [OF assms(1)]
      in \<open>auto simp: lowering_at_def\<close>)

lemma br_tracks:
  assumes at: "lowering_at env st hs c s" and d: "d < length (fst st)"
    and st1: "vpop (label_arity (fst st ! d)) st = Some st1"
  shows "wlp (lower_br d) (\<lambda>(x, eff) s'. next_tracks env st' hs c x s') s"
  unfolding lower_br_def wlp_bnd
proof (rule wlp_mono [OF resolved_branch [OF at d]], clarify)
  fix t a h bs'
  let ?bs = "cs_inner (ls_control s)" and ?n = "length (ls_instructions s)"
  assume g: "gains (branch_to ?n U32_MAX (h + a)) ?bs bs'" and df: "dead_flags bs' = dead_flags ?bs"
    and e: "h + a = branch_height (?bs ! (length ?bs - 1 - d))"
    and tgt: "c \<noteq> None \<longrightarrow> arrives hs t (h + a) \<or> waits bs' ?n U32_MAX"
  from at have tr: "tracks env (ls_instructions s) (ls_br_targets s) ?bs hs c" and fl: "flags ?bs"
    and ah: "at_height st ?bs c" and n: "nested st"
    by (auto simp: lowering_at_def at_height_def)
  have low: "h + a \<le> h0" if "c = Some h0" for h0
    using branch_target_height [of st ?bs h0 d 0 st st1] vpop_0 [OF n] ah n d st1 e that by simp
  show "wlp (bnd (control set_unreachable_traversing) (\<lambda>_. ret (Br t a h, SE_Unreachable)))
      (\<lambda>(x, eff) s'. next_tracks env st' hs c x s') (with_labels s bs')"
  proof (simp, rule wlp_set_unreachable, goal_cases)
    case (1 bs0 b)
    then have bs': "bs' = bs0 @ [b]" by simp
    let ?bs'' = "bs0 @ [b\<lparr>lb_is_unreachable_traversing := True\<rparr>]"
    have "tracks env (ls_instructions s @ [Br t a h]) (ls_br_targets s) ?bs'' (hs @ [c]) None"
      by (rule branch_emitted [OF tr g df, where p = 0 and q = 0 and tgt = t])
        (use low tgt lowering_at_live [OF at] bs' gains_last [of _ bs0 b] flags_dead_last [OF fl, of _ bs0 b]
          g df in \<open>auto simp: falls_def guarded_def is_end_def\<close>)
    then show ?case by (simp add: next_tracks_def next_height_dead)
  qed
qed

lemma br_if_tracks:
  assumes at: "lowering_at env st hs c s" and d: "d < length (fst st)"
    and st1: "vpop 1 st = Some st1" "vpop (label_arity (fst st ! d)) st1 = Some st2"
      "vpush (label_arity (fst st ! d)) st2 = Some st'"
  shows "wlp (lower_br_if d) (\<lambda>(x, eff) s'. next_tracks env st' hs c x s') s"
  unfolding lower_br_if_def wlp_bnd
proof (rule wlp_mono [OF resolved_branch [OF at d]], clarify)
  fix t a h bs'
  let ?bs = "cs_inner (ls_control s)" and ?n = "length (ls_instructions s)"
  assume g: "gains (branch_to ?n U32_MAX (h + a)) ?bs bs'" and df: "dead_flags bs' = dead_flags ?bs"
    and e: "h + a = branch_height (?bs ! (length ?bs - 1 - d))"
    and tgt: "c \<noteq> None \<longrightarrow> arrives hs t (h + a) \<or> waits bs' ?n U32_MAX"
  from at have tr: "tracks env (ls_instructions s) (ls_br_targets s) ?bs hs c" and fl: "flags ?bs"
    and ah: "at_height st ?bs c" and n: "nested st"
    by (auto simp: lowering_at_def at_height_def)
  have live: "h + a \<le> h0 - 1 \<and> 1 \<le> h0 \<and> next_height st' bs' = Some (h0 - 1)" if c: "c = Some h0" for h0
  proof -
    have "at_height st ?bs (Some h0)" using ah c by simp
    then obtain f fs bs0 b where st: "st = (f # fs, h0)" "\<not> vf_dead f" and bs: "?bs = bs0 @ [b]"
      and b: "\<not> lb_is_unreachable_traversing b"
      by (rule at_height_live) blast
    with st1 have "1 \<le> h0" "snd st' = h0 - 1" by (auto split: if_splits)
    moreover have "h + a \<le> h0 - 1"
      using branch_target_height [of st ?bs h0 d 1 st1 st2] ah n d st1 e c by simp
    moreover have "bs' \<noteq> []" using gains_length [OF g] bs by auto
    then have "lb_is_unreachable_traversing (last bs') = last (dead_flags bs')"
      by (simp add: dead_flags_def last_map)
    then have "\<not> lb_is_unreachable_traversing (last bs')" using df bs b by (simp add: dead_flags_def)
    ultimately show ?thesis by (simp add: next_height_def)
  qed
  have "tracks env (ls_instructions s @ [BrIf t a h]) (ls_br_targets s) bs' (hs @ [c]) (next_height st' bs')"
    by (rule branch_emitted [OF tr g df gains_refl, where p = 1 and q = 0 and tgt = t])
      (use live tgt lowering_at_live [OF at] flags_gains [OF fl g df]
        in \<open>auto simp: falls_def guarded_def is_end_def\<close>)
  then show "wlp (ret (BrIf t a h, PopPush 1 0)) (\<lambda>(x, eff) s'. next_tracks env st' hs c x s') (with_labels s bs')"
    by (simp add: next_tracks_def)
qed


lemma lower_return_tracks:
  assumes at: "lowering_at env st hs c s" and ne: "fst st \<noteq> []"
    and func: "vf_kind (last (fst st)) \<noteq> V_Loop"
    and st1: "vpop (vf_results (last (fst st))) st = Some st1"
  shows "wlp lower_return (\<lambda>(x, eff) s'. next_tracks env st' hs c x s') s"
proof -
  let ?bs = "cs_inner (ls_control s)" and ?n = "length (ls_instructions s)" and ?b = "cs_inner (ls_control s) ! 0"
  let ?d = "length (fst st) - 1"
  let ?bs' = "?bs[0 := with_break (?n, U32_MAX) ?b]"
  from at have tr: "tracks env (ls_instructions s) (ls_br_targets s) ?bs hs c" and fl: "flags ?bs"
    and ah: "at_height st ?bs c" and n: "nested st" and len: "?n \<le> U32_MAX"
    by (auto simp: lowering_at_def at_height_def)
  from ne lowering_at_labels [OF at] have ne': "?bs \<noteq> []" by auto
  have d: "?d < length (fst st)" using ne by simp
  have last: "last (fst st) = fst st ! ?d" using ne by (simp add: last_conv_nth)
  have "label_rel (fst st ! ?d) (rev ?bs ! ?d)"
    using ah d by (auto simp: at_height_def intro: list_all2_nthD)
  then have "label_rel (fst st ! ?d) ?b"
    using lowering_at_labels [OF at] ne by (simp add: rev_nth)
  then have "same_kind (vf_kind (last (fst st))) (lb_kind ?b)" by (simp add: label_rel_def last)
  with func have loop: "is_loop (lb_kind ?b) = None"
    by (cases "(vf_kind (last (fst st)), lb_kind ?b)" rule: same_kind.cases) auto
  have arity: "label_arity (fst st ! ?d) = vf_results (last (fst st))"
    using func by (simp add: label_arity_def last)
  have e: "lb_recorded_height ?b + lb_results ?b = end_height ?b"
    by (simp add: end_height_def)
  have low: "end_height ?b \<le> h0" if "c = Some h0" for h0
    using branch_target_height [of st ?bs h0 ?d 0 st st1] vpop_0 [OF n d] ah n d st1 that arity loop
      lowering_at_labels [OF at]
    by (simp add: branch_height_def)
  have g: "gains (branch_to ?n U32_MAX (end_height ?b)) ?bs ?bs'"
    by (rule gains_attach) (simp add: branch_to_def)
  have w: "waits ?bs' ?n U32_MAX" using ne' by (intro waits_update) simp
  have "tracks env (ls_instructions s @ [Return U32_MAX (lb_results ?b) (lb_recorded_height ?b)])
      (ls_br_targets s) (bs0 @ [b\<lparr>lb_is_unreachable_traversing := True\<rparr>]) (hs @ [c]) None"
    if bs': "?bs' = bs0 @ [b]" for bs0 b
    by (rule branch_emitted [OF tr g dead_flags_break, where p = 0 and q = 0 and tgt = U32_MAX])
      (use low w lowering_at_live [OF at] bs' gains_last [of _ bs0 b] flags_dead_last [OF fl, of _ bs0 b]
        g dead_flags_break [of ?bs 0 "(?n, U32_MAX)"] e in \<open>auto simp: falls_def guarded_def is_end_def\<close>)
  then show ?thesis
    using len by (auto simp: lower_return_def next_tracks_def next_height_dead intro!: wlp_set_unreachable)
qed

section \<open>Labels\<close>

text \<open>The label that \<open>add_block\<close> opens.\<close>

definition opens :: "BlockKind \<Rightarrow> nat \<Rightarrow> ControlStack \<Rightarrow> Label \<Rightarrow> bool" where
  "opens kind start cs b \<longleftrightarrow> lb_kind b = kind \<and> lb_attached_breaks b = [] \<and>
     (if lb_is_unreachable_traversing (last (cs_inner cs))
      then lb_has_inherited b \<and> lb_is_unreachable_traversing b
      else \<not> lb_has_inherited b \<and> \<not> lb_is_unreachable_traversing b \<and> lb_recorded_height b = start)"

lemma wlp_add_block_opens:
  assumes inv: "height_inv st cs" and ne: "cs_inner cs \<noteq> []" and small: "small_types types"
    and st: "vpop extra st = Some st1" "vopen k types bt st1 = Some st'"
    and kind: "kind \<noteq> BK_Func" and extra: "extra = (case kind of BK_If _ _ \<Rightarrow> 1 | _ \<Rightarrow> 0)"
    and Q: "\<And>b f fs. st' = (f # fs, vf_start f + vf_params f) \<Longrightarrow>
      opens kind (vf_start f) cs b \<Longrightarrow> lb_params b = vf_params f \<Longrightarrow> lb_results b = vf_results f \<Longrightarrow>
      (\<not> lb_has_inherited b \<Longrightarrow> snd st = vf_start f + vf_params f + extra) \<Longrightarrow>
      Q () (cs\<lparr>cs_inner := cs_inner cs @ [b]\<rparr>)"
  shows "wlp (add_block kind bt types) Q cs"
  using st(2)
proof (rule vopenE)
  fix p r fs' h'
  assume ar: "blocktype_arity types bt = Some (p, r)" and pp: "vpop p st1 = Some (fs', h')"
    and st': "st' = (\<lparr>vf_kind = k, vf_start = h', vf_params = p, vf_results = r, vf_dead = False\<rparr> # fs', h' + p)"
  obtain f fs h bs b where f: "st = (f # fs, h)" and bs: "cs_inner cs = bs @ [b]" and rel: "label_rel f b"
    and curr: "\<not> lb_is_unreachable_traversing b \<Longrightarrow> curr_height cs = h"
    using inv ne by (rule height_invE) blast
  note pr = arity_small [OF small ar]
  show ?thesis
  proof (cases "lb_is_unreachable_traversing b")
    case True
    have "Q () (cs\<lparr>cs_inner := cs_inner cs @ [\<lparr>lb_kind = kind, lb_recorded_height = 0, lb_params = p,
        lb_results = r, lb_is_unreachable_traversing = True, lb_has_inherited = True,
        lb_attached_breaks = []\<rparr>]\<rparr>)"
      by (rule Q) (use True bs in \<open>auto simp: opens_def st'\<close>)
    with True bs show ?thesis by (simp add: add_block_def push_block_def pr)
  next
    case False
    with rel have "\<not> vf_dead f" by (simp add: label_rel_def)
    with f st(1) pp have h: "h = h' + p + extra" by (auto split: if_splits)
    then have "recorded_height_of kind h p = (Ok h' :: (TraceWasmError, nat) result)"
      using kind extra by (auto simp: recorded_height_of_def u32_sub_def split: BlockKind.splits)
    moreover have "Q () (cs\<lparr>cs_inner := cs_inner cs @ [\<lparr>lb_kind = kind, lb_recorded_height = h', lb_params = p,
        lb_results = r, lb_is_unreachable_traversing = False, lb_has_inherited = False,
        lb_attached_breaks = []\<rparr>]\<rparr>)"
      by (rule Q) (use False bs f h in \<open>auto simp: opens_def st'\<close>)
    ultimately show ?thesis using bs False curr by (auto simp: add_block_def push_block_def pr)
  qed
qed


lemma flags_open:
  assumes "at_height st (cs_inner cs) c" "opens kind h cs b"
  shows "flags (cs_inner cs @ [b])"
proof -
  from assms(1) obtain bs l where bs: "cs_inner cs = bs @ [l]" and fl: "flags (bs @ [l])"
    and rel: "list_all2 label_rel (fst st) (l # rev bs)"
    by (cases "cs_inner cs" rule: rev_cases) (auto simp: at_height_def)
  from rel have "lb_has_inherited l \<Longrightarrow> lb_is_unreachable_traversing l"
    by (auto simp: list_all2_Cons2 label_rel_def)
  with assms(2) fl show ?thesis
    unfolding bs flags_snoc by (auto simp: bs opens_def split: if_splits)
qed

lemma tracks_open:
  assumes t: "tracks env xs ts bs hs c" and b: "lb_attached_breaks b = []" "flags (bs @ [b])"
    and new: "\<And>h. c = Some h \<Longrightarrow> fits env ts (bs @ [b]) (hs @ [c, d]) (length xs) x h"
    and own: "\<And>k. \<not> owns x k" and kind: "kind_fits (hs @ [c]) d b"
  shows "tracks env (xs @ [x]) ts (bs @ [b]) (hs @ [c]) d"
proof -
  have "tracks env (xs @ [x]) (ts @ []) (bs @ [b]) (hs @ [c]) d"
  proof (rule tracks_emit [OF t _ b(2)])
    show "covers bs (bs @ [b])" by (auto simp: covers_def waits_def open_if_def)
    fix b' assume "b' \<in> set (bs @ [b])"
    with t b(1) kind show "label_fits (xs @ [x]) (ts @ []) (hs @ [c]) d b'"
      using label_fits_append [of xs ts hs c b' x "[]" d]
      by (auto simp: tracks_def label_fits_def [of _ _ _ _ b])
  qed (use new own in auto)
  then show ?thesis by simp
qed

lemma opened_tracks:
  assumes at: "lowering_at env st hs c s" and inv: "height_inv st (ls_control s)"
    and small: "small_types types"
    and st: "vpop extra st = Some st1" "vopen k types bt st1 = Some st'"
    and kind: "kind \<noteq> BK_Func" and extra: "extra = (case kind of BK_If _ _ \<Rightarrow> 1 | _ \<Rightarrow> 0)"
    and x: "instr_effect env x = Some (extra, 0)" "falls x" "\<And>ts k. exit_of ts x k = None"
      "skip_of x = None \<or> if_of kind (length (ls_instructions s))" "\<not> is_end x" "\<And>k. \<not> owns x k"
    and index: "kind = BK_Block \<or> kind = BK_Loop (length (ls_instructions s)) \<or>
      kind = BK_If (length (ls_instructions s)) None"
  shows "wlp (add_block kind bt types) (\<lambda>_ cs'. next_tracks env st' hs c x (s\<lparr>ls_control := cs'\<rparr>)) (ls_control s)"
proof -
  let ?bs = "cs_inner (ls_control s)"
  from at have tr: "tracks env (ls_instructions s) (ls_br_targets s) ?bs hs c"
    and ah: "at_height st ?bs c"
    by (auto simp: lowering_at_def)
  then have ne: "?bs \<noteq> []" and c: "c = next_height st ?bs" and len: "length hs = length (ls_instructions s)"
    by (auto simp: at_height_def tracks_def)
  show ?thesis
  proof (rule wlp_add_block_opens [OF inv ne small st kind extra])
    fix b f fs
    assume st'_eq: "st' = (f # fs, vf_start f + vf_params f)"
      and b: "opens kind (vf_start f) (ls_control s) b" "lb_params b = vf_params f"
      and h: "\<not> lb_has_inherited b \<Longrightarrow> snd st = vf_start f + vf_params f + extra"
    have live: "c = (if lb_has_inherited b then None else Some (entry_height b + extra))"
      "next_height st' (?bs @ [b]) = (if lb_has_inherited b then None else Some (entry_height b))"
      using b h ne by (auto simp: c next_height_def opens_def entry_height_def st'_eq split: if_splits)
    have "tracks env (ls_instructions s @ [x]) (ls_br_targets s) (?bs @ [b]) (hs @ [c])
        (next_height st' (?bs @ [b]))"
    proof (rule tracks_open [OF tr])
      show "flags (?bs @ [b])" by (rule flags_open [OF ah b(1)])
      show "kind_fits (hs @ [c]) (next_height st' (?bs @ [b])) b"
        using index b(1) live extra len
        by (auto simp: opens_def kind_fits_def arrives_def nth_append split: if_splits)
      fix h assume "c = Some h"
      with x b live len
      show "fits env (ls_br_targets s) (?bs @ [b]) (hs @ [c, next_height st' (?bs @ [b])])
          (length (ls_instructions s)) x h"
        by (auto simp: fits_def arrives_def nth_append open_if_def opens_def is_end_def split: if_splits)
    qed (use b(1) x in \<open>auto simp: opens_def\<close>)
    then show "next_tracks env st' hs c x (s\<lparr>ls_control := ls_control s\<lparr>cs_inner := ?bs @ [b]\<rparr>\<rparr>)"
      by (simp add: next_tracks_def)
  qed
qed

lemma lower_labels_tracks:
  assumes at: "lowering_at env st hs c s" and inv: "height_inv st (ls_control s)"
    and small: "small_types types"
  shows "vopen V_Block types bt st = Some st' \<Longrightarrow>
      wlp (lower_block types bt) (\<lambda>(x, eff) s'. next_tracks env st' hs c x s') s"
    and "vopen V_Loop types bt st = Some st' \<Longrightarrow>
      wlp (lower_loop types bt) (\<lambda>(x, eff) s'. next_tracks env st' hs c x s') s"
    and "vpop 1 st = Some st1 \<Longrightarrow> vopen V_If types bt st1 = Some st' \<Longrightarrow>
      wlp (lower_if types bt) (\<lambda>(x, eff) s'. next_tracks env st' hs c x s') s"
proof -
  note opened = opened_tracks [OF at inv small]
  have len: "length (ls_instructions s) \<le> U32_MAX" using at by (simp add: lowering_at_def)
  have "nested st" "fst st \<noteq> []" using at by (auto simp: lowering_at_def at_height_def)
  then have st: "vpop 0 st = Some st" by (intro vpop_0 [of _ 0]) auto
  show "vopen V_Block types bt st = Some st' \<Longrightarrow>
      wlp (lower_block types bt) (\<lambda>(x, eff) s'. next_tracks env st' hs c x s') s"
    using opened [OF st, of V_Block bt st' BK_Block Block]
    by (simp add: lower_block_def falls_def is_end_def)
  show "vopen V_Loop types bt st = Some st' \<Longrightarrow>
      wlp (lower_loop types bt) (\<lambda>(x, eff) s'. next_tracks env st' hs c x s') s"
    using opened [OF st, of V_Loop bt st' "BK_Loop (length (ls_instructions s))" Loop] len
    by (simp add: lower_loop_def falls_def is_end_def)
  show "vpop 1 st = Some st1 \<Longrightarrow> vopen V_If types bt st1 = Some st' \<Longrightarrow>
      wlp (lower_if types bt) (\<lambda>(x, eff) s'. next_tracks env st' hs c x s') s"
    using opened [of 1 st1 V_If bt st' "BK_If (length (ls_instructions s)) None" "If None U32_MAX"] len
    by (simp add: lower_if_def falls_def is_end_def)
qed


text \<open>A label closes, or its first arm does, at the height its results leave.\<close>

lemma closing_height:
  assumes at: "at_height st (bs @ [b]) c" and st: "vclose st = Some (f, fs)"
  shows "label_rel f b" and "list_all2 label_rel fs (rev bs)"
    and "c = None \<or> (\<not> lb_has_inherited b \<and> c = Some (end_height b))"
proof -
  obtain h where st': "st = (f # fs, h)" using st by (rule vcloseE)
  with at show rel: "label_rel f b" and "list_all2 label_rel fs (rev bs)"
    by (simp_all add: at_height_def)
  show "c = None \<or> (\<not> lb_has_inherited b \<and> c = Some (end_height b))"
  proof (cases c)
    case (Some h0)
    with at obtain f' fs' bs' b' where "st = (f' # fs', h0)" "\<not> vf_dead f'"
      and inh: "\<forall>b \<in> set (bs @ [b]). \<not> lb_has_inherited b"
      by (metis at_height_live)
    with st st' have "h0 = vf_start f + vf_results f"
      by (auto simp: vclose_def bind_eq_Some_conv split: if_splits)
    moreover have "lb_recorded_height b = vf_start f" "lb_results b = vf_results f"
      using rel inh by (auto simp: label_rel_def)
    ultimately show ?thesis using Some inh by (simp add: end_height_def)
  qed simp
qed

lemma lower_else_tracks:
  assumes at: "lowering_at env st hs c s" and st: "vclose st = Some (f, fs)" "vf_kind f = V_If"
    and st': "st' = (f\<lparr>vf_kind := V_Else, vf_dead := False\<rparr> # fs, vf_start f + vf_params f)"
  shows "wlp lower_else (\<lambda>(x, eff) s'. next_tracks env st' hs c x s') s"
proof -
  let ?xs = "ls_instructions s" and ?ts = "ls_br_targets s"
  obtain bs b where bs: "cs_inner (ls_control s) = bs @ [b]"
    using at by (auto simp: lowering_at_def at_height_def) (metis append_butlast_last_id)
  from at bs have tr: "tracks env ?xs ?ts (bs @ [b]) hs c" and ah: "at_height st (bs @ [b]) c"
    and fl: "flags (bs @ [b])" and n: "length ?xs \<le> U32_MAX"
    by (auto simp: lowering_at_def at_height_def)
  note b = closing_height [OF ah st(1)]
  from b(1) st(2) have "same_kind V_If (lb_kind b)" by (simp add: label_rel_def)
  then obtain j where j: "lb_kind b = BK_If j None" using same_kind_If by blast
  have len: "length hs = length ?xs" "slots_owned ?xs ?ts"
    and lf: "\<And>b'. b' \<in> set (bs @ [b]) \<Longrightarrow> label_fits ?xs ?ts hs c b'"
    using tr by (auto simp: tracks_def)
  have *: "tracks env (?xs @ [Else U32_MAX]) ?ts (bs @ [b']) (hs @ [c]) (next_height st' (bs @ [b']))"
    if b': "b' = b\<lparr>lb_kind := BK_If j (Some (length ?xs)),
        lb_is_unreachable_traversing := lb_has_inherited b\<rparr>" for b'
  proof -
    have same: "lb_recorded_height b' = lb_recorded_height b" "lb_params b' = lb_params b"
      "lb_results b' = lb_results b" "lb_has_inherited b' = lb_has_inherited b"
      "lb_attached_breaks b' = lb_attached_breaks b"
      "lb_kind b' = BK_If j (Some (length ?xs))"
      by (simp_all add: b')
    then have hts: "entry_height b' = entry_height b" "end_height b' = end_height b"
      by (simp_all add: entry_height_def end_height_def)
    let ?d = "next_height st' (bs @ [b'])"
    have d: "?d = (if lb_has_inherited b then None else Some (entry_height b))"
      using b(1) by (auto simp: b' next_height_def st' entry_height_def label_rel_def)
    have lf': "label_fits (?xs @ [Else U32_MAX]) ?ts (hs @ [c]) ?d b''" if "b'' \<in> set (bs @ [b])" for b''
      using label_fits_append [OF lf [OF that] len, where us = "[]"] by simp
    have "kind_fits (hs @ [c]) ?d b'"
      using lf' [of b] j b(3) len(1)
      by (auto simp: label_fits_def kind_fits_def same hts d nth_append arrives_def)
    moreover have "break_fits (?xs @ [Else U32_MAX]) ?ts (hs @ [c]) b' p"
      if "p \<in> set (lb_attached_breaks b)" for p
      using lf' [of b] that by (auto simp: label_fits_def break_fits_def same hts)
    ultimately have "label_fits (?xs @ [Else U32_MAX]) ?ts (hs @ [c]) ?d b''" if "b'' \<in> set (bs @ [b'])" for b''
      using that lf' [of b''] by (auto simp: label_fits_def [of _ _ _ _ b'] same)
    moreover have "covers (bs @ [b]) (bs @ [b'])"
      by (auto simp: covers_def waits_def open_if_def same j)
    moreover have "flags (bs @ [b'])" using fl same(4) by (rule flags_last)
    ultimately have "tracks env (?xs @ [Else U32_MAX]) (?ts @ []) (bs @ [b']) (hs @ [c]) ?d"
      by (intro tracks_emit [OF tr]) (auto simp: fits_def falls_def open_if_def same)
    then show ?thesis by simp
  qed
  have "lb_is_unreachable_traversing b" if "lb_has_inherited b"
    using b(1) that by (simp add: label_rel_def)
  then have "b\<lparr>lb_kind := BK_If j (Some (length ?xs))\<rparr> =
      b\<lparr>lb_kind := BK_If j (Some (length ?xs)), lb_is_unreachable_traversing := lb_has_inherited b\<rparr>"
    if "lb_has_inherited b" using that by simp
  with * [OF refl] bs j n show ?thesis
    by (auto simp: lower_else_def end_unreachable_traversing_def next_tracks_def)
qed

lemma straight_tracks:
  assumes at: "lowering_at env st hs c s" and st: "vpop p st = Some st1" "vpush q st1 = Some st'"
    and x: "straight x" "instr_effect env x = Some (p, q)"
  shows "next_tracks env st' hs c x s"
proof -
  from at have tr: "tracks env (ls_instructions s) (ls_br_targets s) (cs_inner (ls_control s)) hs c"
    and ah: "at_height st (cs_inner (ls_control s)) c"
    by (auto simp: lowering_at_def)
  show ?thesis
    unfolding next_tracks_def
  proof (rule tracks_straight [OF tr x])
    fix h assume "c = Some h"
    with ah obtain f fs where "st = (f # fs, h)" "\<not> vf_dead f"
      and "next_height st (cs_inner (ls_control s)) = Some h"
      by (metis at_height_def at_height_live)
    with st show "p \<le> h \<and> next_height st' (cs_inner (ls_control s)) = Some (h - p + q)"
      by (auto simp: next_height_def split: if_splits)
  qed
qed

lemma unreachable_tracks:
  assumes at: "lowering_at env st hs c s"
  shows "wlp (control set_unreachable_traversing) (\<lambda>_ s'. next_tracks env st' hs c Unreachable s') s"
proof -
  from at have tr: "tracks env (ls_instructions s) (ls_br_targets s) (cs_inner (ls_control s)) hs c"
    and fl: "flags (cs_inner (ls_control s))"
    by (auto simp: lowering_at_def at_height_def)
  have "tracks env (ls_instructions s @ [Unreachable]) (ls_br_targets s @ [])
      (bs @ [b\<lparr>lb_is_unreachable_traversing := True\<rparr>]) (hs @ [c]) None"
    if bs: "cs_inner (ls_control s) = bs @ [b]" for bs b
    by (rule tracks_branch [OF tr, where P = "\<lambda>_ _. False"])
      (use bs fl in \<open>auto simp: gains_last fits_def falls_def intro: flags_last\<close>)
  then show ?thesis
    by (auto simp: next_tracks_def next_height_dead intro!: wlp_set_unreachable)
qed


section \<open>The arms of a \<open>br_table\<close>\<close>

definition slot_height :: "StackBrTableTarget \<Rightarrow> nat" where
  "slot_height t = bt_recorded_height t + bt_arity t"

definition arm_break ::
    "nat \<Rightarrow> StackBrTableTarget list \<Rightarrow> StackBrTableTarget list \<Rightarrow> Label \<Rightarrow> nat \<times> nat \<Rightarrow> bool" where
  "arm_break i ts us b = (\<lambda>(j, k). j = i \<and> length ts \<le> k \<and> k < length ts + length us \<and>
     slot_height (us ! (k - length ts)) = end_height b)"

definition arms_track ::
    "nat option list \<Rightarrow> nat option \<Rightarrow> nat \<Rightarrow> lower_state \<Rightarrow> nat \<Rightarrow> lower_state \<Rightarrow> bool" where
  "arms_track hs c low s m s' \<longleftrightarrow> (\<exists>us bs'.
     s' = (with_labels s bs')\<lparr>ls_br_targets := ls_br_targets s @ us\<rparr> \<and> length us = m \<and>
     gains (arm_break (length (ls_instructions s)) (ls_br_targets s) us) (cs_inner (ls_control s)) bs' \<and>
     dead_flags bs' = dead_flags (cs_inner (ls_control s)) \<and>
     (c \<noteq> None \<longrightarrow> (\<forall>k < m. slot_height (us ! k) \<le> low \<and>
        (arrives hs (bt_target_index (us ! k)) (slot_height (us ! k)) \<or>
         waits bs' (length (ls_instructions s)) (length (ls_br_targets s) + k)))))"

lemma arm_break_snoc: "arm_break i ts us b p \<Longrightarrow> arm_break i ts (us @ [t]) b p"
  by (auto simp: arm_break_def nth_append)

lemma arms_track_0: "arms_track hs c low s 0 s"
  unfolding arms_track_def
  by (rule exI [of _ "[]"], rule exI [of _ "cs_inner (ls_control s)"]) (simp add: with_labels_def)

lemma arms_track_step:
  assumes t: "tracks env (ls_instructions s) (ls_br_targets s) (cs_inner (ls_control s)) hs c"
    and live: "c \<noteq> None \<Longrightarrow> \<forall>b \<in> set (cs_inner (ls_control s)). \<not> lb_has_inherited b"
    and d: "d < length (cs_inner (ls_control s))"
    and low: "c \<noteq> None \<Longrightarrow>
      branch_height (cs_inner (ls_control s) ! (length (cs_inner (ls_control s)) - 1 - d)) \<le> low"
    and inv: "arms_track hs c low s m s'" and bound: "length (ls_br_targets s) + m < U32_MAX"
  shows "wlp (lower_br_table_arm (length (ls_instructions s)) (length (ls_br_targets s)) m d)
    (\<lambda>_. arms_track hs c low s (Suc m)) s'"
proof -
  let ?n = "length (ls_instructions s)" and ?ts = "ls_br_targets s" and ?bs = "cs_inner (ls_control s)"
  let ?i = "length ?bs - 1 - d"
  from inv obtain us bs' where
    s': "s' = (with_labels s bs')\<lparr>ls_br_targets := ?ts @ us\<rparr>" and m: "length us = m"
    and g: "gains (arm_break ?n ?ts us) ?bs bs'" and df: "dead_flags bs' = dead_flags ?bs"
    and arms': "c \<noteq> None \<longrightarrow> (\<forall>k < m. slot_height (us ! k) \<le> low \<and>
        (arrives hs (bt_target_index (us ! k)) (slot_height (us ! k)) \<or> waits bs' ?n (length ?ts + k)))"
    unfolding arms_track_def by (elim exE conjE)
  then have arms: "slot_height (us ! k) \<le> low \<and>
        (arrives hs (bt_target_index (us ! k)) (slot_height (us ! k)) \<or> waits bs' ?n (length ?ts + k))"
    if "c \<noteq> None" "k < m" for k using that by simp
  have lbs: "length bs' = length ?bs" using g by (rule gains_length)
  have i: "?i < length ?bs" using d by simp
  let ?b = "bs' ! ?i"
  from gains_nth [OF g i] have same: "same_label (?bs ! ?i) ?b" .
  then have bh: "branch_height ?b = branch_height (?bs ! ?i)" by (rule same_label_branch)
  have g': "gains (arm_break ?n ?ts (us @ [t])) ?bs bs'" for t
    using g by (rule gains_mono) (rule arm_break_snoc)
  show ?thesis
  proof (cases "is_loop (lb_kind ?b)")
    case (Some j)
    let ?t = "\<lparr>bt_target_index = j, bt_arity = lb_params ?b, bt_recorded_height = lb_recorded_height ?b\<rparr>"
    have h: "slot_height ?t = branch_height (?bs ! ?i)"
      unfolding bh [symmetric] using Some by (simp add: slot_height_def branch_height_def entry_height_def)
    have "arrives hs j (slot_height ?t) \<and> slot_height ?t \<le> low" if "c \<noteq> None"
      unfolding h using that low live i Some same
      by (intro conjI tracks_loop [OF t]) (auto simp: same_label_def)
    then have "slot_height ((us @ [?t]) ! k) \<le> low \<and>
        (arrives hs (bt_target_index ((us @ [?t]) ! k)) (slot_height ((us @ [?t]) ! k)) \<or>
         waits bs' ?n (length ?ts + k))" if "c \<noteq> None" "k < Suc m" for k
      using arms [of k] that m by (cases "k < m") (simp_all add: nth_append less_Suc_eq)
    then have "arms_track hs c low s (Suc m) (s'\<lparr>ls_br_targets := ls_br_targets s' @ [?t]\<rparr>)"
      unfolding arms_track_def s' using g' df m
      by (intro exI [of _ "us @ [?t]"] exI [of _ bs'] conjI) simp_all
    then show ?thesis
      using Some lbs d by (simp add: lower_br_table_arm_def push_br_target_def s')
  next
    case None
    let ?t = "\<lparr>bt_target_index = U32_MAX, bt_arity = lb_results ?b,
        bt_recorded_height = lb_recorded_height ?b\<rparr>"
    let ?p = "(?n, length ?ts + m)"
    let ?bs'' = "bs'[?i := with_break ?p ?b]"
    have h: "slot_height ?t = end_height ?b" by (simp add: slot_height_def end_height_def)
    with None bh have h': "slot_height ?t = branch_height (?bs ! ?i)" by (simp add: branch_height_def)
    have g'': "gains (arm_break ?n ?ts (us @ [?t])) bs' ?bs''"
      by (rule gains_attach) (use m h in \<open>auto simp: arm_break_def nth_append\<close>)
    have w: "waits ?bs'' ?n (length ?ts + m)" using i lbs by (intro waits_update) simp
    have "gains (arm_break ?n ?ts (us @ [?t])) ?bs ?bs''"
      by (rule gains_trans [OF g' g'']) (auto simp: arm_break_def same_label_heights)
    moreover have "waits ?bs'' ?n (length ?ts + k)" if "waits bs' ?n (length ?ts + k)" for k
      using gains_covers [OF g''] that by (simp add: covers_def)
    moreover from this have "slot_height ((us @ [?t]) ! k) \<le> low \<and>
        (arrives hs (bt_target_index ((us @ [?t]) ! k)) (slot_height ((us @ [?t]) ! k)) \<or>
         waits ?bs'' ?n (length ?ts + k))" if "c \<noteq> None" "k < Suc m" for k
      using arms [of k] that m w low h' by (cases "k < m") (auto simp: nth_append less_Suc_eq)
    ultimately have "arms_track hs c low s (Suc m) (s'\<lparr>ls_control := ls_control s'\<lparr>cs_inner := ?bs''\<rparr>,
        ls_br_targets := ls_br_targets s' @ [?t]\<rparr>)"
      unfolding arms_track_def s' using df m
      by (intro exI [of _ "us @ [?t]"] exI [of _ ?bs''] conjI) (simp_all add: with_labels_def)
    then show ?thesis
      using None bound lbs d
      by (simp add: lower_br_table_arm_def push_br_target_def s' u32_add_def with_labels_def)
  qed
qed

lemma arms_track_loop:
  assumes t: "tracks env (ls_instructions s) (ls_br_targets s) (cs_inner (ls_control s)) hs c"
    and live: "c \<noteq> None \<Longrightarrow> \<forall>b \<in> set (cs_inner (ls_control s)). \<not> lb_has_inherited b"
    and d: "\<And>d. d \<in> set ds \<Longrightarrow> d < length (cs_inner (ls_control s)) \<and> (c \<noteq> None \<longrightarrow>
      branch_height (cs_inner (ls_control s) ! (length (cs_inner (ls_control s)) - 1 - d)) \<le> low)"
    and inv: "arms_track hs c low s m s'" and bound: "length (ls_br_targets s) + m + length ds \<le> U32_MAX"
  shows "wlp (lower_br_table_arms (length (ls_instructions s)) (length (ls_br_targets s)) m ds m)
    (\<lambda>n s''. n = m + length ds \<and> arms_track hs c low s (m + length ds) s'') s'"
  using inv bound d
proof (induction ds arbitrary: m s')
  case Nil
  then show ?case by simp
next
  case (Cons d ds)
  have "wlp (lower_br_table_arm (length (ls_instructions s)) (length (ls_br_targets s)) m d)
      (\<lambda>_. arms_track hs c low s (Suc m)) s'"
    by (rule arms_track_step [OF t live _ _ Cons.prems(1)]) (use Cons.prems(2,3) in auto)
  then show ?case
    unfolding lower_br_table_arms.simps wlp_bnd
  proof (rule wlp_mono)
    fix a s''
    assume "arms_track hs c low s (Suc m) s''"
    from Cons.IH [OF this] Cons.prems(2,3)
    show "wlp (lift_result (u32_add m 1)) (\<lambda>n. wlp (lower_br_table_arms
        (length (ls_instructions s)) (length (ls_br_targets s)) (Suc m) ds n)
       (\<lambda>n s''. n = m + length (d # ds) \<and> arms_track hs c low s (m + length (d # ds)) s'')) s''"
      by (auto simp: u32_add_def)
  qed
qed

lemma table_emitted:
  assumes t: "tracks env (ls_instructions s) (ls_br_targets s) (cs_inner (ls_control s)) hs c"
    and live: "c \<noteq> None \<Longrightarrow> \<forall>b \<in> set (cs_inner (ls_control s)). \<not> lb_has_inherited b"
    and inv: "arms_track hs c low s m s'" and low: "\<And>h. c = Some h \<Longrightarrow> low \<le> h - 1 \<and> 1 \<le> h"
    and bs'': "cs_inner (ls_control s') = bs0 @ [b]"
  shows "tracks env (ls_instructions s @ [BrTable (length (ls_br_targets s)) m]) (ls_br_targets s')
    (bs0 @ [b\<lparr>lb_is_unreachable_traversing := True\<rparr>]) (hs @ [c]) None"
proof -
  let ?n = "length (ls_instructions s)" and ?ts = "ls_br_targets s" and ?bs = "cs_inner (ls_control s)"
  let ?x = "BrTable (length ?ts) m" and ?bs'' = "bs0 @ [b\<lparr>lb_is_unreachable_traversing := True\<rparr>]"
  from inv obtain us where s': "ls_br_targets s' = ?ts @ us" and m: "length us = m"
    and g: "gains (arm_break ?n ?ts us) ?bs (bs0 @ [b])" and df: "dead_flags (bs0 @ [b]) = dead_flags ?bs"
    and arms: "\<And>k. c \<noteq> None \<Longrightarrow> k < m \<Longrightarrow> slot_height (us ! k) \<le> low \<and>
        (arrives hs (bt_target_index (us ! k)) (slot_height (us ! k)) \<or> waits (bs0 @ [b]) ?n (length ?ts + k))"
    using bs'' unfolding arms_track_def by auto
  have len: "length hs = ?n" and fl: "flags ?bs" using t by (simp_all add: tracks_def)
  have g': "gains (\<lambda>_ _. False) (bs0 @ [b]) ?bs''" by (rule gains_last)
  have ex: "exit_of (?ts @ us) ?x k = Some (t, e) \<longleftrightarrow> length ?ts \<le> k \<and> k < length ?ts + m \<and>
      t = bt_target_index (us ! (k - length ?ts)) \<and> e = slot_height (us ! (k - length ?ts))" for k t e
    by (auto simp: nth_append slot_height_def)
  show ?thesis
    unfolding s'
  proof (rule tracks_branch [OF t gains_trans [OF g g']])
    show "flags ?bs''" using fl g df by (rule flags_dead_last)
    fix h assume c: "c = Some h"
    have w: "waits ?bs'' i k" if "waits (bs0 @ [b]) i k" for i k
      using gains_covers [OF g'] that by (simp add: covers_def)
    have "e \<le> h - 1 \<and> (arrives (hs @ [c, None]) t e \<or> waits ?bs'' ?n k)"
      if "exit_of (?ts @ us) ?x k = Some (t, e)" for k t e
    proof -
      from that have k: "length ?ts \<le> k" "k - length ?ts < m" and te: "t = bt_target_index (us ! (k - length ?ts))"
        "e = slot_height (us ! (k - length ?ts))"
        unfolding ex by auto
      from arms [of "k - length ?ts"] k c low [OF c] w te show ?thesis
        by (auto intro: arrives_append)
    qed
    then show "fits env (?ts @ us) ?bs'' (hs @ [c, None]) ?n ?x h"
      unfolding fits_def using low [OF c]
      by (intro exI [of _ 1] exI [of _ 0]) (simp add: falls_def)
  next
    fix b' i k assume "b' \<in> set ?bs" "arm_break ?n ?ts us b' (i, k)"
    with live m show "i = ?n \<and> (\<exists>t e. exit_of (?ts @ us) ?x k = Some (t, e) \<and>
        (c \<noteq> None \<longrightarrow> \<not> lb_has_inherited b' \<and> e = end_height b'))"
      unfolding ex by (auto simp: arm_break_def)
  qed (use m in auto)
qed


lemma lower_br_table_tracks:
  assumes at: "lowering_at env st hs c s" and st1: "vpop 1 st = Some st1"
    and st2: "\<And>e. e \<in> set (ds @ [d]) \<Longrightarrow>
      e < length (fst st) \<and> (\<exists>st2. vpop (label_arity (fst st ! e)) st1 = Some st2)"
    and bound: "length (ls_br_targets s) + length ds + 1 \<le> U32_MAX"
  shows "wlp (lower_br_table (Inr ds) d) (\<lambda>(x, eff) s'. next_tracks env st' hs c x s') s"
proof -
  let ?bs = "cs_inner (ls_control s)" and ?n = "length (ls_instructions s)"
  from at have tr: "tracks env (ls_instructions s) (ls_br_targets s) ?bs hs c"
    and ah: "at_height st ?bs c" and n: "nested st" and len: "?n \<le> U32_MAX"
    by (auto simp: lowering_at_def)
  define low where "low = (case c of Some h \<Rightarrow> h - 1 | None \<Rightarrow> 0)"
  have low: "low \<le> h - 1 \<and> 1 \<le> h" if c: "c = Some h" for h
  proof -
    have "at_height st ?bs (Some h)" using ah c by simp
    then obtain f fs where "st = (f # fs, h)" "\<not> vf_dead f" by (rule at_height_live)
    with st1 c show ?thesis by (auto simp: low_def split: if_splits)
  qed
  have arms: "e < length ?bs \<and> (c \<noteq> None \<longrightarrow> branch_height (?bs ! (length ?bs - 1 - e)) \<le> low)"
    if e: "e \<in> set (ds @ [d])" for e
  proof -
    from st2 [OF e] obtain st2 where el: "e < length (fst st)" and st2': "vpop (label_arity (fst st ! e)) st1 = Some st2"
      by blast
    show ?thesis
      using branch_target_height [OF _ n el st1 st2', of ?bs] ah el lowering_at_labels [OF at]
      by (cases c) (simp_all add: low_def)
  qed
  have "wlp (lower_br_table_arms ?n (length (ls_br_targets s)) 0 (ds @ [d]) 0)
      (\<lambda>m s'. m = 0 + length (ds @ [d]) \<and> arms_track hs c low s (0 + length (ds @ [d])) s') s"
    by (rule arms_track_loop [OF tr lowering_at_live [OF at] arms arms_track_0]) (use bound in auto)
  then have "wlp (lower_br_table_arms ?n (length (ls_br_targets s)) 0 (ds @ [d]) 0)
     (\<lambda>m. wlp (control set_unreachable_traversing)
       (\<lambda>_ s'. next_tracks env st' hs c (BrTable (length (ls_br_targets s)) m) s')) s"
  proof (rule wlp_mono)
    fix m s' assume "m = 0 + length (ds @ [d]) \<and> arms_track hs c low s (0 + length (ds @ [d])) s'"
    then have inv: "arms_track hs c low s m s'" by simp
    have ins: "ls_instructions s' = ls_instructions s"
      using inv by (auto simp: arms_track_def)
    show "wlp (control set_unreachable_traversing)
       (\<lambda>_ s'. next_tracks env st' hs c (BrTable (length (ls_br_targets s)) m) s') s'"
      using table_emitted [OF tr lowering_at_live [OF at] inv low]
      by (auto simp: next_tracks_def next_height_dead ins intro!: wlp_set_unreachable)
  qed
  then show ?thesis
    using len bound by (simp add: lower_br_table_def)
qed

section \<open>Closing a label\<close>

lemma tracks_end:
  assumes t: "tracks env xs ts (bs @ [b]) hs c" and b: "label_ok xs ts b"
    and c: "c = None \<or> (\<not> lb_has_inherited b \<and> c = Some (end_height b))"
    and if': "\<And>j. lb_kind b = BK_If j None \<Longrightarrow> entry_height b = end_height b"
    and patched: "patched (length xs) (lb_attached_breaks b) xs ts xs' ts'"
    and e: "e = (if lb_has_inherited b then None else Some (end_height b))"
    and d: "\<not> lb_has_inherited b \<Longrightarrow> d = Some (end_height b)"
  shows "tracks env (close_if (length xs) (lb_kind b) xs' @ [End (lb_results b) (lb_recorded_height b)])
    ts' bs (hs @ [e]) d"
proof -
  let ?ys = "close_if (length xs) (lb_kind b) xs'"
  have len': "length xs' = length xs" using patched by (simp add: patched_def)
  then have len: "length ?ys = length xs" by simp
  have "tracks env xs ts (bs @ [b]) hs e"
    by (rule tracks_raise [OF t]) (use c e in auto)
  then have tr: "tracks env ?ys ts' bs hs e"
    by (rule tracks_close [OF _ b _ if' patched]) (simp add: e)
  then have "length hs = length xs" unfolding tracks_def len by blast
  then have "fits env ts' bs (hs @ [e, d]) (length xs) (End (lb_results b) (lb_recorded_height b)) h"
    if "e = Some h" for h
    using that e d by (auto simp: fits_def falls_def arrives_def nth_append end_height_def split: if_splits)
  then have "tracks env (?ys @ [End (lb_results b) (lb_recorded_height b)]) (ts' @ []) bs (hs @ [e]) d"
    using tr label_fits_append [of ?ys ts' hs e _ _ "[]"]
    by (intro tracks_emit [OF tr]) (auto simp: len' tracks_def)
  then show ?thesis by simp
qed

lemma lower_end_tracks:
  assumes at: "lowering_at env st hs c s" and ok: "resolved_state s"
    and st: "vclose st = Some (f, fs)" and if': "vf_kind f = V_If \<Longrightarrow> vf_params f = vf_results f"
    and st': "st' = (fs, vf_start f + vf_results f)"
  shows "wlp lower_end (\<lambda>(x, eff) s'. \<exists>e. (e = c \<or> c = None \<and> e = Some (snd st')) \<and>
    next_tracks env st' hs e x s') s"
proof -
  let ?xs = "ls_instructions s" and ?ts = "ls_br_targets s"
  obtain bs b where bs: "cs_inner (ls_control s) = bs @ [b]"
    using at by (auto simp: lowering_at_def at_height_def) (metis append_butlast_last_id)
  from at bs have tr: "tracks env ?xs ?ts (bs @ [b]) hs c" and ah: "at_height st (bs @ [b]) c"
    and fl: "flags (bs @ [b])" and n: "length ?xs \<le> U32_MAX"
    by (auto simp: lowering_at_def at_height_def)
  note rel = closing_height [OF ah st]
  from ok bs have b: "label_ok ?xs ?ts b" by (simp add: resolved_state_def resolved_def)
  have "entry_height b = end_height b" if "lb_kind b = BK_If j None" for j
  proof -
    from rel(1) that have "vf_kind f = V_If"
      by (cases "(vf_kind f, lb_kind b)" rule: same_kind.cases) (auto simp: label_rel_def)
    with if' rel(1) show ?thesis by (simp add: entry_height_def end_height_def label_rel_def)
  qed
  moreover have "next_height st' bs = Some (end_height b)" if inh: "\<not> lb_has_inherited b"
  proof -
    have "\<not> lb_is_unreachable_traversing (last bs)" if "bs \<noteq> []"
      using fl inh that by (auto simp: flags_snoc)
    with rel(1) inh show ?thesis by (auto simp: next_height_def st' end_height_def label_rel_def)
  qed
  ultimately have closed: "tracks env (close_if (length ?xs) (lb_kind b) xs' @
        [End (lb_results b) (lb_recorded_height b)]) ts' bs
      (hs @ [if lb_has_inherited b then None else Some (end_height b)]) (next_height st' bs)"
    if "patched (length ?xs) (lb_attached_breaks b) ?xs ?ts xs' ts'" for xs' ts'
    by (intro tracks_end [OF tr b rel(3) _ that]) auto
  have snd: "\<not> lb_has_inherited b \<Longrightarrow> end_height b = snd st'"
    using rel(1) by (simp add: st' end_height_def label_rel_def)
  let ?s0 = "s\<lparr>ls_control := ls_control s\<lparr>cs_inner := bs\<rparr>\<rparr>"
  let ?E = "if lb_has_inherited b then None else Some (end_height b)"
  have "wp (for_each (lb_attached_breaks b) (patch_break (length ?xs))) (\<lambda>_ s'. \<exists>xs' ts'.
      s' = ?s0\<lparr>ls_instructions := xs', ls_br_targets := ts'\<rparr> \<and>
      patched (length ?xs) (lb_attached_breaks b) ?xs ?ts xs' ts') (\<lambda>_ _. False) ?s0"
    using patch_breaks [of "lb_attached_breaks b" ?s0 "length ?xs" "\<lambda>_ _. False"] b
    by (auto simp: label_ok_def)
  then have "wlp (for_each (lb_attached_breaks b) (patch_break (length ?xs)))
     (\<lambda>_. wlp (patch_if (length ?xs) (lb_kind b)) (\<lambda>_ s'.
        next_tracks env st' hs ?E (End (lb_results b) (lb_recorded_height b)) s')) ?s0"
  proof (rule wlp_mono [OF wp_imp_wlp], elim exE conjE)
    fix s1 xs' ts'
    assume s1: "s1 = ?s0\<lparr>ls_instructions := xs', ls_br_targets := ts'\<rparr>"
      and patched: "patched (length ?xs) (lb_attached_breaks b) ?xs ?ts xs' ts'"
    have kind: "kind_ok xs' (lb_kind b)"
      by (rule kind_ok_shape [of ?xs]) (use b patched in \<open>auto simp: label_ok_def patched_def\<close>)
    show "wlp (patch_if (length ?xs) (lb_kind b)) (\<lambda>_ s'.
        next_tracks env st' hs ?E (End (lb_results b) (lb_recorded_height b)) s') s1"
      by (rule wlp_mono [OF wp_imp_wlp [OF patch_if_wp [where E = "\<lambda>_ _. False"]]])
        (use kind closed [OF patched] in \<open>auto simp: s1 next_tracks_def\<close>)
  qed
  then have "wlp (for_each (lb_attached_breaks b) (patch_break (length ?xs)))
     (\<lambda>_. wlp (patch_if (length ?xs) (lb_kind b)) (\<lambda>_ s'. \<exists>e. (e = c \<or> c = None \<and> e = Some (snd st')) \<and>
        next_tracks env st' hs e (End (lb_results b) (lb_recorded_height b)) s')) ?s0"
    using snd rel(3) by (elim wlp_mono) (rule exI [of _ ?E], auto)
  then show ?thesis
    using n bs by (simp add: lower_end_def pop_block_def) (auto elim!: wlp_mono)
qed

end
