(* ===== verification/Certificates.thy ===== *)
theory Certificates
  imports LoweringHeights
begin

text \<open>
  Every validated body has a height certificate: the invariant of \<open>LoweringHeights\<close> through
  one operator, through the pass, and at its end.
\<close>

section \<open>Operators without control flow\<close>

lemma straight_simps [simp]:
  "straight Nop" "straight (Const v)" "straight RefIsNull" "straight MemorySize" "straight MemoryGrow"
  "straight MemoryCopy" "straight MemoryFill" "straight (MemoryInit i)" "straight (DataDrop i)"
  "straight (Load l off)" "straight (Store st off)" "straight (Numeric n)" "straight (LocalGet i)"
  "straight (LocalSet i)" "straight (LocalTee i)" "straight (GlobalGet i)" "straight (GlobalSet i)"
  "straight (Call f m)" "straight (CallIndirect ty tab)" "straight Drop" "straight Select"
  by (simp_all add: straight_def falls_def is_end_def)

definition emits_straight :: "env \<Rightarrow> nat \<times> nat \<Rightarrow> lowered \<Rightarrow> bool" where
  "emits_straight env pq m \<longleftrightarrow>
     (\<forall>s. wlp m (\<lambda>(x, eff) s'. s' = s \<and> straight x \<and> instr_effect env x = Some pq) s)"

lemma lower_numeric_straight:
  "numeric_effect n = pq \<Longrightarrow> emits_straight env pq (lower_numeric n)"
  by (cases n) (auto simp: emits_straight_def)

lemma straight_operator:
  assumes eff: "op_effect (en_types env) (en_decls env) operator = Some pq"
    and small: "small_types (en_types env)" and idx: "op_indices env operator"
  shows "emits_straight env pq (lower_operator (en_types env) (en_decls env) operator)"
proof (cases operator)
  case (Op_Call f)
  with eff have f: "unat f < length (en_decls env)"
    and ty: "unat (fd_ty (en_decls env ! unat f)) < length (en_types env)"
    by (auto simp: op_effect_def call_effect_def split: if_splits)
  with small_types_nth [OF small ty] eff Op_Call show ?thesis
    by (auto simp: emits_straight_def lower_operator.simps lower_call_def op_effect_def call_effect_def)
next
  case (Op_CallIndirect ty tab)
  with eff idx show ?thesis
    by (auto simp: emits_straight_def lower_operator.simps lower_call_indirect_def op_effect_def
        op_indices_def)
next
  case (Op_Numeric n)
  with eff show ?thesis
    by (auto simp: op_effect_def lower_operator.simps simp del: lower_numeric.simps
        intro: lower_numeric_straight)
qed (use eff idx in \<open>auto simp: emits_straight_def lower_operator.simps op_effect_def op_indices_def
      lower_load_def lower_store_def split: if_splits\<close>)

section \<open>What validation keeps\<close>

definition same_frame :: "vframe \<Rightarrow> vframe \<Rightarrow> bool" where
  "same_frame f g \<longleftrightarrow> vf_kind g = vf_kind f \<and> vf_start g = vf_start f \<and> vf_results g = vf_results f"

definition frames_step :: "vstate \<Rightarrow> vstate \<Rightarrow> bool" where
  "frames_step st st' \<longleftrightarrow> (\<exists>f fs. fst st = f # fs \<and>
     ((\<exists>g. fst st' = g # fs \<and> same_frame f g \<and> vf_start f \<le> snd st') \<or>
      (\<exists>f' g. fst st' = g # f' # fs \<and> same_frame f f' \<and> vf_start f \<le> vf_start g \<and> vf_start g \<le> snd st') \<or>
      (\<exists>g. vf_kind f = V_If \<and> fst st' = g # fs \<and> vf_start g = vf_start f \<and> vf_start f \<le> snd st') \<or>
      (fst st' = fs \<and> snd st' = vf_start f + vf_results f)))"

lemma same_frame_refl [simp]: "same_frame f f"
  by (simp add: same_frame_def)

lemma vpop_start:
  "vpop n st = Some st' \<Longrightarrow> \<exists>f fs. fst st = f # fs \<and> fst st' = f # fs \<and> vf_start f \<le> snd st'"
  by (cases "(n, st)" rule: vpop.cases) (auto split: if_splits)

lemma vpush_up: "vpush n st = Some st' \<Longrightarrow> fst st' = fst st \<and> snd st \<le> snd st'"
  by (cases st) (auto split: if_splits)

lemma vdead_step: "vdead st = Some st' \<Longrightarrow>
    \<exists>f fs. fst st = f # fs \<and> fst st' = f\<lparr>vf_dead := True\<rparr> # fs \<and> snd st' = vf_start f"
  by (cases st rule: vdead.cases) auto

lemma vopen_step: "vopen k types bt st = Some st' \<Longrightarrow> \<exists>f fs g. fst st = f # fs \<and>
    fst st' = g # f # fs \<and> vf_start f \<le> vf_start g \<and> vf_start g \<le> snd st'"
  by (elim vopenE) (auto dest!: vpop_start)

lemma vclose_step: "vclose st = Some (f, fs) \<Longrightarrow> fst st = f # fs"
  by (elim vcloseE) simp

lemma vstep_frames_step:
  assumes "vstep types decls operator st = Some st'"
  shows "frames_step st st'"
proof (cases operator)
  case Op_Unreachable
  with assms show ?thesis
    by (auto simp: vstep_def frames_step_def same_frame_def dest!: vdead_step)
next
  case (Op_If bt)
  with assms obtain st1 where "vpop 1 st = Some st1" "vopen V_If types bt st1 = Some st'"
    by (fastforce simp: vstep_def bind_eq_Some_conv)
  from vpop_start [OF this(1)] vopen_step [OF this(2)] show ?thesis
    by (auto simp: frames_step_def)
next
  case Op_Else
  with assms show ?thesis
    by (auto simp: vstep_def bind_eq_Some_conv frames_step_def dest!: vclose_step split: if_splits)
next
  case Op_End
  with assms show ?thesis
    by (auto simp: vstep_def bind_eq_Some_conv frames_step_def dest!: vclose_step split: if_splits)
next
  case (Op_Br d)
  with assms show ?thesis
    by (auto simp: vstep_def bind_eq_Some_conv frames_step_def same_frame_def simp del: vpop.simps
        dest!: vpop_start vdead_step split: if_splits)
next
  case (Op_BrIf d)
  with assms obtain st1 st2 where "vpop 1 st = Some st1"
      "vpop (label_arity (fst st1 ! d)) st1 = Some st2" "vpush (label_arity (fst st1 ! d)) st2 = Some st'"
    by (fastforce simp: vstep_def bind_eq_Some_conv Let_def split: if_splits)
  from vpop_start [OF this(1)] vpop_start [OF this(2)] vpush_up [OF this(3)] show ?thesis
    by (auto simp: frames_step_def)
next
  case (Op_BrTable targets d)
  with assms show ?thesis
    by (cases targets)
      (auto simp: vstep_def op_effect_def bind_eq_Some_conv frames_step_def same_frame_def simp del: vpop.simps
        dest!: vpop_start vdead_step split: if_splits)
next
  case Op_Return
  with assms show ?thesis
    by (auto simp: vstep_def bind_eq_Some_conv frames_step_def same_frame_def simp del: vpop.simps
        dest!: vpop_start vdead_step split: if_splits)
qed (use assms in \<open>auto simp: vstep_def bind_eq_Some_conv frames_step_def simp del: vpop.simps vpush.simps
      dest!: vopen_step vpop_start vpush_up split: option.splits intro: order.trans\<close>)

text \<open>The outermost frame is the function's until the body ends.\<close>

definition outer_frame :: "nat \<Rightarrow> vstate \<Rightarrow> bool" where
  "outer_frame results st \<longleftrightarrow> (if fst st = [] then snd st = results
     else vf_kind (last (fst st)) = V_Func \<and> vf_start (last (fst st)) = 0 \<and>
       vf_results (last (fst st)) = results)"

lemma frames_step_keeps:
  assumes "frames_step st st'" "nested st" "outer_frame results st"
  shows "nested st'" and "outer_frame results st'"
proof -
  from assms(1) obtain f fs where st: "fst st = f # fs"
    and cases: "(\<exists>g. fst st' = g # fs \<and> same_frame f g \<and> vf_start f \<le> snd st') \<or>
      (\<exists>f' g. fst st' = g # f' # fs \<and> same_frame f f' \<and> vf_start f \<le> vf_start g \<and> vf_start g \<le> snd st') \<or>
      (\<exists>g. vf_kind f = V_If \<and> fst st' = g # fs \<and> vf_start g = vf_start f \<and> vf_start f \<le> snd st') \<or>
      (fst st' = fs \<and> snd st' = vf_start f + vf_results f)"
    unfolding frames_step_def by blast
  from assms(2) st have n: "\<forall>g \<in> set fs. vf_start g \<le> vf_start f"
      "sorted_wrt (\<lambda>f g. vf_start g \<le> vf_start f) fs"
    by (auto simp: nested_def)
  have up: "vf_start g \<le> k" if "g \<in> set fs" "vf_start f \<le> k" for g k
    using n(1) that by force
  from cases show "nested st'"
    using n up by (auto simp: nested_def same_frame_def)
  from cases show "outer_frame results st'"
    using assms(3) st by (auto simp: outer_frame_def same_frame_def split: if_splits)
qed


section \<open>One operator\<close>

lemma straight_next:
  assumes "emits_straight env (p, q) m" "lowering_at env st hs c s"
    and "vpop p st = Some st1" "vpush q st1 = Some st'"
  shows "wlp m (\<lambda>(x, eff) s'. next_tracks env st' hs c x s') s"
  using assms(1) straight_tracks [OF assms(2-4)]
  unfolding emits_straight_def
  by (elim allE [of _ s] wlp_mono) auto

lemma vstep_straight:
  "op_effect types decls operator = Some (p, q) \<Longrightarrow>
     vstep types decls operator st = Option.bind (vpop p st) (vpush q)"
  by (cases operator) (auto simp: vstep_def op_effect_def)

lemma operator_tracks:
  assumes at: "lowering_at env st hs c s" and inv: "height_inv st (ls_control s)"
    and ok: "resolved_state s" and small: "small_types (en_types env)" and outer: "outer_frame results st"
    and st': "vstep (en_types env) (en_decls env) operator st = Some st'" and idx: "op_indices env operator"
    and bound: "length (ls_br_targets s) + op_arms operator \<le> U32_MAX"
  shows "wlp (lower_operator (en_types env) (en_decls env) operator) (\<lambda>(x, eff) s'.
    \<exists>e. (e = c \<or> c = None \<and> e = Some (snd st')) \<and> next_tracks env st' hs e x s') s"
proof (cases "operator = Op_End")
  case True
  with st' obtain f fs where cl: "vclose st = Some (f, fs)" and st'_eq: "st' = (fs, vf_start f + vf_results f)"
    and if': "vf_kind f = V_If \<Longrightarrow> vf_params f = vf_results f"
    by (auto simp: vstep_def bind_eq_Some_conv split: if_splits)
  from lower_end_tracks [OF at ok cl if' st'_eq] True show ?thesis
    by (auto simp: lower_operator.simps elim!: wlp_mono)
next
  case False
  have "wlp (lower_operator (en_types env) (en_decls env) operator)
      (\<lambda>(x, eff) s'. next_tracks env st' hs c x s') s"
    if none: "op_effect (en_types env) (en_decls env) operator = None"
  proof (cases operator)
    case Op_Unreachable
    show ?thesis
      using unreachable_tracks [OF at] by (simp add: Op_Unreachable lower_operator.simps)
  next
    case (Op_Block bt)
    with st' lower_labels_tracks(1) [OF at inv small] show ?thesis
      by (simp add: lower_operator.simps vstep_def)
  next
    case (Op_Loop bt)
    with st' lower_labels_tracks(2) [OF at inv small] show ?thesis
      by (simp add: lower_operator.simps vstep_def)
  next
    case (Op_If bt)
    with st' obtain st1 where "vpop 1 st = Some st1" "vopen V_If (en_types env) bt st1 = Some st'"
      by (fastforce simp: vstep_def bind_eq_Some_conv)
    from lower_labels_tracks(3) [OF at inv small this] Op_If show ?thesis
      by (simp add: lower_operator.simps)
  next
    case Op_Else
    with st' obtain f fs where "vclose st = Some (f, fs)" "vf_kind f = V_If"
      "st' = (f\<lparr>vf_kind := V_Else, vf_dead := False\<rparr> # fs, vf_start f + vf_params f)"
      by (auto simp: vstep_def bind_eq_Some_conv split: if_splits)
    from lower_else_tracks [OF at this] Op_Else show ?thesis by (simp add: lower_operator.simps)
  next
    case (Op_Br d)
    with st' obtain st1 where "d < length (fst st)" "vpop (label_arity (fst st ! d)) st = Some st1"
      by (fastforce simp: vstep_def bind_eq_Some_conv split: if_splits)
    from br_tracks [OF at this] Op_Br show ?thesis by (simp add: lower_operator.simps)
  next
    case (Op_BrIf d)
    with st' obtain st1 st2 where d: "d < length (fst st)" and st1: "vpop 1 st = Some st1"
      and st2: "vpop (label_arity (fst st1 ! d)) st1 = Some st2"
        "vpush (label_arity (fst st1 ! d)) st2 = Some st'"
      by (fastforce simp: vstep_def bind_eq_Some_conv Let_def split: if_splits)
    from st2 have "vpop (label_arity (fst st ! d)) st1 = Some st2"
      "vpush (label_arity (fst st ! d)) st2 = Some st'"
      using vpop_frames [OF st1] by simp_all
    from br_if_tracks [OF at d st1 this] Op_BrIf show ?thesis by (simp add: lower_operator.simps)
  next
    case (Op_BrTable targets d)
    with st' obtain ds where ds: "targets = Inr ds" by (cases targets) (auto simp: vstep_def op_effect_def)
    with st' Op_BrTable obtain st1 st2 where st1: "vpop 1 st = Some st1"
      and st2: "vpop (label_arity (fst st1 ! d)) st1 = Some st2"
      and d: "\<And>e. e \<in> set (ds @ [d]) \<Longrightarrow> e < length (fst st) \<and> label_arity (fst st ! e) = label_arity (fst st ! d)"
      by (fastforce simp: vstep_def bind_eq_Some_conv split: if_splits)
    have "e < length (fst st) \<and> (\<exists>st2. vpop (label_arity (fst st ! e)) st1 = Some st2)"
      if "e \<in> set (ds @ [d])" for e
      using d [OF that] st2 vpop_frames [OF st1] by auto
    from lower_br_table_tracks [OF at st1 this] bound Op_BrTable ds show ?thesis
      by (simp add: lower_operator.simps)
  next
    case Op_Return
    with st' obtain st1 where ne: "fst st \<noteq> []" and st1: "vpop (vf_results (last (fst st))) st = Some st1"
      by (fastforce simp: vstep_def bind_eq_Some_conv split: if_splits)
    with outer have "vf_kind (last (fst st)) \<noteq> V_Loop" by (simp add: outer_frame_def)
    from lower_return_tracks [OF at ne this st1] Op_Return show ?thesis by (simp add: lower_operator.simps)
  next
    case Op_End
    with False show ?thesis by simp
  qed (use st' none in \<open>simp_all add: vstep_def\<close>)
  moreover have "wlp (lower_operator (en_types env) (en_decls env) operator)
      (\<lambda>(x, eff) s'. next_tracks env st' hs c x s') s"
    if some: "op_effect (en_types env) (en_decls env) operator = Some (p, q)" for p q
  proof -
    from vstep_straight [OF some] st' obtain st1 where "vpop p st = Some st1" "vpush q st1 = Some st'"
      by (auto simp: bind_eq_Some_conv simp del: vpop.simps vpush.simps)
    with straight_operator [OF some small idx] at show ?thesis by (rule straight_next)
  qed
  ultimately have "wlp (lower_operator (en_types env) (en_decls env) operator)
      (\<lambda>(x, eff) s'. next_tracks env st' hs c x s') s"
    by (cases "op_effect (en_types env) (en_decls env) operator") auto
  then show ?thesis by (rule wlp_mono) auto
qed


section \<open>The pass\<close>

text \<open>The highest the operands of a body get, as validation counts them.\<close>

fun vpeak :: "FuncType list \<Rightarrow> FuncDecl list \<Rightarrow> OperatorsReader \<Rightarrow> vstate \<Rightarrow> nat" where
  "vpeak types decls [] st = snd st"
| "vpeak types decls (Inl e # rest) st = snd st"
| "vpeak types decls (Inr (operator, offset) # rest) st =
     max (snd st) (case vstep types decls operator st of
       None \<Rightarrow> 0 | Some st' \<Rightarrow> vpeak types decls rest st')"

definition certificate_inv ::
    "env \<Rightarrow> nat \<Rightarrow> nat \<Rightarrow> vstate \<Rightarrow> lower_state \<Rightarrow> bool" where
  "certificate_inv env results peak st s \<longleftrightarrow> body_inv st s \<and> nested st \<and> outer_frame results st \<and>
     (\<exists>hs. let c = next_height st (cs_inner (ls_control s)) in
        tracks env (ls_instructions s) (ls_br_targets s) (cs_inner (ls_control s)) hs c \<and>
        (hs @ [c]) ! 0 = Some 0 \<and> (\<forall>h. Some h \<in> set (hs @ [c]) \<longrightarrow> h \<le> peak))"

lemma certificate_step:
  assumes inv: "certificate_inv env results peak st s" and small: "small_types (en_types env)"
    and st': "vstep (en_types env) (en_decls env) operator st = Some st'" and off: "offset \<le> U32_MAX"
    and idx: "op_indices env operator" and peak: "snd st' \<le> peak"
    and len: "length (ls_instructions s) \<le> U32_MAX"
    and bound: "length (ls_br_targets s) + op_arms operator \<le> U32_MAX"
  shows "wp (lower_step (en_types env) (en_decls env) operator offset)
    (\<lambda>_ t. certificate_inv env results peak st' t \<and>
       length (ls_instructions t) = length (ls_instructions s) + 1 \<and>
       length (ls_br_targets t) = length (ls_br_targets s) + op_arms operator) (\<lambda>_ _. False) s"
proof -
  let ?c = "next_height st (cs_inner (ls_control s))"
  from inv obtain hs where bi: "body_inv st s" and n: "nested st" and o: "outer_frame results st"
    and tr: "tracks env (ls_instructions s) (ls_br_targets s) (cs_inner (ls_control s)) hs ?c"
    and h0: "(hs @ [?c]) ! 0 = Some 0" and hp: "\<And>h. Some h \<in> set (hs @ [?c]) \<Longrightarrow> h \<le> peak"
    by (auto simp: certificate_inv_def Let_def)
  from bi have hs: "height_inv st (ls_control s)" and rs: "resolved_state s" by (simp_all add: body_inv_def)
  from vstep_frames(1) [OF st'] hs have ne: "cs_inner (ls_control s) \<noteq> []"
    by (auto dest: height_inv_length)
  have "lowering_at env st hs ?c s"
    using tr n len at_heightI [OF hs ne] by (simp add: lowering_at_def tracks_def)
  from operator_tracks [OF this hs rs small o st' idx bound]
  have "wlp (lower_step (en_types env) (en_decls env) operator offset) (\<lambda>_ t.
      \<exists>hs. let c = next_height st' (cs_inner (ls_control t)) in
        tracks env (ls_instructions t) (ls_br_targets t) (cs_inner (ls_control t)) hs c \<and>
        (hs @ [c]) ! 0 = Some 0 \<and> (\<forall>h. Some h \<in> set (hs @ [c]) \<longrightarrow> h \<le> peak)) s"
    unfolding lower_step_def wlp_bnd
  proof (rule wlp_mono, goal_cases)
    case (1 r s')
    then obtain x eff e where r: "r = (x, eff)" and e: "e = ?c \<or> ?c = None \<and> e = Some (snd st')"
      and nt: "next_tracks env st' hs e x s'"
      by (cases r) auto
    let ?d = "next_height st' (cs_inner (ls_control s'))"
    have "h \<le> peak" if "Some h \<in> set (hs @ [e, ?d])" for h
      using that hp [of h] e peak by (auto simp: next_height_def split: if_splits)
    moreover have "(hs @ [e, ?d]) ! 0 = Some 0"
      using h0 e by (cases hs) auto
    ultimately show ?case
      using nt unfolding r prod.case wlp_bnd wlp_on_field
      by (intro wlp_mono [OF effect_keeps_labels])
        (auto simp: emit_instruction_def next_tracks_def Let_def intro!: exI [of _ "hs @ [e]"])
  qed
  with step_ok [OF bi small st' off len bound] have "wp (lower_step (en_types env) (en_decls env) operator offset)
    (\<lambda>a t. (body_inv st' t \<and> length (ls_instructions t) = length (ls_instructions s) + 1 \<and>
       length (ls_br_targets t) = length (ls_br_targets s) + op_arms operator) \<and>
      (\<exists>hs. let c = next_height st' (cs_inner (ls_control t)) in
        tracks env (ls_instructions t) (ls_br_targets t) (cs_inner (ls_control t)) hs c \<and>
        (hs @ [c]) ! 0 = Some 0 \<and> (\<forall>h. Some h \<in> set (hs @ [c]) \<longrightarrow> h \<le> peak))) (\<lambda>_ _. False) s"
    by (rule wp_wlp_conj)
  then show ?thesis
    by (rule wp_mono) (use frames_step_keeps [OF vstep_frames_step [OF st'] n o]
      in \<open>auto simp: certificate_inv_def\<close>)
qed

lemma certificate_loop:
  assumes "certificate_inv env results peak st s" "small_types (en_types env)"
    and "vrun (en_types env) (en_decls env) reader st = Some st'"
    and "vpeak (en_types env) (en_decls env) reader st \<le> peak"
    and "\<And>operator offset. Inr (operator, offset) \<in> set reader \<Longrightarrow> op_indices env operator"
    and "length (ls_instructions s) + length reader \<le> U32_MAX"
    and "length (ls_br_targets s) + total_arms reader \<le> U32_MAX"
  shows "wp (emit_loop (en_types env) (en_decls env) reader)
    (\<lambda>_ t. certificate_inv env results peak st' t) (\<lambda>_ _. False) s"
  using assms
proof (induction reader arbitrary: st s)
  case Nil
  then show ?case by simp
next
  case (Cons item reader)
  from Cons.prems(3) obtain operator offset st1 where item: "item = Inr (operator, offset)"
    and off: "offset \<le> U32_MAX" and st1: "vstep (en_types env) (en_decls env) operator st = Some st1"
    and rest: "vrun (en_types env) (en_decls env) reader st1 = Some st'"
    by (cases item) (auto simp: bind_eq_Some_conv split: if_splits)
  have "vpeak (en_types env) (en_decls env) reader st1 \<le> peak"
    using Cons.prems(4) st1 by (simp add: item)
  moreover have "snd st1 \<le> vpeak (en_types env) (en_decls env) reader st1"
    by (cases "(en_types env, en_decls env, reader, st1)" rule: vpeak.cases) auto
  ultimately have peak: "snd st1 \<le> peak" "vpeak (en_types env) (en_decls env) reader st1 \<le> peak" by auto
  show ?case
    unfolding item emit_loop.simps wp_bnd
  proof (rule wp_mono [OF certificate_step [OF Cons.prems(1,2) st1 off _ peak(1)]])
    fix a t
    assume t: "certificate_inv env results peak st1 t \<and>
      length (ls_instructions t) = length (ls_instructions s) + 1 \<and>
      length (ls_br_targets t) = length (ls_br_targets s) + op_arms operator"
    then show "wp (emit_loop (en_types env) (en_decls env) reader)
        (\<lambda>_ t. certificate_inv env results peak st' t) (\<lambda>_ _. False) t"
      using Cons.prems(5-7)
      by (intro Cons.IH [OF _ Cons.prems(2) rest peak(2)]) (auto simp: total_arms_def item)
  qed (use Cons.prems(5-7) in \<open>auto simp: total_arms_def item\<close>)
qed

section \<open>Validated bodies are certified\<close>

text \<open>A body that validation accepts where the module declares what \<open>env\<close> lists.\<close>

definition valid_code :: "env \<Rightarrow> nat \<Rightarrow> nat \<Rightarrow> OperatorsReader \<Rightarrow> bool" where
  "valid_code env params results reader \<longleftrightarrow>
     valid_body (en_types env) (en_decls env) params results reader \<and>
     (\<forall>item \<in> set reader. case item of Inr (operator, offset) \<Rightarrow> op_indices env operator | Inl e \<Rightarrow> True)"

definition code_peak :: "env \<Rightarrow> nat \<Rightarrow> nat \<Rightarrow> OperatorsReader \<Rightarrow> nat" where
  "code_peak env params results reader =
     vpeak (en_types env) (en_decls env) reader ([func_frame params results], 0)"

lemma certified_code:
  assumes "valid_code env params results reader"
    and "emit_instructions_for_func reader params results (en_types env) (en_decls env) =
      Ok (instrs, offs, layout)"
  shows "\<exists>hs. certified env results instrs (br_targets_arena layout) hs \<and>
    (\<forall>h. Some h \<in> set hs \<longrightarrow> h \<le> code_peak env params results reader)"
proof -
  let ?peak = "code_peak env params results reader" and ?s0 = "initial_lower_state params results"
  let ?st0 = "([func_frame params results], 0) :: vstate"
  from assms(1) obtain h where run: "vrun (en_types env) (en_decls env) reader ?st0 = Some ([], h)"
    and small: "small_types (en_types env)" and pr: "params \<le> U32_MAX" "results \<le> U32_MAX"
    and len: "length reader \<le> U32_MAX" "total_arms reader \<le> U32_MAX"
    and idx: "\<And>operator offset. Inr (operator, offset) \<in> set reader \<Longrightarrow> op_indices env operator"
    by (fastforce simp: valid_code_def valid_body_def split: option.splits)
  have "certificate_inv env results ?peak ?st0 ?s0"
    unfolding certificate_inv_def Let_def
  proof (intro conjI exI [of _ "[]"])
    show "body_inv ?st0 ?s0" using pr by (rule initial_body_inv)
  qed (auto simp: nested_def outer_frame_def func_frame_def tracks_def slots_owned_def flags_def
      initial_lower_state_def label_fits_def kind_fits_def func_label_def next_height_def)
  then have "wp (emit_loop (en_types env) (en_decls env) reader)
      (\<lambda>_ t. certificate_inv env results ?peak ([], h) t) (\<lambda>_ _. False) ?s0"
    by (rule certificate_loop [OF _ small run _ idx])
      (use len in \<open>simp_all add: code_peak_def initial_lower_state_def\<close>)
  then obtain t where t: "certificate_inv env results ?peak ([], h) t"
    and instrs: "instrs = ls_instructions t" and layout: "layout = \<lparr>br_targets_arena = ls_br_targets t\<rparr>"
    using assms(2) by (auto simp: emit_instructions_for_func_def wp_def split: result.splits)
  then have "cs_inner (ls_control t) = []" and h: "h = results"
    using height_inv_length [of "([], h)" "ls_control t"]
    by (auto simp: certificate_inv_def body_inv_def outer_frame_def)
  with t obtain hs where "tracks env instrs (br_targets_arena layout) [] hs (Some results)"
    and "(hs @ [Some results]) ! 0 = Some 0" "\<And>h. Some h \<in> set (hs @ [Some results]) \<Longrightarrow> h \<le> ?peak"
    by (auto simp: certificate_inv_def Let_def next_height_def instrs layout)
  then have "certified env results instrs (br_targets_arena layout) (hs @ [Some results]) \<and>
      (\<forall>h. Some h \<in> set (hs @ [Some results]) \<longrightarrow> h \<le> ?peak)"
    by (auto simp: certified_def tracks_def nth_append)
  then show ?thesis by blast
qed

end
