(* ===== verification/ExecSafety.thy ===== *)
theory ExecSafety
  imports Certificates FrameProperties Driver
begin

text \<open>
  Execution of certified code. A running function conforms to its certificate when the operand
  stack is as high above the frame's base as the certificate says at the current instruction.
  Then no instruction panics, and where it goes next the height conforms again.
\<close>

section \<open>Conforming instances\<close>

text \<open>
  What does not change during a run, by number: the globals, tables and data segments. A data
  segment is a slice, so its length is a \<open>usize\<close>.
\<close>

definition conforms ::
    "('m \<Rightarrow> bool) \<Rightarrow> StackModule \<Rightarrow> nat \<Rightarrow> nat \<Rightarrow> ('m, 'i) StackInstance \<Rightarrow> bool" where
  "conforms valid module tables datas s \<longleftrightarrow> valid (memory s) \<and>
     length (global_vals s) = length (md_globals module) \<and>
     length (table_vals s) = tables \<and> length (data_vals s) = datas \<and>
     (\<forall>tab \<in> set (table_vals s). \<forall>f. Some f \<in> set (table tab) \<longrightarrow>
        unat f < length (md_func_decls module)) \<and>
     (\<forall>d \<in> set (data_vals s). length (data_segment d) \<le> USIZE_MAX)"

definition no_v128 :: "ValType list \<Rightarrow> bool" where
  "no_v128 tys \<longleftrightarrow> T_V128 \<notin> set tys"

definition decl_type :: "StackModule \<Rightarrow> FuncIndex \<Rightarrow> FuncType" where
  "decl_type module f = md_types module ! unat (fd_ty (md_func_decls module ! unat f))"

text \<open>What module construction guarantees of the declarations.\<close>

definition declared :: "StackModule \<Rightarrow> bool" where
  "declared module \<longleftrightarrow> small_types (md_types module) \<and>
     (\<forall>ty \<in> set (md_types module). no_v128 (ft_params ty) \<and> no_v128 (ft_results ty)) \<and>
     (\<forall>d \<in> set (md_func_decls module). unat (fd_ty d) < length (md_types module)) \<and>
     (\<forall>g \<in> set (md_globals module). gt_content_type g \<noteq> T_V128) \<and>
     length (md_func_bodies module) + md_imported_func_count module = length (md_func_decls module) \<and>
     (\<forall>i < length (md_func_decls module).
        fd_kind (md_func_decls module ! i) = Local \<longleftrightarrow> md_imported_func_count module \<le> i)"

text \<open>
  What the interpreter relies on of a host function: it returns as many results as its declared
  type has, and leaves the memory usable. It may fail.
\<close>

definition polite :: "('m \<Rightarrow> bool) \<Rightarrow> ('m, 'i) import_registry_impl \<Rightarrow> StackModule \<Rightarrow> bool" where
  "polite valid R module \<longleftrightarrow> (\<forall>d \<in> set (md_func_decls module). \<forall>mn n ps r m.
     fd_kind d = Imported mn n \<longrightarrow> valid m \<longrightarrow>
     wp (ir_execute R mn n ps)
       (\<lambda>results (r', m'). valid m' \<and> length results = length (ft_results (md_types module ! unat (fd_ty d))))
       (\<lambda>_ (r', m'). valid m') (r, m))"

definition body_env :: "StackModule \<Rightarrow> nat \<Rightarrow> nat \<Rightarrow> nat \<Rightarrow> env" where
  "body_env module tables datas locals = \<lparr>en_types = md_types module, en_decls = md_func_decls module,
     en_locals = locals, en_globals = length (md_globals module), en_tables = tables, en_datas = datas\<rparr>"

lemma body_env_sel [simp]:
  "en_types (body_env module tables datas locals) = md_types module"
  "en_decls (body_env module tables datas locals) = md_func_decls module"
  "en_locals (body_env module tables datas locals) = locals"
  "en_globals (body_env module tables datas locals) = length (md_globals module)"
  "en_tables (body_env module tables datas locals) = tables"
  "en_datas (body_env module tables datas locals) = datas"
  by (simp_all add: body_env_def)

lemma conforms_frame [simp]: "conforms valid module tables datas (s\<lparr>frame := f\<rparr>) = conforms valid module tables datas s"
  by (simp add: conforms_def)

lemma conforms_same_memory:
  assumes "same_but_memory s s'" "conforms valid module tables datas s" "valid (memory s')"
  shows "conforms valid module tables datas s'"
  using assms by (cases s; cases s') (simp add: same_but_memory_def conforms_def)

lemma conforms_same_frame:
  assumes "same_but_frame s s'" "conforms valid module tables datas s"
  shows "conforms valid module tables datas s'"
  using assms(2) same_but_frame_fields [OF assms(1)] by (simp add: conforms_def)

section \<open>Operands by number\<close>

definition deep :: "('m, 'i) StackInstance \<Rightarrow> nat \<Rightarrow> bool" where
  "deep s n \<longleftrightarrow> (\<exists>vs. operands s vs \<and> length vs = n)"

lemma deep_snoc: "deep s (Suc n) \<Longrightarrow> \<exists>vs v. operands s (vs @ [v]) \<and> length vs = n"
  unfolding deep_def by (metis append_butlast_last_id length_0_conv length_butlast diff_Suc_1 nat.distinct(1))

lemma operands_deep: "operands s vs \<Longrightarrow> deep s (length vs)"
  by (auto simp: deep_def)

lemma holds_deep: "holds f vs \<Longrightarrow> deep (s\<lparr>frame := f\<rparr>) (length vs)"
  by (auto simp: deep_def)

text \<open>The effect of popping and pushing on the instance, up to the frame.\<close>

named_theorems deep_rules

lemma pop_value_deep [deep_rules]:
  assumes "deep s (Suc n)" "\<And>v f. deep (s\<lparr>frame := f\<rparr>) n \<Longrightarrow> Q v (s\<lparr>frame := f\<rparr>)"
  shows "wp pop_value Q E s"
proof -
  from deep_snoc [OF assms(1)] obtain vs v where "operands s (vs @ [v])" and n: "length vs = n" by blast
  from this(1) show ?thesis by (rule pop_value_wp) (use n assms(2) holds_deep in blast)
qed

lemma pop_i32_deep [deep_rules]:
  assumes "deep s (Suc n)" "\<And>v f. deep (s\<lparr>frame := f\<rparr>) n \<Longrightarrow> Q v (s\<lparr>frame := f\<rparr>)"
  shows "wp pop_i32 Q E s"
  unfolding pop_i32_def wp_bnd by (rule pop_value_deep [OF assms(1)]) (simp add: assms(2))

lemma pop_usize_deep [deep_rules]:
  assumes "deep s (Suc n)" "\<And>v f. deep (s\<lparr>frame := f\<rparr>) n \<Longrightarrow> Q v (s\<lparr>frame := f\<rparr>)"
  shows "wp pop_usize Q E s"
  unfolding pop_usize_def wp_bnd by (rule pop_i32_deep [OF assms(1)]) (simp add: assms(2))

lemma push_next_deep [deep_rules]:
  assumes "deep s n" "\<And>f. deep (s\<lparr>frame := f\<rparr>) (Suc n) \<Longrightarrow> Q Next (s\<lparr>frame := f\<rparr>)"
  shows "wp (push_next v) Q E s"
proof -
  from assms(1) obtain vs where "operands s vs" and n: "length vs = n" by (auto simp: deep_def)
  from this(1) show ?thesis
  proof (rule push_next_wp)
    fix f assume "holds f (vs @ [v])"
    from holds_deep [OF this, of s] n assms(2) show "Q Next (s\<lparr>frame := f\<rparr>)" by simp
  qed
qed

lemma unary_deep:
  assumes "deep s (Suc n)" "\<And>v. f v \<noteq> Panic" "\<And>fr. deep (s\<lparr>frame := fr\<rparr>) (Suc n) \<Longrightarrow> Q Next (s\<lparr>frame := fr\<rparr>)"
    and "\<And>e fr. E e (s\<lparr>frame := fr\<rparr>)"
  shows "wp (exec_unary f) Q E s"
  unfolding exec_unary_def wp_bnd wp_lift_result
proof (rule pop_value_deep [OF assms(1)])
  fix v fr assume d: "deep (s\<lparr>frame := fr\<rparr>) n"
  show "case f v of Ok a \<Rightarrow> wp (push_next a) Q E (s\<lparr>frame := fr\<rparr>) | Err e \<Rightarrow> E e (s\<lparr>frame := fr\<rparr>) | Panic \<Rightarrow> False"
    using assms(2) [of v] push_next_deep [OF d, of Q] assms(3,4) by (auto split: result.split)
qed

lemma binary_deep:
  assumes "deep s (Suc (Suc n))" "\<And>v w. f v w \<noteq> Panic"
    and "\<And>fr. deep (s\<lparr>frame := fr\<rparr>) (Suc n) \<Longrightarrow> Q Next (s\<lparr>frame := fr\<rparr>)"
    and "\<And>e fr. E e (s\<lparr>frame := fr\<rparr>)"
  shows "wp (exec_binary f) Q E s"
  unfolding exec_binary_def wp_bnd wp_lift_result
proof (rule pop_value_deep [OF assms(1)], rule pop_value_deep)
  fix v fr w fr2 assume "deep (s\<lparr>frame := fr\<rparr>) (Suc n)" then show "deep (s\<lparr>frame := fr\<rparr>) (Suc n)" .
next
  fix v fr w fr2 assume d: "deep (s\<lparr>frame := fr\<rparr>\<lparr>frame := fr2\<rparr>) n"
  show "case f w v of Ok a \<Rightarrow> wp (push_next a) Q E (s\<lparr>frame := fr\<rparr>\<lparr>frame := fr2\<rparr>)
      | Err e \<Rightarrow> E e (s\<lparr>frame := fr\<rparr>\<lparr>frame := fr2\<rparr>) | Panic \<Rightarrow> False"
    using assms(2) [of w v] push_next_deep [OF d, of Q] assms(3,4) by (auto split: result.split)
qed

lemma numeric_no_panic:
  "i32_unary fe u v \<noteq> Panic" "i64_unary fe u' v \<noteq> Panic" "i32_binary b v w \<noteq> Panic"
  "i64_binary b' v w \<noteq> Panic" "i32_compare r v w \<noteq> Panic" "i64_compare r' v w \<noteq> Panic"
proof -
  have trunc: "trunc_float_to_int fe x lo hi nm \<noteq> Panic" for x lo hi nm
    by (simp add: trunc_float_to_int_def Let_def)
  have then_ok: "and_then r (\<lambda>t. Ok (g t)) \<noteq> Panic" if "r \<noteq> Panic" for r :: "('x, 'y) result" and g :: "'y \<Rightarrow> 'z"
    using that by (cases r) auto
  show "i32_unary fe u v \<noteq> Panic" by (cases u) (simp_all add: then_ok trunc)
  show "i64_unary fe u' v \<noteq> Panic" by (cases u') (simp_all add: then_ok trunc)
  have "i32_arith b x y \<noteq> Panic" for x y by (cases b) (simp_all add: ok_or_def split: option.split)
  then show "i32_binary b v w \<noteq> Panic" by (simp add: i32_binary_def then_ok)
  have "i64_arith b' x y \<noteq> Panic" for x y by (cases b') (simp_all add: ok_or_def split: option.split)
  then show "i64_binary b' v w \<noteq> Panic" by (simp add: i64_binary_def then_ok)
  show "i32_compare r v w \<noteq> Panic" "i64_compare r' v w \<noteq> Panic"
    by (simp_all add: i32_compare_def i64_compare_def)
qed


text \<open>Slots below the operands: the locals.\<close>

lemma wp_on_frame_slot:
  assumes "deep s n" "i < n" "\<And>v. Q v s"
  shows "wp (on_frame (slot i)) Q E s"
proof -
  from assms(1) obtain vs where vs: "holds (frame s) vs" "length vs = n"
    by (auto simp: deep_def operands_def)
  show ?thesis
    unfolding wp_on_field using vs(2) assms(2,3) by (subst wp_slot [OF vs(1)]) simp_all
qed

lemma wp_on_frame_set_slot:
  assumes "deep s n" "i < n" "\<And>f. deep (s\<lparr>frame := f\<rparr>) n \<Longrightarrow> Q () (s\<lparr>frame := f\<rparr>)"
  shows "wp (on_frame (set_slot i v)) Q E s"
proof -
  from assms(1) obtain vs where vs: "holds (frame s) vs" "length vs = n"
    by (auto simp: deep_def operands_def)
  let ?f = "(frame s)\<lparr>backing := (backing (frame s))[i := v]\<rparr>"
  have "holds ?f (vs[i := v])"
    using holds_pointer [OF vs(1)] holds_bound [OF vs(1)] holds_nth [OF vs(1)] assms(2) vs(2)
    by (intro holdsI) (simp_all add: nth_list_update)
  then have "deep (s\<lparr>frame := ?f\<rparr>) n" using vs(2) by (auto simp: deep_def)
  from assms(3) [OF this] show ?thesis
    using holds_bound [OF vs(1)] vs(2) assms(2) by (simp add: set_slot_def)
qed

lemma wp_on_frame_tee:
  assumes "deep s (Suc n)" "\<And>v. Q v s"
  shows "wp (on_frame tee) Q E s"
proof -
  from deep_snoc [OF assms(1)] obtain vs v where "holds (frame s) (vs @ [v])" by (auto simp: operands_def)
  from tee_wp [OF this] have "wp tee (\<lambda>x s'. s' = frame s) (\<lambda>e x. E e (s\<lparr>frame := x\<rparr>)) (frame s)"
    by (rule wp_mono) auto
  then show ?thesis unfolding wp_on_field by (rule wp_mono) (simp_all add: assms(2))
qed

lemma deep_two: "deep s (Suc (Suc n)) \<Longrightarrow> \<exists>vs a b. operands s (vs @ [a, b]) \<and> length vs = n"
proof -
  assume "deep s (Suc (Suc n))"
  from deep_snoc [OF this] obtain ws b where ws: "operands s (ws @ [b])" "length ws = Suc n" by blast
  then obtain vs a where "ws = vs @ [a]" "length vs = n"
    by (metis append_butlast_last_id length_0_conv length_butlast diff_Suc_1 nat.distinct(1))
  with ws(1) show ?thesis by auto
qed

lemma deep_three: "deep s (Suc (Suc (Suc n))) \<Longrightarrow> \<exists>vs a b c. operands s (vs @ [a, b, c]) \<and> length vs = n"
proof -
  assume "deep s (Suc (Suc (Suc n)))"
  from deep_two [OF this] obtain ws b c where ws: "operands s (ws @ [b, c])" "length ws = Suc n" by blast
  then obtain vs a where "ws = vs @ [a]" "length vs = n"
    by (metis append_butlast_last_id length_0_conv length_butlast diff_Suc_1 nat.distinct(1))
  with ws(1) show ?thesis by auto
qed

section \<open>Instructions without control flow\<close>

definition falls_to ::
    "('m \<Rightarrow> bool) \<Rightarrow> StackModule \<Rightarrow> nat \<Rightarrow> nat \<Rightarrow> nat \<Rightarrow> ('m, 'i) arm \<Rightarrow> ('m, 'i) StackInstance \<Rightarrow> bool" where
  "falls_to valid module tables datas n m s \<longleftrightarrow>
     wp m (\<lambda>r s'. r = Next \<and> deep s' n \<and> conforms valid module tables datas s')
       (\<lambda>_ s'. conforms valid module tables datas s') s"

lemma falls_to_const:
  "deep s n \<Longrightarrow> conforms valid module tables datas s \<Longrightarrow>
     falls_to valid module tables datas (Suc n) (exec_const c) s"
  by (cases c) (auto simp: falls_to_def intro: push_next_deep)

lemma falls_to_numeric:
  assumes "numeric_effect x = (p, q)" "deep s (n + p)" "conforms valid module tables datas s"
  shows "falls_to valid module tables datas (n + q) (exec_numeric fe x) s"
  using assms
  by (cases x) (auto simp: falls_to_def numeric_no_panic intro!: unary_deep [where n = n] binary_deep [where n = n])

lemma falls_to_locals:
  assumes "conforms valid module tables datas s" "unat i + base_height cb < n" "n \<le> U32_MAX"
  shows "deep s n \<Longrightarrow> falls_to valid module tables datas (Suc n) (exec_local_get cb i) s"
    and "deep s (Suc n) \<Longrightarrow> falls_to valid module tables datas n (exec_local_set cb i) s"
    and "deep s (Suc n) \<Longrightarrow> falls_to valid module tables datas (Suc n) (exec_local_tee cb i) s"
proof -
  have sl: "u32_add (unat i) (base_height cb) = Ok (unat i + base_height cb)"
    using assms(2,3) by (simp add: u32_add_def)
  show "deep s n \<Longrightarrow> falls_to valid module tables datas (Suc n) (exec_local_get cb i) s"
    using assms(1,2) unfolding falls_to_def exec_local_get_def get_local_def wp_bnd wp_lift_result sl result.case
    by (intro wp_on_frame_slot push_next_deep) auto
  show "deep s (Suc n) \<Longrightarrow> falls_to valid module tables datas n (exec_local_set cb i) s"
    using assms(1,2) unfolding falls_to_def exec_local_set_def set_local_def wp_bnd wp_lift_result sl result.case
    by (elim pop_value_deep) (rule wp_on_frame_set_slot, auto)
  show "deep s (Suc n) \<Longrightarrow> falls_to valid module tables datas (Suc n) (exec_local_tee cb i) s"
    using assms(1,2) unfolding falls_to_def exec_local_tee_def set_local_def wp_bnd wp_lift_result sl result.case
    by (intro wp_on_frame_tee) (assumption, rule wp_on_frame_set_slot, auto)
qed

lemma falls_to_globals:
  assumes "conforms valid module tables datas s" "unat i < length (md_globals module)"
    and "\<forall>g \<in> set (md_globals module). gt_content_type g \<noteq> T_V128"
  shows "deep s n \<Longrightarrow> falls_to valid module tables datas (Suc n) (exec_global_get i) s"
    and "deep s (Suc n) \<Longrightarrow> falls_to valid module tables datas n (exec_global_set module i) s"
proof -
  have len: "length (global_vals s) = length (md_globals module)" using assms(1) by (simp add: conforms_def)
  show "deep s n \<Longrightarrow> falls_to valid module tables datas (Suc n) (exec_global_get i) s"
    using assms(1,2) len by (auto simp: falls_to_def exec_global_get_def index_def intro: push_next_deep)
  have ty: "gt_content_type (md_globals module ! unat i) \<noteq> T_V128" using assms(2,3) by simp
  have no_panic: "into_val v ty \<noteq> Panic \<and> (\<forall>e. into_val v ty \<noteq> Err e)" if "ty \<noteq> T_V128" for v ty
    using that by (cases ty) auto
  have "case (into_val v (gt_content_type (md_globals module ! unat i)) :: (InstructionExecutionError, Val) result) of
      Ok x \<Rightarrow> Q x | Err e \<Rightarrow> False | Panic \<Rightarrow> False" if "\<And>x. Q x" for v Q
    using no_panic [OF ty, of v] that by (auto split: result.split)
  then show "deep s (Suc n) \<Longrightarrow> falls_to valid module tables datas n (exec_global_set module i) s"
    unfolding falls_to_def exec_global_set_def wp_bnd
    apply (elim pop_value_deep)
    using assms(1,2) len no_panic [OF ty]
    by (auto simp: index_def conforms_def deep_def operands_def split: result.split)
qed

lemma falls_to_data_drop:
  assumes "conforms valid module tables datas s" "unat i < datas" "deep s n"
  shows "falls_to valid module tables datas n (exec_data_drop i) s"
proof -
  let ?ds = "(data_vals s)[unat i := DataDropped]"
  have "length (data_segment x) \<le> USIZE_MAX" if "x \<in> set ?ds" for x
    using that set_update_subset_insert [of "data_vals s" "unat i" DataDropped] assms(1)
    by (auto simp: conforms_def data_segment_def)
  then have "conforms valid module tables datas (s\<lparr>data_vals := ?ds\<rparr>)"
    using assms(1) by (simp add: conforms_def)
  then show ?thesis
    using assms by (simp add: falls_to_def exec_data_drop_def deep_def conforms_def)
qed

lemma falls_to_pops:
  assumes "conforms valid module tables datas s"
  shows "deep s (Suc n) \<Longrightarrow> falls_to valid module tables datas (Suc n) exec_ref_is_null s"
    and "deep s (Suc n) \<Longrightarrow> falls_to valid module tables datas n (bnd pop_value (\<lambda>_. ret Next)) s"
    and "deep s (Suc (Suc (Suc n))) \<Longrightarrow> falls_to valid module tables datas (Suc n) exec_select s"
  using assms unfolding falls_to_def exec_ref_is_null_def exec_select_def wp_bnd
  by (auto intro!: pop_i32_deep pop_value_deep push_next_deep)

context memory_backend
begin

lemma conforms_valid: "conforms valid module tables datas s \<Longrightarrow> valid (memory s)"
  by (simp add: conforms_def)

text \<open>An instruction that is specified on the operands and leaves the rest of the instance alone.\<close>

lemma falls_toI:
  assumes "wp m Q E s" "conforms valid module tables datas s"
    and "\<And>r s'. Q r s' \<Longrightarrow> r = Next \<and> (\<exists>vs. operands s' vs \<and> length vs = n) \<and> valid (memory s') \<and> same_but_memory s s'"
    and "\<And>e s'. E e s' \<Longrightarrow> valid (memory s') \<and> same_but_memory s s'"
  shows "falls_to valid module tables datas n m s"
  unfolding falls_to_def
  by (rule wp_mono [OF assms(1)]) (use assms(3,4) in \<open>auto simp: deep_def intro!: conforms_same_memory [OF _ assms(2)]\<close>)

lemma falls_to_memory:
  assumes "conforms valid module tables datas s"
  shows "deep s (Suc n) \<Longrightarrow> falls_to valid module tables datas (Suc n) (exec_load D l off) s"
    and "deep s (Suc (Suc n)) \<Longrightarrow> falls_to valid module tables datas n (exec_store D st off) s"
    and "deep s (Suc n) \<Longrightarrow> falls_to valid module tables datas (Suc n) (exec_memory_grow D) s"
    and "deep s n \<Longrightarrow> falls_to valid module tables datas (Suc n) (exec_memory_size D) s"
proof -
  note v = conforms_valid [OF assms]
  show "falls_to valid module tables datas (Suc n) (exec_load D l off) s" if d: "deep s (Suc n)"
  proof -
    from deep_snoc [OF d] obtain vs a where vs: "operands s (vs @ [a])" "length vs = n" by blast
    show ?thesis
      by (rule falls_toI [OF exec_load_wp [OF vs(1) v refl refl] assms]) (use vs(2) in auto)
  qed
  show "falls_to valid module tables datas n (exec_store D st off) s" if d: "deep s (Suc (Suc n))"
  proof -
    from deep_two [OF d] obtain vs a b where vs: "operands s (vs @ [a, b])" "length vs = n" by blast
    show ?thesis
      by (rule falls_toI [OF exec_store_wp [OF vs(1) v refl refl] assms]) (use vs(2) in auto)
  qed
  show "falls_to valid module tables datas (Suc n) (exec_memory_grow D) s" if d: "deep s (Suc n)"
  proof -
    from deep_snoc [OF d] obtain vs a where vs: "operands s (vs @ [a])" "length vs = n" by blast
    show ?thesis
      by (rule falls_toI [OF exec_memory_grow_wp [OF vs(1) v refl refl refl refl] assms])
        (use vs(2) in \<open>auto split: if_splits\<close>)
  qed
  show "falls_to valid module tables datas (Suc n) (exec_memory_size D) s" if d: "deep s n"
  proof -
    from d obtain vs where vs: "operands s vs" "length vs = n" by (auto simp: deep_def)
    show ?thesis
      unfolding falls_to_def
      by (rule wp_mono [OF exec_memory_size_wp [OF vs(1) v]])
        (use vs(2) in \<open>auto simp: deep_def intro!: conforms_same_frame [OF _ assms]\<close>)
  qed
qed

lemma falls_to_bulk:
  assumes "conforms valid module tables datas s" and d: "deep s (Suc (Suc (Suc n)))"
  shows "falls_to valid module tables datas n (exec_memory_copy D) s"
    and "falls_to valid module tables datas n (exec_memory_fill D) s"
    and "unat i < datas \<Longrightarrow> falls_to valid module tables datas n (exec_memory_init D i) s"
proof -
  note v = conforms_valid [OF assms(1)]
  from deep_three [OF d] obtain vs a b c where vs: "operands s (vs @ [a, b, c])" "length vs = n" by blast
  show "falls_to valid module tables datas n (exec_memory_copy D) s"
    by (rule falls_toI [OF exec_memory_copy_wp [OF vs(1) v refl refl refl refl] assms(1)]) (use vs(2) in auto)
  show "falls_to valid module tables datas n (exec_memory_fill D) s"
    by (rule falls_toI [OF exec_memory_fill_wp [OF vs(1) v refl refl refl] assms(1)]) (use vs(2) in auto)
  assume i: "unat i < datas"
  with assms(1) have seg: "unat i < length (data_vals s)"
    "length (data_segment (data_vals s ! unat i)) \<le> USIZE_MAX"
    by (auto simp: conforms_def)
  show "falls_to valid module tables datas n (exec_memory_init D i) s"
    by (rule falls_toI [OF exec_memory_init_wp [OF vs(1) v refl refl refl refl seg(1) refl seg(2)] assms(1)])
      (use vs(2) in auto)
qed

end

end
