(* ===== verification/ExecProgress.thy ===== *)
theory ExecProgress
  imports ExecSafety
begin

text \<open>
  One step of a certified body. An activation \<open>stands\<close> at an instruction when the operand stack
  is as high above its base as the certificate says there. From there no instruction panics: it
  traps, or it stands at the instruction it names, or it asks for a call with the callee's
  arguments on top of the stack.
\<close>

section \<open>Where a step leads\<close>

definition stands :: "nat option list \<Rightarrow> nat \<Rightarrow> nat \<Rightarrow> ('m, 'i) StackInstance \<Rightarrow> bool" where
  "stands hs F pc s \<longleftrightarrow> (\<exists>h. arrives hs pc h \<and> deep s (F + h))"

definition awaits ::
    "StackModule \<Rightarrow> nat option list \<Rightarrow> nat \<Rightarrow> nat \<Rightarrow> FuncIndex \<Rightarrow> StackCallerBaseData \<Rightarrow>
     ('m, 'i) StackInstance \<Rightarrow> bool" where
  "awaits module hs F pc f base s \<longleftrightarrow> (\<exists>m.
     md_imported_func_count module \<le> unat f \<and> unat f < length (md_func_decls module) \<and>
     base_height base = F + m \<and> deep s (F + m + length (ft_params (decl_type module f))) \<and>
     arrives hs (Suc pc) (m + length (ft_results (decl_type module f))))"

definition proceeds ::
    "StackModule \<Rightarrow> nat option list \<Rightarrow> nat \<Rightarrow> nat \<Rightarrow> StackCallerBaseData Step \<Rightarrow>
     ('m, 'i) StackInstance \<Rightarrow> bool" where
  "proceeds module hs F pc r s = (case r of
      Next \<Rightarrow> stands hs F (Suc pc) s
    | JumpTo t \<Rightarrow> stands hs F t s
    | StepCall f base ind \<Rightarrow> awaits module hs F pc f base s)"

lemma proceeds_simps [simp]:
  "proceeds module hs F pc Next s = stands hs F (Suc pc) s"
  "proceeds module hs F pc (JumpTo t) s = stands hs F t s"
  "proceeds module hs F pc (StepCall f base ind) s = awaits module hs F pc f base s"
  by (simp_all add: proceeds_def)

definition step_safe ::
    "('m \<Rightarrow> bool) \<Rightarrow> StackModule \<Rightarrow> nat \<Rightarrow> nat \<Rightarrow> nat option list \<Rightarrow> nat \<Rightarrow> nat \<Rightarrow> ('m, 'i) arm \<Rightarrow>
     ('m, 'i) StackInstance \<Rightarrow> bool" where
  "step_safe valid module tables datas hs F pc m s \<longleftrightarrow>
     wp m (\<lambda>r s'. proceeds module hs F pc r s' \<and> conforms valid module tables datas s')
       (\<lambda>_ s'. conforms valid module tables datas s') s"

lemma step_safe_falls:
  assumes "falls_to valid module tables datas (F + h) m s" "arrives hs (Suc pc) h"
  shows "step_safe valid module tables datas hs F pc m s"
  using assms(1) unfolding falls_to_def step_safe_def
  by (rule wp_mono) (use assms(2) in \<open>auto simp: stands_def\<close>)

section \<open>Branches\<close>

lemma unwind_to_deep:
  assumes "deep s n" "F = callee_frame_base_height cb" "F + rh + a \<le> n" "F + rh \<le> U32_MAX"
    and "\<And>f. deep (s\<lparr>frame := f\<rparr>) (F + rh + a) \<Longrightarrow> Q () (s\<lparr>frame := f\<rparr>)"
  shows "wp (unwind_to cb rh a) Q E s"
proof -
  from assms(1) obtain vs where vs: "holds (frame s) vs" "length vs = n"
    by (auto simp: deep_def operands_def)
  have add: "u32_add rh (callee_frame_base_height cb) = Ok (F + rh)"
    using assms(2,4) by (simp add: u32_add_def add.commute)
  have "wp (truncate_by_preserving_arity (F + rh) a)
      (\<lambda>_ f. holds f (take (F + rh) vs @ drop (length vs - a) vs)) (\<lambda>e x. E e (s\<lparr>frame := x\<rparr>)) (frame s)"
    by (rule value_stack.unwind_law [OF vs(1)]) (use vs(2) assms(3) in simp)
  then show ?thesis
    unfolding unwind_to_def wp_bnd wp_lift_result add result.case wp_on_field
  proof (rule wp_mono)
    fix x f assume "holds f (take (F + rh) vs @ drop (length vs - a) vs)"
    moreover have "length (take (F + rh) vs @ drop (length vs - a) vs) = F + rh + a"
      using vs(2) assms(3) by simp
    ultimately have "deep (s\<lparr>frame := f\<rparr>) (F + rh + a)"
      using holds_deep [of f _ s] by metis
    then show "Q x (s\<lparr>frame := f\<rparr>)" using assms(5) by simp
  qed
qed

lemma br_safe:
  assumes "deep s (F + n)" "F = callee_frame_base_height cb" "rh + a \<le> n" "F + n \<le> U32_MAX"
    and "arrives hs t (rh + a)" "conforms valid module tables datas s"
  shows "step_safe valid module tables datas hs F pc (exec_br cb t a rh) s"
  unfolding step_safe_def exec_br_def wp_bnd
  by (rule unwind_to_deep [OF assms(1,2)]) (use assms(3-6) in \<open>auto simp: stands_def add.assoc\<close>)

lemma after_pop:
  assumes "deep s (Suc n)"
  shows "(\<And>v f. deep (s\<lparr>frame := f\<rparr>) n \<Longrightarrow> step_safe valid module tables datas hs F pc (k v) (s\<lparr>frame := f\<rparr>)) \<Longrightarrow>
      step_safe valid module tables datas hs F pc (bnd pop_i32 k) s"
    and "(\<And>i f. deep (s\<lparr>frame := f\<rparr>) n \<Longrightarrow> step_safe valid module tables datas hs F pc (j i) (s\<lparr>frame := f\<rparr>)) \<Longrightarrow>
      step_safe valid module tables datas hs F pc (bnd pop_usize j) s"
  unfolding step_safe_def wp_bnd
  by (rule pop_i32_deep [OF assms] pop_usize_deep [OF assms], assumption)+

lemma br_if_safe:
  assumes "deep s (Suc (F + n))" "F = callee_frame_base_height cb" "rh + a \<le> n" "F + n \<le> U32_MAX"
    and "arrives hs t (rh + a)" "arrives hs (Suc pc) n" "conforms valid module tables datas s"
  shows "step_safe valid module tables datas hs F pc (exec_br_if cb t a rh) s"
  unfolding exec_br_if_def
proof (rule after_pop(1) [OF assms(1)])
  fix v f assume d: "deep (s\<lparr>frame := f\<rparr>) (F + n)"
  have "step_safe valid module tables datas hs F pc (exec_br cb t a rh) (s\<lparr>frame := f\<rparr>)"
    by (rule br_safe [OF d]) (use assms in simp_all)
  then show "step_safe valid module tables datas hs F pc (if v \<noteq> 0 then exec_br cb t a rh else ret Next)
      (s\<lparr>frame := f\<rparr>)"
    using d assms(6,7) by (auto simp: step_safe_def stands_def)
qed

lemma if_safe:
  assumes "deep s (Suc (F + n))" "arrives hs (Suc pc) n" "conforms valid module tables datas s"
    and "arrives hs (case e of Some k \<Rightarrow> Suc k | None \<Rightarrow> t) n" "\<And>k. e = Some k \<Longrightarrow> k < U32_MAX"
  shows "step_safe valid module tables datas hs F pc (exec_if e t) s"
  unfolding exec_if_def
proof (rule after_pop(1) [OF assms(1)])
  fix v f assume d: "deep (s\<lparr>frame := f\<rparr>) (F + n)"
  then show "step_safe valid module tables datas hs F pc (if v \<noteq> 0 then ret Next
       else (case e of
               Some i \<Rightarrow> bnd (lift_result (u32_add i 1)) (\<lambda>t. ret (JumpTo t))
             | None \<Rightarrow> ret (JumpTo t))) (s\<lparr>frame := f\<rparr>)"
    using assms by (cases e) (auto simp: step_safe_def stands_def u32_add_def)
qed

lemma br_table_safe:
  assumes "deep s (Suc (F + n))" "F = callee_frame_base_height cb" "F + n \<le> U32_MAX"
    and "0 < len" "st + len \<le> length (br_targets_arena layout)" "conforms valid module tables datas s"
    and arms: "\<And>k. st \<le> k \<Longrightarrow> k < st + len \<Longrightarrow>
      (let b = br_targets_arena layout ! k in bt_recorded_height b + bt_arity b \<le> n \<and>
        arrives hs (bt_target_index b) (bt_recorded_height b + bt_arity b))"
  shows "step_safe valid module tables datas hs F pc (exec_br_table layout cb st len) s"
proof -
  let ?arena = "br_targets_arena layout"
  have "step_safe valid module tables datas hs F pc
      (bnd (lift_result (usize_sub (length (sub_slice ?arena st len)) 1)) (\<lambda>c.
       bnd (lift_result (index (sub_slice ?arena st len) (if c \<le> i then c else i))) (\<lambda>b.
       exec_br cb (bt_target_index b) (bt_arity b) (bt_recorded_height b)))) (s\<lparr>frame := f\<rparr>)"
    if d: "deep (s\<lparr>frame := f\<rparr>) (F + n)" for f i
  proof -
    define j where "j = (if len - 1 \<le> i then len - 1 else i)"
    then have j: "j < len" "(if len - 1 \<le> i then len - 1 else i) = j" using assms(4) by (auto split: if_splits)
    let ?b = "?arena ! (st + j)"
    have sl: "length (sub_slice ?arena st len) = len" "sub_slice ?arena st len ! j = ?b"
      using assms(5) j(1) by (auto simp: sub_slice_def)
    have "step_safe valid module tables datas hs F pc (exec_br cb (bt_target_index ?b) (bt_arity ?b) (bt_recorded_height ?b))
        (s\<lparr>frame := f\<rparr>)"
      by (rule br_safe [OF d]) (use assms(2,3,6) arms [of "st + j"] j in \<open>auto simp: Let_def\<close>)
    moreover have us: "(usize_sub len 1 :: (InstructionExecutionError, nat) result) = Ok (len - 1)"
      using assms(4) by (simp add: usize_sub_def)
    ultimately show ?thesis
      unfolding step_safe_def wp_bnd wp_lift_result sl(1) us result.case j(2)
      using j(1) sl by (simp add: index_def)
  qed
  moreover have "\<not> length ?arena < st + len" using assms(5) by simp
  ultimately show ?thesis
    unfolding exec_br_table_def Let_def by (simp only: if_False) (rule after_pop(2) [OF assms(1)])
qed

lemma end_safe:
  assumes "deep s (F + (rh + a))" "F = callee_frame_base_height cb" "F + (rh + a) \<le> U32_MAX"
    and "conforms valid module tables datas s"
  shows "falls_to valid module tables datas (F + (rh + a)) (exec_end cb a rh) s"
proof -
  from assms(1) obtain vs where "holds (frame s) vs" "length vs = F + (rh + a)"
    by (auto simp: deep_def operands_def)
  then have "height (frame s) = F + (rh + a)"
    using holds_pointer assms(3) by (fastforce simp: height_def)
  then show ?thesis
    using assms by (simp add: falls_to_def exec_end_def frame_height_def u32_add_def)
qed

section \<open>Calls\<close>

lemma into_vals_no_trap:
  assumes "no_v128 tys"
  shows "\<exists>xs. (into_vals vs tys :: ('e, Val list) result) = Ok xs"
  using assms
proof (induction vs tys rule: into_vals.induct)
  case (1 v vs ty tys)
  then have "no_v128 tys" by (simp add: no_v128_def)
  from 1(1) [OF this] obtain xs where "(into_vals vs tys :: ('e, Val list) result) = Ok xs" ..
  then show ?case using 1(2) by (cases ty) (auto simp: no_v128_def)
qed auto

lemma frame_height_wp:
  "deep s n \<Longrightarrow> n \<le> U32_MAX \<Longrightarrow> wp frame_height Q E s = Q n s"
  using holds_pointer by (fastforce simp: frame_height_def height_def deep_def operands_def)

lemma host_call_safe:
  assumes conf: "conforms valid module tables datas s" and decl: "declared module" and pol: "polite valid R module"
    and f: "unat f < md_imported_func_count module"
    and ps: "deep s (b + length (ft_params (decl_type module f)))"
  shows "wp (call_imported R module f ind cb) (\<lambda>_ s'. deep s' (b + length (ft_results (decl_type module f))) \<and>
      conforms valid module tables datas s') (\<lambda>_ s'. conforms valid module tables datas s') s"
proof -
  let ?d = "md_func_decls module ! unat f" and ?ty = "decl_type module f"
  have len: "unat f < length (md_func_decls module)" using decl f by (auto simp: declared_def)
  then have d: "?d \<in> set (md_func_decls module)" by simp
  with decl have ty: "unat (fd_ty ?d) < length (md_types module)" by (simp add: declared_def)
  then have tm: "?ty \<in> set (md_types module)" by (simp add: decl_type_def)
  with decl have plain: "no_v128 (ft_params ?ty)" and small: "length (ft_params ?ty) \<le> U32_MAX"
    by (auto simp: declared_def small_types_def)
  obtain mn n where kind: "fd_kind ?d = Imported mn n"
    using decl f len by (cases "fd_kind ?d") (auto simp: declared_def)
  from ps obtain vs ws where vs: "holds (frame s) (vs @ ws)" "length vs = b" "length ws = length (ft_params ?ty)"
    by (auto simp: deep_def operands_def) (metis append_take_drop_id length_drop length_take diff_add_inverse le_add1 min_absorb2)
  from into_vals_no_trap [OF plain] obtain xs where
    xs: "(into_vals ws (ft_params ?ty) :: (InstructionExecutionError, Val list) result) = Ok xs" by blast
  have start: "wp (call_imported R module f ind cb) Q E s =
      wp (get_params_for_import_call (length ws) cb) (\<lambda>params fr.
        case into_vals params (ft_params ?ty) of Ok callee_params \<Rightarrow>
          wp (ir_execute R mn n callee_params) (\<lambda>results x.
            wp (set_results_from_import_call results cb)
              (\<lambda>_ fr'. Q () (s\<lparr>import_registry := fst x, memory := snd x, frame := fr'\<rparr>))
              (\<lambda>e fr'. E e (s\<lparr>import_registry := fst x, memory := snd x, frame := fr'\<rparr>)) fr)
            (\<lambda>err x. E (host_error f ind err) (s\<lparr>frame := fr, import_registry := fst x, memory := snd x\<rparr>))
            (import_registry s, memory s)
        | Err e \<Rightarrow> E e (s\<lparr>frame := fr\<rparr>) | Panic \<Rightarrow> False) (\<lambda>e fr. E e (s\<lparr>frame := fr\<rparr>)) (frame s)" for Q E
    using len ty small vs(3)
    by (simp add: call_imported_def index_def kind decl_type_def case_prod_beta cong: result.case_cong)
  show ?thesis
    unfolding start import_pops
  proof (rule wp_mono [OF popped_wp(1) [OF vs(1)]], goal_cases)
    case (1 params fr)
    have mem: "valid (memory s)" using conf by (simp add: conforms_def)
    have pushed: "wp (set_results_from_import_call results cb) (\<lambda>_ fr'. holds fr' (vs @ map value_of_val results)) E fr"
      for results and E :: "InstructionExecutionError \<Rightarrow> _"
      unfolding set_results_from_import_call_def by (rule value_stack.push_each) (use 1 in simp)
    from pol d kind mem have "wp (ir_execute R mn n xs)
       (\<lambda>results (r', m'). valid m' \<and> length results = length (ft_results ?ty))
       (\<lambda>_ (r', m'). valid m') (import_registry s, memory s)"
      by (simp add: polite_def decl_type_def)
    then show ?case
      unfolding 1 [THEN conjunct1] xs result.case
    proof (rule wp_mono, goal_cases)
      case (1 results x)
      show ?case
        by (rule wp_mono [OF pushed])
          (use 1 vs(2) conf in \<open>auto simp: deep_def conforms_def\<close>)
    qed (use conf in \<open>auto simp: conforms_def\<close>)
  qed simp
qed

lemma dispatch_safe:
  assumes "conforms valid module tables datas s" "declared module" "polite valid R module"
    and "unat f < length (md_func_decls module)" "n = length (ft_params (decl_type module f))"
    and "deep s (F + m + n)" "F + m + n \<le> U32_MAX"
    and "arrives hs (Suc pc) (m + length (ft_results (decl_type module f)))"
  shows "step_safe valid module tables datas hs F pc
    (dispatch_call R module (md_imported_func_count module) f n ind) s"
proof -
  have sub: "(u32_sub (F + m + n) n :: (InstructionExecutionError, nat) result) = Ok (F + m)"
    by (simp add: u32_sub_def)
  show ?thesis
  proof (cases "md_imported_func_count module \<le> unat f")
    case True
    with assms sub show ?thesis
      by (simp add: step_safe_def dispatch_call_def frame_height_wp [OF assms(6,7)] Let_def awaits_def)
  next
    case False
    then have "unat f < md_imported_func_count module" by simp
    from assms(5,6) have d: "deep s (F + m + length (ft_params (decl_type module f)))" by simp
    from host_call_safe [OF assms(1-3) \<open>unat f < md_imported_func_count module\<close> d]
    have "wp (call_imported R module f ind \<lparr>base_height = F + m, callee_frame_base_height = U32_MAX\<rparr>)
        (\<lambda>_ s'. proceeds module hs F pc Next s' \<and> conforms valid module tables datas s')
        (\<lambda>_ s'. conforms valid module tables datas s') s"
      by (rule wp_mono) (use assms(8) in \<open>auto simp: stands_def add.assoc\<close>)
    with False sub show ?thesis
      by (simp add: step_safe_def dispatch_call_def frame_height_wp [OF assms(6,7)] Let_def)
  qed
qed

lemma call_effect_decl_type:
  "call_effect (md_types module) (fd_ty (md_func_decls module ! unat f)) = Some (p, q) \<Longrightarrow>
     p = length (ft_params (decl_type module f)) \<and> q = length (ft_results (decl_type module f))"
  by (auto simp: call_effect_def decl_type_def split: if_splits)

lemma call_indirect_safe:
  assumes conf: "conforms valid module tables datas s" and decl: "declared module" and pol: "polite valid R module"
    and tab: "unat tab < tables" and eff: "call_effect (md_types module) ty = Some (p, q)"
    and d: "deep s (Suc (F + m + p))" "F + m + p \<le> U32_MAX" and arr: "arrives hs (Suc pc) (m + q)"
  shows "step_safe valid module tables datas hs F pc
    (exec_call_indirect R module (md_imported_func_count module) ty tab) s"
proof -
  let ?tab = "table (table_vals s ! unat tab)"
  have tl: "unat tab < length (table_vals s)" using conf tab by (simp add: conforms_def)
  have ty: "unat ty < length (md_types module)" "p = length (ft_params (md_types module ! unat ty))"
    "q = length (ft_results (md_types module ! unat ty))"
    using eff by (auto simp: call_effect_def split: if_splits)
  have "step_safe valid module tables datas hs F pc
     (if length ?tab \<le> i then fail (CallIndirectErr tab TableSlotOutOfBounds)
       else (case ?tab ! i of
         None \<Rightarrow> fail (CallIndirectErr tab NullElementInTable)
       | Some callee \<Rightarrow>
           bnd (lift_result (index (md_types module) (unat ty))) (\<lambda>func_ty.
           bnd (lift_result (index (md_func_decls module) (unat callee))) (\<lambda>func.
           bnd (lift_result (index (md_types module) (unat (fd_ty func)))) (\<lambda>ty.
             if ft_params func_ty \<noteq> ft_params ty \<or> ft_results func_ty \<noteq> ft_results ty
             then fail (signature_mismatch tab ty func_ty)
             else dispatch_call R module (md_imported_func_count module) callee
                    (as_u32 (length (ft_params ty))) (Some tab)))))) (s\<lparr>frame := fr\<rparr>)"
    if fr: "deep (s\<lparr>frame := fr\<rparr>) (F + m + p)" for i fr
  proof (cases "i < length ?tab \<and> ?tab ! i \<noteq> None")
    case True
    then obtain callee where c: "i < length ?tab" "?tab ! i = Some callee" by blast
    then have "Some callee \<in> set ?tab" by (metis nth_mem)
    with conf tl have cl: "unat callee < length (md_func_decls module)" by (auto simp: conforms_def)
    then have cty: "unat (fd_ty (md_func_decls module ! unat callee)) < length (md_types module)"
      using decl by (simp add: declared_def)
    then have small: "length (ft_params (decl_type module callee)) \<le> U32_MAX"
      using decl by (auto simp: declared_def decl_type_def dest: small_types_nth(1))
    have "step_safe valid module tables datas hs F pc
        (dispatch_call R module (md_imported_func_count module) callee
          (length (ft_params (decl_type module callee))) (Some tab)) (s\<lparr>frame := fr\<rparr>)"
      if "ft_params (md_types module ! unat ty) = ft_params (decl_type module callee)"
        "ft_results (md_types module ! unat ty) = ft_results (decl_type module callee)"
      by (rule dispatch_safe [OF _ decl pol cl refl]) (use that conf fr d(2) arr ty in simp_all)
    with c conf ty(1) cl cty small show ?thesis
      by (auto simp: step_safe_def index_def decl_type_def)
  qed (use conf in \<open>auto simp: step_safe_def split: option.split\<close>)
  from after_pop(2) [OF d(1) this] show ?thesis
    using tl by (simp add: step_safe_def exec_call_indirect_def index_def)
qed

section \<open>Every step is safe\<close>

lemma fits_closed:
  assumes "fits env ts [] hs i x h"
  obtains p q where "instr_effect env x = Some (p, q)" "p \<le> h"
    and "falls x \<longrightarrow> arrives hs (Suc i) (h - p + q)"
    and "\<forall>k t e. exit_of ts x k = Some (t, e) \<longrightarrow> e \<le> h - p \<and> arrives hs t e"
    and "\<forall>t. skip_of x = Some t \<longrightarrow> arrives hs t (h - p)"
    and "\<forall>a r. x = End a r \<longrightarrow> h = r + a"
  using assms unfolding fits_def by (auto simp: waits_def open_if_def)

lemma not_straight:
  "\<not> straight Unreachable" "\<not> straight (If e t)" "\<not> straight (Else t)" "\<not> straight (Br t a h)"
  "\<not> straight (BrIf t a h)" "\<not> straight (BrTable st n)" "\<not> straight (Return t a h)"
  by (auto simp: straight_def falls_def guarded_def)

context memory_backend
begin

lemma plain_safe:
  assumes x: "instr_effect (body_env module tables datas L) x = Some (p, q)" "straight x"
      "(\<forall>f n. x \<noteq> Call f n) \<and> (\<forall>ty tab. x \<noteq> CallIndirect ty tab)"
    and conf: "conforms valid module tables datas s" and decl: "declared module"
    and d: "deep s (n + p)" "base_height cb + L \<le> n" "n \<le> U32_MAX"
  shows "falls_to valid module tables datas (n + q) (execute fe D R x module layout cb imported) s"
proof -
  have gl: "\<forall>g \<in> set (md_globals module). gt_content_type g \<noteq> T_V128" using decl by (simp add: declared_def)
  have three: "n + 3 = Suc (Suc (Suc n))" "n + 2 = Suc (Suc n)" by simp_all
  note rules = falls_to_const [OF _ conf] falls_to_numeric [OF _ _ conf] falls_to_locals [OF conf]
    falls_to_globals [OF conf _ gl] falls_to_data_drop [OF conf] falls_to_pops [OF conf]
    falls_to_memory [OF conf] falls_to_bulk [OF conf]
  have nop: "falls_to valid module tables datas n (ret Next) s" if "deep s n"
    using that conf by (simp add: falls_to_def)
  show ?thesis
    using x d
    by (cases x) (auto simp: not_straight three intro!: rules nop)
qed

lemma execute_safe:
  assumes code: "fits (body_env module tables datas L) (br_targets_arena layout) [] hs pc x h"
      "jumps_ok xs (br_targets_arena layout) x" "length hs \<le> Suc U32_MAX"
    and decl: "declared module" and pol: "polite valid R module"
    and F: "F = callee_frame_base_height cb" "base_height cb + L = F"
    and s: "conforms valid module tables datas s" "deep s (F + h)" "F + h \<le> U32_MAX"
  shows "step_safe valid module tables datas hs F pc
    (execute fe D R x module layout cb (md_imported_func_count module)) s"
proof -
  from fits_closed [OF code(1)] obtain p q where
    eff: "instr_effect (body_env module tables datas L) x = Some (p, q)" "p \<le> h"
    and next_: "falls x \<longrightarrow> arrives hs (Suc pc) (h - p + q)"
    and exits: "\<forall>k t e. exit_of (br_targets_arena layout) x k = Some (t, e) \<longrightarrow> e \<le> h - p \<and> arrives hs t e"
    and skips: "\<forall>t. skip_of x = Some t \<longrightarrow> arrives hs t (h - p)"
    and ends: "\<forall>a r. x = End a r \<longrightarrow> h = r + a" .
  define m where "m = h - p"
  with eff(2) have h: "h = m + p" by simp
  note facts = eff(1) next_ exits skips ends s F
  consider (call) f n where "x = Call f n" | (indirect) ty tab where "x = CallIndirect ty tab"
    | (straight) "straight x" "(\<forall>f n. x \<noteq> Call f n) \<and> (\<forall>ty tab. x \<noteq> CallIndirect ty tab)"
    | (other) "\<not> straight x"
    by blast
  then show ?thesis
  proof cases
    case call
    with facts have "unat f < length (md_func_decls module)" "n = p"
      and ty: "p = length (ft_params (decl_type module f))" "q = length (ft_results (decl_type module f))"
      by (auto simp: bind_eq_Some_conv dest!: call_effect_decl_type split: if_splits)
    with facts call show ?thesis
      by (auto simp: exec_call_def falls_def h add.assoc intro!: dispatch_safe [OF s(1) decl pol])
  next
    case indirect
    with facts obtain p' where "unat tab < tables" "call_effect (md_types module) ty = Some (p', q)" "p = Suc p'"
      by (auto split: if_splits)
    with facts indirect show ?thesis
      by (auto simp: falls_def h add.assoc intro!: call_indirect_safe [OF s(1) decl pol])
  next
    case straight
    have "falls_to valid module tables datas (F + (m + q))
      (execute fe D R x module layout cb (md_imported_func_count module)) s"
      using plain_safe [OF eff(1) straight s(1) decl, of "F + m"] s(2,3) F
      by (simp add: h add.assoc)
    with next_ straight(1) show ?thesis
      by (auto simp: straight_def m_def intro!: step_safe_falls)
  next
    case other
    have small: "k \<le> U32_MAX" if "arrives hs k e" for k e
      using that code(3) by (simp add: arrives_def)
    show ?thesis
    proof (cases x)
      case Unreachable
      with s(1) show ?thesis by (simp add: step_safe_def)
    next
      case (Else t)
      with facts show ?thesis by (auto simp: step_safe_def stands_def)
    next
      case (If e t)
      with facts have arr: "arrives hs (Suc pc) m" "arrives hs (case e of Some k \<Rightarrow> Suc k | None \<Rightarrow> t) m"
        by (simp_all add: falls_def h)
      have "k < U32_MAX" if "e = Some k" for k
        using small [OF arr(2)] that by simp
      with arr facts If show ?thesis by (auto simp: h intro!: if_safe)
    next
      case (Br t a rh)
      with exits [rule_format, of U32_MAX t "rh + a"] facts show ?thesis
        by (auto simp: h add.commute intro!: br_safe)
    next
      case (Return t a rh)
      with exits [rule_format, of U32_MAX t "rh + a"] facts show ?thesis
        by (auto simp: h add.commute intro!: br_safe)
    next
      case (BrIf t a rh)
      with exits [rule_format, of U32_MAX t "rh + a"] facts show ?thesis
        by (auto simp: falls_def h add.commute intro!: br_if_safe)
    next
      case (BrTable st n)
      with facts have "p = 1" by simp
      with s(2,3) have d: "deep s (Suc (F + m))" "F + m \<le> U32_MAX" by (simp_all add: h)
      show ?thesis
        unfolding BrTable execute.simps
        by (rule br_table_safe [OF d(1) F(1) d(2)]) (use BrTable facts code(2) in \<open>auto simp: h Let_def\<close>)
    next
      case (End a rh)
      with facts have h': "h = rh + a" and arr: "arrives hs (Suc pc) (rh + a)" by (simp_all add: falls_def)
      show ?thesis
        using end_safe [OF _ F(1) _ s(1), of rh a] s(2,3) step_safe_falls [OF _ arr]
        by (simp add: End h')
    qed (use other in \<open>auto simp: straight_def falls_def is_end_def\<close>)
  qed
qed

end

end
