(* ===== verification/DriverSafety.thy ===== *)
theory DriverSafety
  imports DriverProperties ExecProgress
begin

text \<open>
  Runs do not panic. The locale \<open>safe_machine\<close> is what a machine must promise so that the driver
  can rely on it: a function that may be called can be entered, an activation that stands at an
  instruction makes a step, and one that stands at its end can be torn down, with what its
  caller waits for. The stack machine keeps these promises on modules that validate.
\<close>

section \<open>The contract of the driver\<close>

locale safe_machine =
  fixes vm :: "('instr, 'layout, 'base, 'inst) machine"
    and module :: "('instr, 'layout) Module"
    and fine :: "'inst \<Rightarrow> bool"
    and limit :: nat
    and callable :: "nat \<Rightarrow> FuncIndex \<Rightarrow> 'base \<Rightarrow> 'inst \<Rightarrow> bool"
    and standing :: "nat \<Rightarrow> ('instr, 'layout, 'base) activation \<Rightarrow> nat \<Rightarrow> 'inst \<Rightarrow> bool"
    and returned :: "FuncIndex \<Rightarrow> 'base \<Rightarrow> 'inst \<Rightarrow> bool"
  assumes limit_law: "fine s \<Longrightarrow> vm_max_call_stack_depth vm s = limit" "limit \<le> U32_MAX"
    and enter_law: "callable d f base s \<Longrightarrow> d < max limit 1 \<Longrightarrow>
      \<exists>ac s'. enter_function vm module f base s = Some (ac, s') \<and> standing d ac 0 s' \<and>
        fb_instructions (ac_body ac) \<noteq> [] \<and> (\<forall>t. returned (ac_func_index ac) (ac_base ac) t \<longrightarrow> returned f base t)"
    and step_law: "standing d ac pc s \<Longrightarrow> pc < length (fb_instructions (ac_body ac)) \<Longrightarrow>
      \<exists>r s'. execute_at vm module ac pc s = Some (r, s') \<and> fine s' \<and>
        pc < length (fb_instruction_offsets (ac_body ac)) \<and>
        (case r of
           Inl e \<Rightarrow> True
         | Inr Next \<Rightarrow> standing d ac (Suc pc) s'
         | Inr (JumpTo t) \<Rightarrow> standing d ac t s'
         | Inr (StepCall f base ind) \<Rightarrow> callable (Suc d) f base s' \<and>
             (\<forall>t. returned f base t \<longrightarrow> standing d ac (Suc pc) t))"
    and stand_law: "standing d ac pc s \<Longrightarrow> fine s \<and> pc \<le> length (fb_instructions (ac_body ac))"
    and exit_law: "standing d ac (length (fb_instructions (ac_body ac))) s \<Longrightarrow>
      \<exists>s'. vm_exit_frame vm (ac_results_count ac) (ac_base ac) (fb_frame_layout (ac_body ac)) s = Some s' \<and>
        returned (ac_func_index ac) (ac_base ac) s'"
begin

definition safe :: "FuncIndex \<Rightarrow> 'base \<Rightarrow> nat \<Rightarrow> (Unwind \<times> 'inst, nat \<times> 'inst) result \<Rightarrow> bool" where
  "safe f base depth r \<longleftrightarrow> (case r of
      Ok (d, s') \<Rightarrow> d = depth \<and> returned f base s' | Err (t, s') \<Rightarrow> fine s' | Panic \<Rightarrow> False)"

lemma trap_safe:
  assumes "fine s" "pc < length offs" "fop_of (fail_with (trap_here f pc offs e)) s = Some r"
  shows "safe g base d r"
  using assms by (auto simp: fop_of_def fail_with_def trap_here_def index_def safe_def)

lemma driver_safe:
  "execute_on_native_stack n vm module f base d s = Some r \<Longrightarrow> callable d f base s \<Longrightarrow> d < max limit 1 \<Longrightarrow>
     safe f base d r"
  "native_loop n vm module ac pc (Suc k) u = Some r' \<Longrightarrow> standing k ac pc u \<Longrightarrow>
     pc < length (fb_instructions (ac_body ac)) \<Longrightarrow> safe (ac_func_index ac) (ac_base ac) k r'"
proof (induction n arbitrary: f base d s r ac pc k u r')
  case 0
  { case 1 then show ?case by (simp add: execute_on_native_stack.simps) }
  { case 2 then show ?case by (simp add: native_loop.simps) }
next
  case (Suc n)
  have adv: "safe (ac_func_index ac) (ac_base ac) k t"
    if "native_advance n vm module ac pc (Suc k) s = Some t" "standing k ac pc s" for ac pc k s t
  proof (cases "pc = length (fb_instructions (ac_body ac))")
    case True
    with that exit_law [of k ac s] show ?thesis
      by (auto simp: native_advance_def fop_defs u32_sub_def safe_def)
  next
    case False
    with that stand_law [of k ac pc s] Suc.IH(2) show ?thesis by (simp add: native_advance_def)
  qed
  {
    case 1
    from enter_law [OF 1(2,3)] obtain ac s' where ac:
      "enter_function vm module f base s = Some (ac, s')" "standing d ac 0 s'"
      "fb_instructions (ac_body ac) \<noteq> []" "\<And>t. returned (ac_func_index ac) (ac_base ac) t \<Longrightarrow> returned f base t"
      by blast
    with 1(1,3) limit_law(2) Suc.IH(2) [of ac 0 d s' r] show ?case
      by (auto simp: execute_on_native_stack.simps fop_defs u32_add_def safe_def split: result.splits if_splits)
  next
    case 2
    from step_law [OF 2(2,3)] obtain st t where
      ex: "execute_at vm module ac pc u = Some (st, t)" "fine t"
        "pc < length (fb_instruction_offsets (ac_body ac))"
      and st: "case st of Inl e \<Rightarrow> True | Inr Next \<Rightarrow> standing k ac (Suc pc) t
         | Inr (JumpTo j) \<Rightarrow> standing k ac j t
         | Inr (StepCall f base ind) \<Rightarrow> callable (Suc k) f base t \<and>
             (\<forall>t. returned f base t \<longrightarrow> standing k ac (Suc pc) t)"
      by blast
    consider (trap) e where "st = Inl e" | (fall) "st = Inr Next" | (jump) j where "st = Inr (JumpTo j)"
      | (call) g b ind where "st = Inr (StepCall g b ind)"
      by (metis Step.exhaust sum.exhaust)
    then show ?case
    proof cases
      case (trap e)
      with 2(1) ex trap_safe show ?thesis by (simp add: native_loop_Suc)
    next
      case fall
      with 2(1) ex st adv show ?thesis by (simp add: native_loop_Suc)
    next
      case (jump j)
      with 2(1) ex st adv show ?thesis by (simp add: native_loop_Suc)
    next
      case (call g b ind)
      show ?thesis
      proof (cases "limit \<le> Suc k")
        case True
        with 2(1) ex call trap_safe limit_law(1) [OF ex(2)] show ?thesis by (simp add: native_loop_Suc)
      next
        case False
        let ?conv = "\<lambda>trace. and_then (index (fb_instruction_offsets (ac_body ac)) pc) (\<lambda>off.
            Ok (trace @ [TraceRecord (ac_func_index ac) pc (CallRecord g ind) off]))"
        from 2(1) ex call False limit_law(1) [OF ex(2)]
        have run: "fbnd (fmap_err ?conv (execute_on_native_stack n vm module g b (Suc k)))
            (native_advance n vm module ac (pc + 1)) t = Some r'"
          by (simp add: native_loop_Suc)
        then obtain r1 where r1: "execute_on_native_stack n vm module g b (Suc k) t = Some r1"
          by (cases "execute_on_native_stack n vm module g b (Suc k) t") (auto simp: fbnd_def fmap_err_def)
        from call st have c: "callable (Suc k) g b t"
          and resume: "\<And>t. returned g b t \<Longrightarrow> standing k ac (Suc pc) t" by auto
        from Suc.IH(1) [OF r1 c] False have "safe g b (Suc k) r1" by simp
        with run r1 ex(3) resume show ?thesis
          by (cases r1) (auto simp: fbnd_def fmap_err_def index_def safe_def [of g] intro: adv,
            auto simp: safe_def)
      qed
    qed
  }
qed

end

section \<open>Modules that validate\<close>

text \<open>
  \<open>sound_module module tables datas B\<close>: every body is the lowering of a body that validation
  accepts for its declared type, and an activation needs at most \<open>B\<close> slots of the operand stack.
\<close>

definition sound_body ::
    "StackModule \<Rightarrow> nat \<Rightarrow> nat \<Rightarrow> nat \<Rightarrow> FuncType \<Rightarrow> (StackInstruction, StackFrameLayout) FuncBody \<Rightarrow> bool" where
  "sound_body module tables datas B ty body \<longleftrightarrow>
     (let env = body_env module tables datas (length (fb_locals body));
          params = length (ft_params ty); results = length (ft_results ty)
      in params \<le> length (fb_locals body) \<and> no_v128 (fb_locals body) \<and>
         (\<exists>reader. valid_code env params results reader \<and>
            length (fb_locals body) + code_peak env params results reader \<le> B \<and>
            emit_instructions_for_func reader params results (md_types module) (md_func_decls module) =
              Ok (fb_instructions body, fb_instruction_offsets body, fb_frame_layout body)))"

definition local_function :: "StackModule \<Rightarrow> FuncIndex \<Rightarrow> bool" where
  "local_function module f \<longleftrightarrow>
     md_imported_func_count module \<le> unat f \<and> unat f < length (md_func_decls module)"

definition local_body :: "StackModule \<Rightarrow> FuncIndex \<Rightarrow> (StackInstruction, StackFrameLayout) FuncBody" where
  "local_body module f = md_func_bodies module ! (unat f - md_imported_func_count module)"

definition sound_module :: "StackModule \<Rightarrow> nat \<Rightarrow> nat \<Rightarrow> nat \<Rightarrow> bool" where
  "sound_module module tables datas B \<longleftrightarrow> declared module \<and>
     (\<forall>f. local_function module f \<longrightarrow>
        sound_body module tables datas B (decl_type module f) (local_body module f))"

lemma sound_body_certified:
  assumes "sound_body module tables datas B ty body"
  shows "\<exists>hs. certified (body_env module tables datas (length (fb_locals body))) (length (ft_results ty))
      (fb_instructions body) (br_targets_arena (fb_frame_layout body)) hs \<and>
    (\<forall>h. Some h \<in> set hs \<longrightarrow> length (fb_locals body) + h \<le> B)"
    and "body_ok (fb_instructions body) (br_targets_arena (fb_frame_layout body))"
    and "length (fb_instruction_offsets body) = length (fb_instructions body)"
    and "length (fb_instructions body) \<le> U32_MAX"
    and "length (ft_params ty) \<le> length (fb_locals body)" "no_v128 (fb_locals body)"
    and "length (fb_locals body) \<le> B"
proof -
  let ?env = "body_env module tables datas (length (fb_locals body))"
  let ?ps = "length (ft_params ty)" and ?rs = "length (ft_results ty)"
  from assms obtain reader where v: "valid_code ?env ?ps ?rs reader"
    and peak: "length (fb_locals body) + code_peak ?env ?ps ?rs reader \<le> B"
    and emit: "emit_instructions_for_func reader ?ps ?rs (md_types module) (md_func_decls module) =
      Ok (fb_instructions body, fb_instruction_offsets body, fb_frame_layout body)"
    and ps: "?ps \<le> length (fb_locals body)" "no_v128 (fb_locals body)"
    by (auto simp: sound_body_def Let_def)
  from certified_code [OF v] emit peak show "\<exists>hs. certified ?env ?rs
      (fb_instructions body) (br_targets_arena (fb_frame_layout body)) hs \<and>
    (\<forall>h. Some h \<in> set hs \<longrightarrow> length (fb_locals body) + h \<le> B)"
    by fastforce
  from v have "valid_body (md_types module) (md_func_decls module) ?ps ?rs reader"
    by (simp add: valid_code_def)
  from lowered_body [OF this] emit this
  show "body_ok (fb_instructions body) (br_targets_arena (fb_frame_layout body))"
    and "length (fb_instruction_offsets body) = length (fb_instructions body)"
    and "length (fb_instructions body) \<le> U32_MAX"
    by (auto simp: valid_body_def)
  show "?ps \<le> length (fb_locals body)" "no_v128 (fb_locals body)" by (fact ps)+
  show "length (fb_locals body) \<le> B" using peak by simp
qed

section \<open>The stack machine keeps the contract\<close>

definition keeps_limits ::
    "('m \<Rightarrow> bool) \<Rightarrow> StackModule \<Rightarrow> nat \<Rightarrow> nat \<Rightarrow> u32 \<Rightarrow> ('m, 'i) StackInstance \<Rightarrow> bool" where
  "keeps_limits valid module tables datas lim s \<longleftrightarrow>
     conforms valid module tables datas s \<and> max_call_stack_depth (config s) = lim"

definition permitted ::
    "('m \<Rightarrow> bool) \<Rightarrow> ('m, 'i) import_registry_impl \<Rightarrow> StackModule \<Rightarrow> nat \<Rightarrow> nat \<Rightarrow> u32 \<Rightarrow> nat \<Rightarrow> bool" where
  "permitted valid R module tables datas lim B \<longleftrightarrow> sound_module module tables datas B \<and>
     polite valid R module \<and> max (unat lim) 1 * B \<le> U32_MAX"

definition may_call ::
    "('m \<Rightarrow> bool) \<Rightarrow> ('m, 'i) import_registry_impl \<Rightarrow> StackModule \<Rightarrow> nat \<Rightarrow> nat \<Rightarrow> u32 \<Rightarrow> nat \<Rightarrow>
     nat \<Rightarrow> FuncIndex \<Rightarrow> StackCallerBaseData \<Rightarrow> ('m, 'i) StackInstance \<Rightarrow> bool" where
  "may_call valid R module tables datas lim B d f base s \<longleftrightarrow>
     permitted valid R module tables datas lim B \<and> keeps_limits valid module tables datas lim s \<and>
     local_function module f \<and> base_height base \<le> d * B \<and>
     deep s (base_height base + length (ft_params (decl_type module f)))"

definition stands_in ::
    "('m \<Rightarrow> bool) \<Rightarrow> ('m, 'i) import_registry_impl \<Rightarrow> StackModule \<Rightarrow> nat \<Rightarrow> nat \<Rightarrow> u32 \<Rightarrow> nat \<Rightarrow>
     nat \<Rightarrow> (StackInstruction, StackFrameLayout, StackCallerBaseData) activation \<Rightarrow> nat \<Rightarrow>
     ('m, 'i) StackInstance \<Rightarrow> bool" where
  "stands_in valid R module tables datas lim B d ac pc s \<longleftrightarrow>
     permitted valid R module tables datas lim B \<and> keeps_limits valid module tables datas lim s \<and>
     local_function module (ac_func_index ac) \<and> ac_body ac = local_body module (ac_func_index ac) \<and>
     base_height (ac_base ac) \<le> d * B \<and> d < max (unat lim) 1 \<and>
     base_height (ac_base ac) + length (fb_locals (ac_body ac)) = callee_frame_base_height (ac_base ac) \<and>
     ac_results_count ac = length (ft_results (decl_type module (ac_func_index ac))) \<and>
     (\<exists>hs. certified (body_env module tables datas (length (fb_locals (ac_body ac))))
          (length (ft_results (decl_type module (ac_func_index ac)))) (fb_instructions (ac_body ac))
          (br_targets_arena (fb_frame_layout (ac_body ac))) hs \<and>
        (\<forall>h. Some h \<in> set hs \<longrightarrow> length (fb_locals (ac_body ac)) + h \<le> B) \<and>
        stands hs (callee_frame_base_height (ac_base ac)) pc s)"

definition has_returned ::
    "('m \<Rightarrow> bool) \<Rightarrow> StackModule \<Rightarrow> nat \<Rightarrow> nat \<Rightarrow> u32 \<Rightarrow> FuncIndex \<Rightarrow> StackCallerBaseData \<Rightarrow>
     ('m, 'i) StackInstance \<Rightarrow> bool" where
  "has_returned valid module tables datas lim f base s \<longleftrightarrow> keeps_limits valid module tables datas lim s \<and>
     deep s (base_height base + length (ft_results (decl_type module f)))"

lemma permitted_body:
  "permitted valid R module tables datas lim B \<Longrightarrow> local_function module f \<Longrightarrow>
     sound_body module tables datas B (decl_type module f) (local_body module f)"
  by (simp add: permitted_def sound_module_def)

lemma permitted_declared:
  assumes "permitted valid R module tables datas lim B" "local_function module f"
  shows "declared module" "polite valid R module"
    and "unat (fd_ty (md_func_decls module ! unat f)) < length (md_types module)"
    and "length (ft_params (decl_type module f)) \<le> U32_MAX" "length (ft_results (decl_type module f)) \<le> U32_MAX"
    and "unat f - md_imported_func_count module < length (md_func_bodies module)"
proof -
  show d: "declared module" and "polite valid R module"
    using assms(1) by (simp_all add: permitted_def sound_module_def)
  show ty: "unat (fd_ty (md_func_decls module ! unat f)) < length (md_types module)"
    and "unat f - md_imported_func_count module < length (md_func_bodies module)"
    using d assms(2) by (auto simp: declared_def local_function_def)
  from d have "small_types (md_types module)" by (simp add: declared_def)
  from small_types_nth [OF this ty]
  show "length (ft_params (decl_type module f)) \<le> U32_MAX" "length (ft_results (decl_type module f)) \<le> U32_MAX"
    by (simp_all add: decl_type_def)
qed

text \<open>The slots of the activations below.\<close>

lemma depth_room:
  assumes "b \<le> d * B" "d < max (unat lim) 1" "max (unat lim) 1 * B \<le> U32_MAX" "n \<le> B"
  shows "b + n \<le> Suc d * B" "b + n \<le> U32_MAX"
proof -
  show "b + n \<le> Suc d * B" using assms(1,4) by simp
  also have "\<dots> \<le> max (unat lim) 1 * B" using assms(2) by (intro mult_le_mono1) simp
  finally show "b + n \<le> U32_MAX" using assms(3) by simp
qed

lemma run_on_frameI:
  assumes "wp m Q (\<lambda>(_ :: unit) _. False) (frame s)"
  shows "\<exists>a f. run_infallible (on_frame m) s = Some (a, s\<lparr>frame := f\<rparr>) \<and> Q a f"
  using assms by (auto simp: wp_def run_infallible_def on_field_def split: result.splits)

lemma keeps_limits_frame [simp]:
  "keeps_limits valid module tables datas lim (s\<lparr>frame := f\<rparr>) = keeps_limits valid module tables datas lim s"
  by (simp add: keeps_limits_def)

lemma stack_enter:
  assumes call: "may_call valid R module tables datas lim B d f base s" and d: "d < max (unat lim) 1"
  shows "\<exists>ac s'. enter_function (stack_machine fe D R) module f base s = Some (ac, s') \<and>
    stands_in valid R module tables datas lim B d ac 0 s' \<and> fb_instructions (ac_body ac) \<noteq> [] \<and>
    ac_func_index ac = f \<and> base_height (ac_base ac) = base_height base"
proof -
  let ?ty = "decl_type module f" and ?body = "local_body module f"
  let ?L = "length (fb_locals ?body)" and ?b = "base_height base"
  from call have perm: "permitted valid R module tables datas lim B" and f: "local_function module f"
    and kl: "keeps_limits valid module tables datas lim s" and b: "?b \<le> d * B"
    and args: "deep s (?b + length (ft_params ?ty))"
    by (simp_all add: may_call_def)
  note body = sound_body_certified [OF permitted_body [OF perm f]] and decl = permitted_declared [OF perm f]
  from perm have "max (unat lim) 1 * B \<le> U32_MAX" by (simp add: permitted_def)
  note room = depth_room [OF b d this body(7)]
  from args obtain vs where vs: "holds (frame s) vs" "length vs = ?b + length (ft_params ?ty)"
    by (auto simp: deep_def operands_def)
  then have split: "holds (frame s) (take ?b vs @ drop ?b vs)" by simp
  have "wp (enter_frame (length (ft_params ?ty)) (fb_locals ?body) base)
      (\<lambda>cb fr. cb = base\<lparr>callee_frame_base_height := ?b + ?L\<rparr> \<and>
        deep (s\<lparr>frame := fr\<rparr>) (?b + ?L)) (\<lambda>(_ :: unit) _. False) (frame s)"
    by (rule wp_mono [OF enter_frame_wp [OF split]])
      (use vs body(5,6) room in \<open>auto simp: no_v128_def deep_def intro!: exI\<close>)
  from run_on_frameI [OF this] obtain fr where
    enter: "run_infallible (on_frame (enter_frame (length (ft_params ?ty)) (fb_locals ?body) base)) s =
      Some (base\<lparr>callee_frame_base_height := ?b + ?L\<rparr>, s\<lparr>frame := fr\<rparr>)"
    and deep: "deep (s\<lparr>frame := fr\<rparr>) (?b + ?L)"
    by auto
  let ?ac = "\<lparr>ac_func_index = f, ac_body = ?body, ac_base = base\<lparr>callee_frame_base_height := ?b + ?L\<rparr>,
      ac_results_count = length (ft_results ?ty)\<rparr>"
  have "enter_function (stack_machine fe D R) module f base s = Some (?ac, s\<lparr>frame := fr\<rparr>)"
    using enter f decl
    by (simp add: enter_function_def run_infallible_def bnd_def lift_result_def index_def infallible_def
        stack_machine_sel local_function_def local_body_def decl_type_def ret_def)
  moreover from body(1) obtain hs where hs: "certified (body_env module tables datas ?L) (length (ft_results ?ty))
      (fb_instructions ?body) (br_targets_arena (fb_frame_layout ?body)) hs"
    "\<forall>h. Some h \<in> set hs \<longrightarrow> ?L + h \<le> B" by blast
  then have "stands hs (?b + ?L) 0 (s\<lparr>frame := fr\<rparr>)"
    using deep by (auto simp: stands_def certified_def arrives_def intro!: exI [of _ 0])
  with hs have "stands_in valid R module tables datas lim B d ?ac 0 (s\<lparr>frame := fr\<rparr>)"
    using perm kl f b d by (auto simp: stands_in_def)
  moreover have "fb_instructions ?body \<noteq> []" using body(2) by (simp add: body_ok_def)
  ultimately show ?thesis by (intro exI [of _ ?ac] exI [of _ "s\<lparr>frame := fr\<rparr>"]) simp
qed

lemma deep_split:
  assumes "deep s (a + b + c)"
  shows "\<exists>us ws rs. operands s (us @ ws @ rs) \<and> length us = a \<and> length ws = b \<and> length rs = c"
proof -
  from assms obtain vs where vs: "operands s vs" "length vs = a + b + c" by (auto simp: deep_def)
  have "vs = take a vs @ take b (drop a vs) @ drop b (drop a vs)" by (simp only: append_take_drop_id)
  with vs(1) have "operands s (take a vs @ take b (drop a vs) @ drop b (drop a vs))" by metis
  with vs(2) show ?thesis by (intro exI conjI) auto
qed

lemma stack_exit:
  assumes "stands_in valid R module tables datas lim B d ac (length (fb_instructions (ac_body ac))) s"
  shows "\<exists>s'. vm_exit_frame (stack_machine fe D R) (ac_results_count ac) (ac_base ac)
      (fb_frame_layout (ac_body ac)) s = Some s' \<and>
    has_returned valid module tables datas lim (ac_func_index ac) (ac_base ac) s'"
proof -
  let ?r = "length (ft_results (decl_type module (ac_func_index ac)))"
  let ?b = "base_height (ac_base ac)" and ?L = "length (fb_locals (ac_body ac))"
  from assms have kl: "keeps_limits valid module tables datas lim s" and rc: "ac_results_count ac = ?r"
    and "deep s (?b + ?L + ?r)"
    by (auto simp: stands_in_def stands_def certified_def arrives_def)
  from deep_split [OF this(3)] obtain us ws rs where vs: "holds (frame s) (us @ ws @ rs)"
    "length us = ?b" "length rs = ?r"
    by (auto simp: operands_def)
  have "wp (exit_frame ?r (ac_base ac)) (\<lambda>_ fr. holds fr (us @ rs)) (\<lambda>(_ :: unit) _. False) (frame s)"
    using vs by (intro exit_frame_wp) simp_all
  then have "wp (exit_frame ?r (ac_base ac)) (\<lambda>_ fr. deep (s\<lparr>frame := fr\<rparr>) (?b + ?r)) (\<lambda>(_ :: unit) _. False) (frame s)"
    by (rule wp_mono) (use vs holds_deep in \<open>auto dest!: holds_deep [where s = s]\<close>)
  from run_on_frameI [OF this] kl rc show ?thesis
    by (auto simp: stack_machine_sel has_returned_def)
qed

context memory_backend
begin

lemma stack_step:
  assumes st: "stands_in valid R module tables datas lim B d ac pc s"
    and pc: "pc < length (fb_instructions (ac_body ac))"
  shows "\<exists>r s'. execute_at (stack_machine fe D R) module ac pc s = Some (r, s') \<and>
    keeps_limits valid module tables datas lim s' \<and> pc < length (fb_instruction_offsets (ac_body ac)) \<and>
    (case r of
       Inl e \<Rightarrow> True
     | Inr Next \<Rightarrow> stands_in valid R module tables datas lim B d ac (Suc pc) s'
     | Inr (JumpTo t) \<Rightarrow> stands_in valid R module tables datas lim B d ac t s'
     | Inr (StepCall f base ind) \<Rightarrow> may_call valid R module tables datas lim B (Suc d) f base s' \<and>
         (\<forall>t. has_returned valid module tables datas lim f base t \<longrightarrow>
            stands_in valid R module tables datas lim B d ac (Suc pc) t))"
proof -
  let ?L = "length (fb_locals (ac_body ac))" and ?xs = "fb_instructions (ac_body ac)"
  let ?F = "callee_frame_base_height (ac_base ac)" and ?layout = "fb_frame_layout (ac_body ac)"
  let ?env = "body_env module tables datas ?L"
  from st obtain hs h where perm: "permitted valid R module tables datas lim B"
    and f: "local_function module (ac_func_index ac)" "ac_body ac = local_body module (ac_func_index ac)"
    and kl: "keeps_limits valid module tables datas lim s"
    and b: "base_height (ac_base ac) \<le> d * B" "d < max (unat lim) 1" and F: "base_height (ac_base ac) + ?L = ?F"
    and cert: "certified ?env (length (ft_results (decl_type module (ac_func_index ac)))) ?xs (br_targets_arena ?layout) hs"
    and hs: "\<forall>h. Some h \<in> set hs \<longrightarrow> ?L + h \<le> B"
    and h: "arrives hs pc h" "deep s (?F + h)"
    by (auto simp: stands_in_def stands_def)
  have again: "stands_in valid R module tables datas lim B d ac pc' t"
    if "keeps_limits valid module tables datas lim t" "stands hs ?F pc' t" for pc' t
    using st cert hs that unfolding stands_in_def by blast
  note body = sound_body_certified [OF permitted_body [OF perm f(1)], folded f(2)]
    and decl = permitted_declared [OF perm f(1)]
  from perm have room: "max (unat lim) 1 * B \<le> U32_MAX" by (simp add: permitted_def)
  from h(1) have "Some h \<in> set hs" by (metis arrives_def nth_mem)
  with hs have top: "?L + h \<le> B" by blast
  note slots = depth_room [OF b room top]
  have fit: "fits ?env (br_targets_arena ?layout) [] hs pc (?xs ! pc) h"
    using cert pc h(1) by (simp add: certified_def arrives_def)
  have jump: "jumps_ok ?xs (br_targets_arena ?layout) (?xs ! pc)"
    using body(2) pc by (simp add: body_ok_def)
  have "length hs \<le> Suc U32_MAX" using cert body(4) by (simp add: certified_def)
  from execute_safe [OF fit jump this decl(1,2) refl F _ h(2), of fe] kl slots(2) F
  have "wp (execute fe D R (?xs ! pc) module ?layout (ac_base ac) (md_imported_func_count module))
      (\<lambda>r s'. proceeds module hs ?F pc r s' \<and> conforms valid module tables datas s')
      (\<lambda>_ s'. conforms valid module tables datas s') s"
    by (simp add: step_safe_def keeps_limits_def add.assoc)
  then consider (ok) r t where
      "execute fe D R (?xs ! pc) module ?layout (ac_base ac) (md_imported_func_count module) s = Ok (r, t)"
      "proceeds module hs ?F pc r t" "conforms valid module tables datas t"
    | (trap) e t where
      "execute fe D R (?xs ! pc) module ?layout (ac_base ac) (md_imported_func_count module) s = Err (e, t)"
      "conforms valid module tables datas t"
    by (auto simp: wp_def split: result.splits)
  then show ?thesis
  proof cases
    case ok
    have t: "keeps_limits valid module tables datas lim t"
      using execute_settings [OF ok(1)] ok(3) kl by (simp add: keeps_limits_def settings_def)
    have "execute_at (stack_machine fe D R) module ac pc s = Some (Inr r, t)"
      using ok(1) pc
      by (simp add: execute_at_def run_infallible_def bnd_def lift_result_def index_def attempt_def
          stack_machine_sel)
    moreover have "case r of Next \<Rightarrow> stands_in valid R module tables datas lim B d ac (Suc pc) t
        | JumpTo j \<Rightarrow> stands_in valid R module tables datas lim B d ac j t
        | StepCall g base ind \<Rightarrow> may_call valid R module tables datas lim B (Suc d) g base t \<and>
            (\<forall>u. has_returned valid module tables datas lim g base u \<longrightarrow>
               stands_in valid R module tables datas lim B d ac (Suc pc) u)"
    proof (cases r)
      case (StepCall g base ind)
      with ok(2) obtain m where g: "local_function module g" and base: "base_height base = ?F + m"
        and args: "deep t (?F + m + length (ft_params (decl_type module g)))"
        and arr: "arrives hs (Suc pc) (m + length (ft_results (decl_type module g)))"
        by (auto simp: awaits_def local_function_def)
      from arr have "Some (m + length (ft_results (decl_type module g))) \<in> set hs"
        by (metis arrives_def nth_mem)
      with hs have "?L + m \<le> B" by fastforce
      from depth_room(1) [OF b room this] have "?F + m \<le> Suc d * B" using F by simp
      then have "may_call valid R module tables datas lim B (Suc d) g base t"
        using perm t g base args by (simp add: may_call_def)
      moreover have "stands_in valid R module tables datas lim B d ac (Suc pc) u"
        if "has_returned valid module tables datas lim g base u" for u
        using that base arr by (intro again) (auto simp: has_returned_def stands_def add.assoc)
      ultimately show ?thesis by (simp add: StepCall)
    qed (use ok(2) t again in simp_all)
    ultimately show ?thesis
      using t pc body(3) by (intro exI [of _ "Inr r"] exI [of _ t]) (auto split: Step.splits)
  next
    case (trap e t)
    have "keeps_limits valid module tables datas lim t"
      using execute_settings [OF trap(1)] trap(2) kl by (simp add: keeps_limits_def settings_def)
    moreover have "execute_at (stack_machine fe D R) module ac pc s = Some (Inl e, t)"
      using trap(1) pc
      by (simp add: execute_at_def run_infallible_def bnd_def lift_result_def index_def attempt_def
          stack_machine_sel)
    ultimately show ?thesis
      using pc body(3) by (intro exI [of _ "Inl e"] exI [of _ t]) simp
  qed
qed

end

sublocale memory_backend \<subseteq> stack_runs: safe_machine "stack_machine fe D R" module
  "keeps_limits valid module tables datas lim" "unat lim" "may_call valid R module tables datas lim B"
  "stands_in valid R module tables datas lim B" "has_returned valid module tables datas lim"
  for fe and R :: "('m, 'i) import_registry_impl" and module tables datas lim B
proof (unfold_locales, goal_cases)
  case (1 s)
  then show ?case by (simp add: stack_machine_sel keeps_limits_def)
next
  case 2
  then show ?case using unsigned_less [of lim, where ?'a = nat] by simp
next
  case (3 d f base s)
  from stack_enter [OF this, of fe D] show ?case by (auto simp: has_returned_def)
next
  case (4 d ac pc s)
  from stack_step [OF this, of fe] show ?case by simp
next
  case (5 d ac pc s)
  then show ?case by (auto simp: stands_in_def stands_def certified_def arrives_def)
next
  case (6 d ac s)
  from stack_exit [OF this, of fe D] show ?case .
qed

end
