(* ===== verification/SafetyProperties.thy ===== *)
theory SafetyProperties
  imports DriverSafety
begin

text \<open>
  What validation buys at run time: bodies that validate have a certificate of operand heights,
  execution follows it, and so no run of a module that validates panics.
\<close>

section \<open>Results\<close>

lemma into_vals_typed:
  assumes "no_v128 tys" "length vs = length tys"
  shows "\<exists>xs. (into_vals vs tys :: ('e, Val list) result) = Ok xs \<and>
    list_all2 (\<lambda>x ty. has_ty x ty = Ok True) xs tys"
  using assms
proof (induction vs tys rule: into_vals.induct)
  case (1 v vs ty tys)
  then obtain xs where "(into_vals vs tys :: ('e, Val list) result) = Ok xs"
    "list_all2 (\<lambda>x ty. has_ty x ty = Ok True) xs tys"
    by (auto simp: no_v128_def)
  with 1(2) show ?case by (cases ty) (auto simp: no_v128_def)
qed auto

text \<open>What a run may come to: values of the declared types, or a trap; either way the instance
  can be used again.\<close>

definition sane ::
    "(('m, 'i) StackInstance \<Rightarrow> bool) \<Rightarrow> ValType list \<Rightarrow>
     (FuncCallError \<times> ('m, 'i) StackInstance, Val list \<times> ('m, 'i) StackInstance) result \<Rightarrow> bool" where
  "sane usable tys r \<longleftrightarrow> (case r of
      Ok (vals, s') \<Rightarrow> list_all2 (\<lambda>x ty. has_ty x ty = Ok True) vals tys \<and> usable s'
    | Err (_, s') \<Rightarrow> usable s'
    | Panic \<Rightarrow> False)"

lemma initial_params_deep:
  "\<exists>f. vm_set_initial_params (stack_machine fe D R) params (vm_reset (stack_machine fe D R) s) =
     Some (s\<lparr>frame := f\<rparr>) \<and> deep (s\<lparr>frame := f\<rparr>) (length params)"
proof -
  let ?s = "s\<lparr>frame := frame s\<lparr>stack_pointer := 0\<rparr>\<rparr>"
  have "holds (frame ?s) []" by (simp add: holds_def stack_inv_def live_def)
  then have "wp (set_initial_params params) (\<lambda>_ f. holds f ([] @ map value_of_val params))
      (\<lambda>(_ :: unit) _. False) (frame ?s)"
    unfolding set_initial_params_def by (rule value_stack.push_each)
  from run_on_frameI [OF this] obtain f where
    "run_infallible (on_frame (set_initial_params params)) ?s = Some ((), s\<lparr>frame := f\<rparr>)"
    "holds f (map value_of_val params)" by auto
  then show ?thesis
    using holds_deep [of f "map value_of_val params" s] by (intro exI [of _ f]) (simp add: stack_machine_def)
qed

lemma final_results_ok:
  assumes "deep s n"
  shows "\<exists>vs f. vm_get_final_results (stack_machine fe D R) n s = Some (vs, s\<lparr>frame := f\<rparr>) \<and> length vs = n"
proof -
  from assms obtain vs where "holds (frame s) ([] @ vs)" "length vs = n" by (auto simp: deep_def operands_def)
  with popped_wp(1) [OF this(1)] have "wp (get_final_results n) (\<lambda>xs f. xs = vs \<and> holds f [])
      (\<lambda>(_ :: unit) _. False) (frame s)"
    by (simp add: import_pops)
  from run_on_frameI [OF this] \<open>length vs = n\<close> show ?thesis by (auto simp: stack_machine_def)
qed

context memory_backend
begin

lemma run_sane:
  assumes perm: "permitted valid R module tables datas lim B"
    and s: "keeps_limits valid module tables datas lim s"
    and f: "local_function module f" "length params = length (ft_params (decl_type module f))"
    and run: "run n (stack_machine fe D R) f params module s = Some r"
  shows "sane (keeps_limits valid module tables datas lim) (ft_results (decl_type module f)) r"
proof -
  let ?vm = "stack_machine fe D R" and ?rs = "length (ft_results (decl_type module f))"
  let ?b = "vm_initial_data ?vm"
  note decl = permitted_declared [OF perm f(1)]
  from f(1) have idx: "unat f < length (md_func_decls module)" by (simp add: local_function_def)
  have "no_v128 (ft_results (decl_type module f))"
    using decl(1,3) by (simp add: declared_def decl_type_def)
  note typed = into_vals_typed [OF this, where 'e = FuncCallError]
  from initial_params_deep [of fe D R params s] obtain fr where
    start: "vm_set_initial_params ?vm params (vm_reset ?vm s) = Some (s\<lparr>frame := fr\<rparr>)"
      "deep (s\<lparr>frame := fr\<rparr>) (length params)" by blast
  have call: "may_call valid R module tables datas lim B 0 f ?b (s\<lparr>frame := fr\<rparr>)"
    using perm s f start(2) by (simp add: may_call_def stack_machine_sel)
  from run start(1) obtain r1 where
    r1: "execute_on_native_stack n ?vm module f ?b 0 (s\<lparr>frame := fr\<rparr>) = Some r1"
    by (cases "execute_on_native_stack n ?vm module f ?b 0 (s\<lparr>frame := fr\<rparr>)")
      (auto simp: run_def fop_defs modify_def)
  from stack_runs.driver_safe(1) [OF r1 call]
  have safe: "stack_runs.safe module tables datas lim f ?b 0 r1" by simp
  show ?thesis
  proof (cases r1)
    case (Ok p)
    then obtain d s1 where p: "r1 = Ok (d, s1)" by (cases p) simp
    with safe have ret: "keeps_limits valid module tables datas lim s1" "deep s1 ?rs"
      by (simp_all add: stack_runs.safe_def has_returned_def stack_machine_sel)
    from final_results_ok [OF ret(2), of fe D R] obtain vs fr' where
      res: "vm_get_final_results ?vm ?rs s1 = Some (vs, s1\<lparr>frame := fr'\<rparr>)" "length vs = ?rs" by blast
    from typed [OF res(2)] obtain xs where
      "(into_vals vs (ft_results (decl_type module f)) :: (FuncCallError, Val list) result) = Ok xs"
      "list_all2 (\<lambda>x ty. has_ty x ty = Ok True) xs (ft_results (decl_type module f))" by blast
    with run start(1) r1 p res(1) idx decl(3,5) ret(1) show ?thesis
      by (auto simp: run_def fop_defs modify_def index_def decl_type_def sane_def)
  next
    case (Err p)
    with safe run start(1) r1 show ?thesis
      by (cases p) (auto simp: run_def fop_defs modify_def stack_runs.safe_def sane_def)
  next
    case Panic
    with safe show ?thesis by (simp add: stack_runs.safe_def)
  qed
qed

end

section \<open>A guest that calls its host and itself\<close>

definition countdown_reader :: OperatorsReader where
  "countdown_reader = [
     Inr (Op_Call 0, 20), Inr (Op_LocalGet 0, 22), Inr (Op_If (BT_Type T_I32), 24),
     Inr (Op_LocalGet 0, 26), Inr (Op_I32Const 1, 28), Inr (Op_Numeric (I32Binary I32Sub), 30),
     Inr (Op_Call 1, 31), Inr (Op_Else, 33), Inr (Op_I32Const 42, 34), Inr (Op_End, 36),
     Inr (Op_End, 37)]"

definition countdown_types :: "FuncType list" where
  "countdown_types = [\<lparr>ft_params = [T_I32], ft_results = [T_I32]\<rparr>, \<lparr>ft_params = [], ft_results = []\<rparr>]"

definition countdown_decls :: "FuncDecl list" where
  "countdown_decls = [\<lparr>fd_kind = Imported ''env'' ''tick'', fd_ty = 1\<rparr>, \<lparr>fd_kind = Local, fd_ty = 0\<rparr>]"

definition countdown_body :: "(StackInstruction, StackFrameLayout) FuncBody" where
  "countdown_body = \<lparr>fb_locals = [T_I32],
     fb_instructions = [Call 0 0, LocalGet 0, If (Some 7) 9, LocalGet 0, Const (I32Const 1),
       Numeric (I32Binary I32Sub), Call 1 1, Else 9, Const (I32Const 42), End 1 0, End 1 0],
     fb_instruction_offsets = [20, 22, 24, 26, 28, 30, 31, 33, 34, 36, 37],
     fb_frame_layout = \<lparr>br_targets_arena = []\<rparr>\<rparr>"

definition countdown_module :: StackModule where
  "countdown_module = \<lparr>md_types = countdown_types, md_func_decls = countdown_decls, md_globals = [],
     md_imported_func_count = 1, md_func_bodies = [countdown_body],
     md_exported_func_index_to_name = (\<lambda>_. None)\<rparr>"

lemma countdown_sel:
  "md_types countdown_module = countdown_types" "md_func_decls countdown_module = countdown_decls"
  "md_globals countdown_module = []" "md_imported_func_count countdown_module = 1"
  "md_func_bodies countdown_module = [countdown_body]"
  by (simp_all add: countdown_module_def)

lemma countdown_valid:
  "valid_body countdown_types countdown_decls 1 1 countdown_reader"
  by (simp add: countdown_types_def countdown_decls_def countdown_reader_def valid_defs)

lemma countdown_lowers:
  "emit_instructions_for_func countdown_reader 1 1 countdown_types countdown_decls =
     Ok (fb_instructions countdown_body, fb_instruction_offsets countdown_body, fb_frame_layout countdown_body)"
  by (simp add: emit_instructions_for_func_def countdown_reader_def countdown_types_def countdown_decls_def
      countdown_body_def lower_defs func_label_def initial_lower_state_def default_control_stack_def
      list_update_numeral)

lemma countdown_code: "valid_code (body_env countdown_module 0 1 1) 1 1 countdown_reader"
  using countdown_valid
  by (simp add: valid_code_def countdown_sel) (simp add: countdown_reader_def op_indices_def)

lemma countdown_peak: "code_peak (body_env countdown_module 0 1 1) 1 1 countdown_reader \<le> 9"
  by (simp add: code_peak_def countdown_sel countdown_reader_def countdown_types_def countdown_decls_def valid_defs)

lemma countdown_local: "local_function countdown_module f \<longleftrightarrow> f = 1"
proof -
  have "unat f = 1 \<longleftrightarrow> f = 1" by (metis unsigned_1 word_unat_eq_iff)
  then show ?thesis by (auto simp: local_function_def countdown_sel countdown_decls_def)
qed

lemma countdown_type:
  "decl_type countdown_module 1 = \<lparr>ft_params = [T_I32], ft_results = [T_I32]\<rparr>"
  "local_body countdown_module 1 = countdown_body"
  by (simp_all add: decl_type_def local_body_def countdown_sel countdown_decls_def countdown_types_def)

lemma countdown_permitted: "permitted linear_valid demo_registry countdown_module 0 1 2000 10"
proof -
  have "fb_locals countdown_body = [T_I32]" by (simp add: countdown_body_def)
  then have "sound_body countdown_module 0 1 10 \<lparr>ft_params = [T_I32], ft_results = [T_I32]\<rparr> countdown_body"
    using countdown_code countdown_lowers countdown_peak
    by (simp add: sound_body_def no_v128_def Let_def countdown_sel)
      (intro exI [of _ countdown_reader], simp)
  moreover have "declared countdown_module"
    by (simp add: declared_def countdown_sel countdown_decls_def countdown_types_def small_types_def
        no_v128_def less_Suc_eq)
  moreover have "polite linear_valid demo_registry countdown_module"
    by (auto simp: polite_def countdown_sel countdown_decls_def countdown_types_def demo_registry_def)
  ultimately show ?thesis
    by (simp add: permitted_def sound_module_def countdown_local countdown_type)
qed

lemma page_keeps_limits: "keeps_limits linear_valid countdown_module 0 1 2000 (page_instance vs)"
  by (simp add: keeps_limits_def conforms_def page_instance_def one_page_valid countdown_sel
      data_segment_def default_config_def)

section \<open>Certificates\<close>

text \<open>C4: what the lowering emits for a body that validates is certified: there is a height for
  every instruction control can reach, 0 at the first and the number of results at the end, such
  that every instruction finds the operands it pops, passes its height on to the next one, and
  every branch, the arms of a \<open>br_table\<close>, the skip of an \<open>if\<close> and of an \<open>else\<close> included, leaves
  exactly the height its target starts at; an \<open>end\<close> finds the height it checks. No height is above
  the peak that validation computes for the body.\<close>

theorem lowered_bodies_are_certified:
  assumes "valid_code env params results reader"
    and "emit_instructions_for_func reader params results (en_types env) (en_decls env) =
      Ok (instrs, offs, layout)"
  shows "\<exists>hs. certified env results instrs (br_targets_arena layout) hs \<and>
    (\<forall>h. Some h \<in> set hs \<longrightarrow> h \<le> code_peak env params results reader)"
  using assms by (rule certified_code)

theorem lowered_bodies_are_certified_witness:
  "\<exists>hs. certified (body_env countdown_module 0 1 1) 1 (fb_instructions countdown_body) [] hs \<and>
    (\<forall>h. Some h \<in> set hs \<longrightarrow> h \<le> 9)"
proof -
  have "br_targets_arena (fb_frame_layout countdown_body) = []" by (simp add: countdown_body_def)
  with lowered_bodies_are_certified [OF countdown_code, of "fb_instructions countdown_body"
      "fb_instruction_offsets countdown_body" "fb_frame_layout countdown_body"] countdown_lowers countdown_peak
  show ?thesis by (fastforce simp: countdown_sel)
qed

section \<open>Progress and preservation\<close>

text \<open>C5: progress and preservation, for an activation of a validated module that stands at an
  instruction, its operand stack as high as the certificate says: the instruction executes without
  a panic. If it traps, the globals, tables, segments and memory are still in order. If it
  goes on, to the next instruction or by a jump, the activation stands there. If it asks for a
  call, the callee is a function of the module whose arguments are on top of the stack, and when the
  callee has left its results in their place the activation stands at the next instruction.\<close>

theorem steps_keep_the_certificate:
  assumes "stands_in linear_valid R module tables datas lim B d ac pc s"
    and "pc < length (fb_instructions (ac_body ac))"
  shows "\<exists>r s'. execute_at (stack_machine fe linear_memory R) module ac pc s = Some (r, s') \<and>
    keeps_limits linear_valid module tables datas lim s' \<and> pc < length (fb_instruction_offsets (ac_body ac)) \<and>
    (case r of
       Inl e \<Rightarrow> True
     | Inr Next \<Rightarrow> stands_in linear_valid R module tables datas lim B d ac (Suc pc) s'
     | Inr (JumpTo t) \<Rightarrow> stands_in linear_valid R module tables datas lim B d ac t s'
     | Inr (StepCall f base ind) \<Rightarrow> may_call linear_valid R module tables datas lim B (Suc d) f base s' \<and>
         (\<forall>t. has_returned linear_valid module tables datas lim f base t \<longrightarrow>
            stands_in linear_valid R module tables datas lim B d ac (Suc pc) t))"
  using assms by (rule linear.stack_step)

theorem steps_keep_the_certificate_witness:
  "\<exists>ac s r s'. enter_function demo_machine countdown_module 1
      \<lparr>base_height = 0, callee_frame_base_height = U32_MAX\<rparr> (page_instance [10]) = Some (ac, s) \<and>
    execute_at demo_machine countdown_module ac 0 s = Some (r, s') \<and>
    keeps_limits linear_valid countdown_module 0 1 2000 s'"
proof -
  have "deep (page_instance [10]) 1"
    using page_instance_at [of "[10]"] by (auto simp: deep_def at_linear_def)
  then have "may_call linear_valid demo_registry countdown_module 0 1 2000 10 0 1
      \<lparr>base_height = 0, callee_frame_base_height = U32_MAX\<rparr> (page_instance [10])"
    using countdown_permitted page_keeps_limits by (simp add: may_call_def countdown_local countdown_type)
  from stack_enter [OF this, of demo_floats linear_memory] obtain ac s where
    enter: "enter_function demo_machine countdown_module 1
      \<lparr>base_height = 0, callee_frame_base_height = U32_MAX\<rparr> (page_instance [10]) = Some (ac, s)"
    and st: "stands_in linear_valid demo_registry countdown_module 0 1 2000 10 0 ac 0 s"
      "fb_instructions (ac_body ac) \<noteq> []"
    by auto
  from steps_keep_the_certificate [OF st(1), of demo_floats] st(2) enter show ?thesis by blast
qed

section \<open>Runs\<close>

text \<open>C1: no run of a validated module panics, on any input and any fuel: whatever the guest
  does, none of the interpreter's indexing, unwrapping, checked arithmetic or slot accesses fails.
  A run that returns has the declared number of results, each of its declared type; a run that
  traps, like one that returns, leaves an instance that can be run again. The module's bodies
  are lowered from bodies that validate, its declarations are consistent, host functions return
  what they declare, and the call depth limit times the slots of the largest activation does not
  exceed the \<open>u32\<close> heights.\<close>

theorem validated_modules_do_not_panic:
  assumes "permitted linear_valid R module tables datas lim B"
    and "keeps_limits linear_valid module tables datas lim s"
    and "local_function module f" and "length params = length (ft_params (decl_type module f))"
    and "run n (stack_machine fe linear_memory R) f params module s = Some r"
  shows "sane (keeps_limits linear_valid module tables datas lim) (ft_results (decl_type module f)) r"
  using assms by (rule linear.run_sane)

theorem validated_modules_do_not_panic_witness:
  "\<forall>n. run n demo_machine 1 [I32 7] countdown_module (page_instance []) \<noteq> Some Panic"
proof
  fix n
  show "run n demo_machine 1 [I32 7] countdown_module (page_instance []) \<noteq> Some Panic"
  proof
    assume run: "run n demo_machine 1 [I32 7] countdown_module (page_instance []) = Some Panic"
    from validated_modules_do_not_panic [OF countdown_permitted page_keeps_limits _ _ run]
    show False by (simp add: sane_def countdown_local countdown_type)
  qed
qed

end
