(* ===== verification/ConstExprProperties.thy ===== *)
theory ConstExprProperties
  imports Lowering StackExec
begin

text \<open>
  Constant expressions, from the operators of a global initialiser or a segment offset to its
  value. They have two executions: the code's, which lowers the operators to instructions and runs
  those on a stack of tagged values, and a direct one, \<open>const_sem\<close>, of the operators on a list.
  The type check is the one WebAssembly validation makes.
\<close>

section \<open>Types and meaning\<close>

datatype cty = C_I32 | C_I64 | C_F32 | C_F64 | C_Ref

fun val_cty :: "Val \<Rightarrow> cty" where
  "val_cty (I32 _) = C_I32"
| "val_cty (I64 _) = C_I64"
| "val_cty (F32 _) = C_F32"
| "val_cty (F64 _) = C_F64"
| "val_cty (Ref _) = C_Ref"

text \<open>The operators that push a constant, and the binary ones.\<close>

fun const_leaf :: "Val list \<Rightarrow> Operator \<Rightarrow> Val option" where
  "const_leaf globals (Op_I32Const v) = Some (I32 v)"
| "const_leaf globals (Op_I64Const v) = Some (I64 v)"
| "const_leaf globals (Op_F32Const v) = Some (F32 v)"
| "const_leaf globals (Op_F64Const v) = Some (F64 v)"
| "const_leaf globals (Op_RefNull _) = Some (Ref None)"
| "const_leaf globals (Op_RefFunc f) = Some (Ref (Some f))"
| "const_leaf globals (Op_GlobalGet i) =
     (if unat i < length globals then Some (globals ! unat i) else None)"
| "const_leaf globals _ = None"

fun const_op32 :: "Operator \<Rightarrow> (u32 \<Rightarrow> u32 \<Rightarrow> u32) option" where
  "const_op32 (Op_Numeric n) =
     (if n = I32Binary I32Add then Some (+) else if n = I32Binary I32Sub then Some (-)
      else if n = I32Binary I32Mul then Some (*) else None)"
| "const_op32 _ = None"

fun const_op64 :: "Operator \<Rightarrow> (u64 \<Rightarrow> u64 \<Rightarrow> u64) option" where
  "const_op64 (Op_Numeric n) =
     (if n = I64Binary I64Add then Some (+) else if n = I64Binary I64Sub then Some (-)
      else if n = I64Binary I64Mul then Some (*) else None)"
| "const_op64 _ = None"

text \<open>
  A step of the type check, the innermost operand first. The check of a leaf looks at the types
  of the globals only, which \<open>zero_val\<close> makes values of.
\<close>

fun zero_val :: "cty \<Rightarrow> Val" where
  "zero_val C_I32 = I32 0"
| "zero_val C_I64 = I64 0"
| "zero_val C_F32 = F32 0"
| "zero_val C_F64 = F64 0"
| "zero_val C_Ref = Ref None"

definition const_check :: "cty list \<Rightarrow> Operator \<Rightarrow> cty list \<Rightarrow> cty list option" where
  "const_check globals operator st =
     (case const_leaf (map zero_val globals) operator of
        Some v \<Rightarrow> Some (val_cty v # st)
      | None \<Rightarrow>
          if const_op32 operator \<noteq> None \<and> take 2 st = [C_I32, C_I32] then Some (C_I32 # drop 2 st)
          else if const_op64 operator \<noteq> None \<and> take 2 st = [C_I64, C_I64] then Some (C_I64 # drop 2 st)
          else None)"

fun const_checks :: "cty list \<Rightarrow> OperatorsReader \<Rightarrow> cty list \<Rightarrow> cty list option" where
  "const_checks globals [] st = None"
| "const_checks globals (Inl e # rest) st = None"
| "const_checks globals (Inr (operator, offset) # rest) st =
     (if operator = Op_End then Some st
      else Option.bind (const_check globals operator st) (const_checks globals rest))"

text \<open>The direct execution; the values of ill-typed operands do not matter.\<close>

definition const_sem :: "Val list \<Rightarrow> Operator \<Rightarrow> Val list \<Rightarrow> Val list" where
  "const_sem globals operator st =
     (case const_leaf globals operator of
        Some v \<Rightarrow> v # st
      | None \<Rightarrow> (case st of
          I32 y # I32 x # st' \<Rightarrow> (case const_op32 operator of Some f \<Rightarrow> I32 (f x y) # st' | None \<Rightarrow> st)
        | I64 y # I64 x # st' \<Rightarrow> (case const_op64 operator of Some f \<Rightarrow> I64 (f x y) # st' | None \<Rightarrow> st)
        | _ \<Rightarrow> st))"

fun const_value :: "Val list \<Rightarrow> OperatorsReader \<Rightarrow> Val list \<Rightarrow> Val list" where
  "const_value globals (Inr (operator, offset) # rest) st =
     (if operator = Op_End then st else const_value globals rest (const_sem globals operator st))"
| "const_value globals _ st = st"

section \<open>One operator\<close>

lemma cty_Cons:
  "map val_cty st = C_I32 # tys \<longleftrightarrow> (\<exists>a st'. st = I32 a # st' \<and> map val_cty st' = tys)"
  "map val_cty st = C_I64 # tys \<longleftrightarrow> (\<exists>b st'. st = I64 b # st' \<and> map val_cty st' = tys)"
proof -
  have "val_cty v = C_I32 \<longleftrightarrow> (\<exists>a. v = I32 a)" "val_cty v = C_I64 \<longleftrightarrow> (\<exists>a. v = I64 a)" for v
    by (cases v; simp)+
  then show "map val_cty st = C_I32 # tys \<longleftrightarrow> (\<exists>a st'. st = I32 a # st' \<and> map val_cty st' = tys)"
    and "map val_cty st = C_I64 # tys \<longleftrightarrow> (\<exists>b st'. st = I64 b # st' \<and> map val_cty st' = tys)"
    by (cases st; auto)+
qed

lemma const_binary_wp:
  assumes "holds s (vs @ [x, y])"
  shows "x = I32 a \<Longrightarrow> y = I32 b \<Longrightarrow> wp (const_binary_i32 f) (\<lambda>_ s'. holds s' (vs @ [I32 (f a b)])) E s"
    and "x = I64 c \<Longrightarrow> y = I64 d \<Longrightarrow> wp (const_binary_i64 g) (\<lambda>_ s'. holds s' (vs @ [I64 (g c d)])) E s"
proof -
  have two: "wp pop (\<lambda>v t. v = y \<and> wp pop (\<lambda>u t'. u = x \<and> holds t' vs) E' t) E' s" for E'
    by (rule wp_mono [OF value_stack.pop_law [of _ "vs @ [x]"]])
      (use assms in \<open>auto intro: value_stack.pop_law\<close>)
  show "wp (const_binary_i32 f) (\<lambda>_ s'. holds s' (vs @ [I32 (f a b)])) E s" if "x = I32 a" "y = I32 b"
    unfolding const_binary_i32_def wp_bnd
    by (rule wp_mono [OF two]) (auto simp: that elim!: wp_mono intro: value_stack.push_law)
  show "wp (const_binary_i64 g) (\<lambda>_ s'. holds s' (vs @ [I64 (g c d)])) E s" if "x = I64 c" "y = I64 d"
    unfolding const_binary_i64_def wp_bnd
    by (rule wp_mono [OF two]) (auto simp: that elim!: wp_mono intro: value_stack.push_law)
qed

lemma const_leaf_cty:
  "map_option val_cty (const_leaf (map zero_val (map val_cty globals)) operator) =
     map_option val_cty (const_leaf globals operator)"
proof -
  have "val_cty (zero_val t) = t" for t by (cases t) simp_all
  then show ?thesis by (cases operator) simp_all
qed

lemma const_leaf_runs:
  assumes "const_leaf globals operator = Some v"
  shows "\<exists>instr. lower_const_operator operator = Ok instr \<and>
    (holds s vs \<longrightarrow> wp (const_step globals instr) (\<lambda>_ s'. holds s' (vs @ [v])) E s)"
  using assms
  by (cases operator) (auto simp: index_def split: if_splits intro: value_stack.push_law)

lemma const_op_runs:
  shows "const_op32 operator = Some f \<Longrightarrow> \<exists>instr. lower_const_operator operator = Ok instr \<and>
      const_step globals instr = const_binary_i32 f"
    and "const_op64 operator = Some g \<Longrightarrow> \<exists>instr. lower_const_operator operator = Ok instr \<and>
      const_step globals instr = const_binary_i64 g"
  by (cases operator; auto split: if_splits)+

lemma const_operator_runs:
  fixes E :: "'e \<Rightarrow> Val stack \<Rightarrow> bool"
  assumes check: "const_check (map val_cty globals) operator (map val_cty st) = Some tys"
    and s: "holds s (rev st)"
  shows "\<exists>instr. lower_const_operator operator = Ok instr \<and>
    wp (const_step globals instr) (\<lambda>_ s'. holds s' (rev (const_sem globals operator st))) E s \<and>
    map val_cty (const_sem globals operator st) = tys"
proof (cases "const_leaf globals operator")
  case (Some v)
  with check const_leaf_cty [of globals operator] have "tys = val_cty v # map val_cty st"
    by (auto simp: const_check_def split: option.splits)
  with const_leaf_runs [OF Some, of s "rev st" E] s Some show ?thesis
    by (auto simp: const_sem_def)
next
  case None
  with const_leaf_cty [of globals operator]
  have leaf: "const_leaf (map zero_val (map val_cty globals)) operator = None" by simp
  have two: "\<exists>ys. xs = t # t # ys" if "take 2 xs = [t, t]" for xs and t :: cty
    using that by (cases xs; cases "tl xs") auto
  from check leaf consider
      f tys' where "const_op32 operator = Some f" "map val_cty st = C_I32 # C_I32 # tys'" "tys = C_I32 # tys'"
    | g tys' where "const_op64 operator = Some g" "map val_cty st = C_I64 # C_I64 # tys'" "tys = C_I64 # tys'"
    by (auto simp: const_check_def split: if_splits dest!: two)
  then show ?thesis
  proof cases
    case 1
    then obtain x y st' where st: "st = I32 y # I32 x # st'" "map val_cty st' = tys'"
      by (auto simp: cty_Cons)
    from const_op_runs(1) [OF 1(1)] obtain instr
      where "lower_const_operator operator = Ok instr"
        "const_step globals instr = (const_binary_i32 f :: (Val stack, 'e, unit) op)"
      by blast
    with const_binary_wp(1) [of s "rev st'" "I32 x" "I32 y" x y f E] s st 1 None show ?thesis
      by (simp add: const_sem_def)
  next
    case 2
    then obtain x y st' where st: "st = I64 y # I64 x # st'" "map val_cty st' = tys'"
      by (auto simp: cty_Cons)
    from const_op_runs(2) [OF 2(1)] obtain instr
      where "lower_const_operator operator = Ok instr"
        "const_step globals instr = (const_binary_i64 g :: (Val stack, 'e, unit) op)"
      by blast
    with const_binary_wp(2) [of s "rev st'" "I64 x" "I64 y" x y g E] s st 2 None show ?thesis
      by (simp add: const_sem_def)
  qed
qed

section \<open>The whole expression\<close>

lemma const_expr_runs:
  fixes E :: "'e \<Rightarrow> Val stack \<Rightarrow> bool"
  assumes "const_checks (map val_cty globals) reader (map val_cty st) = Some tys" and "holds s (rev st)"
  shows "\<exists>instrs. emit_instruction_for_const_expr reader = Ok instrs \<and>
    wp (for_each instrs (const_step globals)) (\<lambda>_ s'. holds s' (rev (const_value globals reader st))) E s \<and>
    map val_cty (const_value globals reader st) = tys"
  using assms
proof (induction reader arbitrary: st s)
  case Nil
  then show ?case by simp
next
  case (Cons item reader)
  from Cons.prems(1) obtain operator offset where item: "item = Inr (operator, offset)"
    by (cases item) auto
  show ?case
  proof (cases "operator = Op_End")
    case True
    with Cons.prems item show ?thesis by simp
  next
    case False
    with Cons.prems(1) item obtain tys1
      where step: "const_check (map val_cty globals) operator (map val_cty st) = Some tys1"
        and rest: "const_checks (map val_cty globals) reader tys1 = Some tys"
      by (auto simp: bind_eq_Some_conv)
    let ?st1 = "const_sem globals operator st"
    from const_operator_runs [OF step Cons.prems(2)] obtain instr
      where instr: "lower_const_operator operator = Ok instr"
        and runs: "wp (const_step globals instr) (\<lambda>_ s'. holds s' (rev ?st1)) (\<lambda>(_ :: 'e) _. False) s"
        and tys1: "map val_cty ?st1 = tys1"
      by blast
    from rest tys1 have rest': "const_checks (map val_cty globals) reader (map val_cty ?st1) = Some tys"
      by simp
    from runs obtain s1 where "holds s1 (rev ?st1)"
      by (cases rule: wp_cases) auto
    from Cons.IH [OF rest' this] obtain instrs
      where instrs: "emit_instruction_for_const_expr reader = Ok instrs"
        and tys: "map val_cty (const_value globals reader ?st1) = tys" by blast
    have "wp (for_each instrs (const_step globals))
        (\<lambda>_ s'. holds s' (rev (const_value globals reader ?st1))) E t" if "holds t (rev ?st1)" for t
      using Cons.IH [OF rest' that] instrs by auto
    then have "wp (for_each (instr # instrs) (const_step globals))
        (\<lambda>_ s'. holds s' (rev (const_value globals reader ?st1))) E s"
      unfolding for_each.simps wp_bnd by (rule wp_mono [OF runs]) simp_all
    with instr instrs tys False item show ?thesis by simp
  qed
qed

lemma const_expr_has_value:
  fixes globals :: "Val list"
  assumes "const_checks (map val_cty globals) reader [] = Some [ty]"
  shows "\<exists>instrs v. emit_instruction_for_const_expr reader = Ok instrs \<and>
    const_expr_evaluator instrs globals = (Ok v :: ('e, Val) result) \<and> val_cty v = ty \<and>
    const_value globals reader [] = [v]"
proof -
  have "const_checks (map val_cty globals) reader (map val_cty []) = Some [ty]"
    using assms by simp
  from const_expr_runs [OF this, of new_stack "\<lambda>(_ :: 'e) _. False"] obtain instrs
    where instrs: "emit_instruction_for_const_expr reader = Ok instrs"
      and run: "wp (for_each instrs (const_step globals))
        (\<lambda>_ s'. holds s' (rev (const_value globals reader []))) (\<lambda>(_ :: 'e) _. False) new_stack"
      and tys: "map val_cty (const_value globals reader []) = [ty]"
    by auto
  from tys obtain v where v: "const_value globals reader [] = [v]" "val_cty v = ty" by auto
  from run v(1) have runs: "wp (for_each instrs (const_step globals)) (\<lambda>_ s'. holds s' [v])
      (\<lambda>(_ :: 'e) _. False) new_stack" by simp
  have "wp (bnd (for_each instrs (const_step globals)) (\<lambda>_. pop)) (\<lambda>x _. x = v)
      (\<lambda>(_ :: 'e) _. False) new_stack"
    unfolding wp_bnd
    by (rule wp_mono [OF runs]) (auto intro: value_stack.pop_wp [where vs = "[]"])
  then have "const_expr_evaluator instrs globals = (Ok v :: ('e, Val) result)"
    unfolding const_expr_evaluator_def by (cases rule: wp_cases) auto
  with instrs v show ?thesis by blast
qed

text \<open>C34: constant expressions have a value. If the operators of a global initialiser or
  of a segment offset type-check against the globals in scope, their lowering succeeds and the
  evaluator returns, without a panic, a value of the checked type: the one that running the
  operators directly gives.\<close>

theorem constant_expressions_have_values:
  fixes globals :: "Val list"
  assumes "const_checks (map val_cty globals) reader [] = Some [ty]"
  shows "\<exists>instrs v. emit_instruction_for_const_expr reader = Ok instrs \<and>
    const_expr_evaluator instrs globals = (Ok v :: ('e, Val) result) \<and> val_cty v = ty \<and>
    const_value globals reader [] = [v]"
  using assms by (rule const_expr_has_value)

theorem constant_expressions_have_values_witness:
  "\<exists>instrs v. emit_instruction_for_const_expr
      [Inr (Op_GlobalGet 1, 0), Inr (Op_I32Const 5, 2), Inr (Op_Numeric (I32Binary I32Sub), 4), Inr (Op_End, 5)] =
        Ok instrs \<and>
    const_expr_evaluator instrs [I64 7, I32 12] = (Ok v :: (unit, Val) result) \<and> v = I32 7"
  using constant_expressions_have_values [of "[I64 7, I32 12]"
      "[Inr (Op_GlobalGet 1, 0), Inr (Op_I32Const 5, 2), Inr (Op_Numeric (I32Binary I32Sub), 4), Inr (Op_End, 5)]"
      C_I32]
  by (simp add: const_check_def const_sem_def numeral_2_eq_2)

end
