(* ===== verification/NumericProperties.thy ===== *)
theory NumericProperties
  imports Numeric
begin

text \<open>
  The integer operators against their mathematical meaning: division, bit counts, shifts and
  rotations at both widths.
\<close>

unbundle bit_operations_syntax

section \<open>Division\<close>

lemma sint_bounds: "- (2 ^ (LENGTH('a) - 1)) \<le> sint (a :: 'a::len word)" "sint a < 2 ^ (LENGTH('a) - 1)"
  using sint_greater_eq [of a] sint_less [of a] by simp_all

lemma sint_word_of_int_eq:
  assumes "- (2 ^ (LENGTH('a) - 1)) \<le> x" "x < 2 ^ (LENGTH('a) - 1)"
  shows "sint (word_of_int x :: 'a::len word) = x"
  using assms by (simp add: signed_of_int signed_take_bit_int_eq_self)

lemma sint_eq_0: "sint (b :: 'a::len word) = 0 \<longleftrightarrow> b = 0"
  using signed_word_eqI [of b 0] by auto

lemma abs_sdiv: "\<bar>x sdiv y\<bar> = \<bar>x\<bar> div \<bar>y\<bar>" if "y \<noteq> 0" for x y :: int
proof (cases "x = 0")
  case False
  then show ?thesis
    using that by (simp add: signed_divide_int_def abs_mult abs_sgn_eq pos_imp_zdiv_nonneg_iff)
qed (simp add: signed_divide_int_def)

lemma sdiv_fits:
  fixes a b :: "'a::len word"
  assumes "b \<noteq> 0" "\<not> (sint a = - (2 ^ (LENGTH('a) - 1)) \<and> sint b = - 1)"
  shows "sint (word_of_int (sint a sdiv sint b) :: 'a word) = sint a sdiv sint b"
proof (rule sint_word_of_int_eq)
  let ?N = "2 ^ (LENGTH('a) - 1) :: int"
  from assms(1) have b: "sint b \<noteq> 0" by (simp add: sint_eq_0)
  have le: "\<bar>sint a sdiv sint b\<bar> \<le> \<bar>sint a\<bar>"
    using sdiv_int_range [of "sint a" "sint b"] by auto
  have a: "- ?N \<le> sint a" "sint a < ?N" by (rule sint_bounds)+
  then show "- ?N \<le> sint a sdiv sint b" using le by linarith
  show "sint a sdiv sint b < ?N"
  proof (cases "sint a = - ?N")
    case True
    with assms(2) have "sint b \<noteq> - 1" by simp
    show ?thesis
    proof (cases "0 < sint b")
      case True
      then have "sint a sdiv sint b \<le> 0"
        using \<open>sint a = - ?N\<close> by (simp add: signed_divide_int_def sgn_if pos_imp_zdiv_nonneg_iff)
      then show ?thesis using zero_less_power [of "2 :: int"] by (smt (verit))
    next
      case False
      with b \<open>sint b \<noteq> - 1\<close> have "2 \<le> \<bar>sint b\<bar>" by linarith
      then have "\<bar>sint a\<bar> div \<bar>sint b\<bar> < \<bar>sint a\<bar>"
        using True by (intro int_div_less_self) auto
      moreover have "\<bar>sint a\<bar> = ?N" using True by simp
      ultimately show ?thesis using abs_sdiv [OF b, of "sint a"] by linarith
    qed
  next
    case False
    then have "\<bar>sint a\<bar> < ?N" using a by linarith
    then show ?thesis using le by linarith
  qed
qed

lemma smod_fits:
  fixes a b :: "'a::len word"
  assumes "b \<noteq> 0"
  shows "sint (word_of_int (sint a smod sint b) :: 'a word) = sint a smod sint b"
proof (rule sint_word_of_int_eq)
  let ?N = "2 ^ (LENGTH('a) - 1) :: int"
  from assms have b: "sint b \<noteq> 0" by (simp add: sint_eq_0)
  have "\<bar>sint a smod sint b\<bar> < \<bar>sint b\<bar>"
    using smod_int_range [OF b, of "sint a"] by auto
  also have "\<dots> \<le> ?N" using sint_bounds [of b] by linarith
  finally have "\<bar>sint a smod sint b\<bar> < ?N" .
  then show "- ?N \<le> sint a smod sint b" "sint a smod sint b < ?N" by linarith+
qed


text \<open>What a division and a remainder of one width promise, unsigned and signed.\<close>

definition division_spec ::
    "'a::len word \<Rightarrow> 'a word \<Rightarrow> (InstructionExecutionError, 'a word) result \<Rightarrow>
     (InstructionExecutionError, 'a word) result \<Rightarrow> (InstructionExecutionError, 'a word) result \<Rightarrow>
     (InstructionExecutionError, 'a word) result \<Rightarrow> bool" where
  "division_spec a b du ru ds rs \<longleftrightarrow>
     (if b = 0
      then du = Err (Division (uint a) 0) \<and> ru = Err (Remainder (uint a) 0) \<and>
           ds = Err (Division (sint a) 0) \<and> rs = Err (Remainder (sint a) 0)
      else (\<exists>q r. du = Ok q \<and> ru = Ok r \<and> uint q = uint a div uint b \<and> uint r = uint a mod uint b) \<and>
           (\<exists>r. rs = Ok r \<and> sint r = sint a smod sint b) \<and>
           (if sint a = - (2 ^ (LENGTH('a) - 1)) \<and> sint b = - 1
            then ds = Err (Division (sint a) (- 1))
            else \<exists>q. ds = Ok q \<and> sint q = sint a sdiv sint b))"

lemma division_meets_spec:
  fixes a b :: "'a::len word"
  shows "division_spec a b (ok_or (checked_div_u a b) (Division (uint a) (uint b)))
    (ok_or (checked_rem_u a b) (Remainder (uint a) (uint b)))
    (ok_or (checked_div_s a b) (Division (sint a) (sint b)))
    (if b = 0 then Err (Remainder (sint a) (sint b)) else Ok (wrapping_rem_s a b))"
  by (auto simp: division_spec_def checked_div_u_def checked_rem_u_def checked_div_s_def
      wrapping_rem_s_def ok_or_def uint_div uint_mod sdiv_fits smod_fits)

text \<open>C35: integer division and remainder, at both widths, unsigned and signed, are the
  mathematical ones and trap exactly when these do not exist or do not fit: both trap on a zero
  divisor, with the dividend in the error, the signed division also on the most negative number
  by -1, whose remainder is 0. Signed division truncates toward zero, and the remainder has the
  sign of the dividend.\<close>

theorem integer_division:
  "division_spec a b (i32_arith I32DivU a b) (i32_arith I32RemU a b) (i32_arith I32DivS a b)
     (i32_arith I32RemS a b) \<and>
   division_spec c d (i64_arith I64DivU c d) (i64_arith I64RemU c d) (i64_arith I64DivS c d)
     (i64_arith I64RemS c d)"
  using division_meets_spec [of a b] division_meets_spec [of c d] by simp

section \<open>Counting bits\<close>

lemma bitlen_bounds: "n < 2 ^ bitlen n \<and> (n \<noteq> 0 \<longrightarrow> 2 ^ (bitlen n - 1) \<le> n)"
proof (induction n rule: bitlen.induct)
  case (1 n)
  show ?case
  proof (cases "n = 0")
    case False
    then have IH: "n div 2 < 2 ^ bitlen (n div 2)" "n div 2 \<noteq> 0 \<Longrightarrow> 2 ^ (bitlen (n div 2) - 1) \<le> n div 2"
      using 1 by auto
    have len: "bitlen n = Suc (bitlen (n div 2))" using False by (simp add: bitlen.simps)
    show ?thesis
    proof (cases "n div 2 = 0")
      case True
      with False have "n = 1" by linarith
      then show ?thesis by (simp add: bitlen.simps)
    next
      case False
      from IH(2) [OF this] have "2 * 2 ^ (bitlen (n div 2) - 1) \<le> n" by linarith
      moreover have "0 < bitlen (n div 2)" using False by (subst bitlen.simps) simp
      then have "2 * 2 ^ (bitlen (n div 2) - 1) = (2 :: nat) ^ bitlen (n div 2)"
        by (simp flip: power_Suc)
      ultimately show ?thesis using IH(1) by (simp add: len)
    qed
  qed (simp add: bitlen.simps)
qed

lemma ones_below_card: "ones_below k x = card {i. i < k \<and> bit x i}"
proof (induction k arbitrary: x)
  case (Suc k)
  have "{i. i < Suc k \<and> bit x i} = (if odd x then {0} else {}) \<union> Suc ` {i. i < k \<and> bit (x div 2) i}"
    by (auto simp: bit_Suc image_iff bit_0 elim: less_SucE) (metis Suc_less_eq bit_Suc not0_implies_Suc bit_0)+
  then show ?case
    by (simp add: Suc.IH card_image odd_iff_mod_2_eq_one card_insert_if)
qed simp

lemma zeros_below_spec:
  "zeros_below k x \<le> k \<and> (\<forall>i < zeros_below k x. \<not> bit x i) \<and>
   (zeros_below k x < k \<longrightarrow> bit x (zeros_below k x))"
proof (induction k arbitrary: x)
  case (Suc k)
  show ?case
    using Suc.IH [of "x div 2"] by (auto simp: bit_0 bit_Suc less_Suc_eq_0_disj)
qed simp

lemma bit_unat: "bit (unat (w :: 'a::len word)) i \<longleftrightarrow> bit w i"
  by (simp add: bit_unsigned_iff possible_bit_def)

definition counts_spec :: "'a::len word \<Rightarrow> nat \<Rightarrow> nat \<Rightarrow> nat \<Rightarrow> bool" where
  "counts_spec w l t p \<longleftrightarrow>
     l \<le> LENGTH('a) \<and> (\<forall>i < LENGTH('a). LENGTH('a) - l \<le> i \<longrightarrow> \<not> bit w i) \<and>
     (l < LENGTH('a) \<longrightarrow> bit w (LENGTH('a) - 1 - l)) \<and>
     t \<le> LENGTH('a) \<and> (\<forall>i < t. \<not> bit w i) \<and> (t < LENGTH('a) \<longrightarrow> bit w t) \<and>
     p = card {i. bit w i}"

lemma bitlen_le: "n < 2 ^ k \<Longrightarrow> bitlen n \<le> k"
proof (cases "n = 0")
  case False
  assume n: "n < 2 ^ k"
  from False have "2 ^ (bitlen n - 1) \<le> n" using bitlen_bounds [of n] by simp
  with n have "(2 :: nat) ^ (bitlen n - 1) < 2 ^ k" by linarith
  then have "bitlen n - 1 < k" by simp
  then show ?thesis by linarith
qed (simp add: bitlen.simps)

lemma bit_top:
  assumes "2 ^ k \<le> n" "n < 2 ^ Suc k"
  shows "bit (n :: nat) k"
proof -
  from assms have "n div 2 ^ k = 1" by (simp add: div_nat_eqI)
  then show ?thesis by (simp add: bit_iff_odd)
qed

lemma counts_meet_spec:
  "counts_spec w (leading_zeros w) (trailing_zeros w) (count_ones (w :: 'a::len word))"
proof -
  let ?n = "unat w" and ?L = "LENGTH('a)"
  have n: "?n < 2 ^ ?L" by (rule unsigned_less)
  then have len: "bitlen ?n \<le> ?L" by (rule bitlen_le)
  have "\<not> bit w i" if "bitlen ?n \<le> i" for i
  proof -
    have "?n < 2 ^ bitlen ?n" using bitlen_bounds by blast
    also have "(2 :: nat) ^ bitlen ?n \<le> 2 ^ i" using that by simp
    finally have "\<not> bit ?n i" by (simp add: bit_iff_odd)
    then show ?thesis by (simp add: bit_unat)
  qed
  moreover have "bit w (bitlen ?n - 1)" if "0 < bitlen ?n"
  proof -
    have "?n \<noteq> 0"
    proof
      assume "?n = 0"
      with that show False by (simp add: bitlen.simps)
    qed
    then have "2 ^ (bitlen ?n - 1) \<le> ?n" "?n < 2 ^ Suc (bitlen ?n - 1)"
      using bitlen_bounds [of ?n] that by simp_all
    then have "bit ?n (bitlen ?n - 1)" by (rule bit_top)
    then show ?thesis by (simp add: bit_unat)
  qed
  moreover have "{i. i < ?L \<and> bit ?n i} = {i. bit w i}"
    using bit_imp_le_length [of w] by (auto simp: bit_unat)
  ultimately show ?thesis
    using len zeros_below_spec [of ?L ?n] ones_below_card [of ?L ?n]
    by (auto simp: counts_spec_def leading_zeros_def trailing_zeros_def count_ones_def bit_unat)
qed

text \<open>C38: \<open>clz\<close>, \<open>ctz\<close> and \<open>popcnt\<close> count what they name, at both widths: no bit is set in
  the counted run of zeros and the bit that ends it is set, a zero operand has the full width,
  and the population count is the number of set bits.\<close>

theorem bit_counts:
  "(\<exists>l t p. counts_spec (as_i32 v) l t p \<and> i32_unary fe I32Clz v = Ok (from_i32 (of_nat l)) \<and>
      i32_unary fe I32Ctz v = Ok (from_i32 (of_nat t)) \<and>
      i32_unary fe I32Popcnt v = Ok (from_i32 (of_nat p))) \<and>
   (\<exists>l t p. counts_spec (as_i64 v) l t p \<and> i64_unary fe I64Clz v = Ok (from_i64 (of_nat l)) \<and>
      i64_unary fe I64Ctz v = Ok (from_i64 (of_nat t)) \<and>
      i64_unary fe I64Popcnt v = Ok (from_i64 (of_nat p)))"
  using counts_meet_spec [of "as_i32 v"] counts_meet_spec [of "as_i64 v"] by auto

section \<open>Shifts and rotations\<close>

text \<open>Shifting \<open>a\<close> by \<open>n\<close>, bit by bit: left, right with zeroes, right with the sign, and the two
  rotations.\<close>

definition shifts_spec ::
    "'a::len word \<Rightarrow> nat \<Rightarrow> 'a word \<Rightarrow> 'a word \<Rightarrow> 'a word \<Rightarrow> 'a word \<Rightarrow> 'a word \<Rightarrow> bool" where
  "shifts_spec a n l u s rl rr \<longleftrightarrow> (\<forall>i < LENGTH('a).
     (bit l i \<longleftrightarrow> n \<le> i \<and> bit a (i - n)) \<and> (bit u i \<longleftrightarrow> i + n < LENGTH('a) \<and> bit a (i + n)) \<and>
     (bit s i \<longleftrightarrow> bit a (min (i + n) (LENGTH('a) - 1))) \<and>
     (bit rl i \<longleftrightarrow> bit a ((i + LENGTH('a) - n) mod LENGTH('a))) \<and>
     (bit rr i \<longleftrightarrow> bit a ((i + n) mod LENGTH('a))))"

lemma shifts_meet_spec:
  fixes a :: "'a::len word" and b :: u32
  assumes n: "n = unat b mod LENGTH('a)"
  shows "shifts_spec a n (wrapping_shl a b) (wrapping_shr_u a b) (wrapping_shr_s a b)
    (word_rotl (unat b) a) (word_rotr (unat b) a)"
proof -
  let ?L = "LENGTH('a)"
  have "n < ?L" by (simp add: n)
  have rr: "(i + unat b) mod ?L = (i + n) mod ?L" for i
    by (simp add: n mod_add_right_eq)
  have s: "(if ?L - n \<le> i \<and> i < ?L then ?L - 1 else n + i) = min (i + n) (?L - 1)" if "i < ?L" for i
    using that by (auto simp: min_def)
  have "\<not> bit a j" if "?L \<le> j" for j using that bit_imp_le_length [of a j] by auto
  with \<open>n < ?L\<close> show ?thesis
    by (auto simp: shifts_spec_def wrapping_shl_def wrapping_shr_u_def wrapping_shr_s_def
        bit_push_bit_iff bit_drop_bit_eq bit_signed_drop_bit_iff bit_word_rotl_iff bit_word_rotr_iff
        rr s ac_simps simp flip: n)
qed

lemma low_count: "unat (ucast (b :: u64) :: u32) mod 64 = unat b mod 64"
proof -
  have "unat (ucast b :: u32) = unat b mod 2 ^ 32" by (simp add: unsigned_ucast_eq unsigned_take_bit_eq take_bit_eq_mod)
  moreover have "unat b mod 2 ^ 32 mod 64 = unat b mod 64"
    by (rule mod_mod_cancel) (simp add: dvd_def exI [of _ "2 ^ 26"])
  ultimately show ?thesis by simp
qed

text \<open>C39: shifts and rotations, at both widths and bit by bit: the count is taken modulo the
  width, also for the 64-bit operators, which narrow it to 32 bits first; a right shift fills
  with zeroes or with the sign bit; and a rotation loses no bit.\<close>

theorem shifts_and_rotations:
  "(\<exists>l u s rl rr. shifts_spec a (unat b mod 32) l u s rl rr \<and>
      i32_arith I32Shl a b = Ok l \<and> i32_arith I32ShrU a b = Ok u \<and> i32_arith I32ShrS a b = Ok s \<and>
      i32_arith I32Rotl a b = Ok rl \<and> i32_arith I32Rotr a b = Ok rr) \<and>
   (\<exists>l u s rl rr. shifts_spec c (unat d mod 64) l u s rl rr \<and>
      i64_arith I64Shl c d = Ok l \<and> i64_arith I64ShrU c d = Ok u \<and> i64_arith I64ShrS c d = Ok s \<and>
      i64_arith I64Rotl c d = Ok rl \<and> i64_arith I64Rotr c d = Ok rr)"
  using shifts_meet_spec [of "unat b mod 32" b a] shifts_meet_spec [of "unat d mod 64" "ucast d" c]
  by (auto simp: low_count)

end
