(* ===== verification/FloatFacts.thy ===== *)
theory FloatFacts
  imports Complex_Main NumericProperties
begin

text \<open>
  The float operators against rational arithmetic: the value of a bit pattern, comparison as the
  order of values, and exactness of a rounding whose operand is representable.
\<close>

section \<open>Values\<close>

fun fvalue :: "fval \<Rightarrow> rat option" where
  "fvalue (FFin s m q) = Some (of_int (signed s m) * 2 powi q)"
| "fvalue _ = None"

definition magnitude :: "nat \<Rightarrow> int \<Rightarrow> rat" where
  "magnitude m q = of_nat m * 2 powi q"

lemma fvalue_magnitude: "fvalue (FFin s m q) = Some (if s then - magnitude m q else magnitude m q)"
  by (simp add: magnitude_def signed_def)

lemma powi_split: "e \<le> q \<Longrightarrow> (2 :: rat) powi q = 2 ^ nat (q - e) * 2 powi e"
  by (simp add: power_int_add [symmetric] flip: power_int_of_nat)

lemma scaled_value:
  "e \<le> q \<Longrightarrow> of_int (signed s m) * 2 powi q = of_int (scaled (FFin s m q) e) * (2 powi e :: rat)"
  by (simp add: scaled_def powi_split [of e q])

lemma compare_scaled:
  fixes x y :: int
  shows "of_int x * (2 powi e :: rat) < of_int y * 2 powi e \<longleftrightarrow> x < y"
    and "of_int x * (2 powi e :: rat) = of_int y * 2 powi e \<longleftrightarrow> x = y"
  by simp_all

lemma compare_values:
  assumes "fvalue x = Some a" "fvalue y = Some b"
  shows "lt_fval x y \<longleftrightarrow> a < b" and "eq_fval x y \<longleftrightarrow> a = b" and "le_fval x y \<longleftrightarrow> a \<le> b"
proof -
  from assms obtain s m p where x: "x = FFin s m p" "a = of_int (signed s m) * 2 powi p"
    by (cases x) auto
  from assms obtain t n q where y: "y = FFin t n q" "b = of_int (signed t n) * 2 powi q"
    by (cases y) auto
  let ?e = "min p q"
  have a: "a = of_int (scaled (FFin s m p) ?e) * 2 powi ?e"
    and b: "b = of_int (scaled (FFin t n q) ?e) * 2 powi ?e"
    by (simp_all add: x y scaled_value)
  show lt: "lt_fval x y \<longleftrightarrow> a < b"
    unfolding a b compare_scaled by (simp add: x y Let_def)
  show eq: "eq_fval x y \<longleftrightarrow> a = b"
    unfolding a b compare_scaled by (simp add: x y Let_def)
  show "le_fval x y \<longleftrightarrow> a \<le> b"
    using lt eq by (auto simp: le_fval_def)
qed

section \<open>Rounding\<close>

lemma bitlen_pos: "m \<noteq> 0 \<Longrightarrow> 0 < bitlen m"
  by (subst bitlen.simps) simp

lemma bitlen_unique: "2 ^ k \<le> m \<Longrightarrow> m < 2 ^ Suc k \<Longrightarrow> bitlen m = Suc k"
proof -
  assume m: "2 ^ k \<le> m" "m < 2 ^ Suc k"
  then have "bitlen m \<le> Suc k" by (intro bitlen_le)
  moreover have "k < bitlen m"
  proof -
    have "m < 2 ^ bitlen m" using bitlen_bounds by blast
    with m(1) have "(2 :: nat) ^ k < 2 ^ bitlen m" by linarith
    then show ?thesis by simp
  qed
  ultimately show ?thesis by linarith
qed

lemma bitlen_scale: "m \<noteq> 0 \<Longrightarrow> bitlen (m * 2 ^ k) = bitlen m + k"
proof -
  assume m: "m \<noteq> 0"
  from bitlen_pos [OF m] obtain j where j: "bitlen m = Suc j" by (cases "bitlen m") auto
  with bitlen_bounds [of m] m have "2 ^ j \<le> m" "m < 2 ^ Suc j" by simp_all
  then have "2 ^ (j + k) \<le> m * 2 ^ k" "m * 2 ^ k < 2 ^ Suc (j + k)"
    by (simp_all add: power_add)
  then have "bitlen (m * 2 ^ k) = Suc (j + k)" by (rule bitlen_unique)
  with j show ?thesis by simp
qed

definition fmt_ok :: "fmt \<Rightarrow> bool" where
  "fmt_ok F \<longleftrightarrow> 0 < mbits F \<and> 2 \<le> ebits F"

lemma fmts_ok [simp]: "fmt_ok F32_fmt" "fmt_ok F64_fmt"
  by (simp_all add: fmt_ok_def F32_fmt_def F64_fmt_def)

text \<open>The exponent a significand is rounded at.\<close>

definition round_exp :: "fmt \<Rightarrow> nat \<Rightarrow> int \<Rightarrow> int" where
  "round_exp F m e = max (int (bitlen m) + e - int (mbits F + 1)) (qmin F)"

definition emax :: "fmt \<Rightarrow> int" where
  "emax F = 2 ^ (ebits F - 1)"

lemma inf_below_sign: "inf_mag F < sign_weight F"
proof -
  have "(2 ^ ebits F - 1) * 2 ^ mbits F < (2 :: nat) ^ ebits F * 2 ^ mbits F"
    by (rule mult_strict_right_mono) simp_all
  then show ?thesis by (simp add: inf_mag_def sign_weight_def power_add mult.commute)
qed

text \<open>What packing a significand in range and unpacking it gives.\<close>

lemma decode_packed:
  assumes F: "fmt_ok F" and q: "qmin F \<le> q" and sig: "sig < 2 ^ (mbits F + 1)"
    and normal: "qmin F < q \<Longrightarrow> 2 ^ mbits F \<le> sig" and fits: "q + int (mbits F) < emax F"
  shows "nat (q - qmin F) * 2 ^ mbits F + sig < inf_mag F"
    and "decode F (with_sign F s (nat (q - qmin F) * 2 ^ mbits F + sig)) = FFin s sig q"
proof -
  let ?M = "2 ^ mbits F :: nat" and ?k = "nat (q - qmin F)"
  define mag where "mag = ?k * ?M + sig"
  have eb: "(2 :: int) ^ ebits F = 2 * 2 ^ (ebits F - 1)" "(4 :: nat) \<le> 2 ^ ebits F"
    using F power_increasing [of 2 "ebits F" "2 :: nat"]
    by (auto simp: fmt_ok_def simp flip: power_Suc)
  have k2: "int ?k + 2 < 2 ^ ebits F"
    using fits q eb(1) by (simp add: emax_def qmin_def)
  then have "int (?k + 3) \<le> int (2 ^ ebits F)" by simp
  then have k: "?k + 3 \<le> 2 ^ ebits F" by (simp only: of_nat_le_iff)
  have M: "0 < ?M" by simp
  have "mag < (?k + 2) * ?M" using sig by (simp add: mag_def)
  also have "\<dots> \<le> inf_mag F" unfolding inf_mag_def by (rule mult_right_mono) (use k in linarith)+
  finally show lt: "?k * ?M + sig < inf_mag F" by (simp add: mag_def)
  from inf_below_sign [of F] lt have mag: "mag < sign_weight F" "mag < inf_mag F" by (simp_all add: mag_def)
  have sgn: "(sign_weight F \<le> with_sign F s mag) = s" "with_sign F s mag mod sign_weight F = mag"
    using mag by (simp_all add: with_sign_def)
  show "decode F (with_sign F s (?k * ?M + sig)) = FFin s sig q"
  proof (cases "sig < ?M")
    case True
    with normal q have "q = qmin F" by linarith
    with True have "mag div ?M = 0" "mag mod ?M = sig" "mag = sig" by (simp_all add: mag_def)
    with sgn mag \<open>q = qmin F\<close> show ?thesis
      unfolding mag_def [symmetric] by (simp add: decode_def Let_def)
  next
    case False
    then have "mag = (?k + 1) * ?M + (sig - ?M)" by (simp add: mag_def)
    moreover have "sig - ?M < ?M" using sig False by simp
    moreover have "(a * b + r) div b = a \<and> (a * b + r) mod b = r" if "r < b" for a b r :: nat
      using that by simp
    ultimately have "mag div ?M = ?k + 1" "mag mod ?M = sig - ?M" by metis+
    with sgn mag False q show ?thesis
      unfolding mag_def [symmetric] by (simp add: decode_def Let_def)
  qed
qed

text \<open>A significand that is a multiple of the unit it is rounded to is not changed.\<close>

lemma round_significand_exact:
  assumes "2 ^ sh dvd m"
  shows "round_significand m sh False = m div 2 ^ sh"
  using assms by (simp add: round_significand_def Let_def dvd_eq_mod_eq_0)

lemma round_exact:
  assumes F: "fmt_ok F" and M: "M \<noteq> 0" "bitlen M \<le> mbits F + 1" and m: "m = M * 2 ^ k"
    and low: "qmin F \<le> e + int k" and high: "int (bitlen m) + e \<le> emax F"
  shows "\<exists>sig q. decode F (round_to F s m e False) = FFin s sig q \<and>
     magnitude sig q = magnitude m e \<and> sig \<noteq> 0 \<and> round_to F s m e False < 2 * sign_weight F"
proof -
  let ?q = "round_exp F m e"
  have m0: "m \<noteq> 0" using M m by simp
  have len: "bitlen m = bitlen M + k" using M(1) by (simp add: m bitlen_scale)
  have q: "qmin F \<le> ?q" "?q \<le> e + int k"
    using low M(2) by (auto simp: round_exp_def len)
  define sig where "sig = (if ?q \<le> e then m * 2 ^ nat (e - ?q) else round_significand m (nat (?q - e)) False)"
  have "nat (?q - e) \<le> k" using q by linarith
  then have "(2 :: nat) ^ nat (?q - e) dvd 2 ^ k" by (rule le_imp_power_dvd)
  then have dvd: "2 ^ nat (?q - e) dvd m" by (simp add: m)
  have exact: "magnitude sig ?q = magnitude m e"
  proof (cases "?q \<le> e")
    case True
    then have "(2 :: rat) powi e = 2 ^ nat (e - ?q) * 2 powi ?q" by (rule powi_split)
    with True show ?thesis by (simp add: magnitude_def sig_def)
  next
    case False
    then have "(2 :: rat) powi ?q = 2 ^ nat (?q - e) * 2 powi e" by (intro powi_split) simp
    moreover have "sig = m div 2 ^ nat (?q - e)"
      using False round_significand_exact [OF dvd] by (simp add: sig_def)
    then have "sig * 2 ^ nat (?q - e) = m" using dvd by simp
    then have "(of_nat sig * 2 ^ nat (?q - e) :: rat) = of_nat m"
      by (metis of_nat_mult of_nat_numeral of_nat_power)
    ultimately show ?thesis by (simp add: magnitude_def mult.assoc [symmetric])
  qed
  have sig_len: "int (bitlen sig) = int (bitlen m) + e - ?q" and sig0: "sig \<noteq> 0"
  proof -
    show "sig \<noteq> 0"
    proof
      assume "sig = 0"
      with exact have "rat_of_nat m * 2 powi e = 0" by (simp add: magnitude_def)
      with m0 show False by simp
    qed
    show "int (bitlen sig) = int (bitlen m) + e - ?q"
    proof (cases "?q \<le> e")
      case True
      then show ?thesis using m0 by (simp add: sig_def bitlen_scale)
    next
      case False
      have "sig * 2 ^ nat (?q - e) = m"
        using False round_significand_exact [OF dvd] dvd by (simp add: sig_def)
      then have "bitlen m = bitlen sig + nat (?q - e)"
        using bitlen_scale [OF \<open>sig \<noteq> 0\<close>, of "nat (?q - e)"] by simp
      with False show ?thesis by simp
    qed
  qed
  then have le: "bitlen sig \<le> mbits F + 1" by (auto simp: round_exp_def)
  have "sig < 2 ^ bitlen sig" using bitlen_bounds by blast
  also have "(2 :: nat) ^ bitlen sig \<le> 2 ^ (mbits F + 1)" using le by (rule power_increasing) simp
  finally have sig_lt: "sig < 2 ^ (mbits F + 1)" .
  have normal: "2 ^ mbits F \<le> sig" if "qmin F < ?q"
  proof -
    from that sig_len have "bitlen sig = mbits F + 1" by (auto simp: round_exp_def max_def split: if_splits)
    with bitlen_bounds [of sig] sig0 show ?thesis by simp
  qed
  have fits: "?q + int (mbits F) < emax F"
  proof (cases "qmin F < ?q")
    case True
    then show ?thesis using high by (auto simp: round_exp_def max_def split: if_splits)
  next
    case False
    moreover have "(2 :: int) ^ 1 \<le> 2 ^ (ebits F - 1)"
      using F by (intro power_increasing) (auto simp: fmt_ok_def)
    ultimately show ?thesis using q(1) by (auto simp: emax_def qmin_def)
  qed
  note packed = decode_packed [OF F q(1) sig_lt normal fits]
  have "round_to F s m e False =
      with_sign F s (min (nat (?q - qmin F) * 2 ^ mbits F + sig) (inf_mag F))"
    unfolding round_to_def Let_def round_exp_def [symmetric] sig_def by (simp only: m0 if_False)
  also have "\<dots> = with_sign F s (nat (?q - qmin F) * 2 ^ mbits F + sig)"
    using packed(1) by simp
  finally have "round_to F s m e False = with_sign F s (nat (?q - qmin F) * 2 ^ mbits F + sig)" .
  then show ?thesis
    using packed exact sig0 inf_below_sign [of F] by (auto simp: with_sign_def)
qed

text \<open>A decoded finite value is in range.\<close>

lemma decode_finite:
  assumes F: "fmt_ok F" and d: "decode F b = FFin s m q"
  shows "m < 2 ^ (mbits F + 1)" "qmin F \<le> q" "q + int (mbits F) < emax F"
proof -
  let ?M = "2 ^ mbits F :: nat"
  define mag where "mag = b mod sign_weight F"
  define e where "e = mag div ?M"
  from d have mag: "mag < inf_mag F"
    by (auto simp: decode_def Let_def mag_def split: if_splits)
  then have "mag < (2 ^ ebits F - 1) * ?M" by (simp add: inf_mag_def)
  then have e: "e < 2 ^ ebits F - 1"
    unfolding e_def by (simp add: less_mult_imp_div_less)
  have mod: "mag mod ?M < ?M" by simp
  then have "mag mod ?M < 2 * ?M" by (rule order_less_le_trans) simp
  from d have "(e = 0 \<and> m = mag mod ?M \<and> q = qmin F) \<or>
      (e \<noteq> 0 \<and> m = mag mod ?M + ?M \<and> q = qmin F + int e - 1)"
    by (auto simp: decode_def Let_def mag_def e_def split: if_splits)
  with mod \<open>mag mod ?M < 2 * ?M\<close> show "m < 2 ^ (mbits F + 1)" "qmin F \<le> q" by auto
  have "int e + 1 < 2 ^ ebits F"
  proof -
    from e have "e + 1 < 2 ^ ebits F" by linarith
    then have "int (e + 1) < int (2 ^ ebits F)" by (simp only: of_nat_less_iff)
    then show ?thesis by simp
  qed
  moreover have "(2 :: int) ^ ebits F = 2 * 2 ^ (ebits F - 1)"
    using F by (auto simp: fmt_ok_def simp flip: power_Suc)
  moreover have "(2 :: int) ^ 1 \<le> 2 ^ (ebits F - 1)"
    using F by (intro power_increasing) (auto simp: fmt_ok_def)
  moreover have "q \<le> qmin F \<or> q = qmin F + int e - 1"
    using d by (auto simp: decode_def Let_def mag_def e_def split: if_splits)
  ultimately show "q + int (mbits F) < emax F"
    by (auto simp: emax_def qmin_def)
qed

end
