(* ===== verification/FloatProperties.thy ===== *)
theory FloatProperties
  imports FloatFacts
begin

text \<open>
  Conversions between floats and integers, and \<open>min\<close>, \<open>max\<close> and the sign operators, against the
  rational values of floats.
\<close>

unbundle bit_operations_syntax

section \<open>What Rust promises of a NaN\<close>

definition float_env_ok :: "float_env \<Rightarrow> bool" where
  "float_env_ok fe \<longleftrightarrow> d32 (fe_NAN32 fe) = FNan \<and> d64 (fe_NAN64 fe) = FNan \<and>
     (\<forall>xs. d32 (fe_nan32 fe xs) = FNan) \<and> (\<forall>xs. d64 (fe_nan64 fe xs) = FNan) \<and>
     (\<forall>x. d32 (fe_demote_nan fe x) = FNan) \<and> (\<forall>x. d64 (fe_promote_nan fe x) = FNan)"

definition canonical_nans :: float_env where
  "canonical_nans = \<lparr>fe_NAN32 = 0x7FC00000, fe_NAN64 = 0x7FF8000000000000,
     fe_nan32 = (\<lambda>_. 0x7FC00000), fe_nan64 = (\<lambda>_. 0x7FF8000000000000),
     fe_demote_nan = (\<lambda>_. 0x7FC00000), fe_promote_nan = (\<lambda>_. 0x7FF8000000000000)\<rparr>"

lemma canonical_nans_ok: "float_env_ok canonical_nans"
  by (simp add: float_env_ok_def canonical_nans_def d32_def d64_def float_eval)

section \<open>Truncation\<close>

definition toward_zero :: "rat \<Rightarrow> int" where
  "toward_zero x = (if x < 0 then \<lceil>x\<rceil> else \<lfloor>x\<rfloor>)"

lemma toward_zero_bounds:
  "toward_zero x < n \<longleftrightarrow> (if 0 < n then x < of_int n else x \<le> of_int n - 1)"
  "n \<le> toward_zero x \<longleftrightarrow> (if n \<le> 0 then of_int n - 1 < x else of_int n \<le> x)"
proof -
  show "toward_zero x < n \<longleftrightarrow> (if 0 < n then x < of_int n else x \<le> of_int n - 1)"
    unfolding toward_zero_def by (auto simp: floor_less_iff not_less; linarith)
  show "n \<le> toward_zero x \<longleftrightarrow> (if n \<le> 0 then of_int n - 1 < x else of_int n \<le> x)"
    unfolding toward_zero_def by (auto simp: le_floor_iff not_less; linarith)
qed

lemma integral_floor: "int (integral_magnitude TowardZero s m q) = \<lfloor>magnitude m q\<rfloor>"
proof (cases "0 \<le> q")
  case True
  then have mag: "magnitude m q = of_nat (m * 2 ^ nat q)"
    by (simp add: magnitude_def power_int_def)
  have "integral_magnitude TowardZero s m q = m * 2 ^ nat q"
    using True by (simp add: integral_magnitude_def)
  then show ?thesis unfolding mag floor_of_nat by (simp only:)
next
  case False
  then have mag: "magnitude m q = of_nat m / of_nat (2 ^ nat (- q))"
    by (simp add: magnitude_def power_int_def power_one_over inverse_eq_divide)
  have "integral_magnitude TowardZero s m q = m div 2 ^ nat (- q)"
    using False by (simp add: integral_magnitude_def round_away_def Let_def)
  then show ?thesis unfolding mag floor_divide_of_nat_eq by (simp only:)
qed

lemma truncated_value:
  assumes "fvalue (FFin s m q) = Some x"
  shows "signed s (integral_magnitude TowardZero s m q) = toward_zero x"
proof -
  have mag: "0 \<le> magnitude m q" by (simp add: magnitude_def)
  from assms have x: "x = (if s then - magnitude m q else magnitude m q)"
    by (simp add: fvalue_magnitude del: fvalue.simps)
  show ?thesis
  proof (cases "magnitude m q = 0")
    case True
    with x integral_floor [of s m q] show ?thesis by (simp add: signed_def toward_zero_def)
  next
    case False
    with mag x show ?thesis
      by (simp add: signed_def toward_zero_def integral_floor ceiling_minus)
  qed
qed

lemma d64_of_nat: "b < 2 * sign_weight F64_fmt \<Longrightarrow> d64 (of_nat b) = decode F64_fmt b"
  by (simp add: d64_def unsigned_of_nat take_bit_nat_eq_self F64_fmt_def sign_weight_def)

lemma d32_of_nat: "b < 2 * sign_weight F32_fmt \<Longrightarrow> d32 (of_nat b) = decode F32_fmt b"
  by (simp add: d32_def unsigned_of_nat take_bit_nat_eq_self F32_fmt_def sign_weight_def)

lemma inf_pos: "fmt_ok F \<Longrightarrow> 0 < inf_mag F"
  using power_increasing [of 2 "ebits F" "2 :: nat"] by (simp add: inf_mag_def fmt_ok_def)

lemma bitlen_0 [simp]: "bitlen 0 = 0"
  by (subst bitlen.simps) simp

lemma decode_zero: "fmt_ok F \<Longrightarrow> decode F (with_sign F s 0) = FFin s 0 (qmin F)"
  using inf_below_sign [of F] inf_pos [of F]
  by (auto simp: decode_def with_sign_def Let_def)

lemma with_sign_0_bound: "with_sign F s 0 < 2 * sign_weight F"
  by (simp add: with_sign_def sign_weight_def)

lemma d64_finite:
  assumes "d64 w = FFin s m q"
  shows "bitlen m \<le> 53" "- 1074 \<le> q" "q + 52 < 1024"
proof -
  have "m < 2 ^ 53" "- 1074 \<le> q" "q + 52 < 1024"
    using decode_finite [of F64_fmt "unat w" s m q] assms
    by (simp_all add: d64_def F64_fmt_def qmin_def emax_def fmt_ok_def)
  then show "bitlen m \<le> 53" "- 1074 \<le> q" "q + 52 < 1024" by (simp_all add: bitlen_le)
qed

lemma d32_finite:
  assumes "d32 w = FFin s m q"
  shows "bitlen m \<le> 24" "- 149 \<le> q" "q + 23 < 128"
proof -
  have "m < 2 ^ 24" "- 149 \<le> q" "q + 23 < 128"
    using decode_finite [of F32_fmt "unat w" s m q] assms
    by (simp_all add: d32_def F32_fmt_def qmin_def emax_def fmt_ok_def)
  then show "bitlen m \<le> 24" "- 149 \<le> q" "q + 23 < 128" by (simp_all add: bitlen_le)
qed

text \<open>Rounding a representable number to \<open>f64\<close>.\<close>

lemma round64_exact:
  assumes "m = M * 2 ^ k" "bitlen M \<le> 53" "- 1074 \<le> e + int k" "int (bitlen m) + e \<le> 1024"
  shows "fvalue (d64 (of_nat (round_to F64_fmt s m e False))) = fvalue (FFin s m e)"
proof (cases "m = 0")
  case True
  then show ?thesis
    using d64_of_nat [OF with_sign_0_bound] decode_zero [of F64_fmt s]
    by (simp add: round_to_def signed_def)
next
  case False
  have "\<exists>sig q. decode F64_fmt (round_to F64_fmt s m e False) = FFin s sig q \<and>
     magnitude sig q = magnitude m e \<and> sig \<noteq> 0 \<and> round_to F64_fmt s m e False < 2 * sign_weight F64_fmt"
    by (rule round_exact [OF fmts_ok(2) _ _ assms(1)])
      (use assms False in \<open>auto simp: F64_fmt_def qmin_def emax_def\<close>)
  then show ?thesis by (auto simp: d64_of_nat fvalue_magnitude simp del: fvalue.simps)
qed

lemma f64_trunc_value:
  assumes d: "d64 w = FFin s m q" and x: "fvalue (FFin s m q) = Some x"
  shows "fvalue (d64 (f64_trunc fe w)) = Some (of_int (toward_zero x))"
proof -
  note fin = d64_finite [OF d]
  let ?i = "integral_magnitude TowardZero s m q"
  have "fvalue (d64 (of_nat (round_to F64_fmt s ?i 0 False))) = fvalue (FFin s ?i 0)"
  proof (cases "0 \<le> q")
    case True
    then have i: "?i = m * 2 ^ nat q" by (simp add: integral_magnitude_def)
    show ?thesis
    proof (rule round64_exact [OF i fin(1)])
      show "int (bitlen ?i) + 0 \<le> 1024"
        unfolding i using fin True by (cases "m = 0") (auto simp: bitlen_scale)
    qed (use True in simp)
  next
    case False
    then have "?i \<le> m"
      by (simp add: integral_magnitude_def round_away_def Let_def)
    also have "m < 2 ^ 53"
    proof -
      have "m < 2 ^ bitlen m" using bitlen_bounds by blast
      also have "(2 :: nat) ^ bitlen m \<le> 2 ^ 53" using fin(1) by (rule power_increasing) simp
      finally show ?thesis .
    qed
    finally have "bitlen ?i \<le> 53" by (rule bitlen_le)
    then show ?thesis by (intro round64_exact [where k = 0]) auto
  qed
  also have "\<dots> = Some (of_int (toward_zero x))"
    using truncated_value [OF x] by simp
  finally show ?thesis by (simp add: f64_trunc_def d or_nan_def)
qed

lemma promote_value:
  assumes "float_env_ok fe"
  shows "fvalue (d64 (promote fe a)) = fvalue (d32 a)"
proof (cases "d32 a")
  case FNan
  with assms show ?thesis by (simp add: promote_def or_nan_def float_env_ok_def)
next
  case (FInf t)
  have "d64 (of_nat (pack_inf F64_fmt t)) = FInf t"
    by (cases t) (simp_all add: d64_def float_eval unsigned_of_nat take_bit_eq_mod)
  with FInf show ?thesis by (simp add: promote_def or_nan_def)
next
  case (FFin s m q)
  note fin = d32_finite [OF FFin]
  have "fvalue (d64 (of_nat (round_to F64_fmt s m q False))) = fvalue (FFin s m q)"
    by (rule round64_exact [where k = 0]) (use fin in auto)
  with FFin show ?thesis by (simp add: promote_def or_nan_def)
qed

lemma trunc_bounds:
  "fvalue (d64 0) = Some 0" "fvalue (d64 I32_TRUNC_LOW) = Some (- (2 ^ 31))"
  "fvalue (d64 I32_TRUNC_HIGH) = Some (2 ^ 31)" "fvalue (d64 U32_TRUNC_HIGH) = Some (2 ^ 32)"
  "fvalue (d64 I64_TRUNC_LOW) = Some (- (2 ^ 63))" "fvalue (d64 I64_TRUNC_HIGH) = Some (2 ^ 63)"
  "fvalue (d64 U64_TRUNC_HIGH) = Some (2 ^ 64)"
  by (simp_all add: d64_def I32_TRUNC_LOW_def I32_TRUNC_HIGH_def U32_TRUNC_HIGH_def I64_TRUNC_LOW_def
      I64_TRUNC_HIGH_def U64_TRUNC_HIGH_def f64_of_f32_def float_eval power_int_def power_divide)

lemma trunc_float_to_int_value:
  assumes low: "fvalue (d64 low) = Some (of_int L)" and high: "fvalue (d64 high) = Some (of_int H)"
  shows "trunc_float_to_int fe w low high name =
    (case fvalue (d64 w) of
       None \<Rightarrow> Err (FloatToIntTruncation w name)
     | Some x \<Rightarrow> if L \<le> toward_zero x \<and> toward_zero x < H then Ok (f64_trunc fe w)
                 else Err (FloatToIntTruncation w name))"
proof (cases "d64 w")
  case (FFin s m q)
  then obtain x where x: "fvalue (FFin s m q) = Some x" by simp
  from f64_trunc_value [OF FFin x] have t: "fvalue (d64 (f64_trunc fe w)) = Some (of_int (toward_zero x))" .
  show ?thesis
    using compare_values(3) [OF low t] compare_values(1) [OF t high] FFin x
    by (simp add: trunc_float_to_int_def is_infinite_def Let_def)
qed (simp_all add: trunc_float_to_int_def is_infinite_def)

lemma toward_zero_of_int [simp]: "toward_zero (of_int k) = k"
  by (simp add: toward_zero_def)

lemma saturate_value:
  assumes "fvalue x = Some r"
  shows "saturate lo hi x = max lo (min hi (toward_zero r))"
proof -
  from assms obtain s m q where x: "x = FFin s m q" by (cases x) auto
  with assms show ?thesis
    using truncated_value [of s m q r] by (simp add: saturate_def del: fvalue.simps)
qed

lemma as_int_value:
  assumes "fvalue x = Some (of_int k)"
  shows "0 \<le> k \<Longrightarrow> k < 2 ^ LENGTH('a) \<Longrightarrow> (as_int_u x :: 'a::len word) = word_of_int k"
    and "- (2 ^ (LENGTH('a) - 1)) \<le> k \<Longrightarrow> k < 2 ^ (LENGTH('a) - 1) \<Longrightarrow>
      (as_int_s x :: 'a::len word) = word_of_int k"
proof -
  have clamp: "max lo (min (hi - 1) k) = k" if "lo \<le> k" "k < hi" for lo hi :: int
    using that by linarith
  show "0 \<le> k \<Longrightarrow> k < 2 ^ LENGTH('a) \<Longrightarrow> (as_int_u x :: 'a::len word) = word_of_int k"
    and "- (2 ^ (LENGTH('a) - 1)) \<le> k \<Longrightarrow> k < 2 ^ (LENGTH('a) - 1) \<Longrightarrow>
      (as_int_s x :: 'a::len word) = word_of_int k"
    by (simp_all add: as_int_u_def as_int_s_def saturate_value [OF assms] clamp)
qed

text \<open>A checked conversion to the integers from \<open>L\<close> to below \<open>H\<close>, of the float \<open>x\<close>, which the error
  carries as the \<open>f64\<close> \<open>w\<close>.\<close>

definition conversion_spec ::
    "int \<Rightarrow> int \<Rightarrow> (int \<Rightarrow> Value) \<Rightarrow> f64 \<Rightarrow> string \<Rightarrow> fval \<Rightarrow> numeric_result" where
  "conversion_spec L H mk w name x =
     (case fvalue x of
        None \<Rightarrow> Err (FloatToIntTruncation w name)
      | Some r \<Rightarrow> if L \<le> toward_zero r \<and> toward_zero r < H then Ok (mk (toward_zero r))
                  else Err (FloatToIntTruncation w name))"

lemma checked_conversion:
  assumes low: "fvalue (d64 low) = Some (of_int L)" and high: "fvalue (d64 high) = Some (of_int H)"
    and f: "\<And>y k. fvalue y = Some (of_int k) \<Longrightarrow> L \<le> k \<Longrightarrow> k < H \<Longrightarrow> f y = mk k"
    and w: "fvalue (d64 w) = fvalue x"
  shows "and_then (trunc_float_to_int fe w low high name) (\<lambda>t. Ok (f (d64 t))) =
    conversion_spec L H mk w name x"
proof (cases "d64 w")
  case (FFin s m q)
  then obtain r where r: "fvalue (FFin s m q) = Some r" by simp
  from f64_trunc_value [OF FFin r, of fe] f
  have "L \<le> toward_zero r \<Longrightarrow> toward_zero r < H \<Longrightarrow> f (d64 (f64_trunc fe w)) = mk (toward_zero r)"
    by blast
  moreover have "fvalue (d64 w) = Some r" using FFin r by simp
  moreover have "fvalue x = Some r" using FFin r w by simp
  ultimately show ?thesis
    unfolding trunc_float_to_int_value [OF low high] by (simp add: conversion_spec_def)
qed (use w in \<open>simp_all add: trunc_float_to_int_value [OF low high] conversion_spec_def\<close>)

text \<open>C36: a float converts to an integer exactly when truncating it toward zero gives an
  integer of the target type, which is then the result. A NaN, an infinity and every other float
  trap, with the operand in the error. The bounds that the code compares with, which it obtains
  through float casts that round, are exactly the ends of the four integer ranges.\<close>

theorem float_to_int_traps_exactly:
  assumes "float_env_ok fe"
  shows "i32_unary fe I32TruncF32S v = conversion_spec (- (2 ^ 31)) (2 ^ 31)
      (\<lambda>k. from_i32 (word_of_int k)) (promote fe (as_f32 v)) ''i32'' (d32 (as_f32 v)) \<and>
    i32_unary fe I32TruncF32U v = conversion_spec 0 (2 ^ 32)
      (\<lambda>k. from_i32 (word_of_int k)) (promote fe (as_f32 v)) ''u32'' (d32 (as_f32 v)) \<and>
    i32_unary fe I32TruncF64S v = conversion_spec (- (2 ^ 31)) (2 ^ 31)
      (\<lambda>k. from_i32 (word_of_int k)) (as_f64 v) ''i32'' (d64 (as_f64 v)) \<and>
    i32_unary fe I32TruncF64U v = conversion_spec 0 (2 ^ 32)
      (\<lambda>k. from_i32 (word_of_int k)) (as_f64 v) ''u32'' (d64 (as_f64 v)) \<and>
    i64_unary fe I64TruncF32S v = conversion_spec (- (2 ^ 63)) (2 ^ 63)
      (\<lambda>k. from_i64 (word_of_int k)) (promote fe (as_f32 v)) ''i64'' (d32 (as_f32 v)) \<and>
    i64_unary fe I64TruncF32U v = conversion_spec 0 (2 ^ 64)
      (\<lambda>k. from_i64 (word_of_int k)) (promote fe (as_f32 v)) ''u64'' (d32 (as_f32 v)) \<and>
    i64_unary fe I64TruncF64S v = conversion_spec (- (2 ^ 63)) (2 ^ 63)
      (\<lambda>k. from_i64 (word_of_int k)) (as_f64 v) ''i64'' (d64 (as_f64 v)) \<and>
    i64_unary fe I64TruncF64U v = conversion_spec 0 (2 ^ 64)
      (\<lambda>k. from_i64 (word_of_int k)) (as_f64 v) ''u64'' (d64 (as_f64 v))"
proof -
  note exact = promote_value [OF assms] refl
  show ?thesis
    unfolding i32_unary.simps i64_unary.simps
    by (intro conjI checked_conversion exact)
      (simp_all add: trunc_bounds as_int_value del: fvalue.simps)
qed

theorem float_to_int_traps_exactly_witness:
  "i32_unary canonical_nans I32TruncF64S (from_f64 0xC1E0000000180000) = Ok (from_i32 (- 2147483648)) \<and>
   (\<exists>e. i32_unary canonical_nans I32TruncF64S (from_f64 0xC1E0000000200000) = Err e) \<and>
   (\<exists>e. i32_unary canonical_nans I32TruncF32U (from_f32 0x7FC00000) = Err e)"
proof -
  note claim = float_to_int_traps_exactly [OF canonical_nans_ok]
  have d: "d64 0xC1E0000000180000 = FFin True 4503599628943360 (-21)"
    "d64 0xC1E0000000200000 = FFin True 4503599629467648 (-21)" "d32 0x7FC00000 = FNan"
    by (simp_all add: d64_def d32_def float_eval)
  have fl: "\<lfloor>8589934595 / 4 :: rat\<rfloor> = 2147483648"
    by (simp add: floor_eq_iff)
  have a: "i32_unary canonical_nans I32TruncF64S (from_f64 0xC1E0000000180000) = Ok (from_i32 (- 2147483648))"
  proof -
    have "i32_unary canonical_nans I32TruncF64S (from_f64 0xC1E0000000180000) =
        conversion_spec (- (2 ^ 31)) (2 ^ 31) (\<lambda>k. from_i32 (word_of_int k)) 0xC1E0000000180000 ''i32''
          (d64 0xC1E0000000180000)"
      using claim [of "from_f64 0xC1E0000000180000"] by (simp only: as_from_f64)
    then show ?thesis
      by (simp add: conversion_spec_def d signed_def power_int_def power_divide toward_zero_def
          ceiling_minus fl)
  qed
  have b: "\<exists>e. i32_unary canonical_nans I32TruncF64S (from_f64 0xC1E0000000200000) = Err e"
  proof -
    have "i32_unary canonical_nans I32TruncF64S (from_f64 0xC1E0000000200000) =
        conversion_spec (- (2 ^ 31)) (2 ^ 31) (\<lambda>k. from_i32 (word_of_int k)) 0xC1E0000000200000 ''i32''
          (d64 0xC1E0000000200000)"
      using claim [of "from_f64 0xC1E0000000200000"] by (simp only: as_from_f64)
    then show ?thesis
      by (simp add: conversion_spec_def d signed_def power_int_def power_divide toward_zero_def)
  qed
  have "i32_unary canonical_nans I32TruncF32U (from_f32 0x7FC00000) =
      conversion_spec 0 (2 ^ 32) (\<lambda>k. from_i32 (word_of_int k))
        (promote canonical_nans 0x7FC00000) ''u32'' (d32 0x7FC00000)"
    using claim [of "from_f32 0x7FC00000"] by (simp only: as_from_f32)
  then have "\<exists>e. i32_unary canonical_nans I32TruncF32U (from_f32 0x7FC00000) = Err e"
    by (simp add: conversion_spec_def d)
  with a b show ?thesis by blast
qed

text \<open>The saturating conversions.\<close>

definition saturation_spec :: "int \<Rightarrow> int \<Rightarrow> fval \<Rightarrow> int" where
  "saturation_spec L H x =
     (case x of FNan \<Rightarrow> 0 | FInf s \<Rightarrow> (if s then L else H - 1)
      | FFin _ _ _ \<Rightarrow> max L (min (H - 1) (toward_zero (the (fvalue x)))))"

lemma saturate_spec: "saturate L (H - 1) x = saturation_spec L H x"
  using saturate_value [of x _ L "H - 1"]
  by (cases x) (simp_all add: saturate_def saturation_spec_def)

text \<open>C37: the saturating conversions never trap: a float goes to the integer of the
  target type that is nearest to its truncation, an infinity to the end of the range on its side,
  and a NaN to 0.\<close>

theorem saturating_conversions:
  "i32_unary fe I32TruncSatF32S v =
      Ok (from_i32 (word_of_int (saturation_spec (- (2 ^ 31)) (2 ^ 31) (d32 (as_f32 v))))) \<and>
   i32_unary fe I32TruncSatF32U v =
      Ok (from_i32 (word_of_int (saturation_spec 0 (2 ^ 32) (d32 (as_f32 v))))) \<and>
   i32_unary fe I32TruncSatF64S v =
      Ok (from_i32 (word_of_int (saturation_spec (- (2 ^ 31)) (2 ^ 31) (d64 (as_f64 v))))) \<and>
   i32_unary fe I32TruncSatF64U v =
      Ok (from_i32 (word_of_int (saturation_spec 0 (2 ^ 32) (d64 (as_f64 v))))) \<and>
   i64_unary fe I64TruncSatF32S v =
      Ok (from_i64 (word_of_int (saturation_spec (- (2 ^ 63)) (2 ^ 63) (d32 (as_f32 v))))) \<and>
   i64_unary fe I64TruncSatF32U v =
      Ok (from_i64 (word_of_int (saturation_spec 0 (2 ^ 64) (d32 (as_f32 v))))) \<and>
   i64_unary fe I64TruncSatF64S v =
      Ok (from_i64 (word_of_int (saturation_spec (- (2 ^ 63)) (2 ^ 63) (d64 (as_f64 v))))) \<and>
   i64_unary fe I64TruncSatF64U v =
      Ok (from_i64 (word_of_int (saturation_spec 0 (2 ^ 64) (d64 (as_f64 v)))))"
  unfolding saturate_spec [symmetric] by (simp add: as_int_u_def as_int_s_def)

section \<open>Minimum, maximum and signs\<close>

lemma fval_order:
  assumes "x \<noteq> FNan" "y \<noteq> FNan"
  shows "eq_fval x x" and "lt_fval x y \<or> eq_fval x y \<or> lt_fval y x"
  using assms by (cases x; cases y; auto simp: Let_def min.commute)+

text \<open>What \<open>min\<close> and \<open>max\<close> of one width promise of \<open>a\<close> and \<open>b\<close>, read by \<open>d\<close>.\<close>

definition min_max_spec ::
    "('a::len word \<Rightarrow> fval) \<Rightarrow> 'a word \<Rightarrow> 'a word \<Rightarrow> 'a word \<Rightarrow> 'a word \<Rightarrow> 'a word \<Rightarrow> bool" where
  "min_max_spec d NAN a b mn mx \<longleftrightarrow>
     (if d a = FNan \<or> d b = FNan then mn = NAN \<and> mx = NAN
      else {mn, mx} \<subseteq> {a, b} \<and>
        le_fval (d mn) (d a) \<and> le_fval (d mn) (d b) \<and> le_fval (d a) (d mx) \<and> le_fval (d b) (d mx) \<and>
        (eq_fval (d a) (d b) \<longrightarrow>
           (is_sign_negative mn \<longleftrightarrow> is_sign_negative a \<or> is_sign_negative b) \<and>
           (is_sign_negative mx \<longleftrightarrow> is_sign_negative a \<and> is_sign_negative b)))"

lemma eq_fval_sym: "eq_fval x y = eq_fval y x"
  by (cases x; cases y) (auto simp: Let_def min.commute)

lemma min_max_meet_spec: "min_max_spec d NAN a b (wasm_min NAN d a b) (wasm_max NAN d a b)"
proof (cases "d a = FNan \<or> d b = FNan")
  case False
  then have nan: "d a \<noteq> FNan" "d b \<noteq> FNan" by simp_all
  show ?thesis
    using nan fval_order(1) [OF nan] fval_order(1) [OF nan(2,1)] fval_order(2) [OF nan]
      eq_fval_sym [of "d a" "d b"]
    by (auto simp: min_max_spec_def wasm_min_def wasm_max_def le_fval_def)
qed (auto simp: min_max_spec_def wasm_min_def wasm_max_def)

definition signs_spec :: "'a::len word \<Rightarrow> 'a word \<Rightarrow> 'a word \<Rightarrow> 'a word \<Rightarrow> 'a word \<Rightarrow> bool" where
  "signs_spec a b ab neg cp \<longleftrightarrow>
     (\<forall>i < LENGTH('a) - 1. (bit ab i \<longleftrightarrow> bit a i) \<and> (bit neg i \<longleftrightarrow> bit a i) \<and> (bit cp i \<longleftrightarrow> bit a i)) \<and>
     \<not> is_sign_negative ab \<and> (is_sign_negative neg \<longleftrightarrow> \<not> is_sign_negative a) \<and>
     (is_sign_negative cp \<longleftrightarrow> is_sign_negative b)"

lemma bit_sign_bit: "bit (sign_bit :: 'a::len word) i \<longleftrightarrow> i = LENGTH('a) - 1"
  by (auto simp: sign_bit_def push_bit_eq_mult bit_exp_iff possible_bit_def)

lemma signs_meet_spec: "signs_spec a b (float_abs a) (float_neg a) (float_copysign a (b :: 'a::len word))"
  by (auto simp: signs_spec_def float_abs_def float_neg_def float_copysign_def is_sign_negative_def
      bit_and_iff bit_or_iff bit_xor_iff bit_not_iff bit_sign_bit possible_bit_def)

text \<open>C40: \<open>min\<close> and \<open>max\<close> at both widths. If an operand is a NaN the result is the NaN
  constant; otherwise it is one of the operands, below or above both, and between equal operands
  the sign decides, so that -0 is below +0 in either order. \<open>abs\<close>, \<open>neg\<close> and \<open>copysign\<close>
  change the sign bit alone, also of a NaN.\<close>

theorem min_max_and_signs:
  "min_max_spec d32 (fe_NAN32 fe) a b (f32_arith fe F32Min a b) (f32_arith fe F32Max a b) \<and>
   min_max_spec d64 (fe_NAN64 fe) c d (f64_arith fe F64Min c d) (f64_arith fe F64Max c d) \<and>
   (\<exists>x y. signs_spec a b x y (f32_arith fe F32Copysign a b) \<and>
      f32_unary fe F32Abs (from_f32 a) = from_f32 x \<and> f32_unary fe F32Neg (from_f32 a) = from_f32 y) \<and>
   (\<exists>x y. signs_spec c d x y (f64_arith fe F64Copysign c d) \<and>
      f64_unary fe F64Abs (from_f64 c) = from_f64 x \<and> f64_unary fe F64Neg (from_f64 c) = from_f64 y)"
  using min_max_meet_spec [of d32 "fe_NAN32 fe" a b] min_max_meet_spec [of d64 "fe_NAN64 fe" c d]
    signs_meet_spec [of a b] signs_meet_spec [of c d]
  by auto

end
