(* ===== verification/RegisterFrame.thy ===== *)
theory RegisterFrame
  imports OperandStack
begin

text \<open>
  \<open>runtime/reg.rs\<close> and the frame layout of \<open>instruction/register/mod.rs\<close>: one flat register
  file for a whole call chain. A frame is four consecutive regions of it: the locals, the
  constants of the body, the spill slots and the operand registers. Every access is an index
  relative to the frame's base.
\<close>

section \<open>Bodies and their layouts\<close>

text \<open>
  A \<open>Slot\<close> is a frame index; an interned id or an arena id is the position of its entry; the
  arenas and the interner's pool are lists. A \<open>Signature\<close> has as many inputs as its type says.
\<close>

datatype reg_const = C_I32 u32 | C_I64 u64 | C_F32 f32 | C_F64 f64 | C_Ref "FuncIndex option"

record reg_signature =
  sg_input :: "nat list"
  sg_output :: nat

record DynSignature =
  ds_input :: "nat list"
  ds_output_start :: nat

record IfOperands =
  io_cond :: nat
  io_else_index :: "nat option"
  io_end_index :: nat

record BrIfOperands =
  bo_cond :: nat
  bo_mov :: DynSignature
  bo_target_index :: nat

record RegBrTableTarget =
  rt_mov :: DynSignature
  rt_target_index :: nat

record BrTableOperands =
  bt_index :: nat
  bt_targets :: "RegBrTableTarget list"

record CallIndirectOperands =
  ci_ty_index :: TyIndex
  ci_table_index :: TableIndex
  ci_slot :: nat
  ci_operands :: DynSignature
  ci_caller_base :: nat

record MemoryInitOperands =
  mi_data_index :: u32
  mi_operands :: "nat list"

record RegFrameLayout =
  fl_registers :: nat
  fl_spills :: nat
  fl_if_arena :: "IfOperands list"
  fl_br_if_arena :: "BrIfOperands list"
  fl_br_table_arena :: "BrTableOperands list"
  fl_call_indirect_arena :: "CallIndirectOperands list"
  fl_select_arena :: "reg_signature list"
  fl_memory_init_arena :: "MemoryInitOperands list"
  fl_dyn_signatures :: "DynSignature list"
  fl_memory_offsets :: "u32 list"
  fl_locals_count :: nat
  fl_consts :: "reg_const list"

section \<open>The register file\<close>

record RegFrame =
  registers :: "Value list"

record RegCallerBaseData =
  base_register_index :: nat

type_synonym ('e, 'a) reg_op = "(RegFrame, 'e, 'a) op"

text \<open>\<open>self.registers[i]\<close>, read and written: a panic outside the file.\<close>

definition get_register :: "usize \<Rightarrow> ('e, Value) reg_op" where
  "get_register i = bnd (gets registers) (\<lambda>rs. lift_result (index rs i))"

definition set_register :: "usize \<Rightarrow> Value \<Rightarrow> ('e, unit) reg_op" where
  "set_register i v = bnd (gets registers) (\<lambda>rs.
     if i < length rs then modify (\<lambda>f. f\<lparr>registers := rs[i := v]\<rparr>) else panic)"

section \<open>\<open>impl RuntimeFrame for RegFrame\<close>\<close>

definition reg_set_initial_params :: "Val list \<Rightarrow> ('e, unit) reg_op" where
  "reg_set_initial_params params =
     for_each params (\<lambda>param. modify (\<lambda>f. f\<lparr>registers := registers f @ [value_of_val param]\<rparr>))"

definition reg_get_params_for_import_call ::
    "nat \<Rightarrow> RegCallerBaseData \<Rightarrow> ('e, Value list) reg_op" where
  "reg_get_params_for_import_call params_count cb =
     for_collect 0 params_count (\<lambda>i. get_register (base_register_index cb + i))"

definition reg_set_results_from_import_call ::
    "Val list \<Rightarrow> RegCallerBaseData \<Rightarrow> ('e, unit) reg_op" where
  "reg_set_results_from_import_call results cb =
     for_each (enumerate 0 results) (\<lambda>(i, res). set_register (base_register_index cb + i) (value_of_val res))"

text \<open>The final results are read from the bottom of the file, where the outermost frame is.\<close>

definition reg_get_final_results :: "nat \<Rightarrow> ('e, Value list) reg_op" where
  "reg_get_final_results results_count = for_collect 0 results_count get_register"

definition reg_reset :: "('e, unit) reg_op" where
  "reg_reset = modify (\<lambda>f. f\<lparr>registers := []\<rparr>)"

fun const_value :: "reg_const \<Rightarrow> Value" where
  "const_value (C_I32 v) = from_i32 v"
| "const_value (C_I64 v) = from_i64 v"
| "const_value (C_F32 v) = from_f32 v"
| "const_value (C_F64 v) = from_f64 v"
| "const_value (C_Ref r) = from_ref r"

text \<open>The file only grows: the slots above may belong to a deeper call that has returned.\<close>

definition grow_file :: "usize \<Rightarrow> ('e, unit) reg_op" where
  "grow_file capacity = bnd (gets registers) (\<lambda>rs.
     if length rs < capacity
     then modify (\<lambda>f. f\<lparr>registers := rs @ replicate (capacity - length rs) 0\<rparr>) else ret ())"

definition reg_enter_frame ::
    "nat \<Rightarrow> ValType list \<Rightarrow> RegCallerBaseData \<Rightarrow> RegFrameLayout \<Rightarrow> ('e, unit) reg_op" where
  "reg_enter_frame params_count locals_ty cb layout =
     (let base = base_register_index cb; locals_count = length locals_ty in
      bnd (grow_file (base + fl_registers layout + fl_spills layout + length (fl_consts layout))) (\<lambda>_.
      bnd (lift_result (usize_sub locals_count params_count)) (\<lambda>declared.
      bnd (for_range 0 declared (\<lambda>i.
        bnd (lift_result (index locals_ty (i + params_count))) (\<lambda>ty.
        bnd (lift_result (zero_of_ty ty)) (set_register (base + params_count + i))))) (\<lambda>_.
      for_range 0 (length (fl_consts layout)) (\<lambda>i.
        bnd (lift_result (index (fl_consts layout) i)) (\<lambda>c.
        set_register (base + locals_count + i) (const_value c)))))))"

definition reg_exit_frame :: "nat \<Rightarrow> RegCallerBaseData \<Rightarrow> RegFrameLayout \<Rightarrow> ('e, unit) reg_op" where
  "reg_exit_frame results_count cb layout =
     (let base = base_register_index cb;
          top = base + fl_locals_count layout + length (fl_consts layout) + fl_spills layout in
      bnd (for_collect 0 results_count (\<lambda>i. get_register (top + i))) (\<lambda>temp.
      for_range 0 results_count (\<lambda>i.
        bnd (lift_result (index temp i)) (set_register (base + i)))))"

section \<open>The file as a window of values\<close>

text \<open>\<open>window f b vs\<close>: the file holds \<open>vs\<close> from index \<open>b\<close> on.\<close>

definition window :: "RegFrame \<Rightarrow> nat \<Rightarrow> Value list \<Rightarrow> bool" where
  "window f b vs \<longleftrightarrow> b + length vs \<le> length (registers f) \<and> sub_slice (registers f) b (length vs) = vs"

lemma windowI:
  "b + length vs \<le> length (registers f) \<Longrightarrow> (\<And>i. i < length vs \<Longrightarrow> registers f ! (b + i) = vs ! i) \<Longrightarrow> window f b vs"
  by (auto simp: window_def nth_sub_slice intro!: nth_equalityI)

lemma window_nth: "window f b vs \<Longrightarrow> i < length vs \<Longrightarrow> registers f ! (b + i) = vs ! i"
  by (metis nth_sub_slice window_def)

lemma window_length: "window f b vs \<Longrightarrow> b + length vs \<le> length (registers f)"
  by (simp add: window_def)

lemma wp_get_register [simp]:
  "wp (get_register i) Q E = (\<lambda>f. i < length (registers f) \<and> Q (registers f ! i) f)"
  by (rule ext) (auto simp: get_register_def index_def)

lemma wp_set_register [simp]:
  "wp (set_register i v) Q E =
     (\<lambda>f. i < length (registers f) \<and> Q () (f\<lparr>registers := (registers f)[i := v]\<rparr>))"
  by (rule ext) (auto simp: set_register_def)

end
