(* ===== verification/RegExec.thy ===== *)
theory RegExec
  imports RegisterFrame StackExec
begin

text \<open>
  \<open>RegInstruction::execute\<close> (\<open>instruction/register/mod.rs\<close>): one step of the register machine.
  An operand is an index of the running frame, so an arm reads its operands, computes, and writes
  its destination; an instruction whose operands are too wide holds the position of an entry in
  one of the body's arenas. What an arm computes from its operands is what the stack machine's
  arm computes, and the model shares those functions.
\<close>

section \<open>Instructions\<close>

text \<open>
  \<open>RegInstruction\<close>. \<open>block\<close>, \<open>nop\<close>, \<open>drop\<close>, \<open>local.get\<close> and the constants have no instruction. The
  numeric variants are grouped by \<open>RNumeric\<close>, the loads and the stores by \<open>RLoad\<close> and \<open>RStore\<close>, as
  on the stack machine; an offset is an id of the interner \<open>memory_offsets\<close>.
\<close>

datatype RegInstruction =
    RGlobalGet GlobalIndex nat
  | RGlobalSet GlobalIndex "nat list"
  | RLocalSet LocalIndex "nat list"
  | RLocalSpill LocalIndex nat
  | RLocalTee LocalIndex "nat list"
  | RLoop
  | RIf nat
  | RElse nat
  | RBr nat
  | RBrIf nat
  | RBrTable nat
  | RLoad load_op nat reg_signature
  | RStore store_op nat "nat list"
  | RNumeric numeric_instr reg_signature
  | RSelect nat
  | RReturn nat
  | RCall FuncIndex nat
  | RCallIndirect nat
  | RRefIsNull reg_signature
  | RUnreachable
  | RMove nat
  | RMemorySize nat
  | RMemoryGrow reg_signature
  | RMemoryCopy "nat list"
  | RMemoryFill "nat list"
  | RMemoryInit nat
  | RDataDrop u32
  | REnd

type_synonym RegModule = "(RegInstruction, RegFrameLayout) Module"
type_synonym ('m, 'i) RegInstance = "('m, 'i, RegFrame) Instance"
type_synonym ('m, 'i, 'a) reg_exec = "(('m, 'i) RegInstance, InstructionExecutionError, 'a) op"
type_synonym ('m, 'i) reg_arm = "('m, 'i, RegCallerBaseData Step) reg_exec"

definition new_reg_instance ::
    "'m \<Rightarrow> 'i \<Rightarrow> Config \<Rightarrow> Val list \<Rightarrow> TableVal list \<Rightarrow> ElementVal list \<Rightarrow> DataVal list \<Rightarrow>
     ('m, 'i) RegInstance" where
  "new_reg_instance mem registry conf globals tables elements datas = \<lparr>memory = mem,
     frame = \<lparr>registers = []\<rparr>, import_registry = registry, config = conf, global_vals = globals,
     table_vals = tables, element_vals = elements, data_vals = datas\<rparr>"

section \<open>Frame accessors\<close>

text \<open>Arithmetic of \<open>u16\<close>: an overflow is a panic.\<close>

definition U16_MAX :: nat where
  "U16_MAX = 2 ^ 16 - 1"

definition as_u16 :: "nat \<Rightarrow> nat" where
  "as_u16 n = n mod 2 ^ 16"

definition u16_add :: "nat \<Rightarrow> nat \<Rightarrow> ('e, nat) result" where
  "u16_add a b = (if a + b \<le> U16_MAX then Ok (a + b) else Panic)"

definition reg_local :: "LocalIndex \<Rightarrow> RegCallerBaseData \<Rightarrow> ('m, 'i, Value) reg_exec" where
  "reg_local i cb =
     bnd (lift_result (u32_add (base_register_index cb) (unat i))) (\<lambda>r. on_frame (get_register r))"

definition reg_set_local :: "LocalIndex \<Rightarrow> Value \<Rightarrow> RegCallerBaseData \<Rightarrow> ('m, 'i, unit) reg_exec" where
  "reg_set_local i val cb =
     bnd (lift_result (u32_add (base_register_index cb) (unat i))) (\<lambda>r. on_frame (set_register r val))"

definition slot_value :: "nat \<Rightarrow> RegCallerBaseData \<Rightarrow> ('m, 'i, Value) reg_exec" where
  "slot_value sl cb =
     bnd (lift_result (u32_add (base_register_index cb) sl)) (\<lambda>r. on_frame (get_register r))"

definition set_value_to_register :: "nat \<Rightarrow> Value \<Rightarrow> RegCallerBaseData \<Rightarrow> ('m, 'i, unit) reg_exec" where
  "set_value_to_register relative_index val cb =
     bnd (lift_result (u32_add (base_register_index cb) relative_index)) (\<lambda>r.
     on_frame (set_register r val))"

definition set_value_to_spills ::
    "nat \<Rightarrow> Value \<Rightarrow> RegCallerBaseData \<Rightarrow> RegFrameLayout \<Rightarrow> ('m, 'i, unit) reg_exec" where
  "set_value_to_spills relative_index val cb layout =
     on_frame (set_register (base_register_index cb + relative_index + fl_locals_count layout +
       length (fl_consts layout)) val)"

text \<open>\<open>registers[k]\<close> of an operand run, and its slot's value.\<close>

definition operand :: "nat list \<Rightarrow> nat \<Rightarrow> RegCallerBaseData \<Rightarrow> ('m, 'i, Value) reg_exec" where
  "operand input k cb = bnd (lift_result (index input k)) (\<lambda>sl. slot_value sl cb)"

definition operand_i32 :: "nat list \<Rightarrow> nat \<Rightarrow> RegCallerBaseData \<Rightarrow> ('m, 'i, u32) reg_exec" where
  "operand_i32 input k cb = bnd (operand input k cb) (\<lambda>v. ret (as_i32 v))"

definition operand_usize :: "nat list \<Rightarrow> nat \<Rightarrow> RegCallerBaseData \<Rightarrow> ('m, 'i, usize) reg_exec" where
  "operand_usize input k cb = bnd (operand_i32 input k cb) (\<lambda>v. ret (unat v))"

definition write_next :: "nat \<Rightarrow> Value \<Rightarrow> RegCallerBaseData \<Rightarrow> ('m, 'i) reg_arm" where
  "write_next output v cb = bnd (set_value_to_register output v cb) (\<lambda>_. ret Next)"

text \<open>All the sources are read before the first destination is written.\<close>

definition gather :: "nat list \<Rightarrow> RegCallerBaseData \<Rightarrow> ('m, 'i, Value list) reg_exec" where
  "gather input cb =
     for_collect 0 (length input) (\<lambda>k. operand input k cb)"

definition scatter :: "nat \<Rightarrow> Value list \<Rightarrow> RegCallerBaseData \<Rightarrow> ('m, 'i, unit) reg_exec" where
  "scatter output_start tmp cb =
     for_each (enumerate 0 tmp) (\<lambda>(i, val).
       bnd (lift_result (u16_add output_start (as_u16 i))) (\<lambda>r. set_value_to_register r val cb))"

definition execute_mov :: "DynSignature \<Rightarrow> RegCallerBaseData \<Rightarrow> ('m, 'i, unit) reg_exec" where
  "execute_mov signature cb =
     bnd (gather (ds_input signature) cb) (\<lambda>tmp. scatter (ds_output_start signature) tmp cb)"

definition reg_effective_address ::
    "nat \<Rightarrow> RegFrameLayout \<Rightarrow> nat list \<Rightarrow> RegCallerBaseData \<Rightarrow> ('m, 'i, usize) reg_exec" where
  "reg_effective_address offset layout input cb =
     bnd (lift_result (index (fl_memory_offsets layout) offset)) (\<lambda>memarg_offset.
     bnd (operand_i32 input 0 cb) (\<lambda>addr.
       case u32_checked_add (unat addr) (unat memarg_offset) of
         None \<Rightarrow> fail (Memory (EffectiveAddressOverflow addr memarg_offset))
       | Some effective_offset \<Rightarrow> ret effective_offset))"

section \<open>Variables\<close>

definition reg_exec_global_get :: "GlobalIndex \<Rightarrow> nat \<Rightarrow> RegCallerBaseData \<Rightarrow> ('m, 'i) reg_arm" where
  "reg_exec_global_get i output cb =
     bnd (gets global_vals) (\<lambda>gs.
     bnd (lift_result (index gs (unat i))) (\<lambda>v. write_next output (value_of_val v) cb))"

definition reg_exec_global_set ::
    "RegModule \<Rightarrow> GlobalIndex \<Rightarrow> nat list \<Rightarrow> RegCallerBaseData \<Rightarrow> ('m, 'i) reg_arm" where
  "reg_exec_global_set module i input cb =
     bnd (lift_result (index (md_globals module) (unat i))) (\<lambda>g.
     bnd (operand input 0 cb) (\<lambda>v.
     bnd (lift_result (into_val v (gt_content_type g))) (\<lambda>x.
     bnd (gets global_vals) (\<lambda>gs.
       if unat i < length gs
       then bnd (modify (\<lambda>s. s\<lparr>global_vals := gs[unat i := x]\<rparr>)) (\<lambda>_. ret Next)
       else panic))))"

definition reg_exec_local_set :: "LocalIndex \<Rightarrow> nat list \<Rightarrow> RegCallerBaseData \<Rightarrow> ('m, 'i) reg_arm" where
  "reg_exec_local_set i input cb =
     bnd (operand input 0 cb) (\<lambda>v. bnd (reg_set_local i v cb) (\<lambda>_. ret Next))"

definition reg_exec_local_spill ::
    "LocalIndex \<Rightarrow> nat \<Rightarrow> RegFrameLayout \<Rightarrow> RegCallerBaseData \<Rightarrow> ('m, 'i) reg_arm" where
  "reg_exec_local_spill i spill_index layout cb =
     bnd (reg_local i cb) (\<lambda>v. bnd (set_value_to_spills spill_index v cb layout) (\<lambda>_. ret Next))"

section \<open>Control\<close>

definition reg_exec_if :: "nat \<Rightarrow> RegFrameLayout \<Rightarrow> RegCallerBaseData \<Rightarrow> ('m, 'i) reg_arm" where
  "reg_exec_if eid layout cb =
     bnd (lift_result (index (fl_if_arena layout) eid)) (\<lambda>entry.
     bnd (operand_i32 [io_cond entry] 0 cb) (\<lambda>cond.
       if cond \<noteq> 0 then ret Next
       else (case io_else_index entry of
               Some i \<Rightarrow> bnd (lift_result (u32_add i 1)) (\<lambda>t. ret (JumpTo t))
             | None \<Rightarrow> ret (JumpTo (io_end_index entry)))))"

definition reg_exec_br_if :: "nat \<Rightarrow> RegFrameLayout \<Rightarrow> RegCallerBaseData \<Rightarrow> ('m, 'i) reg_arm" where
  "reg_exec_br_if eid layout cb =
     bnd (lift_result (index (fl_br_if_arena layout) eid)) (\<lambda>entry.
     bnd (operand_i32 [bo_cond entry] 0 cb) (\<lambda>cond.
       if cond \<noteq> 0
       then bnd (execute_mov (bo_mov entry) cb) (\<lambda>_. ret (JumpTo (bo_target_index entry)))
       else ret Next))"

definition reg_exec_br_table :: "nat \<Rightarrow> RegFrameLayout \<Rightarrow> RegCallerBaseData \<Rightarrow> ('m, 'i) reg_arm" where
  "reg_exec_br_table eid layout cb =
     bnd (lift_result (index (fl_br_table_arena layout) eid)) (\<lambda>entry.
     bnd (operand_usize [bt_index entry] 0 cb) (\<lambda>i.
     bnd (lift_result (usize_sub (length (bt_targets entry)) 1)) (\<lambda>target_count.
     bnd (lift_result (index (bt_targets entry) (if target_count \<le> i then target_count else i)))
       (\<lambda>branch.
     bnd (execute_mov (rt_mov branch) cb) (\<lambda>_. ret (JumpTo (rt_target_index branch)))))))"

definition reg_exec_move :: "nat \<Rightarrow> RegFrameLayout \<Rightarrow> RegCallerBaseData \<Rightarrow> ('m, 'i) reg_arm" where
  "reg_exec_move eid layout cb =
     bnd (lift_result (index (fl_dyn_signatures layout) eid)) (\<lambda>mov.
     bnd (execute_mov mov cb) (\<lambda>_. ret Next))"

definition reg_exec_select :: "nat \<Rightarrow> RegFrameLayout \<Rightarrow> RegCallerBaseData \<Rightarrow> ('m, 'i) reg_arm" where
  "reg_exec_select eid layout cb =
     bnd (lift_result (index (fl_select_arena layout) eid)) (\<lambda>entry.
     bnd (operand (sg_input entry) 0 cb) (\<lambda>a.
     bnd (operand (sg_input entry) 1 cb) (\<lambda>b.
     bnd (operand_i32 (sg_input entry) 2 cb) (\<lambda>cond.
       if cond \<noteq> 0 then write_next (sg_output entry) a cb
       else write_next (sg_output entry) b cb))))"

section \<open>Calls\<close>

text \<open>\<open>TraceVM::call_imported\<close> on the register machine.\<close>

definition reg_call_imported ::
    "('m, 'i) import_registry_impl \<Rightarrow> RegModule \<Rightarrow> FuncIndex \<Rightarrow> TableIndex option \<Rightarrow>
     RegCallerBaseData \<Rightarrow> ('m, 'i, unit) reg_exec" where
  "reg_call_imported R module callee is_indirect caller_base_data =
     bnd (lift_result (index (md_func_decls module) (unat callee))) (\<lambda>decl.
     bnd (lift_result (index (md_types module) (unat (fd_ty decl)))) (\<lambda>ty.
       case fd_kind decl of
         Local \<Rightarrow> panic
       | Imported module_name imported_func_name \<Rightarrow>
           bnd (on_frame (reg_get_params_for_import_call (as_u32 (length (ft_params ty)))
                  caller_base_data)) (\<lambda>params.
           bnd (lift_result (into_vals params (ft_params ty))) (\<lambda>callee_params.
           bnd (on_field (\<lambda>s. (import_registry s, memory s))
                  (\<lambda>(r, m) s. s\<lparr>import_registry := r, memory := m\<rparr>)
                  (host_error callee is_indirect)
                  (ir_execute R module_name imported_func_name callee_params)) (\<lambda>results.
           on_frame (reg_set_results_from_import_call results caller_base_data))))))"

definition reg_dispatch_call ::
    "('m, 'i) import_registry_impl \<Rightarrow> RegModule \<Rightarrow> nat \<Rightarrow> FuncIndex \<Rightarrow> nat \<Rightarrow> TableIndex option \<Rightarrow>
     RegCallerBaseData \<Rightarrow> ('m, 'i) reg_arm" where
  "reg_dispatch_call R module imported_func_count callee caller_base is_indirect cb =
     bnd (lift_result (u32_add caller_base (base_register_index cb))) (\<lambda>base.
       let callee_base = \<lparr>base_register_index = base\<rparr>
       in if imported_func_count \<le> unat callee
          then ret (StepCall callee callee_base is_indirect)
          else bnd (reg_call_imported R module callee is_indirect callee_base) (\<lambda>_. ret Next))"

definition reg_exec_call ::
    "('m, 'i) import_registry_impl \<Rightarrow> RegModule \<Rightarrow> nat \<Rightarrow> FuncIndex \<Rightarrow> nat \<Rightarrow> RegCallerBaseData \<Rightarrow>
     ('m, 'i) reg_arm" where
  "reg_exec_call R module imported_func_count callee caller_base cb =
     reg_dispatch_call R module imported_func_count callee caller_base None cb"

definition reg_exec_call_indirect ::
    "('m, 'i) import_registry_impl \<Rightarrow> RegModule \<Rightarrow> nat \<Rightarrow> nat \<Rightarrow> RegFrameLayout \<Rightarrow> RegCallerBaseData \<Rightarrow>
     ('m, 'i) reg_arm" where
  "reg_exec_call_indirect R module imported_func_count eid layout cb =
     bnd (lift_result (index (fl_call_indirect_arena layout) eid)) (\<lambda>entry.
     bnd (gets table_vals) (\<lambda>tables.
     bnd (lift_result (index tables (unat (ci_table_index entry)))) (\<lambda>tab.
     bnd (operand_usize [ci_slot entry] 0 cb) (\<lambda>i.
       if length (table tab) \<le> i
       then fail (CallIndirectErr (ci_table_index entry) TableSlotOutOfBounds)
       else (case table tab ! i of
         None \<Rightarrow> fail (CallIndirectErr (ci_table_index entry) NullElementInTable)
       | Some callee \<Rightarrow>
           bnd (lift_result (index (md_types module) (unat (ci_ty_index entry)))) (\<lambda>func_ty.
           bnd (lift_result (index (md_func_decls module) (unat callee))) (\<lambda>func.
           bnd (lift_result (index (md_types module) (unat (fd_ty func)))) (\<lambda>ty.
             if ft_params func_ty \<noteq> ft_params ty \<or> ft_results func_ty \<noteq> ft_results ty
             then fail (signature_mismatch (ci_table_index entry) ty func_ty)
             else if length (ds_input (ci_operands entry)) < length (ft_params ty) then panic
             else
               bnd (gather (take (length (ft_params ty)) (ds_input (ci_operands entry))) cb) (\<lambda>tmp.
               bnd (scatter (ci_caller_base entry) tmp cb) (\<lambda>_.
               reg_dispatch_call R module imported_func_count callee (ci_caller_base entry)
                 (Some (ci_table_index entry)) cb))))))))))"

section \<open>References and memory\<close>

definition reg_exec_ref_is_null :: "reg_signature \<Rightarrow> RegCallerBaseData \<Rightarrow> ('m, 'i) reg_arm" where
  "reg_exec_ref_is_null sig cb =
     bnd (operand (sg_input sig) 0 cb) (\<lambda>v.
     write_next (sg_output sig) (if as_ref v = None then from_i32 1 else from_i32 0) cb)"

definition reg_exec_memory_size :: "'m memory_impl \<Rightarrow> nat \<Rightarrow> RegCallerBaseData \<Rightarrow> ('m, 'i) reg_arm" where
  "reg_exec_memory_size D output cb =
     bnd (gets (\<lambda>s. mv_size_in_pages D (memory s))) (\<lambda>n. write_next output (from_i32 (of_nat n)) cb)"

definition reg_exec_memory_grow ::
    "'m memory_impl \<Rightarrow> reg_signature \<Rightarrow> RegCallerBaseData \<Rightarrow> ('m, 'i) reg_arm" where
  "reg_exec_memory_grow D sig cb =
     bnd (operand_usize (sg_input sig) 0 cb) (\<lambda>delta_in_pages.
     bnd (gets (\<lambda>s. unat (max_memory_size_in_pages (config s)))) (\<lambda>max_pages.
     bnd (attempt (on_memory (mv_grow D delta_in_pages max_pages))) (\<lambda>r.
       case r of
         Inr old_page \<Rightarrow> write_next (sg_output sig) (from_i32 (of_nat old_page)) cb
       | Inl _ \<Rightarrow> write_next (sg_output sig) (from_i32 (- 1)) cb)))"

definition reg_exec_memory_copy :: "'m memory_impl \<Rightarrow> nat list \<Rightarrow> RegCallerBaseData \<Rightarrow> ('m, 'i) reg_arm" where
  "reg_exec_memory_copy D inputs cb =
     bnd (operand_usize inputs 0 cb) (\<lambda>dest. bnd (operand_usize inputs 1 cb) (\<lambda>src.
     bnd (operand_usize inputs 2 cb) (\<lambda>len.
     bnd (on_memory (mv_copy_within D dest src len)) (\<lambda>_. ret Next))))"

definition reg_exec_memory_fill :: "'m memory_impl \<Rightarrow> nat list \<Rightarrow> RegCallerBaseData \<Rightarrow> ('m, 'i) reg_arm" where
  "reg_exec_memory_fill D inputs cb =
     bnd (operand_usize inputs 0 cb) (\<lambda>dest. bnd (operand_i32 inputs 1 cb) (\<lambda>val.
     bnd (operand_usize inputs 2 cb) (\<lambda>len.
     bnd (on_memory (mv_fill D dest val len)) (\<lambda>_. ret Next))))"

definition reg_exec_memory_init ::
    "'m memory_impl \<Rightarrow> nat \<Rightarrow> RegFrameLayout \<Rightarrow> RegCallerBaseData \<Rightarrow> ('m, 'i) reg_arm" where
  "reg_exec_memory_init D eid layout cb =
     bnd (lift_result (index (fl_memory_init_arena layout) eid)) (\<lambda>entry.
     bnd (operand_usize (mi_operands entry) 0 cb) (\<lambda>dest.
     bnd (operand_usize (mi_operands entry) 1 cb) (\<lambda>src.
     bnd (operand_usize (mi_operands entry) 2 cb) (\<lambda>len.
     bnd (gets data_vals) (\<lambda>ds.
     bnd (lift_result (index ds (unat (mi_data_index entry)))) (\<lambda>d.
       let segment = data_segment d
       in case usize_checked_add src len of
            None \<Rightarrow> fail (Memory (OutOfBoundsAccess Read src (length segment)))
          | Some end_ \<Rightarrow>
              if length segment < end_
              then fail (Memory (OutOfBoundsAccess Read src (length segment)))
              else bnd (on_memory (mv_write D dest (sub_slice segment src (end_ - src))))
                     (\<lambda>_. ret Next)))))))"

definition reg_exec_data_drop :: "u32 \<Rightarrow> ('m, 'i) reg_arm" where
  "reg_exec_data_drop data_index =
     bnd (gets data_vals) (\<lambda>ds.
       if unat data_index < length ds
       then bnd (modify (\<lambda>s. s\<lparr>data_vals := ds[unat data_index := DataDropped]\<rparr>)) (\<lambda>_. ret Next)
       else panic)"

definition reg_exec_load ::
    "'m memory_impl \<Rightarrow> load_op \<Rightarrow> nat \<Rightarrow> reg_signature \<Rightarrow> RegFrameLayout \<Rightarrow> RegCallerBaseData \<Rightarrow>
     ('m, 'i) reg_arm" where
  "reg_exec_load D l offset sig layout cb =
     bnd (reg_effective_address offset layout (sg_input sig) cb) (\<lambda>a.
     bnd (on_memory (load_value D l a)) (\<lambda>v. write_next (sg_output sig) v cb))"

definition reg_exec_store ::
    "'m memory_impl \<Rightarrow> store_op \<Rightarrow> nat \<Rightarrow> nat list \<Rightarrow> RegFrameLayout \<Rightarrow> RegCallerBaseData \<Rightarrow>
     ('m, 'i) reg_arm" where
  "reg_exec_store D st offset input layout cb =
     bnd (operand input 1 cb) (\<lambda>v.
     bnd (reg_effective_address offset layout input cb) (\<lambda>a.
     bnd (on_memory (store_value D st a v)) (\<lambda>_. ret Next)))"

section \<open>Numeric operators\<close>

text \<open>A trap leaves the destination as it was.\<close>

definition reg_unary ::
    "(Value \<Rightarrow> numeric_result) \<Rightarrow> reg_signature \<Rightarrow> RegCallerBaseData \<Rightarrow> ('m, 'i) reg_arm" where
  "reg_unary f sig cb =
     bnd (operand (sg_input sig) 0 cb) (\<lambda>a.
     bnd (lift_result (f a)) (\<lambda>v. write_next (sg_output sig) v cb))"

definition reg_binary ::
    "(Value \<Rightarrow> Value \<Rightarrow> numeric_result) \<Rightarrow> reg_signature \<Rightarrow> RegCallerBaseData \<Rightarrow> ('m, 'i) reg_arm" where
  "reg_binary f sig cb =
     bnd (operand (sg_input sig) 0 cb) (\<lambda>a.
     bnd (operand (sg_input sig) 1 cb) (\<lambda>b.
     bnd (lift_result (f a b)) (\<lambda>v. write_next (sg_output sig) v cb)))"

definition reg_i32_unary where
  "reg_i32_unary fe u = reg_unary (i32_unary fe u)"

definition reg_i32_binary where
  "reg_i32_binary b = reg_binary (i32_binary b)"

definition reg_i32_compare where
  "reg_i32_compare r = reg_binary (i32_compare r)"

definition reg_i64_unary where
  "reg_i64_unary fe u = reg_unary (i64_unary fe u)"

definition reg_i64_binary where
  "reg_i64_binary b = reg_binary (i64_binary b)"

definition reg_i64_compare where
  "reg_i64_compare r = reg_binary (i64_compare r)"

definition reg_f32_unary where
  "reg_f32_unary fe u = reg_unary (\<lambda>v. Ok (f32_unary fe u v))"

definition reg_f32_binary where
  "reg_f32_binary fe b = reg_binary (\<lambda>x y. Ok (f32_binary fe b x y))"

definition reg_f32_compare where
  "reg_f32_compare r = reg_binary (\<lambda>x y. Ok (f32_compare r x y))"

definition reg_f64_unary where
  "reg_f64_unary fe u = reg_unary (\<lambda>v. Ok (f64_unary fe u v))"

definition reg_f64_binary where
  "reg_f64_binary fe b = reg_binary (\<lambda>x y. Ok (f64_binary fe b x y))"

definition reg_f64_compare where
  "reg_f64_compare r = reg_binary (\<lambda>x y. Ok (f64_compare r x y))"

fun reg_exec_numeric ::
    "float_env \<Rightarrow> numeric_instr \<Rightarrow> reg_signature \<Rightarrow> RegCallerBaseData \<Rightarrow> ('m, 'i) reg_arm" where
  "reg_exec_numeric fe (I32Unary u) = reg_i32_unary fe u"
| "reg_exec_numeric fe (I32Binary b) = reg_i32_binary b"
| "reg_exec_numeric fe (I32Compare r) = reg_i32_compare r"
| "reg_exec_numeric fe (I64Unary u) = reg_i64_unary fe u"
| "reg_exec_numeric fe (I64Binary b) = reg_i64_binary b"
| "reg_exec_numeric fe (I64Compare r) = reg_i64_compare r"
| "reg_exec_numeric fe (F32Unary u) = reg_f32_unary fe u"
| "reg_exec_numeric fe (F32Binary b) = reg_f32_binary fe b"
| "reg_exec_numeric fe (F32Compare r) = reg_f32_compare r"
| "reg_exec_numeric fe (F64Unary u) = reg_f64_unary fe u"
| "reg_exec_numeric fe (F64Binary b) = reg_f64_binary fe b"
| "reg_exec_numeric fe (F64Compare r) = reg_f64_compare r"

lemmas reg_numeric_defs = reg_i32_unary_def reg_i32_binary_def reg_i32_compare_def
  reg_i64_unary_def reg_i64_binary_def reg_i64_compare_def reg_f32_unary_def reg_f32_binary_def
  reg_f32_compare_def reg_f64_unary_def reg_f64_binary_def reg_f64_compare_def

section \<open>The dispatch\<close>

fun reg_execute ::
    "float_env \<Rightarrow> 'm memory_impl \<Rightarrow> ('m, 'i) import_registry_impl \<Rightarrow> RegInstruction \<Rightarrow> RegModule \<Rightarrow>
     RegFrameLayout \<Rightarrow> RegCallerBaseData \<Rightarrow> nat \<Rightarrow> ('m, 'i) reg_arm" where
  "reg_execute fe D R (RGlobalGet i out) module layout cb imported = reg_exec_global_get i out cb"
| "reg_execute fe D R (RGlobalSet i inp) module layout cb imported = reg_exec_global_set module i inp cb"
| "reg_execute fe D R (RLocalSet i inp) module layout cb imported = reg_exec_local_set i inp cb"
| "reg_execute fe D R (RLocalSpill i sp) module layout cb imported = reg_exec_local_spill i sp layout cb"
| "reg_execute fe D R (RLocalTee i inp) module layout cb imported = reg_exec_local_set i inp cb"
| "reg_execute fe D R RLoop module layout cb imported = ret Next"
| "reg_execute fe D R (RIf eid) module layout cb imported = reg_exec_if eid layout cb"
| "reg_execute fe D R (RElse n) module layout cb imported = ret (JumpTo n)"
| "reg_execute fe D R (RBr n) module layout cb imported = ret (JumpTo n)"
| "reg_execute fe D R (RBrIf eid) module layout cb imported = reg_exec_br_if eid layout cb"
| "reg_execute fe D R (RBrTable eid) module layout cb imported = reg_exec_br_table eid layout cb"
| "reg_execute fe D R (RLoad l off sig) module layout cb imported = reg_exec_load D l off sig layout cb"
| "reg_execute fe D R (RStore st off inp) module layout cb imported =
     reg_exec_store D st off inp layout cb"
| "reg_execute fe D R (RNumeric n sig) module layout cb imported = reg_exec_numeric fe n sig cb"
| "reg_execute fe D R (RSelect eid) module layout cb imported = reg_exec_select eid layout cb"
| "reg_execute fe D R (RReturn n) module layout cb imported = ret (JumpTo n)"
| "reg_execute fe D R (RCall f base) module layout cb imported = reg_exec_call R module imported f base cb"
| "reg_execute fe D R (RCallIndirect eid) module layout cb imported =
     reg_exec_call_indirect R module imported eid layout cb"
| "reg_execute fe D R (RRefIsNull sig) module layout cb imported = reg_exec_ref_is_null sig cb"
| "reg_execute fe D R RUnreachable module layout cb imported = fail UnreachableTrap"
| "reg_execute fe D R (RMove eid) module layout cb imported = reg_exec_move eid layout cb"
| "reg_execute fe D R (RMemorySize out) module layout cb imported = reg_exec_memory_size D out cb"
| "reg_execute fe D R (RMemoryGrow sig) module layout cb imported = reg_exec_memory_grow D sig cb"
| "reg_execute fe D R (RMemoryCopy inp) module layout cb imported = reg_exec_memory_copy D inp cb"
| "reg_execute fe D R (RMemoryFill inp) module layout cb imported = reg_exec_memory_fill D inp cb"
| "reg_execute fe D R (RMemoryInit eid) module layout cb imported = reg_exec_memory_init D eid layout cb"
| "reg_execute fe D R (RDataDrop i) module layout cb imported = reg_exec_data_drop i"
| "reg_execute fe D R REnd module layout cb imported = ret Next"

end
