(* ===== verification/RegMachine.thy ===== *)
theory RegMachine
  imports RegExec DriverProperties
begin

text \<open>
  The register machine as an instance of the drivers, rules for its operand accesses, and what
  its instructions leave alone. The two drivers of \<open>runtime/mod.rs\<close> are generic over the machine,
  so what is proved of them for every machine holds here as well.
\<close>

section \<open>The machine\<close>

definition reg_machine ::
    "float_env \<Rightarrow> 'm memory_impl \<Rightarrow> ('m, 'i) import_registry_impl \<Rightarrow>
     (RegInstruction, RegFrameLayout, RegCallerBaseData, ('m, 'i) RegInstance) machine" where
  "reg_machine fe D R = \<lparr>
     vm_execute = reg_execute fe D R,
     vm_initial_data = \<lparr>base_register_index = 0\<rparr>,
     vm_reset = (\<lambda>s. s\<lparr>frame := frame s\<lparr>registers := []\<rparr>\<rparr>),
     vm_set_initial_params = (\<lambda>ps s.
       map_option snd (run_infallible (on_frame (reg_set_initial_params ps)) s)),
     vm_get_final_results = (\<lambda>n. run_infallible (on_frame (reg_get_final_results n))),
     vm_enter_frame = (\<lambda>n tys cb layout s. map_option (\<lambda>(_, s'). (cb, s'))
       (run_infallible (on_frame (reg_enter_frame n tys cb layout)) s)),
     vm_exit_frame = (\<lambda>n cb layout s. map_option snd
       (run_infallible (on_frame (reg_exit_frame n cb layout)) s)),
     vm_max_call_stack_depth = (\<lambda>s. unat (max_call_stack_depth (config s)))\<rparr>"

section \<open>What an instruction leaves alone\<close>

lemma keeps_on_frame_settings [keeps_intros]: "keeps settings (on_frame m)"
  by (intro keeps_intros) (simp add: settings_def)

lemma keeps_for_collect [keeps_intros]: "(\<And>i. keeps g (f i)) \<Longrightarrow> keeps g (for_collect j n f)"
  by (induction n arbitrary: j) (auto intro!: keeps_intros)

lemmas reg_accessors = reg_local_def reg_set_local_def slot_value_def set_value_to_register_def
  set_value_to_spills_def operand_def operand_i32_def operand_usize_def write_next_def gather_def
  scatter_def execute_mov_def reg_effective_address_def

lemmas reg_arms = reg_exec_global_get_def reg_exec_global_set_def reg_exec_local_set_def
  reg_exec_local_spill_def reg_exec_if_def reg_exec_br_if_def reg_exec_br_table_def reg_exec_move_def
  reg_exec_select_def reg_call_imported_def reg_dispatch_call_def reg_exec_call_def
  reg_exec_call_indirect_def reg_exec_ref_is_null_def reg_exec_memory_size_def
  reg_exec_memory_grow_def reg_exec_memory_copy_def reg_exec_memory_fill_def
  reg_exec_memory_init_def reg_exec_data_drop_def reg_exec_load_def reg_exec_store_def

lemma keeps_reg_accessors [keeps_intros]:
  "keeps settings (reg_local i cb)" "keeps settings (reg_set_local i v cb)"
  "keeps settings (slot_value sl cb)" "keeps settings (set_value_to_register r v cb)"
  "keeps settings (set_value_to_spills sp v cb layout)" "keeps settings (operand inp k cb)"
  "keeps settings (operand_i32 inp k cb)" "keeps settings (operand_usize inp k cb)"
  "keeps settings (write_next r v cb)" "keeps settings (gather inp cb)"
  "keeps settings (scatter r vs cb)" "keeps settings (execute_mov sg cb)"
  "keeps settings (reg_effective_address off layout inp cb)"
  unfolding reg_accessors by (intro keeps_intros; simp add: case_prod_unfold; intro keeps_intros)+

lemma keeps_reg_numeric [keeps_intros]: "keeps settings (reg_exec_numeric fe n sig cb)"
  by (cases n; simp only: reg_exec_numeric.simps reg_numeric_defs reg_unary_def reg_binary_def;
      intro keeps_intros)

lemma reg_execute_keeps_settings: "keeps settings (reg_execute fe D R x md layout cb imported)"
  by (cases x; simp only: reg_execute.simps reg_arms Let_def)
    (intro keeps_intros; simp add: settings_def split: prod.split)+

lemma reg_execute_settings:
  "reg_execute fe D R x md layout cb imported s = r \<Longrightarrow>
     (case r of Ok (_, s') \<Rightarrow> settings s' = settings s | Err (_, s') \<Rightarrow> settings s' = settings s
      | Panic \<Rightarrow> True)"
  using reg_execute_keeps_settings [of fe D R x md layout cb imported] unfolding keeps_def by blast

interpretation reg_limits: machine_invariant "reg_machine fe D R" md "\<lambda>s. settings s = c"
  "unat (max_call_stack_depth (fst c))" for fe D R md c
proof (unfold_locales, goal_cases)
  case (1 s instr layout base n r)
  then show ?case
    using reg_execute_settings [of fe D R instr md layout base n s r]
    by (simp add: reg_machine_def split: result.splits prod.splits)
next
  case (2 s p tys base layout b s')
  then show ?case by (auto simp: reg_machine_def run_on_frame_settings)
next
  case (3 s k base layout s')
  then show ?case by (auto simp: reg_machine_def run_on_frame_settings)
next
  case (4 s)
  then show ?case by (auto simp: reg_machine_def settings_def)
qed

section \<open>Only the two calls enter a function\<close>

definition is_call :: "RegInstruction \<Rightarrow> bool" where
  "is_call x \<longleftrightarrow> (case x of RCall _ _ \<Rightarrow> True | RCallIndirect _ \<Rightarrow> True | _ \<Rightarrow> False)"

definition no_call :: "'b Step \<Rightarrow> bool" where
  "no_call r \<longleftrightarrow> (case r of StepCall _ _ _ \<Rightarrow> False | _ \<Rightarrow> True)"

lemma no_call_simps [simp]: "no_call Next" "no_call (JumpTo n)" "\<not> no_call (StepCall f b i)"
  by (simp_all add: no_call_def)

named_theorems no_call_intros \<open>arms that never enter a function\<close>

definition never_calls :: "('s, 'e, 'b Step) op \<Rightarrow> bool" where
  "never_calls m \<longleftrightarrow> (\<forall>s. wlp m (\<lambda>r _. no_call r) s)"

lemma never_calls_ret [no_call_intros]: "never_calls (ret Next)" "never_calls (ret (JumpTo n))"
  and never_calls_fail [no_call_intros]: "never_calls (fail e)"
  and never_calls_panic [no_call_intros]: "never_calls panic"
  by (simp_all add: never_calls_def)

lemma never_calls_bnd [no_call_intros]: "(\<And>a. never_calls (f a)) \<Longrightarrow> never_calls (bnd m f)"
  by (simp add: never_calls_def wlp_mono [OF wlp_True])

lemma never_calls_if [no_call_intros]: "never_calls m \<Longrightarrow> never_calls n \<Longrightarrow> never_calls (if b then m else n)"
  by simp

lemma never_calls_option [no_call_intros]:
  "never_calls m \<Longrightarrow> (\<And>x. never_calls (f x)) \<Longrightarrow> never_calls (case z of None \<Rightarrow> m | Some x \<Rightarrow> f x)"
  by (cases z) auto

lemma never_calls_sum [no_call_intros]:
  "(\<And>x. never_calls (m x)) \<Longrightarrow> (\<And>x. never_calls (f x)) \<Longrightarrow>
     never_calls (case z of Inl x \<Rightarrow> m x | Inr x \<Rightarrow> f x)"
  by (cases z) auto

lemma never_calls_numeric [no_call_intros]: "never_calls (reg_exec_numeric fe n sig cb)"
  by (cases n; simp only: reg_exec_numeric.simps reg_numeric_defs reg_unary_def reg_binary_def
      write_next_def; intro no_call_intros)

lemma reg_execute_never_calls:
  "\<not> is_call x \<Longrightarrow> never_calls (reg_execute fe D R x md layout cb imported)"
  by (cases x; simp add: is_call_def; (simp only: reg_arms write_next_def Let_def)?;
      intro no_call_intros)

text \<open>A body that ends in \<open>end\<close>, as every lowered one does.\<close>

definition closed_body :: "(RegInstruction, RegFrameLayout) FuncBody \<Rightarrow> bool" where
  "closed_body body \<longleftrightarrow> fb_instructions body \<noteq> [] \<and> last (fb_instructions body) = REnd \<and>
     length (fb_instructions body) \<le> U32_MAX"

lemma reg_calls_not_last:
  assumes "\<forall>body \<in> set (md_func_bodies module). closed_body body"
  shows "calls_not_last (reg_machine fe D R) module"
  unfolding calls_not_last_def
proof (intro ballI conjI allI impI)
  fix body assume body: "body \<in> set (md_func_bodies module)"
  with assms show "length (fb_instructions body) \<le> U32_MAX" by (simp add: closed_body_def)
  let ?xs = "fb_instructions body"
  fix base s pc callee callee_base is_indirect s'
  assume pc: "pc < length ?xs"
    and ex: "vm_execute (reg_machine fe D R) (?xs ! pc) module (fb_frame_layout body) base
      (md_imported_func_count module) s = Ok (StepCall callee callee_base is_indirect, s')"
  have "is_call (?xs ! pc)"
  proof (rule ccontr)
    assume "\<not> is_call (?xs ! pc)"
    from reg_execute_never_calls [OF this, of fe D R module "fb_frame_layout body" base
        "md_imported_func_count module", unfolded never_calls_def, rule_format, of s] ex
    show False by (simp add: reg_machine_def wlp_def)
  qed
  moreover have "?xs ! (length ?xs - 1) = REnd"
    using assms body by (auto simp: closed_body_def last_conv_nth)
  ultimately have "pc \<noteq> length ?xs - 1" by (auto simp: is_call_def)
  with pc show "pc + 1 < length ?xs" by linarith
qed

end
