(* ===== verification/RegFrameProperties.thy ===== *)
theory RegFrameProperties
  imports RegMachine
begin

text \<open>
  The register file as a calling convention: what entering a frame, moving values to a label and
  leaving a frame do to the file, as equations, and the properties that follow.
\<close>

section \<open>Runs of writes\<close>

lemma bnd_lift_result: "bnd (lift_result (Ok a)) f = f a"
  by (rule ext) (simp add: bnd_def lift_result_def)

lemma bnd_eq: "m s = Ok (a, s') \<Longrightarrow> bnd m f s = f a s'"
  by (simp add: bnd_def)

lemma ret_eq: "ret a s = Ok (a, s)"
  by (simp add: ret_def)

lemma set_register_eq:
  "i < length (registers f) \<Longrightarrow> set_register i v f = Ok ((), f\<lparr>registers := (registers f)[i := v]\<rparr>)"
  by (simp add: set_register_def bnd_def gets_def modify_def)

lemma get_register_eq: "i < length (registers f) \<Longrightarrow> get_register i f = Ok (registers f ! i, f)"
  by (simp add: get_register_def bnd_def gets_def lift_result_def index_def)

lemma overwrite_Cons:
  assumes "off + length vs < length xs"
  shows "overwrite (xs[off := v]) (Suc off) vs = overwrite xs off (v # vs)"
  using assms by (intro nth_equalityI) (auto simp: nth_overwrite nth_list_update nth_Cons')

text \<open>A loop that writes \<open>vs\<close> one by one from index \<open>c + i\<close> on.\<close>

lemma for_range_writes:
  assumes "length vs = n" and "c + i + n \<le> length (registers f)"
    and "\<And>k f. k < n \<Longrightarrow> c + i + n \<le> length (registers f) \<Longrightarrow> body (i + k) f = set_register (c + i + k) (vs ! k) f"
  shows "for_range i n body f = Ok ((), f\<lparr>registers := overwrite (registers f) (c + i) vs\<rparr>)"
  using assms
proof (induction n arbitrary: i f vs)
  case 0
  then show ?case by (simp add: ret_def)
next
  case (Suc n)
  then obtain v ws where vs: "vs = v # ws" by (cases vs) auto
  let ?f = "f\<lparr>registers := (registers f)[c + i := v]\<rparr>"
  have first: "body i f = Ok ((), ?f)"
    using Suc.prems(3) [of 0 f] Suc.prems(2) by (simp add: vs set_register_eq)
  have "for_range (Suc i) n body ?f = Ok ((), ?f\<lparr>registers := overwrite (registers ?f) (c + Suc i) ws\<rparr>)"
  proof (rule Suc.IH)
    fix k and g :: RegFrame assume "k < n" "c + Suc i + n \<le> length (registers g)"
    with Suc.prems(3) [of "Suc k" g] show "body (Suc i + k) g = set_register (c + Suc i + k) (ws ! k) g"
      by (simp add: vs)
  qed (use Suc.prems in \<open>simp_all add: vs\<close>)
  with first show ?case
    using Suc.prems(1,2) overwrite_Cons [of "c + i" ws "registers f" v]
    by (simp add: bnd_eq vs)
qed

lemma for_each_writes:
  assumes "c + i + length vs \<le> length (registers f)"
    and "\<And>k f. k < length vs \<Longrightarrow> c + i + length vs \<le> length (registers f) \<Longrightarrow>
      body (i + k, vs ! k) f = set_register (c + i + k) (g (vs ! k)) f"
  shows "for_each (enumerate i vs) body f =
    Ok ((), f\<lparr>registers := overwrite (registers f) (c + i) (map g vs)\<rparr>)"
  using assms
proof (induction vs arbitrary: i f)
  case Nil
  then show ?case by (simp add: ret_def)
next
  case (Cons v vs)
  let ?f = "f\<lparr>registers := (registers f)[c + i := g v]\<rparr>"
  have first: "body (i, v) f = Ok ((), ?f)"
    using Cons.prems(2) [of 0 f] Cons.prems(1) by (simp add: set_register_eq)
  have "for_each (enumerate (Suc i) vs) body ?f =
      Ok ((), ?f\<lparr>registers := overwrite (registers ?f) (c + Suc i) (map g vs)\<rparr>)"
  proof (rule Cons.IH)
    fix k and h :: RegFrame assume "k < length vs" "c + Suc i + length vs \<le> length (registers h)"
    with Cons.prems(2) [of "Suc k" h]
    show "body (Suc i + k, vs ! k) h = set_register (c + Suc i + k) (g (vs ! k)) h" by simp
  qed (use Cons.prems in simp_all)
  with first show ?case
    using Cons.prems(1) overwrite_Cons [of "c + i" "map g vs" "registers f" "g v"]
    by (simp add: bnd_eq enumerate_Suc_eq [symmetric])
qed

section \<open>Entering and leaving a frame\<close>

definition grown :: "nat \<Rightarrow> Value list \<Rightarrow> Value list" where
  "grown capacity rs = rs @ replicate (capacity - length rs) 0"

lemma length_grown [simp]: "length (grown c rs) = max c (length rs)"
  by (simp add: grown_def)

lemma nth_grown [simp]: "i < length rs \<Longrightarrow> grown c rs ! i = rs ! i"
  by (simp add: grown_def nth_append)

lemma grow_file_eq: "grow_file c f = Ok ((), f\<lparr>registers := grown c (registers f)\<rparr>)"
  by (simp add: grow_file_def grown_def bnd_def gets_def modify_def ret_def)

text \<open>The part of a frame that entry prepares above the arguments.\<close>

definition entry_image :: "nat \<Rightarrow> ValType list \<Rightarrow> RegFrameLayout \<Rightarrow> Value list" where
  "entry_image p tys layout = replicate (length tys - p) 0 @ map const_value (fl_consts layout)"

definition frame_size :: "RegFrameLayout \<Rightarrow> nat" where
  "frame_size layout = fl_registers layout + fl_spills layout + length (fl_consts layout)"

lemma zero_of_ty_not_vector: "ty \<noteq> T_V128 \<Longrightarrow> zero_of_ty ty = Ok 0"
  by (cases ty) (simp_all add: from_i32_def from_i64_def from_f32_def from_f64_def from_ref_def)

lemma reg_enter_frame_eq:
  assumes "p \<le> length tys" "\<forall>ty \<in> set tys. ty \<noteq> T_V128"
    and "length tys \<le> fl_registers layout"
  shows "reg_enter_frame p tys cb layout f =
    Ok ((), f\<lparr>registers := overwrite (grown (base_register_index cb + frame_size layout) (registers f))
                (base_register_index cb + p) (entry_image p tys layout)\<rparr>)"
proof -
  let ?b = "base_register_index cb" and ?d = "length tys - p"
  let ?cap = "?b + frame_size layout"
  let ?rs = "grown ?cap (registers f)"
  define f1 where "f1 = f\<lparr>registers := ?rs\<rparr>"
  define f2 where "f2 = f\<lparr>registers := overwrite ?rs (?b + p) (replicate ?d 0)\<rparr>"
  have size: "?b + length tys + length (fl_consts layout) \<le> length ?rs"
    using assms(3) by (simp add: frame_size_def)
  have zeros: "for_range 0 ?d (\<lambda>i. bnd (lift_result (index tys (i + p))) (\<lambda>ty.
      bnd (lift_result (zero_of_ty ty)) (set_register (?b + p + i)))) f1 = Ok ((), f2)"
  proof (subst for_range_writes [where c = "?b + p" and vs = "replicate ?d 0"])
    fix k and g :: RegFrame
    assume k: "k < ?d"
    then have "k + p < length tys" by simp
    moreover from this have "tys ! (k + p) \<noteq> T_V128" using assms(2) nth_mem by blast
    moreover note k
    ultimately show "bnd (lift_result (index tys (0 + k + p))) (\<lambda>ty.
        bnd (lift_result (zero_of_ty ty)) (set_register (?b + p + (0 + k)))) g =
      set_register (?b + p + 0 + k) (replicate ?d 0 ! k) g"
      by (simp add: index_def bnd_lift_result zero_of_ty_not_vector)
  qed (use assms(1) size in \<open>auto simp: f1_def f2_def\<close>)
  define f3 where "f3 = f\<lparr>registers := overwrite ?rs (?b + p) (entry_image p tys layout)\<rparr>"
  have "for_range 0 (length (fl_consts layout)) (\<lambda>i. bnd (lift_result (index (fl_consts layout) i))
      (\<lambda>c. set_register (?b + length tys + i) (const_value c))) f2 =
    Ok ((), f2\<lparr>registers := overwrite (registers f2) (?b + length tys + 0) (map const_value (fl_consts layout))\<rparr>)"
    by (rule for_range_writes) (use size assms(1) in \<open>auto simp: f2_def index_def bnd_lift_result\<close>)
  moreover have "overwrite (overwrite ?rs (?b + p) (replicate ?d 0)) (?b + length tys) (map const_value (fl_consts layout)) =
      overwrite ?rs (?b + p) (entry_image p tys layout)"
    using overwrite_overwrite_adjacent [of "?b + p" "replicate ?d 0" "map const_value (fl_consts layout)" ?rs]
      assms(1) size by (simp add: entry_image_def)
  ultimately have pool: "for_range 0 (length (fl_consts layout)) (\<lambda>i.
      bnd (lift_result (index (fl_consts layout) i))
        (\<lambda>c. set_register (?b + length tys + i) (const_value c))) f2 = Ok ((), f3)"
    by (simp add: f2_def f3_def)
  have grow: "grow_file (?b + fl_registers layout + fl_spills layout + length (fl_consts layout)) f = Ok ((), f1)"
    by (simp add: grow_file_eq f1_def frame_size_def add.assoc)
  have declared: "usize_sub (length tys) p = Ok ?d"
    using assms(1) by (simp add: usize_sub_def)
  show ?thesis
    unfolding reg_enter_frame_def Let_def f3_def [symmetric]
    by (simp only: bnd_eq grow zeros pool declared bnd_lift_result)
qed

lemma gather_registers:
  assumes "first + n \<le> length (registers f)"
  shows "for_collect 0 n (\<lambda>i. get_register (first + i)) f = Ok (sub_slice (registers f) first n, f)"
proof -
  have "for_collect 0 n (\<lambda>i. get_register (first + i)) f = Ok (map (\<lambda>i. registers f ! (first + i)) [0..<0 + n], f)"
    by (rule for_collect_pure) (use assms in \<open>simp add: get_register_eq\<close>)
  moreover have "map (\<lambda>i. registers f ! (first + i)) [0..<0 + n] = sub_slice (registers f) first n"
    by (rule nth_equalityI) (use assms in \<open>simp_all add: nth_sub_slice\<close>)
  ultimately show ?thesis by simp
qed

definition operand_base :: "RegFrameLayout \<Rightarrow> nat" where
  "operand_base layout = fl_locals_count layout + length (fl_consts layout) + fl_spills layout"

lemma reg_exit_frame_eq:
  assumes "base_register_index cb + operand_base layout + n \<le> length (registers f)"
  shows "reg_exit_frame n cb layout f =
    Ok ((), f\<lparr>registers := overwrite (registers f) (base_register_index cb)
      (sub_slice (registers f) (base_register_index cb + operand_base layout) n)\<rparr>)"
proof -
  let ?b = "base_register_index cb" and ?top = "base_register_index cb + operand_base layout"
  let ?vs = "sub_slice (registers f) ?top n"
  have len: "length ?vs = n" using assms by simp
  have "for_range 0 n (\<lambda>i. bnd (lift_result (index ?vs i)) (set_register (?b + i))) f =
      Ok ((), f\<lparr>registers := overwrite (registers f) (?b + 0) ?vs\<rparr>)"
    by (rule for_range_writes [OF len]) (use assms len in \<open>auto simp: index_def bnd_lift_result\<close>)
  moreover have top: "?b + fl_locals_count layout + length (fl_consts layout) + fl_spills layout = ?top"
    by (simp add: operand_base_def)
  ultimately show ?thesis
    unfolding reg_exit_frame_def Let_def top by (simp add: bnd_eq gather_registers [OF assms])
qed

end
