(* ===== verification/RegOperands.thy ===== *)
theory RegOperands
  imports RegFrameProperties
begin

text \<open>
  The operands of an instruction as slots of the running frame: what reading and writing them
  does to an instance, and the label moves, which read all their sources before they write.
\<close>

section \<open>Slots\<close>

definition in_frame :: "('m, 'i) RegInstance \<Rightarrow> RegCallerBaseData \<Rightarrow> nat \<Rightarrow> bool" where
  "in_frame s cb sl \<longleftrightarrow> base_register_index cb + sl < length (registers (frame s)) \<and>
     base_register_index cb + sl \<le> U32_MAX"

definition slot_at :: "('m, 'i) RegInstance \<Rightarrow> RegCallerBaseData \<Rightarrow> nat \<Rightarrow> Value" where
  "slot_at s cb sl = registers (frame s) ! (base_register_index cb + sl)"

definition put_slots ::
    "('m, 'i) RegInstance \<Rightarrow> RegCallerBaseData \<Rightarrow> nat \<Rightarrow> Value list \<Rightarrow> ('m, 'i) RegInstance" where
  "put_slots s cb r vs = s\<lparr>frame := frame s\<lparr>registers :=
     overwrite (registers (frame s)) (base_register_index cb + r) vs\<rparr>\<rparr>"

lemma overwrite_single: "i < length xs \<Longrightarrow> overwrite xs i [v] = xs[i := v]"
  by (simp add: overwrite_def upd_conv_take_nth_drop)

lemma on_frame_eq: "m (frame s) = Ok (a, f) \<Longrightarrow> on_frame m s = Ok (a, s\<lparr>frame := f\<rparr>)"
  by (simp add: on_field_def)

lemma slot_value_eq: "in_frame s cb sl \<Longrightarrow> slot_value sl cb s = Ok (slot_at s cb sl, s)"
  by (simp add: slot_value_def in_frame_def slot_at_def u32_add_def bnd_lift_result
      on_frame_eq get_register_eq)

lemma operand_eq:
  "k < length input \<Longrightarrow> in_frame s cb (input ! k) \<Longrightarrow> operand input k cb s = Ok (slot_at s cb (input ! k), s)"
  by (simp add: operand_def index_def bnd_lift_result slot_value_eq)

lemma operand_i32_eq:
  "k < length input \<Longrightarrow> in_frame s cb (input ! k) \<Longrightarrow>
     operand_i32 input k cb s = Ok (as_i32 (slot_at s cb (input ! k)), s)"
  by (simp add: operand_i32_def bnd_eq operand_eq ret_eq)

lemma operand_usize_eq:
  "k < length input \<Longrightarrow> in_frame s cb (input ! k) \<Longrightarrow>
     operand_usize input k cb s = Ok (unat (as_i32 (slot_at s cb (input ! k))), s)"
  by (simp add: operand_usize_def bnd_eq operand_i32_eq ret_eq)

text \<open>The three operands of a bulk memory operator.\<close>

lemma three_operands:
  "in_frame s cb x \<Longrightarrow> operand_usize [x, y, z] 0 cb s = Ok (unat (as_i32 (slot_at s cb x)), s)"
  "in_frame s cb y \<Longrightarrow> operand_usize [x, y, z] 1 cb s = Ok (unat (as_i32 (slot_at s cb y)), s)"
  "in_frame s cb y \<Longrightarrow> operand_i32 [x, y, z] 1 cb s = Ok (as_i32 (slot_at s cb y), s)"
  "in_frame s cb z \<Longrightarrow> operand_usize [x, y, z] 2 cb s = Ok (unat (as_i32 (slot_at s cb z)), s)"
  by (simp_all add: operand_usize_eq operand_i32_eq)

lemma set_value_to_register_eq:
  "in_frame s cb r \<Longrightarrow> set_value_to_register r v cb s = Ok ((), put_slots s cb r [v])"
  by (simp add: set_value_to_register_def in_frame_def put_slots_def u32_add_def bnd_lift_result
      on_frame_eq set_register_eq overwrite_single)

lemma write_next_eq: "in_frame s cb r \<Longrightarrow> write_next r v cb s = Ok (Next, put_slots s cb r [v])"
  by (simp add: write_next_def bnd_eq set_value_to_register_eq ret_eq)

lemma put_slots_same:
  assumes "base_register_index cb + r + length vs \<le> length (registers (frame s))" and "i < length vs"
  shows "slot_at (put_slots s cb r vs) cb (r + i) = vs ! i"
  using assms by (simp add: slot_at_def put_slots_def nth_overwrite)

lemma put_slots_other:
  assumes "base_register_index cb + r + length vs \<le> length (registers (frame s))"
    and "j < length (registers (frame s))"
    and "j < base_register_index cb + r \<or> base_register_index cb + r + length vs \<le> j"
  shows "registers (frame (put_slots s cb r vs)) ! j = registers (frame s) ! j"
  using assms by (auto simp: put_slots_def nth_overwrite)

lemma put_slots_same_but_frame [simp]: "same_but_frame s (put_slots s cb r vs)"
  by (simp add: put_slots_def)

lemma put_slots_fields [simp]:
  "memory (put_slots s cb r vs) = memory s" "global_vals (put_slots s cb r vs) = global_vals s"
  "data_vals (put_slots s cb r vs) = data_vals s" "table_vals (put_slots s cb r vs) = table_vals s"
  "config (put_slots s cb r vs) = config s" "element_vals (put_slots s cb r vs) = element_vals s"
  "import_registry (put_slots s cb r vs) = import_registry s"
  by (simp_all add: put_slots_def)

lemma in_frame_put_slots [simp]:
  "base_register_index cb + r + length vs \<le> length (registers (frame s)) \<Longrightarrow>
     in_frame (put_slots s cb r vs) cb' sl = in_frame s cb' sl"
  by (simp add: in_frame_def put_slots_def)

section \<open>Moves\<close>

text \<open>The destinations \<open>r\<close>, \<open>r + 1\<close>, \<dots> of \<open>n\<close> values are in the frame, and their indices are \<open>u16\<close>s.\<close>

definition run_in_frame :: "('m, 'i) RegInstance \<Rightarrow> RegCallerBaseData \<Rightarrow> nat \<Rightarrow> nat \<Rightarrow> bool" where
  "run_in_frame s cb r n \<longleftrightarrow> base_register_index cb + r + n \<le> length (registers (frame s)) \<and>
     base_register_index cb + r + n \<le> U32_MAX + 1 \<and> r + n \<le> U16_MAX + 1"

lemma gather_eq:
  assumes "\<forall>sl \<in> set input. in_frame s cb sl"
  shows "gather input cb s = Ok (map (slot_at s cb) input, s)"
proof -
  have "gather input cb s = Ok (map (\<lambda>k. slot_at s cb (input ! k)) [0..<0 + length input], s)"
    unfolding gather_def by (rule for_collect_pure) (use assms in \<open>simp add: operand_eq\<close>)
  also have "map (\<lambda>k. slot_at s cb (input ! k)) [0..<0 + length input] = map (slot_at s cb) input"
    by (rule nth_equalityI) simp_all
  finally show ?thesis .
qed

lemma put_slots_Cons:
  assumes "base_register_index cb + r + length vs < length (registers (frame s))"
  shows "put_slots (put_slots s cb r [v]) cb (Suc r) vs = put_slots s cb r (v # vs)"
  using assms overwrite_Cons [of "base_register_index cb + r" vs "registers (frame s)" v]
  by (simp add: put_slots_def overwrite_single)

lemma as_u16_id [simp]: "n \<le> U16_MAX \<Longrightarrow> as_u16 n = n"
  by (simp add: as_u16_def U16_MAX_def)

lemma put_slots_Nil [simp]: "put_slots s cb r [] = s"
  by (simp add: put_slots_def)

lemma scatter_from:
  assumes "run_in_frame s cb (r + i) (length vs)"
  shows "for_each (enumerate i vs) (\<lambda>(i, val). bnd (lift_result (u16_add r (as_u16 i)))
      (\<lambda>r. set_value_to_register r val cb)) s = Ok ((), put_slots s cb (r + i) vs)"
  using assms
proof (induction vs arbitrary: i s)
  case Nil
  then show ?case by (simp add: ret_eq)
next
  case (Cons v vs)
  let ?t = "put_slots s cb (r + i) [v]"
  have first: "bnd (lift_result (u16_add r (as_u16 i))) (\<lambda>r. set_value_to_register r v cb) s = Ok ((), ?t)"
    using Cons.prems
    by (simp add: run_in_frame_def u16_add_def bnd_lift_result set_value_to_register_eq in_frame_def)
  have "run_in_frame ?t cb (r + Suc i) (length vs)"
    using Cons.prems by (simp add: run_in_frame_def put_slots_def)
  from Cons.IH [OF this] first show ?case
    using Cons.prems put_slots_Cons [of cb "r + i" vs s v]
    by (simp add: bnd_eq run_in_frame_def enumerate_Suc_eq [symmetric])
qed

lemma scatter_eq:
  "run_in_frame s cb r (length vs) \<Longrightarrow> scatter r vs cb s = Ok ((), put_slots s cb r vs)"
  using scatter_from [of s cb r 0 vs] by (simp add: scatter_def)

definition movable :: "('m, 'i) RegInstance \<Rightarrow> RegCallerBaseData \<Rightarrow> DynSignature \<Rightarrow> bool" where
  "movable s cb mov \<longleftrightarrow> (\<forall>sl \<in> set (ds_input mov). in_frame s cb sl) \<and>
     run_in_frame s cb (ds_output_start mov) (length (ds_input mov))"

lemma execute_mov_eq:
  "movable s cb mov \<Longrightarrow> execute_mov mov cb s =
     Ok ((), put_slots s cb (ds_output_start mov) (map (slot_at s cb) (ds_input mov)))"
  by (simp add: movable_def execute_mov_def bnd_eq gather_eq scatter_eq)

section \<open>Branches\<close>

text \<open>\<open>moved s cb mov s'\<close>: \<open>s'\<close> is \<open>s\<close> after all the values of \<open>mov\<close> have moved at once.\<close>

definition moved ::
    "('m, 'i) RegInstance \<Rightarrow> RegCallerBaseData \<Rightarrow> DynSignature \<Rightarrow> ('m, 'i) RegInstance \<Rightarrow> bool" where
  "moved s cb mov s' \<longleftrightarrow> same_but_frame s s' \<and>
     length (registers (frame s')) = length (registers (frame s)) \<and>
     (\<forall>i < length (ds_input mov). slot_at s' cb (ds_output_start mov + i) = slot_at s cb (ds_input mov ! i)) \<and>
     (\<forall>j < length (registers (frame s)).
        j < base_register_index cb + ds_output_start mov \<or>
        base_register_index cb + ds_output_start mov + length (ds_input mov) \<le> j \<longrightarrow>
        registers (frame s') ! j = registers (frame s) ! j)"

lemma moved_put_slots:
  assumes "movable s cb mov"
  shows "moved s cb mov (put_slots s cb (ds_output_start mov) (map (slot_at s cb) (ds_input mov)))"
proof -
  have room: "base_register_index cb + ds_output_start mov + length (ds_input mov) \<le> length (registers (frame s))"
    using assms by (simp add: movable_def run_in_frame_def)
  then have "length (registers (frame (put_slots s cb (ds_output_start mov)
      (map (slot_at s cb) (ds_input mov))))) = length (registers (frame s))"
    by (simp add: put_slots_def)
  with room put_slots_same [of cb "ds_output_start mov" "map (slot_at s cb) (ds_input mov)" s]
    put_slots_other [of cb "ds_output_start mov" "map (slot_at s cb) (ds_input mov)" s]
  show ?thesis unfolding moved_def by simp
qed

end
