(* ===== verification/RegAgreement.thy ===== *)
theory RegAgreement
  imports RegOperands
begin

text \<open>
  The two machines compute the same. Every operator that both of them have reads its operands
  from the operand stack on the one and from frame slots on the other; given the same operands
  and the same memory, globals and segments, the two report the same, trap alike, change the
  memory, the globals and the segments alike, and produce the same result.
\<close>

section \<open>Runs side by side\<close>

text \<open>\<open>paired Q X m s n t\<close>: the two runs both succeed, with values and states in \<open>Q\<close>, or both fail
  with the same error in states in \<open>X\<close>, or both panic.\<close>

definition paired ::
    "('a \<Rightarrow> 's \<Rightarrow> 'b \<Rightarrow> 't \<Rightarrow> bool) \<Rightarrow> ('s \<Rightarrow> 't \<Rightarrow> bool) \<Rightarrow> ('s, 'e, 'a) op \<Rightarrow> 's \<Rightarrow> ('t, 'e, 'b) op \<Rightarrow> 't \<Rightarrow> bool" where
  "paired Q X m s n t = (case (m s, n t) of
      (Ok (a, s'), Ok (b, t')) \<Rightarrow> Q a s' b t'
    | (Err (e, s'), Err (e', t')) \<Rightarrow> e' = e \<and> X s' t'
    | (Panic, Panic) \<Rightarrow> True
    | _ \<Rightarrow> False)"

lemma paired_mono:
  assumes "paired P X m s n t" and "\<And>a s' b t'. P a s' b t' \<Longrightarrow> Q a s' b t'" and "\<And>s' t'. X s' t' \<Longrightarrow> Y s' t'"
  shows "paired Q Y m s n t"
  using assms by (auto simp: paired_def split: result.splits)

lemma paired_bnd:
  assumes "paired P X m s n t" and "\<And>a s' b t'. P a s' b t' \<Longrightarrow> paired Q X (f a) s' (g b) t'"
  shows "paired Q X (bnd m f) s (bnd n g) t"
proof (cases "m s")
  case (Ok p)
  with assms(1) obtain a s' b t' where "m s = Ok (a, s')" "n t = Ok (b, t')" "P a s' b t'"
    by (cases p) (auto simp: paired_def split: result.splits)
  with assms(2) [of a s' b t'] show ?thesis by (simp add: paired_def bnd_def)
qed (use assms(1) in \<open>auto simp: paired_def bnd_def split: result.splits\<close>)

lemma paired_left: "m s = Ok (a, s') \<Longrightarrow> paired Q X (f a) s' n t \<Longrightarrow> paired Q X (bnd m f) s n t"
  by (simp add: paired_def bnd_def)

lemma paired_right: "n t = Ok (b, t') \<Longrightarrow> paired Q X m s (g b) t' \<Longrightarrow> paired Q X m s (bnd n g) t"
  by (simp add: paired_def bnd_def)

lemma paired_lift:
  assumes "\<And>e. r = Err e \<Longrightarrow> X s t" and "\<And>a. r = Ok a \<Longrightarrow> paired Q X (f a) s (g a) t"
  shows "paired Q X (bnd (lift_result r) f) s (bnd (lift_result r) g) t"
  using assms by (cases r) (auto simp: paired_def bnd_def lift_result_def)

lemma paired_gets:
  "h s = k t \<Longrightarrow> paired Q X (f (h s)) s (g (h s)) t \<Longrightarrow> paired Q X (bnd (gets h) f) s (bnd (gets k) g) t"
  by (simp add: paired_def bnd_def gets_def)

lemma paired_ret: "Q a s b t \<Longrightarrow> paired Q X (ret a) s (ret b) t"
  by (simp add: paired_def ret_def)

lemma paired_fail: "X s t \<Longrightarrow> paired Q X (fail e) s (fail e) t"
  by (simp add: paired_def fail_def)

lemma paired_panic: "paired Q X panic s panic t"
  by (simp add: paired_def panic_def)

lemma paired_option:
  assumes "z = None \<Longrightarrow> paired Q X m s n t" and "\<And>x. z = Some x \<Longrightarrow> paired Q X (f x) s (g x) t"
  shows "paired Q X (case z of None \<Rightarrow> m | Some x \<Rightarrow> f x) s (case z of None \<Rightarrow> n | Some x \<Rightarrow> g x) t"
  using assms by (cases z) auto

lemma paired_if:
  assumes "c \<Longrightarrow> paired Q X m s n t" and "\<not> c \<Longrightarrow> paired Q X m' s n' t"
  shows "paired Q X (if c then m else m') s (if c then n else n') t"
  using assms by simp

section \<open>The two states\<close>

text \<open>What the two instances share: all but the frame.\<close>

definition same_env :: "('m, 'i, 'f) Instance \<Rightarrow> ('m, 'i, 'g) Instance \<Rightarrow> bool" where
  "same_env s t \<longleftrightarrow> memory s = memory t \<and> import_registry s = import_registry t \<and>
     config s = config t \<and> global_vals s = global_vals t \<and> table_vals s = table_vals t \<and>
     element_vals s = element_vals t \<and> data_vals s = data_vals t"

lemma same_env_simps [simp]:
  "same_env (s\<lparr>frame := f\<rparr>) t = same_env s t" "same_env s (t\<lparr>frame := g\<rparr>) = same_env s t"
  "same_env s (put_slots t' cb r vs) = same_env s t'"
  by (auto simp: same_env_def)

lemma same_envD:
  assumes "same_env s t"
  shows "memory s = memory t" "config s = config t" "global_vals s = global_vals t"
    "data_vals s = data_vals t" "table_vals s = table_vals t"
  using assms by (simp_all add: same_env_def)

text \<open>The state of the register machine after an operator: the destinations hold the results.\<close>

definition wrote :: "('m, 'i) RegInstance \<Rightarrow> RegCallerBaseData \<Rightarrow> nat list \<Rightarrow> Value list \<Rightarrow> RegFrame" where
  "wrote t cb outs ws = (case outs of [] \<Rightarrow> frame t | r # _ \<Rightarrow> frame (put_slots t cb r ws))"

definition agree_after ::
    "Value list \<Rightarrow> ('m, 'i) RegInstance \<Rightarrow> RegCallerBaseData \<Rightarrow> nat list \<Rightarrow>
     StackCallerBaseData Step \<Rightarrow> ('m, 'i) StackInstance \<Rightarrow> RegCallerBaseData Step \<Rightarrow> ('m, 'i) RegInstance \<Rightarrow> bool" where
  "agree_after vs t0 cb outs a s b t \<longleftrightarrow> a = Next \<and> b = Next \<and> same_env s t \<and>
     (\<exists>ws. length ws = length outs \<and> operands s (vs @ ws) \<and> frame t = wrote t0 cb outs ws)"

definition agree_trap :: "('m, 'i) RegInstance \<Rightarrow> ('m, 'i) StackInstance \<Rightarrow> ('m, 'i) RegInstance \<Rightarrow> bool" where
  "agree_trap t0 s t \<longleftrightarrow> same_env s t \<and> frame t = frame t0"

abbreviation agree where
  "agree vs t0 cb outs \<equiv> paired (agree_after vs t0 cb outs) (agree_trap t0)"

lemma pop_value_Ok:
  assumes "operands s (vs @ [v])"
  obtains f where "pop_value s = Ok (v, s\<lparr>frame := f\<rparr>)" "holds f vs"
proof -
  have "wp pop_value (\<lambda>a s'. a = v \<and> (\<exists>f. s' = s\<lparr>frame := f\<rparr> \<and> holds f vs)) (\<lambda>_ _. False) s"
    by (rule pop_value_wp [OF assms]) auto
  then show thesis
    by (auto simp: wp_def split: result.splits intro: that)
qed

lemma push_value_Ok:
  assumes "operands s vs"
  obtains f where "push_value v s = Ok ((), s\<lparr>frame := f\<rparr>)" "holds f (vs @ [v])"
proof -
  have "wp (push_value v) (\<lambda>a s'. \<exists>f. s' = s\<lparr>frame := f\<rparr> \<and> holds f (vs @ [v])) (\<lambda>_ _. False) s"
    by (rule push_value_wp [OF assms]) auto
  then show thesis
    by (auto simp: wp_def split: result.splits intro: that)
qed

section \<open>Steps of one side\<close>

lemma paired_pop_value:
  assumes "operands s (vs @ [v])" and "\<And>f. holds f vs \<Longrightarrow> paired Q X (g v) (s\<lparr>frame := f\<rparr>) n t"
  shows "paired Q X (bnd pop_value g) s n t"
  using pop_value_Ok [OF assms(1)] assms(2) paired_left by metis

lemma bnd_assoc: "bnd (bnd m f) g = bnd m (\<lambda>a. bnd (f a) g)"
  by (rule ext) (auto simp: bnd_def split: result.split)

lemma bnd_ret_left: "bnd (ret a) f = f a"
  by (rule ext) (simp add: bnd_def ret_def)

lemma paired_pop_i32:
  assumes "operands s (vs @ [v])" and "\<And>f. holds f vs \<Longrightarrow> paired Q X (g (as_i32 v)) (s\<lparr>frame := f\<rparr>) n t"
  shows "paired Q X (bnd pop_i32 g) s n t"
  unfolding pop_i32_def bnd_assoc bnd_ret_left
  by (rule paired_pop_value [OF assms(1)]) (rule assms(2))

lemma paired_pop_usize:
  assumes "operands s (vs @ [v])"
    and "\<And>f. holds f vs \<Longrightarrow> paired Q X (g (unat (as_i32 v))) (s\<lparr>frame := f\<rparr>) n t"
  shows "paired Q X (bnd pop_usize g) s n t"
  unfolding pop_usize_def bnd_assoc bnd_ret_left
  by (rule paired_pop_i32 [OF assms(1)]) (rule assms(2))

lemma paired_pop_two:
  assumes "operands s (vs @ [a, b])"
    and "\<And>f. holds f vs \<Longrightarrow> paired Q X (g b a) (s\<lparr>frame := f\<rparr>) n t"
  shows "paired Q X (bnd pop_value (\<lambda>b. bnd pop_value (g b))) s n t"
proof (rule paired_pop_value [of s "vs @ [a]" b])
  fix f assume "holds f (vs @ [a])"
  then show "paired Q X (bnd pop_value (g b)) (s\<lparr>frame := f\<rparr>) n t"
    by (intro paired_pop_value [of _ vs a]) (use assms(2) in auto)
qed (use assms(1) in simp)

lemma paired_pop_three:
  assumes "operands s (vs @ [a, b, c])"
    and "\<And>f. holds f vs \<Longrightarrow> paired Q X (g c b a) (s\<lparr>frame := f\<rparr>) n t"
  shows "paired Q X (bnd pop_value (\<lambda>c. bnd pop_value (\<lambda>b. bnd pop_value (g c b)))) s n t"
proof (rule paired_pop_value [of s "vs @ [a, b]" c])
  fix f assume "holds f (vs @ [a, b])"
  then show "paired Q X (bnd pop_value (\<lambda>b. bnd pop_value (g c b))) (s\<lparr>frame := f\<rparr>) n t"
    by (intro paired_pop_two [of _ vs a b]) (use assms(2) in auto)
qed (use assms(1) in simp)

lemmas pop_values = pop_usize_def pop_i32_def bnd_assoc bnd_ret_left

lemma paired_push:
  assumes "operands s vs" "same_env s t" "frame t = frame t0" "in_frame t0 cb r"
  shows "agree vs t0 cb [r] (push_next v) s (write_next r v cb) t"
proof -
  obtain f where f: "push_value v s = Ok ((), s\<lparr>frame := f\<rparr>)" "holds f (vs @ [v])"
    using push_value_Ok [OF assms(1)] .
  have "in_frame t cb r" using assms(3,4) by (simp add: in_frame_def)
  from write_next_eq [OF this] have "write_next r v cb t = Ok (Next, put_slots t cb r [v])" .
  moreover have "push_next v s = Ok (Next, s\<lparr>frame := f\<rparr>)"
    using f(1) by (simp add: push_next_def bnd_eq ret_eq)
  moreover have "frame (put_slots t cb r [v]) = frame (put_slots t0 cb r [v])"
    using assms(3) by (simp add: put_slots_def)
  ultimately show ?thesis
    using assms(2) f(2)
    by (auto simp: paired_def agree_after_def wrote_def operands_def intro!: exI [of _ "[v]"])
qed

lemma paired_done:
  assumes "operands s vs" "same_env s t" "frame t = frame t0"
  shows "agree vs t0 cb [] (ret Next) s (ret Next) t"
  using assms by (intro paired_ret) (simp add: agree_after_def wrote_def)

lemma paired_memory:
  assumes "same_env s t" and "operands s vs" and "frame t = frame t0"
    and "\<And>a s' t'. same_env s' t' \<Longrightarrow> operands s' vs \<Longrightarrow> frame t' = frame t0 \<Longrightarrow>
      paired Q (agree_trap t0) (f a) s' (g a) t'"
  shows "paired Q (agree_trap t0) (bnd (on_memory m) f) s (bnd (on_memory m) g) t"
proof (cases "m (memory s)")
  case (Ok p)
  obtain a mem where p: "p = (a, mem)" by (cases p)
  have "same_env (s\<lparr>memory := mem\<rparr>) (t\<lparr>memory := mem\<rparr>)"
    using assms(1) by (simp add: same_env_def)
  from assms(4) [OF this] Ok p assms(1-3) show ?thesis
    by (simp add: paired_def bnd_def on_field_def same_env_def)
next
  case (Err p)
  obtain e mem where p: "p = (e, mem)" by (cases p)
  have "same_env (s\<lparr>memory := mem\<rparr>) (t\<lparr>memory := mem\<rparr>)"
    using assms(1) by (simp add: same_env_def)
  with Err p assms(1,3) show ?thesis
    by (simp add: paired_def bnd_def on_field_def same_env_def agree_trap_def)
next
  case Panic
  with assms(1) show ?thesis by (simp add: paired_def bnd_def on_field_def same_env_def)
qed

lemma paired_attempt_memory:
  assumes "same_env s t" and "operands s vs" and "frame t = frame t0"
    and "\<And>a s' t'. same_env s' t' \<Longrightarrow> operands s' vs \<Longrightarrow> frame t' = frame t0 \<Longrightarrow>
      paired Q X (f a) s' (g a) t'"
  shows "paired Q X (bnd (attempt (on_memory m)) f) s (bnd (attempt (on_memory m)) g) t"
proof (cases "m (memory s)")
  case (Ok p)
  obtain a mem where p: "p = (a, mem)" by (cases p)
  have "same_env (s\<lparr>memory := mem\<rparr>) (t\<lparr>memory := mem\<rparr>)"
    using assms(1) by (simp add: same_env_def)
  from assms(4) [OF this] Ok p assms(1-3) show ?thesis
    by (simp add: paired_def bnd_def on_field_def attempt_def same_env_def)
next
  case (Err p)
  obtain e mem where p: "p = (e, mem)" by (cases p)
  have "same_env (s\<lparr>memory := mem\<rparr>) (t\<lparr>memory := mem\<rparr>)"
    using assms(1) by (simp add: same_env_def)
  from assms(4) [OF this] Err p assms(1-3) show ?thesis
    by (simp add: paired_def bnd_def on_field_def attempt_def same_env_def)
next
  case Panic
  with assms(1) show ?thesis by (simp add: paired_def bnd_def on_field_def attempt_def same_env_def)
qed

lemma agree_trapI [intro]: "same_env s t \<Longrightarrow> frame t = frame t0 \<Longrightarrow> agree_trap t0 s t"
  by (simp add: agree_trap_def)

end
