(* ===== verification/RegOperators.thy ===== *)
theory RegOperators
  imports RegAgreement
begin

text \<open>
  The operators both machines have, one by one, and the property that they agree.
\<close>

section \<open>What operator an instruction implements\<close>

text \<open>The operands an operator pops.\<close>

fun operator_arity :: "StackInstruction \<Rightarrow> nat" where
  "operator_arity (GlobalSet i) = 1"
| "operator_arity (Load l off) = 1"
| "operator_arity (Store st off) = 2"
| "operator_arity (Numeric n) = fst (numeric_effect n)"
| "operator_arity Select = 3"
| "operator_arity RefIsNull = 1"
| "operator_arity (MemoryGrow) = 1"
| "operator_arity MemoryCopy = 3"
| "operator_arity MemoryFill = 3"
| "operator_arity (MemoryInit i) = 3"
| "operator_arity _ = 0"

text \<open>
  \<open>operator_form layout x = Some (y, ins, outs)\<close>: the register instruction \<open>x\<close> is the operator \<open>y\<close>
  of the stack machine on the operand slots \<open>ins\<close>, deepest first, with the destinations \<open>outs\<close>.
\<close>

fun operator_form ::
    "RegFrameLayout \<Rightarrow> RegInstruction \<Rightarrow> (StackInstruction \<times> nat list \<times> nat list) option" where
  "operator_form layout (RGlobalGet i out) = Some (GlobalGet i, [], [out])"
| "operator_form layout (RGlobalSet i inp) = Some (GlobalSet i, inp, [])"
| "operator_form layout (RLoad l off sig) =
     (if off < length (fl_memory_offsets layout)
      then Some (Load l (fl_memory_offsets layout ! off), sg_input sig, [sg_output sig]) else None)"
| "operator_form layout (RStore st off inp) =
     (if off < length (fl_memory_offsets layout)
      then Some (Store st (fl_memory_offsets layout ! off), inp, []) else None)"
| "operator_form layout (RNumeric n sig) = Some (Numeric n, sg_input sig, [sg_output sig])"
| "operator_form layout (RSelect eid) =
     (if eid < length (fl_select_arena layout)
      then Some (Select, sg_input (fl_select_arena layout ! eid), [sg_output (fl_select_arena layout ! eid)])
      else None)"
| "operator_form layout (RRefIsNull sig) = Some (RefIsNull, sg_input sig, [sg_output sig])"
| "operator_form layout RUnreachable = Some (Unreachable, [], [])"
| "operator_form layout (RMemorySize out) = Some (MemorySize, [], [out])"
| "operator_form layout (RMemoryGrow sig) = Some (MemoryGrow, sg_input sig, [sg_output sig])"
| "operator_form layout (RMemoryCopy inp) = Some (MemoryCopy, inp, [])"
| "operator_form layout (RMemoryFill inp) = Some (MemoryFill, inp, [])"
| "operator_form layout (RMemoryInit eid) =
     (if eid < length (fl_memory_init_arena layout)
      then Some (MemoryInit (mi_data_index (fl_memory_init_arena layout ! eid)),
        mi_operands (fl_memory_init_arena layout ! eid), []) else None)"
| "operator_form layout (RDataDrop i) = Some (DataDrop i, [], [])"
| "operator_form layout _ = None"

section \<open>Numeric operators\<close>

lemma agree_unary:
  assumes "sg_input sig = [x]" "operands s (vs @ [slot_at t cb x])" "same_env s t"
    and "in_frame t cb x" "in_frame t cb (sg_output sig)"
  shows "agree vs t cb [sg_output sig] (exec_unary f) s (reg_unary f sig cb) t"
  unfolding exec_unary_def reg_unary_def
proof (rule paired_pop_value [OF assms(2)], rule paired_right)
  show "operand (sg_input sig) 0 cb t = Ok (slot_at t cb x, t)"
    using assms(1,4) by (simp add: operand_eq)
  fix fr assume "holds fr vs"
  with assms show "agree vs t cb [sg_output sig] (bnd (lift_result (f (slot_at t cb x))) push_next) (s\<lparr>frame := fr\<rparr>)
      (bnd (lift_result (f (slot_at t cb x))) (\<lambda>v. write_next (sg_output sig) v cb)) t"
    by (intro paired_lift paired_push agree_trapI) simp_all
qed

lemma agree_binary:
  assumes "sg_input sig = [x, y]" "operands s (vs @ [slot_at t cb x, slot_at t cb y])" "same_env s t"
    and "in_frame t cb x" "in_frame t cb y" "in_frame t cb (sg_output sig)"
  shows "agree vs t cb [sg_output sig] (exec_binary f) s (reg_binary f sig cb) t"
  unfolding exec_binary_def reg_binary_def
proof (rule paired_pop_two [OF assms(2)])
  fix fr assume "holds fr vs"
  moreover have "operand (sg_input sig) 0 cb t = Ok (slot_at t cb x, t)"
    and "operand (sg_input sig) 1 cb t = Ok (slot_at t cb y, t)"
    using assms(1,4,5) by (simp_all add: operand_eq)
  ultimately show "agree vs t cb [sg_output sig]
      (bnd (lift_result (f (slot_at t cb x) (slot_at t cb y))) push_next) (s\<lparr>frame := fr\<rparr>)
      (bnd (operand (sg_input sig) 0 cb) (\<lambda>a. bnd (operand (sg_input sig) 1 cb) (\<lambda>b.
       bnd (lift_result (f a b)) (\<lambda>v. write_next (sg_output sig) v cb)))) t"
    using assms
    by (intro paired_right [where b = "slot_at t cb x"] paired_right [where b = "slot_at t cb y"]
        paired_lift paired_push agree_trapI) simp_all
qed

lemma agree_numeric:
  assumes "length (sg_input sig) = fst (numeric_effect n)"
    and "\<forall>sl \<in> set (sg_input sig). in_frame t cb sl" "in_frame t cb (sg_output sig)"
    and "operands s (vs @ map (slot_at t cb) (sg_input sig))" "same_env s t"
  shows "agree vs t cb [sg_output sig] (exec_numeric fe n) s (reg_exec_numeric fe n sig cb) t"
proof -
  have unary: "agree vs t cb [sg_output sig] (exec_unary f) s (reg_unary f sig cb) t"
    if one: "length (sg_input sig) = 1" for f
  proof -
    from one obtain x where "sg_input sig = [x]" by (cases "sg_input sig") auto
    with assms show ?thesis by (intro agree_unary) auto
  qed
  have binary: "agree vs t cb [sg_output sig] (exec_binary f) s (reg_binary f sig cb) t"
    if two: "length (sg_input sig) = 2" for f
  proof -
    from two obtain x y where xy: "sg_input sig = [x, y]"
      by (cases "sg_input sig"; cases "tl (sg_input sig)") auto
    show ?thesis by (rule agree_binary [OF xy]) (use assms xy in auto)
  qed
  show ?thesis
    using assms(1) by (cases n) (simp_all add: reg_numeric_defs unary binary)
qed

section \<open>Variables, references and segments\<close>

lemma agree_global_get:
  assumes "operands s vs" "same_env s t" "in_frame t cb out"
  shows "agree vs t cb [out] (exec_global_get i) s (reg_exec_global_get i out cb) t"
  unfolding exec_global_get_def reg_exec_global_get_def
  by (rule paired_gets) (use assms in \<open>auto intro!: paired_lift paired_push simp: same_env_def\<close>)

lemma agree_data_drop:
  assumes "operands s vs" "same_env s t"
  shows "agree vs t cb [] (exec_data_drop i) s (reg_exec_data_drop i) t"
  using assms
  by (auto simp: exec_data_drop_def reg_exec_data_drop_def paired_def bnd_def gets_def modify_def
      ret_def panic_def agree_after_def wrote_def same_env_def)

lemma agree_global_set:
  assumes "inp = [x]" "operands s (vs @ [slot_at t cb x])" "same_env s t" "in_frame t cb x"
    and "md_globals md = md_globals md'"
  shows "agree vs t cb [] (exec_global_set md i) s (reg_exec_global_set md' i inp cb) t"
  unfolding exec_global_set_def reg_exec_global_set_def
proof (rule paired_pop_value [OF assms(2)], unfold assms(5), rule paired_lift)
  fix fr g assume fr: "holds fr vs"
  have "operand inp 0 cb t = Ok (slot_at t cb x, t)"
    using assms(1,4) by (simp add: operand_eq)
  then show "agree vs t cb []
      (bnd (lift_result (into_val (slot_at t cb x) (gt_content_type g))) (\<lambda>x.
       bnd (gets global_vals) (\<lambda>gs. if unat i < length gs
         then bnd (modify (\<lambda>s. s\<lparr>global_vals := gs[unat i := x]\<rparr>)) (\<lambda>_. ret Next) else panic)))
      (s\<lparr>frame := fr\<rparr>)
      (bnd (operand inp 0 cb) (\<lambda>v. bnd (lift_result (into_val v (gt_content_type g))) (\<lambda>x.
       bnd (gets global_vals) (\<lambda>gs. if unat i < length gs
         then bnd (modify (\<lambda>s. s\<lparr>global_vals := gs[unat i := x]\<rparr>)) (\<lambda>_. ret Next) else panic)))) t"
    using fr assms(3)
    by (intro paired_right [where b = "slot_at t cb x" and t' = t] paired_lift)
      (auto simp: paired_def bnd_def gets_def modify_def ret_def panic_def agree_after_def wrote_def
        same_env_def agree_trap_def operands_def)
qed (use assms(3) in auto)

lemma agree_ref_is_null:
  assumes "sg_input sig = [x]" "operands s (vs @ [slot_at t cb x])" "same_env s t"
    and "in_frame t cb x" "in_frame t cb (sg_output sig)"
  shows "agree vs t cb [sg_output sig] exec_ref_is_null s (reg_exec_ref_is_null sig cb) t"
  unfolding exec_ref_is_null_def reg_exec_ref_is_null_def
proof (rule paired_pop_value [OF assms(2)], rule paired_right)
  show "operand (sg_input sig) 0 cb t = Ok (slot_at t cb x, t)"
    using assms(1,4) by (simp add: operand_eq)
qed (use assms in \<open>auto intro!: paired_push\<close>)

lemma agree_select:
  assumes "eid < length (fl_select_arena layout)" "entry = fl_select_arena layout ! eid"
    and "sg_input entry = [x, y, z]" "same_env s t"
    and "operands s (vs @ [slot_at t cb x, slot_at t cb y, slot_at t cb z])"
    and "in_frame t cb x" "in_frame t cb y" "in_frame t cb z" "in_frame t cb (sg_output entry)"
  shows "agree vs t cb [sg_output entry] exec_select s (reg_exec_select eid layout cb) t"
  unfolding exec_select_def
  unfolding pop_values
proof (rule paired_pop_three [OF assms(5)])
  fix fr assume "holds fr vs"
  let ?v = "if as_i32 (slot_at t cb z) \<noteq> 0 then slot_at t cb x else slot_at t cb y"
  have "reg_exec_select eid layout cb t = write_next (sg_output entry) ?v cb t"
    using assms by (simp add: reg_exec_select_def index_def bnd_lift_result bnd_eq operand_eq operand_i32_eq)
  moreover have "agree vs t cb [sg_output entry] (push_next ?v) (s\<lparr>frame := fr\<rparr>)
      (write_next (sg_output entry) ?v cb) t"
    by (rule paired_push) (use \<open>holds fr vs\<close> assms in simp_all)
  ultimately show "agree vs t cb [sg_output entry] (push_next ?v) (s\<lparr>frame := fr\<rparr>)
      (reg_exec_select eid layout cb) t"
    by (simp add: paired_def)
qed

section \<open>Memory\<close>

lemma agree_memory_size:
  assumes "operands s vs" "same_env s t" "in_frame t cb out"
  shows "agree vs t cb [out] (exec_memory_size D) s (reg_exec_memory_size D out cb) t"
  unfolding exec_memory_size_def reg_exec_memory_size_def
  by (rule paired_gets) (use assms in \<open>auto intro!: paired_push simp: same_env_def\<close>)

lemma effective_address_eq:
  assumes "off < length (fl_memory_offsets layout)" "inp \<noteq> []" "in_frame t cb (hd inp)"
  shows "reg_effective_address off layout inp cb t =
    (let a = as_i32 (slot_at t cb (hd inp)); k = fl_memory_offsets layout ! off
     in case u32_checked_add (unat a) (unat k) of
          None \<Rightarrow> Err (Memory (EffectiveAddressOverflow a k), t) | Some e \<Rightarrow> Ok (e, t))"
  using assms
  by (simp add: reg_effective_address_def index_def bnd_lift_result bnd_eq operand_i32_eq hd_conv_nth
      Let_def fail_def ret_def split: option.split)

lemma paired_address:
  assumes "operands s (vs @ [slot_at t cb x])" "off < length (fl_memory_offsets layout)"
    and "in_frame t cb x" "inp \<noteq> []" "hd inp = x" "same_env s t"
    and "\<And>a f. holds f vs \<Longrightarrow> paired Q (agree_trap t) (g a) (s\<lparr>frame := f\<rparr>) (h a) t"
  shows "paired Q (agree_trap t) (bnd (pop_effective_address (fl_memory_offsets layout ! off)) g) s
    (bnd (reg_effective_address off layout inp cb) h) t"
  unfolding pop_effective_address_def pop_values
proof (rule paired_pop_value [OF assms(1)])
  fix f assume f: "holds f vs"
  let ?a = "as_i32 (slot_at t cb x)" and ?o = "fl_memory_offsets layout ! off"
  show "paired Q (agree_trap t)
      (bnd (case u32_checked_add (unat ?a) (unat ?o) of
          None \<Rightarrow> fail (Memory (EffectiveAddressOverflow ?a ?o)) | Some e \<Rightarrow> ret e) g) (s\<lparr>frame := f\<rparr>)
      (bnd (reg_effective_address off layout inp cb) h) t"
  proof (cases "u32_checked_add (unat ?a) (unat ?o)")
    case None
    then show ?thesis
      using effective_address_eq [of off layout inp t cb] assms(2-6)
      by (simp add: paired_def bnd_def fail_def agree_trap_def Let_def)
  next
    case (Some e)
    then have "reg_effective_address off layout inp cb t = Ok (e, t)"
      using effective_address_eq [of off layout inp t cb] assms(2-5) by (simp add: Let_def)
    then show ?thesis
      using assms(7) [OF f] by (simp add: Some bnd_ret_left paired_right)
  qed
qed

lemma agree_load:
  assumes "sg_input sig = [x]" "operands s (vs @ [slot_at t cb x])" "same_env s t"
    and "in_frame t cb x" "in_frame t cb (sg_output sig)" "off < length (fl_memory_offsets layout)"
  shows "agree vs t cb [sg_output sig] (exec_load D l (fl_memory_offsets layout ! off)) s
    (reg_exec_load D l off sig layout cb) t"
  unfolding exec_load_def reg_exec_load_def
proof (rule paired_address [OF assms(2,6,4)])
  fix a f assume "holds f vs"
  then show "agree vs t cb [sg_output sig] (bnd (on_memory (load_value D l a)) push_next) (s\<lparr>frame := f\<rparr>)
      (bnd (on_memory (load_value D l a)) (\<lambda>v. write_next (sg_output sig) v cb)) t"
    using assms by (intro paired_memory [where vs = vs] paired_push) simp_all
qed (use assms in auto)

lemma agree_store:
  assumes "inp = [x, y]" "operands s (vs @ [slot_at t cb x, slot_at t cb y])" "same_env s t"
    and "in_frame t cb x" "in_frame t cb y" "off < length (fl_memory_offsets layout)"
  shows "agree vs t cb [] (exec_store D st (fl_memory_offsets layout ! off)) s
    (reg_exec_store D st off inp layout cb) t"
  unfolding exec_store_def reg_exec_store_def
proof (rule paired_pop_value [where vs = "vs @ [slot_at t cb x]" and v = "slot_at t cb y"],
    goal_cases)
  case (2 f)
  have "operand inp 1 cb t = Ok (slot_at t cb y, t)"
    using assms(1,5) by (simp add: operand_eq)
  moreover have "agree vs t cb []
      (bnd (pop_effective_address (fl_memory_offsets layout ! off))
        (\<lambda>a. bnd (on_memory (store_value D st a (slot_at t cb y))) (\<lambda>_. ret Next))) (s\<lparr>frame := f\<rparr>)
      (bnd (reg_effective_address off layout inp cb)
        (\<lambda>a. bnd (on_memory (store_value D st a (slot_at t cb y))) (\<lambda>_. ret Next))) t"
  proof (rule paired_address [OF _ assms(6,4)])
    fix a f' assume "holds f' vs"
    then show "agree vs t cb [] (bnd (on_memory (store_value D st a (slot_at t cb y))) (\<lambda>_. ret Next))
        (s\<lparr>frame := f, frame := f'\<rparr>)
        (bnd (on_memory (store_value D st a (slot_at t cb y))) (\<lambda>_. ret Next)) t"
      using assms(3) by (intro paired_memory [where vs = vs] paired_done) simp_all
  qed (use 2 assms in auto)
  ultimately show ?case by (rule paired_right)
qed (use assms(2) in simp)

lemma agree_memory_grow:
  assumes "sg_input sig = [x]" "operands s (vs @ [slot_at t cb x])" "same_env s t"
    and "in_frame t cb x" "in_frame t cb (sg_output sig)"
  shows "agree vs t cb [sg_output sig] (exec_memory_grow D) s (reg_exec_memory_grow D sig cb) t"
  unfolding exec_memory_grow_def reg_exec_memory_grow_def pop_values
proof (rule paired_pop_value [OF assms(2)], rule paired_right)
  show "operand_usize (sg_input sig) 0 cb t = Ok (unat (as_i32 (slot_at t cb x)), t)"
    using assms(1,4) by (simp add: operand_usize_eq)
  fix f assume "holds f vs"
  with assms show "agree vs t cb [sg_output sig]
      (bnd (gets (\<lambda>s. unat (max_memory_size_in_pages (config s)))) (\<lambda>max_pages.
       bnd (attempt (on_memory (mv_grow D (unat (as_i32 (slot_at t cb x))) max_pages))) (\<lambda>r.
         case r of Inr old_page \<Rightarrow> push_next (from_i32 (of_nat old_page))
         | Inl _ \<Rightarrow> push_next (from_i32 (- 1))))) (s\<lparr>frame := f\<rparr>)
      (bnd (gets (\<lambda>s. unat (max_memory_size_in_pages (config s)))) (\<lambda>max_pages.
       bnd (attempt (on_memory (mv_grow D (unat (as_i32 (slot_at t cb x))) max_pages))) (\<lambda>r.
         case r of Inr old_page \<Rightarrow> write_next (sg_output sig) (from_i32 (of_nat old_page)) cb
         | Inl _ \<Rightarrow> write_next (sg_output sig) (from_i32 (- 1)) cb))) t"
    by (intro paired_gets paired_attempt_memory [where vs = vs and ?t0.0 = t])
      (auto simp: same_env_def intro!: paired_push [unfolded same_env_def] split: sum.split)
qed

lemma agree_memory_copy:
  assumes "inp = [x, y, z]" "operands s (vs @ map (slot_at t cb) [x, y, z])" "same_env s t"
    and "in_frame t cb x" "in_frame t cb y" "in_frame t cb z"
  shows "agree vs t cb [] (exec_memory_copy D) s (reg_exec_memory_copy D inp cb) t"
  unfolding exec_memory_copy_def reg_exec_memory_copy_def pop_values
proof (rule paired_pop_three [OF assms(2) [simplified]], unfold assms(1))
  fix f assume "holds f vs"
  with assms show "agree vs t cb []
      (bnd (on_memory (mv_copy_within D (unat (as_i32 (slot_at t cb x))) (unat (as_i32 (slot_at t cb y)))
        (unat (as_i32 (slot_at t cb z))))) (\<lambda>_. ret Next)) (s\<lparr>frame := f\<rparr>)
      (bnd (operand_usize [x, y, z] 0 cb) (\<lambda>dest. bnd (operand_usize [x, y, z] 1 cb) (\<lambda>src.
       bnd (operand_usize [x, y, z] 2 cb) (\<lambda>len.
       bnd (on_memory (mv_copy_within D dest src len)) (\<lambda>_. ret Next))))) t"
    by (intro three_operands [THEN paired_right] paired_memory [where vs = vs] paired_done) simp_all
qed

lemma agree_memory_fill:
  assumes "inp = [x, y, z]" "operands s (vs @ map (slot_at t cb) [x, y, z])" "same_env s t"
    and "in_frame t cb x" "in_frame t cb y" "in_frame t cb z"
  shows "agree vs t cb [] (exec_memory_fill D) s (reg_exec_memory_fill D inp cb) t"
  unfolding exec_memory_fill_def reg_exec_memory_fill_def pop_values
proof (rule paired_pop_three [OF assms(2) [simplified]], unfold assms(1))
  fix f assume "holds f vs"
  with assms show "agree vs t cb []
      (bnd (on_memory (mv_fill D (unat (as_i32 (slot_at t cb x))) (as_i32 (slot_at t cb y))
        (unat (as_i32 (slot_at t cb z))))) (\<lambda>_. ret Next)) (s\<lparr>frame := f\<rparr>)
      (bnd (operand_usize [x, y, z] 0 cb) (\<lambda>dest. bnd (operand_i32 [x, y, z] 1 cb) (\<lambda>val.
       bnd (operand_usize [x, y, z] 2 cb) (\<lambda>len.
       bnd (on_memory (mv_fill D dest val len)) (\<lambda>_. ret Next))))) t"
    by (intro three_operands [THEN paired_right]
        paired_memory [where vs = vs] paired_done) simp_all
qed

lemma agree_memory_init:
  assumes "eid < length (fl_memory_init_arena layout)" "entry = fl_memory_init_arena layout ! eid"
    and "mi_operands entry = [x, y, z]" "operands s (vs @ map (slot_at t cb) [x, y, z])" "same_env s t"
    and "in_frame t cb x" "in_frame t cb y" "in_frame t cb z"
  shows "agree vs t cb [] (exec_memory_init D (mi_data_index entry)) s (reg_exec_memory_init D eid layout cb) t"
  unfolding exec_memory_init_def reg_exec_memory_init_def pop_values Let_def
proof (rule paired_pop_three [OF assms(4) [simplified]], goal_cases)
  case (1 f)
  have entry: "index (fl_memory_init_arena layout) eid = Ok entry"
    using assms(1,2) by (simp add: index_def)
  have env: "same_env (s\<lparr>frame := f\<rparr>) t" using assms(5) by simp
  from env have data: "data_vals (s\<lparr>frame := f\<rparr>) = data_vals t" by (simp add: same_env_def)
  show ?case
    unfolding entry bnd_lift_result assms(3)
    by (intro three_operands [THEN paired_right] paired_gets paired_lift paired_option paired_if
        paired_fail paired_memory [where vs = vs] paired_done agree_trapI env data)
      (use 1 assms in simp_all)
qed

section \<open>All of them\<close>

lemma agree_operator:
  assumes "operator_form layout x = Some (y, ins, outs)" and "length ins = operator_arity y"
    and "\<forall>sl \<in> set ins \<union> set outs. in_frame t cb sl"
    and "same_env s t" and "operands s (vs @ map (slot_at t cb) ins)"
    and "md_globals md = md_globals md'"
  shows "agree vs t cb outs (execute fe D R y md layout' cb' imported) s
    (reg_execute fe D R x md' layout cb imported) t"
proof -
  have one: "\<exists>x. inp = [x]" if "length inp = 1" for inp :: "nat list"
    using that by (cases inp) auto
  have two: "\<exists>x y. inp = [x, y]" if "length inp = 2" for inp :: "nat list"
    using that by (cases inp; cases "tl inp") auto
  have three: "\<exists>x y z. inp = [x, y, z]" if "length inp = 3" for inp :: "nat list"
    using that by (cases inp; cases "tl inp"; cases "tl (tl inp)") auto
  show ?thesis
  proof (cases x)
    case (RGlobalGet i out)
    with assms show ?thesis by (auto intro: agree_global_get)
  next
    case (RGlobalSet i inp)
    with assms(2) obtain u where "inp = [u]" using one [of inp] assms(1) by auto
    with RGlobalSet assms show ?thesis by (auto intro: agree_global_set)
  next
    case (RNumeric n sig)
    with assms show ?thesis by (auto intro: agree_numeric)
  next
    case (RLoad l off sig)
    with assms(1,2) obtain u where u: "sg_input sig = [u]"
      using one [of "sg_input sig"] by (auto split: if_splits)
    from RLoad assms show ?thesis
      by (auto simp: u intro!: agree_load [OF u] split: if_splits)
  next
    case (RStore st off inp)
    with assms(1,2) obtain u v where "inp = [u, v]"
      using two [of inp] by (auto split: if_splits)
    with RStore assms show ?thesis by (auto intro: agree_store split: if_splits)
  next
    case (RSelect eid)
    with assms(1,2) obtain u v w where u: "sg_input (fl_select_arena layout ! eid) = [u, v, w]"
      using three [of "sg_input (fl_select_arena layout ! eid)"] by (auto split: if_splits)
    from RSelect assms show ?thesis
      by (auto simp: u intro!: agree_select [OF _ refl u] split: if_splits)
  next
    case (RRefIsNull sig)
    with assms(1,2) obtain u where u: "sg_input sig = [u]" using one [of "sg_input sig"] by auto
    from RRefIsNull assms show ?thesis by (auto simp: u intro!: agree_ref_is_null [OF u])
  next
    case RUnreachable
    with assms show ?thesis by (auto intro!: paired_fail)
  next
    case (RMemorySize out)
    with assms show ?thesis by (auto intro: agree_memory_size)
  next
    case (RMemoryGrow sig)
    with assms(1,2) obtain u where u: "sg_input sig = [u]" using one [of "sg_input sig"] by auto
    from RMemoryGrow assms show ?thesis by (auto simp: u intro!: agree_memory_grow [OF u])
  next
    case (RMemoryCopy inp)
    with assms(1,2) obtain u v w where "inp = [u, v, w]" using three [of inp] by auto
    with RMemoryCopy assms show ?thesis by (auto intro: agree_memory_copy)
  next
    case (RMemoryFill inp)
    with assms(1,2) obtain u v w where "inp = [u, v, w]" using three [of inp] by auto
    with RMemoryFill assms show ?thesis by (auto intro: agree_memory_fill)
  next
    case (RMemoryInit eid)
    with assms(1,2) obtain u v w where u: "mi_operands (fl_memory_init_arena layout ! eid) = [u, v, w]"
      using three [of "mi_operands (fl_memory_init_arena layout ! eid)"] by (auto split: if_splits)
    from RMemoryInit assms show ?thesis
      by (auto simp: u intro!: agree_memory_init [OF _ refl u] split: if_splits)
  next
    case (RDataDrop i)
    with assms show ?thesis by (auto intro: agree_data_drop)
  qed (use assms(1) in auto)
qed

end
