(* ===== verification/RegProperties.thy ===== *)
theory RegProperties
  imports RegOperators
begin

text \<open>
  The properties of the register machine: its calling convention, its branches, its agreement
  with the stack machine operator by operator, and its runs under the two drivers.
\<close>

section \<open>The same operators\<close>

text \<open>C6: the two machines agree on every operator they share. Given the same operands, on
  the operand stack of the one and in the slots an instruction of the other names, and instances
  that agree on all but the frame, the stack instruction and the register instruction both
  succeed, both trap with the same error, or both panic. On success the instances agree again, and
  the values the one has pushed in place of its operands are the values the other has written to
  its destination, everything else in its frame being as it was; a trap leaves the register frame
  untouched.\<close>

theorem operators_agree:
  assumes "operator_form layout x = Some (y, ins, outs)" and "length ins = operator_arity y"
    and "\<forall>sl \<in> set ins \<union> set outs. in_frame t cb sl"
    and "same_env s t" and "operands s (vs @ map (slot_at t cb) ins)"
    and "md_globals md = md_globals md'"
  shows "case (execute fe D R y md layout' cb' imported s, reg_execute fe D R x md' layout cb imported t) of
      (Ok (a, s'), Ok (b, t')) \<Rightarrow> a = Next \<and> b = Next \<and> same_env s' t' \<and>
        (\<exists>ws. length ws = length outs \<and> operands s' (vs @ ws) \<and>
           frame t' = (case outs of [] \<Rightarrow> frame t | r # _ \<Rightarrow> frame (put_slots t cb r ws)))
    | (Err (e, s'), Err (e', t')) \<Rightarrow> e' = e \<and> same_env s' t' \<and> frame t' = frame t
    | (Panic, Panic) \<Rightarrow> True
    | _ \<Rightarrow> False"
proof -
  from agree_operator [OF assms]
  have "agree vs t cb outs (execute fe D R y md layout' cb' imported) s
    (reg_execute fe D R x md' layout cb imported) t" .
  then show ?thesis
    by (auto simp: paired_def agree_after_def agree_trap_def wrote_def split: result.splits prod.splits)
qed

section \<open>Frames\<close>

lemma window_append:
  "window f b (xs @ ys) \<longleftrightarrow> window f b xs \<and> window f (b + length xs) ys"
proof
  assume all: "window f b (xs @ ys)"
  have nth: "registers f ! (b + i) = (xs @ ys) ! i" if "i < length xs + length ys" for i
    using window_nth [OF all] that by simp
  have "window f b xs"
    using window_length [OF all] nth by (intro windowI) (simp_all add: nth_append)
  moreover have "window f (b + length xs) ys"
  proof (rule windowI)
    fix i assume "i < length ys"
    with nth [of "length xs + i"] show "registers f ! (b + length xs + i) = ys ! i"
      by (simp add: nth_append add.assoc)
  qed (use window_length [OF all] in simp)
  ultimately show "window f b xs \<and> window f (b + length xs) ys" by simp
next
  assume parts: "window f b xs \<and> window f (b + length xs) ys"
  show "window f b (xs @ ys)"
  proof (rule windowI)
    fix i assume i: "i < length (xs @ ys)"
    show "registers f ! (b + i) = (xs @ ys) ! i"
    proof (cases "i < length xs")
      case True
      with parts window_nth [of f b xs i] show ?thesis by (simp add: nth_append)
    next
      case False
      with i parts window_nth [of f "b + length xs" ys "i - length xs"] show ?thesis
        by (simp add: nth_append)
    qed
  qed (use parts window_length [of f "b + length xs" ys] in simp)
qed

text \<open>C17: the calling convention of the register machine. The arguments, which the caller
  put at the callee's base, are the callee's first locals without being moved; its declared locals
  are zero, its constants are above them, the whole frame fits the file, and no register below its
  base has changed. Whatever the body does above the base, tearing the frame down leaves its
  results, the first operand registers, at the base, and the caller's registers as they were.\<close>

theorem register_calling_convention:
  assumes "window (frame s) b args" and "length args = p" and "p \<le> length tys"
    and "\<forall>ty \<in> set tys. ty \<noteq> T_V128" and "length tys = fl_locals_count layout"
    and "fl_locals_count layout \<le> fl_registers layout" and "base_register_index cb = b"
  shows "wp (on_frame (reg_enter_frame p tys cb layout)) (\<lambda>_ s'. same_but_frame s s' \<and>
      window (frame s') b (args @ replicate (length tys - p) 0 @ map const_value (fl_consts layout)) \<and>
      b + frame_size layout \<le> length (registers (frame s')) \<and>
      (\<forall>j < b. registers (frame s') ! j = registers (frame s) ! j) \<and>
      (\<forall>s'' results. same_but_frame s s'' \<longrightarrow> window (frame s'') (b + operand_base layout) results \<longrightarrow>
         wp (on_frame (reg_exit_frame (length results) cb layout)) (\<lambda>_ t. same_but_frame s t \<and>
           window (frame t) b results \<and> length (registers (frame t)) = length (registers (frame s'')) \<and>
           (\<forall>j < b. registers (frame t) ! j = registers (frame s'') ! j)) E s'')) E s"
proof -
  let ?rs = "registers (frame s)" and ?image = "entry_image p tys layout"
  let ?grown = "grown (b + frame_size layout) ?rs"
  define f where "f = (frame s)\<lparr>registers := overwrite ?grown (b + p) ?image\<rparr>"
  have arg_room: "b + p \<le> length ?rs"
    using window_length [OF assms(1)] assms(2) by simp
  have image: "length ?image = length tys - p + length (fl_consts layout)"
    by (simp add: entry_image_def)
  have room: "b + p + length ?image \<le> length ?grown"
    using assms(3,5,6) image by (simp add: frame_size_def)
  have enter: "on_frame (reg_enter_frame p tys cb layout) s = Ok ((), s\<lparr>frame := f\<rparr>)"
    unfolding f_def
    by (rule on_frame_eq) (use reg_enter_frame_eq [OF assms(3,4), of layout cb] assms(5-7) in simp)
  have below: "registers f ! j = ?rs ! j" if "j < b + p" for j
    using that arg_room room by (simp add: f_def nth_overwrite)
  have size: "length (registers f) = max (b + frame_size layout) (length ?rs)"
    using room by (simp add: f_def)
  have "window f b args"
  proof (rule windowI)
    fix i assume "i < length args"
    with below [of "b + i"] window_nth [OF assms(1)] assms(2) show "registers f ! (b + i) = args ! i"
      by simp
  qed (use arg_room size assms(2) in simp)
  moreover have "window f (b + p) ?image"
    using room by (intro windowI) (simp_all add: f_def nth_overwrite)
  ultimately have image_at: "window f b (args @ replicate (length tys - p) 0 @ map const_value (fl_consts layout))"
    using assms(2) by (simp add: window_append entry_image_def)
  have exit: "wp (on_frame (reg_exit_frame (length results) cb layout)) (\<lambda>_ t. same_but_frame s t \<and>
      window (frame t) b results \<and> length (registers (frame t)) = length (registers (frame s'')) \<and>
      (\<forall>j < b. registers (frame t) ! j = registers (frame s'') ! j)) E s''"
    if "same_but_frame s s''" and results: "window (frame s'') (b + operand_base layout) results" for s'' results
  proof -
    let ?r = "registers (frame s'')"
    have n: "b + operand_base layout + length results \<le> length ?r"
      using window_length [OF results] .
    define g where "g = (frame s'')\<lparr>registers := overwrite ?r b results\<rparr>"
    have "sub_slice ?r (b + operand_base layout) (length results) = results"
      using results by (simp add: window_def)
    then have leave: "on_frame (reg_exit_frame (length results) cb layout) s'' = Ok ((), s''\<lparr>frame := g\<rparr>)"
      unfolding g_def
      by (intro on_frame_eq) (use reg_exit_frame_eq [of cb layout "length results" "frame s''"] n assms(7) in simp)
    have "window g b results"
      using n by (simp add: g_def window_def)
    with n that(1) show ?thesis
      unfolding wp_Ok [where m = "on_frame (reg_exit_frame (length results) cb layout)", OF leave]
      by (simp add: g_def nth_overwrite)
  qed
  show ?thesis
    unfolding wp_Ok [where m = "on_frame (reg_enter_frame p tys cb layout)", OF enter] using image_at below size exit by simp
qed

section \<open>Branches\<close>

text \<open>C18: a branch of the register machine. A move reads all its sources before it writes,
  so the destinations hold what the sources held even where the two overlap, and nothing else
  changes. \<open>br_if\<close> moves and jumps when its condition, read before the move, is not zero, and
  otherwise changes nothing; \<open>br_table\<close> takes the arm its index selects, and the last arm for every
  index out of range.\<close>

theorem register_branches_move_their_values:
  assumes "eid < length (fl_br_if_arena layout)" and "entry = fl_br_if_arena layout ! eid"
    and "in_frame s cb (bo_cond entry)" and "movable s cb (bo_mov entry)"
    and "tid < length (fl_br_table_arena layout)" and "table_entry = fl_br_table_arena layout ! tid"
    and "in_frame s cb (bt_index table_entry)" and "bt_targets table_entry \<noteq> []"
    and "\<forall>arm \<in> set (bt_targets table_entry). movable s cb (rt_mov arm)"
  shows "(if as_i32 (slot_at s cb (bo_cond entry)) = 0
       then reg_exec_br_if eid layout cb s = Ok (Next, s)
       else \<exists>s'. reg_exec_br_if eid layout cb s = Ok (JumpTo (bo_target_index entry), s') \<and>
              moved s cb (bo_mov entry) s') \<and>
    (\<exists>s' arm. arm = bt_targets table_entry !
         min (unat (as_i32 (slot_at s cb (bt_index table_entry)))) (length (bt_targets table_entry) - 1) \<and>
       reg_exec_br_table tid layout cb s = Ok (JumpTo (rt_target_index arm), s') \<and>
       moved s cb (rt_mov arm) s')"
proof -
  have cond: "operand_i32 [bo_cond entry] 0 cb s = Ok (as_i32 (slot_at s cb (bo_cond entry)), s)"
    using assms(3) by (simp add: operand_i32_eq)
  have br_if: "reg_exec_br_if eid layout cb s =
      (if as_i32 (slot_at s cb (bo_cond entry)) = 0 then Ok (Next, s)
       else Ok (JumpTo (bo_target_index entry), put_slots s cb (ds_output_start (bo_mov entry))
         (map (slot_at s cb) (ds_input (bo_mov entry)))))"
    using assms(1,2) cond execute_mov_eq [OF assms(4)]
    by (simp add: reg_exec_br_if_def index_def bnd_lift_result bnd_eq ret_eq)
  let ?n = "length (bt_targets table_entry)" and ?i = "unat (as_i32 (slot_at s cb (bt_index table_entry)))"
  define arm where "arm = bt_targets table_entry ! min ?i (?n - 1)"
  have "min ?i (?n - 1) < ?n"
    using assms(8) by (cases "bt_targets table_entry") auto
  then have "arm \<in> set (bt_targets table_entry)"
    unfolding arm_def by (rule nth_mem)
  with assms(9) have arm: "movable s cb (rt_mov arm)" by blast
  have sel: "(if ?n - 1 \<le> ?i then ?n - 1 else ?i) = min ?i (?n - 1)"
    by simp
  have pick: "(index (bt_targets table_entry) (if ?n - 1 \<le> ?i then ?n - 1 else ?i) ::
      (InstructionExecutionError, _) result) = Ok arm"
    unfolding sel index_def arm_def using \<open>min ?i (?n - 1) < ?n\<close> by (simp only: if_True)
  have entry: "(index (fl_br_table_arena layout) tid :: (InstructionExecutionError, _) result) = Ok table_entry"
    using assms(5,6) by (simp add: index_def)
  have count: "(usize_sub ?n 1 :: (InstructionExecutionError, _) result) = Ok (?n - 1)"
    using \<open>min ?i (?n - 1) < ?n\<close> by (simp add: usize_sub_def)
  have selector: "operand_usize [bt_index table_entry] 0 cb s = Ok (?i, s)"
    using assms(7) by (simp add: operand_usize_eq)
  have table: "reg_exec_br_table tid layout cb s = Ok (JumpTo (rt_target_index arm),
      put_slots s cb (ds_output_start (rt_mov arm)) (map (slot_at s cb) (ds_input (rt_mov arm))))"
    by (simp only: reg_exec_br_table_def entry bnd_lift_result bnd_eq selector count pick
        execute_mov_eq [OF arm] ret_eq)
  show ?thesis
  proof (intro conjI exI)
    show "arm = bt_targets table_entry ! min ?i (?n - 1)" by (rule arm_def)
    show "moved s cb (rt_mov arm) (put_slots s cb (ds_output_start (rt_mov arm))
        (map (slot_at s cb) (ds_input (rt_mov arm))))"
      by (rule moved_put_slots [OF arm])
  qed (use br_if table moved_put_slots [OF assms(4)] in \<open>auto\<close>)
qed

section \<open>Runs\<close>

text \<open>C14: the two drivers agree on register modules whose bodies end in \<open>end\<close>: whenever the
  recursive driver returns, the one with the explicit call stack returns the same outcome, with
  the same backtrace and the same instance, from any sufficient fuel on.\<close>

theorem register_drivers_agree:
  assumes "\<forall>body \<in> set (md_func_bodies module). closed_body body"
    and "fmap_err (\<lambda>trace. Ok (func_call_err_from_unwind func_index trace module))
      (execute_on_native_stack n (reg_machine fe D R) module func_index
        (vm_initial_data (reg_machine fe D R)) 0) s = Some r"
  shows "\<exists>k. \<forall>m \<ge> k. execute_on_frame_stack m (reg_machine fe D R) module func_index s =
    Some (forget_depth r)"
proof (rule drivers_agree_from [OF reg_calls_not_last [OF assms(1)] _ assms(2)])
  show "vm_max_call_stack_depth (reg_machine fe D R) s \<le> U32_MAX" for s
    using unsigned_less [of "max_call_stack_depth (config s)", where ?'a = nat]
    by (simp add: reg_machine_def)
qed

text \<open>A failed run of the register machine carries a backtrace under the call depth limit:
  its first record is the instruction that trapped, each further one the call that entered the
  function of the record before it, the last one is in the entry function, and the limits, the
  tables and the element segments of the instance are unchanged.\<close>

theorem register_runs_carry_backtraces:
  assumes "execute_on_native_stack n (reg_machine fe D R) module f base 0 s = Some (Err (t, s'))"
  shows "backtrace module f t \<and> t \<noteq> [] \<and> tr_func_index (last t) = f \<and>
    length t \<le> max 1 (unat (max_call_stack_depth (config s))) \<and> settings s' = settings s \<and>
    (\<exists>e. cause (func_call_err_from_unwind f t module) = Ok e)"
proof -
  have "reg_limits.good module (settings s) f 0 (Err (t, s'))"
    using reg_limits.driver_good(1) [OF assms refl] .
  from this [unfolded reg_limits.good_def] have t: "backtrace module f t"
    and len: "length t \<le> max 1 (unat (max_call_stack_depth (config s)))"
    and "settings s' = settings s"
    by (simp_all, simp add: settings_def)
  then show ?thesis
    using backtrace_last [OF t] backtrace_cause [OF t] by (simp add: func_call_err_from_unwind_def)
qed

section \<open>Concrete runs\<close>

text \<open>
  An instance with a page of memory and a given register file, and a module of two functions: the
  first adds its two parameters, the second traps.
\<close>

definition reg_page :: "Value list \<Rightarrow> (LinearMemory, unit) RegInstance" where
  "reg_page rs = \<lparr>memory = one_page, frame = \<lparr>registers = rs\<rparr>, import_registry = (),
     config = default_config, global_vals = [], table_vals = [], element_vals = [],
     data_vals = [DataPassive [1, 2, 3]]\<rparr>"

definition demo_reg_layout :: RegFrameLayout where
  "demo_reg_layout = \<lparr>fl_registers = 3, fl_spills = 0, fl_if_arena = [],
     fl_br_if_arena = [\<lparr>bo_cond = 2, bo_mov = \<lparr>ds_input = [1, 0], ds_output_start = 0\<rparr>, bo_target_index = 9\<rparr>],
     fl_br_table_arena = [\<lparr>bt_index = 2,
       bt_targets = [\<lparr>rt_mov = \<lparr>ds_input = [1, 0], ds_output_start = 0\<rparr>, rt_target_index = 4\<rparr>]\<rparr>],
     fl_call_indirect_arena = [], fl_select_arena = [], fl_memory_init_arena = [], fl_dyn_signatures = [],
     fl_memory_offsets = [8], fl_locals_count = 2, fl_consts = []\<rparr>"

definition add_body :: "(RegInstruction, RegFrameLayout) FuncBody" where
  "add_body = \<lparr>fb_locals = [T_I32, T_I32],
     fb_instructions = [RNumeric (I32Binary I32Add) \<lparr>sg_input = [0, 1], sg_output = 2\<rparr>, REnd],
     fb_instruction_offsets = [5, 6], fb_frame_layout = demo_reg_layout\<rparr>"

definition trap_body :: "(RegInstruction, RegFrameLayout) FuncBody" where
  "trap_body = \<lparr>fb_locals = [T_I32, T_I32], fb_instructions = [RUnreachable, REnd],
     fb_instruction_offsets = [9, 10], fb_frame_layout = demo_reg_layout\<rparr>"

definition demo_reg_module :: RegModule where
  "demo_reg_module = \<lparr>md_types = [\<lparr>ft_params = [T_I32, T_I32], ft_results = [T_I32]\<rparr>],
     md_func_decls = [\<lparr>fd_kind = Local, fd_ty = 0\<rparr>, \<lparr>fd_kind = Local, fd_ty = 0\<rparr>], md_globals = [],
     md_imported_func_count = 0, md_func_bodies = [add_body, trap_body],
     md_exported_func_index_to_name = (\<lambda>_. Some ''f'')\<rparr>"

abbreviation demo_reg_machine where
  "demo_reg_machine \<equiv> reg_machine demo_floats linear_memory demo_registry"

theorem operators_agree_witness:
  "\<exists>t'. reg_execute demo_floats linear_memory demo_registry
       (RLoad I64Load 0 \<lparr>sg_input = [0], sg_output = 1\<rparr>) demo_reg_module demo_reg_layout
       \<lparr>base_register_index = 0\<rparr> 0 (reg_page [65521, 0]) =
     Err (Memory (OutOfBoundsAccess Read 65529 65536), t') \<and> frame t' = \<lparr>registers = [65521, 0]\<rparr>"
proof -
  obtain s' where "demo_exec (Load I64Load 8) (page_instance [65521]) =
      Err (Memory (OutOfBoundsAccess Read 65529 65536), s')"
    using load_instruction_witness by (auto simp: wp_def split: result.splits)
  moreover have "same_env (page_instance [65521]) (reg_page [65521, 0])"
    by (simp add: same_env_def page_instance_def reg_page_def)
  moreover have "operands (page_instance [65521]) ([] @ map (slot_at (reg_page [65521, 0]) \<lparr>base_register_index = 0\<rparr>) [0])"
    using page_instance_at [of "[65521]"] by (simp add: at_linear_def slot_at_def reg_page_def)
  ultimately show ?thesis
    using operators_agree [of demo_reg_layout "RLoad I64Load 0 \<lparr>sg_input = [0], sg_output = 1\<rparr>"
        "Load I64Load 8" "[0]" "[1]" "reg_page [65521, 0]" "\<lparr>base_register_index = 0\<rparr>"
        "page_instance [65521]" "[]" demo_module demo_reg_module demo_floats linear_memory demo_registry
        demo_layout demo_base 0]
    by (auto simp: demo_reg_layout_def in_frame_def reg_page_def demo_module_def demo_reg_module_def
        split: result.splits)
qed

theorem register_calling_convention_witness:
  "wp (on_frame (reg_enter_frame 2 [T_I32, T_I32, T_I64] \<lparr>base_register_index = 1\<rparr>
       (demo_reg_layout\<lparr>fl_locals_count := 3, fl_consts := [C_I32 3]\<rparr>)))
     (\<lambda>_ s'. window (frame s') 1 [7, 8, 0, 3] \<and> registers (frame s') ! 0 = 5) (\<lambda>(_ :: unit) _. False)
     (reg_page [5, 7, 8])"
  by (rule wp_mono [OF register_calling_convention [where b = 1 and args = "[7, 8]"]])
    (auto simp: window_def reg_page_def sub_slice_def demo_reg_layout_def from_i32_def)

theorem register_branches_move_their_values_witness:
  "\<exists>s'. reg_exec_br_if 0 demo_reg_layout \<lparr>base_register_index = 0\<rparr> (reg_page [7, 8, 1]) =
      Ok (JumpTo 9, s') \<and>
     slot_at s' \<lparr>base_register_index = 0\<rparr> 0 = 8 \<and> slot_at s' \<lparr>base_register_index = 0\<rparr> 1 = 7"
proof -
  let ?cb = "\<lparr>base_register_index = 0\<rparr>" and ?s = "reg_page [7, 8, 1]"
    and ?e = "fl_br_if_arena demo_reg_layout ! 0" and ?t = "fl_br_table_arena demo_reg_layout ! 0"
  have "in_frame ?s ?cb (bo_cond ?e)" "movable ?s ?cb (bo_mov ?e)" "in_frame ?s ?cb (bt_index ?t)"
    "bt_targets ?t \<noteq> []" "\<forall>arm \<in> set (bt_targets ?t). movable ?s ?cb (rt_mov arm)"
    by (auto simp: in_frame_def movable_def run_in_frame_def reg_page_def demo_reg_layout_def U16_MAX_def)
  from register_branches_move_their_values [OF _ refl this(1,2) _ refl this(3-5)]
  have "\<exists>s'. reg_exec_br_if 0 demo_reg_layout ?cb ?s = Ok (JumpTo (bo_target_index ?e), s') \<and>
      moved ?s ?cb (bo_mov ?e) s'"
    by (simp add: demo_reg_layout_def slot_at_def reg_page_def as_i32_def)
  then show ?thesis
    by (auto simp: moved_def demo_reg_layout_def slot_at_def reg_page_def less_Suc_eq)
qed

lemma demo_reg_sel:
  "vm_execute demo_reg_machine = reg_execute demo_floats linear_memory demo_registry"
  "vm_initial_data demo_reg_machine = \<lparr>base_register_index = 0\<rparr>"
  "vm_enter_frame demo_reg_machine p tys cb layout s = map_option (\<lambda>(_, s'). (cb, s'))
     (run_infallible (on_frame (reg_enter_frame p tys cb layout)) s)"
  "vm_exit_frame demo_reg_machine n cb layout s =
     map_option snd (run_infallible (on_frame (reg_exit_frame n cb layout)) s)"
  by (simp_all add: reg_machine_def)

lemma demo_module_sel:
  "md_types demo_reg_module = [\<lparr>ft_params = [T_I32, T_I32], ft_results = [T_I32]\<rparr>]"
  "md_func_decls demo_reg_module = [\<lparr>fd_kind = Local, fd_ty = 0\<rparr>, \<lparr>fd_kind = Local, fd_ty = 0\<rparr>]"
  "md_imported_func_count demo_reg_module = 0" "md_func_bodies demo_reg_module = [add_body, trap_body]"
  "fb_locals add_body = [T_I32, T_I32]" "fb_locals trap_body = [T_I32, T_I32]"
  "fb_frame_layout add_body = demo_reg_layout" "fb_frame_layout trap_body = demo_reg_layout"
  by (simp_all add: demo_reg_module_def add_body_def trap_body_def)

lemma demo_enter_frame:
  "vm_enter_frame demo_reg_machine 2 [T_I32, T_I32] \<lparr>base_register_index = 0\<rparr> demo_reg_layout
     (reg_page [5, 7]) = Some (\<lparr>base_register_index = 0\<rparr>, reg_page [5, 7, 0])"
  by (simp add: demo_reg_sel run_infallible_def on_field_def reg_page_def reg_enter_frame_eq
      demo_reg_layout_def frame_size_def grown_def overwrite_def entry_image_def)

lemma demo_enter:
  assumes "f = 0 \<or> f = 1"
  shows "enter_function demo_reg_machine demo_reg_module f \<lparr>base_register_index = 0\<rparr> (reg_page [5, 7]) =
     Some (\<lparr>ac_func_index = f, ac_body = (if f = 0 then add_body else trap_body),
       ac_base = \<lparr>base_register_index = 0\<rparr>, ac_results_count = 1\<rparr>, reg_page [5, 7, 0])"
  using assms demo_enter_frame
  by (auto simp: enter_function_def demo_module_sel index_def run_infallible_def bnd_def ret_def
      lift_result_def infallible_def numeral_2_eq_2)

lemma demo_execute:
  "execute_at demo_reg_machine module \<lparr>ac_func_index = f, ac_body = body, ac_base = cb, ac_results_count = k\<rparr> pc s =
     (if pc < length (fb_instructions body)
      then run_infallible (attempt (reg_execute demo_floats linear_memory demo_registry
        (fb_instructions body ! pc) module (fb_frame_layout body) cb (md_imported_func_count module))) s
      else None)"
  by (simp add: execute_at_def demo_reg_sel index_def bnd_lift_result run_infallible_def bnd_def
      lift_result_def)

lemma demo_bodies:
  "fb_instructions add_body = [RNumeric (I32Binary I32Add) \<lparr>sg_input = [0, 1], sg_output = 2\<rparr>, REnd]"
  "fb_instructions trap_body = [RUnreachable, REnd]" "fb_instruction_offsets trap_body = [9, 10]"
  by (simp_all add: add_body_def trap_body_def)

lemmas demo_run = execute_on_native_stack.simps fop_defs demo_reg_sel(2) demo_enter native_loop_Suc
  demo_execute attempt_def run_infallible_def native_advance_def demo_bodies demo_module_sel u32_add_def
  u32_sub_def ret_def

lemma demo_addition:
  "execute_on_native_stack (Suc (Suc (Suc n))) demo_reg_machine demo_reg_module 0
     (vm_initial_data demo_reg_machine) 0 (reg_page [5, 7]) = Some (Ok (0, reg_page [12, 7, 12]))"
proof -
  let ?cb = "\<lparr>base_register_index = 0\<rparr>"
  have add: "reg_i32_binary I32Add \<lparr>sg_input = [0, Suc 0], sg_output = 2\<rparr> ?cb (reg_page [5, 7, 0]) =
      Ok (Next, reg_page [5, 7, 12])"
    by (simp add: reg_i32_binary_def reg_binary_def bnd_eq operand_eq in_frame_def reg_page_def i32_binary_def
        slot_at_def write_next_eq bnd_lift_result put_slots_def overwrite_def as_i32_def from_i32_def)
  have exit: "vm_exit_frame demo_reg_machine (Suc 0) ?cb demo_reg_layout (reg_page [5, 7, 12]) = Some (reg_page [12, 7, 12])"
    by (simp add: demo_reg_sel run_infallible_def on_field_def reg_page_def reg_exit_frame_eq operand_base_def
        demo_reg_layout_def overwrite_def sub_slice_def)
  show ?thesis
    using add exit by (simp add: demo_run)
qed

lemma demo_trap:
  "execute_on_native_stack (Suc (Suc n)) demo_reg_machine demo_reg_module 1
     (vm_initial_data demo_reg_machine) 0 (reg_page [5, 7]) =
     Some (Err ([TraceRecord 1 0 (NonCall UnreachableTrap) 9], reg_page [5, 7, 0]))"
  by (simp add: demo_run trap_here_def index_def fail_def)

theorem register_drivers_agree_witness:
  "\<exists>k. \<forall>m \<ge> k. execute_on_frame_stack m demo_reg_machine demo_reg_module 0 (reg_page [5, 7]) =
     Some (Ok ((), reg_page [12, 7, 12]))"
  using register_drivers_agree [of demo_reg_module 0 "Suc (Suc (Suc 0))" demo_floats linear_memory
      demo_registry "reg_page [5, 7]"]
  unfolding fmap_err_def demo_addition
  by (simp add: forget_depth_def demo_module_sel closed_body_def demo_bodies)

theorem register_runs_carry_backtraces_witness:
  "backtrace demo_reg_module 1 [TraceRecord 1 0 (NonCall UnreachableTrap) 9]"
  by (rule register_runs_carry_backtraces [OF demo_trap [of 0], THEN conjunct1])

end
