(* ===== verification/RegSimStack.thy ===== *)
theory RegSimStack
  imports RegExec Lowering
begin

text \<open>
  The state of the register lowering (\<open>instruction/register/mod.rs\<close>, \<open>lazy.rs\<close>, \<open>backpatch.rs\<close> and
  the interner of \<open>tracewasm-utils\<close>): a simulated operand stack whose entries say where a value
  lives instead of what it is. A constant or a local that is pushed emits nothing and is read in
  place by its consumer; a local that is about to be written is first copied to a spill slot, and
  every operand still forwarding to it is redirected there through its shared entry.
\<close>

section \<open>Interners\<close>

record 'a interner =
  in_values :: "'a list"
  in_reverse_map :: "'a \<Rightarrow> nat option"

definition new_interner :: "'a interner" where
  "new_interner = \<lparr>in_values = [], in_reverse_map = (\<lambda>_. None)\<rparr>"

text \<open>Ids are \<open>u16\<close>. A repeat succeeds even when the pool is full.\<close>

definition try_intern :: "'a \<Rightarrow> ('a interner, TraceWasmError, nat) op" where
  "try_intern val = (\<lambda>p. case in_reverse_map p val of
      Some i \<Rightarrow> Ok (i, p)
    | None \<Rightarrow>
        let n = length (in_values p)
        in if U16_MAX \<le> n
           then (case u32_add (as_u32 n) 1 :: (TraceWasmError, nat) result of
                   Ok needed \<Rightarrow> Err (UtilsError needed U16_MAX, p) | _ \<Rightarrow> Panic)
           else Ok (as_u16 n, \<lparr>in_values = in_values p @ [val],
                               in_reverse_map = (in_reverse_map p)(val \<mapsto> as_u16 n)\<rparr>))"

section \<open>Lazy borrows and spill slots\<close>

datatype LazyLocation = Original nat | Spilled nat

record LazyEntry =
  le_location :: LazyLocation
  le_ref_count :: nat

record LazyArena =
  la_entries :: "LazyEntry list"
  la_origin :: "nat option list"

definition new_lazy_arena :: "nat \<Rightarrow> LazyArena" where
  "new_lazy_arena origin_count = \<lparr>la_entries = [], la_origin = replicate origin_count None\<rparr>"

definition lazy_allocate :: "nat \<Rightarrow> (LazyArena, 'e, nat) op" where
  "lazy_allocate location = (\<lambda>a. Ok (length (la_entries a),
     a\<lparr>la_entries := la_entries a @ [\<lparr>le_location = Original location, le_ref_count = 1\<rparr>]\<rparr>))"

definition get_entry :: "nat \<Rightarrow> (LazyArena, 'e, LazyEntry) op" where
  "get_entry i = bnd (gets la_entries) (\<lambda>es. lift_result (index es i))"

definition put_entry :: "nat \<Rightarrow> LazyEntry \<Rightarrow> (LazyArena, 'e, unit) op" where
  "put_entry i e = modify (\<lambda>a. a\<lparr>la_entries := (la_entries a)[i := e]\<rparr>)"

definition lazy_location :: "nat \<Rightarrow> (LazyArena, 'e, LazyLocation) op" where
  "lazy_location i = bnd (get_entry i) (\<lambda>e. ret (le_location e))"

definition advanced_ref_count :: "nat \<Rightarrow> (LazyArena, 'e, unit) op" where
  "advanced_ref_count i = bnd (get_entry i) (\<lambda>e.
     bnd (lift_result (u32_add (le_ref_count e) 1)) (\<lambda>n. put_entry i (e\<lparr>le_ref_count := n\<rparr>)))"

text \<open>The result says whether the entry was dropped.\<close>

definition decrease_ref_count :: "nat \<Rightarrow> (LazyArena, 'e, bool) op" where
  "decrease_ref_count i = bnd (get_entry i) (\<lambda>e.
     bnd (lift_result (u32_sub (le_ref_count e) 1)) (\<lambda>n.
     bnd (put_entry i (e\<lparr>le_ref_count := n\<rparr>)) (\<lambda>_. ret (n = 0))))"

definition lazy_spill :: "nat \<Rightarrow> nat \<Rightarrow> (LazyArena, 'e, unit) op" where
  "lazy_spill i spill_index = bnd (get_entry i) (\<lambda>e. case le_location e of
      Original _ \<Rightarrow> put_entry i (e\<lparr>le_location := Spilled spill_index\<rparr>)
    | Spilled _ \<Rightarrow> panic)"

definition get_origin :: "nat \<Rightarrow> (LazyArena, 'e, nat option) op" where
  "get_origin n = bnd (gets la_origin) (\<lambda>os. lift_result (index os n))"

definition set_origin :: "nat \<Rightarrow> nat option \<Rightarrow> (LazyArena, 'e, unit) op" where
  "set_origin n x = bnd (gets la_origin) (\<lambda>os.
     if n < length os then modify (\<lambda>a. a\<lparr>la_origin := os[n := x]\<rparr>) else panic)"

record SpillArena =
  sp_allocation_len :: nat
  sp_free_slots :: "nat list"

definition new_spill_arena :: SpillArena where
  "new_spill_arena = \<lparr>sp_allocation_len = 0, sp_free_slots = []\<rparr>"

definition reserve_slot :: "(SpillArena, TraceWasmError, nat) op" where
  "reserve_slot = (\<lambda>a.
     if sp_free_slots a \<noteq> []
     then Ok (last (sp_free_slots a), a\<lparr>sp_free_slots := butlast (sp_free_slots a)\<rparr>)
     else if U16_MAX \<le> sp_allocation_len a
     then Err (RegisterFrameTooLarge ''spill slots'' (sp_allocation_len a + 1) U16_MAX, a)
     else Ok (sp_allocation_len a, a\<lparr>sp_allocation_len := sp_allocation_len a + 1\<rparr>))"

definition free_slot :: "nat \<Rightarrow> (SpillArena, 'e, unit) op" where
  "free_slot i = modify (\<lambda>a. a\<lparr>sp_free_slots := sp_free_slots a @ [i]\<rparr>)"

section \<open>Operands before the layout is final\<close>

datatype BackPatchableSlot = BP_Register nat | BP_Spill nat | BP_Const nat | BP_Slot nat

fun is_register :: "BackPatchableSlot \<Rightarrow> bool" where
  "is_register (BP_Register _) = True"
| "is_register _ = False"

fun absolute_slot_in_frame :: "BackPatchableSlot \<Rightarrow> nat \<Rightarrow> nat \<Rightarrow> nat \<Rightarrow> ('e, nat) result" where
  "absolute_slot_in_frame (BP_Slot sl) locals pool nspills = Ok sl"
| "absolute_slot_in_frame (BP_Const i) locals pool nspills = u16_add i locals"
| "absolute_slot_in_frame (BP_Spill i) locals pool nspills =
     and_then (u16_add i locals) (\<lambda>x. u16_add x pool)"
| "absolute_slot_in_frame (BP_Register i) locals pool nspills =
     and_then (u16_add i pool) (\<lambda>x. u16_add x nspills)"

datatype InstructionSource =
  Emit | BrIfCond | BrIfMov | BrTableIndex | BrTableMov | CallIndirectSlot | CallIndirectMov

text \<open>The recorded runs by the index of their instruction; a vacant entry goes to the end.\<close>

type_synonym patches = "(InstructionSource \<times> BackPatchableSlot list) list"
type_synonym BackpatchMap = "(nat \<times> patches) list"

fun record_patch ::
    "nat \<Rightarrow> InstructionSource \<times> BackPatchableSlot list \<Rightarrow> BackpatchMap \<Rightarrow> BackpatchMap" where
  "record_patch i p [] = [(i, [p])]"
| "record_patch i p ((j, ps) # m) =
     (if i = j then (j, ps @ [p]) # m else (j, ps) # record_patch i p m)"

section \<open>The simulated stack\<close>

datatype StackSlot = SS_Const nat | SS_Register nat | SS_Local nat

record SimulatedStack =
  ss_stack :: "StackSlot stack"
  curr_register_index :: nat
  max_registers :: nat
  lazy_locals :: LazyArena
  spills :: SpillArena
  ss_control_stack :: "Label list"
  if_arena :: "IfOperands list"
  br_if_arena :: "BrIfOperands list"
  br_table_arena :: "BrTableOperands list"
  call_indirect_arena :: "CallIndirectOperands list"
  select_arena :: "reg_signature list"
  memory_init_arena :: "MemoryInitOperands list"
  dyn_signatures :: "DynSignature list"
  memory_offsets :: "u32 interner"
  backpatch_map :: BackpatchMap
  const_interner :: "reg_const interner"

type_synonym ('z, 'a) sim_op = "('z SimulatedStack_scheme, TraceWasmError, 'a) op"

abbreviation on_stack where
  "on_stack m \<equiv> on_field ss_stack (\<lambda>x. ss_stack_update (\<lambda>_. x)) (\<lambda>e. e) m"

abbreviation on_lazy where
  "on_lazy m \<equiv> on_field lazy_locals (\<lambda>x. lazy_locals_update (\<lambda>_. x)) (\<lambda>e. e) m"

abbreviation on_spills where
  "on_spills m \<equiv> on_field spills (\<lambda>x. spills_update (\<lambda>_. x)) (\<lambda>e. e) m"

definition new_simulated_stack :: "nat \<Rightarrow> SimulatedStack" where
  "new_simulated_stack locals_count = \<lparr>ss_stack = new_stack, curr_register_index = locals_count,
     max_registers = as_u16 locals_count, lazy_locals = new_lazy_arena locals_count,
     spills = new_spill_arena, ss_control_stack = [], if_arena = [], br_if_arena = [],
     br_table_arena = [], call_indirect_arena = [], select_arena = [], memory_init_arena = [],
     dyn_signatures = [], memory_offsets = new_interner, backpatch_map = [],
     const_interner = new_interner\<rparr>"

definition ss_locals_count :: "'z SimulatedStack_scheme \<Rightarrow> nat" where
  "ss_locals_count s = as_u16 (length (la_origin (lazy_locals s)))"

definition advanced_register_index :: "('z, unit) sim_op" where
  "advanced_register_index =
     bnd (modify (\<lambda>s. s\<lparr>curr_register_index := curr_register_index s + 1\<rparr>)) (\<lambda>_.
     bnd (gets curr_register_index) (\<lambda>c. bnd (gets max_registers) (\<lambda>m.
       if m < c
       then if U16_MAX \<le> m
            then fail (RegisterFrameTooLarge ''locals and operand registers'' (m + 1) U16_MAX)
            else modify (\<lambda>s. s\<lparr>max_registers := m + 1\<rparr>)
       else ret ())))"

definition recede_register_index :: "('z, unit) sim_op" where
  "recede_register_index =
     bnd (gets curr_register_index) (\<lambda>c. bnd (lift_result (usize_sub c 1)) (\<lambda>n.
     modify (\<lambda>s. s\<lparr>curr_register_index := n\<rparr>)))"

definition pop_lazy :: "nat \<Rightarrow> ('z, LazyLocation) sim_op" where
  "pop_lazy i =
     bnd (on_lazy (lazy_location i)) (\<lambda>location.
     bnd (on_lazy (decrease_ref_count i)) (\<lambda>dropped.
     bnd (if dropped
          then (case location of
                  Original n \<Rightarrow> on_lazy (set_origin n None)
                | Spilled k \<Rightarrow> on_spills (free_slot k))
          else ret ()) (\<lambda>_.
     ret location)))"

definition push_lazy :: "nat \<Rightarrow> ('z, nat) sim_op" where
  "push_lazy location =
     bnd (on_lazy (get_origin location)) (\<lambda>origin. case origin of
         Some i \<Rightarrow> bnd (on_lazy (advanced_ref_count i)) (\<lambda>_. ret i)
       | None \<Rightarrow>
           bnd (on_lazy (lazy_allocate location)) (\<lambda>i.
           bnd (on_lazy (set_origin location (Some i))) (\<lambda>_. ret i)))"

fun of_location :: "LazyLocation \<Rightarrow> BackPatchableSlot" where
  "of_location (Original n) = BP_Slot n"
| "of_location (Spilled k) = BP_Spill k"

definition ss_pop :: "('z, BackPatchableSlot) sim_op" where
  "ss_pop = bnd (on_stack pop) (\<lambda>val. case val of
      SS_Const i \<Rightarrow> ret (BP_Const i)
    | SS_Register r \<Rightarrow> bnd recede_register_index (\<lambda>_. ret (BP_Register r))
    | SS_Local i \<Rightarrow> bnd (pop_lazy i) (\<lambda>location. ret (of_location location)))"

definition resolve_slot :: "StackSlot \<Rightarrow> ('z, BackPatchableSlot) sim_op" where
  "resolve_slot val = (case val of
      SS_Const i \<Rightarrow> ret (BP_Const i)
    | SS_Register r \<Rightarrow> ret (BP_Register r)
    | SS_Local i \<Rightarrow> bnd (on_lazy (lazy_location i)) (\<lambda>location. ret (of_location location)))"

definition simulated_pop :: "nat \<Rightarrow> ('z, BackPatchableSlot) sim_op" where
  "simulated_pop depth = bnd (on_stack (peek_from_top depth)) resolve_slot"

definition ss_tee :: "('z, BackPatchableSlot) sim_op" where
  "ss_tee = bnd (on_stack top) resolve_slot"

definition ss_push :: "nat \<Rightarrow> ('z, unit) sim_op" where
  "ss_push sl =
     bnd (gets ss_locals_count) (\<lambda>n.
     bnd (if sl < n then bnd (push_lazy sl) (\<lambda>i. ret (SS_Local i))
          else bnd advanced_register_index (\<lambda>_. ret (SS_Register sl))) (\<lambda>entry.
     on_stack (push entry)))"

definition push_const :: "reg_const \<Rightarrow> ('z, unit) sim_op" where
  "push_const val =
     bnd (on_field const_interner (\<lambda>x. const_interner_update (\<lambda>_. x)) (\<lambda>e. e) (try_intern val)) (\<lambda>i.
     on_stack (push (SS_Const i)))"

definition push_local :: "nat \<Rightarrow> ('z, unit) sim_op" where
  "push_local i = ss_push i"

definition ss_height :: "('z, nat) sim_op" where
  "ss_height = gets (\<lambda>s. height (ss_stack s))"

text \<open>The popped operands, deepest first.\<close>

fun pop_operands :: "nat \<Rightarrow> ('z, BackPatchableSlot list) sim_op" where
  "pop_operands 0 = ret []"
| "pop_operands (Suc n) = bnd ss_pop (\<lambda>x. bnd (pop_operands n) (\<lambda>xs. ret (xs @ [x])))"

definition push_registers :: "nat \<Rightarrow> ('z, unit) sim_op" where
  "push_registers pushes = for_range 0 pushes (\<lambda>_. bnd (gets curr_register_index) (\<lambda>c. ss_push (as_u16 c)))"

definition add_patch :: "nat \<Rightarrow> InstructionSource \<Rightarrow> BackPatchableSlot list \<Rightarrow> ('z, unit) sim_op" where
  "add_patch instr_index source ops =
     modify (\<lambda>s. s\<lparr>backpatch_map := record_patch instr_index (source, ops) (backpatch_map s)\<rparr>)"

text \<open>The placeholders and the first destination.\<close>

definition pops_and_pushes_registers ::
    "nat \<Rightarrow> nat \<Rightarrow> nat \<Rightarrow> InstructionSource \<Rightarrow> ('z, nat list \<times> nat) sim_op" where
  "pops_and_pushes_registers npops npushes instr_index source =
     bnd (pop_operands npops) (\<lambda>ops.
     bnd (add_patch instr_index source ops) (\<lambda>_.
     bnd (gets (\<lambda>s. as_u16 (curr_register_index s))) (\<lambda>output_start.
     bnd (push_registers npushes) (\<lambda>_.
     ret (replicate npops U16_MAX, output_start)))))"

definition pops_and_pushes :: "nat \<Rightarrow> nat \<Rightarrow> ('z, unit) sim_op" where
  "pops_and_pushes npops npushes =
     bnd (for_range 0 npops (\<lambda>_. bnd ss_pop (\<lambda>_. ret ()))) (\<lambda>_. push_registers npushes)"

definition registers_for :: "nat \<Rightarrow> nat \<Rightarrow> nat \<Rightarrow> InstructionSource \<Rightarrow> ('z, reg_signature) sim_op" where
  "registers_for npops npushes instr_index source =
     bnd (pops_and_pushes_registers npops npushes instr_index source) (\<lambda>(input, output).
     ret \<lparr>sg_input = input, sg_output = output\<rparr>)"

definition materialize_stack_slots_in_registers ::
    "nat \<Rightarrow> nat \<Rightarrow> InstructionSource \<Rightarrow> ('z, DynSignature) sim_op" where
  "materialize_stack_slots_in_registers depth instr_index source =
     bnd (pops_and_pushes_registers depth depth instr_index source) (\<lambda>(input, output).
     ret \<lparr>ds_input = input, ds_output_start = output\<rparr>)"

section \<open>Labels\<close>

definition ss_get_curr_block :: "('z, Label) sim_op" where
  "ss_get_curr_block = bnd (gets ss_control_stack) (\<lambda>bs.
     if bs = [] then panic else lift_result (index bs (length bs - 1)))"

definition ss_get_block :: "nat \<Rightarrow> ('z, Label) sim_op" where
  "ss_get_block i = bnd (gets ss_control_stack) (\<lambda>bs. lift_result (index bs i))"

definition ss_update_block :: "nat \<Rightarrow> (Label \<Rightarrow> Label) \<Rightarrow> ('z, unit) sim_op" where
  "ss_update_block i f = bnd (gets ss_control_stack) (\<lambda>bs.
     bnd (lift_result (index bs i)) (\<lambda>b.
     modify (\<lambda>s. s\<lparr>ss_control_stack := bs[i := f b]\<rparr>)))"

definition ss_update_curr_block :: "(Label \<Rightarrow> Label) \<Rightarrow> ('z, unit) sim_op" where
  "ss_update_curr_block f = bnd (gets ss_control_stack) (\<lambda>bs.
     if bs = [] then panic else ss_update_block (length bs - 1) f)"

definition ss_block_index :: "nat \<Rightarrow> ('z, nat) sim_op" where
  "ss_block_index relative_depth = bnd (gets (length o ss_control_stack)) (\<lambda>n.
     bnd (lift_result (usize_sub n 1)) (\<lambda>t. lift_result (usize_sub t relative_depth)))"

definition ss_pop_block :: "('z, Label) sim_op" where
  "ss_pop_block = bnd (gets ss_control_stack) (\<lambda>bs.
     if bs = [] then panic
     else bnd (modify (\<lambda>s. s\<lparr>ss_control_stack := butlast bs\<rparr>)) (\<lambda>_. ret (last bs)))"

definition reset_enclosing_block_layout :: "('z, unit) sim_op" where
  "reset_enclosing_block_layout =
     bnd ss_get_curr_block (\<lambda>block.
     bnd ss_height (\<lambda>h.
     bnd (lift_result (u32_sub h (lb_recorded_height block))) (\<lambda>unwind.
     pops_and_pushes unwind (lb_results block))))"

datatype BlockVariant = BV_If | BV_Loop | BV_Block | BV_Func

text \<open>A move of the parameters, when there are any, comes before the label's own instruction.\<close>

definition ss_add_block ::
    "BlockVariant \<Rightarrow> BlockType \<Rightarrow> FuncType list \<Rightarrow> nat \<Rightarrow> ('z, nat \<times> nat) sim_op" where
  "ss_add_block variant blockty types instr_len =
     bnd (lift_result (params_and_results_from_blockty blockty types)) (\<lambda>(params, results).
       let own_index = as_u32 (if params \<noteq> 0 then instr_len + 1 else instr_len);
           kind = (case variant of
               BV_Func \<Rightarrow> BK_Func
             | BV_Block \<Rightarrow> BK_Block
             | BV_If \<Rightarrow> BK_If own_index None
             | BV_Loop \<Rightarrow> BK_Loop own_index)
       in bnd ss_height (\<lambda>h.
          bnd (lift_result (recorded_height_of kind h params)) (\<lambda>recorded_height.
          bnd (modify (\<lambda>s. s\<lparr>ss_control_stack := ss_control_stack s @
                 [\<lparr>lb_kind = kind, lb_recorded_height = recorded_height, lb_params = params,
                   lb_results = results, lb_is_unreachable_traversing = False,
                   lb_has_inherited = False, lb_attached_breaks = []\<rparr>]\<rparr>)) (\<lambda>_.
          ret (params, results)))))"

section \<open>Branches and writes\<close>

text \<open>The walk down to a label's height, counting registers and keeping the carried operands.\<close>

fun walk_down ::
    "nat \<Rightarrow> nat \<Rightarrow> nat \<Rightarrow> nat \<Rightarrow> BackPatchableSlot list \<Rightarrow> ('z, nat \<times> BackPatchableSlot list) sim_op" where
  "walk_down i 0 arity register_index ops = ret (register_index, ops)"
| "walk_down i (Suc n) arity register_index ops =
     bnd (simulated_pop (as_u32 i)) (\<lambda>x.
     bnd (lift_result (if is_register x then usize_sub register_index 1 else Ok register_index)) (\<lambda>r.
     walk_down (Suc i) n arity r (if i < arity then ops[arity - 1 - i := x] else ops)))"

definition br_truncation_registers ::
    "nat \<Rightarrow> nat \<Rightarrow> nat \<Rightarrow> InstructionSource \<Rightarrow> ('z, DynSignature) sim_op" where
  "br_truncation_registers target_height arity_to_preserve instr_index source =
     bnd ss_height (\<lambda>h.
     bnd (lift_result (u32_sub h target_height)) (\<lambda>popped_count.
     bnd (gets (\<lambda>s. as_u16 (curr_register_index s))) (\<lambda>c.
     bnd (walk_down 0 popped_count arity_to_preserve c (replicate arity_to_preserve (BP_Register U16_MAX)))
       (\<lambda>(register_index, ops).
     bnd (if 0 < arity_to_preserve then add_patch instr_index source ops else ret ()) (\<lambda>_.
     bnd (lift_result (u32_add register_index (as_u32 arity_to_preserve))) (\<lambda>peak.
     bnd (gets max_registers) (\<lambda>m.
     bnd (if m < peak
          then if U16_MAX < peak
               then fail (RegisterFrameTooLarge ''locals and operand registers'' peak U16_MAX)
               else modify (\<lambda>s. s\<lparr>max_registers := as_u16 peak\<rparr>)
          else ret ()) (\<lambda>_.
     ret \<lparr>ds_input = replicate arity_to_preserve U16_MAX, ds_output_start = register_index\<rparr>))))))))"

definition set_lazy :: "nat \<Rightarrow> ('z, nat option) sim_op" where
  "set_lazy location =
     bnd (on_lazy (get_origin location)) (\<lambda>origin. case origin of
         None \<Rightarrow> ret None
       | Some i \<Rightarrow>
           bnd (on_spills reserve_slot) (\<lambda>spill_index.
           bnd (on_lazy (lazy_spill i spill_index)) (\<lambda>_.
           bnd (on_lazy (set_origin location None)) (\<lambda>_.
           ret (Some spill_index)))))"

fun register_walk :: "nat \<Rightarrow> nat \<Rightarrow> nat \<Rightarrow> ('z, nat) sim_op" where
  "register_walk i 0 register_index = ret register_index"
| "register_walk i (Suc n) register_index =
     bnd (on_stack (peek_from_top i)) (\<lambda>x.
     bnd (lift_result (case x of SS_Register _ \<Rightarrow> usize_sub register_index 1 | _ \<Rightarrow> Ok register_index)) (\<lambda>r.
     register_walk (Suc i) n r))"

definition register_index_at_depth :: "nat \<Rightarrow> ('z, nat) sim_op" where
  "register_index_at_depth depth = bnd (gets curr_register_index) (register_walk 0 depth)"

end
