(* ===== verification/RegLazies.thy ===== *)
theory RegLazies
  imports RegSimStack
begin

text \<open>
  The borrows of the register lowering: which shared entries are alive, where their values are,
  and which spill slots are in use. The counts, the origin table and the free list are redundant
  views of the operands on the simulated stack; \<open>lazies_ok\<close> says that they are the right ones.
\<close>

lemma wlpD: "wlp m Q s \<Longrightarrow> m s = Ok (a, s') \<Longrightarrow> Q a s'"
  by (simp add: wlp_def)

lemma wlpI: "(\<And>a s'. m s = Ok (a, s') \<Longrightarrow> Q a s') \<Longrightarrow> wlp m Q s"
  by (auto simp: wlp_def split: result.split)

section \<open>The live borrows\<close>

definition lazy_at :: "LazyArena \<Rightarrow> nat \<Rightarrow> LazyLocation" where
  "lazy_at la i = le_location (la_entries la ! i)"

text \<open>
  \<open>lazies_ok L es la sp\<close>, for a body of \<open>L\<close> locals whose simulated stack is \<open>es\<close>: every count is the
  number of operands that hold the entry, the origin of a local is the entry that still forwards
  to it, and the slots in use are the spilled locations of the live entries, which differ.
\<close>

definition spilled_slots :: "StackSlot list \<Rightarrow> LazyArena \<Rightarrow> nat set" where
  "spilled_slots es la = {k. \<exists>i. SS_Local i \<in> set es \<and> lazy_at la i = Spilled k}"

definition counts_ok :: "StackSlot list \<Rightarrow> LazyArena \<Rightarrow> bool" where
  "counts_ok es la \<longleftrightarrow> (\<forall>i. SS_Local i \<in> set es \<longrightarrow> i < length (la_entries la)) \<and>
     (\<forall>i < length (la_entries la). le_ref_count (la_entries la ! i) = count_list es (SS_Local i))"

definition origins_ok :: "nat \<Rightarrow> StackSlot list \<Rightarrow> LazyArena \<Rightarrow> bool" where
  "origins_ok L es la \<longleftrightarrow> length (la_origin la) = L \<and>
     (\<forall>i n. SS_Local i \<in> set es \<longrightarrow> lazy_at la i = Original n \<longrightarrow> n < L) \<and>
     (\<forall>i n. n < L \<longrightarrow> (la_origin la ! n = Some i \<longleftrightarrow> SS_Local i \<in> set es \<and> lazy_at la i = Original n))"

definition spills_ok :: "StackSlot list \<Rightarrow> LazyArena \<Rightarrow> SpillArena \<Rightarrow> bool" where
  "spills_ok es la sp \<longleftrightarrow> distinct (sp_free_slots sp) \<and>
     set (sp_free_slots sp) \<inter> spilled_slots es la = {} \<and>
     set (sp_free_slots sp) \<union> spilled_slots es la = {..<sp_allocation_len sp} \<and>
     (\<forall>i j k. SS_Local i \<in> set es \<longrightarrow> SS_Local j \<in> set es \<longrightarrow> lazy_at la i = Spilled k \<longrightarrow>
        lazy_at la j = Spilled k \<longrightarrow> i = j) \<and>
     sp_allocation_len sp \<le> U16_MAX"

definition lazies_ok :: "nat \<Rightarrow> StackSlot list \<Rightarrow> LazyArena \<Rightarrow> SpillArena \<Rightarrow> bool" where
  "lazies_ok L es la sp \<longleftrightarrow> counts_ok es la \<and> origins_ok L es la \<and> spills_ok es la sp"

lemma lazies_okD:
  assumes "lazies_ok L es la sp"
  shows "counts_ok es la" "origins_ok L es la" "spills_ok es la sp"
  using assms by (simp_all add: lazies_ok_def)

lemma lazies_new: "L \<le> U16_MAX \<Longrightarrow> lazies_ok L [] (new_lazy_arena L) new_spill_arena"
  by (simp add: lazies_ok_def counts_ok_def origins_ok_def spills_ok_def new_lazy_arena_def
      new_spill_arena_def spilled_slots_def)

lemma count_in: "SS_Local i \<in> set es \<longleftrightarrow> 0 < count_list es (SS_Local i)"
  by (metis count_list_0_iff gr0I less_irrefl)

lemma lazies_ok_other:
  assumes "\<And>i. e \<noteq> SS_Local i"
  shows "lazies_ok L (es @ [e]) la sp = lazies_ok L es la sp"
proof -
  have mem: "SS_Local i \<in> set (es @ [e]) \<longleftrightarrow> SS_Local i \<in> set es" for i
    using assms [of i] by auto
  have "count_list (es @ [e]) (SS_Local i) = count_list es (SS_Local i)" for i
    using assms [of i] by simp
  then show ?thesis
    unfolding lazies_ok_def counts_ok_def origins_ok_def spills_ok_def spilled_slots_def mem by simp
qed

section \<open>Reading and writing entries\<close>

lemma wlp_get_entry [simp]:
  "wlp (get_entry i) Q = (\<lambda>a. i < length (la_entries a) \<longrightarrow> Q (la_entries a ! i) a)"
  by (rule ext) (auto simp: get_entry_def)

lemma wlp_put_entry [simp]: "wlp (put_entry i e) Q = (\<lambda>a. Q () (a\<lparr>la_entries := (la_entries a)[i := e]\<rparr>))"
  by (simp add: put_entry_def)

lemma wlp_get_origin [simp]:
  "wlp (get_origin n) Q = (\<lambda>a. n < length (la_origin a) \<longrightarrow> Q (la_origin a ! n) a)"
  by (rule ext) (auto simp: get_origin_def)

lemma wlp_set_origin [simp]:
  "wlp (set_origin n x) Q = (\<lambda>a. n < length (la_origin a) \<longrightarrow> Q () (a\<lparr>la_origin := (la_origin a)[n := x]\<rparr>))"
  by (rule ext) (auto simp: set_origin_def)

lemma wlp_lazy_location [simp]:
  "wlp (lazy_location i) Q = (\<lambda>a. i < length (la_entries a) \<longrightarrow> Q (lazy_at a i) a)"
  by (rule ext) (auto simp: lazy_location_def lazy_at_def)

lemma lazy_at_count [simp]:
  "lazy_at (la\<lparr>la_entries := (la_entries la)[i := (la_entries la ! i)\<lparr>le_ref_count := n\<rparr>]\<rparr>) j = lazy_at la j"
  by (cases "i < length (la_entries la)") (auto simp: lazy_at_def nth_list_update list_update_beyond)

lemma lazy_at_origin [simp]: "lazy_at (la\<lparr>la_origin := x\<rparr>) j = lazy_at la j"
  by (simp add: lazy_at_def)

lemma spilled_slots_origin [simp]: "spilled_slots es (la\<lparr>la_origin := x\<rparr>) = spilled_slots es la"
  by (simp add: spilled_slots_def)

lemma counts_origin [simp]: "counts_ok es (la\<lparr>la_origin := x\<rparr>) = counts_ok es la"
  by (simp add: counts_ok_def)

lemma spills_origin [simp]: "spills_ok es (la\<lparr>la_origin := x\<rparr>) sp = spills_ok es la sp"
  by (simp add: spills_ok_def)

section \<open>Popping an operand\<close>

definition decrement :: "nat \<Rightarrow> LazyArena \<Rightarrow> LazyArena" where
  "decrement i la = la\<lparr>la_entries := (la_entries la)[i := (la_entries la ! i)\<lparr>le_ref_count :=
     le_ref_count (la_entries la ! i) - 1\<rparr>]\<rparr>"

lemma decrement_simps [simp]:
  "lazy_at (decrement i la) j = lazy_at la j" "la_origin (decrement i la) = la_origin la"
  "length (la_entries (decrement i la)) = length (la_entries la)"
  "spilled_slots es (decrement i la) = spilled_slots es la"
  by (simp_all add: decrement_def spilled_slots_def)

lemma counts_decrement:
  assumes "counts_ok (es @ [SS_Local i]) la"
  shows "counts_ok es (decrement i la)"
  using assms by (auto simp: counts_ok_def decrement_def nth_list_update)

text \<open>An operand whose entry stays alive.\<close>

lemma set_snoc_same: "e \<in> set es \<Longrightarrow> set (es @ [e]) = set es"
  by auto

lemma lazies_decrement:
  assumes "lazies_ok L (es @ [SS_Local i]) la sp" and "SS_Local i \<in> set es"
  shows "lazies_ok L es (decrement i la) sp"
  using assms counts_decrement [of es i la]
  by (auto simp: lazies_ok_def origins_ok_def spills_ok_def spilled_slots_def insert_absorb)

lemma lazies_last_original:
  assumes "lazies_ok L (es @ [SS_Local i]) la sp" and "SS_Local i \<notin> set es" and "lazy_at la i = Original n"
  shows "lazies_ok L es ((decrement i la)\<lparr>la_origin := (la_origin la)[n := None]\<rparr>) sp"
proof -
  have slots: "spilled_slots es la = spilled_slots (es @ [SS_Local i]) la"
    using assms(3) by (auto simp: spilled_slots_def)
  have origins: "origins_ok L (es @ [SS_Local i]) la" and "n < L"
    using assms by (auto simp: lazies_ok_def origins_ok_def)
  have "origins_ok L es ((decrement i la)\<lparr>la_origin := (la_origin la)[n := None]\<rparr>)"
    unfolding origins_ok_def
  proof (intro conjI allI impI)
    fix j m assume m: "m < L"
    have at_m: "la_origin la ! m = Some j \<longleftrightarrow> (SS_Local j \<in> set es \<or> j = i) \<and> lazy_at la j = Original m"
      using origins m by (auto simp: origins_ok_def)
    have at_n: "la_origin la ! n = Some i"
      using origins \<open>n < L\<close> assms(3) by (simp add: origins_ok_def)
    show "(la_origin ((decrement i la)\<lparr>la_origin := (la_origin la)[n := None]\<rparr>) ! m = Some j) =
        (SS_Local j \<in> set es \<and> lazy_at ((decrement i la)\<lparr>la_origin := (la_origin la)[n := None]\<rparr>) j = Original m)"
      using at_m at_n assms(2,3) m origins by (cases "m = n") (auto simp: origins_ok_def)
  qed (use origins in \<open>auto simp: origins_ok_def\<close>)
  moreover have "spills_ok es (decrement i la) sp"
    using assms(1) slots by (auto simp: lazies_ok_def spills_ok_def)
  ultimately show ?thesis
    using assms(1) counts_decrement [of es i la] by (simp add: lazies_ok_def)
qed

lemma lazies_last_spilled:
  assumes "lazies_ok L (es @ [SS_Local i]) la sp" and "SS_Local i \<notin> set es" and "lazy_at la i = Spilled k"
  shows "lazies_ok L es (decrement i la) (sp\<lparr>sp_free_slots := sp_free_slots sp @ [k]\<rparr>)"
proof -
  have spills: "spills_ok (es @ [SS_Local i]) la sp" and origins: "origins_ok L (es @ [SS_Local i]) la"
    using assms(1) by (auto simp: lazies_ok_def)
  have unique: "lazy_at la j \<noteq> Spilled k" if "SS_Local j \<in> set es" for j
  proof
    assume "lazy_at la j = Spilled k"
    with spills that assms(3) have "j = i" by (simp add: spills_ok_def)
    with that assms(2) show False by simp
  qed
  then have "k \<notin> spilled_slots es la" and "spilled_slots (es @ [SS_Local i]) la = insert k (spilled_slots es la)"
    using assms(3) by (auto simp: spilled_slots_def)
  with spills have "spills_ok es (decrement i la) (sp\<lparr>sp_free_slots := sp_free_slots sp @ [k]\<rparr>)"
    by (auto simp: spills_ok_def)
  moreover have "origins_ok L es (decrement i la)"
    using origins assms(3) by (auto simp: origins_ok_def)
  ultimately show ?thesis
    using assms(1) counts_decrement [of es i la] by (simp add: lazies_ok_def)
qed

lemma wlp_pop_lazy:
  assumes ok: "lazies_ok L (es @ [SS_Local i]) (lazy_locals s) (spills s)"
    and Q: "\<And>la sp. lazies_ok L es la sp \<Longrightarrow> (\<And>j. lazy_at la j = lazy_at (lazy_locals s) j) \<Longrightarrow>
      sp_allocation_len sp = sp_allocation_len (spills s) \<Longrightarrow>
      Q (lazy_at (lazy_locals s) i) (s\<lparr>lazy_locals := la, spills := sp\<rparr>)"
  shows "wlp (pop_lazy i) Q s"
proof -
  let ?la = "lazy_locals s"
  have count: "le_ref_count (la_entries ?la ! i) = Suc (count_list es (SS_Local i))" if "i < length (la_entries ?la)"
    using ok that by (simp add: lazies_ok_def counts_ok_def)
  have dec: "(la_entries ?la ! i)\<lparr>le_ref_count := count_list es (SS_Local i)\<rparr> =
      (la_entries ?la ! i)\<lparr>le_ref_count := le_ref_count (la_entries ?la ! i) - 1\<rparr>" if "i < length (la_entries ?la)"
    using count [OF that] by simp
  have state: "s\<lparr>lazy_locals := la\<rparr> = s\<lparr>lazy_locals := la, spills := spills s\<rparr>" for la
    by simp
  show ?thesis
  proof (cases "SS_Local i \<in> set es")
    case True
    then have pos: "count_list es (SS_Local i) \<noteq> 0" by (simp add: count_in)
    have "Q (lazy_at ?la i) (s\<lparr>lazy_locals := decrement i ?la\<rparr>)"
      by (subst state) (rule Q [OF lazies_decrement [OF ok True]], simp_all)
    with pos count show ?thesis
      by (auto simp: pop_lazy_def decrease_ref_count_def u32_sub_eq_Ok decrement_def)
  next
    case False
    then have zero: "count_list es (SS_Local i) = 0" by (simp add: count_in)
    show ?thesis
    proof (cases "lazy_at ?la i")
      case (Original n)
      have "Q (lazy_at ?la i) (s\<lparr>lazy_locals := (decrement i ?la)\<lparr>la_origin := (la_origin ?la)[n := None]\<rparr>\<rparr>)"
        by (subst state) (rule Q [OF lazies_last_original [OF ok False Original]], simp_all)
      with zero count Original show ?thesis
        by (auto simp: pop_lazy_def decrease_ref_count_def u32_sub_eq_Ok decrement_def)
    next
      case (Spilled k)
      have "Q (lazy_at ?la i) (s\<lparr>lazy_locals := decrement i ?la,
          spills := (spills s)\<lparr>sp_free_slots := sp_free_slots (spills s) @ [k]\<rparr>\<rparr>)"
        by (rule Q [OF lazies_last_spilled [OF ok False Spilled]]) simp_all
      with zero count Spilled show ?thesis
        by (auto simp: pop_lazy_def decrease_ref_count_def u32_sub_eq_Ok decrement_def free_slot_def)
    qed
  qed
qed

section \<open>Pushing a local\<close>

definition increment :: "nat \<Rightarrow> LazyArena \<Rightarrow> LazyArena" where
  "increment i la = la\<lparr>la_entries := (la_entries la)[i := (la_entries la ! i)\<lparr>le_ref_count :=
     le_ref_count (la_entries la ! i) + 1\<rparr>]\<rparr>"

lemma increment_simps [simp]:
  "lazy_at (increment i la) j = lazy_at la j" "la_origin (increment i la) = la_origin la"
  "length (la_entries (increment i la)) = length (la_entries la)"
  "spilled_slots es (increment i la) = spilled_slots es la"
  by (simp_all add: increment_def spilled_slots_def)

lemma lazies_increment:
  assumes "lazies_ok L es la sp" and "SS_Local i \<in> set es"
  shows "lazies_ok L (es @ [SS_Local i]) (increment i la) sp"
proof -
  have slots: "spilled_slots (es @ [SS_Local i]) (increment i la) = spilled_slots es la"
    using assms(2) by (auto simp: spilled_slots_def)
  have "counts_ok (es @ [SS_Local i]) (increment i la)"
    using assms by (auto simp: lazies_ok_def counts_ok_def increment_def nth_list_update)
  moreover have "origins_ok L (es @ [SS_Local i]) (increment i la)"
    using assms by (auto simp: lazies_ok_def origins_ok_def)
  moreover have "spills_ok (es @ [SS_Local i]) (increment i la) sp"
    using assms unfolding lazies_ok_def spills_ok_def slots by auto
  ultimately show ?thesis by (simp add: lazies_ok_def)
qed

definition borrowed :: "nat \<Rightarrow> LazyArena \<Rightarrow> LazyArena" where
  "borrowed n la = la\<lparr>la_entries := la_entries la @ [\<lparr>le_location = Original n, le_ref_count = 1\<rparr>],
     la_origin := (la_origin la)[n := Some (length (la_entries la))]\<rparr>"

lemma lazy_at_borrowed:
  "lazy_at (borrowed n la) (length (la_entries la)) = Original n"
  "j < length (la_entries la) \<Longrightarrow> lazy_at (borrowed n la) j = lazy_at la j"
  by (simp_all add: lazy_at_def borrowed_def nth_append)

lemma lazies_borrowed:
  assumes ok: "lazies_ok L es la sp" and "n < L" and "la_origin la ! n = None"
  shows "lazies_ok L (es @ [SS_Local (length (la_entries la))]) (borrowed n la) sp"
proof -
  let ?i = "length (la_entries la)"
  have old: "j < ?i" if "SS_Local j \<in> set es" for j
    using ok that by (simp add: lazies_ok_def counts_ok_def)
  then have fresh: "SS_Local ?i \<notin> set es" by blast
  have at_old: "lazy_at (borrowed n la) j = lazy_at la j" if "SS_Local j \<in> set es" for j
    using old [OF that] by (simp add: lazy_at_borrowed)
  have slots: "spilled_slots (es @ [SS_Local ?i]) (borrowed n la) = spilled_slots es la"
  proof (rule set_eqI)
    fix k show "k \<in> spilled_slots (es @ [SS_Local ?i]) (borrowed n la) \<longleftrightarrow> k \<in> spilled_slots es la"
      using at_old lazy_at_borrowed(1) [of n la] by (auto simp: spilled_slots_def)
  qed
  have zero: "count_list es (SS_Local ?i) = 0"
    using fresh by (simp add: count_in)
  have entry_old: "la_entries (borrowed n la) ! j = la_entries la ! j" if "j < ?i" for j
    using that by (simp add: borrowed_def nth_append)
  have entry_new: "la_entries (borrowed n la) ! ?i = \<lparr>le_location = Original n, le_ref_count = 1\<rparr>"
    and size: "length (la_entries (borrowed n la)) = Suc ?i"
    by (simp_all add: borrowed_def)
  have counts: "le_ref_count (la_entries la ! j) = count_list es (SS_Local j)" if "j < ?i" for j
    using ok that by (simp add: lazies_ok_def counts_ok_def)
  have "counts_ok (es @ [SS_Local ?i]) (borrowed n la)"
    unfolding counts_ok_def size
  proof (intro conjI allI impI)
    fix j
    show "j < Suc ?i" if "SS_Local j \<in> set (es @ [SS_Local ?i])"
      using that old [of j] by auto
    assume "j < Suc ?i"
    then consider "j = ?i" | "j < ?i" by linarith
    then show "le_ref_count (la_entries (borrowed n la) ! j) = count_list (es @ [SS_Local ?i]) (SS_Local j)"
      by cases (simp_all add: entry_new zero entry_old counts)
  qed
  moreover have "origins_ok L (es @ [SS_Local ?i]) (borrowed n la)"
    unfolding origins_ok_def
  proof (intro conjI allI impI)
    have origins: "origins_ok L es la" using ok by (simp add: lazies_ok_def)
    show "length (la_origin (borrowed n la)) = L"
      using origins by (simp add: origins_ok_def borrowed_def)
    fix j m
    show "m < L" if "SS_Local j \<in> set (es @ [SS_Local ?i])" "lazy_at (borrowed n la) j = Original m"
      using that origins assms(2) at_old [of j] lazy_at_borrowed(1) [of n la] by (auto simp: origins_ok_def)
    assume m: "m < L"
    have was: "la_origin la ! m = Some j \<longleftrightarrow> SS_Local j \<in> set es \<and> lazy_at la j = Original m"
      using origins m by (simp add: origins_ok_def)
    have now: "la_origin (borrowed n la) ! m = (if m = n then Some ?i else la_origin la ! m)"
      using origins m by (simp add: borrowed_def origins_ok_def)
    show "(la_origin (borrowed n la) ! m = Some j) =
        (SS_Local j \<in> set (es @ [SS_Local ?i]) \<and> lazy_at (borrowed n la) j = Original m)"
    proof (cases "j = ?i")
      case True
      then show ?thesis using was fresh by (auto simp: now lazy_at_borrowed)
    next
      case False
      then show ?thesis using was assms(3) at_old [of j] by (auto simp: now)
    qed
  qed
  moreover have "spills_ok (es @ [SS_Local ?i]) (borrowed n la) sp"
    unfolding spills_ok_def slots
  proof (intro conjI allI impI)
    fix j j' k
    assume mem: "SS_Local j \<in> set (es @ [SS_Local ?i])" "SS_Local j' \<in> set (es @ [SS_Local ?i])"
      and at: "lazy_at (borrowed n la) j = Spilled k" "lazy_at (borrowed n la) j' = Spilled k"
    then have "SS_Local j \<in> set es" "SS_Local j' \<in> set es"
      using lazy_at_borrowed(1) [of n la] by auto
    with at ok at_old show "j = j'" by (simp add: lazies_ok_def spills_ok_def)
  qed (use ok in \<open>simp_all add: lazies_ok_def spills_ok_def\<close>)
  ultimately show ?thesis by (simp add: lazies_ok_def)
qed

lemma wlp_push_lazy:
  assumes ok: "lazies_ok L es (lazy_locals s) (spills s)" and n: "n < L"
    and Q: "\<And>la i. lazies_ok L (es @ [SS_Local i]) la (spills s) \<Longrightarrow> lazy_at la i = Original n \<Longrightarrow>
      (\<And>j. SS_Local j \<in> set es \<Longrightarrow> lazy_at la j = lazy_at (lazy_locals s) j) \<Longrightarrow>
      Q i (s\<lparr>lazy_locals := la\<rparr>)"
  shows "wlp (push_lazy n) Q s"
proof -
  let ?la = "lazy_locals s"
  have L: "length (la_origin ?la) = L"
    using ok by (simp add: lazies_ok_def origins_ok_def)
  show ?thesis
  proof (cases "la_origin ?la ! n")
    case None
    have old: "j < length (la_entries ?la)" if "SS_Local j \<in> set es" for j
      using ok that by (simp add: lazies_ok_def counts_ok_def)
    have "Q (length (la_entries ?la)) (s\<lparr>lazy_locals := borrowed n ?la\<rparr>)"
      by (rule Q [OF lazies_borrowed [OF ok n None]]) (simp_all add: lazy_at_borrowed old)
    with None n L show ?thesis
      by (simp add: push_lazy_def lazy_allocate_def wlp_def borrowed_def bnd_def on_field_def
          get_origin_def set_origin_def gets_def modify_def lift_result_def index_def ret_def)
  next
    case (Some i)
    with ok n have i: "SS_Local i \<in> set es" "lazy_at ?la i = Original n"
      by (simp_all add: lazies_ok_def origins_ok_def)
    have "Q i (s\<lparr>lazy_locals := increment i ?la\<rparr>)"
      by (rule Q [OF lazies_increment [OF ok i(1)]]) (simp_all add: i)
    with Some n L show ?thesis
      by (simp add: push_lazy_def advanced_ref_count_def u32_add_eq_Ok increment_def)
  qed
qed

section \<open>Spilling a local\<close>

definition redirected :: "nat \<Rightarrow> nat \<Rightarrow> nat \<Rightarrow> LazyArena \<Rightarrow> LazyArena" where
  "redirected i n k la = la\<lparr>la_entries := (la_entries la)[i := (la_entries la ! i)\<lparr>le_location := Spilled k\<rparr>],
     la_origin := (la_origin la)[n := None]\<rparr>"

lemma lazy_at_redirected:
  "i < length (la_entries la) \<Longrightarrow> lazy_at (redirected i n k la) j = (if j = i then Spilled k else lazy_at la j)"
  by (auto simp: lazy_at_def redirected_def nth_list_update)

lemma lazies_redirected:
  assumes ok: "lazies_ok L es la sp" and i: "SS_Local i \<in> set es" "lazy_at la i = Original n"
    and len: "sp_allocation_len sp' \<le> U16_MAX"
    and slots': "distinct (sp_free_slots sp')" "k \<notin> set (sp_free_slots sp')" "k \<notin> spilled_slots es la"
      "insert k (set (sp_free_slots sp') \<union> spilled_slots es la) = {..<sp_allocation_len sp'}"
      "set (sp_free_slots sp') \<subseteq> set (sp_free_slots sp)"
  shows "lazies_ok L es (redirected i n k la) sp'"
proof -
  have here: "i < length (la_entries la)"
    using ok i(1) by (simp add: lazies_ok_def counts_ok_def)
  note at = lazy_at_redirected [OF here, of n k]
  have origins: "origins_ok L es la" and "n < L"
    using ok i by (auto simp: lazies_ok_def origins_ok_def)
  have slots: "spilled_slots es (redirected i n k la) = insert k (spilled_slots es la)"
    using i by (force simp: spilled_slots_def at)
  have "counts_ok es (redirected i n k la)"
    using ok here by (auto simp: lazies_ok_def counts_ok_def redirected_def nth_list_update)
  moreover have "origins_ok L es (redirected i n k la)"
    unfolding origins_ok_def
  proof (intro conjI allI impI)
    fix j m assume m: "m < L"
    have was: "la_origin la ! m = Some j \<longleftrightarrow> SS_Local j \<in> set es \<and> lazy_at la j = Original m" for j
      using origins m by (simp add: origins_ok_def)
    have now: "la_origin (redirected i n k la) ! m = (if m = n then None else la_origin la ! m)"
      using origins m by (auto simp: redirected_def origins_ok_def)
    show "(la_origin (redirected i n k la) ! m = Some j) =
        (SS_Local j \<in> set es \<and> lazy_at (redirected i n k la) j = Original m)"
    proof (cases "j = i")
      case True
      then show ?thesis using was [of i] i by (auto simp: now at)
    next
      case False
      then show ?thesis using was [of i] was [of j] i by (auto simp: now at)
    qed
  next
    show "length (la_origin (redirected i n k la)) = L"
      using origins by (simp add: redirected_def origins_ok_def)
  qed (use origins in \<open>auto simp: origins_ok_def at split: if_splits\<close>)
  moreover have "spills_ok es (redirected i n k la) sp'"
    unfolding spills_ok_def slots
  proof (intro conjI allI impI)
    show "set (sp_free_slots sp') \<inter> insert k (spilled_slots es la) = {}"
      using ok slots' by (auto simp: lazies_ok_def spills_ok_def)
    fix j j' m
    assume "SS_Local j \<in> set es" "SS_Local j' \<in> set es"
      "lazy_at (redirected i n k la) j = Spilled m" "lazy_at (redirected i n k la) j' = Spilled m"
    with ok slots'(3) show "j = j'"
      by (auto simp: at lazies_ok_def spills_ok_def spilled_slots_def split: if_splits)
  qed (use slots' len in auto)
  ultimately show ?thesis by (simp add: lazies_ok_def)
qed

lemma reserve_slot_slots:
  assumes ok: "spills_ok es la sp"
  shows "wlp reserve_slot (\<lambda>k sp'. distinct (sp_free_slots sp') \<and> k \<notin> set (sp_free_slots sp') \<and>
      k \<notin> spilled_slots es la \<and> sp_allocation_len sp \<le> sp_allocation_len sp' \<and> k < sp_allocation_len sp' \<and>
      insert k (set (sp_free_slots sp') \<union> spilled_slots es la) = {..<sp_allocation_len sp'} \<and>
      set (sp_free_slots sp') \<subseteq> set (sp_free_slots sp) \<and> sp_allocation_len sp' \<le> U16_MAX) sp"
proof (cases "sp_free_slots sp = []")
  case True
  with ok have "spilled_slots es la = {..<sp_allocation_len sp}"
    by (simp add: spills_ok_def)
  with True show ?thesis
    by (simp add: reserve_slot_def wlp_def lessThan_Suc split: result.split)
next
  case False
  then obtain xs x where xs: "sp_free_slots sp = xs @ [x]" by (metis append_butlast_last_id)
  have eq: "reserve_slot sp = Ok (x, sp\<lparr>sp_free_slots := xs\<rparr>)"
    by (simp add: reserve_slot_def xs)
  have "x \<in> set (sp_free_slots sp)" by (simp add: xs)
  with ok have new: "x \<notin> spilled_slots es la" "x < sp_allocation_len sp"
    by (auto simp: spills_ok_def)
  have all: "insert x (set xs \<union> spilled_slots es la) = {..<sp_allocation_len sp}"
    and xs': "distinct xs" "x \<notin> set xs" "sp_allocation_len sp \<le> U16_MAX"
    using ok by (simp_all add: spills_ok_def xs)
  show ?thesis
    by (rule wlpI) (use new all xs' in \<open>simp add: eq xs subset_insertI\<close>)
qed

lemma wlp_set_lazy:
  assumes ok: "lazies_ok L es (lazy_locals s) (spills s)" and n: "n < L"
    and none: "(\<And>j. SS_Local j \<in> set es \<Longrightarrow> lazy_at (lazy_locals s) j \<noteq> Original n) \<Longrightarrow> Q None s"
    and some: "\<And>i k la sp. SS_Local i \<in> set es \<Longrightarrow> lazy_at (lazy_locals s) i = Original n \<Longrightarrow>
      lazies_ok L es la sp \<Longrightarrow> (\<And>j. lazy_at la j = (if j = i then Spilled k else lazy_at (lazy_locals s) j)) \<Longrightarrow>
      k \<notin> spilled_slots es (lazy_locals s) \<Longrightarrow> k < sp_allocation_len sp \<Longrightarrow>
      sp_allocation_len (spills s) \<le> sp_allocation_len sp \<Longrightarrow>
      Q (Some k) (s\<lparr>lazy_locals := la, spills := sp\<rparr>)"
  shows "wlp (set_lazy n) Q s"
proof -
  let ?la = "lazy_locals s"
  have L: "length (la_origin ?la) = L"
    and origin: "la_origin ?la ! n = Some i \<longleftrightarrow> SS_Local i \<in> set es \<and> lazy_at ?la i = Original n" for i
    using ok n by (simp_all add: lazies_ok_def origins_ok_def)
  show ?thesis
  proof (cases "la_origin ?la ! n")
    case None
    with origin have "Q None s" by (intro none) auto
    with None n L show ?thesis by (simp add: set_lazy_def)
  next
    case (Some i)
    with origin have i: "SS_Local i \<in> set es" "lazy_at ?la i = Original n" by auto
    have here: "i < length (la_entries ?la)"
      using ok i(1) by (simp add: lazies_ok_def counts_ok_def)
    have commute: "s\<lparr>spills := sp, lazy_locals := la\<rparr> = s\<lparr>lazy_locals := la, spills := sp\<rparr>" for la sp
      by (cases s) simp
    have redirect: "Q (Some k) (s\<lparr>spills := sp, lazy_locals := redirected i n k ?la\<rparr>)"
      if "reserve_slot (spills s) = Ok (k, sp)" for k sp
      using wlpD [OF reserve_slot_slots [OF lazies_okD(3) [OF ok]] that] lazy_at_redirected [OF here, of n k]
      by (subst commute, intro some [OF i lazies_redirected [OF ok i]]) auto
    have loc: "le_location (la_entries ?la ! i) = Original n"
      using i(2) by (simp add: lazy_at_def)
    have "wlp reserve_slot (\<lambda>k sp. Q (Some k) (s\<lparr>spills := sp, lazy_locals := redirected i n k ?la\<rparr>)) (spills s)"
      using redirect by (auto simp: wlp_def split: result.split)
    then show ?thesis
      using Some n L here
      by (auto simp: set_lazy_def lazy_spill_def loc redirected_def elim!: wlp_mono)
  qed
qed

end
