(* ===== verification/RegForwarding.thy ===== *)
theory RegForwarding
  imports RegLazies RegOperands
begin

text \<open>
  What the simulated stack of the register lowering promises: it is a list of operands, each the
  place the value will be read from. Pushing a local or a constant adds its own place, popping
  takes the last one, and spilling a local redirects every pending operand that still reads it.
  \<open>forwards\<close> relates the shared entries, counts and tables of the code to that list.
\<close>

section \<open>The abstraction\<close>

fun operand_in :: "LazyArena \<Rightarrow> StackSlot \<Rightarrow> BackPatchableSlot" where
  "operand_in la (SS_Const i) = BP_Const i"
| "operand_in la (SS_Register r) = BP_Register r"
| "operand_in la (SS_Local i) = of_location (lazy_at la i)"

fun stack_registers :: "StackSlot list \<Rightarrow> nat list" where
  "stack_registers [] = []"
| "stack_registers (SS_Register r # es) = r # stack_registers es"
| "stack_registers (_ # es) = stack_registers es"

lemma stack_registers_append [simp]: "stack_registers (es @ es') = stack_registers es @ stack_registers es'"
  by (induction es rule: stack_registers.induct) simp_all

lemma stack_registers_set: "SS_Register r \<in> set es \<longleftrightarrow> r \<in> set (stack_registers es)"
  by (induction es rule: stack_registers.induct) auto

definition interner_ok :: "'a interner \<Rightarrow> bool" where
  "interner_ok p \<longleftrightarrow> length (in_values p) \<le> U16_MAX \<and>
     (\<forall>v i. in_reverse_map p v = Some i \<longrightarrow> i < length (in_values p) \<and> in_values p ! i = v)"

text \<open>The invariant of the code's structures, for a body of \<open>L\<close> locals and the entries \<open>es\<close>.\<close>

definition entries_ok :: "nat \<Rightarrow> StackSlot list \<Rightarrow> 'z SimulatedStack_scheme \<Rightarrow> bool" where
  "entries_ok L es s \<longleftrightarrow> holds (ss_stack s) es \<and>
     stack_registers es = [L..<curr_register_index s] \<and> L \<le> curr_register_index s \<and>
     curr_register_index s \<le> max_registers s \<and> max_registers s \<le> U16_MAX \<and>
     lazies_ok L es (lazy_locals s) (spills s) \<and>
     interner_ok (const_interner s) \<and> interner_ok (memory_offsets s) \<and>
     (\<forall>i. SS_Const i \<in> set es \<longrightarrow> i < length (in_values (const_interner s)))"

definition forwards :: "nat \<Rightarrow> BackPatchableSlot list \<Rightarrow> 'z SimulatedStack_scheme \<Rightarrow> bool" where
  "forwards L ops s \<longleftrightarrow> (\<exists>es. entries_ok L es s \<and> map (operand_in (lazy_locals s)) es = ops)"

lemma forwardsI: "entries_ok L es s \<Longrightarrow> map (operand_in (lazy_locals s)) es = ops \<Longrightarrow> forwards L ops s"
  by (auto simp: forwards_def)

lemma forwards_new:
  assumes "L \<le> U16_MAX"
  shows "forwards L [] (new_simulated_stack L)"
proof (rule forwardsI)
  show "entries_ok L [] (new_simulated_stack L)"
    using assms lazies_new [OF assms]
    by (simp add: entries_ok_def new_simulated_stack_def interner_ok_def new_interner_def as_u16_def U16_MAX_def)
qed simp

text \<open>Where an operand can be: the locals, the pool, the allocated slots, the live registers.\<close>

fun operand_ok :: "nat \<Rightarrow> 'z SimulatedStack_scheme \<Rightarrow> BackPatchableSlot \<Rightarrow> bool" where
  "operand_ok L s (BP_Slot n) = (n < L)"
| "operand_ok L s (BP_Const i) = (i < length (in_values (const_interner s)))"
| "operand_ok L s (BP_Spill k) = (k < sp_allocation_len (spills s))"
| "operand_ok L s (BP_Register r) = (L \<le> r \<and> r < curr_register_index s)"

lemma forwards_operands:
  assumes "forwards L ops s" and "x \<in> set ops"
  shows "operand_ok L s x"
proof -
  obtain es e where ok: "entries_ok L es s" and e: "e \<in> set es" and x: "x = operand_in (lazy_locals s) e"
    using assms by (auto simp: forwards_def)
  show ?thesis
  proof (cases e)
    case (SS_Const i)
    with ok e show ?thesis by (simp add: x entries_ok_def)
  next
    case (SS_Register r)
    with e have "r \<in> set (stack_registers es)" by (simp add: stack_registers_set)
    with ok SS_Register show ?thesis by (simp add: x entries_ok_def)
  next
    case (SS_Local i)
    have "lazies_ok L es (lazy_locals s) (spills s)" using ok by (simp add: entries_ok_def)
    then have "origins_ok L es (lazy_locals s)" and spills: "spills_ok es (lazy_locals s) (spills s)"
      by (simp_all add: lazies_ok_def)
    then show ?thesis
    proof (cases "lazy_at (lazy_locals s) i")
      case (Original n)
      with \<open>origins_ok L es (lazy_locals s)\<close> e SS_Local show ?thesis
        by (auto simp: x origins_ok_def)
    next
      case (Spilled k)
      with e SS_Local have "k \<in> spilled_slots es (lazy_locals s)" by (auto simp: spilled_slots_def)
      with spills have "k \<in> {..<sp_allocation_len (spills s)}" unfolding spills_ok_def by blast
      with SS_Local Spilled show ?thesis by (simp add: x)
    qed
  qed
qed

section \<open>What the operations leave alone\<close>

definition restacked :: "'z SimulatedStack_scheme \<Rightarrow> 'z SimulatedStack_scheme \<Rightarrow> bool" where
  "restacked s s' \<longleftrightarrow> s'\<lparr>ss_stack := ss_stack s, curr_register_index := curr_register_index s,
       max_registers := max_registers s, lazy_locals := lazy_locals s, spills := spills s\<rparr> = s \<and>
     max_registers s \<le> max_registers s' \<and> sp_allocation_len (spills s) \<le> sp_allocation_len (spills s')"

lemma restacked_refl [simp]: "restacked s s"
  by (simp add: restacked_def)

lemma restacked_trans [trans]:
  assumes "restacked s t" and "restacked t u"
  shows "restacked s u"
proof -
  have "s = t\<lparr>ss_stack := ss_stack s, curr_register_index := curr_register_index s,
       max_registers := max_registers s, lazy_locals := lazy_locals s, spills := spills s\<rparr>"
    using assms(1) by (simp add: restacked_def)
  also have "t = u\<lparr>ss_stack := ss_stack t, curr_register_index := curr_register_index t,
       max_registers := max_registers t, lazy_locals := lazy_locals t, spills := spills t\<rparr>"
    using assms(2) by (simp add: restacked_def)
  finally show ?thesis
    using assms by (simp add: restacked_def)
qed

lemma restacked_step [simp]:
  "restacked s (s\<lparr>ss_stack := st\<rparr>)"
  "restacked s (s\<lparr>curr_register_index := c\<rparr>)"
  "restacked s (s\<lparr>lazy_locals := la\<rparr>)"
  "max_registers s \<le> m \<Longrightarrow> restacked s (s\<lparr>max_registers := m\<rparr>)"
  "sp_allocation_len (spills s) \<le> sp_allocation_len sp \<Longrightarrow> restacked s (s\<lparr>lazy_locals := la, spills := sp\<rparr>)"
  by (cases s; simp add: restacked_def)+

lemma restackedD:
  assumes "restacked s s'"
  shows "const_interner s' = const_interner s" "memory_offsets s' = memory_offsets s"
    "backpatch_map s' = backpatch_map s" "ss_control_stack s' = ss_control_stack s"
    "if_arena s' = if_arena s" "br_if_arena s' = br_if_arena s" "br_table_arena s' = br_table_arena s"
    "call_indirect_arena s' = call_indirect_arena s" "select_arena s' = select_arena s"
    "memory_init_arena s' = memory_init_arena s" "dyn_signatures s' = dyn_signatures s"
    "SimulatedStack.more s' = SimulatedStack.more s"
    "max_registers s \<le> max_registers s'" "sp_allocation_len (spills s) \<le> sp_allocation_len (spills s')"
  using assms by (cases s; cases s'; simp add: restacked_def)+

section \<open>The operations on the abstraction\<close>

lemma entries_locals_count:
  assumes "entries_ok L es s"
  shows "ss_locals_count s = L"
proof -
  have "length (la_origin (lazy_locals s)) = L" "L \<le> U16_MAX"
    using assms by (auto simp: entries_ok_def lazies_ok_def origins_ok_def)
  then show ?thesis by (simp add: ss_locals_count_def)
qed

lemma wlp_pop_stack:
  assumes "holds st es" and "\<And>es' e st'. es = es' @ [e] \<Longrightarrow> holds st' es' \<Longrightarrow> Q e st'"
  shows "wlp pop Q st"
proof (cases es rule: rev_cases)
  case Nil
  with assms(1) have "stack_pointer st = 0" using holds_pointer by fastforce
  then show ?thesis by (simp add: pop_def)
next
  case (snoc es' e)
  with assms(1) have "holds st (es' @ [e])" by simp
  from wp_imp_wlp [OF holds_pop [OF this]] show ?thesis
    by (rule wlp_mono) (use assms(2) snoc in auto)
qed

lemma wlp_push_stack: "holds st es \<Longrightarrow> (\<And>st'. holds st' (es @ [e]) \<Longrightarrow> Q () st') \<Longrightarrow> wlp (push e) Q st"
  by (rule wlp_mono [OF wp_imp_wlp [OF holds_push]]) auto

lemma wlp_ss_pop:
  assumes "forwards L ops s"
    and Q: "\<And>xs x s'. ops = xs @ [x] \<Longrightarrow> forwards L xs s' \<Longrightarrow> restacked s s' \<Longrightarrow> Q x s'"
  shows "wlp ss_pop Q s"
proof -
  obtain es where ok: "entries_ok L es s" and ops: "ops = map (operand_in (lazy_locals s)) es"
    using assms(1) by (auto simp: forwards_def)
  have stack: "holds (ss_stack s) es" using ok by (simp add: entries_ok_def)
  show ?thesis
    unfolding ss_pop_def wlp_bnd wlp_on_field
  proof (rule wlp_pop_stack [OF stack])
    fix es' e st assume es: "es = es' @ [e]" and st: "holds st es'"
    let ?t = "s\<lparr>ss_stack := st\<rparr>" and ?xs = "map (operand_in (lazy_locals s)) es'"
    show "wlp (case e of SS_Const i \<Rightarrow> ret (BP_Const i)
        | SS_Register r \<Rightarrow> bnd recede_register_index (\<lambda>_. ret (BP_Register r))
        | SS_Local i \<Rightarrow> bnd (pop_lazy i) (\<lambda>location. ret (of_location location))) Q ?t"
    proof (cases e)
      case (SS_Const i)
      have "entries_ok L es' ?t"
        using ok st unfolding es SS_Const by (simp add: entries_ok_def lazies_ok_other)
      then have "forwards L ?xs ?t" by (rule forwardsI) simp
      then have "Q (BP_Const i) ?t"
        by (intro Q [of ?xs]) (simp_all add: ops es SS_Const)
      then show ?thesis by (simp add: SS_Const)
    next
      case (SS_Register r)
      let ?c = "curr_register_index s"
      let ?u = "?t\<lparr>curr_register_index := ?c - 1\<rparr>"
      have regs: "stack_registers es' @ [r] = [L..<?c]"
        using ok by (simp add: es SS_Register entries_ok_def)
      then have "L < ?c" by (cases "L < ?c") auto
      then have "[L..<?c] = [L..<?c - 1] @ [?c - 1]"
        using upt_Suc_append [of L "?c - 1"] by simp
      with regs have "stack_registers es' = [L..<?c - 1]" by simp
      moreover have "L \<le> ?c - 1 \<and> ?c - 1 \<le> max_registers s"
        using ok \<open>L < ?c\<close> by (auto simp: entries_ok_def)
      ultimately have "entries_ok L es' ?u"
        using ok st unfolding es SS_Register by (simp add: entries_ok_def lazies_ok_other)
      then have "forwards L ?xs ?u" by (rule forwardsI) simp
      moreover have "restacked s ?u"
        by (rule restacked_trans [of s ?t ?u]) simp_all
      ultimately have "Q (BP_Register r) ?u"
        by (intro Q [of ?xs]) (simp_all add: ops es SS_Register)
      then show ?thesis by (simp add: SS_Register recede_register_index_def usize_sub_def)
    next
      case (SS_Local i)
      have lazies: "lazies_ok L (es' @ [SS_Local i]) (lazy_locals ?t) (spills ?t)"
        using ok by (simp add: es SS_Local entries_ok_def)
      have "wlp (pop_lazy i) (\<lambda>location. Q (of_location location)) ?t"
      proof (rule wlp_pop_lazy [OF lazies])
        fix la sp
        assume la: "lazies_ok L es' la sp" "\<And>j. lazy_at la j = lazy_at (lazy_locals ?t) j"
          and sp: "sp_allocation_len sp = sp_allocation_len (spills ?t)"
        let ?u = "?t\<lparr>lazy_locals := la, spills := sp\<rparr>"
        have "operand_in la x = operand_in (lazy_locals s) x" for x
          using la(2) by (cases x) simp_all
        then have same: "operand_in la = operand_in (lazy_locals s)" by (rule ext)
        have "entries_ok L es' ?u"
          using ok st la(1) unfolding es SS_Local by (simp add: entries_ok_def)
        then have "forwards L ?xs ?u"
          by (intro forwardsI) (simp_all add: same)
        moreover have "restacked s ?u"
          using sp by (intro restacked_trans [of s ?t ?u]) simp_all
        ultimately show "Q (of_location (lazy_at (lazy_locals ?t) i)) ?u"
          by (intro Q [of ?xs]) (simp_all add: ops es SS_Local)
      qed
      then show ?thesis by (simp add: SS_Local)
    qed
  qed
qed

text \<open>The next register is the one above those on the stack.\<close>

lemma wlp_push_register:
  assumes "forwards L ops s" and "r = curr_register_index s"
    and Q: "\<And>s'. forwards L (ops @ [BP_Register r]) s' \<Longrightarrow> restacked s s' \<Longrightarrow>
      curr_register_index s' = Suc r \<Longrightarrow> Q () s'"
  shows "wlp (ss_push r) Q s"
proof -
  obtain es where ok: "entries_ok L es s" and ops: "ops = map (operand_in (lazy_locals s)) es"
    using assms(1) by (auto simp: forwards_def)
  have r: "\<not> r < ss_locals_count s"
    using ok assms(2) by (simp add: entries_locals_count [OF ok] entries_ok_def)
  let ?t = "s\<lparr>curr_register_index := Suc r\<rparr>"
  have pushed: "wlp (push (SS_Register r)) (\<lambda>_ st. Q () (t\<lparr>ss_stack := st\<rparr>)) (ss_stack t)"
    if t: "restacked ?t t" "curr_register_index t = Suc r" "ss_stack t = ss_stack s" "lazy_locals t = lazy_locals s"
      "spills t = spills s" "Suc r \<le> max_registers t" "max_registers t \<le> U16_MAX" for t
  proof (rule wlp_push_stack [of _ es])
    show "holds (ss_stack t) es" using ok t(3) by (simp add: entries_ok_def)
    fix st assume st: "holds st (es @ [SS_Register r])"
    let ?u = "t\<lparr>ss_stack := st\<rparr>"
    have same: "const_interner t = const_interner s" "memory_offsets t = memory_offsets s"
      using restackedD(1,2) [OF t(1)] by simp_all
    have regs: "stack_registers (es @ [SS_Register r]) = [L..<Suc r]" and "L \<le> r"
      using ok assms(2) by (simp_all add: entries_ok_def)
    then have "entries_ok L (es @ [SS_Register r]) ?u"
      using ok st t same assms(2)
      unfolding entries_ok_def by (simp add: lazies_ok_other del: upt_Suc)
    then have "forwards L (ops @ [BP_Register r]) ?u"
      by (rule forwardsI) (simp add: ops t(4))
    moreover have "restacked s ?u"
      by (rule restacked_trans [OF restacked_trans [OF restacked_step(2) t(1)]]) simp
    ultimately show "Q () ?u" using t(2) by (intro Q) simp_all
  qed
  have max: "max_registers s \<le> U16_MAX" using ok by (simp add: entries_ok_def)
  have full: "max_registers s < Suc (curr_register_index s) \<longleftrightarrow> max_registers s = curr_register_index s"
    using ok by (auto simp: entries_ok_def)
  show ?thesis
  proof (cases "max_registers s < Suc r")
    case True
    have "wlp (push (SS_Register r)) (\<lambda>_ st. Q () (?t\<lparr>max_registers := max_registers s + 1, ss_stack := st\<rparr>)) (ss_stack s)"
      if "max_registers s < U16_MAX"
      using pushed [of "?t\<lparr>max_registers := max_registers s + 1\<rparr>"] that True full assms(2) by simp
    then have "max_registers s < U16_MAX \<longrightarrow>
        wlp (push (SS_Register r)) (\<lambda>_ st. Q () (?t\<lparr>max_registers := max_registers s + 1, ss_stack := st\<rparr>)) (ss_stack s)"
      by blast
    then show ?thesis
      using r True assms(2) by (simp add: ss_push_def advanced_register_index_def not_le)
  next
    case False
    have "wlp (push (SS_Register r)) (\<lambda>_ st. Q () (?t\<lparr>ss_stack := st\<rparr>)) (ss_stack s)"
      using pushed [of ?t] False max by simp
    then show ?thesis
      using r False assms(2) by (simp add: ss_push_def advanced_register_index_def)
  qed
qed

lemma wlp_push_local:
  assumes "forwards L ops s" and "n < L"
    and Q: "\<And>s'. forwards L (ops @ [BP_Slot n]) s' \<Longrightarrow> restacked s s' \<Longrightarrow> Q () s'"
  shows "wlp (ss_push n) Q s"
proof -
  obtain es where ok: "entries_ok L es s" and ops: "ops = map (operand_in (lazy_locals s)) es"
    using assms(1) by (auto simp: forwards_def)
  have lazies: "lazies_ok L es (lazy_locals s) (spills s)" using ok by (simp add: entries_ok_def)
  have n: "n < ss_locals_count s"
    using assms(2) by (simp add: entries_locals_count [OF ok])
  have "wlp (push_lazy n) (\<lambda>i t. wlp (push (SS_Local i)) (\<lambda>_ st. Q () (t\<lparr>ss_stack := st\<rparr>)) (ss_stack t)) s"
  proof (rule wlp_push_lazy [OF lazies assms(2)])
    fix la i
    assume la: "lazies_ok L (es @ [SS_Local i]) la (spills s)" "lazy_at la i = Original n"
      "\<And>j. SS_Local j \<in> set es \<Longrightarrow> lazy_at la j = lazy_at (lazy_locals s) j"
    let ?t = "s\<lparr>lazy_locals := la\<rparr>"
    show "wlp (push (SS_Local i)) (\<lambda>_ st. Q () (?t\<lparr>ss_stack := st\<rparr>)) (ss_stack ?t)"
    proof (rule wlp_push_stack [of _ es])
      show "holds (ss_stack ?t) es" using ok by (simp add: entries_ok_def)
      fix st assume st: "holds st (es @ [SS_Local i])"
      let ?u = "?t\<lparr>ss_stack := st\<rparr>"
      have "entries_ok L (es @ [SS_Local i]) ?u"
        using ok st la(1) by (simp add: entries_ok_def)
      moreover have "operand_in la e = operand_in (lazy_locals s) e" if "e \<in> set es" for e
        using la(3) that by (cases e) simp_all
      then have "map (operand_in la) (es @ [SS_Local i]) = ops @ [BP_Slot n]"
        by (simp add: ops la(2))
      ultimately have "forwards L (ops @ [BP_Slot n]) ?u"
        by (rule forwardsI [where s = ?u, simplified])
      moreover have "restacked s ?u"
        by (rule restacked_trans [of s ?t]) simp_all
      ultimately show "Q () ?u" by (rule Q)
    qed
  qed
  then show ?thesis
    using n by (simp add: ss_push_def)
qed

lemma wlp_ss_tee:
  assumes "forwards L ops s" and Q: "\<And>xs x. ops = xs @ [x] \<Longrightarrow> Q x s"
  shows "wlp ss_tee Q s"
proof -
  obtain es where ok: "entries_ok L es s" and ops: "ops = map (operand_in (lazy_locals s)) es"
    using assms(1) by (auto simp: forwards_def)
  have stack: "holds (ss_stack s) es" using ok by (simp add: entries_ok_def)
  have "wlp top (\<lambda>e st. st = ss_stack s \<and> (\<exists>es'. es = es' @ [e])) (ss_stack s)"
  proof (cases es rule: rev_cases)
    case Nil
    with stack have "stack_pointer (ss_stack s) = 0" using holds_pointer by fastforce
    then show ?thesis by (simp add: top_def)
  next
    case (snoc es' e)
    with stack have "holds (ss_stack s) (es' @ [e])" by simp
    from wp_imp_wlp [OF holds_top [OF this]] show ?thesis
      by (rule wlp_mono) (use snoc in auto)
  qed
  then have "wlp top (\<lambda>e st. wlp (resolve_slot e) Q (s\<lparr>ss_stack := st\<rparr>)) (ss_stack s)"
  proof (rule wlp_mono)
    fix e st assume "st = ss_stack s \<and> (\<exists>es'. es = es' @ [e])"
    then obtain es' where es: "es = es' @ [e]" and st: "st = ss_stack s" by blast
    have "Q (operand_in (lazy_locals s) e) s"
      by (rule Q [of "map (operand_in (lazy_locals s)) es'"]) (simp add: ops es)
    then show "wlp (resolve_slot e) Q (s\<lparr>ss_stack := st\<rparr>)"
      by (cases e) (simp_all add: resolve_slot_def st)
  qed
  then show ?thesis by (simp add: ss_tee_def)
qed

text \<open>Spilling redirects the operands that still read the local.\<close>

definition redirect :: "nat \<Rightarrow> nat \<Rightarrow> BackPatchableSlot \<Rightarrow> BackPatchableSlot" where
  "redirect n k x = (if x = BP_Slot n then BP_Spill k else x)"

lemma of_location_eq:
  "of_location l = BP_Slot n \<longleftrightarrow> l = Original n" "of_location l = BP_Spill k \<longleftrightarrow> l = Spilled k"
  by (cases l; simp)+

lemma operand_in_eq:
  "operand_in la e = BP_Slot n \<longleftrightarrow> (\<exists>i. e = SS_Local i \<and> lazy_at la i = Original n)"
  "operand_in la e = BP_Spill k \<longleftrightarrow> (\<exists>i. e = SS_Local i \<and> lazy_at la i = Spilled k)"
  "BP_Slot n = operand_in la e \<longleftrightarrow> (\<exists>i. e = SS_Local i \<and> lazy_at la i = Original n)"
  "BP_Spill k = operand_in la e \<longleftrightarrow> (\<exists>i. e = SS_Local i \<and> lazy_at la i = Spilled k)"
  by (cases e; auto simp: of_location_eq eq_commute [of "BP_Slot n"] eq_commute [of "BP_Spill k"])+

lemma wlp_spill_local:
  assumes "forwards L ops s" and n: "n < L"
    and none: "BP_Slot n \<notin> set ops \<Longrightarrow> Q None s"
    and some: "\<And>k s'. BP_Slot n \<in> set ops \<Longrightarrow> BP_Spill k \<notin> set ops \<Longrightarrow>
      k < sp_allocation_len (spills s') \<Longrightarrow> forwards L (map (redirect n k) ops) s' \<Longrightarrow>
      restacked s s' \<Longrightarrow> Q (Some k) s'"
  shows "wlp (set_lazy n) Q s"
proof -
  obtain es where ok: "entries_ok L es s" and ops: "ops = map (operand_in (lazy_locals s)) es"
    using assms(1) by (auto simp: forwards_def)
  have lazies: "lazies_ok L es (lazy_locals s) (spills s)" using ok by (simp add: entries_ok_def)
  show ?thesis
  proof (rule wlp_set_lazy [OF lazies n])
    assume "\<And>j. SS_Local j \<in> set es \<Longrightarrow> lazy_at (lazy_locals s) j \<noteq> Original n"
    then show "Q None s" by (intro none) (auto simp: ops operand_in_eq(3))
  next
    fix i k la sp
    assume i: "SS_Local i \<in> set es" "lazy_at (lazy_locals s) i = Original n" and la: "lazies_ok L es la sp"
      and at: "\<And>j. lazy_at la j = (if j = i then Spilled k else lazy_at (lazy_locals s) j)"
      and k: "k \<notin> spilled_slots es (lazy_locals s)" "k < sp_allocation_len sp"
      and len: "sp_allocation_len (spills s) \<le> sp_allocation_len sp"
    let ?t = "s\<lparr>lazy_locals := la, spills := sp\<rparr>"
    have unique: "j = i" if "SS_Local j \<in> set es" "lazy_at (lazy_locals s) j = Original n" for j
    proof -
      have "la_origin (lazy_locals s) ! n = Some j" "la_origin (lazy_locals s) ! n = Some i"
        using lazies n i that by (simp_all add: lazies_ok_def origins_ok_def)
      then show ?thesis by simp
    qed
    have "operand_in la e = redirect n k (operand_in (lazy_locals s) e)" if "e \<in> set es" for e
    proof (cases e)
      case (SS_Local j)
      show ?thesis
      proof (cases "j = i")
        case True
        then show ?thesis by (simp add: SS_Local at [of i] i(2) redirect_def)
      next
        case False
        with that SS_Local unique [of j] have "lazy_at (lazy_locals s) j \<noteq> Original n" by blast
        with False show ?thesis by (simp add: SS_Local at [of j] redirect_def of_location_eq)
      qed
    qed (simp_all add: redirect_def)
    then have "map (operand_in la) es = map (redirect n k) ops"
      by (simp add: ops)
    moreover have "entries_ok L es ?t"
      using ok la by (simp add: entries_ok_def)
    ultimately have "forwards L (map (redirect n k) ops) ?t"
      by (intro forwardsI) simp_all
    moreover have "operand_in (lazy_locals s) (SS_Local i) = BP_Slot n" by (simp add: i(2))
    then have "BP_Slot n \<in> set ops"
      unfolding ops set_map using i(1) by (metis image_eqI)
    moreover have "BP_Spill k \<notin> set ops"
    proof
      assume "BP_Spill k \<in> set ops"
      then obtain e where "e \<in> set es" "BP_Spill k = operand_in (lazy_locals s) e"
        by (auto simp: ops)
      with k(1) show False by (auto simp: operand_in_eq(4) spilled_slots_def)
    qed
    ultimately show "Q (Some k) ?t"
      using k(2) len by (intro some) simp_all
  qed
qed

section \<open>Constants\<close>

lemma wlp_try_intern:
  assumes "interner_ok p"
    and Q: "\<And>i p'. interner_ok p' \<Longrightarrow> i < length (in_values p') \<Longrightarrow> in_values p' ! i = v \<Longrightarrow>
      (\<exists>more. in_values p' = in_values p @ more) \<Longrightarrow> Q i p'"
  shows "wlp (try_intern v) Q p"
proof (cases "in_reverse_map p v")
  case (Some i)
  with assms(1) have "Q i p" by (intro Q) (auto simp: interner_ok_def)
  with Some show ?thesis by (simp add: try_intern_def wlp_def)
next
  case None
  let ?n = "length (in_values p)"
  show ?thesis
  proof (cases "U16_MAX \<le> ?n")
    case True
    then have "\<exists>x. try_intern v p = Err x \<or> try_intern v p = Panic"
      using None by (auto simp: try_intern_def Let_def u32_add_def split: result.split)
    then show ?thesis by (auto simp: wlp_def)
  next
    case False
    let ?p = "\<lparr>in_values = in_values p @ [v], in_reverse_map = (in_reverse_map p)(v \<mapsto> ?n)\<rparr>"
    have "interner_ok ?p"
      using assms(1) False by (auto simp: interner_ok_def nth_append less_SucI)
    then have "Q ?n ?p" by (rule Q) simp_all
    with None False show ?thesis by (simp add: try_intern_def Let_def wlp_def)
  qed
qed

lemma wlp_push_const:
  assumes "forwards L ops s"
    and Q: "\<And>i p st. forwards L (ops @ [BP_Const i]) (s\<lparr>const_interner := p, ss_stack := st\<rparr>) \<Longrightarrow>
      in_values p ! i = v \<Longrightarrow> (\<exists>more. in_values p = in_values (const_interner s) @ more) \<Longrightarrow>
      Q () (s\<lparr>const_interner := p, ss_stack := st\<rparr>)"
  shows "wlp (push_const v) Q s"
proof -
  obtain es where ok: "entries_ok L es s" and ops: "ops = map (operand_in (lazy_locals s)) es"
    using assms(1) by (auto simp: forwards_def)
  have pool: "interner_ok (const_interner s)" using ok by (simp add: entries_ok_def)
  show ?thesis
    unfolding push_const_def wlp_bnd wlp_on_field
  proof (rule wlp_try_intern [OF pool], rule wlp_push_stack [of _ es])
    fix i p st
    assume p: "interner_ok p" "i < length (in_values p)" "in_values p ! i = v"
      and more: "\<exists>more. in_values p = in_values (const_interner s) @ more"
      and st: "holds st (es @ [SS_Const i])"
    let ?t = "s\<lparr>const_interner := p, ss_stack := st\<rparr>"
    have "j < length (in_values p)" if "SS_Const j \<in> set es" for j
      using ok that more by (auto simp: entries_ok_def)
    then have "entries_ok L (es @ [SS_Const i]) ?t"
      using ok st p by (auto simp: entries_ok_def lazies_ok_other)
    then have "forwards L (ops @ [BP_Const i]) ?t"
      by (rule forwardsI) (simp add: ops)
    then show "Q () ?t" using p(3) more by (rule Q)
  qed (use ok in \<open>simp add: entries_ok_def\<close>)
qed

section \<open>The operands and the destination of an instruction\<close>

lemma wlp_pop_operands:
  assumes "forwards L ops s"
    and "\<And>xs ys s'. ops = xs @ ys \<Longrightarrow> length ys = n \<Longrightarrow> forwards L xs s' \<Longrightarrow> restacked s s' \<Longrightarrow> Q ys s'"
  shows "wlp (pop_operands n) Q s"
  using assms
proof (induction n arbitrary: ops s Q)
  case 0
  then show ?case by simp
next
  case (Suc n)
  show ?case
    unfolding pop_operands.simps wlp_bnd
  proof (rule wlp_ss_pop [OF Suc.prems(1)], rule Suc.IH)
    fix xs x s1 xs' ys s2
    assume "ops = xs @ [x]" "restacked s s1" "xs = xs' @ ys" "length ys = n" "forwards L xs' s2" "restacked s1 s2"
    then show "wlp (ret (ys @ [x])) Q s2"
      by (auto intro!: Suc.prems(2) [of xs' "ys @ [x]"] intro: restacked_trans)
  qed
qed

lemma wlp_push_registers:
  assumes "forwards L ops s"
    and "\<And>s'. forwards L (ops @ map BP_Register [curr_register_index s..<curr_register_index s + n]) s' \<Longrightarrow>
      restacked s s' \<Longrightarrow> curr_register_index s' = curr_register_index s + n \<Longrightarrow> Q () s'"
  shows "wlp (push_registers n) Q s"
proof -
  have "wlp (for_range i n (\<lambda>_. bnd (gets curr_register_index) (\<lambda>c. ss_push (as_u16 c)))) Q s" for i
    using assms
  proof (induction n arbitrary: i ops s)
    case 0
    then show ?case by simp
  next
    case (Suc n)
    let ?c = "curr_register_index s"
    have "as_u16 ?c = ?c"
      using Suc.prems(1) by (intro as_u16_id) (auto simp: forwards_def entries_ok_def)
    then have "wlp (ss_push (as_u16 ?c)) (\<lambda>_. wlp (for_range (Suc i) n (\<lambda>_. bnd (gets curr_register_index)
        (\<lambda>c. ss_push (as_u16 c)))) Q) s"
    proof (simp, intro wlp_push_register [OF Suc.prems(1) refl] Suc.IH)
      fix s1 s2
      assume s1: "forwards L (ops @ [BP_Register ?c]) s1" "restacked s s1" "curr_register_index s1 = Suc ?c"
      show "forwards L (ops @ [BP_Register ?c]) s1" by (rule s1(1))
      assume s2: "forwards L ((ops @ [BP_Register ?c]) @
          map BP_Register [curr_register_index s1..<curr_register_index s1 + n]) s2"
        "restacked s1 s2" "curr_register_index s2 = curr_register_index s1 + n"
      have "[?c..<?c + Suc n] = ?c # [Suc ?c..<Suc ?c + n]"
        by (subst upt_conv_Cons) simp_all
      then show "Q () s2"
        using s1 s2 by (intro Suc.prems(2)) (auto simp del: upt_Suc intro: restacked_trans)
    qed
    then show ?case by simp
  qed
  then show ?thesis by (simp add: push_registers_def)
qed

lemma forwards_patch [simp]:
  "forwards L ops (s\<lparr>backpatch_map := m\<rparr>) = forwards L ops s"
  by (simp add: forwards_def entries_ok_def)

lemma forwards_arenas [simp]:
  "forwards L ops (s\<lparr>select_arena := a\<rparr>) = forwards L ops s"
  "forwards L ops (s\<lparr>memory_init_arena := b\<rparr>) = forwards L ops s"
  "forwards L ops (s\<lparr>dyn_signatures := c\<rparr>) = forwards L ops s"
  by (simp_all add: forwards_def entries_ok_def)

lemma forwards_registers:
  assumes "forwards L ops s"
  shows "L \<le> curr_register_index s" "curr_register_index s \<le> max_registers s" "max_registers s \<le> U16_MAX"
  using assms by (auto simp: forwards_def entries_ok_def)

lemma forwards_below:
  "forwards L ops s \<Longrightarrow> BP_Register r \<in> set ops \<Longrightarrow> r < curr_register_index s"
  using forwards_operands by fastforce

text \<open>The recorded operands are the top of the stack; the destinations are above the rest.\<close>

lemma wlp_pops_and_pushes_registers:
  assumes "forwards L ops s"
    and Q: "\<And>xs ys c s'. ops = xs @ ys \<Longrightarrow> length ys = n \<Longrightarrow>
      forwards L (xs @ map BP_Register [c..<c + q]) s' \<Longrightarrow>
      restacked (s\<lparr>backpatch_map := record_patch i (src, ys) (backpatch_map s)\<rparr>) s' \<Longrightarrow>
      (\<And>r. BP_Register r \<in> set xs \<Longrightarrow> r < c) \<Longrightarrow> c + q \<le> max_registers s' \<Longrightarrow>
      Q (replicate n U16_MAX, c) s'"
  shows "wlp (pops_and_pushes_registers n q i src) Q s"
  unfolding pops_and_pushes_registers_def wlp_bnd
proof (rule wlp_pop_operands [OF assms(1)])
  fix xs ys s1
  assume s1: "ops = xs @ ys" "length ys = n" "forwards L xs s1" "restacked s s1"
  let ?patch = "\<lambda>s. s\<lparr>backpatch_map := record_patch i (src, ys) (backpatch_map s)\<rparr>"
  let ?c = "curr_register_index s1"
  have c: "as_u16 ?c = ?c"
    using forwards_registers [OF s1(3)] by simp
  have patched: "restacked (?patch s) (?patch s1)"
    using s1(4) by (cases s; cases s1; simp add: restacked_def)
  have "wlp (push_registers q) (\<lambda>_. Q (replicate n U16_MAX, ?c)) (?patch s1)"
  proof (rule wlp_push_registers [where ops = xs])
    fix s2
    assume s2: "forwards L (xs @ map BP_Register [curr_register_index (?patch s1)..<curr_register_index (?patch s1) + q]) s2"
      "restacked (?patch s1) s2" "curr_register_index s2 = curr_register_index (?patch s1) + q"
    have sim: "forwards L (xs @ map BP_Register [?c..<?c + q]) s2" using s2(1) by simp
    have top: "?c + q \<le> max_registers s2"
      using forwards_registers(2) [OF sim] s2(3) by simp
    show "Q (replicate n U16_MAX, ?c) s2"
      by (rule Q [OF s1(1,2) sim restacked_trans [OF patched s2(2)] forwards_below [OF s1(3)] top])
  qed (simp add: s1(3))
  then show "wlp (add_patch i src ys) (\<lambda>_. wlp (gets (\<lambda>s. as_u16 (curr_register_index s)))
      (\<lambda>c. wlp (push_registers q) (\<lambda>_. wlp (ret (replicate n U16_MAX, c)) Q))) s1"
    by (simp add: add_patch_def c)
qed

lemma wlp_registers_for:
  assumes "forwards L ops s"
    and "\<And>xs ys c s'. ops = xs @ ys \<Longrightarrow> length ys = n \<Longrightarrow>
      forwards L (xs @ map BP_Register [c..<c + q]) s' \<Longrightarrow>
      restacked (s\<lparr>backpatch_map := record_patch i (src, ys) (backpatch_map s)\<rparr>) s' \<Longrightarrow>
      (\<And>r. BP_Register r \<in> set xs \<Longrightarrow> r < c) \<Longrightarrow> c + q \<le> max_registers s' \<Longrightarrow>
      Q \<lparr>sg_input = replicate n U16_MAX, sg_output = c\<rparr> s'"
  shows "wlp (registers_for n q i src) Q s"
  unfolding registers_for_def wlp_bnd
  by (rule wlp_pops_and_pushes_registers [OF assms(1)]) (simp add: assms(2))

end
