(* ===== verification/RegForwardingTotal.thy ===== *)
theory RegForwardingTotal
  imports RegForwarding
begin

text \<open>
  The simulated stack does not panic: on a stack that forwards operands, an operation returns, or
  reports that a region of the frame is full. With the partial facts of \<open>RegForwarding\<close> this gives
  the contract of the stack as total statements.
\<close>

section \<open>Entries\<close>

lemma wp_get_entry [simp]:
  "wp (get_entry i) Q E = (\<lambda>a. i < length (la_entries a) \<and> Q (la_entries a ! i) a)"
  by (rule ext) (auto simp: get_entry_def index_def)

lemma wp_put_entry [simp]: "wp (put_entry i e) Q E = (\<lambda>a. Q () (a\<lparr>la_entries := (la_entries a)[i := e]\<rparr>))"
  by (simp add: put_entry_def)

lemma wp_get_origin [simp]:
  "wp (get_origin n) Q E = (\<lambda>a. n < length (la_origin a) \<and> Q (la_origin a ! n) a)"
  by (rule ext) (auto simp: get_origin_def index_def)

lemma wp_set_origin [simp]:
  "wp (set_origin n x) Q E = (\<lambda>a. n < length (la_origin a) \<and> Q () (a\<lparr>la_origin := (la_origin a)[n := x]\<rparr>))"
  by (rule ext) (auto simp: set_origin_def)

lemma wp_lazy_location [simp]:
  "wp (lazy_location i) Q E = (\<lambda>a. i < length (la_entries a) \<and> Q (lazy_at a i) a)"
  by (rule ext) (auto simp: lazy_location_def lazy_at_def)

abbreviation returns :: "('s, 'e, 'a) op \<Rightarrow> ('e \<Rightarrow> bool) \<Rightarrow> 's \<Rightarrow> bool" where
  "returns m E s \<equiv> wp m (\<lambda>_ _. True) (\<lambda>e _. E e) s"

lemma holds_nonempty: "holds st es \<Longrightarrow> es \<noteq> [] \<Longrightarrow> wp pop (\<lambda>e st'. \<exists>es'. es = es' @ [e] \<and> holds st' es') E st"
  by (cases es rule: rev_cases) (auto elim!: wp_mono [OF holds_pop])

lemma wp_push_total: "wp (push e) (\<lambda>_ _. True) E st"
  by (auto simp: push_def push_grow_def wp_def modify_def)

lemma pop_lazy_returns:
  assumes "lazies_ok L (es @ [SS_Local i]) (lazy_locals s) (spills s)"
  shows "returns (pop_lazy i) (\<lambda>_. False) s"
proof -
  let ?la = "lazy_locals s"
  have i: "i < length (la_entries ?la)" "0 < le_ref_count (la_entries ?la ! i)"
    using assms by (simp_all add: lazies_ok_def counts_ok_def)
  have origin: "n < length (la_origin ?la)" if "lazy_at ?la i = Original n" for n
    using assms that by (auto simp: lazies_ok_def origins_ok_def)
  show ?thesis
    using i origin
    by (auto simp: pop_lazy_def decrease_ref_count_def u32_sub_def free_slot_def split: LazyLocation.split)
qed

lemma push_lazy_returns:
  assumes ok: "lazies_ok L es (lazy_locals s) (spills s)" and "n < L" and "length es < U32_MAX"
  shows "returns (push_lazy n) (\<lambda>_. False) s"
proof -
  let ?la = "lazy_locals s"
  have n: "n < length (la_origin ?la)"
    using ok assms(2) by (simp add: lazies_ok_def origins_ok_def)
  have entry: "i < length (la_entries ?la)" "le_ref_count (la_entries ?la ! i) + 1 \<le> U32_MAX"
    if "la_origin ?la ! n = Some i" for i
  proof -
    have "SS_Local i \<in> set es"
      using ok assms(2) that by (simp add: lazies_ok_def origins_ok_def)
    with ok have i: "i < length (la_entries ?la)" "le_ref_count (la_entries ?la ! i) = count_list es (SS_Local i)"
      by (simp_all add: lazies_ok_def counts_ok_def)
    show "i < length (la_entries ?la)" by (rule i(1))
    show "le_ref_count (la_entries ?la ! i) + 1 \<le> U32_MAX"
      using i(2) count_le_length [of es "SS_Local i"] assms(3) by simp
  qed
  show ?thesis
  proof (cases "la_origin ?la ! n")
    case None
    with n show ?thesis
      by (simp add: push_lazy_def) (simp add: wp_def lazy_allocate_def)
  next
    case (Some i)
    with n entry [OF Some] show ?thesis
      by (simp add: push_lazy_def advanced_ref_count_def u32_add_def)
  qed
qed

lemma set_lazy_returns:
  assumes ok: "lazies_ok L es (lazy_locals s) (spills s)" and "n < L"
  shows "returns (set_lazy n) (\<lambda>_. sp_allocation_len (spills s) = U16_MAX) s"
proof -
  let ?la = "lazy_locals s"
  have n: "n < length (la_origin ?la)"
    using ok assms(2) by (simp add: lazies_ok_def origins_ok_def)
  show ?thesis
  proof (cases "la_origin ?la ! n")
    case None
    with n show ?thesis by (simp add: set_lazy_def)
  next
    case (Some i)
    then have "SS_Local i \<in> set es" "lazy_at ?la i = Original n"
      using ok assms(2) by (simp_all add: lazies_ok_def origins_ok_def)
    with ok have i: "i < length (la_entries ?la)" "le_location (la_entries ?la ! i) = Original n"
      by (simp_all add: lazies_ok_def counts_ok_def lazy_at_def)
    have "wp reserve_slot (\<lambda>_ _. True) (\<lambda>_ _. sp_allocation_len (spills s) = U16_MAX) (spills s)"
      using ok by (auto simp: reserve_slot_def wp_def lazies_ok_def spills_ok_def)
    then show ?thesis
      using Some n i by (auto simp: set_lazy_def lazy_spill_def elim!: wp_mono)
  qed
qed

section \<open>The operations\<close>

lemma ss_pop_returns:
  assumes "forwards L ops s" and "ops \<noteq> []"
  shows "returns ss_pop (\<lambda>_. False) s"
proof -
  obtain es where ok: "entries_ok L es s" and ops: "ops = map (operand_in (lazy_locals s)) es"
    using assms(1) by (auto simp: forwards_def)
  have "holds (ss_stack s) es" "es \<noteq> []" using ok ops assms(2) by (auto simp: entries_ok_def)
  show ?thesis
    unfolding ss_pop_def wp_bnd wp_on_field
  proof (rule wp_mono [OF holds_nonempty [OF \<open>holds (ss_stack s) es\<close> \<open>es \<noteq> []\<close>]])
    fix e st assume "\<exists>es'. es = es' @ [e] \<and> holds st es'"
    then obtain es' where es: "es = es' @ [e]" and st: "holds st es'" by blast
    let ?t = "s\<lparr>ss_stack := st\<rparr>"
    show "returns (case e of SS_Const i \<Rightarrow> ret (BP_Const i)
        | SS_Register r \<Rightarrow> bnd recede_register_index (\<lambda>_. ret (BP_Register r))
        | SS_Local i \<Rightarrow> bnd (pop_lazy i) (\<lambda>location. ret (of_location location))) (\<lambda>_. False) ?t"
    proof (cases e)
      case (SS_Const i)
      then show ?thesis by simp
    next
      case (SS_Register r)
      have "stack_registers es' @ [r] = [L..<curr_register_index s]"
        using ok by (simp add: es SS_Register entries_ok_def)
      then have "L < curr_register_index s" by (cases "L < curr_register_index s") auto
      then show ?thesis by (simp add: SS_Register recede_register_index_def usize_sub_def)
    next
      case (SS_Local i)
      have "lazies_ok L (es' @ [SS_Local i]) (lazy_locals ?t) (spills ?t)"
        using ok by (simp add: es SS_Local entries_ok_def)
      from pop_lazy_returns [OF this] show ?thesis by (simp add: SS_Local)
    qed
  qed
qed

lemma ss_tee_returns:
  assumes "forwards L ops s" and "ops \<noteq> []"
  shows "returns ss_tee (\<lambda>_. False) s"
proof -
  obtain es where ok: "entries_ok L es s" and ops: "ops = map (operand_in (lazy_locals s)) es"
    using assms(1) by (auto simp: forwards_def)
  then obtain es' e where es: "es = es' @ [e]"
    using assms(2) by (cases es rule: rev_cases) auto
  with ok have st: "holds (ss_stack s) (es' @ [e])" by (simp add: entries_ok_def)
  have "i < length (la_entries (lazy_locals s))" if "e = SS_Local i" for i
    using ok that by (simp add: es entries_ok_def lazies_ok_def counts_ok_def)
  then have "returns (resolve_slot e) (\<lambda>_. False) s"
    by (cases e) (simp_all add: resolve_slot_def)
  then show ?thesis
    unfolding ss_tee_def wp_bnd wp_on_field by (intro wp_mono [OF holds_top [OF st]]) simp_all
qed

lemma ss_push_returns:
  assumes "forwards L ops s" and "n < L" and "length ops < U32_MAX"
  shows "returns (push_local n) (\<lambda>_. False) s"
proof -
  obtain es where ok: "entries_ok L es s" and ops: "ops = map (operand_in (lazy_locals s)) es"
    using assms(1) by (auto simp: forwards_def)
  have "returns (push_lazy n) (\<lambda>_. False) s"
    using ok assms(2,3) by (intro push_lazy_returns [of L es]) (simp_all add: entries_ok_def ops)
  then show ?thesis
    using assms(2) entries_locals_count [OF ok]
    by (simp add: push_local_def ss_push_def) (auto elim!: wp_mono intro: wp_push_total)
qed

lemma push_register_returns:
  assumes "forwards L ops s"
  shows "returns (ss_push (curr_register_index s)) (\<lambda>_. curr_register_index s = U16_MAX) s"
proof -
  obtain es where ok: "entries_ok L es s" using assms(1) by (auto simp: forwards_def)
  have "\<not> curr_register_index s < ss_locals_count s"
    using ok by (simp add: entries_locals_count [OF ok] entries_ok_def)
  moreover have "max_registers s = U16_MAX \<and> curr_register_index s = U16_MAX"
    if "max_registers s < Suc (curr_register_index s)" "U16_MAX \<le> max_registers s"
    using that ok by (auto simp: entries_ok_def)
  ultimately show ?thesis
    by (auto simp: ss_push_def advanced_register_index_def intro: wp_push_total)
qed

lemma push_const_returns:
  assumes "forwards L ops s"
  shows "returns (push_const v) (\<lambda>_. length (in_values (const_interner s)) = U16_MAX) s"
proof -
  have pool: "interner_ok (const_interner s)" using assms by (auto simp: forwards_def entries_ok_def)
  then have "wp (try_intern v) (\<lambda>_ _. True) (\<lambda>_ _. length (in_values (const_interner s)) = U16_MAX) (const_interner s)"
    by (auto simp: try_intern_def wp_def Let_def u32_add_def interner_ok_def U16_MAX_def as_u32_def
        split: option.split result.split)
  then show ?thesis
    by (simp add: push_const_def) (auto elim!: wp_mono intro: wp_push_total)
qed

lemma spill_returns:
  assumes "forwards L ops s" and "n < L"
  shows "returns (set_lazy n) (\<lambda>_. sp_allocation_len (spills s) = U16_MAX) s"
  using assms by (auto simp: forwards_def entries_ok_def intro: set_lazy_returns)

end
