(* ===== verification/RegLowering.thy ===== *)
theory RegLowering
  imports RegSimStack
begin

text \<open>
  \<open>RegInstruction::emit_instructions_for_func\<close>: one pass over the operators of a body against the
  simulated stack, in which dead code is skipped, and the pass that then turns every recorded
  operand into a frame index, once the sizes of the constant and spill regions are known.
\<close>

section \<open>The state of the pass\<close>

record reg_lower_state = SimulatedStack +
  rl_instructions :: "RegInstruction list"
  rl_offsets :: "nat list"
  dead_blocks :: "BlockVariant list"
  dead_code :: bool
  call_instr_backpatches :: "(nat \<times> nat) list"

type_synonym 'a reg_lower_op = "(reg_lower_state, TraceWasmError, 'a) op"

definition push_instr :: "RegInstruction \<Rightarrow> nat \<Rightarrow> unit reg_lower_op" where
  "push_instr instr offset = modify (\<lambda>s. s\<lparr>rl_instructions := rl_instructions s @ [instr],
     rl_offsets := rl_offsets s @ [offset]\<rparr>)"

definition rl_len :: "nat reg_lower_op" where
  "rl_len = gets (\<lambda>s. length (rl_instructions s))"

definition set_unreachable :: "unit reg_lower_op" where
  "set_unreachable = modify (\<lambda>s. s\<lparr>dead_code := True\<rparr>)"

fun is_block :: "Operator \<Rightarrow> BlockVariant option" where
  "is_block (Op_Block _) = Some BV_Block"
| "is_block (Op_If _) = Some BV_If"
| "is_block (Op_Loop _) = Some BV_Loop"
| "is_block _ = None"

text \<open>Whether the operator is to be lowered.\<close>

definition check_unreachablity :: "Operator \<Rightarrow> bool reg_lower_op" where
  "check_unreachablity operator =
     bnd (gets dead_code) (\<lambda>dead. bnd (gets dead_blocks) (\<lambda>blocks.
       if \<not> dead then ret True
       else (case is_block operator of
           Some b \<Rightarrow> bnd (modify (\<lambda>s. s\<lparr>dead_blocks := blocks @ [b]\<rparr>)) (\<lambda>_. ret False)
         | None \<Rightarrow>
             if operator = Op_Else
             then if blocks = [] then bnd (modify (\<lambda>s. s\<lparr>dead_code := False\<rparr>)) (\<lambda>_. ret True)
                  else if last blocks = BV_If then ret False else panic
             else if operator = Op_End
             then if blocks = [] then bnd (modify (\<lambda>s. s\<lparr>dead_code := False\<rparr>)) (\<lambda>_. ret True)
                  else bnd (modify (\<lambda>s. s\<lparr>dead_blocks := butlast blocks\<rparr>)) (\<lambda>_. ret False)
             else ret False)))"

section \<open>Emitting\<close>

definition reg_emit :: "nat \<Rightarrow> nat \<Rightarrow> (reg_signature \<Rightarrow> RegInstruction) \<Rightarrow> nat \<Rightarrow> unit reg_lower_op" where
  "reg_emit inputs outputs emitter offset =
     bnd rl_len (\<lambda>i. bnd (registers_for inputs outputs i Emit) (\<lambda>sig. push_instr (emitter sig) offset))"

text \<open>\<open>alloc\<close> of an arena: the entry goes to the end, its id is its position.\<close>

abbreviation alloc_in where
  "alloc_in get upd entry \<equiv>
     bnd (gets (\<lambda>s. length (get s))) (\<lambda>i. bnd (modify (upd (\<lambda>es. es @ [entry]))) (\<lambda>_. ret i))"

definition emit_move :: "DynSignature \<Rightarrow> nat \<Rightarrow> unit reg_lower_op" where
  "emit_move mov offset =
     bnd (alloc_in dyn_signatures dyn_signatures_update mov) (\<lambda>i. push_instr (RMove i) offset)"

definition materialize :: "nat \<Rightarrow> nat \<Rightarrow> unit reg_lower_op" where
  "materialize depth offset =
     bnd rl_len (\<lambda>i. bnd (materialize_stack_slots_in_registers depth i Emit) (\<lambda>mov. emit_move mov offset))"

definition spill_before_write :: "nat \<Rightarrow> nat \<Rightarrow> unit reg_lower_op" where
  "spill_before_write n offset = bnd (set_lazy n) (\<lambda>spilled. case spilled of
      Some spill_index \<Rightarrow> push_instr (RLocalSpill (of_nat n) spill_index) offset
    | None \<Rightarrow> ret ())"

definition spill_live_locals :: "nat \<Rightarrow> unit reg_lower_op" where
  "spill_live_locals offset =
     bnd (gets (\<lambda>s. as_u32 (length (la_origin (lazy_locals s))))) (\<lambda>lazy_count.
     for_range 0 lazy_count (\<lambda>n. spill_before_write n offset))"

section \<open>Operators without control flow\<close>

definition rl_memory_access :: "u64 \<Rightarrow> nat reg_lower_op" where
  "rl_memory_access memarg_offset =
     on_field memory_offsets (\<lambda>x. memory_offsets_update (\<lambda>_. x)) (\<lambda>e. e) (try_intern (ucast memarg_offset))"

definition rl_load :: "load_op \<Rightarrow> u64 \<Rightarrow> nat \<Rightarrow> unit reg_lower_op" where
  "rl_load l memarg_offset offset =
     bnd (rl_memory_access memarg_offset) (\<lambda>i. reg_emit 1 1 (RLoad l i) offset)"

definition rl_store :: "store_op \<Rightarrow> u64 \<Rightarrow> nat \<Rightarrow> unit reg_lower_op" where
  "rl_store st memarg_offset offset =
     bnd (rl_memory_access memarg_offset) (\<lambda>i. reg_emit 2 0 (\<lambda>sig. RStore st i (sg_input sig)) offset)"

fun rl_i32 :: "numeric_instr \<Rightarrow> nat \<Rightarrow> unit reg_lower_op" where
  "rl_i32 (I32Unary u) offset = reg_emit 1 1 (RNumeric (I32Unary u)) offset"
| "rl_i32 (I32Binary b) offset = reg_emit 2 1 (RNumeric (I32Binary b)) offset"
| "rl_i32 (I32Compare r) offset = reg_emit 2 1 (RNumeric (I32Compare r)) offset"
| "rl_i32 _ offset = panic"

fun rl_i64 :: "numeric_instr \<Rightarrow> nat \<Rightarrow> unit reg_lower_op" where
  "rl_i64 (I64Unary u) offset = reg_emit 1 1 (RNumeric (I64Unary u)) offset"
| "rl_i64 (I64Binary b) offset = reg_emit 2 1 (RNumeric (I64Binary b)) offset"
| "rl_i64 (I64Compare r) offset = reg_emit 2 1 (RNumeric (I64Compare r)) offset"
| "rl_i64 _ offset = panic"

fun rl_f32 :: "numeric_instr \<Rightarrow> nat \<Rightarrow> unit reg_lower_op" where
  "rl_f32 (F32Unary u) offset = reg_emit 1 1 (RNumeric (F32Unary u)) offset"
| "rl_f32 (F32Binary b) offset = reg_emit 2 1 (RNumeric (F32Binary b)) offset"
| "rl_f32 (F32Compare r) offset = reg_emit 2 1 (RNumeric (F32Compare r)) offset"
| "rl_f32 _ offset = panic"

fun rl_f64 :: "numeric_instr \<Rightarrow> nat \<Rightarrow> unit reg_lower_op" where
  "rl_f64 (F64Unary u) offset = reg_emit 1 1 (RNumeric (F64Unary u)) offset"
| "rl_f64 (F64Binary b) offset = reg_emit 2 1 (RNumeric (F64Binary b)) offset"
| "rl_f64 (F64Compare r) offset = reg_emit 2 1 (RNumeric (F64Compare r)) offset"
| "rl_f64 _ offset = panic"

fun rl_numeric :: "numeric_instr \<Rightarrow> nat \<Rightarrow> unit reg_lower_op" where
  "rl_numeric (I32Unary u) = rl_i32 (I32Unary u)"
| "rl_numeric (I32Binary b) = rl_i32 (I32Binary b)"
| "rl_numeric (I32Compare r) = rl_i32 (I32Compare r)"
| "rl_numeric (I64Unary u) = rl_i64 (I64Unary u)"
| "rl_numeric (I64Binary b) = rl_i64 (I64Binary b)"
| "rl_numeric (I64Compare r) = rl_i64 (I64Compare r)"
| "rl_numeric (F32Unary u) = rl_f32 (F32Unary u)"
| "rl_numeric (F32Binary b) = rl_f32 (F32Binary b)"
| "rl_numeric (F32Compare r) = rl_f32 (F32Compare r)"
| "rl_numeric (F64Unary u) = rl_f64 (F64Unary u)"
| "rl_numeric (F64Binary b) = rl_f64 (F64Binary b)"
| "rl_numeric (F64Compare r) = rl_f64 (F64Compare r)"

definition rl_local_set :: "u32 \<Rightarrow> nat \<Rightarrow> unit reg_lower_op" where
  "rl_local_set i offset =
     bnd (spill_before_write (unat i) offset) (\<lambda>_.
     reg_emit 1 0 (\<lambda>sig. RLocalSet i (sg_input sig)) offset)"

definition rl_local_tee :: "u32 \<Rightarrow> nat \<Rightarrow> unit reg_lower_op" where
  "rl_local_tee i offset =
     bnd (spill_before_write (unat i) offset) (\<lambda>_.
     bnd ss_tee (\<lambda>x.
     bnd rl_len (\<lambda>k.
     bnd (add_patch k Emit [x]) (\<lambda>_.
     push_instr (RLocalTee i [U16_MAX]) offset))))"

fun rl_variable :: "Operator \<Rightarrow> nat \<Rightarrow> unit reg_lower_op" where
  "rl_variable (Op_LocalGet i) offset = push_local (as_u16 (unat i))"
| "rl_variable (Op_LocalSet i) offset = rl_local_set i offset"
| "rl_variable (Op_LocalTee i) offset = rl_local_tee i offset"
| "rl_variable (Op_GlobalGet i) offset = reg_emit 0 1 (\<lambda>sig. RGlobalGet i (sg_output sig)) offset"
| "rl_variable (Op_GlobalSet i) offset = reg_emit 1 0 (\<lambda>sig. RGlobalSet i (sg_input sig)) offset"
| "rl_variable _ offset = panic"

fun rl_memory :: "Operator \<Rightarrow> nat \<Rightarrow> unit reg_lower_op" where
  "rl_memory (Op_MemorySize mem) offset =
     bnd (lift_result (check_memory_index mem)) (\<lambda>_. reg_emit 0 1 (\<lambda>sig. RMemorySize (sg_output sig)) offset)"
| "rl_memory (Op_MemoryGrow mem) offset =
     bnd (lift_result (check_memory_index mem)) (\<lambda>_. reg_emit 1 1 RMemoryGrow offset)"
| "rl_memory (Op_MemoryCopy dst_mem src_mem) offset =
     bnd (lift_result (check_memory_index dst_mem)) (\<lambda>_.
     bnd (lift_result (check_memory_index src_mem)) (\<lambda>_.
     reg_emit 3 0 (\<lambda>sig. RMemoryCopy (sg_input sig)) offset))"
| "rl_memory (Op_MemoryFill mem) offset =
     bnd (lift_result (check_memory_index mem)) (\<lambda>_. reg_emit 3 0 (\<lambda>sig. RMemoryFill (sg_input sig)) offset)"
| "rl_memory (Op_MemoryInit data_index mem) offset =
     bnd (lift_result (check_memory_index mem)) (\<lambda>_.
     bnd rl_len (\<lambda>i. bnd (registers_for 3 0 i Emit) (\<lambda>sig.
     bnd (alloc_in memory_init_arena memory_init_arena_update
            \<lparr>mi_data_index = data_index, mi_operands = sg_input sig\<rparr>) (\<lambda>eid.
     push_instr (RMemoryInit eid) offset))))"
| "rl_memory (Op_DataDrop data_index) offset = push_instr (RDataDrop data_index) offset"
| "rl_memory _ offset = panic"

definition rl_select :: "nat \<Rightarrow> unit reg_lower_op" where
  "rl_select offset =
     bnd rl_len (\<lambda>i. bnd (registers_for 3 1 i Emit) (\<lambda>sig.
     bnd (alloc_in select_arena select_arena_update sig) (\<lambda>eid. push_instr (RSelect eid) offset)))"

section \<open>Labels\<close>

definition rl_block :: "FuncType list \<Rightarrow> BlockType \<Rightarrow> nat \<Rightarrow> unit reg_lower_op" where
  "rl_block types blockty offset =
     bnd rl_len (\<lambda>len. bnd (ss_add_block BV_Block blockty types len) (\<lambda>(block_params, _).
     if block_params \<noteq> 0 then materialize block_params offset else ret ()))"

definition rl_loop :: "FuncType list \<Rightarrow> BlockType \<Rightarrow> nat \<Rightarrow> unit reg_lower_op" where
  "rl_loop types blockty offset =
     bnd (spill_live_locals offset) (\<lambda>_.
     bnd rl_len (\<lambda>len. bnd (ss_add_block BV_Loop blockty types len) (\<lambda>(block_params, _).
     bnd (if block_params \<noteq> 0 then materialize block_params offset else ret ()) (\<lambda>_.
     push_instr RLoop offset))))"

definition rl_if :: "FuncType list \<Rightarrow> BlockType \<Rightarrow> nat \<Rightarrow> unit reg_lower_op" where
  "rl_if types blockty offset =
     bnd (spill_live_locals offset) (\<lambda>_.
     bnd rl_len (\<lambda>len. bnd (ss_add_block BV_If blockty types len) (\<lambda>(block_params, _).
     bnd (if block_params \<noteq> 0
          then bnd (lift_result (u32_add block_params 1)) (\<lambda>n. materialize n offset) else ret ()) (\<lambda>_.
     bnd rl_len (\<lambda>i. bnd (registers_for 1 0 i Emit) (\<lambda>cond.
     bnd (lift_result (index (sg_input cond) 0)) (\<lambda>c.
     bnd (alloc_in if_arena if_arena_update
            \<lparr>io_cond = c, io_else_index = None, io_end_index = U32_MAX\<rparr>) (\<lambda>eid.
     push_instr (RIf eid) offset))))))))"

definition rl_else :: "nat \<Rightarrow> unit reg_lower_op" where
  "rl_else offset =
     bnd rl_len (\<lambda>len. bnd ss_get_curr_block (\<lambda>b.
       case lb_kind b of
         BK_If if_index _ \<Rightarrow>
           bnd (lift_result (if lb_results b = 0 then Ok (as_u32 len) else u32_add (as_u32 len) 1)) (\<lambda>ei.
           bnd (ss_update_curr_block (\<lambda>b. b\<lparr>lb_kind := BK_If if_index (Some ei)\<rparr>)) (\<lambda>_.
           bnd (if lb_results b \<noteq> 0 then materialize (lb_results b) offset else ret ()) (\<lambda>_.
           bnd ss_height (\<lambda>h.
           bnd (lift_result (u32_sub h (lb_recorded_height b))) (\<lambda>unwind.
           bnd (pops_and_pushes unwind (lb_params b)) (\<lambda>_.
           push_instr (RElse U32_MAX) offset))))))
       | _ \<Rightarrow> panic))"

section \<open>Branches\<close>

definition rl_attach_break :: "nat \<Rightarrow> nat \<times> nat \<Rightarrow> unit reg_lower_op" where
  "rl_attach_break i br = ss_update_block i (with_break br)"

text \<open>The index of a branch instruction that comes after its move, if it has one.\<close>

definition after_move :: "DynSignature \<Rightarrow> nat \<Rightarrow> ('e, nat) result" where
  "after_move mov len = (if ds_input mov = [] then Ok (as_u32 len) else u32_add (as_u32 len) 1)"

definition emit_branch :: "DynSignature \<Rightarrow> RegInstruction \<Rightarrow> nat \<Rightarrow> unit reg_lower_op" where
  "emit_branch mov instr offset =
     bnd (if ds_input mov \<noteq> [] then emit_move mov offset else ret ()) (\<lambda>_.
     bnd (push_instr instr offset) (\<lambda>_.
     bnd reset_enclosing_block_layout (\<lambda>_. set_unreachable)))"

definition rl_br :: "nat \<Rightarrow> nat \<Rightarrow> unit reg_lower_op" where
  "rl_br relative_depth offset =
     bnd (ss_block_index relative_depth) (\<lambda>bi. bnd (ss_get_block bi) (\<lambda>b. bnd rl_len (\<lambda>len.
       case is_loop (lb_kind b) of
         Some loop_index \<Rightarrow>
           bnd (br_truncation_registers (lb_recorded_height b) (lb_params b) len Emit) (\<lambda>mov.
           emit_branch mov (RBr loop_index) offset)
       | None \<Rightarrow>
           bnd (br_truncation_registers (lb_recorded_height b) (lb_results b) len Emit) (\<lambda>mov.
           bnd (lift_result (after_move mov len)) (\<lambda>k.
           bnd (rl_attach_break bi (k, U32_MAX)) (\<lambda>_.
           emit_branch mov (RBr U32_MAX) offset))))))"

text \<open>The move and the target of one arm of a \<open>br_if\<close> or \<open>br_table\<close>.\<close>

definition branch_arm ::
    "nat \<Rightarrow> nat \<Rightarrow> InstructionSource \<Rightarrow> (DynSignature \<times> nat) reg_lower_op" where
  "branch_arm bi slot_index source =
     bnd (ss_get_block bi) (\<lambda>b. bnd rl_len (\<lambda>len.
       case is_loop (lb_kind b) of
         Some loop_index \<Rightarrow>
           bnd (br_truncation_registers (lb_recorded_height b) (lb_params b) len source) (\<lambda>mov.
           ret (mov, loop_index))
       | None \<Rightarrow>
           bnd (br_truncation_registers (lb_recorded_height b) (lb_results b) len source) (\<lambda>mov.
           bnd (rl_attach_break bi (as_u32 len, slot_index)) (\<lambda>_. ret (mov, U32_MAX)))))"

definition rl_br_if :: "nat \<Rightarrow> nat \<Rightarrow> unit reg_lower_op" where
  "rl_br_if relative_depth offset =
     bnd (spill_live_locals offset) (\<lambda>_.
     bnd (ss_block_index relative_depth) (\<lambda>bi.
     bnd rl_len (\<lambda>len. bnd (registers_for 1 0 len BrIfCond) (\<lambda>cond.
     bnd (branch_arm bi U32_MAX BrIfMov) (\<lambda>(mov, target).
     bnd (lift_result (index (sg_input cond) 0)) (\<lambda>c.
     bnd (alloc_in br_if_arena br_if_arena_update
            \<lparr>bo_cond = c, bo_mov = mov, bo_target_index = target\<rparr>) (\<lambda>eid.
     push_instr (RBrIf eid) offset)))))))"

fun rl_br_table_arms :: "nat \<Rightarrow> nat list \<Rightarrow> RegBrTableTarget list reg_lower_op" where
  "rl_br_table_arms i [] = ret []"
| "rl_br_table_arms i (relative_depth # ds) =
     bnd (ss_block_index relative_depth) (\<lambda>bi.
     bnd (branch_arm bi (as_u32 i) BrTableMov) (\<lambda>(mov, target).
     bnd (rl_br_table_arms (Suc i) ds) (\<lambda>arms.
     ret (\<lparr>rt_mov = mov, rt_target_index = target\<rparr> # arms))))"

definition rl_br_table :: "string + nat list \<Rightarrow> nat \<Rightarrow> nat \<Rightarrow> unit reg_lower_op" where
  "rl_br_table targets default_depth offset =
     bnd (spill_live_locals offset) (\<lambda>_. case targets of
        Inl e \<Rightarrow> fail (Parsing e)
      | Inr ds \<Rightarrow>
          bnd rl_len (\<lambda>len. bnd (registers_for 1 0 len BrTableIndex) (\<lambda>sel.
          bnd (rl_br_table_arms 0 (ds @ [default_depth])) (\<lambda>arms.
          bnd (lift_result (index (sg_input sel) 0)) (\<lambda>c.
          bnd (alloc_in br_table_arena br_table_arena_update \<lparr>bt_index = c, bt_targets = arms\<rparr>) (\<lambda>eid.
          bnd (push_instr (RBrTable eid) offset) (\<lambda>_.
          bnd reset_enclosing_block_layout (\<lambda>_. set_unreachable))))))))"

definition rl_return :: "nat \<Rightarrow> nat \<Rightarrow> unit reg_lower_op" where
  "rl_return results offset =
     bnd rl_len (\<lambda>len.
     bnd (br_truncation_registers 0 results len Emit) (\<lambda>mov.
     bnd (lift_result (after_move mov len)) (\<lambda>k.
     bnd (rl_attach_break 0 (k, U32_MAX)) (\<lambda>_.
     emit_branch mov (RReturn U32_MAX) offset))))"

section \<open>Calls\<close>

definition push_call_backpatch :: "nat \<Rightarrow> unit reg_lower_op" where
  "push_call_backpatch caller_base = modify (\<lambda>s. s\<lparr>call_instr_backpatches :=
     call_instr_backpatches s @ [(length (rl_instructions s), caller_base)]\<rparr>)"

definition after_call :: "nat \<Rightarrow> nat \<Rightarrow> unit reg_lower_op" where
  "after_call recorded_height results =
     bnd ss_height (\<lambda>h. bnd (lift_result (u32_sub h recorded_height)) (\<lambda>unwind.
     pops_and_pushes unwind results))"

definition rl_call :: "FuncType list \<Rightarrow> FuncDecl list \<Rightarrow> u32 \<Rightarrow> nat \<Rightarrow> unit reg_lower_op" where
  "rl_call types func_decls function_index offset =
     bnd (lift_result (index func_decls (unat function_index))) (\<lambda>func_decl.
     bnd (lift_result (index types (unat (fd_ty func_decl)))) (\<lambda>ty.
     let params = as_u32 (length (ft_params ty)); results = as_u32 (length (ft_results ty)) in
     bnd ss_height (\<lambda>h. bnd (lift_result (u32_sub h params)) (\<lambda>recorded_height.
     bnd (register_index_at_depth params) (\<lambda>base.
     bnd (if params \<noteq> 0 then materialize params offset else ret ()) (\<lambda>_.
     bnd (push_call_backpatch (as_u16 base)) (\<lambda>_.
     bnd (push_instr (RCall function_index U16_MAX) offset) (\<lambda>_.
     after_call recorded_height results))))))))"

definition rl_call_indirect :: "FuncType list \<Rightarrow> u32 \<Rightarrow> u32 \<Rightarrow> nat \<Rightarrow> unit reg_lower_op" where
  "rl_call_indirect types type_index table_index offset =
     bnd (lift_result (index types (unat type_index))) (\<lambda>ty.
     let params = as_u32 (length (ft_params ty)); results = as_u32 (length (ft_results ty)) in
     bnd ss_height (\<lambda>h. bnd (lift_result (u32_sub h params)) (\<lambda>h1.
     bnd (lift_result (u32_sub h1 1)) (\<lambda>recorded_height.
     bnd (lift_result (u32_add params 1)) (\<lambda>n.
     bnd (register_index_at_depth n) (\<lambda>base.
     bnd rl_len (\<lambda>len.
     bnd (registers_for 1 0 len CallIndirectSlot) (\<lambda>sel.
     bnd (materialize_stack_slots_in_registers params len CallIndirectMov) (\<lambda>mov.
     bnd (push_call_backpatch (as_u16 base)) (\<lambda>_.
     bnd (lift_result (index (sg_input sel) 0)) (\<lambda>c.
     bnd (alloc_in call_indirect_arena call_indirect_arena_update
            \<lparr>ci_ty_index = type_index, ci_table_index = table_index, ci_slot = c, ci_operands = mov,
              ci_caller_base = U16_MAX\<rparr>) (\<lambda>eid.
     bnd (push_instr (RCallIndirect eid) offset) (\<lambda>_.
     after_call recorded_height results)))))))))))))"

section \<open>The end of a label\<close>

definition rl_get_instr :: "nat \<Rightarrow> RegInstruction reg_lower_op" where
  "rl_get_instr i = bnd (gets rl_instructions) (\<lambda>xs. lift_result (index xs i))"

definition rl_set_instr :: "nat \<Rightarrow> RegInstruction \<Rightarrow> unit reg_lower_op" where
  "rl_set_instr i x = modify (\<lambda>s. s\<lparr>rl_instructions := (rl_instructions s)[i := x]\<rparr>)"

definition rl_patch_break :: "nat \<Rightarrow> nat \<times> nat \<Rightarrow> unit reg_lower_op" where
  "rl_patch_break end_index = (\<lambda>(br_index, br_targets_index).
     bnd (rl_get_instr br_index) (\<lambda>instr. case instr of
        RBr _ \<Rightarrow> rl_set_instr br_index (RBr end_index)
      | RBrIf eid \<Rightarrow>
          bnd (gets br_if_arena) (\<lambda>es. bnd (lift_result (index es eid)) (\<lambda>entry.
          modify (\<lambda>s. s\<lparr>br_if_arena := es[eid := entry\<lparr>bo_target_index := end_index\<rparr>]\<rparr>)))
      | RBrTable eid \<Rightarrow>
          bnd (gets br_table_arena) (\<lambda>es. bnd (lift_result (index es eid)) (\<lambda>entry.
          bnd (lift_result (index (bt_targets entry) br_targets_index)) (\<lambda>arm.
          modify (\<lambda>s. s\<lparr>br_table_arena := es[eid := entry\<lparr>bt_targets :=
            (bt_targets entry)[br_targets_index := arm\<lparr>rt_target_index := end_index\<rparr>]\<rparr>]\<rparr>))))
      | RReturn _ \<Rightarrow> rl_set_instr br_index (RReturn end_index)
      | _ \<Rightarrow> panic))"

definition rl_patch_if :: "nat \<Rightarrow> BlockKind \<Rightarrow> unit reg_lower_op" where
  "rl_patch_if end_index kind = (case kind of
      BK_If if_index ei \<Rightarrow>
        bnd (rl_get_instr if_index) (\<lambda>instr. case instr of
          RIf eid \<Rightarrow>
            bnd (gets if_arena) (\<lambda>es. bnd (lift_result (index es eid)) (\<lambda>entry.
            bnd (modify (\<lambda>s. s\<lparr>if_arena :=
              es[eid := entry\<lparr>io_else_index := ei, io_end_index := end_index\<rparr>]\<rparr>)) (\<lambda>_.
              case ei of
                None \<Rightarrow> ret ()
              | Some else_index \<Rightarrow>
                  bnd (rl_get_instr else_index) (\<lambda>instr. case instr of
                      RElse _ \<Rightarrow> rl_set_instr else_index (RElse end_index)
                    | _ \<Rightarrow> panic))))
        | _ \<Rightarrow> panic)
    | _ \<Rightarrow> ret ())"

definition rl_end :: "nat \<Rightarrow> unit reg_lower_op" where
  "rl_end offset =
     bnd ss_pop_block (\<lambda>b.
     bnd (if lb_results b \<noteq> 0 then materialize (lb_results b) offset else ret ()) (\<lambda>_.
     bnd ss_height (\<lambda>h.
     bnd (lift_result (u32_add (lb_recorded_height b) (lb_results b))) (\<lambda>expected.
       if h \<noteq> expected then panic
       else bnd rl_len (\<lambda>len.
            bnd (for_each (lb_attached_breaks b) (rl_patch_break (as_u32 len))) (\<lambda>_.
            bnd (rl_patch_if (as_u32 len) (lb_kind b)) (\<lambda>_.
            push_instr REnd offset)))))))"

section \<open>The pass over the operators\<close>

fun rl_operator :: "FuncType list \<Rightarrow> FuncDecl list \<Rightarrow> nat \<Rightarrow> Operator \<Rightarrow> nat \<Rightarrow> unit reg_lower_op" where
  "rl_operator types func_decls results operator offset = (case operator of
      Op_Unreachable \<Rightarrow>
        bnd (push_instr RUnreachable offset) (\<lambda>_.
        bnd reset_enclosing_block_layout (\<lambda>_. set_unreachable))
    | Op_Nop \<Rightarrow> ret ()
    | Op_I32Const v \<Rightarrow> push_const (C_I32 v)
    | Op_I64Const v \<Rightarrow> push_const (C_I64 v)
    | Op_F32Const v \<Rightarrow> push_const (C_F32 v)
    | Op_F64Const v \<Rightarrow> push_const (C_F64 v)
    | Op_RefNull _ \<Rightarrow> push_const (C_Ref None)
    | Op_RefFunc f \<Rightarrow> push_const (C_Ref (Some f))
    | Op_RefIsNull \<Rightarrow> reg_emit 1 1 RRefIsNull offset
    | Op_Load l off \<Rightarrow> rl_load l off offset
    | Op_Store st off \<Rightarrow> rl_store st off offset
    | Op_Numeric n \<Rightarrow> rl_numeric n offset
    | Op_Call f \<Rightarrow> rl_call types func_decls f offset
    | Op_CallIndirect ty tab \<Rightarrow> rl_call_indirect types ty tab offset
    | Op_Select \<Rightarrow> rl_select offset
    | Op_Drop \<Rightarrow> bnd ss_pop (\<lambda>_. ret ())
    | Op_Block blockty \<Rightarrow> rl_block types blockty offset
    | Op_Loop blockty \<Rightarrow> rl_loop types blockty offset
    | Op_If blockty \<Rightarrow> rl_if types blockty offset
    | Op_Else \<Rightarrow> rl_else offset
    | Op_Br d \<Rightarrow> rl_br d offset
    | Op_BrIf d \<Rightarrow> rl_br_if d offset
    | Op_BrTable ds d \<Rightarrow> rl_br_table ds d offset
    | Op_Return \<Rightarrow> rl_return results offset
    | Op_End \<Rightarrow> rl_end offset
    | Op_LocalGet _ \<Rightarrow> rl_variable operator offset
    | Op_LocalSet _ \<Rightarrow> rl_variable operator offset
    | Op_LocalTee _ \<Rightarrow> rl_variable operator offset
    | Op_GlobalGet _ \<Rightarrow> rl_variable operator offset
    | Op_GlobalSet _ \<Rightarrow> rl_variable operator offset
    | Op_MemorySize _ \<Rightarrow> rl_memory operator offset
    | Op_MemoryGrow _ \<Rightarrow> rl_memory operator offset
    | Op_MemoryCopy _ _ \<Rightarrow> rl_memory operator offset
    | Op_MemoryFill _ \<Rightarrow> rl_memory operator offset
    | Op_MemoryInit _ _ \<Rightarrow> rl_memory operator offset
    | Op_DataDrop _ \<Rightarrow> rl_memory operator offset
    | Op_Other name \<Rightarrow> fail (Unsupported name))"

declare rl_operator.simps [simp del]

fun rl_loop_operators ::
    "FuncType list \<Rightarrow> FuncDecl list \<Rightarrow> nat \<Rightarrow> OperatorsReader \<Rightarrow> unit reg_lower_op" where
  "rl_loop_operators types func_decls results [] = ret ()"
| "rl_loop_operators types func_decls results (Inl e # rest) = fail (Parsing e)"
| "rl_loop_operators types func_decls results (Inr (operator, offset) # rest) =
     bnd (check_unreachablity operator) (\<lambda>reachable.
     bnd (if reachable then rl_operator types func_decls results operator (as_u32 offset) else ret ()) (\<lambda>_.
     rl_loop_operators types func_decls results rest))"

section \<open>Resolving the operands\<close>

fun resolve_run :: "BackPatchableSlot list \<Rightarrow> nat \<Rightarrow> nat \<Rightarrow> nat \<Rightarrow> ('e, nat list) result" where
  "resolve_run [] locals pool nspills = Ok []"
| "resolve_run (x # xs) locals pool nspills =
     and_then (absolute_slot_in_frame x locals pool nspills) (\<lambda>i.
     and_then (resolve_run xs locals pool nspills) (\<lambda>is. Ok (i # is)))"

definition apply_to_input_registers ::
    "patches \<Rightarrow> nat list \<Rightarrow> nat \<Rightarrow> nat \<Rightarrow> nat \<Rightarrow> InstructionSource \<Rightarrow> ('e, patches \<times> nat list) result" where
  "apply_to_input_registers ps inputs locals pool nspills expected_source = (case ps of
      [] \<Rightarrow> Ok ([], inputs)
    | (source, patch) # rest \<Rightarrow>
        if source \<noteq> expected_source \<or> length patch \<noteq> length inputs then Panic
        else and_then (resolve_run patch locals pool nspills) (\<lambda>is. Ok (rest, is)))"

definition apply_to_output_registers :: "nat \<Rightarrow> nat \<Rightarrow> nat \<Rightarrow> ('e, nat) result" where
  "apply_to_output_registers output_start pool nspills =
     and_then (u16_add output_start pool) (\<lambda>x. u16_add x nspills)"

definition apply_to_signature ::
    "patches \<Rightarrow> reg_signature \<Rightarrow> nat \<Rightarrow> nat \<Rightarrow> nat \<Rightarrow> InstructionSource \<Rightarrow> ('e, reg_signature) result" where
  "apply_to_signature ps sig locals pool nspills source =
     and_then (apply_to_input_registers ps (sg_input sig) locals pool nspills source) (\<lambda>(_, is).
     and_then (apply_to_output_registers (sg_output sig) pool nspills) (\<lambda>out.
     Ok \<lparr>sg_input = is, sg_output = out\<rparr>))"

text \<open>The two groups of instructions with a signature: one operand, and two.\<close>

definition apply_unary ::
    "patches \<Rightarrow> reg_signature \<Rightarrow> nat \<Rightarrow> nat \<Rightarrow> nat \<Rightarrow> ('e, reg_signature) result" where
  "apply_unary ps sig locals pool nspills = apply_to_signature ps sig locals pool nspills Emit"

definition apply_binary ::
    "patches \<Rightarrow> reg_signature \<Rightarrow> nat \<Rightarrow> nat \<Rightarrow> nat \<Rightarrow> ('e, reg_signature) result" where
  "apply_binary ps sig locals pool nspills = apply_to_signature ps sig locals pool nspills Emit"

fun apply_numeric ::
    "numeric_instr \<Rightarrow> patches \<Rightarrow> reg_signature \<Rightarrow> nat \<Rightarrow> nat \<Rightarrow> nat \<Rightarrow> ('e, reg_signature) result" where
  "apply_numeric (I32Unary _) = apply_unary" | "apply_numeric (I64Unary _) = apply_unary"
| "apply_numeric (F32Unary _) = apply_unary" | "apply_numeric (F64Unary _) = apply_unary"
| "apply_numeric (I32Binary _) = apply_binary" | "apply_numeric (I64Binary _) = apply_binary"
| "apply_numeric (F32Binary _) = apply_binary" | "apply_numeric (F64Binary _) = apply_binary"
| "apply_numeric (I32Compare _) = apply_binary" | "apply_numeric (I64Compare _) = apply_binary"
| "apply_numeric (F32Compare _) = apply_binary" | "apply_numeric (F64Compare _) = apply_binary"

lemma apply_numeric_eq: "apply_numeric n ps sig L K S = apply_to_signature ps sig L K S Emit"
  by (cases n) (simp_all add: apply_unary_def apply_binary_def)

definition apply_to_dyn_signature ::
    "patches \<Rightarrow> DynSignature \<Rightarrow> nat \<Rightarrow> nat \<Rightarrow> nat \<Rightarrow> InstructionSource \<Rightarrow> ('e, patches \<times> DynSignature) result" where
  "apply_to_dyn_signature ps sig locals pool nspills source =
     and_then (apply_to_input_registers ps (ds_input sig) locals pool nspills source) (\<lambda>(rest, is).
     and_then (apply_to_output_registers (ds_output_start sig) pool nspills) (\<lambda>out.
     Ok (rest, \<lparr>ds_input = is, ds_output_start = out\<rparr>)))"

definition apply_to_slot ::
    "patches \<Rightarrow> nat \<Rightarrow> nat \<Rightarrow> nat \<Rightarrow> nat \<Rightarrow> InstructionSource \<Rightarrow> ('e, patches \<times> nat) result" where
  "apply_to_slot ps sl locals pool nspills source =
     and_then (apply_to_input_registers ps [sl] locals pool nspills source) (\<lambda>(rest, is).
     and_then (index is 0) (\<lambda>i. Ok (rest, i)))"

fun apply_to_arms ::
    "patches \<Rightarrow> RegBrTableTarget list \<Rightarrow> nat \<Rightarrow> nat \<Rightarrow> nat \<Rightarrow> ('e, RegBrTableTarget list) result" where
  "apply_to_arms ps [] locals pool nspills = Ok []"
| "apply_to_arms ps (arm # arms) locals pool nspills =
     and_then (apply_to_dyn_signature ps (rt_mov arm) locals pool nspills BrTableMov) (\<lambda>(rest, mov).
     and_then (apply_to_arms rest arms locals pool nspills) (\<lambda>arms.
     Ok (arm\<lparr>rt_mov := mov\<rparr> # arms)))"

text \<open>The instruction with its operands resolved, and the layout with its arena entry resolved.\<close>

fun apply_patches ::
    "nat \<Rightarrow> nat \<Rightarrow> nat \<Rightarrow> patches \<Rightarrow> RegInstruction \<Rightarrow> RegFrameLayout \<Rightarrow>
     ('e, RegInstruction \<times> RegFrameLayout) result" where
  "apply_patches L K S ps (RLocalSet i inp) fl =
     and_then (apply_to_input_registers ps inp L K S Emit) (\<lambda>(_, is). Ok (RLocalSet i is, fl))"
| "apply_patches L K S ps (RLocalTee i inp) fl =
     (case (ps, inp) of
        ([(Emit, [x])], _ # rest) \<Rightarrow>
          and_then (absolute_slot_in_frame x L K S) (\<lambda>k. Ok (RLocalTee i (k # rest), fl))
      | _ \<Rightarrow> Panic)"
| "apply_patches L K S ps (RGlobalGet i out) fl =
     and_then (apply_to_output_registers out K S) (\<lambda>k. Ok (RGlobalGet i k, fl))"
| "apply_patches L K S ps (RGlobalSet i inp) fl =
     and_then (apply_to_input_registers ps inp L K S Emit) (\<lambda>(_, is). Ok (RGlobalSet i is, fl))"
| "apply_patches L K S ps (RIf eid) fl =
     and_then (index (fl_if_arena fl) eid) (\<lambda>e.
     and_then (apply_to_slot ps (io_cond e) L K S Emit) (\<lambda>(_, c).
     Ok (RIf eid, fl\<lparr>fl_if_arena := (fl_if_arena fl)[eid := e\<lparr>io_cond := c\<rparr>]\<rparr>)))"
| "apply_patches L K S ps (RBrIf eid) fl =
     and_then (index (fl_br_if_arena fl) eid) (\<lambda>e.
     and_then (apply_to_slot ps (bo_cond e) L K S BrIfCond) (\<lambda>(rest, c).
     and_then (apply_to_dyn_signature rest (bo_mov e) L K S BrIfMov) (\<lambda>(_, mov).
     Ok (RBrIf eid, fl\<lparr>fl_br_if_arena := (fl_br_if_arena fl)[eid := e\<lparr>bo_cond := c, bo_mov := mov\<rparr>]\<rparr>))))"
| "apply_patches L K S ps (RBrTable eid) fl =
     and_then (index (fl_br_table_arena fl) eid) (\<lambda>e.
     and_then (apply_to_slot ps (bt_index e) L K S BrTableIndex) (\<lambda>(rest, c).
     and_then (apply_to_arms rest (bt_targets e) L K S) (\<lambda>arms.
     Ok (RBrTable eid, fl\<lparr>fl_br_table_arena :=
       (fl_br_table_arena fl)[eid := e\<lparr>bt_index := c, bt_targets := arms\<rparr>]\<rparr>))))"
| "apply_patches L K S ps (RCallIndirect eid) fl =
     and_then (index (fl_call_indirect_arena fl) eid) (\<lambda>e.
     and_then (apply_to_slot ps (ci_slot e) L K S CallIndirectSlot) (\<lambda>(rest, c).
     and_then (apply_to_dyn_signature rest (ci_operands e) L K S CallIndirectMov) (\<lambda>(_, mov).
     Ok (RCallIndirect eid, fl\<lparr>fl_call_indirect_arena :=
       (fl_call_indirect_arena fl)[eid := e\<lparr>ci_slot := c, ci_operands := mov\<rparr>]\<rparr>))))"
| "apply_patches L K S ps (RSelect eid) fl =
     and_then (index (fl_select_arena fl) eid) (\<lambda>e.
     and_then (apply_to_signature ps e L K S Emit) (\<lambda>sig.
     Ok (RSelect eid, fl\<lparr>fl_select_arena := (fl_select_arena fl)[eid := sig]\<rparr>)))"
| "apply_patches L K S ps (RMemoryInit eid) fl =
     and_then (index (fl_memory_init_arena fl) eid) (\<lambda>e.
     and_then (apply_to_input_registers ps (mi_operands e) L K S Emit) (\<lambda>(_, is).
     Ok (RMemoryInit eid, fl\<lparr>fl_memory_init_arena :=
       (fl_memory_init_arena fl)[eid := e\<lparr>mi_operands := is\<rparr>]\<rparr>)))"
| "apply_patches L K S ps (RLoad l off sig) fl =
     and_then (apply_unary ps sig L K S) (\<lambda>sig. Ok (RLoad l off sig, fl))"
| "apply_patches L K S ps (RNumeric n sig) fl =
     and_then (apply_numeric n ps sig L K S) (\<lambda>sig. Ok (RNumeric n sig, fl))"
| "apply_patches L K S ps (RRefIsNull sig) fl =
     and_then (apply_unary ps sig L K S) (\<lambda>sig. Ok (RRefIsNull sig, fl))"
| "apply_patches L K S ps (RMemoryGrow sig) fl =
     and_then (apply_unary ps sig L K S) (\<lambda>sig. Ok (RMemoryGrow sig, fl))"
| "apply_patches L K S ps (RStore st off inp) fl =
     and_then (apply_to_input_registers ps inp L K S Emit) (\<lambda>(_, is). Ok (RStore st off is, fl))"
| "apply_patches L K S ps (RMemoryCopy inp) fl =
     and_then (apply_to_input_registers ps inp L K S Emit) (\<lambda>(_, is). Ok (RMemoryCopy is, fl))"
| "apply_patches L K S ps (RMemoryFill inp) fl =
     and_then (apply_to_input_registers ps inp L K S Emit) (\<lambda>(_, is). Ok (RMemoryFill is, fl))"
| "apply_patches L K S ps (RMemorySize out) fl =
     and_then (apply_to_output_registers out K S) (\<lambda>k. Ok (RMemorySize k, fl))"
| "apply_patches L K S ps (RMove eid) fl =
     and_then (index (fl_dyn_signatures fl) eid) (\<lambda>e.
     and_then (apply_to_dyn_signature ps e L K S Emit) (\<lambda>(_, mov).
     Ok (RMove eid, fl\<lparr>fl_dyn_signatures := (fl_dyn_signatures fl)[eid := mov]\<rparr>)))"
| "apply_patches L K S ps _ fl = Panic"

fun apply_backpatches ::
    "nat \<Rightarrow> nat \<Rightarrow> nat \<Rightarrow> BackpatchMap \<Rightarrow> RegInstruction list \<Rightarrow> RegFrameLayout \<Rightarrow>
     ('e, RegInstruction list \<times> RegFrameLayout) result" where
  "apply_backpatches L K S [] instructions fl = Ok (instructions, fl)"
| "apply_backpatches L K S ((i, ps) # m) instructions fl =
     and_then (index instructions i) (\<lambda>x.
     and_then (apply_patches L K S ps x fl) (\<lambda>(y, fl).
     apply_backpatches L K S m (instructions[i := y]) fl))"

text \<open>The callee bases, shifted clear of the spills and the constants.\<close>

definition patch_call :: "nat \<Rightarrow> nat \<Rightarrow> nat \<times> nat \<Rightarrow> unit reg_lower_op" where
  "patch_call nspills pool = (\<lambda>(instr_index, relative_caller_base).
     bnd (rl_get_instr instr_index) (\<lambda>instr.
     bnd (lift_result (and_then (u16_add relative_caller_base nspills) (\<lambda>x. u16_add x pool))) (\<lambda>base.
       case instr of
         RCall f _ \<Rightarrow> rl_set_instr instr_index (RCall f base)
       | RCallIndirect eid \<Rightarrow>
           bnd (gets call_indirect_arena) (\<lambda>es. bnd (lift_result (index es eid)) (\<lambda>e.
           modify (\<lambda>s. s\<lparr>call_indirect_arena := es[eid := e\<lparr>ci_caller_base := base\<rparr>]\<rparr>)))
       | _ \<Rightarrow> panic)))"

definition layout_of :: "reg_lower_state \<Rightarrow> RegFrameLayout" where
  "layout_of s = \<lparr>fl_registers = max_registers s, fl_spills = sp_allocation_len (spills s),
     fl_if_arena = if_arena s, fl_br_if_arena = br_if_arena s, fl_br_table_arena = br_table_arena s,
     fl_call_indirect_arena = call_indirect_arena s, fl_select_arena = select_arena s,
     fl_memory_init_arena = memory_init_arena s, fl_dyn_signatures = dyn_signatures s,
     fl_memory_offsets = in_values (memory_offsets s), fl_locals_count = ss_locals_count s,
     fl_consts = in_values (const_interner s)\<rparr>"

definition resolve_layout :: "(RegInstruction list \<times> nat list \<times> RegFrameLayout) reg_lower_op" where
  "resolve_layout =
     bnd (gets ss_locals_count) (\<lambda>locals.
     bnd (gets (\<lambda>s. sp_allocation_len (spills s))) (\<lambda>nspills.
     bnd (gets (\<lambda>s. as_u16 (length (in_values (const_interner s))))) (\<lambda>pool.
     bnd (gets max_registers) (\<lambda>m.
       let frame_width = m + nspills + pool
       in if U16_MAX < frame_width
          then fail (RegisterFrameTooLarge ''the whole frame'' frame_width U16_MAX)
          else bnd (gets call_instr_backpatches) (\<lambda>calls.
               bnd (for_each calls (patch_call nspills pool)) (\<lambda>_.
               bnd (gets (\<lambda>s. s)) (\<lambda>s.
               bnd (lift_result (apply_backpatches locals pool nspills (backpatch_map s)
                      (rl_instructions s) (layout_of s))) (\<lambda>(instructions, frame).
               ret (instructions, rl_offsets s, frame)))))))))"

definition initial_reg_lower_state :: "nat \<Rightarrow> nat \<Rightarrow> nat \<Rightarrow> reg_lower_state" where
  "initial_reg_lower_state params results locals_count =
     SimulatedStack.extend
       ((new_simulated_stack locals_count)\<lparr>ss_control_stack := [func_label params results]\<rparr>)
       \<lparr>rl_instructions = [], rl_offsets = [], dead_blocks = [], dead_code = False,
        call_instr_backpatches = []\<rparr>"

definition reg_emit_instructions_for_func ::
    "OperatorsReader \<Rightarrow> nat \<Rightarrow> nat \<Rightarrow> FuncType list \<Rightarrow> FuncDecl list \<Rightarrow> nat \<Rightarrow>
     (TraceWasmError, RegInstruction list \<times> nat list \<times> RegFrameLayout) result" where
  "reg_emit_instructions_for_func operator_reader params results types func_decls locals_count =
     (case bnd (rl_loop_operators types func_decls results operator_reader) (\<lambda>_. resolve_layout)
             (initial_reg_lower_state params results locals_count) of
        Ok (body, _) \<Rightarrow> Ok body
      | Err (e, _) \<Rightarrow> Err e
      | Panic \<Rightarrow> Panic)"

end
