(* ===== verification/RegPlaces.thy ===== *)
theory RegPlaces
  imports RegForwarding RegOperators RegLowering
begin

text \<open>
  The places of a frame. A finished body knows the sizes of its regions, so every operand of the
  simulated stack is one slot of the frame; different operands are different slots, and the slots
  of the whole frame fit the file. \<open>matched\<close> relates a frame of the stack machine, its locals and
  its operands, to the frame of the register machine that holds the same values in those places.
\<close>

section \<open>From operands to slots\<close>

fun slot_of :: "RegFrameLayout \<Rightarrow> BackPatchableSlot \<Rightarrow> nat" where
  "slot_of fl (BP_Slot n) = n"
| "slot_of fl (BP_Const i) = i + fl_locals_count fl"
| "slot_of fl (BP_Spill k) = k + fl_locals_count fl + length (fl_consts fl)"
| "slot_of fl (BP_Register r) = r + length (fl_consts fl) + fl_spills fl"

fun placed :: "RegFrameLayout \<Rightarrow> BackPatchableSlot \<Rightarrow> bool" where
  "placed fl (BP_Slot n) = (n < fl_locals_count fl)"
| "placed fl (BP_Const i) = (i < length (fl_consts fl))"
| "placed fl (BP_Spill k) = (k < fl_spills fl)"
| "placed fl (BP_Register r) = (fl_locals_count fl \<le> r \<and> r < fl_registers fl)"

lemma slot_of_inj: "placed fl x \<Longrightarrow> placed fl y \<Longrightarrow> slot_of fl x = slot_of fl y \<longleftrightarrow> x = y"
  by (cases x; cases y) auto

lemma slot_of_in_frame:
  "fl_locals_count fl \<le> fl_registers fl \<Longrightarrow> placed fl x \<Longrightarrow> slot_of fl x < frame_size fl"
  by (cases x) (auto simp: frame_size_def)

lemma absolute_slot_of:
  assumes "absolute_slot_in_frame x (fl_locals_count fl) (length (fl_consts fl)) (fl_spills fl) = Ok i"
  shows "i = slot_of fl x"
  using assms by (cases x) (auto simp: u16_add_def and_then_eq_Ok split: if_splits)

lemma absolute_slot_in_frame_eq:
  assumes "fl_locals_count fl \<le> fl_registers fl" and "frame_size fl \<le> U16_MAX" and "placed fl x"
  shows "absolute_slot_in_frame x (fl_locals_count fl) (length (fl_consts fl)) (fl_spills fl) = Ok (slot_of fl x)"
  using assms by (cases x) (auto simp: u16_add_def frame_size_def)

text \<open>The layout \<open>fl\<close> has room for what the lowering has allocated so far.\<close>

definition covers :: "RegFrameLayout \<Rightarrow> nat \<Rightarrow> 'z SimulatedStack_scheme \<Rightarrow> bool" where
  "covers fl L s \<longleftrightarrow> fl_locals_count fl = L \<and> L \<le> fl_registers fl \<and> frame_size fl \<le> U16_MAX \<and>
     max_registers s \<le> fl_registers fl \<and> sp_allocation_len (spills s) \<le> fl_spills fl \<and>
     (\<exists>more. fl_consts fl = in_values (const_interner s) @ more) \<and>
     (\<exists>more. fl_memory_offsets fl = in_values (memory_offsets s) @ more)"

lemma covered_operands:
  assumes "covers fl L s" and "forwards L ops s" and "x \<in> set ops"
  shows "placed fl x"
proof -
  have "operand_ok L s x" using forwards_operands [OF assms(2,3)] .
  with assms(1) forwards_registers [OF assms(2)] show ?thesis
    by (cases x) (auto simp: covers_def)
qed

section \<open>Values in places\<close>

definition place_value :: "RegFrameLayout \<Rightarrow> RegCallerBaseData \<Rightarrow> ('m, 'i) RegInstance \<Rightarrow> BackPatchableSlot \<Rightarrow> Value" where
  "place_value fl cb t x = slot_at t cb (slot_of fl x)"

definition put_place ::
    "RegFrameLayout \<Rightarrow> RegCallerBaseData \<Rightarrow> BackPatchableSlot \<Rightarrow> Value \<Rightarrow> ('m, 'i) RegInstance \<Rightarrow> ('m, 'i) RegInstance" where
  "put_place fl cb x v t = put_slots t cb (slot_of fl x) [v]"

definition frame_room :: "RegFrameLayout \<Rightarrow> RegCallerBaseData \<Rightarrow> ('m, 'i) RegInstance \<Rightarrow> bool" where
  "frame_room fl cb t \<longleftrightarrow> fl_locals_count fl \<le> fl_registers fl \<and>
     base_register_index cb + frame_size fl \<le> length (registers (frame t)) \<and>
     base_register_index cb + frame_size fl \<le> U32_MAX + 1"

lemma frame_room_in_frame: "frame_room fl cb t \<Longrightarrow> placed fl x \<Longrightarrow> in_frame t cb (slot_of fl x)"
  using slot_of_in_frame [of fl x] by (auto simp: frame_room_def in_frame_def)

lemma frame_room_put [simp]:
  assumes "frame_room fl cb t" and "placed fl x"
  shows "frame_room fl cb (put_place fl cb x v t)"
  using assms slot_of_in_frame [of fl x] by (simp add: frame_room_def put_place_def put_slots_def)

lemma place_value_put:
  assumes "frame_room fl cb t" and "placed fl x" and "placed fl y"
  shows "place_value fl cb (put_place fl cb x v t) y = (if y = x then v else place_value fl cb t y)"
proof -
  have "slot_of fl x < frame_size fl" "slot_of fl y < frame_size fl"
    using assms slot_of_in_frame by (auto simp: frame_room_def)
  then show ?thesis
    using assms slot_of_inj [of fl y x]
    by (auto simp: place_value_def put_place_def slot_at_def put_slots_def overwrite_single frame_room_def
        nth_list_update)
qed

definition locals_of :: "RegFrameLayout \<Rightarrow> BackPatchableSlot list" where
  "locals_of fl = map BP_Slot [0..<fl_locals_count fl]"

lemma locals_of_placed [simp]: "x \<in> set (locals_of fl) \<Longrightarrow> placed fl x"
  by (auto simp: locals_of_def)

lemma length_locals_of [simp]: "length (locals_of fl) = fl_locals_count fl"
  by (simp add: locals_of_def)

text \<open>The pool of the body is in its region.\<close>

definition pool_loaded :: "RegFrameLayout \<Rightarrow> RegCallerBaseData \<Rightarrow> ('m, 'i) RegInstance \<Rightarrow> bool" where
  "pool_loaded fl cb t \<longleftrightarrow>
     (\<forall>i < length (fl_consts fl). place_value fl cb t (BP_Const i) = const_value (fl_consts fl ! i))"

definition matched ::
    "RegFrameLayout \<Rightarrow> Value list \<Rightarrow> RegCallerBaseData \<Rightarrow> BackPatchableSlot list \<Rightarrow>
     ('m, 'i) StackInstance \<Rightarrow> ('m, 'i) RegInstance \<Rightarrow> bool" where
  "matched fl low cb ops s t \<longleftrightarrow> same_env s t \<and> frame_room fl cb t \<and> pool_loaded fl cb t \<and>
     (\<forall>x \<in> set ops. placed fl x) \<and>
     operands s (low @ map (place_value fl cb t) (locals_of fl @ ops))"

lemma matchedD:
  assumes "matched fl low cb ops s t"
  shows "same_env s t" "frame_room fl cb t" "pool_loaded fl cb t" "\<And>x. x \<in> set ops \<Longrightarrow> placed fl x"
    "operands s (low @ map (place_value fl cb t) (locals_of fl @ ops))"
  using assms by (simp_all add: matched_def)

lemma pool_loaded_put [simp]:
  assumes "frame_room fl cb t" and "placed fl x" and "pool_loaded fl cb t" and "\<And>i. x \<noteq> BP_Const i"
  shows "pool_loaded fl cb (put_place fl cb x v t)"
  unfolding pool_loaded_def
proof (intro allI impI)
  fix i assume "i < length (fl_consts fl)"
  then show "place_value fl cb (put_place fl cb x v t) (BP_Const i) = const_value (fl_consts fl ! i)"
    using assms(3,4) place_value_put [OF assms(1,2), of "BP_Const i" v] by (auto simp: pool_loaded_def)
qed

lemma place_values_put:
  assumes "frame_room fl cb t" and "placed fl x" and "\<And>y. y \<in> set ys \<Longrightarrow> placed fl y" and "x \<notin> set ys"
  shows "map (place_value fl cb (put_place fl cb x v t)) ys = map (place_value fl cb t) ys"
proof (rule map_cong [OF refl])
  fix y assume "y \<in> set ys"
  with assms place_value_put [OF assms(1,2), of y v]
  show "place_value fl cb (put_place fl cb x v t) y = place_value fl cb t y" by auto
qed

lemma same_env_put_place [simp]: "same_env s (put_place fl cb x v t) = same_env s t"
  by (simp add: put_place_def)

text \<open>The two machines side by side: both go on, or both stop the same way.\<close>

definition matched_after ::
    "RegFrameLayout \<Rightarrow> Value list \<Rightarrow> RegCallerBaseData \<Rightarrow> BackPatchableSlot list \<Rightarrow>
     StackCallerBaseData Step \<Rightarrow> ('m, 'i) StackInstance \<Rightarrow> RegCallerBaseData Step \<Rightarrow> ('m, 'i) RegInstance \<Rightarrow> bool" where
  "matched_after fl low cb ops a s b t \<longleftrightarrow> a = Next \<and> b = Next \<and> matched fl low cb ops s t"

abbreviation matching where
  "matching fl low cb ops \<equiv> paired (matched_after fl low cb ops) same_env"

section \<open>Operators\<close>

lemma matching_operator:
  assumes m: "matched fl low cb (xs @ ys) s t"
    and form: "operator_form fl y = Some (x, map (slot_of fl) ys, map (slot_of fl) outs)"
    and arity: "length ys = operator_arity x" and globals: "md_globals md = md_globals md'"
    and outs: "outs = [] \<or> (\<exists>r. outs = [BP_Register r] \<and> placed fl (BP_Register r) \<and> BP_Register r \<notin> set xs)"
  shows "matching fl low cb (xs @ outs) (execute fe D R x md layout' cb' imported) s
    (reg_execute fe D R y md' fl cb imported) t"
proof -
  note mD = matchedD [OF m]
  let ?vs = "low @ map (place_value fl cb t) (locals_of fl @ xs)"
  have placed_outs: "placed fl z" if "z \<in> set outs" for z
    using outs that by auto
  have slots: "\<forall>sl \<in> set (map (slot_of fl) ys) \<union> set (map (slot_of fl) outs). in_frame t cb sl"
    using mD(4) placed_outs frame_room_in_frame [OF mD(2)] by auto
  have ops: "operands s (?vs @ map (slot_at t cb) (map (slot_of fl) ys))"
  proof -
    have "map (slot_at t cb) (map (slot_of fl) ys) = map (place_value fl cb t) ys"
      by (simp add: place_value_def)
    then show ?thesis using mD(5) by (simp del: map_map)
  qed
  show ?thesis
  proof (rule paired_mono [OF agree_operator [OF form _ slots mD(1) ops globals]])
    show "length (map (slot_of fl) ys) = operator_arity x" using arity by simp
    show "same_env s' t'" if "agree_trap t s' t'" for s' t'
      using that by (simp add: agree_trap_def)
    fix a s' b t'
    assume "agree_after ?vs t cb (map (slot_of fl) outs) a s' b t'"
    then obtain ws where steps: "a = Next" "b = Next" and env: "same_env s' t'"
      and len: "length ws = length outs" and ops': "operands s' (?vs @ ws)"
      and fr: "frame t' = wrote t cb (map (slot_of fl) outs) ws"
      by (auto simp: agree_after_def)
    have "matched fl low cb (xs @ outs) s' t'"
    proof (cases "outs = []")
      case True
      with fr have same: "frame t' = frame t" by (simp add: wrote_def)
      then have vals: "place_value fl cb t' = place_value fl cb t"
        by (simp add: place_value_def slot_at_def fun_eq_iff)
      with same True mD(2-4) env ops' len show ?thesis
        by (simp add: matched_def frame_room_def pool_loaded_def vals)
    next
      case False
      then obtain r where r: "outs = [BP_Register r]" and out: "placed fl (BP_Register r)" "BP_Register r \<notin> set xs"
        using outs by auto
      with len obtain w where w: "ws = [w]" by (cases ws) auto
      let ?t = "put_place fl cb (BP_Register r) w t"
      have same: "frame t' = frame ?t"
        using fr by (simp add: wrote_def r w put_place_def)
      then have vals: "place_value fl cb t' = place_value fl cb ?t"
        by (simp add: place_value_def slot_at_def fun_eq_iff)
      have kept: "map (place_value fl cb ?t) (locals_of fl @ xs) = map (place_value fl cb t) (locals_of fl @ xs)"
        by (rule place_values_put [OF mD(2) out(1)]) (use mD(4) out(2) in \<open>auto simp: locals_of_def\<close>)
      have new: "place_value fl cb ?t (BP_Register r) = w"
        using place_value_put [OF mD(2) out(1) out(1)] by simp
      have "frame_room fl cb t' \<longleftrightarrow> frame_room fl cb ?t" and "pool_loaded fl cb t' \<longleftrightarrow> pool_loaded fl cb ?t"
        by (simp_all add: frame_room_def same pool_loaded_def vals)
      moreover have "frame_room fl cb ?t" "pool_loaded fl cb ?t"
        using mD(2,3) out(1) by simp_all
      moreover have all: "map (place_value fl cb ?t) ((locals_of fl @ xs) @ outs) =
          map (place_value fl cb t) (locals_of fl @ xs) @ ws"
        by (simp only: r w map_append [of _ "locals_of fl @ xs" "[BP_Register r]"] kept list.map new)
      have "operands s' (low @ map (place_value fl cb t') (locals_of fl @ xs @ outs))"
        using ops' all by (simp only: vals append_assoc)
      ultimately show ?thesis
        using env out(1) mD(4) r by (simp add: matched_def)
    qed
    with steps show "matched_after fl low cb (xs @ outs) a s' b t'"
      by (simp add: matched_after_def)
  qed
qed


section \<open>Locals of the stack machine\<close>

lemma holds_set: "holds f vs \<Longrightarrow> i < length vs \<Longrightarrow> holds (f\<lparr>backing := (backing f)[i := v]\<rparr>) (vs[i := v])"
  using holds_pointer [of f vs] holds_bound [of f vs] holds_nth [of f vs]
  by (intro holdsI) (simp_all add: nth_list_update)

lemma set_slot_Ok: "holds f vs \<Longrightarrow> i < length vs \<Longrightarrow>
    set_slot i v f = Ok ((), f\<lparr>backing := (backing f)[i := v]\<rparr>)"
  using holds_bound [of f vs] by (simp add: set_slot_def bnd_def gets_def modify_def)

lemma local_get_eq:
  assumes "operands s vs" and "unat i + base_height cb < length vs" and "unat i + base_height cb \<le> U32_MAX"
  shows "exec_local_get cb i s = push_next (vs ! (unat i + base_height cb)) s"
proof -
  have "on_frame (slot (unat i + base_height cb)) s =
      (Ok (vs ! (unat i + base_height cb), s\<lparr>frame := frame s\<rparr>) :: (InstructionExecutionError \<times> _, _) result)"
    using slot_Ok assms(1,2) by (intro on_frame_eq) (auto simp: operands_def)
  then show ?thesis
    using assms(3) by (simp add: exec_local_get_def get_local_def u32_add_def bnd_lift_result bnd_eq)
qed

lemma set_local_Ok:
  assumes "operands s vs" and "unat i + base_height cb < length vs" and "unat i + base_height cb \<le> U32_MAX"
  shows "\<exists>f. set_local i v (base_height cb) s = Ok ((), s\<lparr>frame := f\<rparr>) \<and>
    holds f (vs[unat i + base_height cb := v])"
proof -
  let ?n = "unat i + base_height cb" and ?f = "frame s"
  have f: "holds ?f vs" using assms(1) by (simp add: operands_def)
  have "on_frame (set_slot ?n v) s = Ok ((), s\<lparr>frame := ?f\<lparr>backing := (backing ?f)[?n := v]\<rparr>\<rparr>)"
    by (rule on_frame_eq) (rule set_slot_Ok [OF f assms(2)])
  with holds_set [OF f assms(2)] assms(3) show ?thesis
    by (auto simp: set_local_def u32_add_def bnd_lift_result)
qed

lemma local_set_Ok:
  assumes "operands s (vs @ [v])" and "unat i + base_height cb < length vs" and "unat i + base_height cb \<le> U32_MAX"
  shows "\<exists>f. exec_local_set cb i s = Ok (Next, s\<lparr>frame := f\<rparr>) \<and> holds f (vs[unat i + base_height cb := v])"
proof -
  obtain f where f: "pop_value s = Ok (v, s\<lparr>frame := f\<rparr>)" "holds f vs"
    using pop_value_Ok [OF assms(1)] .
  then have "operands (s\<lparr>frame := f\<rparr>) vs" by simp
  from set_local_Ok [OF this assms(2,3), of v] f(1) show ?thesis
    by (auto simp: exec_local_set_def bnd_eq ret_eq)
qed

lemma local_tee_Ok:
  assumes "operands s (vs @ [v])" and "unat i + base_height cb < length vs" and "unat i + base_height cb \<le> U32_MAX"
  shows "\<exists>f. exec_local_tee cb i s = Ok (Next, s\<lparr>frame := f\<rparr>) \<and> holds f (vs[unat i + base_height cb := v] @ [v])"
proof -
  have f: "holds (frame s) (vs @ [v])" using assms(1) by (simp add: operands_def)
  have "wp tee (\<lambda>x f. x = v \<and> f = frame s) (\<lambda>(_ :: InstructionExecutionError) _. False) (frame s)"
    by (rule tee_wp [OF f])
  then have "tee (frame s) = (Ok (v, frame s) :: (InstructionExecutionError \<times> _, _) result)"
    by (auto simp: wp_def split: result.splits)
  then have "on_frame tee s = (Ok (v, s\<lparr>frame := frame s\<rparr>) :: (InstructionExecutionError \<times> _, _) result)"
    by (rule on_frame_eq)
  moreover obtain g where "set_local i v (base_height cb) s = Ok ((), s\<lparr>frame := g\<rparr>)"
    "holds g ((vs @ [v])[unat i + base_height cb := v])"
    using set_local_Ok [OF assms(1) _ assms(3), of v] assms(2) by auto
  ultimately show ?thesis
    using assms(2) by (auto simp: exec_local_tee_def bnd_def ret_def list_update_append1)
qed

section \<open>Locals of the register machine\<close>

lemma reg_local_eq:
  assumes "frame_room fl cb t" and "placed fl (BP_Slot (unat i))"
  shows "reg_local i cb t = Ok (place_value fl cb t (BP_Slot (unat i)), t)"
  using frame_room_in_frame [OF assms]
  by (simp add: reg_local_def in_frame_def u32_add_def bnd_lift_result on_frame_eq get_register_eq
      place_value_def slot_at_def)

lemma reg_local_set_eq:
  assumes "frame_room fl cb t" and "placed fl (BP_Slot (unat i))" and "placed fl x"
  shows "reg_exec_local_set i [slot_of fl x] cb t =
    Ok (Next, put_place fl cb (BP_Slot (unat i)) (place_value fl cb t x) t)"
proof -
  have "in_frame t cb (slot_of fl (BP_Slot (unat i)))" "in_frame t cb (slot_of fl x)"
    using assms frame_room_in_frame by blast+
  then show ?thesis
    by (simp add: reg_exec_local_set_def operand_eq bnd_eq reg_set_local_def in_frame_def u32_add_def
        bnd_lift_result on_frame_eq set_register_eq ret_eq put_place_def put_slots_def overwrite_single
        place_value_def)
qed

lemma reg_local_spill_eq:
  assumes "frame_room fl cb t" and "placed fl (BP_Slot (unat i))" and "placed fl (BP_Spill k)"
  shows "reg_exec_local_spill i k fl cb t =
    Ok (Next, put_place fl cb (BP_Spill k) (place_value fl cb t (BP_Slot (unat i))) t)"
proof -
  have "in_frame t cb (slot_of fl (BP_Spill k))"
    using assms frame_room_in_frame by blast
  then show ?thesis
    by (simp add: reg_exec_local_spill_def reg_local_eq [OF assms(1,2)] bnd_eq set_value_to_spills_def
        in_frame_def on_frame_eq set_register_eq ret_eq put_place_def put_slots_def overwrite_single add.assoc)
qed

end
