(* ===== verification/RegLoweringProperties.thy ===== *)
theory RegLoweringProperties
  imports RegForwardingTotal RegPlaces
begin

text \<open>
  The properties of the register lowering: what its simulated stack promises, and where the
  operands it records end up in the finished frame.
\<close>

section \<open>The simulated stack\<close>

text \<open>C19: the simulated stack of the register lowering is the list of places its operands will
  be read from. Its shared entries, counts, origins and free slots implement that list: popping and
  peeking give the last place and never fail while there is one; pushing a local adds the local
  itself, pushing a constant the pool entry that holds it, pushing a result a register above all
  those in use; and spilling a local redirects exactly the pending operands that read it, to a slot
  no pending operand uses. The only errors are a full region of the frame.\<close>

theorem simulated_stack_forwards_operands:
  assumes "forwards L ops s" and "n < L" and "length ops < U32_MAX"
  shows "(ops = xs @ [x] \<longrightarrow>
       wp ss_pop (\<lambda>y s'. y = x \<and> forwards L xs s') (\<lambda>_ _. False) s \<and>
       wp ss_tee (\<lambda>y s'. y = x \<and> s' = s) (\<lambda>_ _. False) s) \<and>
     wp (push_local n) (\<lambda>_ s'. forwards L (ops @ [BP_Slot n]) s') (\<lambda>_ _. False) s \<and>
     wp (push_const v) (\<lambda>_ s'. \<exists>i. forwards L (ops @ [BP_Const i]) s' \<and> in_values (const_interner s') ! i = v)
       (\<lambda>_ _. length (in_values (const_interner s)) = U16_MAX) s \<and>
     wp (ss_push (curr_register_index s)) (\<lambda>_ s'. forwards L (ops @ [BP_Register (curr_register_index s)]) s' \<and>
         (\<forall>r. BP_Register r \<in> set ops \<longrightarrow> r < curr_register_index s))
       (\<lambda>_ _. curr_register_index s = U16_MAX) s \<and>
     wp (set_lazy n) (\<lambda>spilled s'. case spilled of
           None \<Rightarrow> s' = s \<and> BP_Slot n \<notin> set ops
         | Some k \<Rightarrow> BP_Spill k \<notin> set ops \<and> forwards L (map (redirect n k) ops) s')
       (\<lambda>_ _. sp_allocation_len (spills s) = U16_MAX) s"
proof (intro conjI impI)
  assume ops: "ops = xs @ [x]"
  then have "ops \<noteq> []" by simp
  from wp_wlp_conj [OF ss_pop_returns [OF assms(1) this], of "\<lambda>y s'. y = x \<and> forwards L xs s'"]
  show "wp ss_pop (\<lambda>y s'. y = x \<and> forwards L xs s') (\<lambda>_ _. False) s"
    using wlp_ss_pop [OF assms(1), of "\<lambda>y s'. y = x \<and> forwards L xs s'"] by (simp add: ops)
  show "wp ss_tee (\<lambda>y s'. y = x \<and> s' = s) (\<lambda>_ _. False) s"
    using wlp_ss_tee [OF assms(1), of "\<lambda>y s'. y = x \<and> s' = s"] ss_tee_returns [OF assms(1) \<open>ops \<noteq> []\<close>]
    by (auto simp: ops wp_def wlp_def split: result.splits)
next
  show "wp (push_local n) (\<lambda>_ s'. forwards L (ops @ [BP_Slot n]) s') (\<lambda>_ _. False) s"
    using wp_wlp_conj [OF ss_push_returns [OF assms], of "\<lambda>_ s'. forwards L (ops @ [BP_Slot n]) s'"]
      wlp_push_local [OF assms(1,2), of "\<lambda>_ s'. forwards L (ops @ [BP_Slot n]) s'"]
    by (simp add: push_local_def)
next
  have "wlp (push_const v) (\<lambda>_ s'. \<exists>i. forwards L (ops @ [BP_Const i]) s' \<and> in_values (const_interner s') ! i = v) s"
    by (rule wlp_push_const [OF assms(1)]) auto
  from wp_wlp_conj [OF push_const_returns [OF assms(1)] this]
  show "wp (push_const v) (\<lambda>_ s'. \<exists>i. forwards L (ops @ [BP_Const i]) s' \<and> in_values (const_interner s') ! i = v)
       (\<lambda>_ _. length (in_values (const_interner s)) = U16_MAX) s"
    by simp
next
  have "wlp (ss_push (curr_register_index s)) (\<lambda>_ s'. forwards L (ops @ [BP_Register (curr_register_index s)]) s' \<and>
         (\<forall>r. BP_Register r \<in> set ops \<longrightarrow> r < curr_register_index s)) s"
    by (rule wlp_push_register [OF assms(1) refl]) (auto intro: forwards_below [OF assms(1)])
  from wp_wlp_conj [OF push_register_returns [OF assms(1)] this]
  show "wp (ss_push (curr_register_index s)) (\<lambda>_ s'. forwards L (ops @ [BP_Register (curr_register_index s)]) s' \<and>
         (\<forall>r. BP_Register r \<in> set ops \<longrightarrow> r < curr_register_index s))
       (\<lambda>_ _. curr_register_index s = U16_MAX) s"
    by simp
next
  have "wlp (set_lazy n) (\<lambda>spilled s'. case spilled of
           None \<Rightarrow> s' = s \<and> BP_Slot n \<notin> set ops
         | Some k \<Rightarrow> BP_Spill k \<notin> set ops \<and> forwards L (map (redirect n k) ops) s') s"
    by (rule wlp_spill_local [OF assms(1,2)]) simp_all
  from wp_wlp_conj [OF spill_returns [OF assms(1,2)] this]
  show "wp (set_lazy n) (\<lambda>spilled s'. case spilled of
           None \<Rightarrow> s' = s \<and> BP_Slot n \<notin> set ops
         | Some k \<Rightarrow> BP_Spill k \<notin> set ops \<and> forwards L (map (redirect n k) ops) s')
       (\<lambda>_ _. sp_allocation_len (spills s) = U16_MAX) s"
    by simp
qed

section \<open>The frame\<close>

lemma covers_layout:
  assumes "forwards L ops s"
    and "max_registers s + sp_allocation_len (spills s) + length (in_values (const_interner s)) \<le> U16_MAX"
  shows "covers (layout_of s) L s"
proof -
  obtain es where ok: "entries_ok L es s" using assms(1) by (auto simp: forwards_def)
  then show ?thesis
    using assms(2) forwards_registers [OF assms(1)] entries_locals_count [OF ok]
    by (simp add: covers_def layout_of_def frame_size_def)
qed

text \<open>C20: the places of a finished frame. Once the whole frame is within 16 bits, which the
  lowering checks before it resolves anything, every pending operand resolves without overflow to a
  slot inside the frame, and two operands resolve to the same slot only if they are the same:
  locals, constants, spill slots and registers do not overlap.\<close>

theorem operands_have_their_own_slots:
  assumes "forwards L ops s"
    and "max_registers s + sp_allocation_len (spills s) + length (in_values (const_interner s)) \<le> U16_MAX"
    and "x \<in> set ops" and "y \<in> set ops"
  shows "\<exists>i j. absolute_slot_in_frame x (fl_locals_count (layout_of s))
        (length (fl_consts (layout_of s))) (fl_spills (layout_of s)) = Ok i \<and>
      absolute_slot_in_frame y (fl_locals_count (layout_of s))
        (length (fl_consts (layout_of s))) (fl_spills (layout_of s)) = Ok j \<and>
      i < frame_size (layout_of s) \<and> (i = j \<longleftrightarrow> x = y)"
proof -
  let ?fl = "layout_of s"
  have c: "covers ?fl L s" by (rule covers_layout [OF assms(1,2)])
  then have fl: "fl_locals_count ?fl \<le> fl_registers ?fl" "frame_size ?fl \<le> U16_MAX"
    by (simp_all add: covers_def)
  have x: "placed ?fl x" and y: "placed ?fl y"
    using covered_operands [OF c assms(1)] assms(3,4) by blast+
  from absolute_slot_in_frame_eq [OF fl x] absolute_slot_in_frame_eq [OF fl y]
    slot_of_in_frame [OF fl(1) x] slot_of_inj [OF x y]
  show ?thesis by blast
qed

section \<open>Concrete runs\<close>

theorem simulated_stack_forwards_operands_witness:
  "wp (push_local 1) (\<lambda>_ s'. forwards 2 [BP_Slot 1] s') (\<lambda>_ _. False) (new_simulated_stack 2)"
  using simulated_stack_forwards_operands [OF forwards_new [of 2], of 1 "[]" "BP_Slot 0" "C_I32 7"]
  by (simp add: U16_MAX_def)

text \<open>A body of two locals that has pushed its second local and a constant.\<close>

definition demo_pending :: reg_lower_state where
  "demo_pending = (initial_reg_lower_state 0 0 2)
     \<lparr>ss_stack := \<lparr>backing = [SS_Local 0, SS_Const 0], stack_pointer = 2\<rparr>,
      lazy_locals := \<lparr>la_entries = [\<lparr>le_location = Original 1, le_ref_count = 1\<rparr>], la_origin = [None, Some 0]\<rparr>,
      const_interner := \<lparr>in_values = [C_I32 7], in_reverse_map = [C_I32 7 \<mapsto> 0]\<rparr>\<rparr>"

lemma demo_pending_forwards: "forwards 2 [BP_Slot 1, BP_Const 0] demo_pending"
proof (rule forwardsI)
  have two: "n < 2 \<longleftrightarrow> n = 0 \<or> n = Suc 0" for n :: nat by auto
  show "entries_ok 2 [SS_Local 0, SS_Const 0] demo_pending"
    by (auto simp: entries_ok_def demo_pending_def initial_reg_lower_state_def new_simulated_stack_def
        SimulatedStack.defs reg_lower_state.defs holds_def stack_inv_def live_def lazies_ok_def counts_ok_def
        origins_ok_def spills_ok_def spilled_slots_def lazy_at_def new_spill_arena_def interner_ok_def
        new_interner_def as_u16_def U16_MAX_def two)
qed (simp add: demo_pending_def lazy_at_def)

theorem operands_have_their_own_slots_witness:
  "\<exists>i j. absolute_slot_in_frame (BP_Slot 1) 2 1 0 = Ok i \<and> absolute_slot_in_frame (BP_Const 0) 2 1 0 = Ok j \<and>
     i \<noteq> j"
  using operands_have_their_own_slots [OF demo_pending_forwards, of "BP_Slot 1" "BP_Const 0"]
  by (simp add: demo_pending_def initial_reg_lower_state_def new_simulated_stack_def SimulatedStack.defs
      layout_of_def ss_locals_count_def new_spill_arena_def as_u16_def U16_MAX_def u16_add_def)

end
