(* ===== verification/RegMatching.thy ===== *)
theory RegMatching
  imports RegPlaces
begin

text \<open>
  The two machines on the code of one operator: where the operands of the one are in the places the
  other reads them from, the code the two lowerings emit keeps it so. What one machine does with no
  instruction at all (a forwarded local, a constant, a dropped operand) is a step of the other alone.
\<close>

section \<open>Straight code\<close>

text \<open>Instructions one after the other, each of which must fall through.\<close>

fun run_straight :: "('x \<Rightarrow> ('s, 'e, 'd Step) op) \<Rightarrow> 'x list \<Rightarrow> ('s, 'e, unit) op" where
  "run_straight ex [] = ret ()"
| "run_straight ex (x # xs) = bnd (ex x) (\<lambda>step. case step of Next \<Rightarrow> run_straight ex xs | _ \<Rightarrow> panic)"

lemma run_straight_append:
  fixes ex :: "'x \<Rightarrow> ('s, 'e, 'd Step) op"
  shows "run_straight ex (xs @ ys) = bnd (run_straight ex xs) (\<lambda>_. run_straight ex ys)"
proof (induction xs)
  case Nil
  show ?case by (rule ext) (simp add: bnd_def ret_def)
next
  case (Cons x xs)
  have "(\<lambda>step :: 'd Step. case step of Next \<Rightarrow> bnd (run_straight ex xs) (\<lambda>_. run_straight ex ys) | _ \<Rightarrow> panic) =
      (\<lambda>step. bnd (case step of Next \<Rightarrow> run_straight ex xs | _ \<Rightarrow> panic) (\<lambda>_. run_straight ex ys))"
    by (rule ext) (auto simp: bnd_def panic_def fun_eq_iff split: Step.splits)
  then show ?case by (simp only: append_Cons run_straight.simps Cons.IH bnd_assoc)
qed

abbreviation alike where
  "alike fl low cb ops \<equiv> paired (\<lambda>_ s _ t. matched fl low cb ops s t) same_env"

lemma alike_nil: "matched fl low cb ops s t \<Longrightarrow> alike fl low cb ops (run_straight ex []) s (run_straight ex' []) t"
  by (simp add: paired_ret)

lemma alike_both:
  assumes "matching fl low cb ops (ex x) s (ex' y) t"
  shows "alike fl low cb ops (run_straight ex [x]) s (run_straight ex' [y]) t"
  unfolding run_straight.simps
  by (rule paired_bnd [OF assms]) (auto simp: matched_after_def intro: paired_ret)

lemma alike_stack:
  assumes "ex x s = Ok (Next, s')" and "matched fl low cb ops s' t"
  shows "alike fl low cb ops (run_straight ex [x]) s (run_straight ex' []) t"
  unfolding run_straight.simps
  by (rule paired_left [where m = "ex x", OF assms(1)]) (simp add: paired_ret assms(2))

lemma alike_register:
  assumes "ex' y t = Ok (Next, t')" and "matched fl low cb ops s t'"
  shows "alike fl low cb ops (run_straight ex []) s (run_straight ex' [y]) t"
  unfolding run_straight.simps
  by (rule paired_right [where n = "ex' y", OF assms(1)]) (simp add: paired_ret assms(2))

lemma alike_append:
  assumes "alike fl low cb ops (run_straight ex xs) s (run_straight ex' ys) t"
    and "\<And>s' t'. matched fl low cb ops s' t' \<Longrightarrow>
      alike fl low cb ops' (run_straight ex xs') s' (run_straight ex' ys') t'"
  shows "alike fl low cb ops' (run_straight ex (xs @ xs')) s (run_straight ex' (ys @ ys')) t"
  unfolding run_straight_append by (rule paired_bnd [OF assms(1)]) (rule assms(2))

section \<open>Operands that emit nothing\<close>

lemma matched_push:
  assumes "matched fl low cb ops s t" and "placed fl x" and "place_value fl cb t x = v"
  shows "\<exists>s'. push_next v s = Ok (Next, s') \<and> matched fl low cb (ops @ [x]) s' t"
proof -
  note m = matchedD [OF assms(1)]
  obtain f where f: "push_value v s = Ok ((), s\<lparr>frame := f\<rparr>)"
    "holds f ((low @ map (place_value fl cb t) (locals_of fl @ ops)) @ [v])"
    using push_value_Ok [OF m(5)] .
  have "matched fl low cb (ops @ [x]) (s\<lparr>frame := f\<rparr>) t"
    using m f(2) assms(2,3) by (auto simp: matched_def)
  with f(1) show ?thesis by (auto simp: push_next_def bnd_eq ret_eq)
qed

lemma matched_drop:
  assumes "matched fl low cb (ops @ [x]) s t"
  shows "\<exists>s'. bnd pop_value (\<lambda>_. ret Next) s = Ok (Next, s') \<and> matched fl low cb ops s' t"
proof -
  note m = matchedD [OF assms]
  have "operands s ((low @ map (place_value fl cb t) (locals_of fl @ ops)) @ [place_value fl cb t x])"
    using m(5) by simp
  from pop_value_Ok [OF this] obtain f where f: "pop_value s = Ok (place_value fl cb t x, s\<lparr>frame := f\<rparr>)"
    "holds f (low @ map (place_value fl cb t) (locals_of fl @ ops))" .
  have "matched fl low cb ops (s\<lparr>frame := f\<rparr>) t"
    using m f(2) by (auto simp: matched_def)
  with f(1) show ?thesis by (auto simp: bnd_eq ret_eq)
qed

section \<open>Locals\<close>

lemma locals_nth: "n < fl_locals_count fl \<Longrightarrow>
    (low @ map f (locals_of fl) @ map f ops) ! (n + length low) = f (BP_Slot n)"
  by (simp add: nth_append locals_of_def)

lemma locals_update:
  assumes "n < fl_locals_count fl" and "\<And>y. y \<noteq> BP_Slot n \<Longrightarrow> y \<in> set (locals_of fl @ ops) \<Longrightarrow> g y = f y"
    and "g (BP_Slot n) = v" and "BP_Slot n \<notin> set ops"
  shows "(low @ map f (locals_of fl @ ops))[n + length low := v] = low @ map g (locals_of fl @ ops)"
proof (rule nth_equalityI)
  fix i assume i: "i < length ((low @ map f (locals_of fl @ ops))[n + length low := v])"
  let ?j = "i - length low"
  have at: "g ((locals_of fl @ ops) ! ?j) = (if i = n + length low then v else f ((locals_of fl @ ops) ! ?j))"
    if low: "length low \<le> i"
  proof (cases "?j < fl_locals_count fl")
    case True
    then have "(locals_of fl @ ops) ! ?j = BP_Slot ?j" by (simp add: nth_append locals_of_def)
    with low True assms show ?thesis by (auto simp: locals_of_def)
  next
    case False
    with i low have mem: "(locals_of fl @ ops) ! ?j \<in> set ops"
      by (auto simp: nth_append)
    with assms(4) have "(locals_of fl @ ops) ! ?j \<noteq> BP_Slot n" by metis
    with assms(1,2) mem False low show ?thesis by auto
  qed
  show "(low @ map f (locals_of fl @ ops))[n + length low := v] ! i = (low @ map g (locals_of fl @ ops)) ! i"
    using i at by (cases "i < length low") (auto simp: nth_append nth_list_update simp del: map_append)
qed simp

lemma matched_local_get:
  assumes "matched fl low cb ops s t" and "unat i < fl_locals_count fl"
    and "base_height cb' = length low" and "length low + fl_locals_count fl \<le> U32_MAX"
  shows "\<exists>s'. exec_local_get cb' i s = Ok (Next, s') \<and> matched fl low cb (ops @ [BP_Slot (unat i)]) s' t"
proof -
  have "exec_local_get cb' i s =
      push_next ((low @ map (place_value fl cb t) (locals_of fl @ ops)) ! (unat i + base_height cb')) s"
    by (rule local_get_eq [OF matchedD(5) [OF assms(1)]]) (use assms(2-4) in simp_all)
  with matched_push [OF assms(1), of "BP_Slot (unat i)"] assms(2,3) show ?thesis
    by (simp add: locals_nth)
qed

lemma matched_spill:
  assumes "matched fl low cb ops s t" and "unat i < fl_locals_count fl"
    and "placed fl (BP_Spill k)" and "BP_Spill k \<notin> set ops"
  shows "\<exists>t'. reg_exec_local_spill i k fl cb t = Ok (Next, t') \<and>
    matched fl low cb (map (redirect (unat i) k) ops) s t'"
proof -
  note m = matchedD [OF assms(1)]
  let ?n = "unat i"
  let ?t = "put_place fl cb (BP_Spill k) (place_value fl cb t (BP_Slot ?n)) t"
  have slot: "placed fl (BP_Slot ?n)" using assms(2) by simp
  have locals: "map (place_value fl cb ?t) (locals_of fl) = map (place_value fl cb t) (locals_of fl)"
    by (rule place_values_put [OF m(2) assms(3)]) (auto simp: locals_of_def)
  have "place_value fl cb ?t (redirect ?n k x) = place_value fl cb t x" if "x \<in> set ops" for x
    using place_value_put [OF m(2) assms(3)] m(4) that assms(3,4) by (auto simp: redirect_def)
  then have "map (place_value fl cb ?t) (map (redirect ?n k) ops) = map (place_value fl cb t) ops"
    by simp
  with locals have same: "map (place_value fl cb ?t) (locals_of fl @ map (redirect ?n k) ops) =
      map (place_value fl cb t) (locals_of fl @ ops)"
    by (simp only: map_append)
  have "placed fl (redirect ?n k x)" if "x \<in> set ops" for x
    using m(4) [OF that] assms(3) by (simp add: redirect_def)
  moreover have "operands s (low @ map (place_value fl cb ?t) (locals_of fl @ map (redirect ?n k) ops))"
    using m(5) by (simp only: same)
  ultimately have "matched fl low cb (map (redirect ?n k) ops) s ?t"
    using m assms(3) by (simp add: matched_def)
  with reg_local_spill_eq [OF m(2) slot assms(3)] show ?thesis by blast
qed

lemma matched_local_write:
  assumes "matched fl low cb (ops @ [x]) s t" and "unat i < fl_locals_count fl"
    and "BP_Slot (unat i) \<notin> set ops"
    and f: "holds f ((low @ map (place_value fl cb t) (locals_of fl @ ops))[unat i + length low := place_value fl cb t x])"
  shows "matched fl low cb ops (s\<lparr>frame := f\<rparr>) (put_place fl cb (BP_Slot (unat i)) (place_value fl cb t x) t)"
proof -
  note m = matchedD [OF assms(1)]
  let ?n = "unat i" and ?v = "place_value fl cb t x"
  let ?t = "put_place fl cb (BP_Slot ?n) ?v t"
  have slot: "placed fl (BP_Slot ?n)" using assms(2) by simp
  have "(low @ map (place_value fl cb t) (locals_of fl @ ops))[?n + length low := ?v] =
      low @ map (place_value fl cb ?t) (locals_of fl @ ops)"
    by (rule locals_update [OF assms(2)])
      (use place_value_put [OF m(2) slot] m(4) slot assms(3) in \<open>auto simp: locals_of_def split: if_splits\<close>)
  with m f slot show ?thesis by (simp add: matched_def)
qed

lemma matched_local_set:
  assumes "matched fl low cb (ops @ [x]) s t" and "unat i < fl_locals_count fl"
    and "BP_Slot (unat i) \<notin> set ops"
    and "base_height cb' = length low" and "length low + fl_locals_count fl \<le> U32_MAX"
  shows "\<exists>s' t'. exec_local_set cb' i s = Ok (Next, s') \<and>
    reg_exec_local_set i [slot_of fl x] cb t = Ok (Next, t') \<and> matched fl low cb ops s' t'"
proof -
  note m = matchedD [OF assms(1)]
  let ?vs = "low @ map (place_value fl cb t) (locals_of fl @ ops)"
  have "operands s (?vs @ [place_value fl cb t x])" using m(5) by simp
  from local_set_Ok [OF this, of i cb'] assms(2,4,5)
  obtain f where "exec_local_set cb' i s = Ok (Next, s\<lparr>frame := f\<rparr>)"
    and f: "holds f (?vs[unat i + length low := place_value fl cb t x])"
    by auto
  moreover have "reg_exec_local_set i [slot_of fl x] cb t =
      Ok (Next, put_place fl cb (BP_Slot (unat i)) (place_value fl cb t x) t)"
    by (rule reg_local_set_eq [OF m(2)]) (use assms(2) m(4) in simp_all)
  ultimately show ?thesis
    using matched_local_write [OF assms(1-3) f] by blast
qed

lemma matched_local_tee:
  assumes "matched fl low cb (ops @ [x]) s t" and "unat i < fl_locals_count fl"
    and "BP_Slot (unat i) \<notin> set (ops @ [x])"
    and "base_height cb' = length low" and "length low + fl_locals_count fl \<le> U32_MAX"
  shows "\<exists>s' t'. exec_local_tee cb' i s = Ok (Next, s') \<and>
    reg_exec_local_set i [slot_of fl x] cb t = Ok (Next, t') \<and> matched fl low cb (ops @ [x]) s' t'"
proof -
  note m = matchedD [OF assms(1)]
  let ?v = "place_value fl cb t x" and ?n = "unat i"
  let ?vs = "low @ map (place_value fl cb t) (locals_of fl @ ops)"
  let ?t = "put_place fl cb (BP_Slot ?n) ?v t"
  have slot: "placed fl (BP_Slot ?n)" using assms(2) by simp
  have "operands s (?vs @ [?v])" using m(5) by simp
  from local_tee_Ok [OF this, of i cb'] assms(2,4,5)
  obtain f where exec: "exec_local_tee cb' i s = Ok (Next, s\<lparr>frame := f\<rparr>)"
    and f: "holds f (?vs[?n + length low := ?v] @ [?v])"
    by auto
  have "place_value fl cb ?t x = ?v"
    using place_value_put [OF m(2) slot, of x] m(4) by simp
  moreover have "?vs[?n + length low := ?v] = low @ map (place_value fl cb ?t) (locals_of fl @ ops)"
    by (rule locals_update [OF assms(2)])
      (use place_value_put [OF m(2) slot] m(4) slot assms(3) in \<open>auto simp: locals_of_def split: if_splits\<close>)
  ultimately have "matched fl low cb (ops @ [x]) (s\<lparr>frame := f\<rparr>) ?t"
    using m f slot by (simp add: matched_def)
  moreover have "reg_exec_local_set i [slot_of fl x] cb t = Ok (Next, ?t)"
    by (rule reg_local_set_eq [OF m(2) slot]) (use m(4) in simp)
  ultimately show ?thesis using exec by blast
qed

end
