(* ===== verification/RegResolve.thy ===== *)
theory RegResolve
  imports RegPlaces
begin

text \<open>
  The pass that resolves the recorded operands (\<open>backpatch.rs\<close>, \<open>BackpatchMap::apply\<close>). It visits
  the instructions one by one, in the order of a hash map; since every instruction owns its arena
  entry, an instruction of the finished body is what its own recorded runs make of it alone.
\<close>

section \<open>Arena entries\<close>

datatype arena_ref =
  A_None | A_If nat | A_BrIf nat | A_BrTable nat | A_CallIndirect nat | A_Select nat | A_MemoryInit nat
| A_Move nat

fun ref_of :: "RegInstruction \<Rightarrow> arena_ref" where
  "ref_of (RIf eid) = A_If eid"
| "ref_of (RBrIf eid) = A_BrIf eid"
| "ref_of (RBrTable eid) = A_BrTable eid"
| "ref_of (RCallIndirect eid) = A_CallIndirect eid"
| "ref_of (RSelect eid) = A_Select eid"
| "ref_of (RMemoryInit eid) = A_MemoryInit eid"
| "ref_of (RMove eid) = A_Move eid"
| "ref_of _ = A_None"

fun same_entry :: "arena_ref \<Rightarrow> RegFrameLayout \<Rightarrow> RegFrameLayout \<Rightarrow> bool" where
  "same_entry A_None fl fl' = True"
| "same_entry (A_If i) fl fl' = (fl_if_arena fl ! i = fl_if_arena fl' ! i)"
| "same_entry (A_BrIf i) fl fl' = (fl_br_if_arena fl ! i = fl_br_if_arena fl' ! i)"
| "same_entry (A_BrTable i) fl fl' = (fl_br_table_arena fl ! i = fl_br_table_arena fl' ! i)"
| "same_entry (A_CallIndirect i) fl fl' = (fl_call_indirect_arena fl ! i = fl_call_indirect_arena fl' ! i)"
| "same_entry (A_Select i) fl fl' = (fl_select_arena fl ! i = fl_select_arena fl' ! i)"
| "same_entry (A_MemoryInit i) fl fl' = (fl_memory_init_arena fl ! i = fl_memory_init_arena fl' ! i)"
| "same_entry (A_Move i) fl fl' = (fl_dyn_signatures fl ! i = fl_dyn_signatures fl' ! i)"

lemma same_entry_refl [simp]: "same_entry r fl fl"
  by (cases r) simp_all

lemma same_entry_trans: "same_entry r fl fl' \<Longrightarrow> same_entry r fl' fl'' \<Longrightarrow> same_entry r fl fl''"
  by (cases r) simp_all

fun in_arena :: "arena_ref \<Rightarrow> RegFrameLayout \<Rightarrow> bool" where
  "in_arena A_None fl = True"
| "in_arena (A_If i) fl = (i < length (fl_if_arena fl))"
| "in_arena (A_BrIf i) fl = (i < length (fl_br_if_arena fl))"
| "in_arena (A_BrTable i) fl = (i < length (fl_br_table_arena fl))"
| "in_arena (A_CallIndirect i) fl = (i < length (fl_call_indirect_arena fl))"
| "in_arena (A_Select i) fl = (i < length (fl_select_arena fl))"
| "in_arena (A_MemoryInit i) fl = (i < length (fl_memory_init_arena fl))"
| "in_arena (A_Move i) fl = (i < length (fl_dyn_signatures fl))"

text \<open>What the resolving pass changes of a layout: the contents of arenas, never their sizes.\<close>

definition same_shape :: "RegFrameLayout \<Rightarrow> RegFrameLayout \<Rightarrow> bool" where
  "same_shape fl fl' \<longleftrightarrow> fl_registers fl' = fl_registers fl \<and> fl_spills fl' = fl_spills fl \<and>
     fl_locals_count fl' = fl_locals_count fl \<and> fl_consts fl' = fl_consts fl \<and>
     fl_memory_offsets fl' = fl_memory_offsets fl \<and> (\<forall>r. in_arena r fl' = in_arena r fl)"

lemma same_shape_refl [simp]: "same_shape fl fl"
  by (simp add: same_shape_def)

lemma same_shape_trans: "same_shape fl fl' \<Longrightarrow> same_shape fl' fl'' \<Longrightarrow> same_shape fl fl''"
  by (simp add: same_shape_def)

definition touches :: "arena_ref \<Rightarrow> RegFrameLayout \<Rightarrow> RegFrameLayout \<Rightarrow> bool" where
  "touches r fl fl' \<longleftrightarrow> same_shape fl fl' \<and> (\<forall>r'. r' \<noteq> r \<longrightarrow> same_entry r' fl fl')"

lemma touches_refl [simp]: "touches r fl fl"
  by (simp add: touches_def)

lemma touches_update [simp]:
  "touches (A_If i) fl (fl\<lparr>fl_if_arena := (fl_if_arena fl)[i := a]\<rparr>)"
  "touches (A_BrIf i) fl (fl\<lparr>fl_br_if_arena := (fl_br_if_arena fl)[i := b]\<rparr>)"
  "touches (A_BrTable i) fl (fl\<lparr>fl_br_table_arena := (fl_br_table_arena fl)[i := c]\<rparr>)"
  "touches (A_CallIndirect i) fl (fl\<lparr>fl_call_indirect_arena := (fl_call_indirect_arena fl)[i := d]\<rparr>)"
  "touches (A_Select i) fl (fl\<lparr>fl_select_arena := (fl_select_arena fl)[i := e]\<rparr>)"
  "touches (A_MemoryInit i) fl (fl\<lparr>fl_memory_init_arena := (fl_memory_init_arena fl)[i := f]\<rparr>)"
  "touches (A_Move i) fl (fl\<lparr>fl_dyn_signatures := (fl_dyn_signatures fl)[i := g]\<rparr>)"
proof -
  have shape: "same_shape fl fl' \<longleftrightarrow> fl_registers fl' = fl_registers fl \<and> fl_spills fl' = fl_spills fl \<and>
     fl_locals_count fl' = fl_locals_count fl \<and> fl_consts fl' = fl_consts fl \<and>
     fl_memory_offsets fl' = fl_memory_offsets fl" if "\<And>r. in_arena r fl' = in_arena r fl" for fl'
    using that by (simp add: same_shape_def)
  have each: "touches r fl fl'" if "\<And>r. in_arena r fl' = in_arena r fl"
    "fl_registers fl' = fl_registers fl" "fl_spills fl' = fl_spills fl" "fl_locals_count fl' = fl_locals_count fl"
    "fl_consts fl' = fl_consts fl" "fl_memory_offsets fl' = fl_memory_offsets fl"
    "\<And>r'. r' \<noteq> r \<Longrightarrow> same_entry r' fl fl'" for r fl'
    using that by (simp add: touches_def shape)
  have arena: "in_arena r (fl\<lparr>fl_if_arena := (fl_if_arena fl)[i := a]\<rparr>) = in_arena r fl"
    "in_arena r (fl\<lparr>fl_br_if_arena := (fl_br_if_arena fl)[i := b]\<rparr>) = in_arena r fl"
    "in_arena r (fl\<lparr>fl_br_table_arena := (fl_br_table_arena fl)[i := c]\<rparr>) = in_arena r fl"
    "in_arena r (fl\<lparr>fl_call_indirect_arena := (fl_call_indirect_arena fl)[i := d]\<rparr>) = in_arena r fl"
    "in_arena r (fl\<lparr>fl_select_arena := (fl_select_arena fl)[i := e]\<rparr>) = in_arena r fl"
    "in_arena r (fl\<lparr>fl_memory_init_arena := (fl_memory_init_arena fl)[i := f]\<rparr>) = in_arena r fl"
    "in_arena r (fl\<lparr>fl_dyn_signatures := (fl_dyn_signatures fl)[i := g]\<rparr>) = in_arena r fl" for r
    by (cases r; simp)+
  have entry: "r \<noteq> A_If i \<Longrightarrow> same_entry r fl (fl\<lparr>fl_if_arena := (fl_if_arena fl)[i := a]\<rparr>)"
    "r \<noteq> A_BrIf i \<Longrightarrow> same_entry r fl (fl\<lparr>fl_br_if_arena := (fl_br_if_arena fl)[i := b]\<rparr>)"
    "r \<noteq> A_BrTable i \<Longrightarrow> same_entry r fl (fl\<lparr>fl_br_table_arena := (fl_br_table_arena fl)[i := c]\<rparr>)"
    "r \<noteq> A_CallIndirect i \<Longrightarrow> same_entry r fl (fl\<lparr>fl_call_indirect_arena := (fl_call_indirect_arena fl)[i := d]\<rparr>)"
    "r \<noteq> A_Select i \<Longrightarrow> same_entry r fl (fl\<lparr>fl_select_arena := (fl_select_arena fl)[i := e]\<rparr>)"
    "r \<noteq> A_MemoryInit i \<Longrightarrow> same_entry r fl (fl\<lparr>fl_memory_init_arena := (fl_memory_init_arena fl)[i := f]\<rparr>)"
    "r \<noteq> A_Move i \<Longrightarrow> same_entry r fl (fl\<lparr>fl_dyn_signatures := (fl_dyn_signatures fl)[i := g]\<rparr>)" for r
    by (cases r; simp)+
  show "touches (A_If i) fl (fl\<lparr>fl_if_arena := (fl_if_arena fl)[i := a]\<rparr>)"
    "touches (A_BrIf i) fl (fl\<lparr>fl_br_if_arena := (fl_br_if_arena fl)[i := b]\<rparr>)"
    "touches (A_BrTable i) fl (fl\<lparr>fl_br_table_arena := (fl_br_table_arena fl)[i := c]\<rparr>)"
    "touches (A_CallIndirect i) fl (fl\<lparr>fl_call_indirect_arena := (fl_call_indirect_arena fl)[i := d]\<rparr>)"
    "touches (A_Select i) fl (fl\<lparr>fl_select_arena := (fl_select_arena fl)[i := e]\<rparr>)"
    "touches (A_MemoryInit i) fl (fl\<lparr>fl_memory_init_arena := (fl_memory_init_arena fl)[i := f]\<rparr>)"
    "touches (A_Move i) fl (fl\<lparr>fl_dyn_signatures := (fl_dyn_signatures fl)[i := g]\<rparr>)"
    by (rule each; simp add: arena entry)+
qed

section \<open>One instruction\<close>

lemma apply_patches_touches:
  assumes "apply_patches L K S ps x fl = Ok (y, fl')"
  shows "touches (ref_of x) fl fl' \<and> ref_of y = ref_of x"
proof (cases x)
  case (RLocalTee i inp)
  with assms show ?thesis
    by (auto simp: and_then_eq_Ok split: list.splits prod.splits InstructionSource.splits)
qed (use assms in \<open>auto simp: and_then_eq_Ok\<close>)

lemma resolve_run_eq:
  "resolve_run ys (fl_locals_count fl) (length (fl_consts fl)) (fl_spills fl) = Ok is \<Longrightarrow> is = map (slot_of fl) ys"
  by (induction ys arbitrary: "is") (auto simp: and_then_eq_Ok dest: absolute_slot_of)

section \<open>The whole body\<close>

definition patches_of :: "BackpatchMap \<Rightarrow> nat \<Rightarrow> patches" where
  "patches_of m i = (case map_of m i of None \<Rightarrow> [] | Some ps \<Rightarrow> ps)"

lemma patches_of_record: "patches_of (record_patch i p m) j = patches_of m j @ (if j = i then [p] else [])"
  by (induction m) (auto simp: patches_of_def)

lemma record_patch_keys: "map fst (record_patch i p m) = (if i \<in> set (map fst m) then map fst m else map fst m @ [i])"
  by (induction m) (auto split: if_splits simp: image_iff Bex_def)

lemma record_patch_nonempty: "[] \<notin> set (map snd m) \<Longrightarrow> [] \<notin> set (map snd (record_patch i p m))"
  by (induction m) (fastforce split: if_splits)+

text \<open>\<open>settled fl ps x fl0 y\<close>: the instruction \<open>x\<close> with the recorded runs \<open>ps\<close> and its entry in the
  layout \<open>fl0\<close> has become \<open>y\<close> with its entry in the finished layout \<open>fl\<close>.\<close>

definition settled ::
    "RegFrameLayout \<Rightarrow> patches \<Rightarrow> RegInstruction \<Rightarrow> RegFrameLayout \<Rightarrow> RegInstruction \<Rightarrow> bool" where
  "settled fl ps x fl0 y \<longleftrightarrow> (if ps = [] then y = x \<and> same_entry (ref_of x) fl0 fl
      else \<exists>fl1 fl2. apply_patches (fl_locals_count fl) (length (fl_consts fl)) (fl_spills fl) ps x fl1 =
          (Ok (y, fl2) :: (TraceWasmError, _) result) \<and>
        same_entry (ref_of x) fl0 fl1 \<and> same_entry (ref_of x) fl2 fl \<and> same_shape fl1 fl)"

definition owned :: "RegInstruction list \<Rightarrow> bool" where
  "owned instrs \<longleftrightarrow> (\<forall>i < length instrs. \<forall>j < length instrs. i \<noteq> j \<longrightarrow>
     ref_of (instrs ! i) = ref_of (instrs ! j) \<longrightarrow> ref_of (instrs ! i) = A_None)"

lemma owned_update:
  assumes "owned instrs" and "ref_of y = ref_of (instrs ! k)"
  shows "owned (instrs[k := y])"
proof (cases "k < length instrs")
  case True
  have "ref_of (instrs[k := y] ! i) = ref_of (instrs ! i)" if "i < length instrs" for i
    using True that assms(2) by (auto simp: nth_list_update)
  with assms(1) show ?thesis by (simp add: owned_def)
qed (use assms(1) in \<open>simp add: list_update_beyond\<close>)

lemma apply_backpatches_settles:
  fixes instrs' :: "RegInstruction list"
  assumes "distinct (map fst m)" and "owned instrs" and "[] \<notin> set (map snd m)"
    and "apply_backpatches L K S m instrs fl0 = (Ok (instrs', fl) :: (TraceWasmError, _) result)"
    and "L = fl_locals_count fl0" "K = length (fl_consts fl0)" "S = fl_spills fl0"
  shows "length instrs' = length instrs \<and> same_shape fl0 fl \<and>
    (\<forall>i < length instrs. settled fl (patches_of m i) (instrs ! i) fl0 (instrs' ! i))"
  using assms
proof (induction m arbitrary: instrs fl0)
  case Nil
  then show ?case by (simp add: settled_def patches_of_def)
next
  case (Cons q m)
  obtain k ps where q: "q = (k, ps)" by (cases q)
  with Cons.prems(4) obtain y fl1 where k: "k < length instrs"
    and y: "apply_patches L K S ps (instrs ! k) fl0 = (Ok (y, fl1) :: (TraceWasmError, _) result)"
    and rest: "apply_backpatches L K S m (instrs[k := y]) fl1 = (Ok (instrs', fl) :: (TraceWasmError, _) result)"
    by (auto simp: and_then_eq_Ok)
  from apply_patches_touches [OF y] have ref: "ref_of y = ref_of (instrs ! k)"
    and shape1: "same_shape fl0 fl1"
    and others: "\<And>r. r \<noteq> ref_of (instrs ! k) \<Longrightarrow> same_entry r fl0 fl1"
    by (auto simp: touches_def)
  have LKS: "L = fl_locals_count fl1" "K = length (fl_consts fl1)" "S = fl_spills fl1"
    using Cons.prems(5-7) shape1 by (simp_all add: same_shape_def)
  have k_new: "k \<notin> set (map fst m)" using Cons.prems(1) q by simp
  from Cons.IH [OF _ owned_update [OF Cons.prems(2) ref] _ rest LKS] Cons.prems(1,3)
  have len: "length instrs' = length instrs" and shape: "same_shape fl1 fl"
    and settled: "\<And>i. i < length instrs \<Longrightarrow> settled fl (patches_of m i) (instrs[k := y] ! i) fl1 (instrs' ! i)"
    by simp_all
  have fl: "fl_locals_count fl = L" "length (fl_consts fl) = K" "fl_spills fl = S"
    using shape LKS by (simp_all add: same_shape_def)
  note shape0 = same_shape_trans [OF shape1 shape]
  have "settled fl (patches_of (q # m) i) (instrs ! i) fl0 (instrs' ! i)" if i: "i < length instrs" for i
  proof (cases "i = k")
    case True
    have "patches_of m k = []"
      using k_new by (simp add: patches_of_def map_of_eq_None_iff [THEN iffD2])
    with settled [OF i] True k have end_: "instrs' ! k = y" "same_entry (ref_of (instrs ! k)) fl1 fl"
      by (simp_all add: settled_def ref)
    have "ps \<noteq> []" using Cons.prems(3) q by auto
    have "apply_patches (fl_locals_count fl) (length (fl_consts fl)) (fl_spills fl) ps (instrs ! k) fl0 =
        (Ok (instrs' ! k, fl1) :: (TraceWasmError, _) result)"
      using y end_(1) by (simp add: fl)
    moreover have "same_entry (ref_of (instrs ! k)) fl0 fl0" by simp
    ultimately show ?thesis
      using end_(2) shape0 \<open>ps \<noteq> []\<close> unfolding True settled_def patches_of_def q
      by (simp only: map_of.simps fst_conv snd_conv option.case fun_upd_same if_True if_False simp_thms) blast
  next
    case False
    have entry: "same_entry (ref_of (instrs ! i)) fl0 fl1"
    proof (cases "ref_of (instrs ! i) = ref_of (instrs ! k)")
      case True
      with Cons.prems(2) i k False have "ref_of (instrs ! i) = A_None" by (simp add: owned_def)
      then show ?thesis by simp
    qed (use others in simp)
    from settled [OF i] False have "settled fl (patches_of m i) (instrs ! i) fl1 (instrs' ! i)" by simp
    with entry shape0 have "settled fl (patches_of m i) (instrs ! i) fl0 (instrs' ! i)"
      by (auto simp: settled_def split: if_splits intro: same_entry_trans)
    then show ?thesis using False by (simp add: patches_of_def q)
  qed
  with len shape0 show ?case by simp
qed

end
