(* ===== verification/RegStraight.thy ===== *)
theory RegStraight
  imports RegMatching RegResolve "HOL-Library.Sublist"
begin

text \<open>
  The compilation of straight code: what lowering one operator adds to the pass, and what the code
  it has added does once it is resolved. \<open>compiles\<close> relates the state before and after, the operands
  the simulated stack forwards, and the instructions of the stack machine for the same operators.
\<close>

section \<open>How the pass grows\<close>

definition allocs_to :: "reg_lower_state \<Rightarrow> reg_lower_state \<Rightarrow> bool" where
  "allocs_to s s' \<longleftrightarrow> prefix (in_values (const_interner s)) (in_values (const_interner s')) \<and>
     prefix (in_values (memory_offsets s)) (in_values (memory_offsets s')) \<and>
     prefix (select_arena s) (select_arena s') \<and> prefix (memory_init_arena s) (memory_init_arena s') \<and>
     prefix (dyn_signatures s) (dyn_signatures s') \<and> prefix (if_arena s) (if_arena s') \<and>
     prefix (br_if_arena s) (br_if_arena s') \<and> prefix (br_table_arena s) (br_table_arena s') \<and>
     prefix (call_indirect_arena s) (call_indirect_arena s') \<and> max_registers s \<le> max_registers s' \<and>
     sp_allocation_len (spills s) \<le> sp_allocation_len (spills s')"

definition grows_to :: "reg_lower_state \<Rightarrow> reg_lower_state \<Rightarrow> bool" where
  "grows_to s s' \<longleftrightarrow> allocs_to s s' \<and> prefix (rl_instructions s) (rl_instructions s') \<and>
     (\<forall>i < length (rl_instructions s). patches_of (backpatch_map s') i = patches_of (backpatch_map s) i)"

lemma allocs_to_refl [simp]: "allocs_to s s"
  by (simp add: allocs_to_def)

lemma grows_to_refl [simp]: "grows_to s s"
  by (simp add: grows_to_def)

lemma allocs_to_trans: "allocs_to s t \<Longrightarrow> allocs_to t u \<Longrightarrow> allocs_to s u"
  unfolding allocs_to_def by (meson prefix_order.trans le_trans)

lemma grows_to_length: "grows_to s t \<Longrightarrow> length (rl_instructions s) \<le> length (rl_instructions t)"
  by (auto simp: grows_to_def dest: prefix_length_le)

lemma grows_to_trans: "grows_to s t \<Longrightarrow> grows_to t u \<Longrightarrow> grows_to s u"
  using grows_to_length [of s t] unfolding grows_to_def by (auto intro: allocs_to_trans prefix_order.trans)

lemma prefix_nth: "prefix xs ys \<Longrightarrow> i < length xs \<Longrightarrow> ys ! i = xs ! i"
  by (auto simp: prefix_def nth_append)

lemma grows_to_nth: "grows_to s t \<Longrightarrow> i < length (rl_instructions s) \<Longrightarrow> rl_instructions t ! i = rl_instructions s ! i"
  by (auto simp: grows_to_def intro: prefix_nth)

lemma allocs_to_entry: "allocs_to s t \<Longrightarrow> in_arena r (layout_of s) \<Longrightarrow> same_entry r (layout_of s) (layout_of t)"
  by (cases r) (auto simp: allocs_to_def layout_of_def prefix_nth)

lemma allocs_to_in_arena: "allocs_to s t \<Longrightarrow> in_arena r (layout_of s) \<Longrightarrow> in_arena r (layout_of t)"
  by (cases r) (auto simp: allocs_to_def layout_of_def dest: prefix_length_le)

lemma restacked_allocs:
  assumes "restacked s t"
  shows "allocs_to s t" "rl_instructions t = rl_instructions s" "rl_offsets t = rl_offsets s"
    "dead_code t = dead_code s" "dead_blocks t = dead_blocks s" "call_instr_backpatches t = call_instr_backpatches s"
    "ss_control_stack t = ss_control_stack s"
  using restackedD [OF assms] by (cases s; cases t; simp add: allocs_to_def)+

text \<open>What straight code never touches, and what one emitted instruction adds.\<close>

abbreviation rest_of :: "reg_lower_state \<Rightarrow> bool \<times> Label list \<times> (nat \<times> nat) list" where
  "rest_of s \<equiv> (dead_code s, ss_control_stack s, call_instr_backpatches s)"

abbreviation adds :: "RegInstruction \<Rightarrow> reg_lower_state \<Rightarrow> reg_lower_state \<Rightarrow> bool" where
  "adds z s s' \<equiv> rl_instructions s' = rl_instructions s @ [z] \<and> length (rl_offsets s') = Suc (length (rl_offsets s))"

abbreviation adds_none :: "reg_lower_state \<Rightarrow> reg_lower_state \<Rightarrow> bool" where
  "adds_none s s' \<equiv> rl_instructions s' = rl_instructions s \<and> length (rl_offsets s') = length (rl_offsets s)"

lemma covers_before: "allocs_to s t \<Longrightarrow> covers fl L t \<Longrightarrow> covers fl L s"
  by (auto simp: covers_def allocs_to_def prefix_def)

section \<open>The recorded runs\<close>

definition code_ok :: "reg_lower_state \<Rightarrow> bool" where
  "code_ok s \<longleftrightarrow> distinct (map fst (backpatch_map s)) \<and> [] \<notin> set (map snd (backpatch_map s)) \<and>
     (\<forall>i \<in> set (map fst (backpatch_map s)). i < length (rl_instructions s)) \<and>
     owned (rl_instructions s) \<and> length (rl_offsets s) = length (rl_instructions s) \<and> (\<forall>x \<in> set (rl_instructions s). in_arena (ref_of x) (layout_of s))"

lemma owned_snoc:
  assumes "owned xs" and "ref_of x = A_None \<or> (\<forall>y \<in> set xs. ref_of y \<noteq> ref_of x)"
  shows "owned (xs @ [x])"
  using assms by (auto simp: owned_def nth_append less_Suc_eq)

lemma patches_of_new: "(\<forall>i \<in> set (map fst m). i < n) \<Longrightarrow> patches_of m n = []"
  using map_of_eq_None_iff [of m n] by (auto simp: patches_of_def)

text \<open>One more instruction, with its operands recorded or without any.\<close>

lemma code_ok_emitted:
  assumes "code_ok s" and "allocs_to s s'" and "adds z s s'"
    and "backpatch_map s' = record_patch (length (rl_instructions s)) patch (backpatch_map s)"
    and "ref_of z = A_None \<or> in_arena (ref_of z) (layout_of s') \<and> \<not> in_arena (ref_of z) (layout_of s)"
  shows "code_ok s' \<and> grows_to s s' \<and> patches_of (backpatch_map s') (length (rl_instructions s)) = [patch]"
proof -
  note instrs = assms(3) [THEN conjunct1]
  let ?n = "length (rl_instructions s)" and ?m = "backpatch_map s"
  have keys: "\<forall>i \<in> set (map fst ?m). i < ?n" using assms(1) by (simp add: code_ok_def)
  then have new: "?n \<notin> set (map fst ?m)" by blast
  have keys': "map fst (backpatch_map s') = map fst ?m @ [?n]"
    using new by (simp add: assms(4) record_patch_keys)
  have "owned (rl_instructions s @ [z])"
    using assms(1,5) by (intro owned_snoc) (auto simp: code_ok_def)
  moreover have "in_arena (ref_of x) (layout_of s')" if "x \<in> set (rl_instructions s @ [z])" for x
    using that assms(1,5) allocs_to_in_arena [OF assms(2)] by (auto simp: code_ok_def)
  moreover have "distinct (map fst (backpatch_map s'))"
    using assms(1) new by (simp add: keys' code_ok_def)
  moreover have "\<forall>i \<in> set (map fst (backpatch_map s')). i < length (rl_instructions s')"
    using keys unfolding keys' instrs by auto
  moreover have "[] \<notin> set (map snd (backpatch_map s'))"
    unfolding assms(4) by (rule record_patch_nonempty) (use assms(1) in \<open>simp add: code_ok_def\<close>)
  moreover have "length (rl_offsets s') = length (rl_instructions s')"
    using assms(1,3) by (simp add: code_ok_def)
  ultimately have "code_ok s'" unfolding code_ok_def instrs by blast
  moreover have "grows_to s s'"
    using assms(2) by (simp add: grows_to_def instrs assms(4) patches_of_record)
  moreover have "patches_of (backpatch_map s') ?n = [patch]"
    using patches_of_new [OF keys] by (simp add: assms(4) patches_of_record)
  ultimately show ?thesis by blast
qed

lemma code_ok_plain:
  assumes "code_ok s" and "allocs_to s s'" and "adds z s s'"
    and "backpatch_map s' = backpatch_map s" and "ref_of z = A_None"
  shows "code_ok s' \<and> grows_to s s' \<and> patches_of (backpatch_map s') (length (rl_instructions s)) = []"
proof -
  note instrs = assms(3) [THEN conjunct1]
  have "owned (rl_instructions s @ [z])"
    using assms(1,5) by (intro owned_snoc) (auto simp: code_ok_def)
  moreover have "in_arena (ref_of x) (layout_of s')" if "x \<in> set (rl_instructions s @ [z])" for x
    using that assms(1,5) allocs_to_in_arena [OF assms(2)] by (auto simp: code_ok_def)
  moreover have keys: "\<forall>i \<in> set (map fst (backpatch_map s)). i < length (rl_instructions s)"
    using assms(1) by (simp add: code_ok_def)
  ultimately have "code_ok s'"
    using assms(1,3) unfolding code_ok_def assms(4) by auto
  with keys assms(2) show ?thesis
    by (simp add: grows_to_def instrs assms(4) patches_of_new)
qed

lemma code_ok_same:
  "code_ok s \<Longrightarrow> allocs_to s s' \<Longrightarrow> adds_none s s' \<Longrightarrow> backpatch_map s' = backpatch_map s \<Longrightarrow>
     code_ok s' \<and> grows_to s s'"
  using allocs_to_in_arena [of s s'] by (simp add: code_ok_def grows_to_def)

text \<open>The instruction \<open>y\<close> of the finished body with the layout \<open>fl\<close> is what the pass makes of its
  \<open>i\<close>th instruction.\<close>

definition settles :: "RegFrameLayout \<Rightarrow> reg_lower_state \<Rightarrow> nat \<Rightarrow> RegInstruction \<Rightarrow> bool" where
  "settles fl s i y \<longleftrightarrow>
     settled fl (patches_of (backpatch_map s) i) (rl_instructions s ! i) (layout_of s) y"

lemma settles_before:
  assumes "grows_to s t" and "code_ok s" and i: "i < length (rl_instructions s)" and "settles fl t i y"
  shows "settles fl s i y"
proof -
  let ?x = "rl_instructions s ! i"
  have "in_arena (ref_of ?x) (layout_of s)" using assms(2) i by (simp add: code_ok_def)
  then have entry: "same_entry (ref_of ?x) (layout_of s) (layout_of t)"
    using assms(1) by (simp add: grows_to_def allocs_to_entry)
  have "patches_of (backpatch_map t) i = patches_of (backpatch_map s) i" "rl_instructions t ! i = ?x"
    using assms(1) i grows_to_nth [OF assms(1) i] by (simp_all add: grows_to_def)
  with assms(4) entry show ?thesis
    by (auto simp: settles_def settled_def split: if_splits intro: same_entry_trans)
qed

section \<open>Compiled code\<close>

definition finished ::
    "RegFrameLayout \<Rightarrow> reg_lower_state \<Rightarrow> reg_lower_state \<Rightarrow> RegInstruction list \<Rightarrow> bool" where
  "finished fl s s' rcode \<longleftrightarrow>
     length (rl_instructions s') = length (rl_instructions s) + length rcode \<and>
     (\<forall>k < length rcode. settles fl s' (length (rl_instructions s) + k) (rcode ! k))"

type_synonym ('m, 'i) stack_side = "StackInstruction \<Rightarrow> ('m, 'i) arm"
type_synonym ('m, 'i) register_side = "RegFrameLayout \<Rightarrow> RegInstruction \<Rightarrow> ('m, 'i) reg_arm"

definition compiles ::
    "('m, 'i) stack_side \<Rightarrow> ('m, 'i) register_side \<Rightarrow> Value list \<Rightarrow> RegCallerBaseData \<Rightarrow> nat \<Rightarrow>
     BackPatchableSlot list \<Rightarrow> reg_lower_state \<Rightarrow> StackInstruction list \<Rightarrow>
     BackPatchableSlot list \<Rightarrow> reg_lower_state \<Rightarrow> bool" where
  "compiles exS exR low cb L ops s scode ops' s' \<longleftrightarrow>
     grows_to s s' \<and> code_ok s' \<and> forwards L ops' s' \<and> length ops' \<le> length ops + length scode \<and>
     (\<forall>fl rcode sS t. covers fl L s' \<longrightarrow> finished fl s s' rcode \<longrightarrow> matched fl low cb ops sS t \<longrightarrow>
        alike fl low cb ops' (run_straight exS scode) sS (run_straight (exR fl) rcode) t)"

lemma compiles_nil:
  assumes "forwards L ops s" and "code_ok s"
  shows "compiles exS exR low cb L ops s [] ops s"
  using assms by (auto simp: compiles_def finished_def paired_ret)

lemma compiles_append:
  assumes "compiles exS exR low cb L ops s scode ops1 s1" and "compiles exS exR low cb L ops1 s1 scode' ops2 s2"
  shows "compiles exS exR low cb L ops s (scode @ scode') ops2 s2"
proof -
  note c1 = assms(1) [unfolded compiles_def] and c2 = assms(2) [unfolded compiles_def]
  have grows: "grows_to s s1" "grows_to s1 s2" "code_ok s1" using c1 c2 by simp_all
  let ?n = "length (rl_instructions s1) - length (rl_instructions s)"
  have "alike fl low cb ops2 (run_straight exS (scode @ scode')) sS (run_straight (exR fl) rcode) t"
    if c: "covers fl L s2" and f: "finished fl s s2 rcode" and m: "matched fl low cb ops sS t" for fl rcode sS t
  proof -
    have len: "length (rl_instructions s) \<le> length (rl_instructions s1)"
      "length (rl_instructions s1) \<le> length (rl_instructions s2)"
      using grows by (simp_all add: grows_to_length)
    have settles: "settles fl s2 (length (rl_instructions s) + k) (rcode ! k)" if "k < length rcode" for k
      using f that by (simp add: finished_def)
    have total: "length (rl_instructions s2) = length (rl_instructions s) + length rcode"
      using f by (simp add: finished_def)
    then have n: "?n \<le> length rcode" using len by simp
    have "finished fl s s1 (take ?n rcode)"
    proof -
      have "settles fl s1 (length (rl_instructions s) + k) (rcode ! k)" if "k < ?n" for k
        using that n len settles [of k] by (intro settles_before [OF grows(2,3)]) simp_all
      with n len show ?thesis by (simp add: finished_def)
    qed
    moreover have "finished fl s1 s2 (drop ?n rcode)"
    proof -
      have "settles fl s2 (length (rl_instructions s1) + k) (rcode ! (?n + k))" if "?n + k < length rcode" for k
        using settles [OF that] len by simp
      with n len total show ?thesis by (simp add: finished_def)
    qed
    moreover have "covers fl L s1"
      using c grows(2) covers_before by (auto simp: grows_to_def)
    ultimately have "alike fl low cb ops2 (run_straight exS (scode @ scode')) sS
        (run_straight (exR fl) (take ?n rcode @ drop ?n rcode)) t"
      using c1 c2 c m by (intro alike_append [where ops = ops1]) blast+
    then show ?thesis by simp
  qed
  with c1 c2 grows grows_to_trans show ?thesis by (auto simp: compiles_def)
qed

end
