(* ===== verification/RegEmission.thy ===== *)
theory RegEmission
  imports RegStraight
begin

text \<open>
  One emitted instruction: once its operands are resolved it is the operator of the stack machine on
  the slots of those operands, so the code of the operator on the one machine does what the code of
  the operator does on the other.
\<close>

section \<open>Resolved operands\<close>

lemma apply_to_input_registers_Ok:
  assumes "apply_to_input_registers [(src, ys)] inp (fl_locals_count fl) (length (fl_consts fl)) (fl_spills fl) src' =
    Ok (rest, is)"
  shows "is = map (slot_of fl) ys"
  using assms by (auto simp: apply_to_input_registers_def and_then_eq_Ok dest: resolve_run_eq split: if_splits)

lemma apply_to_output_registers_Ok:
  "apply_to_output_registers c (length (fl_consts fl)) (fl_spills fl) = Ok k \<Longrightarrow> k = slot_of fl (BP_Register c)"
  by (auto simp: apply_to_output_registers_def u16_add_def and_then_eq_Ok split: if_splits)

lemma apply_to_signature_Ok:
  assumes "apply_to_signature [(src, ys)] sig (fl_locals_count fl) (length (fl_consts fl)) (fl_spills fl) src' = Ok sig'"
  shows "sg_input sig' = map (slot_of fl) ys \<and> sg_output sig' = slot_of fl (BP_Register (sg_output sig))"
  using assms apply_to_input_registers_Ok apply_to_output_registers_Ok
  by (auto simp: apply_to_signature_def and_then_eq_Ok)

lemmas applied = apply_to_input_registers_Ok apply_to_output_registers_Ok apply_to_signature_Ok

section \<open>One instruction\<close>

text \<open>What the two machines know of each other outside the code.\<close>

definition same_call :: "RegModule \<Rightarrow> StackModule \<Rightarrow> Value list \<Rightarrow> StackCallerBaseData \<Rightarrow> nat \<Rightarrow> bool" where
  "same_call md' md low cb' L \<longleftrightarrow> md_globals md = md_globals md' \<and>
     base_height cb' = length low \<and> length low + L \<le> U32_MAX"

abbreviation stack_runs where
  "stack_runs fe D R md layout cb' imported \<equiv> \<lambda>x. execute fe D R x md layout cb' imported"

abbreviation register_runs where
  "register_runs fe D R md' cb imported \<equiv> \<lambda>fl y. reg_execute fe D R y md' fl cb imported"

lemma compiles_recorded:
  assumes "code_ok s" and "allocs_to s s'" and "adds z s s'"
    and "backpatch_map s' = record_patch (length (rl_instructions s)) (src, ys) (backpatch_map s)"
    and "ref_of z = A_None \<or> in_arena (ref_of z) (layout_of s') \<and> \<not> in_arena (ref_of z) (layout_of s)"
    and fw: "forwards L ops' s'"
    and same: "\<And>fl y sS t. covers fl L s' \<Longrightarrow> settled fl [(src, ys)] z (layout_of s') y \<Longrightarrow>
      matched fl low cb ops sS t \<Longrightarrow>
      alike fl low cb ops' (run_straight exS scode) sS (run_straight (exR fl) [y]) t"
    and len: "length ops' \<le> length ops + length scode"
  shows "compiles exS exR low cb L ops s scode ops' s'"
proof -
  note new = code_ok_emitted [OF assms(1-5)]
  have "alike fl low cb ops' (run_straight exS scode) sS (run_straight (exR fl) rcode) t"
    if c: "covers fl L s'" and f: "finished fl s s' rcode" and m: "matched fl low cb ops sS t" for fl rcode sS t
  proof -
    obtain y where y: "rcode = [y]"
      using f by (cases rcode) (auto simp: finished_def assms(3))
    have "settles fl s' (length (rl_instructions s)) y"
      using f by (auto simp: finished_def y)
    then have "settled fl [(src, ys)] z (layout_of s') y"
      using new by (simp add: settles_def assms(3))
    with c m show ?thesis unfolding y by (intro same)
  qed
  with new fw len show ?thesis by (simp add: compiles_def)
qed

lemma compiles_plain:
  assumes "code_ok s" and "allocs_to s s'" and "adds z s s'"
    and "backpatch_map s' = backpatch_map s" and "ref_of z = A_None"
    and fw: "forwards L ops' s'"
    and same: "\<And>fl sS t. covers fl L s' \<Longrightarrow> matched fl low cb ops sS t \<Longrightarrow>
      alike fl low cb ops' (run_straight exS scode) sS (run_straight (exR fl) [z]) t"
    and len: "length ops' \<le> length ops + length scode"
  shows "compiles exS exR low cb L ops s scode ops' s'"
proof -
  note new = code_ok_plain [OF assms(1-5)]
  have "alike fl low cb ops' (run_straight exS scode) sS (run_straight (exR fl) rcode) t"
    if c: "covers fl L s'" and f: "finished fl s s' rcode" and m: "matched fl low cb ops sS t" for fl rcode sS t
  proof -
    obtain y where y: "rcode = [y]"
      using f by (cases rcode) (auto simp: finished_def assms(3))
    have "settles fl s' (length (rl_instructions s)) y"
      using f by (auto simp: finished_def y)
    then have "y = z"
      using new by (simp add: settles_def settled_def assms(3))
    with c m show ?thesis unfolding y by (simp only: same)
  qed
  with new fw len show ?thesis by (simp add: compiles_def)
qed

lemma compiles_silent:
  assumes "code_ok s" and "allocs_to s s'" and "adds_none s s'"
    and "backpatch_map s' = backpatch_map s" and fw: "forwards L ops' s'"
    and same: "\<And>fl sS t. covers fl L s' \<Longrightarrow> matched fl low cb ops sS t \<Longrightarrow>
      alike fl low cb ops' (run_straight exS scode) sS (run_straight (exR fl) []) t"
    and len: "length ops' \<le> length ops + length scode"
  shows "compiles exS exR low cb L ops s scode ops' s'"
  using code_ok_same [OF assms(1-4)] fw same len
  by (auto simp: compiles_def finished_def assms(3) simp del: run_straight.simps)

text \<open>\<open>turns_into fl z ys x outs fl0\<close>: resolved over \<open>ys\<close>, the instruction \<open>z\<close> is the operator \<open>x\<close>.\<close>

definition turns_into ::
    "RegFrameLayout \<Rightarrow> RegInstruction \<Rightarrow> BackPatchableSlot list \<Rightarrow> StackInstruction \<Rightarrow> BackPatchableSlot list \<Rightarrow>
     RegFrameLayout \<Rightarrow> bool" where
  "turns_into fl z ys x outs fl0 \<longleftrightarrow> (\<forall>y. settled fl [(Emit, ys)] z fl0 y \<longrightarrow>
     operator_form fl y = Some (x, map (slot_of fl) ys, map (slot_of fl) outs))"

lemma compiles_operator:
  fixes R :: "('m, 'i) import_registry_impl"
  assumes "code_ok s" and "allocs_to s s'" and "adds z s s'"
    and "backpatch_map s' = record_patch (length (rl_instructions s)) (Emit, ys) (backpatch_map s)"
    and "ref_of z = A_None \<or> in_arena (ref_of z) (layout_of s') \<and> \<not> in_arena (ref_of z) (layout_of s)"
    and fw: "forwards L (xs @ map BP_Register [c..<c + q]) s'" and q: "q \<le> 1"
    and fresh: "\<And>r. BP_Register r \<in> set xs \<Longrightarrow> r < c"
    and arity: "length ys = operator_arity x" and call: "same_call md' md low cb' L"
    and form: "\<And>fl. covers fl L s' \<Longrightarrow> turns_into fl z ys x (map BP_Register [c..<c + q]) (layout_of s')"
  shows "compiles (stack_runs fe D R md layout cb' imported) (register_runs fe D R md' cb imported) low cb L
    (xs @ ys) s [x] (xs @ map BP_Register [c..<c + q]) s'"
proof (rule compiles_recorded [OF assms(1-6)])
  let ?outs = "map BP_Register [c..<c + q]"
  fix fl y and sS :: "('m, 'i) StackInstance" and t :: "('m, 'i) RegInstance"
  assume c: "covers fl L s'" and y: "settled fl [(Emit, ys)] z (layout_of s') y"
    and m: "matched fl low cb (xs @ ys) sS t"
  have f: "operator_form fl y = Some (x, map (slot_of fl) ys, map (slot_of fl) ?outs)"
    using form [OF c] y by (simp add: turns_into_def)
  have "?outs = [] \<or> (\<exists>r. ?outs = [BP_Register r] \<and> placed fl (BP_Register r) \<and> BP_Register r \<notin> set xs)"
  proof (cases "q = 0")
    case False
    with q have "?outs = [BP_Register c]" by (cases q) simp_all
    moreover have "placed fl (BP_Register c)"
      using covered_operands [OF c fw, of "BP_Register c"] \<open>?outs = [BP_Register c]\<close> by simp
    moreover have "BP_Register c \<notin> set xs" using fresh by blast
    ultimately show ?thesis by (intro disjI2 exI [of _ c] conjI)
  qed simp
  with call show "alike fl low cb (xs @ ?outs) (run_straight (stack_runs fe D R md layout cb' imported) [x]) sS
      (run_straight (register_runs fe D R md' cb imported fl) [y]) t"
    by (intro alike_both matching_operator [OF m f arity]) (simp_all add: same_call_def)
qed (use q in simp)

end
