(* ===== verification/RegStraightCode.thy ===== *)
theory RegStraightCode
  imports RegEmission
begin

text \<open>
  Straight code, operator by operator: the register lowering of each turns into code that agrees with
  the instruction the other lowering emits for it.
\<close>

section \<open>What the instructions turn into\<close>

lemma turns_into_plain:
  assumes "\<And>y fl1 fl2. apply_patches (fl_locals_count fl) (length (fl_consts fl)) (fl_spills fl) [(Emit, ys)] z fl1 =
      (Ok (y, fl2) :: (TraceWasmError, _) result) \<Longrightarrow>
      operator_form fl y = Some (x, map (slot_of fl) ys, map (slot_of fl) outs)"
  shows "turns_into fl z ys x outs fl0"
  using assms by (auto simp: turns_into_def settled_def)

lemma turns_into_simple:
  "sg_output sig = c \<Longrightarrow> turns_into fl (RNumeric n sig) ys (Numeric n) [BP_Register c] fl0"
  "sg_output sig = c \<Longrightarrow> turns_into fl (RRefIsNull sig) ys RefIsNull [BP_Register c] fl0"
  "sg_output sig = c \<Longrightarrow> turns_into fl (RMemoryGrow sig) ys MemoryGrow [BP_Register c] fl0"
  "turns_into fl (RMemoryCopy inp) ys MemoryCopy [] fl0"
  "turns_into fl (RMemoryFill inp) ys MemoryFill [] fl0"
  "turns_into fl (RGlobalSet i inp) ys (GlobalSet i) [] fl0"
  "turns_into fl (RGlobalGet i out) [] (GlobalGet i) [BP_Register out] fl0"
  "turns_into fl (RMemorySize out) [] MemorySize [BP_Register out] fl0"
  by (rule turns_into_plain;
      auto simp: apply_numeric_eq apply_unary_def and_then_eq_Ok dest!: applied)+

lemma turns_into_access:
  assumes "off < length (fl_memory_offsets fl)" and "fl_memory_offsets fl ! off = a"
  shows "sg_output sig = c \<Longrightarrow> turns_into fl (RLoad l off sig) ys (Load l a) [BP_Register c] fl0"
    and "turns_into fl (RStore st off inp) ys (Store st a) [] fl0"
  by (rule turns_into_plain; use assms in \<open>auto simp: apply_unary_def and_then_eq_Ok dest!: applied\<close>)+

lemma turns_into_select:
  assumes "sg_output (fl_select_arena fl0 ! eid) = c"
  shows "turns_into fl (RSelect eid) ys Select [BP_Register c] fl0"
  unfolding turns_into_def
proof (intro allI impI)
  fix y assume "settled fl [(Emit, ys)] (RSelect eid) fl0 y"
  then obtain fl1 fl2 where y: "apply_patches (fl_locals_count fl) (length (fl_consts fl)) (fl_spills fl)
        [(Emit, ys)] (RSelect eid) fl1 = (Ok (y, fl2) :: (TraceWasmError, _) result)"
    and eq: "fl_select_arena fl0 ! eid = fl_select_arena fl1 ! eid" "fl_select_arena fl2 ! eid = fl_select_arena fl ! eid"
    and shape: "same_shape fl1 fl"
    by (auto simp: settled_def)
  then obtain sig where eid: "eid < length (fl_select_arena fl1)" "y = RSelect eid"
    "fl_select_arena fl2 ! eid = sig" and sig: "sg_input sig = map (slot_of fl) ys"
    "sg_output sig = slot_of fl (BP_Register (sg_output (fl_select_arena fl1 ! eid)))"
    by (auto simp: and_then_eq_Ok dest!: applied)
  have "in_arena (A_Select eid) fl" using eid(1) shape unfolding same_shape_def by simp
  then show "operator_form fl y = Some (Select, map (slot_of fl) ys, map (slot_of fl) [BP_Register c])"
    using eid sig eq assms by simp
qed

lemma turns_into_memory_init:
  assumes "mi_data_index (fl_memory_init_arena fl0 ! eid) = i"
  shows "turns_into fl (RMemoryInit eid) ys (MemoryInit i) [] fl0"
  unfolding turns_into_def
proof (intro allI impI)
  fix y assume "settled fl [(Emit, ys)] (RMemoryInit eid) fl0 y"
  then obtain fl1 fl2 where y: "apply_patches (fl_locals_count fl) (length (fl_consts fl)) (fl_spills fl)
        [(Emit, ys)] (RMemoryInit eid) fl1 = (Ok (y, fl2) :: (TraceWasmError, _) result)"
    and eq: "fl_memory_init_arena fl0 ! eid = fl_memory_init_arena fl1 ! eid"
      "fl_memory_init_arena fl2 ! eid = fl_memory_init_arena fl ! eid"
    and shape: "same_shape fl1 fl"
    by (auto simp: settled_def)
  then have eid: "eid < length (fl_memory_init_arena fl1)" "y = RMemoryInit eid"
    "fl_memory_init_arena fl2 ! eid = (fl_memory_init_arena fl1 ! eid)\<lparr>mi_operands := map (slot_of fl) ys\<rparr>"
    by (auto simp: and_then_eq_Ok dest!: applied)
  have "in_arena (A_MemoryInit eid) fl" using eid(1) shape unfolding same_shape_def by simp
  then show "operator_form fl y = Some (MemoryInit i, map (slot_of fl) ys, map (slot_of fl) [])"
    using eid eq(1) assms by (simp add: eq(2) [symmetric])
qed

section \<open>Emitting one instruction\<close>

text \<open>The pass has compiled \<open>scode\<close>, and what follows is lowered too.\<close>

definition compiled ::
    "('m, 'i) stack_side \<Rightarrow> ('m, 'i) register_side \<Rightarrow> Value list \<Rightarrow> RegCallerBaseData \<Rightarrow> nat \<Rightarrow>
     BackPatchableSlot list \<Rightarrow> reg_lower_state \<Rightarrow> StackInstruction list \<Rightarrow> reg_lower_state \<Rightarrow> bool" where
  "compiled exS exR low cb L ops s scode s' \<longleftrightarrow>
     (\<exists>ops'. compiles exS exR low cb L ops s scode ops' s') \<and> rest_of s' = rest_of s"

lemma forwards_emitted [simp]:
  "forwards L ops (s\<lparr>rl_instructions := xs, rl_offsets := os\<rparr>) = forwards L ops s"
  by (simp add: forwards_def entries_ok_def)

lemma allocs_to_updates [simp]:
  "allocs_to (s\<lparr>backpatch_map := m\<rparr>) t = allocs_to s t"
  "allocs_to s (t\<lparr>rl_instructions := xs, rl_offsets := os\<rparr>) = allocs_to s t"
  by (simp_all add: allocs_to_def)

abbreviation emitted :: "RegInstruction \<Rightarrow> nat \<Rightarrow> reg_lower_state \<Rightarrow> reg_lower_state" where
  "emitted z offset s \<equiv> s\<lparr>rl_instructions := rl_instructions s @ [z], rl_offsets := rl_offsets s @ [offset]\<rparr>"

lemma wlp_push_instr [simp]: "wlp (push_instr z offset) Q s = Q () (emitted z offset s)"
  by (simp add: push_instr_def)

lemma wlp_rl_len [simp]: "wlp rl_len Q s = Q (length (rl_instructions s)) s"
  by (simp add: rl_len_def)

text \<open>The state after an instruction with recorded operands.\<close>

lemma wlp_emitting:
  assumes "forwards L ops s"
    and Q: "\<And>xs ys c s'. ops = xs @ ys \<Longrightarrow> length ys = n \<Longrightarrow>
      forwards L (xs @ map BP_Register [c..<c + q]) s' \<Longrightarrow> (\<And>r. BP_Register r \<in> set xs \<Longrightarrow> r < c) \<Longrightarrow>
      allocs_to s s' \<Longrightarrow> rest_of s' = rest_of s \<Longrightarrow>
      adds (emitter \<lparr>sg_input = replicate n U16_MAX, sg_output = c\<rparr>) s s' \<Longrightarrow>
      backpatch_map s' = record_patch (length (rl_instructions s)) (Emit, ys) (backpatch_map s) \<Longrightarrow> Q () s'"
  shows "wlp (reg_emit n q emitter offset) Q s"
proof (simp add: reg_emit_def del: wlp_push_instr, rule wlp_registers_for [OF assms(1)])
  fix xs ys c s1
  let ?z = "emitter \<lparr>sg_input = replicate n U16_MAX, sg_output = c\<rparr>"
  assume ops: "ops = xs @ ys" "length ys = n" and fw: "forwards L (xs @ map BP_Register [c..<c + q]) s1"
    and st: "restacked (s\<lparr>backpatch_map := record_patch (length (rl_instructions s)) (Emit, ys) (backpatch_map s)\<rparr>) s1"
    and fresh: "\<And>r. BP_Register r \<in> set xs \<Longrightarrow> r < c"
  note same = restacked_allocs [OF st] restackedD(3) [OF st]
  have "Q () (emitted ?z offset s1)"
    by (rule Q [OF ops]) (use fw fresh same in simp_all)
  then show "wlp (push_instr ?z offset) Q s1" by simp
qed

lemma wlp_reg_emit:
  fixes R :: "('m, 'i) import_registry_impl"
  assumes "forwards L ops s" and ok: "code_ok s" and call: "same_call md' md low cb' L"
    and q: "q \<le> 1" and arity: "operator_arity x = n" and ref: "\<And>sig. ref_of (emitter sig) = A_None"
    and form: "\<And>fl ys c fl0. covers fl L s \<Longrightarrow> length ys = n \<Longrightarrow>
      turns_into fl (emitter \<lparr>sg_input = replicate n U16_MAX, sg_output = c\<rparr>) ys x (map BP_Register [c..<c + q]) fl0"
  shows "wlp (reg_emit n q emitter offset) (\<lambda>_. compiled (stack_runs fe D R md layout cb' imported)
    (register_runs fe D R md' cb imported) low cb L ops s [x]) s"
proof (rule wlp_emitting [OF assms(1)])
  fix xs ys c s'
  let ?z = "emitter \<lparr>sg_input = replicate n U16_MAX, sg_output = c\<rparr>"
  assume ops: "ops = xs @ ys" "length ys = n" and fw: "forwards L (xs @ map BP_Register [c..<c + q]) s'"
    and fresh: "\<And>r. BP_Register r \<in> set xs \<Longrightarrow> r < c" and alloc: "allocs_to s s'" and dead: "rest_of s' = rest_of s"
    and code: "adds ?z s s'"
      "backpatch_map s' = record_patch (length (rl_instructions s)) (Emit, ys) (backpatch_map s)"
  have "compiles (stack_runs fe D R md layout cb' imported) (register_runs fe D R md' cb imported) low cb L
      (xs @ ys) s [x] (xs @ map BP_Register [c..<c + q]) s'"
    by (rule compiles_operator [OF ok alloc code])
      (use fw q fresh arity ops call ref form covers_before [OF alloc] in simp_all)
  then show "compiled (stack_runs fe D R md layout cb' imported) (register_runs fe D R md' cb imported) low cb L
      ops s [x] s'"
    using dead ops by (auto simp: compiled_def)
qed

lemma compiled_after:
  assumes "compiles exS exR low cb L ops s scode ops1 s1" and "rest_of s1 = rest_of s"
    and "compiled exS exR low cb L ops1 s1 scode' s'"
  shows "compiled exS exR low cb L ops s (scode @ scode') s'"
  using assms compiles_append [OF assms(1)] by (auto simp: compiled_def)

lemma compiledI:
  "compiles exS exR low cb L ops s scode ops' s' \<Longrightarrow> rest_of s' = rest_of s \<Longrightarrow>
     compiled exS exR low cb L ops s scode s'"
  by (auto simp: compiled_def)

section \<open>Operators that emit nothing\<close>

lemma wlp_const_compiled:
  fixes exS :: "('m, 'i) stack_side" and exR :: "('m, 'i) register_side"
  assumes "forwards L ops s" and "code_ok s" and x: "exS x = push_next (const_value v)"
  shows "wlp (push_const v) (\<lambda>_. compiled exS exR low cb L ops s [x]) s"
proof (rule wlp_push_const [OF assms(1)])
  fix i p st
  let ?s = "s\<lparr>const_interner := p, ss_stack := st\<rparr>"
  assume fw: "forwards L (ops @ [BP_Const i]) ?s" and i: "in_values p ! i = v"
    and more: "\<exists>more. in_values p = in_values (const_interner s) @ more"
  have len: "i < length (in_values p)" using forwards_operands [OF fw, of "BP_Const i"] by simp
  have "compiles exS exR low cb L ops s [x] (ops @ [BP_Const i]) ?s"
  proof (rule compiles_silent [OF assms(2)])
    show "allocs_to s ?s" using more by (auto simp: allocs_to_def)
    fix fl and sS :: "('m, 'i) StackInstance" and t :: "('m, 'i) RegInstance"
    assume c: "covers fl L ?s" and m: "matched fl low cb ops sS t"
    have "placed fl (BP_Const i)" using covered_operands [OF c fw, of "BP_Const i"] by simp
    moreover have "fl_consts fl ! i = v" using c len i by (auto simp: covers_def nth_append)
    ultimately have "place_value fl cb t (BP_Const i) = const_value v"
      using matchedD(3) [OF m] by (auto simp: pool_loaded_def)
    from matched_push [OF m \<open>placed fl (BP_Const i)\<close> this] obtain sS' where
      "exS x sS = Ok (Next, sS')" "matched fl low cb (ops @ [BP_Const i]) sS' t"
      by (auto simp: x)
    then show "alike fl low cb (ops @ [BP_Const i]) (run_straight exS [x]) sS (run_straight (exR fl) []) t"
      by (rule alike_stack)
  qed (use fw in simp_all)
  then show "compiled exS exR low cb L ops s [x] ?s" by (rule compiledI) simp
qed

lemma wlp_drop_compiled:
  fixes exS :: "('m, 'i) stack_side" and exR :: "('m, 'i) register_side"
  assumes "forwards L ops s" and "code_ok s" and x: "exS x = bnd pop_value (\<lambda>_. ret Next)"
  shows "wlp ss_pop (\<lambda>_. compiled exS exR low cb L ops s [x]) s"
proof (rule wlp_ss_pop [OF assms(1)])
  fix xs y s'
  assume ops: "ops = xs @ [y]" and fw: "forwards L xs s'" and st: "restacked s s'"
  have "compiles exS exR low cb L ops s [x] xs s'"
  proof (rule compiles_silent [OF assms(2)])
    fix fl and sS :: "('m, 'i) StackInstance" and t :: "('m, 'i) RegInstance"
    assume "matched fl low cb ops sS t"
    then obtain sS' where "exS x sS = Ok (Next, sS')" "matched fl low cb xs sS' t"
      using matched_drop [of fl low cb xs y sS t] by (auto simp: ops x)
    then show "alike fl low cb xs (run_straight exS [x]) sS (run_straight (exR fl) []) t"
      by (rule alike_stack)
  qed (use fw ops restacked_allocs [OF st] restackedD [OF st] in simp_all)
  then show "compiled exS exR low cb L ops s [x] s'"
    by (rule compiledI) (simp add: restacked_allocs [OF st])
qed

lemma nop_compiled:
  fixes exS :: "('m, 'i) stack_side" and exR :: "('m, 'i) register_side"
  assumes "forwards L ops s" and "code_ok s" and x: "exS x = ret Next"
  shows "compiled exS exR low cb L ops s [x] s"
proof (rule compiledI [OF compiles_silent [OF assms(2)]])
  show "alike fl low cb ops (run_straight exS [x]) sS (run_straight (exR fl) []) t"
    if "matched fl low cb ops sS t" for fl and sS :: "('m, 'i) StackInstance" and t :: "('m, 'i) RegInstance"
    by (rule alike_stack [OF _ that]) (simp add: x ret_def)
qed (use assms(1) in simp_all)

lemma wlp_local_get_compiled:
  fixes R :: "('m, 'i) import_registry_impl"
  assumes "forwards L ops s" and "code_ok s" and call: "same_call md' md low cb' L" and i: "unat i < L"
  shows "wlp (push_local (as_u16 (unat i))) (\<lambda>_. compiled (stack_runs fe D R md layout cb' imported)
    (register_runs fe D R md' cb imported) low cb L ops s [LocalGet i]) s"
proof -
  have "L \<le> U16_MAX"
    using forwards_registers [OF assms(1)] by simp
  then have "as_u16 (unat i) = unat i" using i by (intro as_u16_id) simp
  moreover have "wlp (ss_push (unat i)) (\<lambda>_. compiled (stack_runs fe D R md layout cb' imported)
    (register_runs fe D R md' cb imported) low cb L ops s [LocalGet i]) s"
  proof (rule wlp_push_local [OF assms(1) i])
    fix s' assume fw: "forwards L (ops @ [BP_Slot (unat i)]) s'" and st: "restacked s s'"
    have "compiles (stack_runs fe D R md layout cb' imported) (register_runs fe D R md' cb imported) low cb L
        ops s [LocalGet i] (ops @ [BP_Slot (unat i)]) s'"
    proof (rule compiles_silent [OF assms(2)])
      fix fl and sS :: "('m, 'i) StackInstance" and t :: "('m, 'i) RegInstance"
      assume c: "covers fl L s'" and m: "matched fl low cb ops sS t"
      obtain sS' where "exec_local_get cb' i sS = Ok (Next, sS')" "matched fl low cb (ops @ [BP_Slot (unat i)]) sS' t"
        using matched_local_get [OF m, of i cb'] c i call by (auto simp: covers_def same_call_def)
      then show "alike fl low cb (ops @ [BP_Slot (unat i)]) (run_straight (stack_runs fe D R md layout cb' imported)
          [LocalGet i]) sS (run_straight (register_runs fe D R md' cb imported fl) []) t"
        by (intro alike_stack) simp_all
    qed (use fw restacked_allocs [OF st] restackedD [OF st] in simp_all)
    then show "compiled (stack_runs fe D R md layout cb' imported)
        (register_runs fe D R md' cb imported) low cb L ops s [LocalGet i] s'"
      by (rule compiledI) (simp add: restacked_allocs [OF st])
  qed
  ultimately show ?thesis by (simp add: push_local_def)
qed

end
