(* ===== verification/RegStraightOperators.thy ===== *)
theory RegStraightOperators
  imports RegStraightCode
begin

text \<open>
  Straight code, continued: writes to locals, which first spill the operands that still read the
  local, the operators with an entry in an arena, and the pass over a run of operators.
\<close>

section \<open>Writes to locals\<close>

lemma wlp_spill_compiled:
  fixes R :: "('m, 'i) import_registry_impl" and i :: u32
  assumes "forwards L ops s" and ok: "code_ok s" and i: "unat i < L"
    and Q: "\<And>ops' s'. compiles (stack_runs fe D R md layout cb' imported) (register_runs fe D R md' cb imported)
        low cb L ops s [] ops' s' \<Longrightarrow> forwards L ops' s' \<Longrightarrow> code_ok s' \<Longrightarrow> BP_Slot (unat i) \<notin> set ops' \<Longrightarrow>
      rest_of s' = rest_of s \<Longrightarrow> Q () s'"
  shows "wlp (spill_before_write (unat i) offset) Q s"
  unfolding spill_before_write_def wlp_bnd
proof (rule wlp_spill_local [OF assms(1) i])
  assume "BP_Slot (unat i) \<notin> set ops"
  with assms(1) ok show "wlp (case None of Some spill_index \<Rightarrow>
      push_instr (RLocalSpill (of_nat (unat i)) spill_index) offset | None \<Rightarrow> ret ()) Q s"
    by (simp add: Q [OF compiles_nil])
next
  fix k s1
  let ?z = "RLocalSpill i k" and ?ops = "map (redirect (unat i) k) ops"
  assume k: "BP_Spill k \<notin> set ops" "k < sp_allocation_len (spills s1)" and fw: "forwards L ?ops s1"
    and st: "restacked s s1"
  let ?s = "emitted ?z offset s1"
  have comp: "compiles (stack_runs fe D R md layout cb' imported) (register_runs fe D R md' cb imported)
      low cb L ops s [] ?ops ?s"
  proof (rule compiles_plain [OF ok])
    fix fl and sS :: "('m, 'i) StackInstance" and t :: "('m, 'i) RegInstance"
    assume c: "covers fl L ?s" and m: "matched fl low cb ops sS t"
    have "unat i < fl_locals_count fl" "placed fl (BP_Spill k)"
      using c i k(2) by (simp_all add: covers_def)
    from matched_spill [OF m this k(1)] obtain t' where
      "reg_exec_local_spill i k fl cb t = Ok (Next, t')" "matched fl low cb ?ops sS t'" by blast
    then show "alike fl low cb ?ops (run_straight (stack_runs fe D R md layout cb' imported) []) sS
        (run_straight (register_runs fe D R md' cb imported fl) [?z]) t"
      by (intro alike_register) simp_all
  qed (use fw restacked_allocs [OF st] restackedD [OF st] in simp_all)
  then have "Q () ?s"
  proof (rule Q)
    show "code_ok ?s" using comp by (simp add: compiles_def)
    show "BP_Slot (unat i) \<notin> set ?ops" by (auto simp: redirect_def split: if_splits)
  qed (use fw restacked_allocs [OF st] in simp_all)
  then show "wlp (case Some k of Some spill_index \<Rightarrow>
      push_instr (RLocalSpill (of_nat (unat i)) spill_index) offset | None \<Rightarrow> ret ()) Q s1"
    by simp
qed

lemma alike_write:
  fixes ex :: "('m, 'i) stack_side" and ex' :: "RegInstruction \<Rightarrow> ('m, 'i) reg_arm"
  assumes "ex x s = Ok (Next, s')" and "ex' y t = Ok (Next, t')" and "matched fl low cb ops s' t'"
  shows "alike fl low cb ops (run_straight ex [x]) s (run_straight ex' [y]) t"
  by (rule alike_both) (simp add: paired_def assms matched_after_def)

lemma wlp_local_set_compiled:
  fixes R :: "('m, 'i) import_registry_impl"
  assumes "forwards L ops s" and ok: "code_ok s" and call: "same_call md' md low cb' L" and i: "unat i < L"
  shows "wlp (rl_local_set i offset) (\<lambda>_. compiled (stack_runs fe D R md layout cb' imported)
    (register_runs fe D R md' cb imported) low cb L ops s [LocalSet i]) s"
  unfolding rl_local_set_def wlp_bnd
proof (rule wlp_spill_compiled [OF assms(1) ok i, where fe = fe and D = D and R = R and md = md and layout = layout
      and cb' = cb' and imported = imported and md' = md' and cb = cb and low = low])
  fix ops1 s1
  assume one: "compiles (stack_runs fe D R md layout cb' imported) (register_runs fe D R md' cb imported)
      low cb L ops s [] ops1 s1" and fw: "forwards L ops1 s1" and ok1: "code_ok s1"
    and free: "BP_Slot (unat i) \<notin> set ops1" and dead: "rest_of s1 = rest_of s"
  show "wlp (reg_emit 1 0 (\<lambda>sig. RLocalSet i (sg_input sig)) offset)
      (\<lambda>_. compiled (stack_runs fe D R md layout cb' imported)
        (register_runs fe D R md' cb imported) low cb L ops s [LocalSet i]) s1"
  proof (rule wlp_emitting [OF fw])
    fix xs ys c s'
    assume ops: "ops1 = xs @ ys" "length ys = 1" and fw': "forwards L (xs @ map BP_Register [c..<c + 0]) s'"
      and alloc: "allocs_to s1 s'" and dead': "rest_of s' = rest_of s1"
      and code: "adds (RLocalSet i (sg_input \<lparr>sg_input = replicate 1 U16_MAX, sg_output = c\<rparr>)) s1 s'"
        "backpatch_map s' = record_patch (length (rl_instructions s1)) (Emit, ys) (backpatch_map s1)"
    from ops(2) obtain x where ys: "ys = [x]" by (cases ys) auto
    have "compiles (stack_runs fe D R md layout cb' imported) (register_runs fe D R md' cb imported)
        low cb L ops1 s1 [LocalSet i] xs s'"
    proof (rule compiles_recorded [OF ok1 alloc code])
      fix fl y and sS :: "('m, 'i) StackInstance" and t :: "('m, 'i) RegInstance"
      assume c: "covers fl L s'" and m: "matched fl low cb ops1 sS t"
        and "settled fl [(Emit, ys)] (RLocalSet i (sg_input \<lparr>sg_input = replicate 1 U16_MAX, sg_output = c\<rparr>))
          (layout_of s') y"
      then have y: "y = RLocalSet i [slot_of fl x]"
        by (auto simp: settled_def and_then_eq_Ok ys dest!: applied)
      have m: "matched fl low cb (xs @ [x]) sS t" using m by (simp add: ops(1) ys)
      have "BP_Slot (unat i) \<notin> set xs" using free by (simp add: ops(1))
      from matched_local_set [OF m _ this, of cb'] obtain sS' t' where
        "exec_local_set cb' i sS = Ok (Next, sS')" "reg_exec_local_set i [slot_of fl x] cb t = Ok (Next, t')"
        "matched fl low cb xs sS' t'"
        using c call i by (auto simp: covers_def same_call_def)
      then show "alike fl low cb xs (run_straight (stack_runs fe D R md layout cb' imported) [LocalSet i]) sS
          (run_straight (register_runs fe D R md' cb imported fl) [y]) t"
        by (intro alike_write) (simp_all add: y)
    qed (use fw' ops in simp_all)
    from compiled_after [OF one dead compiledI [OF this dead']]
    show "compiled (stack_runs fe D R md layout cb' imported)
        (register_runs fe D R md' cb imported) low cb L ops s [LocalSet i] s'"
      by simp
  qed
qed

lemma wlp_local_tee_compiled:
  fixes R :: "('m, 'i) import_registry_impl"
  assumes "forwards L ops s" and ok: "code_ok s" and call: "same_call md' md low cb' L" and i: "unat i < L"
  shows "wlp (rl_local_tee i offset) (\<lambda>_. compiled (stack_runs fe D R md layout cb' imported)
    (register_runs fe D R md' cb imported) low cb L ops s [LocalTee i]) s"
  unfolding rl_local_tee_def wlp_bnd
proof (rule wlp_spill_compiled [OF assms(1) ok i, where fe = fe and D = D and R = R and md = md and layout = layout
      and cb' = cb' and imported = imported and md' = md' and cb = cb and low = low], rule wlp_ss_tee)
  fix ops1 s1 xs x
  assume one: "compiles (stack_runs fe D R md layout cb' imported) (register_runs fe D R md' cb imported)
      low cb L ops s [] ops1 s1" and fw: "forwards L ops1 s1" and ok1: "code_ok s1"
    and free: "BP_Slot (unat i) \<notin> set ops1" and dead: "rest_of s1 = rest_of s"
  show "forwards L ops1 s1" by (rule fw)
  assume ops: "ops1 = xs @ [x]"
  let ?z = "RLocalTee i [U16_MAX]" and ?n = "length (rl_instructions s1)"
  let ?s = "emitted ?z offset (s1\<lparr>backpatch_map := record_patch ?n (Emit, [x]) (backpatch_map s1)\<rparr>)"
  have "compiles (stack_runs fe D R md layout cb' imported) (register_runs fe D R md' cb imported)
      low cb L ops1 s1 [LocalTee i] ops1 ?s"
  proof (rule compiles_recorded [OF ok1, where ys = "[x]"])
    fix fl y and sS :: "('m, 'i) StackInstance" and t :: "('m, 'i) RegInstance"
    assume c: "covers fl L ?s" and m: "matched fl low cb ops1 sS t"
      and "settled fl [(Emit, [x])] ?z (layout_of ?s) y"
    then have y: "y = RLocalTee i [slot_of fl x]"
      by (auto simp: settled_def and_then_eq_Ok dest!: absolute_slot_of)
    from matched_local_tee [OF m [unfolded ops], of i cb'] obtain sS' t' where
      "exec_local_tee cb' i sS = Ok (Next, sS')" "reg_exec_local_set i [slot_of fl x] cb t = Ok (Next, t')"
      "matched fl low cb ops1 sS' t'"
      using c call i free by (auto simp: covers_def same_call_def ops)
    then show "alike fl low cb ops1 (run_straight (stack_runs fe D R md layout cb' imported) [LocalTee i]) sS
        (run_straight (register_runs fe D R md' cb imported fl) [y]) t"
      by (intro alike_write) (simp_all add: y)
  qed (use fw in \<open>simp_all add: allocs_to_def\<close>)
  from compiled_after [OF one dead compiledI [OF this]]
  show "wlp rl_len (\<lambda>k. wlp (add_patch k Emit [x]) (\<lambda>_. wlp (push_instr ?z offset)
      (\<lambda>_. compiled (stack_runs fe D R md layout cb' imported)
        (register_runs fe D R md' cb imported) low cb L ops s [LocalTee i]))) s1"
    by (simp add: add_patch_def)
qed

section \<open>Memory and arenas\<close>

lemma wlp_memory_access:
  assumes "forwards L ops s" and ok: "code_ok s"
    and Q: "\<And>i s'. compiles exS exR low cb L ops s [] ops s' \<Longrightarrow> forwards L ops s' \<Longrightarrow> code_ok s' \<Longrightarrow>
      rest_of s' = rest_of s \<Longrightarrow> (\<And>fl. covers fl L s' \<Longrightarrow>
        i < length (fl_memory_offsets fl) \<and> fl_memory_offsets fl ! i = ucast a) \<Longrightarrow> Q i s'"
  shows "wlp (rl_memory_access a) Q s"
proof -
  obtain es where entries: "entries_ok L es s" "map (operand_in (lazy_locals s)) es = ops"
    using assms(1) by (auto simp: forwards_def)
  then have "interner_ok (memory_offsets s)" by (simp add: entries_ok_def)
  then show ?thesis
    unfolding rl_memory_access_def wlp_on_field
  proof (rule wlp_try_intern)
    fix i p
    let ?s = "s\<lparr>memory_offsets := p\<rparr>"
    assume p: "interner_ok p" "i < length (in_values p)" "in_values p ! i = ucast a"
      and more: "\<exists>more. in_values p = in_values (memory_offsets s) @ more"
    have fw: "forwards L ops ?s"
      using entries p(1) by (intro forwardsI [of L es]) (simp_all add: entries_ok_def)
    have comp: "compiles exS exR low cb L ops s [] ops ?s"
      by (rule compiles_silent [OF ok])
        (use fw more in \<open>auto simp: allocs_to_def intro: alike_nil [unfolded run_straight.simps]\<close>)
    show "Q i ?s"
    proof (rule Q [OF comp fw])
      show "code_ok ?s" using comp by (simp add: compiles_def)
      show "i < length (fl_memory_offsets fl) \<and> fl_memory_offsets fl ! i = ucast a" if "covers fl L ?s" for fl
        using that p by (auto simp: covers_def nth_append)
    qed simp
  qed
qed

lemma wlp_access_compiled:
  fixes R :: "('m, 'i) import_registry_impl"
  assumes "forwards L ops s" and ok: "code_ok s" and call: "same_call md' md low cb' L"
  shows "wlp (rl_load l a offset) (\<lambda>_. compiled (stack_runs fe D R md layout cb' imported)
      (register_runs fe D R md' cb imported) low cb L ops s [Load l (ucast a)]) s"
    and "wlp (rl_store st a offset) (\<lambda>_. compiled (stack_runs fe D R md layout cb' imported)
      (register_runs fe D R md' cb imported) low cb L ops s [Store st (ucast a)]) s"
proof -
  let ?SR = "stack_runs fe D R md layout cb' imported" and ?RR = "register_runs fe D R md' cb imported"
  have step: "wlp (bnd (rl_memory_access a) f) (\<lambda>_. compiled ?SR ?RR low cb L ops s [x]) s"
    if next_: "\<And>i s1. forwards L ops s1 \<Longrightarrow> code_ok s1 \<Longrightarrow> (\<And>fl. covers fl L s1 \<Longrightarrow>
        i < length (fl_memory_offsets fl) \<and> fl_memory_offsets fl ! i = ucast a) \<Longrightarrow>
        wlp (f i) (\<lambda>_. compiled ?SR ?RR low cb L ops s1 [x]) s1" for f x
    unfolding wlp_bnd
  proof (rule wlp_memory_access [OF assms(1) ok, where exS = ?SR and exR = ?RR and low = low and cb = cb])
    fix i s1
    assume one: "compiles ?SR ?RR low cb L ops s [] ops s1" and dead: "rest_of s1 = rest_of s"
      and "forwards L ops s1" "code_ok s1"
      "\<And>fl. covers fl L s1 \<Longrightarrow> i < length (fl_memory_offsets fl) \<and> fl_memory_offsets fl ! i = ucast a"
    from wlp_mono [OF next_ [OF this(3-5)], of "\<lambda>_. compiled ?SR ?RR low cb L ops s [x]"]
    show "wlp (f i) (\<lambda>_. compiled ?SR ?RR low cb L ops s [x]) s1"
      using compiled_after [OF one dead] by simp
  qed
  show "wlp (rl_load l a offset) (\<lambda>_. compiled ?SR ?RR low cb L ops s [Load l (ucast a)]) s"
    unfolding rl_load_def by (rule step, rule wlp_reg_emit [OF _ _ call]) (simp_all add: turns_into_access)
  show "wlp (rl_store st a offset) (\<lambda>_. compiled ?SR ?RR low cb L ops s [Store st (ucast a)]) s"
    unfolding rl_store_def by (rule step, rule wlp_reg_emit [OF _ _ call]) (simp_all add: turns_into_access)
qed

lemma arena_snoc:
  "select_arena_update (\<lambda>es. es @ [x]) s = s\<lparr>select_arena := select_arena s @ [x]\<rparr>"
  "memory_init_arena_update (\<lambda>es. es @ [y]) s = s\<lparr>memory_init_arena := memory_init_arena s @ [y]\<rparr>"
  for s :: reg_lower_state
  by (cases s; simp)+

lemma wlp_select_compiled:
  fixes R :: "('m, 'i) import_registry_impl"
  assumes "forwards L ops s" and ok: "code_ok s" and call: "same_call md' md low cb' L"
  shows "wlp (rl_select offset) (\<lambda>_. compiled (stack_runs fe D R md layout cb' imported)
    (register_runs fe D R md' cb imported) low cb L ops s [Select]) s"
  unfolding rl_select_def wlp_bnd wlp_rl_len
proof (rule wlp_registers_for [OF assms(1)])
  fix xs ys c s1
  let ?n = "length (rl_instructions s)" and ?sig = "\<lparr>sg_input = replicate 3 U16_MAX, sg_output = c\<rparr>"
  assume ops: "ops = xs @ ys" "length ys = 3" and fw: "forwards L (xs @ map BP_Register [c..<c + 1]) s1"
    and st: "restacked (s\<lparr>backpatch_map := record_patch ?n (Emit, ys) (backpatch_map s)\<rparr>) s1"
    and fresh: "\<And>r. BP_Register r \<in> set xs \<Longrightarrow> r < c"
  note same = restacked_allocs [OF st] restackedD [OF st]
  let ?z = "RSelect (length (select_arena s1))"
  let ?s = "emitted ?z offset (s1\<lparr>select_arena := select_arena s1 @ [?sig]\<rparr>)"
  have alloc: "allocs_to s ?s" using same(1) by (auto simp: allocs_to_def)
  have entry: "fl_select_arena (layout_of ?s) ! length (select_arena s1) = ?sig" by (simp add: layout_of_def)
  have "compiles (stack_runs fe D R md layout cb' imported) (register_runs fe D R md' cb imported) low cb L
      (xs @ ys) s [Select] (xs @ map BP_Register [c..<c + 1]) ?s"
  proof (rule compiles_operator [OF ok alloc])
    show "turns_into fl ?z ys Select (map BP_Register [c..<c + 1]) (layout_of ?s)" for fl
      using turns_into_select [of "layout_of ?s" "length (select_arena s1)" c fl ys] entry by simp
  qed (use same fw fresh ops call in \<open>simp_all add: layout_of_def\<close>)
  then have "compiled (stack_runs fe D R md layout cb' imported) (register_runs fe D R md' cb imported) low cb L
      ops s [Select] ?s"
    using same ops by (intro compiledI) simp_all
  then show "wlp (gets (\<lambda>s. length (select_arena s))) (\<lambda>i. wlp (modify (select_arena_update (\<lambda>es. es @ [?sig])))
      (\<lambda>_. wlp (ret i) (\<lambda>eid. wlp (push_instr (RSelect eid) offset)
        (\<lambda>_. compiled (stack_runs fe D R md layout cb' imported)
          (register_runs fe D R md' cb imported) low cb L ops s [Select])))) s1"
    by (simp add: arena_snoc)
qed

lemma wlp_memory_init_compiled:
  fixes R :: "('m, 'i) import_registry_impl"
  assumes "forwards L ops s" and ok: "code_ok s" and call: "same_call md' md low cb' L"
  shows "wlp (rl_memory (Op_MemoryInit j mem) offset) (\<lambda>_. compiled (stack_runs fe D R md layout cb' imported)
    (register_runs fe D R md' cb imported) low cb L ops s [MemoryInit j]) s"
  unfolding rl_memory.simps wlp_bnd wlp_rl_len wlp_lift_result
proof (intro allI impI, rule wlp_registers_for [OF assms(1)])
  fix xs ys c s1
  let ?n = "length (rl_instructions s)" and ?sig = "\<lparr>sg_input = replicate 3 U16_MAX, sg_output = c\<rparr>"
  assume ops: "ops = xs @ ys" "length ys = 3" and fw: "forwards L (xs @ map BP_Register [c..<c + 0]) s1"
    and st: "restacked (s\<lparr>backpatch_map := record_patch ?n (Emit, ys) (backpatch_map s)\<rparr>) s1"
    and fresh: "\<And>r. BP_Register r \<in> set xs \<Longrightarrow> r < c"
  note same = restacked_allocs [OF st] restackedD [OF st]
  let ?e = "\<lparr>mi_data_index = j, mi_operands = sg_input ?sig\<rparr>"
  let ?z = "RMemoryInit (length (memory_init_arena s1))"
  let ?s = "emitted ?z offset (s1\<lparr>memory_init_arena := memory_init_arena s1 @ [?e]\<rparr>)"
  have alloc: "allocs_to s ?s" using same(1) by (auto simp: allocs_to_def)
  have entry: "fl_memory_init_arena (layout_of ?s) ! length (memory_init_arena s1) = ?e"
    by (simp add: layout_of_def)
  have "compiles (stack_runs fe D R md layout cb' imported) (register_runs fe D R md' cb imported) low cb L
      (xs @ ys) s [MemoryInit j] (xs @ map BP_Register [c..<c + 0]) ?s"
  proof (rule compiles_operator [OF ok alloc])
    show "turns_into fl ?z ys (MemoryInit j) (map BP_Register [c..<c + 0]) (layout_of ?s)" for fl
      using turns_into_memory_init [of "layout_of ?s" "length (memory_init_arena s1)" j fl ys] entry by simp
  qed (use same fw fresh ops call in \<open>simp_all add: layout_of_def\<close>)
  then have "compiled (stack_runs fe D R md layout cb' imported) (register_runs fe D R md' cb imported) low cb L
      ops s [MemoryInit j] ?s"
    using same ops by (intro compiledI) simp_all
  then show "wlp (gets (\<lambda>s. length (memory_init_arena s)))
      (\<lambda>i. wlp (modify (memory_init_arena_update (\<lambda>es. es @ [?e])))
      (\<lambda>_. wlp (ret i) (\<lambda>eid. wlp (push_instr (RMemoryInit eid) offset)
        (\<lambda>_. compiled (stack_runs fe D R md layout cb' imported)
          (register_runs fe D R md' cb imported) low cb L ops s [MemoryInit j])))) s1"
    by (simp add: arena_snoc)
qed

lemma wlp_data_drop_compiled:
  fixes R :: "('m, 'i) import_registry_impl"
  assumes fw: "forwards L ops s" and ok: "code_ok s" and call: "same_call md' md low cb' L"
  shows "wlp (push_instr (RDataDrop j) offset) (\<lambda>_. compiled (stack_runs fe D R md layout cb' imported)
    (register_runs fe D R md' cb imported) low cb L ops s [DataDrop j]) s"
proof -
  have "compiles (stack_runs fe D R md layout cb' imported) (register_runs fe D R md' cb imported) low cb L
      ops s [DataDrop j] ops (emitted (RDataDrop j) offset s)"
  proof (rule compiles_plain [OF ok])
    fix fl and sS :: "('m, 'i) StackInstance" and t :: "('m, 'i) RegInstance"
    assume "matched fl low cb ops sS t"
    then have m: "matched fl low cb (ops @ []) sS t" by simp
    show "alike fl low cb ops (run_straight (stack_runs fe D R md layout cb' imported) [DataDrop j]) sS
        (run_straight (register_runs fe D R md' cb imported fl) [RDataDrop j]) t"
      using matching_operator [OF m, of "RDataDrop j" "DataDrop j" "[]" md md' fe D R layout cb' imported] call
      by (intro alike_both) (simp add: same_call_def)
  qed (use fw in simp_all)
  then show ?thesis by (simp add: compiledI)
qed

section \<open>Runs of operators\<close>

text \<open>The instruction the stack machine has for an operator without control flow, in a body of
  \<open>L\<close> locals.\<close>

fun straight_code :: "nat \<Rightarrow> Operator \<Rightarrow> StackInstruction option" where
  "straight_code L Op_Nop = Some Nop"
| "straight_code L (Op_I32Const v) = Some (Const (I32Const v))"
| "straight_code L (Op_I64Const v) = Some (Const (I64Const v))"
| "straight_code L (Op_F32Const v) = Some (Const (F32Const v))"
| "straight_code L (Op_F64Const v) = Some (Const (F64Const v))"
| "straight_code L (Op_RefNull ty) = Some (Const RefNull)"
| "straight_code L (Op_RefFunc f) = Some (Const (RefFunc f))"
| "straight_code L Op_RefIsNull = Some RefIsNull"
| "straight_code L (Op_MemorySize mem) = Some MemorySize"
| "straight_code L (Op_MemoryGrow mem) = Some MemoryGrow"
| "straight_code L (Op_MemoryCopy dst src) = Some MemoryCopy"
| "straight_code L (Op_MemoryFill mem) = Some MemoryFill"
| "straight_code L (Op_MemoryInit i mem) = Some (MemoryInit i)"
| "straight_code L (Op_DataDrop i) = Some (DataDrop i)"
| "straight_code L (Op_Load l a) = Some (Load l (ucast a))"
| "straight_code L (Op_Store st a) = Some (Store st (ucast a))"
| "straight_code L (Op_Numeric n) = Some (Numeric n)"
| "straight_code L (Op_LocalGet i) = (if unat i < L then Some (LocalGet i) else None)"
| "straight_code L (Op_LocalSet i) = (if unat i < L then Some (LocalSet i) else None)"
| "straight_code L (Op_LocalTee i) = (if unat i < L then Some (LocalTee i) else None)"
| "straight_code L (Op_GlobalGet i) = Some (GlobalGet i)"
| "straight_code L (Op_GlobalSet i) = Some (GlobalSet i)"
| "straight_code L Op_Select = Some Select"
| "straight_code L Op_Drop = Some Drop"
| "straight_code L _ = None"

lemma wlp_numeric_compiled:
  fixes R :: "('m, 'i) import_registry_impl"
  assumes "forwards L ops s" and ok: "code_ok s" and call: "same_call md' md low cb' L"
  shows "wlp (rl_numeric n offset) (\<lambda>_. compiled (stack_runs fe D R md layout cb' imported)
    (register_runs fe D R md' cb imported) low cb L ops s [Numeric n]) s"
  by (cases n; simp; rule wlp_reg_emit [OF assms]; simp add: turns_into_simple)

lemma wlp_operator_compiled:
  fixes R :: "('m, 'i) import_registry_impl"
  assumes fw: "forwards L ops s" and ok: "code_ok s" and call: "same_call md' md low cb' L"
    and x: "straight_code L operator = Some x"
  shows "wlp (rl_operator types func_decls results operator offset)
    (\<lambda>_. compiled (stack_runs fe D R md layout cb' imported)
      (register_runs fe D R md' cb imported) low cb L ops s [x]) s"
proof -
  note emit = wlp_reg_emit [OF fw ok call] and simple = turns_into_simple
    and const = wlp_const_compiled [OF fw ok]
  show ?thesis
  proof (cases operator)
    case (Op_LocalGet i)
    with x show ?thesis
      using wlp_local_get_compiled [OF fw ok call, of i] by (simp add: rl_operator.simps split: if_splits)
  next
    case (Op_LocalSet i)
    with x show ?thesis
      using wlp_local_set_compiled [OF fw ok call, of i] by (simp add: rl_operator.simps split: if_splits)
  next
    case (Op_LocalTee i)
    with x show ?thesis
      using wlp_local_tee_compiled [OF fw ok call, of i] by (simp add: rl_operator.simps split: if_splits)
  next
    case (Op_MemoryInit j mem)
    moreover have "x = MemoryInit j" using x Op_MemoryInit by simp
    ultimately show ?thesis
      using wlp_memory_init_compiled [OF fw ok call] by (simp add: rl_operator.simps del: rl_memory.simps)
  next
    case Op_Nop
    with x show ?thesis by (simp add: rl_operator.simps nop_compiled [OF fw ok])
  qed (use x in \<open>auto simp: rl_operator.simps simple intro!: const emit wlp_access_compiled [OF fw ok call]
      wlp_select_compiled [OF fw ok call] wlp_data_drop_compiled [OF fw ok call]
      wlp_numeric_compiled [OF fw ok call] wlp_drop_compiled [OF fw ok] simp del: wlp_push_instr\<close>)
qed

end
