(* ===== verification/RegStraightProperties.thy ===== *)
theory RegStraightProperties
  imports RegStraightOperators RegLoweringProperties RegProperties
begin

text \<open>
  The two lowerings of straight code: run side by side on the two machines, the code the one emits and
  the code the other emits and resolves do the same.
\<close>

section \<open>Runs of operators\<close>

fun straight_body :: "nat \<Rightarrow> OperatorsReader \<Rightarrow> StackInstruction list option" where
  "straight_body L [] = Some []"
| "straight_body L (Inl e # rest) = None"
| "straight_body L (Inr (operator, offset) # rest) =
     (case straight_code L operator of
        None \<Rightarrow> None
      | Some x \<Rightarrow> map_option ((#) x) (straight_body L rest))"

lemma straight_body_Cons:
  assumes "straight_body L (item # rest) = Some xs"
  obtains operator offset x ys where "item = Inr (operator, offset)" "straight_code L operator = Some x"
    "straight_body L rest = Some ys" "xs = x # ys"
  using assms by (cases item) (auto split: option.splits)

lemma wlp_stack_operator:
  assumes "straight_code L operator = Some x"
  shows "wlp (lower_operator types func_decls operator) (\<lambda>(y, effect) s'. y = x \<and> s' = s) s"
proof (cases operator)
  case (Op_Numeric n)
  with assms show ?thesis by (cases n) (auto simp: lower_operator.simps)
qed (use assms in \<open>auto simp: lower_operator.simps lower_load_def lower_store_def split: if_splits\<close>)

lemma wlp_effect_control:
  "wlp (apply_stack_effect e) (\<lambda>_ cs'. cs_inner cs' = cs_inner cs) cs"
  by (cases e) (auto simp: apply_stack_effects_to_height_def note_height_def set_height_def get_curr_block_def
      intro!: wlpI split: if_splits)

lemma wlp_stack_step:
  assumes "straight_code L operator = Some x"
  shows "wlp (lower_step types func_decls operator offset)
    (\<lambda>_ s'. ls_instructions s' = ls_instructions s @ [x] \<and>
       cs_inner (ls_control s') = cs_inner (ls_control s)) s"
  unfolding lower_step_def wlp_bnd
  by (rule wlp_mono [OF wlp_stack_operator [OF assms]])
    (auto simp: emit_instruction_def wlp_True intro: wlp_mono [OF wlp_effect_control])

lemma wlp_stack_run:
  "straight_body L reader = Some xs \<Longrightarrow> wlp (emit_loop types func_decls reader)
     (\<lambda>_ s'. ls_instructions s' = ls_instructions s @ xs \<and> cs_inner (ls_control s') = cs_inner (ls_control s)) s"
proof (induction reader arbitrary: xs s)
  case (Cons item reader)
  obtain operator offset x ys where item: "item = Inr (operator, offset)" "straight_code L operator = Some x"
    and rest: "straight_body L reader = Some ys" "xs = x # ys"
    using straight_body_Cons [OF Cons.prems] .
  have "wlp (lower_step types func_decls operator offset) (\<lambda>_. wlp (emit_loop types func_decls reader)
      (\<lambda>_ s'. ls_instructions s' = ls_instructions s @ xs \<and> cs_inner (ls_control s') = cs_inner (ls_control s))) s"
    by (rule wlp_mono [OF wlp_stack_step [OF item(2)]], rule wlp_mono [OF Cons.IH [OF rest(1)]])
      (simp_all add: rest(2))
  then show ?case by (simp add: item(1))
qed simp

lemma wlp_register_body:
  fixes R :: "('m, 'i) import_registry_impl"
  assumes "straight_body L reader = Some xs" and "forwards L ops s" and "code_ok s" and "\<not> dead_code s"
    and call: "same_call md' md low cb' L"
  shows "wlp (rl_loop_operators types func_decls results reader)
    (\<lambda>_. compiled (stack_runs fe D R md layout cb' imported)
      (register_runs fe D R md' cb imported) low cb L ops s xs) s"
  using assms(1-4)
proof (induction reader arbitrary: xs ops s)
  case Nil
  then show ?case by (auto intro!: compiledI compiles_nil)
next
  case (Cons item reader)
  let ?SR = "stack_runs fe D R md layout cb' imported" and ?RR = "register_runs fe D R md' cb imported"
  obtain operator offset x ys where item: "item = Inr (operator, offset)" "straight_code L operator = Some x"
    and rest: "straight_body L reader = Some ys" "xs = x # ys"
    using straight_body_Cons [OF Cons.prems(1)] .
  have "wlp (rl_operator types func_decls results operator (as_u32 offset))
      (\<lambda>_. compiled ?SR ?RR low cb L ops s [x]) s"
    by (rule wlp_operator_compiled [OF Cons.prems(2,3) call item(2)])
  then have "wlp (rl_operator types func_decls results operator (as_u32 offset))
      (\<lambda>_. wlp (rl_loop_operators types func_decls results reader) (\<lambda>_. compiled ?SR ?RR low cb L ops s xs)) s"
  proof (rule wlp_mono)
    fix s1 assume "compiled ?SR ?RR low cb L ops s [x] s1"
    then obtain ops1 where one: "compiles ?SR ?RR low cb L ops s [x] ops1 s1" and dead: "rest_of s1 = rest_of s"
      by (auto simp: compiled_def)
    have "wlp (rl_loop_operators types func_decls results reader) (\<lambda>_. compiled ?SR ?RR low cb L ops1 s1 ys) s1"
      using one dead Cons.prems(4) by (intro Cons.IH [OF rest(1)]) (simp_all add: compiles_def)
    then show "wlp (rl_loop_operators types func_decls results reader) (\<lambda>_. compiled ?SR ?RR low cb L ops s xs) s1"
      by (rule wlp_mono) (use compiled_after [OF one dead] in \<open>simp add: rest(2)\<close>)
  qed
  with Cons.prems(4) show ?case by (simp add: item(1) check_unreachablity_def)
qed

section \<open>The finished code\<close>

lemma resolved_code:
  assumes fw: "forwards L ops s" and ok: "code_ok s"
    and res: "apply_backpatches L (length (in_values (const_interner s))) (sp_allocation_len (spills s))
      (backpatch_map s) (rl_instructions s) (layout_of s) = (Ok (code, fl) :: (TraceWasmError, _) result)"
    and size: "max_registers s + sp_allocation_len (spills s) + length (in_values (const_interner s)) \<le> U16_MAX"
  shows "length code = length (rl_instructions s)" and "covers fl L s"
    and "\<And>i. i < length (rl_instructions s) \<Longrightarrow> settles fl s i (code ! i)"
proof -
  have L: "L = fl_locals_count (layout_of s)"
    using fw entries_locals_count by (auto simp: forwards_def layout_of_def)
  have settles: "length code = length (rl_instructions s) \<and> same_shape (layout_of s) fl \<and>
      (\<forall>i < length (rl_instructions s). settled fl (patches_of (backpatch_map s) i) (rl_instructions s ! i)
        (layout_of s) (code ! i))"
    by (rule apply_backpatches_settles [OF _ _ _ res L])
      (use ok in \<open>simp_all add: code_ok_def layout_of_def\<close>)
  then show "length code = length (rl_instructions s)"
    and "\<And>i. i < length (rl_instructions s) \<Longrightarrow> settles fl s i (code ! i)"
    by (simp_all add: settles_def)
  have "covers (layout_of s) L s" by (rule covers_layout [OF fw size])
  with settles show "covers fl L s" by (simp add: covers_def same_shape_def frame_size_def)
qed

lemma compiles_resolved:
  assumes "compiles exS exR low cb L ops s scode ops' s'"
    and res: "apply_backpatches L (length (in_values (const_interner s'))) (sp_allocation_len (spills s'))
      (backpatch_map s') (rl_instructions s') (layout_of s') = (Ok (code, fl) :: (TraceWasmError, _) result)"
    and size: "max_registers s' + sp_allocation_len (spills s') + length (in_values (const_interner s')) \<le> U16_MAX"
    and m: "matched fl low cb ops sS t"
  shows "covers fl L s' \<and> alike fl low cb ops' (run_straight exS scode) sS
    (run_straight (exR fl) (drop (length (rl_instructions s)) code)) t"
proof -
  have fw: "forwards L ops' s'" and ok: "code_ok s'" and grows: "grows_to s s'"
    and same: "\<And>rcode. covers fl L s' \<Longrightarrow> finished fl s s' rcode \<Longrightarrow>
      alike fl low cb ops' (run_straight exS scode) sS (run_straight (exR fl) rcode) t"
    using assms(1) m by (auto simp: compiles_def)
  note resolved = resolved_code [OF fw ok res size]
  have "finished fl s s' (drop (length (rl_instructions s)) code)"
    using resolved(1,3) grows_to_length [OF grows] by (simp add: finished_def)
  with resolved(2) same show ?thesis by blast
qed

text \<open>C7: straight code means the same to both machines. Take any run of operators
  without control flow, in any body, from any point both lowerings have reached, with the pending
  operands \<open>ops\<close> of the simulated stack. If both lowerings succeed and the operands are resolved into
  a frame of at most 16 bits, then wherever the locals and pending operands of the stack machine are
  the values in the places \<open>ops\<close> of the register machine's frame, the two pieces of code trap with
  the same error, after the same effects on memory, globals and segments, or both finish, again in
  matching states. The register code has no instruction for a local, a constant or a drop, and spills
  a local only where it is overwritten while pending; the values are the same all the same.\<close>

theorem straight_code_agrees:
  fixes R :: "('m, 'i) import_registry_impl" and sS :: "('m, 'i) StackInstance" and t :: "('m, 'i) RegInstance"
  assumes "straight_body L reader \<noteq> None"
    and "emit_loop types func_decls reader sl = Ok ((), sl')"
    and "rl_loop_operators types func_decls results reader s = Ok ((), s')"
    and "forwards L ops s" and "code_ok s" and "\<not> dead_code s"
    and "apply_backpatches L (length (in_values (const_interner s'))) (sp_allocation_len (spills s'))
      (backpatch_map s') (rl_instructions s') (layout_of s') = (Ok (code, fl) :: (TraceWasmError, _) result)"
    and "max_registers s' + sp_allocation_len (spills s') + length (in_values (const_interner s')) \<le> U16_MAX"
    and "matched fl low cb ops sS t" and "same_call md' md low cb' L"
  shows "\<exists>ops'. forwards L ops' s' \<and> covers fl L s' \<and> alike fl low cb ops'
    (run_straight (\<lambda>x. execute fe D R x md layout cb' imported)
      (drop (length (ls_instructions sl)) (ls_instructions sl'))) sS
    (run_straight (\<lambda>y. reg_execute fe D R y md' fl cb imported)
      (drop (length (rl_instructions s)) code)) t"
proof -
  from assms(1) obtain xs where xs: "straight_body L reader = Some xs" by blast
  have scode: "drop (length (ls_instructions sl)) (ls_instructions sl') = xs"
    using wlpD [OF wlp_stack_run [OF xs] assms(2)] by simp
  have "compiled (stack_runs fe D R md layout cb' imported) (register_runs fe D R md' cb imported) low cb L ops s xs s'"
    by (rule wlpD [OF wlp_register_body [OF xs assms(4-6) assms(10)] assms(3)])
  then obtain ops' where comp: "compiles (stack_runs fe D R md layout cb' imported)
      (register_runs fe D R md' cb imported) low cb L ops s xs ops' s'"
    by (auto simp: compiled_def)
  then have "forwards L ops' s'" by (simp add: compiles_def)
  with compiles_resolved [OF comp assms(7-9)] show ?thesis unfolding scode by blast
qed

section \<open>A concrete body\<close>

lemma forwards_initial:
  assumes "L \<le> U16_MAX"
  shows "forwards L [] (initial_reg_lower_state params results L)"
  using forwards_new [OF assms]
  by (auto simp: forwards_def entries_ok_def initial_reg_lower_state_def SimulatedStack.defs)

lemma initial_start [simp]:
  "code_ok (initial_reg_lower_state params results L)" "\<not> dead_code (initial_reg_lower_state params results L)"
  "rl_instructions (initial_reg_lower_state params results L) = []"
  by (simp_all add: code_ok_def owned_def initial_reg_lower_state_def new_simulated_stack_def SimulatedStack.defs)

text \<open>The old value of a local is still pending when the local is overwritten.\<close>

definition straight_demo :: OperatorsReader where
  "straight_demo = [Inr (Op_LocalGet 0, 0), Inr (Op_I32Const 5, 2), Inr (Op_LocalSet 0, 4),
     Inr (Op_LocalGet 0, 6), Inr (Op_Numeric (I32Binary I32Sub), 8)]"

definition straight_layout :: RegFrameLayout where
  "straight_layout = \<lparr>fl_registers = 3, fl_spills = 1, fl_if_arena = [], fl_br_if_arena = [],
     fl_br_table_arena = [], fl_call_indirect_arena = [], fl_select_arena = [], fl_memory_init_arena = [],
     fl_dyn_signatures = [], fl_memory_offsets = [], fl_locals_count = 2, fl_consts = [C_I32 5]\<rparr>"

lemmas sim_defs =
  push_instr_def rl_len_def reg_emit_def registers_for_def pops_and_pushes_registers_def add_patch_def
  push_registers_def ss_push_def ss_pop_def push_const_def push_local_def push_lazy_def pop_lazy_def
  set_lazy_def try_intern_def lazy_allocate_def get_entry_def put_entry_def lazy_location_def
  decrease_ref_count_def advanced_ref_count_def lazy_spill_def get_origin_def set_origin_def
  reserve_slot_def free_slot_def advanced_register_index_def recede_register_index_def ss_locals_count_def
  spill_before_write_def rl_local_set_def check_unreachablity_def rl_operator.simps
  initial_reg_lower_state_def new_simulated_stack_def new_lazy_arena_def new_spill_arena_def new_interner_def
  SimulatedStack.defs reg_lower_state.defs layout_of_def apply_numeric_eq apply_to_signature_def
  apply_to_input_registers_def apply_to_output_registers_def

lemma straight_demo_stack: "\<exists>s. emit_loop [] [] straight_demo (initial_lower_state 2 1) = Ok ((), s) \<and>
    ls_instructions s = [LocalGet 0, Const (I32Const 5), LocalSet 0, LocalGet 0, Numeric (I32Binary I32Sub)]"
  by (simp add: straight_demo_def lower_defs func_label_def initial_lower_state_def default_control_stack_def)

lemma u16_numerals: "as_u16 n = n mod 65536" "U16_MAX = 65535"
  by (simp_all add: as_u16_def U16_MAX_def)

lemma straight_demo_registers: "\<exists>s. rl_loop_operators [] [] 1 straight_demo (initial_reg_lower_state 2 1 2) = Ok ((), s) \<and>
    max_registers s = 3 \<and> sp_allocation_len (spills s) = 1 \<and> in_values (const_interner s) = [C_I32 5] \<and>
    apply_backpatches 2 1 1 (backpatch_map s) (rl_instructions s) (layout_of s) =
      (Ok ([RLocalSpill 0 0, RLocalSet 0 [2], RNumeric (I32Binary I32Sub) \<lparr>sg_input = [3, 0], sg_output = 4\<rparr>],
        straight_layout) :: (TraceWasmError, _) result)"
  by (simp add: straight_demo_def straight_layout_def sim_defs lower_defs push_def push_grow_def pop_def new_stack_def
      u16_numerals u16_add_def apply_binary_def numeral_2_eq_2 numeral_3_eq_3)

lemma straight_demo_matched:
  "matched straight_layout [] \<lparr>base_register_index = 0\<rparr> [] (page_instance [10, 20]) (reg_page [10, 20, 5, 0, 0])"
proof -
  let ?cb = "\<lparr>base_register_index = 0\<rparr>" and ?t = "reg_page [10, 20, 5, 0, 0]"
  have at: "place_value straight_layout ?cb ?t (BP_Slot 0) = 10" "place_value straight_layout ?cb ?t (BP_Slot 1) = 20"
    "place_value straight_layout ?cb ?t (BP_Const 0) = 5"
    by (simp_all add: place_value_def slot_at_def straight_layout_def reg_page_def)
  have locals: "locals_of straight_layout = [BP_Slot 0, BP_Slot 1]"
    by (simp add: locals_of_def straight_layout_def upt_rec)
  have "operands (page_instance [10, 20]) [10, 20]"
    using page_instance_at [of "[10, 20]"] by (simp add: at_linear_def)
  then have "operands (page_instance [10, 20]) ([] @ map (place_value straight_layout ?cb ?t) (locals_of straight_layout @ []))"
    by (simp only: locals append_Nil append_Nil2 list.map at)
  moreover have "pool_loaded straight_layout ?cb ?t"
    using at(3) by (simp add: pool_loaded_def straight_layout_def from_i32_def)
  moreover have "frame_room straight_layout ?cb ?t"
    by (simp add: frame_room_def straight_layout_def reg_page_def frame_size_def)
  moreover have "same_env (page_instance [10, 20]) ?t"
    by (simp add: same_env_def page_instance_def reg_page_def)
  ultimately show ?thesis by (simp add: matched_def)
qed

theorem straight_code_agrees_witness:
  "\<exists>ops'. alike straight_layout [] \<lparr>base_register_index = 0\<rparr> ops'
    (run_straight demo_exec [LocalGet 0, Const (I32Const 5), LocalSet 0, LocalGet 0, Numeric (I32Binary I32Sub)])
    (page_instance [10, 20])
    (run_straight (\<lambda>y. reg_execute demo_floats linear_memory demo_registry y demo_reg_module straight_layout
        \<lparr>base_register_index = 0\<rparr> 0)
      [RLocalSpill 0 0, RLocalSet 0 [2], RNumeric (I32Binary I32Sub) \<lparr>sg_input = [3, 0], sg_output = 4\<rparr>])
    (reg_page [10, 20, 5, 0, 0])"
proof -
  obtain sl' where sl: "emit_loop [] [] straight_demo (initial_lower_state 2 1) = Ok ((), sl')"
    "ls_instructions sl' = [LocalGet 0, Const (I32Const 5), LocalSet 0, LocalGet 0, Numeric (I32Binary I32Sub)]"
    using straight_demo_stack by blast
  obtain s' where s': "rl_loop_operators [] [] 1 straight_demo (initial_reg_lower_state 2 1 2) = Ok ((), s')"
    "max_registers s' = 3" "sp_allocation_len (spills s') = 1" "in_values (const_interner s') = [C_I32 5]"
    and code: "apply_backpatches 2 (length (in_values (const_interner s'))) (sp_allocation_len (spills s'))
        (backpatch_map s') (rl_instructions s') (layout_of s') =
      (Ok ([RLocalSpill 0 0, RLocalSet 0 [2], RNumeric (I32Binary I32Sub) \<lparr>sg_input = [3, 0], sg_output = 4\<rparr>],
        straight_layout) :: (TraceWasmError, _) result)"
    using straight_demo_registers by auto
  have size: "max_registers s' + sp_allocation_len (spills s') + length (in_values (const_interner s')) \<le> U16_MAX"
    by (simp add: s' U16_MAX_def)
  have start: "forwards 2 [] (initial_reg_lower_state 2 1 2)" by (rule forwards_initial) (simp add: U16_MAX_def)
  have call: "same_call demo_reg_module demo_module [] demo_base 2"
    by (simp add: same_call_def demo_reg_module_def demo_module_def demo_base_def)
  have body: "straight_body 2 straight_demo \<noteq> None" by (simp add: straight_demo_def)
  from straight_code_agrees [OF body sl(1) s'(1) start initial_start(1,2) code size straight_demo_matched call,
      of demo_floats linear_memory demo_registry demo_layout 0]
  show ?thesis by (auto simp: sl(2) initial_lower_state_def simp del: run_straight.simps)
qed

end
