(* ===== verification/RegReturn.thy ===== *)
theory RegReturn
  imports RegStraightOperators
begin

text \<open>
  The end of a straight body: its results are moved to the first registers, where leaving the frame
  expects them.
\<close>

section \<open>Moves\<close>

lemma registers_fit:
  assumes "frame_room fl cb t" and "\<And>i. i < n \<Longrightarrow> placed fl (BP_Register (c + i))" and "n \<noteq> 0"
  shows "slot_of fl (BP_Register c) + n \<le> frame_size fl"
  using assms(3) slot_of_in_frame [OF _ assms(2) [of "n - 1"]] assms(1) by (cases n) (auto simp: frame_room_def)

lemma frame_room_put_slots:
  assumes "frame_room fl cb t" and "\<And>i. i < length vs \<Longrightarrow> placed fl (BP_Register (c + i))"
  shows "frame_room fl cb (put_slots t cb (slot_of fl (BP_Register c)) vs)"
proof (cases "vs = []")
  case False
  with registers_fit [OF assms(1), of "length vs" c] assms show ?thesis by (simp add: frame_room_def put_slots_def)
qed (use assms(1) in simp)

lemma place_value_moved:
  assumes room: "frame_room fl cb t" and vs: "length vs = n"
    and fits: "\<And>i. i < n \<Longrightarrow> placed fl (BP_Register (c + i))" and x: "placed fl x"
  shows "place_value fl cb (put_slots t cb (slot_of fl (BP_Register c)) vs) x =
    (case x of BP_Register r \<Rightarrow> if c \<le> r \<and> r < c + n then vs ! (r - c) else place_value fl cb t x
     | _ \<Rightarrow> place_value fl cb t x)"
proof -
  let ?k = "slot_of fl (BP_Register c)"
  have size: "?k + n \<le> frame_size fl" if "n \<noteq> 0"
    using registers_fit [OF room fits that] .
  have inside: "slot_of fl x < frame_size fl" using room x by (intro slot_of_in_frame) (simp_all add: frame_room_def)
  have "?k \<le> slot_of fl x \<and> slot_of fl x < ?k + n \<longleftrightarrow> (\<exists>r. x = BP_Register r \<and> c \<le> r \<and> r < c + n)"
  proof
    assume slots: "?k \<le> slot_of fl x \<and> slot_of fl x < ?k + n"
    define i where "i = slot_of fl x - ?k"
    with slots have "i < n" "slot_of fl x = slot_of fl (BP_Register (c + i))" by auto
    with slot_of_inj [OF x fits [of i]] show "\<exists>r. x = BP_Register r \<and> c \<le> r \<and> r < c + n" by auto
  qed auto
  then show ?thesis
    using inside size room vs
    by (cases "n = 0"; cases x)
      (auto simp: place_value_def slot_at_def put_slots_def nth_overwrite frame_room_def split: if_splits)
qed

lemma matched_move:
  assumes m: "matched fl low cb (xs @ ys) sS t" and c: "\<And>r. BP_Register r \<in> set xs \<Longrightarrow> r < c"
    and fits: "\<And>i. i < length ys \<Longrightarrow> placed fl (BP_Register (c + i))"
  shows "matched fl low cb (xs @ map BP_Register [c..<c + length ys]) sS
    (put_slots t cb (slot_of fl (BP_Register c)) (map (place_value fl cb t) ys))"
proof -
  note mD = matchedD [OF m]
  let ?vs = "map (place_value fl cb t) ys" and ?regs = "map BP_Register [c..<c + length ys]"
  let ?t = "put_slots t cb (slot_of fl (BP_Register c)) ?vs"
  have at: "place_value fl cb ?t x = (case x of
      BP_Register r \<Rightarrow> if c \<le> r \<and> r < c + length ys then ?vs ! (r - c) else place_value fl cb t x
    | _ \<Rightarrow> place_value fl cb t x)" if "placed fl x" for x
    by (rule place_value_moved [OF mD(2) _ fits that]) simp
  have moved: "map (place_value fl cb ?t) ?regs = ?vs"
  proof (rule nth_equalityI)
    fix i assume "i < length (map (place_value fl cb ?t) ?regs)"
    then have i: "i < length ys" by simp
    then show "map (place_value fl cb ?t) ?regs ! i = ?vs ! i"
      using at [OF fits [OF i]] by simp
  qed simp
  have kept: "map (place_value fl cb ?t) (locals_of fl @ xs) = map (place_value fl cb t) (locals_of fl @ xs)"
  proof (rule map_cong [OF refl])
    fix x assume x: "x \<in> set (locals_of fl @ xs)"
    then have "placed fl x" using mD(4) by auto
    with at [of x] x c show "place_value fl cb ?t x = place_value fl cb t x"
      by (auto simp: locals_of_def not_le dest: leD split: BackPatchableSlot.splits)
  qed
  have "frame_room fl cb ?t"
    by (rule frame_room_put_slots [OF mD(2) fits]) simp
  moreover have "pool_loaded fl cb ?t"
    using mD(3) at by (simp add: pool_loaded_def)
  moreover have "map (place_value fl cb ?t) (locals_of fl @ xs @ ?regs) =
      map (place_value fl cb t) (locals_of fl @ xs @ ys)"
    by (simp only: append_assoc [symmetric] map_append [of _ "locals_of fl @ xs"] kept moved)
  then have "operands sS (low @ map (place_value fl cb ?t) (locals_of fl @ xs @ ?regs))"
    using mD(5) by (simp only:)
  moreover have "same_env sS ?t"
    using mD(1) by (simp add: put_slots_def)
  moreover have "\<forall>x \<in> set (xs @ ?regs). placed fl x"
  proof
    fix x assume "x \<in> set (xs @ ?regs)"
    then consider "x \<in> set xs" | i where "i < length ys" "x = BP_Register (c + i)"
      by (auto simp: le_iff_add)
    then show "placed fl x" by cases (use mD(4) fits in auto)
  qed
  ultimately show ?thesis by (simp add: matched_def)
qed

section \<open>Operands moved to registers\<close>

lemma reg_exec_move_eq:
  assumes "eid < length (fl_dyn_signatures fl)" and "movable t cb (fl_dyn_signatures fl ! eid)"
  shows "reg_exec_move eid fl cb t = Ok (Next, put_slots t cb (ds_output_start (fl_dyn_signatures fl ! eid))
    (map (slot_at t cb) (ds_input (fl_dyn_signatures fl ! eid))))"
  using assms by (simp add: reg_exec_move_def index_def bnd_lift_result bnd_eq execute_mov_eq ret_eq)

lemma placed_movable:
  assumes "frame_room fl cb t" and "frame_size fl \<le> U16_MAX" and "\<And>x. x \<in> set ys \<Longrightarrow> placed fl x"
    and "\<And>i. i < length ys \<Longrightarrow> placed fl (BP_Register (c + i))" and "length ys \<noteq> 0"
  shows "movable t cb \<lparr>ds_input = map (slot_of fl) ys, ds_output_start = slot_of fl (BP_Register c)\<rparr>"
proof -
  have "slot_of fl (BP_Register c) + length ys \<le> frame_size fl"
    by (rule registers_fit [OF assms(1,4,5)])
  moreover have "\<forall>sl \<in> set (map (slot_of fl) ys). in_frame t cb sl"
    by (auto intro: frame_room_in_frame [OF assms(1)] assms(3))
  ultimately show ?thesis
    using assms(1,2) by (simp add: movable_def run_in_frame_def frame_room_def)
qed

lemma settled_move:
  assumes "settled fl [(Emit, ys)] (RMove eid) fl0 y"
    and "ds_output_start (fl_dyn_signatures fl0 ! eid) = c"
  shows "y = RMove eid \<and> eid < length (fl_dyn_signatures fl) \<and> fl_dyn_signatures fl ! eid =
    \<lparr>ds_input = map (slot_of fl) ys, ds_output_start = slot_of fl (BP_Register c)\<rparr>"
proof -
  obtain fl1 fl2 where y: "apply_patches (fl_locals_count fl) (length (fl_consts fl)) (fl_spills fl)
        [(Emit, ys)] (RMove eid) fl1 = (Ok (y, fl2) :: (TraceWasmError, _) result)"
    and eq: "fl_dyn_signatures fl0 ! eid = fl_dyn_signatures fl1 ! eid"
      "fl_dyn_signatures fl2 ! eid = fl_dyn_signatures fl ! eid"
    and shape: "same_shape fl1 fl"
    using assms(1) by (auto simp: settled_def)
  then have eid: "eid < length (fl_dyn_signatures fl1)" "y = RMove eid" and
    "fl_dyn_signatures fl2 ! eid = \<lparr>ds_input = map (slot_of fl) ys,
      ds_output_start = slot_of fl (BP_Register (ds_output_start (fl_dyn_signatures fl1 ! eid)))\<rparr>"
    by (auto simp: and_then_eq_Ok apply_to_dyn_signature_def dest!: applied)
  moreover have "in_arena (A_Move eid) fl" using eid(1) shape unfolding same_shape_def by simp
  ultimately show ?thesis using eq assms(2) by simp
qed

text \<open>The move a label, a call or the end of a body starts with. The stack machine does nothing.\<close>

lemma dyn_signatures_snoc:
  "dyn_signatures_update (\<lambda>es. es @ [x]) s = s\<lparr>dyn_signatures := dyn_signatures s @ [x]\<rparr>"
  for s :: reg_lower_state
  by (cases s; simp)

lemma wlp_materialize:
  fixes R :: "('m, 'i) import_registry_impl"
  assumes "forwards L ops s" and ok: "code_ok s" and n: "n \<noteq> 0"
    and Q: "\<And>xs ys c s'. ops = xs @ ys \<Longrightarrow> length ys = n \<Longrightarrow>
      compiles exS (register_runs fe D R md' cb imported) low cb L ops s [] (xs @ map BP_Register [c..<c + n]) s' \<Longrightarrow>
      rest_of s' = rest_of s \<Longrightarrow> Q () s'"
  shows "wlp (materialize n offset) Q s"
  unfolding materialize_def materialize_stack_slots_in_registers_def wlp_bnd wlp_rl_len
proof (rule wlp_pops_and_pushes_registers [OF assms(1)])
  fix xs ys c s1
  let ?len = "length (rl_instructions s)"
  let ?mov = "\<lparr>ds_input = replicate n U16_MAX, ds_output_start = c\<rparr>"
  assume ops: "ops = xs @ ys" "length ys = n" and fw: "forwards L (xs @ map BP_Register [c..<c + n]) s1"
    and st: "restacked (s\<lparr>backpatch_map := record_patch ?len (Emit, ys) (backpatch_map s)\<rparr>) s1"
    and fresh: "\<And>r. BP_Register r \<in> set xs \<Longrightarrow> r < c"
  note same = restacked_allocs [OF st] restackedD [OF st]
  let ?z = "RMove (length (dyn_signatures s1))" and ?ops = "xs @ map BP_Register [c..<c + n]"
  let ?s = "emitted ?z offset (s1\<lparr>dyn_signatures := dyn_signatures s1 @ [?mov]\<rparr>)"
  have alloc: "allocs_to s ?s" using same(1) by (auto simp: allocs_to_def)
  have entry: "ds_output_start (fl_dyn_signatures (layout_of ?s) ! length (dyn_signatures s1)) = c"
    by (simp add: layout_of_def)
  have fw': "forwards L ?ops ?s" using fw by simp
  have "compiles exS (register_runs fe D R md' cb imported) low cb L ops s [] ?ops ?s"
  proof (rule compiles_recorded [OF ok alloc _ _ _ fw'])
    fix fl y and sS :: "('m, 'i) StackInstance" and t :: "('m, 'i) RegInstance"
    assume c: "covers fl L ?s" and y: "settled fl [(Emit, ys)] ?z (layout_of ?s) y"
      and m: "matched fl low cb ops sS t"
    note sig = settled_move [OF y entry]
    have fits: "placed fl (BP_Register (c + i))" if "i < length ys" for i
      using that ops(2) by (intro covered_operands [OF c fw']) simp
    note mD = matchedD [OF m [unfolded ops(1)]]
    have "movable t cb (fl_dyn_signatures fl ! length (dyn_signatures s1))"
      unfolding sig [THEN conjunct2, THEN conjunct2]
      using mD(2,4) c n ops(2) fits by (intro placed_movable) (auto simp: covers_def)
    then have "reg_exec_move (length (dyn_signatures s1)) fl cb t =
        Ok (Next, put_slots t cb (slot_of fl (BP_Register c)) (map (place_value fl cb t) ys))"
      using sig by (subst reg_exec_move_eq) (simp_all add: place_value_def [abs_def] comp_def)
    moreover have "matched fl low cb ?ops sS (put_slots t cb (slot_of fl (BP_Register c)) (map (place_value fl cb t) ys))"
      using matched_move [OF m [unfolded ops(1)] fresh fits] by (simp add: ops(2))
    ultimately show "alike fl low cb ?ops (run_straight exS []) sS
        (run_straight (register_runs fe D R md' cb imported fl) [y]) t"
      using sig by (intro alike_register) simp_all
  qed (use same ops in \<open>simp_all add: layout_of_def\<close>)
  from Q [OF ops this] have "Q () ?s" using same by simp
  then show "wlp (case (replicate n U16_MAX, c) of (input, output) \<Rightarrow>
      ret \<lparr>ds_input = input, ds_output_start = output\<rparr>) (\<lambda>mov. wlp (emit_move mov offset) Q) s1"
    by (simp add: emit_move_def dyn_signatures_snoc)
qed

end
