(* ===== verification/StraightRuns.thy ===== *)
theory StraightRuns
  imports RegMatching
begin

text \<open>
  Straight code under the recursive driver: a body of instructions that fall through runs them one
  after the other, leaves its frame after the last, and stops with a trace at the first that traps.
\<close>

section \<open>One instruction\<close>

abbreviation vm_step where
  "vm_step vm module ac \<equiv> \<lambda>x. vm_execute vm x module (fb_frame_layout (ac_body ac)) (ac_base ac)
     (md_imported_func_count module)"

lemma execute_at_eq:
  assumes "pc < length (fb_instructions (ac_body ac))"
  shows "execute_at vm module ac pc s = (case vm_step vm module ac (fb_instructions (ac_body ac) ! pc) s of
      Ok (r, s') \<Rightarrow> Some (Inr r, s') | Err (e, s') \<Rightarrow> Some (Inl e, s') | Panic \<Rightarrow> None)"
  using assms
  by (simp add: execute_at_def run_infallible_def index_def bnd_lift_result attempt_def split: result.split prod.split)

section \<open>A run of instructions\<close>

text \<open>What the driver does when the code from \<open>pc\<close> to the end of the body has run.\<close>

definition leaves ::
    "('instr, 'layout, 'base, 'inst) machine \<Rightarrow> ('instr, 'layout, 'base) activation \<Rightarrow> nat \<Rightarrow> ('inst, Unwind, nat) fop" where
  "leaves vm ac depth = fbnd (fop_of (infallible_update (vm_exit_frame vm (ac_results_count ac) (ac_base ac)
     (fb_frame_layout (ac_body ac))))) (\<lambda>_. fop_of (lift_result (u32_sub depth 1)))"

lemma straight_run_Ok:
  fixes s :: 'inst and vm :: "('instr, 'layout, 'base, 'inst) machine"
  assumes "fb_instructions (ac_body ac) = pre @ xs" and "xs \<noteq> []"
    and "run_straight (vm_step vm module ac) xs s = Ok ((), s')"
  shows "native_loop (length xs + n) vm module ac (length pre) depth s = leaves vm ac depth s'"
  using assms
proof (induction xs arbitrary: pre s)
  case (Cons x xs)
  from Cons.prems(3) obtain t where x: "vm_step vm module ac x s = Ok (Next, t)"
    and rest: "run_straight (vm_step vm module ac) xs t = Ok ((), s')"
    by (auto simp: bnd_def panic_def split: result.splits Step.splits)
  have at: "execute_at vm module ac (length pre) s = Some (Inr Next, t)"
    using x Cons.prems(1) by (simp add: execute_at_eq)
  have code: "fb_instructions (ac_body ac) = (pre @ [x]) @ xs" using Cons.prems(1) by simp
  show ?case
  proof (cases "xs = []")
    case True
    with rest have "t = s'" by (simp add: ret_def)
    with at True Cons.prems(1) show ?thesis
      by (simp add: native_loop_Suc native_advance_def leaves_def)
  next
    case False
    with at code Cons.IH [OF code False rest] show ?thesis
      by (simp add: native_loop_Suc native_advance_def)
  qed
qed simp

lemma straight_run_Err:
  fixes s :: 'inst and vm :: "('instr, 'layout, 'base, 'inst) machine"
  assumes "fb_instructions (ac_body ac) = pre @ xs"
    and "run_straight (vm_step vm module ac) xs s = Err (e, s')"
  shows "\<exists>pc < length (fb_instructions (ac_body ac)). native_loop (length xs + n) vm module ac (length pre) depth s =
    fop_of (fail_with (trap_here (ac_func_index ac) pc (fb_instruction_offsets (ac_body ac)) e)) s'"
  using assms
proof (induction xs arbitrary: pre s)
  case (Cons x xs)
  have code: "fb_instructions (ac_body ac) = (pre @ [x]) @ xs" using Cons.prems(1) by simp
  from Cons.prems(2) consider "vm_step vm module ac x s = Err (e, s')"
    | t where "vm_step vm module ac x s = Ok (Next, t)" "run_straight (vm_step vm module ac) xs t = Err (e, s')"
    by (auto simp: bnd_def panic_def split: result.splits Step.splits)
  then show ?case
  proof cases
    case 1
    then have at: "execute_at vm module ac (length pre) s = Some (Inl e, s')"
      using Cons.prems(1) by (simp add: execute_at_eq)
    show ?thesis
      by (rule exI [of _ "length pre"]) (simp add: native_loop_Suc at code)
  next
    case 2
    then have at: "execute_at vm module ac (length pre) s = Some (Inr Next, t)"
      using Cons.prems(1) by (simp add: execute_at_eq)
    have "xs \<noteq> []" using 2(2) by (auto simp: ret_def)
    with at code Cons.IH [OF code 2(2)] show ?thesis
      by (simp add: native_loop_Suc native_advance_def)
  qed
qed (simp add: ret_def)

lemma straight_run_Panic:
  fixes s :: 'inst and vm :: "('instr, 'layout, 'base, 'inst) machine"
  assumes "fb_instructions (ac_body ac) = pre @ xs"
    and "run_straight (vm_step vm module ac) xs s = Panic"
    and "\<And>x t. x \<in> set xs \<Longrightarrow> wlp (vm_step vm module ac x) (\<lambda>r _. r = Next) t"
  shows "native_loop (length xs + n) vm module ac (length pre) depth s = Some Panic"
  using assms
proof (induction xs arbitrary: pre s)
  case (Cons x xs)
  have code: "fb_instructions (ac_body ac) = (pre @ [x]) @ xs" using Cons.prems(1) by simp
  have next_: "wlp (vm_step vm module ac x) (\<lambda>r _. r = Next) s" using Cons.prems(3) by simp
  from Cons.prems(2) wlpD [OF next_] consider "vm_step vm module ac x s = Panic"
    | t where "vm_step vm module ac x s = Ok (Next, t)" "run_straight (vm_step vm module ac) xs t = Panic"
    by (fastforce simp: bnd_def panic_def split: result.splits Step.splits)
  then show ?case
  proof cases
    case 1
    then have "execute_at vm module ac (length pre) s = None"
      using Cons.prems(1) by (simp add: execute_at_eq)
    then show ?thesis by (simp add: native_loop_Suc)
  next
    case 2
    then have at: "execute_at vm module ac (length pre) s = Some (Inr Next, t)"
      using Cons.prems(1) by (simp add: execute_at_eq)
    have "xs \<noteq> []" using 2(2) by (auto simp: ret_def)
    with at code Cons.IH [OF code 2(2)] Cons.prems(3) show ?thesis
      by (simp add: native_loop_Suc native_advance_def)
  qed
qed (simp add: ret_def)

end
