(* ===== verification/RegBodies.thy ===== *)
theory RegBodies
  imports RegReturn RegStraightProperties StraightRuns
begin

text \<open>
  Whole bodies of straight code: the run of operators and the \<open>end\<close> of the function. The stack
  lowering adds an \<open>End\<close> that checks the height; the register lowering moves the results into the
  first registers and checks that nothing else is pending.
\<close>

section \<open>The stack lowering\<close>

lemma wlp_stack_end:
  assumes "cs_inner (ls_control s) = [func_label p r]" and "r \<le> U32_MAX"
  shows "wlp (lower_step types func_decls Op_End offset)
    (\<lambda>_ s'. ls_instructions s' = ls_instructions s @ [End r 0]) s"
  using assms by (auto simp: lower_step_def lower_operator.simps lower_end_def pop_block_def func_label_def
      next_index_def patch_if_def emit_instruction_def set_height_def note_height_def u32_add_def)

lemma wlp_stack_function:
  assumes "straight_body L body = Some xs" and "r \<le> U32_MAX"
  shows "wlp (emit_loop types func_decls (body @ [Inr (Op_End, offset)]))
    (\<lambda>_ s'. ls_instructions s' = xs @ [End r 0]) (initial_lower_state p r)"
  unfolding emit_loop_append wlp_bnd
proof (rule wlp_mono [OF wlp_stack_run [OF assms(1)]])
  fix s' :: lower_state assume "ls_instructions s' = ls_instructions (initial_lower_state p r) @ xs \<and>
    cs_inner (ls_control s') = cs_inner (ls_control (initial_lower_state p r))"
  then have "ls_instructions s' = xs" "cs_inner (ls_control s') = [func_label p r]"
    by (simp_all add: initial_lower_state_def)
  with wlp_stack_end [of s' p r] assms(2)
  show "wlp (emit_loop types func_decls [Inr (Op_End, offset)]) (\<lambda>_ s'. ls_instructions s' = xs @ [End r 0]) s'"
    by simp
qed

section \<open>The register lowering\<close>

lemma forwards_control [simp]:
  "forwards L ops (s\<lparr>ss_control_stack := bs\<rparr>) = forwards L ops s"
  by (simp add: forwards_def entries_ok_def)

lemma forwards_height:
  assumes "forwards L ops s" and "length ops \<le> U32_MAX"
  shows "height (ss_stack s) = length ops"
proof -
  obtain es where es: "holds (ss_stack s) es" "length es = length ops"
    using assms(1) unfolding forwards_def entries_ok_def by (metis length_map)
  show ?thesis using assms(2) es(2) holds_pointer [OF es(1)] by (simp add: height_def)
qed

lemma operand_in_register: "operand_in la e = BP_Register r \<longleftrightarrow> e = SS_Register r"
proof (cases e)
  case (SS_Local i)
  then show ?thesis by (cases "lazy_at la i") simp_all
qed simp_all

lemma forwards_only_registers:
  assumes "forwards L (map BP_Register rs) s"
  shows "rs = [L..<curr_register_index s]"
proof -
  obtain es where ok: "entries_ok L es s" and es: "map (operand_in (lazy_locals s)) es = map BP_Register rs"
    using assms by (auto simp: forwards_def)
  have "stack_registers es = rs"
    using es
  proof (induction es arbitrary: rs)
    case (Cons e es)
    then obtain r rs' where rs: "rs = r # rs'" by (cases rs) auto
    with Cons.prems have "e = SS_Register r" by (simp add: operand_in_register)
    with Cons rs show ?case by simp
  qed simp
  with ok show ?thesis by (simp add: entries_ok_def)
qed

lemma func_label_sel [simp]:
  "lb_results (func_label p r) = r" "lb_recorded_height (func_label p r) = 0"
  "lb_attached_breaks (func_label p r) = []" "lb_kind (func_label p r) = BK_Func"
  by (simp_all add: func_label_def)

lemma end_compiled:
  fixes R :: "('m, 'i) import_registry_impl"
  assumes fw: "forwards L ops s" and ok: "code_ok s"
  shows "compiles exS (register_runs fe D R md' cb imported) low cb L ops s [] ops (emitted REnd offset s)"
proof (rule compiles_plain [OF ok])
  fix fl and sS :: "('m, 'i) StackInstance" and t :: "('m, 'i) RegInstance"
  assume "matched fl low cb ops sS t"
  then show "alike fl low cb ops (run_straight exS []) sS
      (run_straight (register_runs fe D R md' cb imported fl) [REnd]) t"
    by (intro alike_register [of _ _ _ t]) (simp_all add: ret_def)
qed (use fw in simp_all)

text \<open>The \<open>end\<close> of a function, without its move.\<close>

definition function_tail :: "nat \<Rightarrow> nat \<Rightarrow> unit reg_lower_op" where
  "function_tail r offset =
     bnd ss_height (\<lambda>h. bnd (lift_result (u32_add 0 r)) (\<lambda>expected.
       if h \<noteq> expected then panic
       else bnd rl_len (\<lambda>len. bnd (for_each [] (rl_patch_break (as_u32 len))) (\<lambda>_.
            bnd (rl_patch_if (as_u32 len) BK_Func) (\<lambda>_. push_instr REnd offset)))))"

lemma rl_end_function:
  assumes "ss_control_stack s = [func_label p r]"
  shows "wlp (rl_end offset) Q s =
    wlp (bnd (if r \<noteq> 0 then materialize r offset else ret ()) (\<lambda>_. function_tail r offset)) Q (s\<lparr>ss_control_stack := []\<rparr>)"
proof -
  have "ss_pop_block s = Ok (func_label p r, s\<lparr>ss_control_stack := []\<rparr>)"
    by (simp add: ss_pop_block_def bnd_def gets_def modify_def ret_def assms)
  then have "rl_end offset s = bnd (if r \<noteq> 0 then materialize r offset else ret ())
      (\<lambda>_. function_tail r offset) (s\<lparr>ss_control_stack := []\<rparr>)"
    by (simp only: rl_end_def bnd_eq function_tail_def func_label_sel)
  then show ?thesis by (simp only: wlp_def)
qed

text \<open>The results end up in the first registers.\<close>

lemma wlp_function_end:
  fixes R :: "('m, 'i) import_registry_impl"
  assumes fw: "forwards L ops s" and ok: "code_ok s" and label: "ss_control_stack s = [func_label p r]"
    and small: "length ops \<le> U32_MAX"
  shows "wlp (rl_end offset) (\<lambda>_ s'. length ops = r \<and> rl_instructions s' \<noteq> [] \<and>
      compiles exS (register_runs fe D R md' cb imported) low cb L ops s [] (map BP_Register [L..<L + r]) s' \<and>
      call_instr_backpatches s' = call_instr_backpatches s) s"
proof -
  let ?RR = "register_runs fe D R md' cb imported" and ?s = "s\<lparr>ss_control_stack := []\<rparr>"
  let ?Q = "\<lambda>s'. length ops = r \<and> rl_instructions s' \<noteq> [] \<and>
      compiles exS ?RR low cb L ops s [] (map BP_Register [L..<L + r]) s' \<and>
      call_instr_backpatches s' = call_instr_backpatches s"
  have popped: "compiles exS ?RR low cb L ops s [] ops ?s"
    by (rule compiles_silent [OF ok]) (use fw in \<open>simp_all add: allocs_to_def paired_ret\<close>)
  have finish: "wlp (function_tail r offset) (\<lambda>_. ?Q) s1"
    if s1: "compiles exS ?RR low cb L ops s [] ops1 s1" "call_instr_backpatches s1 = call_instr_backpatches s"
      and "length ops1 = length ops"
      and ops1: "length ops = r \<Longrightarrow> ops1 = map BP_Register [L..<L + r]" for ops1 s1
  proof -
    have fw1: "forwards L ops1 s1" and ok1: "code_ok s1" using s1(1) by (simp_all add: compiles_def)
    have h: "height (ss_stack s1) = length ops"
      using forwards_height [OF fw1] that(3) small by simp
    have "?Q (emitted REnd offset s1)" if r: "length ops = r"
      using compiles_append [OF s1(1) end_compiled [OF fw1 ok1]] s1(2) ops1 [OF r] r by simp
    then show ?thesis by (simp add: function_tail_def ss_height_def h u32_add_def rl_patch_if_def)
  qed
  show ?thesis
  proof (cases "r = 0")
    case True
    have "wlp (function_tail r offset) (\<lambda>_. ?Q) ?s"
      by (rule finish [OF popped]) (use True in simp_all)
    with True show ?thesis by (simp add: rl_end_function [OF label])
  next
    case False
    have "wlp (materialize r offset) (\<lambda>_. wlp (function_tail r offset) (\<lambda>_. ?Q)) ?s"
    proof (rule wlp_materialize [OF _ _ False, where exS = exS and fe = fe and D = D and R = R and md' = md'
          and cb = cb and imported = imported and low = low])
      show "forwards L ops ?s" "code_ok ?s" using popped by (simp_all add: compiles_def)
      fix xs ys c s1
      assume ops: "ops = xs @ ys" "length ys = r" and rest: "rest_of s1 = rest_of ?s"
        and moved: "compiles exS ?RR low cb L ops ?s [] (xs @ map BP_Register [c..<c + r]) s1"
      show "wlp (function_tail r offset) (\<lambda>_. ?Q) s1"
      proof (rule finish)
        show "compiles exS ?RR low cb L ops s [] (xs @ map BP_Register [c..<c + r]) s1"
          using compiles_append [OF popped moved] by simp
        show "call_instr_backpatches s1 = call_instr_backpatches s" using rest by simp
        show "length (xs @ map BP_Register [c..<c + r]) = length ops" using ops by simp
        assume "length ops = r"
        then have "xs = []" using ops by simp
        then have "forwards L (map BP_Register [c..<c + r]) s1" using moved by (simp add: compiles_def)
        then have eq: "[c..<c + r] = [L..<curr_register_index s1]" by (rule forwards_only_registers)
        moreover have "[c..<c + r] \<noteq> []" using False by simp
        ultimately have "hd [c..<c + r] = hd [L..<curr_register_index s1]" "L < curr_register_index s1"
          by simp_all
        then have "c = L" using False by (simp add: upt_conv_Cons)
        with \<open>xs = []\<close> show "xs @ map BP_Register [c..<c + r] = map BP_Register [L..<L + r]" by simp
      qed
    qed
    with False show ?thesis by (simp add: rl_end_function [OF label])
  qed
qed

lemma rl_loop_append:
  "rl_loop_operators types func_decls results (xs @ ys) =
     bnd (rl_loop_operators types func_decls results xs) (\<lambda>_. rl_loop_operators types func_decls results ys)"
proof (induction xs)
  case Nil
  show ?case by (rule ext) (simp add: bnd_def ret_def)
next
  case (Cons x xs)
  show ?case
  proof (cases x)
    case (Inl e)
    then show ?thesis by (auto simp: bnd_def fail_def)
  next
    case (Inr b)
    then show ?thesis
      by (cases b) (simp only: append_Cons rl_loop_operators.simps Cons.IH bnd_assoc)
  qed
qed

lemma length_straight_body: "straight_body L reader = Some xs \<Longrightarrow> length xs = length reader"
  by (induction reader arbitrary: xs) (auto elim!: straight_body_Cons)

lemma wlp_register_function:
  fixes R :: "('m, 'i) import_registry_impl"
  assumes body: "straight_body L body = Some xs" and L: "L \<le> U16_MAX" and small: "length body \<le> U32_MAX"
    and call: "same_call md' md low cb' L"
  shows "wlp (rl_loop_operators types func_decls r (body @ [Inr (Op_End, offset)]))
    (\<lambda>_ s'. rl_instructions s' \<noteq> [] \<and> call_instr_backpatches s' = [] \<and>
       compiles (stack_runs fe D R md layout cb' imported) (register_runs fe D R md' cb imported) low cb L
         [] (initial_reg_lower_state p r L) xs (map BP_Register [L..<L + r]) s') (initial_reg_lower_state p r L)"
  unfolding rl_loop_append wlp_bnd
proof (rule wlp_mono [OF wlp_register_body [OF body forwards_initial [OF L] initial_start(1,2) call,
      where fe = fe and D = D and R = R and layout = layout and imported = imported and cb = cb]])
  let ?SR = "stack_runs fe D R md layout cb' imported" and ?RR = "register_runs fe D R md' cb imported"
  let ?s = "initial_reg_lower_state p r L"
  fix s1 assume "compiled ?SR ?RR low cb L [] ?s xs s1"
  then obtain ops where one: "compiles ?SR ?RR low cb L [] ?s xs ops s1" and rest: "rest_of s1 = rest_of ?s"
    by (auto simp: compiled_def)
  then have fw: "forwards L ops s1" and ok: "code_ok s1" and len: "length ops \<le> length xs"
    by (simp_all add: compiles_def)
  have label: "ss_control_stack s1 = [func_label p r]" and dead: "\<not> dead_code s1"
    and calls: "call_instr_backpatches s1 = []"
    using rest by (simp_all add: initial_reg_lower_state_def SimulatedStack.defs reg_lower_state.defs)
  have "length ops \<le> U32_MAX" using len small length_straight_body [OF body] by simp
  from wlp_function_end [OF fw ok label this, where exS = ?SR and fe = fe and D = D and R = R and md' = md'
      and cb = cb and imported = imported and low = low and offset = "as_u32 offset"]
  have "wlp (rl_end (as_u32 offset)) (\<lambda>_ s'. rl_instructions s' \<noteq> [] \<and>
      call_instr_backpatches s' = [] \<and>
      compiles ?SR ?RR low cb L [] ?s xs (map BP_Register [L..<L + r]) s') s1"
    by (rule wlp_mono) (use compiles_append [OF one, of "[]"] calls in auto)
  with dead show "wlp (rl_loop_operators types func_decls r [Inr (Op_End, offset)]) (\<lambda>_ s'. rl_instructions s' \<noteq> [] \<and> call_instr_backpatches s' = [] \<and>
      compiles ?SR ?RR low cb L [] ?s xs (map BP_Register [L..<L + r]) s') s1"
    by (simp add: check_unreachablity_def rl_operator.simps)
qed

section \<open>The finished body\<close>

lemma resolve_layout_Ok:
  assumes "resolve_layout s = Ok ((code, offs, fl), s')" and "call_instr_backpatches s = []" and "forwards L ops s"
  shows "apply_backpatches L (length (in_values (const_interner s))) (sp_allocation_len (spills s))
      (backpatch_map s) (rl_instructions s) (layout_of s) = (Ok (code, fl) :: (TraceWasmError, _) result)"
    and "max_registers s + sp_allocation_len (spills s) + length (in_values (const_interner s)) \<le> U16_MAX"
    and "offs = rl_offsets s"
proof -
  obtain es where es: "entries_ok L es s" using assms(3) by (auto simp: forwards_def)
  then have "length (in_values (const_interner s)) \<le> U16_MAX" by (simp add: entries_ok_def interner_ok_def)
  then have pool: "as_u16 (length (in_values (const_interner s))) = length (in_values (const_interner s))" by simp
  from assms(1,2) show "apply_backpatches L (length (in_values (const_interner s))) (sp_allocation_len (spills s))
      (backpatch_map s) (rl_instructions s) (layout_of s) = (Ok (code, fl) :: (TraceWasmError, _) result)"
    and "max_registers s + sp_allocation_len (spills s) + length (in_values (const_interner s)) \<le> U16_MAX"
    and "offs = rl_offsets s"
    by (auto simp: resolve_layout_def bnd_def gets_def Let_def fail_def lift_result_def ret_def pool
        entries_locals_count [OF es] split: if_splits result.splits)
qed

lemma resolved_function:
  fixes R :: "('m, 'i) import_registry_impl"
  assumes body: "straight_body L body = Some xs" and L: "L \<le> U16_MAX" and small: "length body \<le> U32_MAX"
    and call: "same_call md' md low cb' L"
    and emit: "reg_emit_instructions_for_func (body @ [Inr (Op_End, offset)]) p r types func_decls L = Ok (code, offs, fl)"
  shows "code \<noteq> [] \<and> length offs = length code \<and> fl_locals_count fl = L \<and> L \<le> fl_registers fl \<and>
    frame_size fl \<le> U16_MAX \<and> (\<forall>i < r. placed fl (BP_Register (L + i))) \<and>
    (\<forall>sS t. matched fl low cb [] sS t \<longrightarrow> alike fl low cb (map BP_Register [L..<L + r])
       (run_straight (stack_runs fe D R md layout cb' imported) xs) sS
       (run_straight (register_runs fe D R md' cb imported fl) code) t)"
proof -
  let ?SR = "stack_runs fe D R md layout cb' imported" and ?RR = "register_runs fe D R md' cb imported"
  let ?s = "initial_reg_lower_state p r L"
  from emit obtain s1 s2 where lower: "rl_loop_operators types func_decls r (body @ [Inr (Op_End, offset)]) ?s = Ok ((), s1)"
    and resolve: "resolve_layout s1 = Ok ((code, offs, fl), s2)"
    by (auto simp: reg_emit_instructions_for_func_def bnd_def split: result.splits)
  have "rl_instructions s1 \<noteq> [] \<and> call_instr_backpatches s1 = [] \<and>
      compiles ?SR ?RR low cb L [] ?s xs (map BP_Register [L..<L + r]) s1"
    by (rule wlpD [OF wlp_register_function [OF body L small call] lower])
  then have nonempty: "rl_instructions s1 \<noteq> []" and calls: "call_instr_backpatches s1 = []"
    and comp: "compiles ?SR ?RR low cb L [] ?s xs (map BP_Register [L..<L + r]) s1" by simp_all
  have fw: "forwards L (map BP_Register [L..<L + r]) s1" and ok: "code_ok s1"
    using comp by (simp_all add: compiles_def)
  note resolved = resolve_layout_Ok [OF resolve calls fw]
  note finished = resolved_code [OF fw ok resolved(1,2)]
  have "placed fl (BP_Register (L + i))" if "i < r" for i
    using that by (intro covered_operands [OF finished(2) fw]) simp
  moreover have "length offs = length code" using ok finished(1) resolved(3) by (simp add: code_ok_def)
  moreover have "code \<noteq> []" using finished(1) nonempty by auto
  moreover have "alike fl low cb (map BP_Register [L..<L + r]) (run_straight ?SR xs) sS
      (run_straight (?RR fl) code) t" if "matched fl low cb [] sS t" for sS t
    using compiles_resolved [OF comp resolved(1,2) that] by simp
  ultimately show ?thesis using finished(2) by (simp add: covers_def)
qed

end
