(* ===== verification/RegFunctions.thy ===== *)
theory RegFunctions
  imports RegBodies FrameProperties
begin

text \<open>
  A function of straight code from its arguments to its results, on both machines: entering the
  frame, running the body under the driver, leaving the frame and reading the results.
\<close>

section \<open>Success without an error\<close>

lemma wp_returns:
  assumes "wp m Q (\<lambda>_ _. False) s"
  obtains a s' where "m s = Ok (a, s')" "Q a s'"
  using assms by (auto simp: wp_def split: result.splits)

lemma on_frame_returns:
  assumes "wp m Q (\<lambda>_ _. False) (frame s)"
  obtains a f where "on_frame m s = Ok (a, s\<lparr>frame := f\<rparr>)" "Q a f"
proof -
  obtain a f where "m (frame s) = Ok (a, f)" "Q a f" using wp_returns [OF assms] .
  with that on_frame_eq [of m s a f] show thesis by blast
qed

section \<open>Entry\<close>

lemma stack_params:
  assumes "holds (frame s) []"
  obtains f where "vm_set_initial_params (stack_machine fe D R) params s = Some (s\<lparr>frame := f\<rparr>)"
    "holds f (map value_of_val params)"
proof -
  have "wp (set_initial_params params) (\<lambda>_ f. holds f ([] @ map value_of_val params)) (\<lambda>(_ :: unit) _. False) (frame s)"
    unfolding set_initial_params_def by (rule value_stack.push_each [OF assms])
  from on_frame_returns [OF this] obtain a f where f:
    "on_frame (set_initial_params params) s = (Ok (a, s\<lparr>frame := f\<rparr>) :: (unit \<times> _, _) result)"
    "holds f ([] @ map value_of_val params)" .
  show thesis
    by (rule that [of f]) (use f in \<open>simp_all add: stack_machine_def run_infallible_def\<close>)
qed

lemma register_params:
  "vm_set_initial_params (reg_machine fe D R) params (t\<lparr>frame := frame t\<lparr>registers := []\<rparr>\<rparr>) =
     Some (t\<lparr>frame := frame t\<lparr>registers := map value_of_val params\<rparr>\<rparr>)"
proof -
  have "for_each params (\<lambda>param. modify (\<lambda>f. f\<lparr>registers := registers f @ [value_of_val param]\<rparr>)) f =
      (Ok ((), f\<lparr>registers := registers f @ map value_of_val params\<rparr>) :: (unit \<times> _, _) result)" for f :: RegFrame
    by (induction params arbitrary: f) (simp_all add: bnd_def modify_def ret_def)
  then show ?thesis
    by (simp add: reg_machine_def reg_set_initial_params_def run_infallible_def on_field_def)
qed

lemma entered_registers:
  assumes "length args \<le> length tys" and "length tys \<le> fl_registers fl"
    and "i < length tys + length (fl_consts fl)"
  shows "overwrite (grown (frame_size fl) args) (length args) (entry_image (length args) tys fl) ! i =
    (args @ replicate (length tys - length args) 0 @ map const_value (fl_consts fl)) ! i"
  using assms by (auto simp: entry_image_def frame_size_def nth_overwrite nth_append)

text \<open>Both frames are entered with the same arguments.\<close>

lemma entered_matched:
  assumes env: "same_env s t" and args: "holds (frame s) args" "registers (frame t) = args"
    and tys: "length args \<le> length tys" "\<forall>ty \<in> set tys. ty \<noteq> T_V128"
    and fl: "fl_locals_count fl = length tys" "length tys \<le> fl_registers fl" "frame_size fl \<le> U16_MAX"
  obtains f g where
    "vm_enter_frame (stack_machine fe D R) (length args) tys \<lparr>base_height = 0, callee_frame_base_height = U32_MAX\<rparr> layout s =
      Some (\<lparr>base_height = 0, callee_frame_base_height = length tys\<rparr>, s\<lparr>frame := f\<rparr>)"
    "vm_enter_frame (reg_machine fe D R) (length args) tys \<lparr>base_register_index = 0\<rparr> fl t =
      Some (\<lparr>base_register_index = 0\<rparr>, t\<lparr>frame := g\<rparr>)"
    "matched fl [] \<lparr>base_register_index = 0\<rparr> [] (s\<lparr>frame := f\<rparr>) (t\<lparr>frame := g\<rparr>)"
proof -
  let ?cb = "\<lparr>base_height = 0, callee_frame_base_height = U32_MAX\<rparr>" and ?rb = "\<lparr>base_register_index = 0\<rparr>"
  let ?zeros = "replicate (length tys - length args) 0"
  have small: "length tys \<le> U32_MAX" using fl by (simp add: frame_size_def U16_MAX_def)
  have "wp (enter_frame (length args) tys ?cb) (\<lambda>cb' f. cb' = ?cb\<lparr>callee_frame_base_height := 0 + length tys\<rparr> \<and>
      holds f ([] @ args @ ?zeros)) (\<lambda>(_ :: unit) _. False) (frame s)"
    using enter_frame_wp [of "frame s" "[]" args "length args" tys ?cb] args tys small by simp
  from on_frame_returns [OF this] obtain a f where
    stack: "on_frame (enter_frame (length args) tys ?cb) s = (Ok (a, s\<lparr>frame := f\<rparr>) :: (unit \<times> _, _) result)"
    and f: "a = ?cb\<lparr>callee_frame_base_height := 0 + length tys\<rparr> \<and> holds f ([] @ args @ ?zeros)" .
  define rs where "rs = overwrite (grown (frame_size fl) args) (length args) (entry_image (length args) tys fl)"
  define g where "g = (frame t)\<lparr>registers := rs\<rparr>"
  have "on_frame (reg_enter_frame (length args) tys ?rb fl) t = (Ok ((), t\<lparr>frame := g\<rparr>) :: (unit \<times> _, _) result)"
    by (rule on_frame_eq) (simp add: reg_enter_frame_eq [OF tys fl(2)] g_def rs_def args(2))
  then have register: "vm_enter_frame (reg_machine fe D R) (length args) tys ?rb fl t = Some (?rb, t\<lparr>frame := g\<rparr>)"
    by (simp add: reg_machine_def run_infallible_def)
  have size: "length rs = max (frame_size fl) (length args)"
    using tys(1) fl(2) by (simp add: rs_def entry_image_def frame_size_def)
  note at = entered_registers [OF tys(1) fl(2), folded rs_def]
  have "map (place_value fl ?rb (t\<lparr>frame := g\<rparr>)) (locals_of fl) = args @ ?zeros"
  proof (rule nth_equalityI)
    show "length (map (place_value fl ?rb (t\<lparr>frame := g\<rparr>)) (locals_of fl)) = length (args @ ?zeros)"
      using tys(1) fl(1) by simp
    fix i assume "i < length (map (place_value fl ?rb (t\<lparr>frame := g\<rparr>)) (locals_of fl))"
    then show "map (place_value fl ?rb (t\<lparr>frame := g\<rparr>)) (locals_of fl) ! i = (args @ ?zeros) ! i"
      using at [of i] fl(1) tys(1) by (auto simp: place_value_def slot_at_def g_def locals_of_def nth_append)
  qed
  moreover have "pool_loaded fl ?rb (t\<lparr>frame := g\<rparr>)"
    using at [of "_ + length tys"] tys(1)
    by (auto simp: pool_loaded_def place_value_def slot_at_def g_def fl(1) nth_append)
  moreover have "frame_room fl ?rb (t\<lparr>frame := g\<rparr>)"
    using fl size by (simp add: frame_room_def g_def U16_MAX_def)
  ultimately have "matched fl [] ?rb [] (s\<lparr>frame := f\<rparr>) (t\<lparr>frame := g\<rparr>)"
    using env f by (simp add: matched_def)
  with that [of f g] register stack f show thesis by (simp add: stack_machine_def run_infallible_def)
qed

section \<open>Exit\<close>

lemma end_falls_through:
  assumes "matched fl [] cb ops s t" and "base_height cb' = 0" "callee_frame_base_height cb' = fl_locals_count fl"
    and "fl_locals_count fl + length ops \<le> U32_MAX"
  shows "exec_end cb' (length ops) 0 s = Ok (Next, s)"
proof -
  have "holds (frame s) (map (place_value fl cb t) (locals_of fl @ ops))"
    using matchedD(5) [OF assms(1)] by (simp add: operands_def)
  from holds_pointer [OF this] have "height (frame s) = fl_locals_count fl + length ops"
    using assms(4) by (simp add: height_def)
  with assms(3,4) show ?thesis
    by (simp add: exec_end_def frame_height_def u32_add_def lift_result_def bnd_def gets_def ret_def add.commute)
qed

text \<open>The results of a finished frame, as the caller finds them.\<close>

lemma results_read:
  assumes m: "matched fl [] \<lparr>base_register_index = 0\<rparr> (map BP_Register [fl_locals_count fl..<fl_locals_count fl + r]) s t"
    and cb: "base_height cb = 0"
  obtains f g vs where "length vs = r"
    "vm_exit_frame (stack_machine fe D R) r cb layout s = Some (s\<lparr>frame := f\<rparr>)" "holds f vs"
    "vm_exit_frame (reg_machine fe D R) r \<lparr>base_register_index = 0\<rparr> fl t = Some (t\<lparr>frame := g\<rparr>)" "window g 0 vs"
proof -
  let ?rb = "\<lparr>base_register_index = 0\<rparr>" and ?L = "fl_locals_count fl"
  let ?regs = "map BP_Register [?L..<?L + r]"
  note mD = matchedD [OF m]
  define vs where "vs = map (place_value fl ?rb t) ?regs"
  have "holds (frame s) ([] @ map (place_value fl ?rb t) (locals_of fl) @ vs)"
    using mD(5) by (simp add: operands_def vs_def del: map_map)
  from exit_frame_wp [OF this, of cb r] cb
  have "wp (exit_frame r cb) (\<lambda>_ f. holds f ([] @ vs)) (\<lambda>(_ :: unit) _. False) (frame s)"
    by (simp add: vs_def)
  from on_frame_returns [OF this] obtain a f where stack:
    "on_frame (exit_frame r cb) s = (Ok (a, s\<lparr>frame := f\<rparr>) :: (unit \<times> _, _) result)" "holds f ([] @ vs)" .
  have fits: "placed fl (BP_Register (?L + i))" if "i < r" for i
    using that by (intro mD(4)) simp
  have room: "operand_base fl + r \<le> length (registers (frame t))"
  proof (cases "r = 0")
    case False
    from registers_fit [OF mD(2) fits this] mD(2) show ?thesis
      by (simp add: frame_room_def operand_base_def)
  next
    case True
    with mD(2) show ?thesis by (simp add: frame_room_def operand_base_def frame_size_def)
  qed
  have slice: "sub_slice (registers (frame t)) (operand_base fl) r = vs"
    using room by (intro nth_equalityI)
      (simp_all add: vs_def nth_sub_slice place_value_def slot_at_def operand_base_def algebra_simps)
  define g where "g = (frame t)\<lparr>registers := overwrite (registers (frame t)) 0 vs\<rparr>"
  have "on_frame (reg_exit_frame r ?rb fl) t = (Ok ((), t\<lparr>frame := g\<rparr>) :: (unit \<times> _, _) result)"
    by (rule on_frame_eq) (use room slice in \<open>simp add: reg_exit_frame_eq g_def\<close>)
  moreover have "window g 0 vs"
    using room by (intro windowI) (simp_all add: g_def nth_overwrite vs_def)
  moreover have "length vs = r" by (simp add: vs_def)
  ultimately show thesis
    using stack by (intro that [of vs f g]) (simp_all add: stack_machine_def reg_machine_def run_infallible_def)
qed

lemma final_results:
  assumes "length vs = r"
  shows "holds (frame s) vs \<Longrightarrow> \<exists>f. vm_get_final_results (stack_machine fe D R) r s = Some (vs, s\<lparr>frame := f\<rparr>)"
    and "window (frame t) 0 vs \<Longrightarrow> vm_get_final_results (reg_machine fe D R) r t = Some (vs, t)"
proof -
  assume "holds (frame s) vs"
  then have "holds (frame s) ([] @ vs)" by simp
  from popped_wp(1) [OF this] assms
  have "wp (get_final_results r) (\<lambda>xs f. xs = vs \<and> holds f []) (\<lambda>(_ :: unit) _. False) (frame s)"
    by (simp add: import_pops)
  from on_frame_returns [OF this] obtain a f where
    "on_frame (get_final_results r) s = (Ok (a, s\<lparr>frame := f\<rparr>) :: (unit \<times> _, _) result)" "a = vs \<and> holds f []" .
  then show "\<exists>f. vm_get_final_results (stack_machine fe D R) r s = Some (vs, s\<lparr>frame := f\<rparr>)"
    by (auto simp: stack_machine_def run_infallible_def)
next
  assume w: "window (frame t) 0 vs"
  have "for_collect 0 r (\<lambda>i. get_register (0 + i)) (frame t) =
      (Ok (sub_slice (registers (frame t)) 0 r, frame t) :: (unit \<times> _, _) result)"
    by (rule gather_registers) (use window_length [OF w] assms in simp)
  then have "on_frame (reg_get_final_results r) t = (Ok (vs, t) :: (unit \<times> _, _) result)"
    using w assms by (simp add: reg_get_final_results_def on_field_def window_def)
  then show "vm_get_final_results (reg_machine fe D R) r t = Some (vs, t)"
    by (simp add: reg_machine_def run_infallible_def)
qed

section \<open>The function under the driver\<close>

lemma straight_falls_through:
  "straight_code L operator = Some x \<Longrightarrow> wlp (execute fe D R x md layout cb imported) (\<lambda>r _. r = Next) s"
  by (rule plain_next) (cases operator; auto split: if_splits)

lemma straight_body_falls_through:
  "straight_body L body = Some xs \<Longrightarrow> x \<in> set xs \<Longrightarrow> wlp (execute fe D R x md layout cb imported) (\<lambda>r _. r = Next) s"
  by (induction body arbitrary: xs) (auto elim!: straight_body_Cons intro: straight_falls_through)

text \<open>\<open>same_return r\<close>: both activations have left \<open>r\<close> results, or both have trapped.\<close>

definition same_return ::
    "nat \<Rightarrow> FuncIndex \<Rightarrow> (Unwind \<times> ('m, 'i) StackInstance, nat \<times> ('m, 'i) StackInstance) result \<Rightarrow>
     (Unwind \<times> ('m, 'i) RegInstance, nat \<times> ('m, 'i) RegInstance) result \<Rightarrow> bool" where
  "same_return r f x y \<longleftrightarrow> (case (x, y) of
      (Ok (_, s), Ok (_, t)) \<Rightarrow> same_env s t \<and> (\<exists>vs. length vs = r \<and> holds (frame s) vs \<and> window (frame t) 0 vs)
    | (Err (tr, s), Err (tr', t)) \<Rightarrow> same_env s t \<and> (\<exists>e pc off pc' off'.
        tr = [TraceRecord f pc (NonCall e) off] \<and> tr' = [TraceRecord f pc' (NonCall e) off'])
    | _ \<Rightarrow> False)"

lemma activations_agree:
  fixes R :: "('m, 'i) import_registry_impl" and s :: "('m, 'i) StackInstance" and t :: "('m, 'i) RegInstance"
  assumes body: "straight_body L body = Some xs"
    and alike: "alike fl [] \<lparr>base_register_index = 0\<rparr> (map BP_Register [L..<L + r])
      (run_straight (stack_runs fe D R md layout \<lparr>base_height = 0, callee_frame_base_height = L\<rparr> imported) xs) s
      (run_straight (register_runs fe D R md' \<lparr>base_register_index = 0\<rparr> imported fl) code) t"
    and fl: "fl_locals_count fl = L" "L + r \<le> U32_MAX" "code \<noteq> []"
    and offs: "length offs = Suc (length xs)" "length roffs = length code"
    and ac: "ac = \<lparr>ac_func_index = f, ac_body = \<lparr>fb_locals = tys, fb_instructions = xs @ [End r 0],
        fb_instruction_offsets = offs, fb_frame_layout = layout\<rparr>,
        ac_base = \<lparr>base_height = 0, callee_frame_base_height = L\<rparr>, ac_results_count = r\<rparr>"
    and ac': "ac' = \<lparr>ac_func_index = f, ac_body = \<lparr>fb_locals = tys, fb_instructions = code,
        fb_instruction_offsets = roffs, fb_frame_layout = fl\<rparr>,
        ac_base = \<lparr>base_register_index = 0\<rparr>, ac_results_count = r\<rparr>"
    and imported: "imported = md_imported_func_count md" "imported = md_imported_func_count md'"
  shows "\<exists>x. native_loop (Suc (length xs) + n) (stack_machine fe D R) md ac 0 1 s = Some x \<and>
    (x = Panic \<or> (\<exists>y. native_loop (length code + m) (reg_machine fe D R) md' ac' 0 1 t = Some y \<and>
       same_return r f x y))"
proof -
  let ?cb = "\<lparr>base_height = 0, callee_frame_base_height = L\<rparr>" and ?rb = "\<lparr>base_register_index = 0\<rparr>"
  let ?SR = "stack_runs fe D R md layout ?cb imported" and ?RR = "register_runs fe D R md' ?rb imported fl"
  let ?regs = "map BP_Register [L..<L + r]"
  have steps: "vm_step (stack_machine fe D R) md ac = ?SR" "vm_step (reg_machine fe D R) md' ac' = ?RR"
    by (simp_all add: ac ac' stack_machine_def reg_machine_def imported [symmetric])
  have codes: "fb_instructions (ac_body ac) = [] @ xs @ [End r 0]" "fb_instructions (ac_body ac') = [] @ code"
    by (simp_all add: ac ac')
  have "exec_end ?cb r 0 s' = Ok (Next, s')" if "matched fl [] ?rb ?regs s' t'" for s' t'
    using end_falls_through [OF that, of ?cb] fl by simp
  then have "alike fl [] ?rb ?regs (run_straight ?SR [End r 0]) s' (run_straight ?RR []) t'"
    if "matched fl [] ?rb ?regs s' t'" for s' t'
    using that by (intro alike_stack [of _ _ _ s']) simp_all
  from alike_append [OF alike this]
  have all: "alike fl [] ?rb ?regs (run_straight ?SR (xs @ [End r 0])) s (run_straight ?RR code) t" by simp
  show ?thesis
  proof (cases "run_straight ?SR (xs @ [End r 0]) s")
    case (Ok p)
    then obtain s' where s': "run_straight ?SR (xs @ [End r 0]) s = Ok ((), s')" by (cases p) auto
    with all obtain t' where t': "run_straight ?RR code t = Ok ((), t')" and m: "matched fl [] ?rb ?regs s' t'"
      by (auto simp: paired_def split: result.splits)
    have m': "matched fl [] ?rb (map BP_Register [fl_locals_count fl..<fl_locals_count fl + r]) s' t'"
      using m fl(1) by simp
    obtain g h vs where vs: "length vs = r"
      "vm_exit_frame (stack_machine fe D R) r ?cb layout s' = Some (s'\<lparr>frame := g\<rparr>)" "holds g vs"
      "vm_exit_frame (reg_machine fe D R) r ?rb fl t' = Some (t'\<lparr>frame := h\<rparr>)" "window h 0 vs"
      by (rule results_read [OF m', of ?cb fe D R layout]) simp_all
    have "native_loop (Suc (length xs) + n) (stack_machine fe D R) md ac 0 1 s = Some (Ok (0, s'\<lparr>frame := g\<rparr>))"
      using straight_run_Ok [OF codes(1) _ s' [folded steps(1)], of n 1] vs(2)
      by (simp add: leaves_def fop_defs ac u32_sub_def)
    moreover have "native_loop (length code + m) (reg_machine fe D R) md' ac' 0 1 t = Some (Ok (0, t'\<lparr>frame := h\<rparr>))" for m
      using straight_run_Ok [OF codes(2) fl(3) t' [folded steps(2)], of m 1] vs(4)
      by (simp add: leaves_def fop_defs ac' u32_sub_def)
    ultimately show ?thesis
      using vs(1,3,5) matchedD(1) [OF m] by (auto simp: same_return_def)
  next
    case (Err p)
    then obtain e s' where s': "run_straight ?SR (xs @ [End r 0]) s = Err (e, s')" by (cases p) auto
    with all obtain t' where t': "run_straight ?RR code t = Err (e, t')" and env: "same_env s' t'"
      by (auto simp: paired_def split: result.splits)
    from straight_run_Err [OF codes(1) s' [folded steps(1)], of n 1] obtain pc where
      pc: "pc < Suc (length xs)" "native_loop (Suc (length xs) + n) (stack_machine fe D R) md ac 0 1 s =
        fop_of (fail_with (trap_here f pc offs e)) s'"
      by (auto simp: ac)
    from straight_run_Err [OF codes(2) t' [folded steps(2)], of m 1] obtain pc' where
      pc': "pc' < length code" "native_loop (length code + m) (reg_machine fe D R) md' ac' 0 1 t =
        fop_of (fail_with (trap_here f pc' roffs e)) t'"
      by (auto simp: ac')
    show ?thesis
      using pc pc' offs env by (simp add: fop_of_def fail_with_def trap_here_def index_def same_return_def)
  next
    case Panic
    have "wlp (vm_step (stack_machine fe D R) md ac x) (\<lambda>r _. r = Next) u" if "x \<in> set (xs @ [End r 0])" for x u
      using that straight_body_falls_through [OF body] plain_next [of "End r 0"] by (auto simp: fun_cong [OF steps(1)])
    from straight_run_Panic [OF codes(1) Panic [folded steps(1)] this, of n 1] show ?thesis by simp
  qed
qed

end
