(* ===== verification/RegFunctionProperties.thy ===== *)
theory RegFunctionProperties
  imports RegFunctions
begin

text \<open>
  A function whose body has no control flow, compiled by both lowerings and run by the same driver:
  the two machines return the same results, or fail with the same trap, after the same effects.
\<close>

section \<open>Running one function\<close>

lemma enter_function_local:
  assumes "md_imported_func_count module \<le> unat f" and "unat f < length (md_func_decls module)"
    and "unat (fd_ty (md_func_decls module ! unat f)) < length (md_types module)"
    and "md_types module ! unat (fd_ty (md_func_decls module ! unat f)) = ty"
    and "unat f - md_imported_func_count module < length (md_func_bodies module)"
    and "md_func_bodies module ! (unat f - md_imported_func_count module) = body"
    and "vm_enter_frame vm (as_u32 (length (ft_params ty))) (fb_locals body) b (fb_frame_layout body) s = Some (b', s')"
  shows "enter_function vm module f b s = Some (\<lparr>ac_func_index = f, ac_body = body, ac_base = b',
    ac_results_count = as_u32 (length (ft_results ty))\<rparr>, s')"
  using assms
  by (simp add: enter_function_def run_infallible_def bnd_def lift_result_def index_def infallible_def ret_def)

text \<open>What a run comes to when its activation has ended in \<open>x\<close>.\<close>

definition returned ::
    "('instr, 'layout, 'base, 'inst) machine \<Rightarrow> ('instr, 'layout) Module \<Rightarrow> FuncIndex \<Rightarrow> FuncType \<Rightarrow>
     (Unwind \<times> 'inst, nat \<times> 'inst) result \<Rightarrow> (FuncCallError \<times> 'inst, Val list \<times> 'inst) result" where
  "returned vm module f ty x = (case x of
      Ok (_, s) \<Rightarrow> (case vm_get_final_results vm (as_u32 (length (ft_results ty))) s of
          None \<Rightarrow> Panic
        | Some (vs, s') \<Rightarrow> (case into_vals vs (ft_results ty) of
              Ok vals \<Rightarrow> Ok (vals, s') | Err e \<Rightarrow> Err (e, s') | Panic \<Rightarrow> Panic))
    | Err (trace, s) \<Rightarrow> Err (func_call_err_from_unwind f trace module, s)
    | Panic \<Rightarrow> Panic)"

lemma run_local:
  assumes "unat f < length (md_func_decls module)"
    and "unat (fd_ty (md_func_decls module ! unat f)) < length (md_types module)"
    and "md_types module ! unat (fd_ty (md_func_decls module ! unat f)) = ty"
    and "vm_set_initial_params vm params (vm_reset vm s) = Some s1"
    and "enter_function vm module f (vm_initial_data vm) s1 = Some (ac, s2)"
    and "native_loop n vm module ac 0 1 s2 = Some x"
  shows "run (Suc n) vm f params module s = Some (returned vm module f ty x)"
  using assms
  by (auto simp: run_def execute_on_native_stack.simps fop_defs modify_def u32_add_def index_def returned_def
      split: result.split option.split prod.split)

section \<open>The same function in two modules\<close>

text \<open>
  \<open>compiled_twice md md' f ty reader\<close>: the modules differ in their bodies only, and those of
  \<open>f\<close> are what the two lowerings make of the operators of \<open>reader\<close>.
\<close>

definition compiled_twice ::
    "StackModule \<Rightarrow> RegModule \<Rightarrow> FuncIndex \<Rightarrow> FuncType \<Rightarrow> ValType list \<Rightarrow> OperatorsReader \<Rightarrow> bool" where
  "compiled_twice md md' f ty tys reader \<longleftrightarrow>
     md_types md' = md_types md \<and> md_func_decls md' = md_func_decls md \<and> md_globals md' = md_globals md \<and>
     md_imported_func_count md' = md_imported_func_count md \<and>
     md_exported_func_index_to_name md' = md_exported_func_index_to_name md \<and>
     md_imported_func_count md \<le> unat f \<and> unat f < length (md_func_decls md) \<and>
     unat (fd_ty (md_func_decls md ! unat f)) < length (md_types md) \<and>
     md_types md ! unat (fd_ty (md_func_decls md ! unat f)) = ty \<and>
     (let i = unat f - md_imported_func_count md; params = length (ft_params ty); results = length (ft_results ty)
      in i < length (md_func_bodies md) \<and> i < length (md_func_bodies md') \<and>
         (\<exists>instrs offs layout code roffs fl.
            emit_instructions_for_func reader params results (md_types md) (md_func_decls md) =
              Ok (instrs, offs, layout) \<and>
            reg_emit_instructions_for_func reader params results (md_types md) (md_func_decls md) (length tys) =
              Ok (code, roffs, fl) \<and>
            md_func_bodies md ! i = \<lparr>fb_locals = tys, fb_instructions = instrs,
              fb_instruction_offsets = offs, fb_frame_layout = layout\<rparr> \<and>
            md_func_bodies md' ! i = \<lparr>fb_locals = tys, fb_instructions = code,
              fb_instruction_offsets = roffs, fb_frame_layout = fl\<rparr>))"

text \<open>
  \<open>same_outcome r r'\<close>: the same values, or an error of the same function with the same trap at
  its root. The two traces name different instructions, since the bodies differ.
\<close>

definition same_outcome ::
    "(FuncCallError \<times> ('m, 'i) StackInstance, Val list \<times> ('m, 'i) StackInstance) result \<Rightarrow>
     (FuncCallError \<times> ('m, 'i) RegInstance, Val list \<times> ('m, 'i) RegInstance) result \<Rightarrow> bool" where
  "same_outcome r r' \<longleftrightarrow> (case (r, r') of
      (Ok (vals, s), Ok (vals', t)) \<Rightarrow> vals' = vals \<and> same_env s t
    | (Err (e, s), Err (e', t)) \<Rightarrow> fce_func_name e' = fce_func_name e \<and> same_env s t \<and>
        (\<exists>trap. cause e = (Ok trap :: (unit, _) result) \<and> cause e' = (Ok trap :: (unit, _) result))
    | _ \<Rightarrow> False)"

lemma into_vals_no_Err: "(into_vals vs tys :: ('e, Val list) result) \<noteq> Err e"
proof (induction vs tys rule: into_vals.induct)
  case (1 v vs ty tys)
  then show ?case by (cases ty) (auto simp: and_then_eq_Err)
qed simp_all

lemma same_return_outcome:
  assumes "same_return r f x y" and "r = as_u32 (length (ft_results ty))"
    and "md_exported_func_index_to_name md' = md_exported_func_index_to_name md"
  shows "returned (stack_machine fe D R) md f ty x = Panic \<or>
    same_outcome (returned (stack_machine fe D R) md f ty x) (returned (reg_machine fe D R) md' f ty y)"
proof -
  consider s s' t t' vs where "x = Ok (s', s)" "y = Ok (t', t)" "same_env s t" "length vs = r"
      "holds (frame s) vs" "window (frame t) 0 vs"
    | s t e pc off pc' off' where "x = Err ([TraceRecord f pc (NonCall e) off], s)"
      "y = Err ([TraceRecord f pc' (NonCall e) off'], t)" "same_env s t"
    using assms(1) by (cases x; cases y) (auto simp: same_return_def split: prod.splits)
  then show ?thesis
  proof cases
    case 1
    from final_results(1) [OF 1(4,5)] obtain g where
      "vm_get_final_results (stack_machine fe D R) r s = Some (vs, s\<lparr>frame := g\<rparr>)" ..
    moreover have "vm_get_final_results (reg_machine fe D R) r t = Some (vs, t)"
      by (rule final_results(2) [OF 1(4,6)])
    ultimately show ?thesis
      using 1 assms(2) by (auto simp: returned_def same_outcome_def into_vals_no_Err split: result.split)
  next
    case 2
    then show ?thesis
      using assms(3) by (auto simp: returned_def same_outcome_def func_call_err_from_unwind_def
          exported_func_name_def cause_def split: option.split)
  qed
qed

section \<open>Straight functions\<close>

lemma stack_function_code:
  assumes "straight_body L body = Some xs" and "r \<le> U32_MAX"
    and "emit_instructions_for_func (body @ [Inr (Op_End, offset)]) p r types decls = Ok (instrs, offs, layout)"
  shows "instrs = xs @ [End r 0]" "length offs = Suc (length xs)"
proof -
  let ?reader = "body @ [Inr (Op_End, offset)]"
  from assms(3) obtain s where s: "emit_loop types decls ?reader (initial_lower_state p r) = Ok ((), s)"
    "instrs = ls_instructions s" "offs = ls_offsets s"
    by (auto simp: emit_instructions_for_func_def split: result.splits)
  from wlpD [OF wlp_stack_function [OF assms(1,2)] s(1)] s(2) show "instrs = xs @ [End r 0]" by simp
  from wlpD [OF emit_loop_offsets s(1)] s(3) show "length offs = Suc (length xs)"
    by (simp add: initial_lower_state_def length_straight_body [OF assms(1)])
qed

text \<open>C8: a function without control flow, compiled by both lowerings, does the
  same on the two machines from any two instances with the same memory, globals, tables, segments,
  registry and limits: with enough fuel both runs end, and unless the stack machine panics, they
  return the same values or fail with the same trap, in instances that again agree.\<close>
theorem straight_functions_agree:
  fixes R :: "('m, 'i) import_registry_impl" and s :: "('m, 'i) StackInstance" and t :: "('m, 'i) RegInstance"
  assumes "compiled_twice md md' f ty tys (body @ [Inr (Op_End, offset)])"
    and "straight_body (length tys) body \<noteq> None"
    and "length tys \<le> U16_MAX" and "length body \<le> U32_MAX" and "\<forall>ty \<in> set tys. ty \<noteq> T_V128"
    and "length params = length (ft_params ty)" and "length params \<le> length tys"
    and "same_env s t"
  shows "\<exists>k. \<forall>n m. k \<le> n \<longrightarrow> k \<le> m \<longrightarrow> (\<exists>x y.
    run n (stack_machine fe D R) f params md s = Some x \<and>
    (x = Panic \<or> run m (reg_machine fe D R) f params md' t = Some y \<and> same_outcome x y))"
proof -
  let ?vm = "stack_machine fe D R" and ?vm' = "reg_machine fe D R"
  let ?r = "length (ft_results ty)" and ?L = "length tys"
  let ?cb = "\<lparr>base_height = 0, callee_frame_base_height = ?L\<rparr>" and ?rb = "\<lparr>base_register_index = 0\<rparr>"
  define i where "i = unat f - md_imported_func_count md"
  from assms(2) obtain xs where body: "straight_body ?L body = Some xs" by blast
  from assms(1) obtain instrs offs layout code roffs fl where
    emit: "emit_instructions_for_func (body @ [Inr (Op_End, offset)]) (length (ft_params ty)) ?r
      (md_types md) (md_func_decls md) = Ok (instrs, offs, layout)"
    and remit: "reg_emit_instructions_for_func (body @ [Inr (Op_End, offset)]) (length (ft_params ty)) ?r
      (md_types md) (md_func_decls md) ?L = Ok (code, roffs, fl)"
    and at: "md_func_bodies md ! i = \<lparr>fb_locals = tys, fb_instructions = instrs,
      fb_instruction_offsets = offs, fb_frame_layout = layout\<rparr>"
    "md_func_bodies md' ! i = \<lparr>fb_locals = tys, fb_instructions = code,
      fb_instruction_offsets = roffs, fb_frame_layout = fl\<rparr>"
    unfolding compiled_twice_def Let_def i_def by blast
  from assms(1) have md: "md_types md' = md_types md" "md_func_decls md' = md_func_decls md"
    "md_globals md' = md_globals md" "md_imported_func_count md' = md_imported_func_count md"
    "md_exported_func_index_to_name md' = md_exported_func_index_to_name md"
    "md_imported_func_count md \<le> unat f" "unat f < length (md_func_decls md)"
    "unat (fd_ty (md_func_decls md ! unat f)) < length (md_types md)"
    "md_types md ! unat (fd_ty (md_func_decls md ! unat f)) = ty"
    "i < length (md_func_bodies md)" "i < length (md_func_bodies md')"
    unfolding compiled_twice_def Let_def i_def by blast+
  have call: "same_call md' md [] ?cb ?L" using md(3) assms(3) by (simp add: same_call_def U16_MAX_def)
  note fn = resolved_function [OF body assms(3,4) call remit, where fe = fe and D = D and R = R
      and layout = layout and imported = "md_imported_func_count md" and cb = ?rb]
  then have code: "code \<noteq> []" "length roffs = length code" "fl_locals_count fl = ?L" "?L \<le> fl_registers fl"
      "frame_size fl \<le> U16_MAX" and placed: "\<forall>j < ?r. placed fl (BP_Register (?L + j))" by simp_all
  have width: "?L + ?r \<le> U32_MAX"
    using placed code(4,5) assms(3) by (cases ?r) (auto simp: frame_size_def U16_MAX_def)
  then have small: "as_u32 ?r = ?r" "as_u32 (length (ft_params ty)) = length params" "?r \<le> U32_MAX"
    using assms(6,7) by simp_all
  note scode = stack_function_code [OF body small(3) emit]
  obtain f0 where f0: "vm_set_initial_params ?vm params (vm_reset ?vm s) = Some (s\<lparr>frame := f0\<rparr>)"
    "holds f0 (map value_of_val params)"
  proof -
    have "holds (frame (vm_reset ?vm s)) []"
      by (simp add: stack_machine_def holds_def stack_inv_def live_def)
    from stack_params [OF this, of fe D R params] that show thesis by (auto simp: stack_machine_def)
  qed
  have g0: "vm_set_initial_params ?vm' params (vm_reset ?vm' t) =
      Some (t\<lparr>frame := frame t\<lparr>registers := map value_of_val params\<rparr>\<rparr>)"
    using register_params [of fe D R params t] by (simp add: reg_machine_def)
  obtain f1 g1 where
    enter: "vm_enter_frame ?vm (length params) tys (vm_initial_data ?vm) layout (s\<lparr>frame := f0\<rparr>) =
      Some (?cb, s\<lparr>frame := f1\<rparr>)"
    "vm_enter_frame ?vm' (length params) tys (vm_initial_data ?vm') fl
       (t\<lparr>frame := frame t\<lparr>registers := map value_of_val params\<rparr>\<rparr>) = Some (?rb, t\<lparr>frame := g1\<rparr>)"
    and m: "matched fl [] ?rb [] (s\<lparr>frame := f1\<rparr>) (t\<lparr>frame := g1\<rparr>)"
  proof -
    let ?s = "s\<lparr>frame := f0\<rparr>" and ?t = "t\<lparr>frame := frame t\<lparr>registers := map value_of_val params\<rparr>\<rparr>"
    have env: "same_env ?s ?t" using assms(8) by simp
    have args: "holds (frame ?s) (map value_of_val params)" "registers (frame ?t) = map value_of_val params"
      using f0(2) by simp_all
    show thesis
      by (rule entered_matched [OF env args _ assms(5) code(3-5), of fe D R layout])
        (use assms(7) that in \<open>simp_all add: stack_machine_def reg_machine_def\<close>)
  qed
  define ac where "ac = \<lparr>ac_func_index = f, ac_body = \<lparr>fb_locals = tys, fb_instructions = xs @ [End ?r 0],
      fb_instruction_offsets = offs, fb_frame_layout = layout\<rparr>, ac_base = ?cb, ac_results_count = ?r\<rparr>"
  define ac' where "ac' = \<lparr>ac_func_index = f, ac_body = \<lparr>fb_locals = tys, fb_instructions = code,
      fb_instruction_offsets = roffs, fb_frame_layout = fl\<rparr>, ac_base = ?rb, ac_results_count = ?r\<rparr>"
  have "enter_function ?vm md f (vm_initial_data ?vm) (s\<lparr>frame := f0\<rparr>) = Some (ac, s\<lparr>frame := f1\<rparr>)"
    using enter_function_local [OF md(6-9), of "md_func_bodies md ! i"] md(10) enter(1) at(1)
    by (simp add: i_def small ac_def scode(1))
  note run = run_local [OF md(7-9) f0(1) this]
  have "enter_function ?vm' md' f (vm_initial_data ?vm')
      (t\<lparr>frame := frame t\<lparr>registers := map value_of_val params\<rparr>\<rparr>) = Some (ac', t\<lparr>frame := g1\<rparr>)"
    using enter_function_local [of md' f ty "md_func_bodies md' ! i"] md enter(2) at(2)
    by (simp add: i_def small ac'_def)
  note run' = run_local [OF _ _ _ g0 this, unfolded md(1,2), OF md(7-9)]
  have alike: "alike fl [] ?rb (map BP_Register [?L..<?L + ?r])
      (run_straight (stack_runs fe D R md layout ?cb (md_imported_func_count md)) xs) (s\<lparr>frame := f1\<rparr>)
      (run_straight (register_runs fe D R md' ?rb (md_imported_func_count md) fl) code) (t\<lparr>frame := g1\<rparr>)"
    using fn m by blast
  show ?thesis
  proof (intro exI [of _ "Suc (Suc (length xs) + length code)"] allI impI)
    fix n m :: nat
    assume n: "Suc (Suc (length xs) + length code) \<le> n" and m: "Suc (Suc (length xs) + length code) \<le> m"
    define n' m' where "n' = n - Suc (Suc (length xs))" and "m' = m - Suc (length code)"
    then have fuel: "n = Suc (Suc (length xs) + n')" "m = Suc (length code + m')" using n m by simp_all
    obtain x where x: "native_loop (Suc (length xs) + n') ?vm md ac 0 1 (s\<lparr>frame := f1\<rparr>) = Some x"
      and y: "x = Panic \<or> (\<exists>y. native_loop (length code + m') ?vm' md' ac' 0 1 (t\<lparr>frame := g1\<rparr>) = Some y \<and>
        same_return ?r f x y)"
      using activations_agree [OF body alike code(3) width code(1) scode(2) code(2) ac_def ac'_def refl md(4) [symmetric],
          of n' m'] by blast
    show "\<exists>x y. run n ?vm f params md s = Some x \<and>
        (x = Panic \<or> run m ?vm' f params md' t = Some y \<and> same_outcome x y)"
    proof (cases "x = Panic")
      case True
      then show ?thesis unfolding fuel using run [OF x] by (simp add: returned_def)
    next
      case False
      with y obtain y where "native_loop (length code + m') ?vm' md' ac' 0 1 (t\<lparr>frame := g1\<rparr>) = Some y"
        and same: "same_return ?r f x y" by blast
      from same_return_outcome [OF same small(1) [symmetric] md(5), of fe D R] run [OF x] run' [OF this(1)]
      show ?thesis unfolding fuel by blast
    qed
  qed
qed

section \<open>A concrete function\<close>

text \<open>\<open>f(x, y) = x - 5\<close>, computed while \<open>x\<close> is overwritten.\<close>

definition straight_reader :: OperatorsReader where
  "straight_reader = straight_demo @ [Inr (Op_End, 9)]"

definition straight_types :: "FuncType list" where
  "straight_types = [\<lparr>ft_params = [T_I32, T_I32], ft_results = [T_I32]\<rparr>]"

definition straight_decls :: "FuncDecl list" where
  "straight_decls = [\<lparr>fd_kind = Local, fd_ty = 0\<rparr>]"

definition straight_module :: StackModule where
  "straight_module = \<lparr>md_types = straight_types, md_func_decls = straight_decls, md_globals = [],
     md_imported_func_count = 0,
     md_func_bodies = [\<lparr>fb_locals = [T_I32, T_I32],
       fb_instructions = [LocalGet 0, Const (I32Const 5), LocalSet 0, LocalGet 0, Numeric (I32Binary I32Sub), End 1 0],
       fb_instruction_offsets = [0, 2, 4, 6, 8, 9], fb_frame_layout = \<lparr>br_targets_arena = []\<rparr>\<rparr>],
     md_exported_func_index_to_name = (\<lambda>_. Some ''f'')\<rparr>"

definition straight_reg_module :: RegModule where
  "straight_reg_module = \<lparr>md_types = straight_types, md_func_decls = straight_decls, md_globals = [],
     md_imported_func_count = 0,
     md_func_bodies = [\<lparr>fb_locals = [T_I32, T_I32],
       fb_instructions = [RLocalSpill 0 0, RLocalSet 0 [2],
         RNumeric (I32Binary I32Sub) \<lparr>sg_input = [3, 0], sg_output = 4\<rparr>, RMove 0, REnd],
       fb_instruction_offsets = [4, 4, 8, 9, 9],
       fb_frame_layout = straight_layout\<lparr>fl_dyn_signatures := [\<lparr>ds_input = [4], ds_output_start = 4\<rparr>]\<rparr>\<rparr>],
     md_exported_func_index_to_name = (\<lambda>_. Some ''f'')\<rparr>"

lemma straight_function_emitted:
  "emit_instructions_for_func straight_reader 2 1 types decls =
     Ok ([LocalGet 0, Const (I32Const 5), LocalSet 0, LocalGet 0, Numeric (I32Binary I32Sub), End 1 0],
       [0, 2, 4, 6, 8, 9], \<lparr>br_targets_arena = []\<rparr>)"
  "reg_emit_instructions_for_func straight_reader 2 1 types decls 2 =
     Ok ([RLocalSpill 0 0, RLocalSet 0 [2], RNumeric (I32Binary I32Sub) \<lparr>sg_input = [3, 0], sg_output = 4\<rparr>,
       RMove 0, REnd], [4, 4, 8, 9, 9],
       straight_layout\<lparr>fl_dyn_signatures := [\<lparr>ds_input = [4], ds_output_start = 4\<rparr>]\<rparr>)"
  subgoal
    by (simp add: emit_instructions_for_func_def straight_reader_def straight_demo_def lower_defs func_label_def
        initial_lower_state_def default_control_stack_def)
  subgoal
    by (simp add: straight_reader_def reg_emit_instructions_for_func_def resolve_layout_def straight_demo_def
        straight_layout_def sim_defs lower_defs push_def push_grow_def pop_def new_stack_def u16_numerals u16_add_def
        apply_binary_def numeral_2_eq_2 numeral_3_eq_3 rl_end_def ss_pop_block_def default_control_stack_def
        func_label_def materialize_def ss_height_def height_def rl_patch_if_def emit_move_def
        materialize_stack_slots_in_registers_def apply_to_dyn_signature_def)
  done

definition straight_activation :: "(StackInstruction, StackFrameLayout, StackCallerBaseData) activation" where
  "straight_activation = \<lparr>ac_func_index = 0, ac_body = hd (md_func_bodies straight_module),
     ac_base = \<lparr>base_height = 0, callee_frame_base_height = 2\<rparr>, ac_results_count = 1\<rparr>"

definition frame_at :: "Value list \<Rightarrow> nat \<Rightarrow> (LinearMemory, unit) StackInstance" where
  "frame_at vs p = page_instance []\<lparr>frame := \<lparr>backing = vs, stack_pointer = p\<rparr>\<rparr>"

lemmas frame_defs = stack_machine_def run_infallible_def on_field_def page_instance_def frame_at_def
  push_def push_grow_def pop_def slot_def set_slot_def lower_pointer_def bnd_def gets_def modify_def ret_def
  lift_result_def index_def usize_sub_def u32_add_def Let_def

lemma straight_demo_start:
  "vm_set_initial_params demo_machine [I32 12, I32 7] (vm_reset demo_machine (page_instance [])) = Some (frame_at [12, 7] 2)"
  by (simp add: frame_defs set_initial_params_def from_i32_def)

lemma straight_demo_enter:
  "enter_function demo_machine straight_module 0 (vm_initial_data demo_machine) (frame_at [12, 7] 2) =
    Some (straight_activation, frame_at [12, 7] 2)"
proof -
  have "vm_enter_frame demo_machine 2 [T_I32, T_I32] (vm_initial_data demo_machine) \<lparr>br_targets_arena = []\<rparr> (frame_at [12, 7] 2) =
      Some (\<lparr>base_height = 0, callee_frame_base_height = 2\<rparr>, frame_at [12, 7] 2)"
    by (simp add: frame_defs enter_frame_def)
  then show ?thesis
    using enter_function_local [of straight_module 0 "hd straight_types" "hd (md_func_bodies straight_module)"]
    by (simp add: straight_module_def straight_types_def straight_decls_def straight_activation_def numeral_2_eq_2)
qed

lemma frame_at_ops:
  "push_next v (frame_at vs p) = Ok (Next, if p < length vs then frame_at (vs[p := v]) (p + 1) else frame_at (vs @ [v]) (p + 1))"
  "0 < p \<Longrightarrow> p \<le> length vs \<Longrightarrow> pop_value (frame_at vs p) = Ok (vs ! (p - 1), frame_at vs (p - 1))"
  "vs \<noteq> [] \<Longrightarrow> get_local 0 0 (frame_at vs p) = Ok (vs ! 0, frame_at vs p)"
  "vs \<noteq> [] \<Longrightarrow> set_local 0 v 0 (frame_at vs p) = Ok ((), frame_at (vs[0 := v]) p)"
  "frame_height (frame_at vs p) = Ok (as_u32 p, frame_at vs p)"
  by (simp_all add: frame_defs push_next_def push_value_def pop_value_def get_local_def set_local_def frame_height_def height_def)

lemma straight_demo_values: "from_i32 5 = 5" "(i32_binary I32Sub 12 5 :: numeric_result) = Ok 7"
  by (simp_all add: i32_binary_def from_i32_def as_i32_def)

lemmas straight_step_defs = stack_machine_sel(1) straight_activation_def bnd_eq frame_at_ops straight_demo_values
  exec_local_get_def exec_local_set_def exec_binary_def exec_end_def bnd_lift_result u32_add_def ret_def

lemma straight_demo_grows:
  "vm_step demo_machine straight_module straight_activation (LocalGet 0) (frame_at [12, 7] 2) = Ok (Next, frame_at [12, 7, 12] 3)"
  "vm_step demo_machine straight_module straight_activation (Const (I32Const 5)) (frame_at [12, 7, 12] 3) = Ok (Next, frame_at [12, 7, 12, 5] 4)"
  "vm_step demo_machine straight_module straight_activation (LocalSet 0) (frame_at [12, 7, 12, 5] 4) = Ok (Next, frame_at [5, 7, 12, 5] 3)"
  "vm_step demo_machine straight_module straight_activation (End 1 0) (frame_at [5, 7, 7, 5] 3) = Ok (Next, frame_at [5, 7, 7, 5] 3)"
  by (simp_all add: straight_step_defs)

lemma straight_demo_overwrites:
  "vm_step demo_machine straight_module straight_activation (LocalGet 0) (frame_at [5, 7, 12, 5] 3) = Ok (Next, frame_at [5, 7, 12, 5] 4)"
  "vm_step demo_machine straight_module straight_activation (Numeric (I32Binary I32Sub)) (frame_at [5, 7, 12, 5] 4) = Ok (Next, frame_at [5, 7, 7, 5] 3)"
  by (simp_all add: straight_step_defs eval_nat_numeral)

lemma straight_demo_body:
  "run_straight (vm_step demo_machine straight_module straight_activation)
     (fb_instructions (ac_body straight_activation)) (frame_at [12, 7] 2) = Ok ((), frame_at [5, 7, 7, 5] 3)"
proof -
  have "fb_instructions (ac_body straight_activation) =
      [LocalGet 0, Const (I32Const 5), LocalSet 0, LocalGet 0, Numeric (I32Binary I32Sub), End 1 0]"
    by (simp add: straight_activation_def straight_module_def)
  then show ?thesis by (simp only: run_straight.simps bnd_eq straight_demo_grows straight_demo_overwrites Step.case result.case prod.case) (simp add: ret_def)
qed

lemma straight_demo_exit:
  "leaves demo_machine straight_activation 1 (frame_at [5, 7, 7, 5] 3) = (\<lambda>s. Some (Ok (0, frame_at [7, 7, 7, 5] 1))) ()"
  by (simp add: leaves_def fop_defs straight_activation_def straight_module_def frame_defs exit_frame_def
      truncate_by_preserving_arity_def u32_sub_def numeral_2_eq_2 numeral_3_eq_3)

lemma straight_demo_results:
  "vm_get_final_results demo_machine 1 (frame_at [7, 7, 7, 5] 1) = Some ([7], frame_at [7, 7, 7, 5] 0)"
  by (simp add: frame_defs get_final_results_def)

lemma straight_demo_run:
  "\<exists>s. run (Suc (6 + n)) demo_machine 0 [I32 12, I32 7] straight_module (page_instance []) = Some (Ok ([I32 7], s))"
proof -
  let ?xs = "fb_instructions (ac_body straight_activation)"
  have "length ?xs = 6" "?xs \<noteq> []" by (simp_all add: straight_activation_def straight_module_def)
  then have "native_loop (6 + n) demo_machine straight_module straight_activation 0 1 (frame_at [12, 7] 2) =
      Some (Ok (0, frame_at [7, 7, 7, 5] 1))"
    using straight_run_Ok [of straight_activation "[]" ?xs, OF _ _ straight_demo_body, of n 1] straight_demo_exit by auto
  from run_local [OF _ _ refl straight_demo_start straight_demo_enter this] straight_demo_results
  show ?thesis
    by (simp add: returned_def straight_module_def straight_types_def straight_decls_def as_i32_def)
qed

lemma straight_demo_compiled:
  "compiled_twice straight_module straight_reg_module 0 (hd straight_types) [T_I32, T_I32] straight_reader"
  using straight_function_emitted
  by (simp add: compiled_twice_def straight_module_def straight_reg_module_def straight_types_def straight_decls_def
      numeral_2_eq_2)

theorem straight_functions_agree_witness:
  "\<exists>k. \<forall>m \<ge> k. \<exists>t. run m demo_reg_machine 0 [I32 12, I32 7] straight_reg_module (reg_page []) = Some (Ok ([I32 7], t))"
proof -
  have body: "straight_body (length [T_I32, T_I32]) straight_demo \<noteq> None" by (simp add: straight_demo_def)
  have env: "same_env (page_instance []) (reg_page [])" by (simp add: same_env_def page_instance_def reg_page_def)
  have "\<exists>k. \<forall>n m. k \<le> n \<longrightarrow> k \<le> m \<longrightarrow> (\<exists>x y.
      run n demo_machine 0 [I32 12, I32 7] straight_module (page_instance []) = Some x \<and>
      (x = Panic \<or> run m demo_reg_machine 0 [I32 12, I32 7] straight_reg_module (reg_page []) = Some y \<and> same_outcome x y))"
    by (rule straight_functions_agree [OF straight_demo_compiled [unfolded straight_reader_def] body _ _ _ _ _ env])
      (simp_all add: straight_demo_def straight_types_def U16_MAX_def)
  then obtain k where agree: "\<And>n m. k \<le> n \<Longrightarrow> k \<le> m \<Longrightarrow> \<exists>x y.
      run n demo_machine 0 [I32 12, I32 7] straight_module (page_instance []) = Some x \<and>
      (x = Panic \<or> run m demo_reg_machine 0 [I32 12, I32 7] straight_reg_module (reg_page []) = Some y \<and> same_outcome x y)"
    by blast
  obtain s where s: "run (Suc (6 + k)) demo_machine 0 [I32 12, I32 7] straight_module (page_instance []) = Some (Ok ([I32 7], s))"
    using straight_demo_run by blast
  have "\<exists>t. run m demo_reg_machine 0 [I32 12, I32 7] straight_reg_module (reg_page []) = Some (Ok ([I32 7], t))" if "k \<le> m" for m
  proof -
    from agree [of "Suc (6 + k)" m] that s obtain y where
      y: "run m demo_reg_machine 0 [I32 12, I32 7] straight_reg_module (reg_page []) = Some y"
        "same_outcome (Ok ([I32 7], s)) y" by auto
    then show ?thesis by (cases y) (auto simp: same_outcome_def)
  qed
  then show ?thesis by blast
qed

end
