(* ===== verification/Instantiation.thy ===== *)
theory Instantiation
  imports Driver
begin

text \<open>
  \<open>Module::instantiate\<close> (\<open>module/mod.rs\<close>): the registry is checked against the declared imports,
  the limits are narrowed, memory, globals, tables and segments are set up, and the start function
  runs. \<open>Module::get_typed_func\<close> and \<open>TypedFunc::call\<close>: the checked entry points of an embedder.

  The module of \<open>Instance\<close> holds what execution reads; the record here adds the other sections. The
  code has one list of globals, each a type and a kind; here they are two lists. A table's element
  type is always \<open>funcref\<close> and is read by nothing. \<open>RefType::is_func_ref\<close> belongs to \<open>wasmparser\<close>
  and is an argument.
\<close>

section \<open>The sections of a module\<close>

type_synonym ConstExpr = "StackInstruction list"

record MemoryType =
  mt_initial :: u64
  mt_maximum :: "u64 option"

datatype DataKind = DK_Passive | DK_Active u32 ConstExpr

record Data =
  da_kind :: DataKind
  da_data :: "u8 list"

datatype ElementKind = EK_Passive | EK_Active "TableIndex option" ConstExpr | EK_Declared

datatype ElementItems = EI_Functions "FuncIndex list" | EI_Expressions RefType "ConstExpr list"

record Element =
  el_kind :: ElementKind
  el_items :: ElementItems

datatype TableInit = TI_RefNull | TI_Expr ConstExpr

record Table =
  tb_init :: TableInit
  tb_initial :: u32
  tb_maximum :: "u32 option"

datatype GlobalKind = GK_Imported string string | GK_Local ConstExpr

datatype Export =
    ExportFunc FuncIndex | ExportTable TableIndex | ExportMemory u32 | ExportGlobal GlobalIndex
  | ExportTag u32 | ExportFuncExact u32

record ('instr, 'layout) FullModule = "('instr, 'layout) Module" +
  md_memories :: "MemoryType list"
  md_global_kinds :: "GlobalKind list"
  md_imported_global_count :: nat
  md_tables :: "Table list"
  md_elements :: "Element list"
  md_datas :: "Data list"
  md_start_section :: "FuncIndex option"
  md_exports :: "string \<Rightarrow> Export option"

text \<open>The rest of the \<open>ImportRegistry\<close> trait.\<close>

record ('m, 'i) ImportRegistry = "('m, 'i) import_registry_impl" +
  ir_signature :: "'i \<Rightarrow> string \<Rightarrow> string \<Rightarrow> (ValType list \<times> ValType list) option"
  ir_func_count :: "'i \<Rightarrow> nat"
  ir_global_count :: "'i \<Rightarrow> nat"
  ir_get_global :: "'i \<Rightarrow> string \<Rightarrow> string \<Rightarrow> string + Val"

section \<open>Imports\<close>

fun collect :: "('a \<Rightarrow> ('e, 'b) result) \<Rightarrow> 'a list \<Rightarrow> ('e, 'b list) result" where
  "collect f [] = Ok []"
| "collect f (x # xs) = and_then (f x) (\<lambda>y. and_then (collect f xs) (\<lambda>ys. Ok (y # ys)))"

definition check_import ::
    "('m, 'i) ImportRegistry \<Rightarrow> 'i \<Rightarrow> ('instr, 'layout) FullModule \<Rightarrow> nat \<Rightarrow> (TraceWasmError, unit) result" where
  "check_import R registry module i =
     and_then (index (md_func_decls module) i) (\<lambda>decl.
     case fd_kind decl of
       Local \<Rightarrow> Panic
     | Imported mn n \<Rightarrow> (case ir_signature R registry mn n of
           None \<Rightarrow> Err (ImportNotFound mn n)
         | Some (import_params, import_results) \<Rightarrow>
             and_then (index (md_types module) (unat (fd_ty decl))) (\<lambda>ty.
               if ft_params ty \<noteq> import_params
               then Err (ImportSignatureMismatch mn n ''params'' (ft_params ty) import_params)
               else if ft_results ty \<noteq> import_results
               then Err (ImportSignatureMismatch mn n ''results'' (ft_results ty) import_results)
               else Ok ())))"

definition check_imports ::
    "('m, 'i) ImportRegistry \<Rightarrow> 'i \<Rightarrow> ('instr, 'layout) FullModule \<Rightarrow> (TraceWasmError, unit) result" where
  "check_imports R registry module =
     (if ir_func_count R registry \<noteq> md_imported_func_count module
      then Err (ImportCountMismatch (md_imported_func_count module) (ir_func_count R registry))
      else and_then (collect (check_import R registry module) [0..<md_imported_func_count module]) (\<lambda>_. Ok ()))"

section \<open>Memory\<close>

definition initial_pages :: "('instr, 'layout) FullModule \<Rightarrow> nat" where
  "initial_pages module = (case md_memories module of [] \<Rightarrow> 0 | m # _ \<Rightarrow> as_u32 (unat (mt_initial m)))"

definition max_memory_pages :: "('instr, 'layout) FullModule \<Rightarrow> u32 \<Rightarrow> u32" where
  "max_memory_pages module config_max_pages =
     min (case md_memories module of
            [] \<Rightarrow> config_max_pages
          | m # _ \<Rightarrow> (case mt_maximum m of Some maximum \<Rightarrow> ucast maximum | None \<Rightarrow> config_max_pages))
       config_max_pages"

text \<open>\<open>as_i32() as usize\<close>: the cast of an \<open>i32\<close> extends its sign.\<close>

definition i32_as_usize :: "u32 \<Rightarrow> usize" where
  "i32_as_usize w = unat (scast w :: u64)"

definition const_i32 :: "ConstExpr \<Rightarrow> Val list \<Rightarrow> ('e, u32) result" where
  "const_i32 e globals = and_then (const_expr_evaluator e globals) Val_as_i32"

definition const_ref :: "ConstExpr \<Rightarrow> Val list \<Rightarrow> ('e, FuncIndex option) result" where
  "const_ref e globals = and_then (const_expr_evaluator e globals) Val_as_ref"

definition init_data :: "'m memory_impl \<Rightarrow> Val list \<Rightarrow> Data \<Rightarrow> ('m, TraceWasmError, DataVal) op" where
  "init_data D globals d = (case da_kind d of
      DK_Passive \<Rightarrow> ret (DataPassive (da_data d))
    | DK_Active memory_index offset_expr \<Rightarrow>
        if memory_index \<noteq> 0 then fail (Unsupported ''multiple memories'')
        else bnd (lift_result (const_i32 offset_expr globals)) (\<lambda>offset.
             bnd (on_field (\<lambda>m. m) (\<lambda>m _. m) MemoryErr (mv_write D (i32_as_usize offset) (da_data d)))
               (\<lambda>_. ret DataDropped)))"

section \<open>Globals\<close>

definition imported_global ::
    "('m, 'i) ImportRegistry \<Rightarrow> 'i \<Rightarrow> ('instr, 'layout) FullModule \<Rightarrow> nat \<Rightarrow> (TraceWasmError, Val) result" where
  "imported_global R registry module i =
     and_then (index (md_global_kinds module) i) (\<lambda>kind.
     case kind of
       GK_Local _ \<Rightarrow> Panic
     | GK_Imported mn n \<Rightarrow>
         and_then (index (md_globals module) i) (\<lambda>ty.
         case ir_get_global R registry mn n of
           Inl e \<Rightarrow> Err (CallToImportedItemReturnedError e)
         | Inr val \<Rightarrow> and_then (has_ty val (gt_content_type ty)) (\<lambda>same.
             if same then Ok val
             else Err (ImportGlobalTypeMismatch mn n (gt_content_type ty) val))))"

fun local_globals :: "GlobalKind list \<Rightarrow> Val list \<Rightarrow> ('e, Val list) result" where
  "local_globals [] globals = Ok globals"
| "local_globals (GK_Local e # kinds) globals =
     and_then (const_expr_evaluator e globals) (\<lambda>val. local_globals kinds (globals @ [val]))"
| "local_globals (GK_Imported _ _ # kinds) globals = Panic"

definition init_globals ::
    "('m, 'i) ImportRegistry \<Rightarrow> 'i \<Rightarrow> ('instr, 'layout) FullModule \<Rightarrow> (TraceWasmError, Val list) result" where
  "init_globals R registry module =
     (if ir_global_count R registry \<noteq> md_imported_global_count module
      then Err (ImportGlobalCountMismatch (md_imported_global_count module) (ir_global_count R registry))
      else and_then (collect (imported_global R registry module) [0..<md_imported_global_count module])
        (local_globals (drop (md_imported_global_count module) (md_global_kinds module))))"

section \<open>Tables and elements\<close>

definition init_table :: "nat \<Rightarrow> Val list \<Rightarrow> Table \<Rightarrow> (TraceWasmError, TableVal) result" where
  "init_table max_elements globals t =
     (let maximum = (case tb_maximum t of Some m \<Rightarrow> min (unat m) max_elements | None \<Rightarrow> max_elements);
          initial_size = unat (tb_initial t)
      in if maximum < initial_size then Err (TableTooLarge initial_size maximum)
         else case tb_init t of
           TI_RefNull \<Rightarrow> Ok \<lparr>table = replicate initial_size None, tv_maximum = maximum\<rparr>
         | TI_Expr e \<Rightarrow> and_then (const_ref e globals) (\<lambda>r.
             Ok \<lparr>table = replicate initial_size r, tv_maximum = maximum\<rparr>))"

definition element_items ::
    "(RefType \<Rightarrow> bool) \<Rightarrow> Val list \<Rightarrow> ElementItems \<Rightarrow> (TraceWasmError, FuncIndex option list) result" where
  "element_items is_func_ref globals items = (case items of
      EI_Functions fs \<Rightarrow> Ok (map Some fs)
    | EI_Expressions ty exprs \<Rightarrow>
        if is_func_ref ty then collect (\<lambda>e. const_ref e globals) exprs
        else Err (Unsupported ''non-funcref table element types''))"

fun write_items :: "nat \<Rightarrow> 'a list \<Rightarrow> 'a list \<Rightarrow> 'a list" where
  "write_items offset [] slots = slots"
| "write_items offset (x # xs) slots = write_items (offset + 1) xs (slots[offset := x])"

definition init_element ::
    "(RefType \<Rightarrow> bool) \<Rightarrow> Val list \<Rightarrow> Element \<Rightarrow> (TableVal list, TraceWasmError, ElementVal) op" where
  "init_element is_func_ref globals el =
     bnd (lift_result (element_items is_func_ref globals (el_items el))) (\<lambda>items.
     case el_kind el of
       EK_Passive \<Rightarrow> ret (ElemPassive items)
     | EK_Declared \<Rightarrow> ret ElemDropped
     | EK_Active table_index offset_expr \<Rightarrow>
         bnd (lift_result (const_i32 offset_expr globals)) (\<lambda>w.
         let offset = i32_as_usize w;
             i = (case table_index of Some t \<Rightarrow> unat t | None \<Rightarrow> 0)
         in bnd (gets (\<lambda>tabs. tabs)) (\<lambda>tabs. bnd (lift_result (index tabs i)) (\<lambda>tab.
            let len = length (table tab) in
            if len < offset \<or> len - offset < length items
            then fail (ElementSegmentOutOfBounds offset (length items) len)
            else bnd (modify (\<lambda>tabs. tabs[i := tab\<lparr>table := write_items offset items (table tab)\<rparr>]))
                   (\<lambda>_. ret ElemDropped)))))"

section \<open>Instantiation\<close>

text \<open>The result of an operation that owns its state, with the state.\<close>

definition owning :: "'s \<Rightarrow> ('s, 'e, 'a) op \<Rightarrow> ('e, 'a \<times> 's) result" where
  "owning s m = (case m s of Ok (a, s') \<Rightarrow> Ok (a, s') | Err (e, _) \<Rightarrow> Err e | Panic \<Rightarrow> Panic)"

text \<open>Everything but the start function. \<open>new\<close> is \<open>Instance::new\<close> at the machine's frame.\<close>

definition build_instance ::
    "('m \<Rightarrow> 'i \<Rightarrow> Config \<Rightarrow> Val list \<Rightarrow> TableVal list \<Rightarrow> ElementVal list \<Rightarrow> DataVal list \<Rightarrow> 'inst) \<Rightarrow>
     (RefType \<Rightarrow> bool) \<Rightarrow> 'm memory_impl \<Rightarrow> ('m, 'i) ImportRegistry \<Rightarrow> ('instr, 'layout) FullModule \<Rightarrow>
     'i \<Rightarrow> Config option \<Rightarrow> (TraceWasmError, 'inst) result" where
  "build_instance new is_func_ref D R module registry conf =
     (let pages = initial_pages module;
          conf = (case conf of Some c \<Rightarrow> c | None \<Rightarrow> default_config)
      in and_then (check_imports R registry module) (\<lambda>_.
         let max_pages = max_memory_pages module (max_memory_size_in_pages conf);
             conf = set_max_memory_size_in_pages max_pages conf
         in if unat max_pages < pages then Err (MemoryTooLarge pages (unat max_pages))
            else let mem = mv_allocate_initial_memory D pages
            in and_then (init_globals R registry module) (\<lambda>globals.
               and_then (collect (init_table (unat (max_table_elements conf)) globals) (md_tables module)) (\<lambda>tables.
               and_then (owning tables (map_op (init_element is_func_ref globals) (md_elements module))) (\<lambda>(elements, tables).
               and_then (owning mem (map_op (init_data D globals) (md_datas module))) (\<lambda>(datas, mem).
               Ok (new mem registry conf globals tables elements datas)))))))"

definition instantiate ::
    "nat \<Rightarrow> ('instr, 'layout, 'base, 'inst) machine \<Rightarrow>
     ('m \<Rightarrow> 'i \<Rightarrow> Config \<Rightarrow> Val list \<Rightarrow> TableVal list \<Rightarrow> ElementVal list \<Rightarrow> DataVal list \<Rightarrow> 'inst) \<Rightarrow>
     (RefType \<Rightarrow> bool) \<Rightarrow> 'm memory_impl \<Rightarrow> ('m, 'i) ImportRegistry \<Rightarrow> ('instr, 'layout) FullModule \<Rightarrow>
     'i \<Rightarrow> Config option \<Rightarrow> (TraceWasmError, 'inst) result option" where
  "instantiate n vm new is_func_ref D R module registry conf =
     (case build_instance new is_func_ref D R module registry conf of
        Err e \<Rightarrow> Some (Err e)
      | Panic \<Rightarrow> Some Panic
      | Ok s \<Rightarrow> (case md_start_section module of
            None \<Rightarrow> Some (Ok s)
          | Some f \<Rightarrow>
              if unat f < md_imported_func_count module then Some (Err (ImportedFunctionNotCallable f))
              else (case run n vm f [] (Module.truncate module) s of
                  None \<Rightarrow> None
                | Some (Ok (_, s')) \<Rightarrow> Some (Ok s')
                | Some (Err (e, _)) \<Rightarrow> Some (Err (StartFunctionError e))
                | Some Panic \<Rightarrow> Some Panic)))"

section \<open>Typed functions\<close>

text \<open>
  The tuple types \<open>P\<close> and \<open>R\<close> of a typed function are lists of value types, and a tuple is the list
  of its values: \<open>to_vals\<close> wraps each element in the constructor of its type.
\<close>

definition to_func :: "Export \<Rightarrow> (TraceWasmError, FuncIndex) result" where
  "to_func export = (case export of ExportFunc f \<Rightarrow> Ok f | _ \<Rightarrow> Err (ExportNotA ''function''))"

definition get_typed_func ::
    "ValType list \<Rightarrow> ValType list \<Rightarrow> ('instr, 'layout) FullModule \<Rightarrow> string \<Rightarrow> (TraceWasmError, FuncIndex) result" where
  "get_typed_func param_types result_types module name =
     and_then (ok_or (md_exports module name) (ExportNotFound name)) (\<lambda>export.
     and_then (to_func export) (\<lambda>f.
       if unat f < md_imported_func_count module then Err (ImportedFunctionNotCallable f)
       else and_then (index (md_func_decls module) (unat f)) (\<lambda>decl.
            and_then (index (md_types module) (unat (fd_ty decl))) (\<lambda>ty.
              if ft_params ty \<noteq> param_types
              then Err (IncorrectParamsResultsStructure ''params'' f (ft_params ty) param_types)
              else if ft_results ty \<noteq> result_types
              then Err (IncorrectParamsResultsStructure ''results'' f (ft_results ty) result_types)
              else Ok f))))"

text \<open>\<open>from_val\<close> of a scalar type gives nothing on another type; \<open>from_vals\<close> pulls one value per
  element and rejects a count that differs. No scalar type stands for a reference or a vector.\<close>

fun from_val :: "ValType \<Rightarrow> Val \<Rightarrow> Val option" where
  "from_val T_I32 (I32 v) = Some (I32 v)"
| "from_val T_I64 (I64 v) = Some (I64 v)"
| "from_val T_F32 (F32 v) = Some (F32 v)"
| "from_val T_F64 (F64 v) = Some (F64 v)"
| "from_val _ _ = None"

fun from_vals :: "ValType list \<Rightarrow> Val list \<Rightarrow> Val list option" where
  "from_vals [] [] = Some []"
| "from_vals [] (v # vs) = None"
| "from_vals (ty # tys) [] = None"
| "from_vals (ty # tys) (v # vs) = (case from_val ty v of
      None \<Rightarrow> None
    | Some x \<Rightarrow> (case from_vals tys vs of None \<Rightarrow> None | Some xs \<Rightarrow> Some (x # xs)))"

definition typed_call ::
    "nat \<Rightarrow> ('instr, 'layout, 'base, 'inst) machine \<Rightarrow> FuncIndex \<Rightarrow> ValType list \<Rightarrow>
     ('instr, 'layout) FullModule \<Rightarrow> Val list \<Rightarrow> ('inst, FuncCallError, Val list) fop" where
  "typed_call n vm func_index result_types module params =
     fbnd (run n vm func_index params (Module.truncate module)) (\<lambda>results.
       case from_vals result_types results of
         Some res \<Rightarrow> fop_of (ret res)
       | None \<Rightarrow> fop_of panic)"

end
