(* ===== verification/InstantiationSafety.thy ===== *)
theory InstantiationSafety
  imports Instantiation SafetyProperties ConstExprProperties
begin

text \<open>
  What instantiation sets up for execution, component by component: the checks of the imports, the
  globals, tables, elements and data segments of a validated module; then the instance, the typed
  functions, and what is in memory after the active segments.
\<close>

section \<open>Checks that return\<close>

text \<open>\<open>returns r P\<close>: no panic, and a value in \<open>P\<close> unless an error.\<close>

definition returns :: "('e, 'a) result \<Rightarrow> ('a \<Rightarrow> bool) \<Rightarrow> bool" where
  "returns r P \<longleftrightarrow> (case r of Ok a \<Rightarrow> P a | Err e \<Rightarrow> True | Panic \<Rightarrow> False)"

lemma returns_simps [simp]: "returns (Ok a) P = P a" "returns (Err e) P" "\<not> returns Panic P"
  "returns (and_then r f) P = returns r (\<lambda>a. returns (f a) P)"
  by (simp_all add: returns_def) (cases r; simp)

lemma returns_mono: "returns r P \<Longrightarrow> (\<And>a. P a \<Longrightarrow> Q a) \<Longrightarrow> returns r Q"
  by (auto simp: returns_def split: result.splits)

lemma returns_collect:
  assumes "\<And>x. x \<in> set xs \<Longrightarrow> returns (f x) (P x)"
  shows "returns (collect f xs) (list_all2 P xs)"
  using assms
proof (induction xs)
  case (Cons x xs)
  then have "returns (f x) (P x)" "returns (collect f xs) (list_all2 P xs)" by simp_all
  then show ?case by (auto elim!: returns_mono)
qed simp

lemma wp_map_op:
  assumes "\<And>x s. x \<in> set xs \<Longrightarrow> I s \<Longrightarrow> wp (f x) (\<lambda>y t. P x y \<and> I t) (\<lambda>_ _. True) s" and "I s"
  shows "wp (map_op f xs) (\<lambda>ys t. list_all2 P xs ys \<and> I t) (\<lambda>_ _. True) s"
  using assms
proof (induction xs arbitrary: s)
  case (Cons x xs)
  have "wp (map_op f xs) (\<lambda>ys t. list_all2 P xs ys \<and> I t) (\<lambda>_ _. True) t" if "I t" for t
    using Cons that by simp
  then show ?case
    unfolding map_op.simps wp_bnd
    by (intro wp_mono [OF Cons.prems(1) [of x s]]) (auto simp: Cons.prems intro: wp_mono)
qed simp

lemma returns_owning: "wp m (\<lambda>a t. P (a, t)) (\<lambda>_ _. True) s \<Longrightarrow> returns (owning s m) P"
  by (auto simp: owning_def wp_def split: result.splits)

section \<open>Constant expressions\<close>

fun ty_cty :: "ValType \<Rightarrow> cty" where
  "ty_cty T_I32 = C_I32"
| "ty_cty T_I64 = C_I64"
| "ty_cty T_F32 = C_F32"
| "ty_cty T_F64 = C_F64"
| "ty_cty (T_Ref _) = C_Ref"
| "ty_cty T_V128 = C_I32"

lemma has_ty_cty: "has_ty v ty = Ok True \<Longrightarrow> val_cty v = ty_cty ty"
  by (cases ty; cases v) auto

text \<open>A reference names a function of the module.\<close>

definition ref_ok :: "nat \<Rightarrow> Val \<Rightarrow> bool" where
  "ref_ok n v \<longleftrightarrow> (\<forall>f. v = Ref (Some f) \<longrightarrow> unat f < n)"

lemma ref_ok_simps [simp]: "ref_ok n (I32 a)" "ref_ok n (I64 b)" "ref_ok n (F32 c)" "ref_ok n (F64 d)"
  "ref_ok n (Ref r) \<longleftrightarrow> (\<forall>f. r = Some f \<longrightarrow> unat f < n)"
  by (auto simp: ref_ok_def)

text \<open>What validation has checked of a constant expression.\<close>

definition const_ok :: "cty list \<Rightarrow> nat \<Rightarrow> cty \<Rightarrow> ConstExpr \<Rightarrow> bool" where
  "const_ok tys n ty e \<longleftrightarrow> (\<exists>reader. emit_instruction_for_const_expr reader = Ok e \<and>
     const_checks tys reader [] = Some [ty] \<and> (\<forall>f offset. Inr (Op_RefFunc f, offset) \<in> set reader \<longrightarrow> unat f < n))"

lemma const_sem_ref_ok:
  assumes "\<forall>v \<in> set globals. ref_ok n v" and "\<forall>v \<in> set st. ref_ok n v"
    and "\<And>f. operator = Op_RefFunc f \<Longrightarrow> unat f < n"
  shows "\<forall>v \<in> set (const_sem globals operator st). ref_ok n v"
proof -
  have "ref_ok n v" if "const_leaf globals operator = Some v" for v
    using that assms(1,3) by (cases operator) (auto split: if_splits)
  with assms(2) show ?thesis
    by (auto simp: const_sem_def split: option.splits list.splits Val.splits)
qed

lemma const_value_ref_ok:
  assumes "\<forall>v \<in> set globals. ref_ok n v" and "\<forall>v \<in> set st. ref_ok n v"
    and "\<And>f offset. Inr (Op_RefFunc f, offset) \<in> set reader \<Longrightarrow> unat f < n"
  shows "\<forall>v \<in> set (const_value globals reader st). ref_ok n v"
  using assms(2,3)
proof (induction reader arbitrary: st)
  case (Cons x reader)
  show ?case
  proof (cases x)
    case (Inr p)
    obtain operator offset where p: "x = Inr (operator, offset)" using Inr by (cases p) simp
    have "\<forall>v \<in> set (const_sem globals operator st). ref_ok n v"
      by (rule const_sem_ref_ok [OF assms(1) Cons.prems(1)]) (use Cons.prems(2) p in auto)
    with Cons p show ?thesis by auto
  qed (use Cons in simp)
qed simp

lemma const_ok_value:
  assumes "const_ok (map val_cty globals) n ty e" and "\<forall>v \<in> set globals. ref_ok n v"
  obtains v where "const_expr_evaluator e globals = (Ok v :: ('e, Val) result)" "val_cty v = ty" "ref_ok n v"
proof -
  from assms(1) obtain reader where reader: "emit_instruction_for_const_expr reader = Ok e"
    "const_checks (map val_cty globals) reader [] = Some [ty]"
    and refs: "\<And>f offset. Inr (Op_RefFunc f, offset) \<in> set reader \<Longrightarrow> unat f < n"
    by (auto simp: const_ok_def)
  from const_expr_has_value [OF reader(2), where 'e = 'e] reader(1) obtain v where
    v: "const_expr_evaluator e globals = (Ok v :: ('e, Val) result)" "val_cty v = ty" "const_value globals reader [] = [v]" by auto
  from const_value_ref_ok [OF assms(2), of "[]" reader] refs v(3) have "ref_ok n v" by simp
  with v show thesis by (intro that)
qed

lemma returns_const:
  assumes "const_ok (map val_cty globals) n ty e" and "\<forall>v \<in> set globals. ref_ok n v"
  shows "returns (const_expr_evaluator e globals :: ('e, Val) result) (\<lambda>v. val_cty v = ty \<and> ref_ok n v)"
  by (rule const_ok_value [OF assms, where 'e = 'e]) simp

lemma returns_const_ref:
  assumes "const_ok (map val_cty globals) n C_Ref e" and "\<forall>v \<in> set globals. ref_ok n v"
  shows "returns (const_ref e globals :: ('e, FuncIndex option) result) (\<lambda>r. ref_ok n (Ref r))"
proof -
  have "returns (Val_as_ref v) (\<lambda>r. ref_ok n (Ref r))" if "val_cty v = C_Ref" "ref_ok n v" for v
    using that by (cases v) simp_all
  then show ?thesis
    unfolding const_ref_def by (auto intro: returns_mono [OF returns_const [OF assms]])
qed

lemma returns_const_i32:
  assumes "const_ok (map val_cty globals) n C_I32 e" and "\<forall>v \<in> set globals. ref_ok n v"
  shows "returns (const_i32 e globals :: ('e, u32) result) (\<lambda>_. True)"
proof -
  have "returns (Val_as_i32 v) (\<lambda>_. True)" if "val_cty v = C_I32" for v
    using that by (cases v) simp_all
  then show ?thesis
    unfolding const_i32_def by (auto intro: returns_mono [OF returns_const [OF assms]])
qed

section \<open>Validated modules\<close>

lemma truncate_sel [simp]:
  "md_types (Module.truncate M) = md_types M" "md_func_decls (Module.truncate M) = md_func_decls M"
  "md_globals (Module.truncate M) = md_globals M"
  "md_imported_func_count (Module.truncate M) = md_imported_func_count M"
  by (simp_all add: Module.truncate_def)

definition global_types :: "('instr, 'layout) FullModule \<Rightarrow> cty list" where
  "global_types M = map (\<lambda>g. ty_cty (gt_content_type g)) (md_globals M)"

text \<open>
  What validation has checked of the sections instantiation reads: initialisers have the type of
  what they initialise and refer to earlier globals only, indices are in range, the start function
  has the empty type.
\<close>

definition valid_globals :: "('instr, 'layout) FullModule \<Rightarrow> bool" where
  "valid_globals M \<longleftrightarrow> length (md_global_kinds M) = length (md_globals M) \<and>
     md_imported_global_count M \<le> length (md_globals M) \<and>
     (\<forall>i < length (md_globals M). case md_global_kinds M ! i of
        GK_Imported _ _ \<Rightarrow> i < md_imported_global_count M
      | GK_Local e \<Rightarrow> md_imported_global_count M \<le> i \<and>
          const_ok (take i (global_types M)) (length (md_func_decls M)) (global_types M ! i) e)"

definition valid_table :: "('instr, 'layout) FullModule \<Rightarrow> Table \<Rightarrow> bool" where
  "valid_table M t \<longleftrightarrow>
     (\<forall>e. tb_init t = TI_Expr e \<longrightarrow> const_ok (global_types M) (length (md_func_decls M)) C_Ref e)"

definition valid_element :: "('instr, 'layout) FullModule \<Rightarrow> Element \<Rightarrow> bool" where
  "valid_element M el \<longleftrightarrow>
     (case el_items el of
        EI_Functions fs \<Rightarrow> \<forall>f \<in> set fs. unat f < length (md_func_decls M)
      | EI_Expressions _ es \<Rightarrow> \<forall>e \<in> set es. const_ok (global_types M) (length (md_func_decls M)) C_Ref e) \<and>
     (\<forall>i e. el_kind el = EK_Active i e \<longrightarrow> const_ok (global_types M) (length (md_func_decls M)) C_I32 e \<and>
        (case i of Some t \<Rightarrow> unat t | None \<Rightarrow> 0) < length (md_tables M))"

definition valid_data :: "('instr, 'layout) FullModule \<Rightarrow> Data \<Rightarrow> bool" where
  "valid_data M d \<longleftrightarrow> length (da_data d) \<le> USIZE_MAX \<and>
     (\<forall>i e. da_kind d = DK_Active i e \<longrightarrow> const_ok (global_types M) (length (md_func_decls M)) C_I32 e)"

definition valid_sections :: "('instr, 'layout) FullModule \<Rightarrow> bool" where
  "valid_sections M \<longleftrightarrow> valid_globals M \<and> (\<forall>t \<in> set (md_tables M). valid_table M t) \<and>
     (\<forall>el \<in> set (md_elements M). valid_element M el) \<and> (\<forall>d \<in> set (md_datas M). valid_data M d)"

definition valid_names :: "(StackInstruction, StackFrameLayout) FullModule \<Rightarrow> bool" where
  "valid_names M \<longleftrightarrow>
     (\<forall>f. md_start_section M = Some f \<longrightarrow> unat f < length (md_func_decls M) \<and>
        decl_type (Module.truncate M) f = \<lparr>ft_params = [], ft_results = []\<rparr>) \<and>
     (\<forall>name f. md_exports M name = Some (ExportFunc f) \<longrightarrow> unat f < length (md_func_decls M))"

text \<open>The references a registry hands out name functions of the module.\<close>

definition honest :: "('m, 'i) ImportRegistry \<Rightarrow> 'i \<Rightarrow> nat \<Rightarrow> bool" where
  "honest R registry n \<longleftrightarrow> (\<forall>mn name v. ir_get_global R registry mn name = Inr v \<longrightarrow> ref_ok n v)"

section \<open>What instantiation sets up\<close>

lemma returns_check_imports:
  assumes "declared (Module.truncate M)"
  shows "returns (check_imports R registry M) (\<lambda>_. True)"
proof -
  have decl: "md_imported_func_count M \<le> length (md_func_decls M)"
      "\<forall>d \<in> set (md_func_decls M). unat (fd_ty d) < length (md_types M)"
      "\<forall>i < length (md_func_decls M). fd_kind (md_func_decls M ! i) = Local \<longleftrightarrow> md_imported_func_count M \<le> i"
    using assms by (auto simp: declared_def)
  have "returns (check_import R registry M i) (\<lambda>_. True)" if "i < md_imported_func_count M" for i
  proof -
    have i: "i < length (md_func_decls M)" "fd_kind (md_func_decls M ! i) \<noteq> Local"
      using that decl(1,3) by auto
    then have "unat (fd_ty (md_func_decls M ! i)) < length (md_types M)" using decl(2) by simp
    with i show ?thesis
      by (auto simp: check_import_def index_def split: FuncKind.split option.split)
  qed
  then have "returns (collect (check_import R registry M) [0..<md_imported_func_count M])
      (list_all2 (\<lambda>_ _. True) [0..<md_imported_func_count M])"
    by (intro returns_collect) simp
  then show ?thesis by (auto simp: check_imports_def elim!: returns_mono)
qed

lemma returns_local_globals:
  fixes M :: "('instr, 'layout) FullModule"
  assumes valid: "valid_globals M" and small: "length globals \<le> length (md_globals M)"
    and imported: "md_imported_global_count M \<le> length globals"
    and types: "map val_cty globals = take (length globals) (global_types M)"
    and refs: "\<forall>v \<in> set globals. ref_ok (length (md_func_decls M)) v"
  shows "returns (local_globals (drop (length globals) (md_global_kinds M)) globals :: ('e, Val list) result)
    (\<lambda>vs. map val_cty vs = global_types M \<and> (\<forall>v \<in> set vs. ref_ok (length (md_func_decls M)) v))"
  using small imported types refs
proof (induction "length (md_globals M) - length globals" arbitrary: globals)
  case 0
  then show ?case using valid by (simp add: valid_globals_def global_types_def)
next
  case (Suc k)
  let ?i = "length globals"
  have i: "?i < length (md_globals M)" using Suc.hyps(2) by simp
  have kinds: "length (md_global_kinds M) = length (md_globals M)" using valid by (simp add: valid_globals_def)
  obtain e where kind: "md_global_kinds M ! ?i = GK_Local e"
    and ok: "const_ok (take ?i (global_types M)) (length (md_func_decls M)) (global_types M ! ?i) e"
    using valid i Suc.prems(2) unfolding valid_globals_def
    by (cases "md_global_kinds M ! ?i") (fastforce dest: spec [of _ ?i])+
  have drop: "drop ?i (md_global_kinds M) = GK_Local e # drop (Suc ?i) (md_global_kinds M)"
    using i kinds kind by (metis Cons_nth_drop_Suc)
  have step: "returns (local_globals (drop (Suc ?i) (md_global_kinds M)) (globals @ [v]) :: ('e, Val list) result)
      (\<lambda>vs. map val_cty vs = global_types M \<and> (\<forall>v \<in> set vs. ref_ok (length (md_func_decls M)) v))"
    if "val_cty v = global_types M ! ?i" "ref_ok (length (md_func_decls M)) v" for v
  proof -
    have "k = length (md_globals M) - length (globals @ [v])" using Suc.hyps(2) by simp
    from Suc.hyps(1) [OF this] show ?thesis
      using Suc.prems i that by (simp add: take_Suc_conv_app_nth global_types_def)
  qed
  have "returns (const_expr_evaluator e globals :: ('e, Val) result)
      (\<lambda>v. val_cty v = global_types M ! ?i \<and> ref_ok (length (md_func_decls M)) v)"
    using ok Suc.prems(3,4) by (intro returns_const) simp_all
  then show ?case unfolding drop by (auto intro: step elim!: returns_mono)
qed

text \<open>The globals of an instance, of the declared types.\<close>

definition typed_globals :: "('instr, 'layout) FullModule \<Rightarrow> Val list \<Rightarrow> bool" where
  "typed_globals M vs \<longleftrightarrow>
     map val_cty vs = global_types M \<and> (\<forall>v \<in> set vs. ref_ok (length (md_func_decls M)) v)"

lemma typed_globals_length: "typed_globals M vs \<Longrightarrow> length vs = length (md_globals M)"
  unfolding typed_globals_def global_types_def by (metis length_map)

lemma returns_init_globals:
  assumes valid: "valid_globals M" and decl: "\<forall>g \<in> set (md_globals M). gt_content_type g \<noteq> T_V128"
    and honest: "honest R registry (length (md_func_decls M))"
  shows "returns (init_globals R registry M) (typed_globals M)"
proof -
  let ?n = "length (md_func_decls M)" and ?k = "md_imported_global_count M"
  have k: "?k \<le> length (md_globals M)" and kinds: "length (md_global_kinds M) = length (md_globals M)"
    using valid by (simp_all add: valid_globals_def)
  have one: "returns (imported_global R registry M i) (\<lambda>v. val_cty v = global_types M ! i \<and> ref_ok ?n v)"
    if less: "i < ?k" for i
  proof -
    have i: "i < length (md_globals M)" using less k by simp
    then have ty: "gt_content_type (md_globals M ! i) \<noteq> T_V128" using decl by simp
    have "case md_global_kinds M ! i of GK_Imported _ _ \<Rightarrow> True | GK_Local e \<Rightarrow> ?k \<le> i"
      using valid i by (auto simp: valid_globals_def split: GlobalKind.splits)
    then obtain mn name where kind: "md_global_kinds M ! i = GK_Imported mn name"
      using less by (cases "md_global_kinds M ! i") simp_all
    show ?thesis
    proof (cases "ir_get_global R registry mn name")
      case (Inr v)
      with honest have "ref_ok ?n v" by (auto simp: honest_def)
      moreover obtain b where b: "has_ty v (gt_content_type (md_globals M ! i)) = Ok b"
        using ty by (cases "gt_content_type (md_globals M ! i)") auto
      ultimately show ?thesis
        using i kinds kind Inr has_ty_cty [of v] b by (simp add: imported_global_def index_def global_types_def)
    qed (use i kinds kind in \<open>simp add: imported_global_def index_def\<close>)
  qed
  have rest: "returns (local_globals (drop ?k (md_global_kinds M)) vs :: (TraceWasmError, _) result) (typed_globals M)"
    if "list_all2 (\<lambda>i v. val_cty v = global_types M ! i \<and> ref_ok ?n v) [0..<?k] vs" for vs
  proof -
    have len: "length vs = ?k" using list_all2_lengthD [OF that] by simp
    have each: "val_cty (vs ! i) = global_types M ! i \<and> ref_ok ?n (vs ! i)" if "i < ?k" for i
      using \<open>list_all2 _ _ _\<close> that by (simp add: list_all2_conv_all_nth)
    have types: "map val_cty vs = take (length vs) (global_types M)"
      by (rule nth_equalityI) (use each len k in \<open>simp_all add: global_types_def\<close>)
    have refs: "\<forall>v \<in> set vs. ref_ok ?n v"
      using each len by (simp add: all_set_conv_all_nth)
    from returns_local_globals [OF valid _ _ types refs, where 'e = TraceWasmError] len k show ?thesis
      by (simp add: typed_globals_def [abs_def])
  qed
  have "returns (collect (imported_global R registry M) [0..<?k])
      (list_all2 (\<lambda>i v. val_cty v = global_types M ! i \<and> ref_ok ?n v) [0..<?k])"
    by (rule returns_collect) (simp add: one)
  then have "returns (collect (imported_global R registry M) [0..<?k])
      (\<lambda>vs. returns (local_globals (drop ?k (md_global_kinds M)) vs :: (TraceWasmError, _) result) (typed_globals M))"
    by (rule returns_mono) (rule rest)
  then show ?thesis by (simp add: init_globals_def)
qed

definition sound_table :: "nat \<Rightarrow> TableVal \<Rightarrow> bool" where
  "sound_table n tab \<longleftrightarrow> (\<forall>f. Some f \<in> set (table tab) \<longrightarrow> unat f < n)"

lemma returns_init_table:
  assumes "valid_table M t" and g: "typed_globals M globals"
  shows "returns (init_table cap globals t) (sound_table (length (md_func_decls M)))"
proof (cases "tb_init t")
  case (TI_Expr e)
  with assms(1) have "const_ok (map val_cty globals) (length (md_func_decls M)) C_Ref e"
    using g by (simp add: valid_table_def typed_globals_def)
  from returns_const_ref [OF this] g TI_Expr show ?thesis
    by (auto simp: init_table_def Let_def sound_table_def typed_globals_def elim!: returns_mono)
qed (simp add: init_table_def Let_def sound_table_def)

lemma set_write_items: "set (write_items offset xs slots) \<subseteq> set xs \<union> set slots"
proof (induction offset xs slots rule: write_items.induct)
  case (2 offset x xs slots)
  then show ?case using set_update_subset_insert [of slots offset x] by auto
qed simp

lemma init_element_wp:
  assumes el: "valid_element M el" and g: "typed_globals M globals"
    and tabs: "length tabs = length (md_tables M)" "\<forall>tab \<in> set tabs. sound_table (length (md_func_decls M)) tab"
  shows "wp (init_element is_func_ref globals el)
    (\<lambda>_ tabs'. length tabs' = length (md_tables M) \<and> (\<forall>tab \<in> set tabs'. sound_table (length (md_func_decls M)) tab))
    (\<lambda>_ _. True) tabs"
proof -
  let ?n = "length (md_func_decls M)"
  have g': "map val_cty globals = global_types M" "\<forall>v \<in> set globals. ref_ok ?n v"
    using g by (simp_all add: typed_globals_def)
  have items: "returns (element_items is_func_ref globals (el_items el)) (\<lambda>rs. \<forall>r \<in> set rs. ref_ok ?n (Ref r))"
  proof (cases "el_items el")
    case (EI_Functions fs)
    with el show ?thesis by (auto simp: element_items_def valid_element_def)
  next
    case (EI_Expressions ty es)
    have "returns (const_ref e globals :: (TraceWasmError, _) result) (\<lambda>r. ref_ok ?n (Ref r))" if "e \<in> set es" for e
      using el EI_Expressions that g' by (intro returns_const_ref) (auto simp: valid_element_def)
    then have "returns (collect (\<lambda>e. const_ref e globals :: (TraceWasmError, _) result) es)
        (list_all2 (\<lambda>_ r. ref_ok ?n (Ref r)) es)"
      by (rule returns_collect)
    with EI_Expressions show ?thesis
      by (auto simp: element_items_def list_all2_conv_all_nth in_set_conv_nth elim!: returns_mono)
  qed
  have active: "(case (const_i32 e globals :: (TraceWasmError, u32) result) of
        Ok w \<Rightarrow> wp (let offset = i32_as_usize w; j = (case i of Some t \<Rightarrow> unat t | None \<Rightarrow> 0) in
          bnd (gets (\<lambda>tabs. tabs)) (\<lambda>tabs. bnd (lift_result (index tabs j)) (\<lambda>tab. let len = length (table tab) in
            if len < offset \<or> len - offset < length rs then fail (ElementSegmentOutOfBounds offset (length rs) len)
            else bnd (modify (\<lambda>tabs. tabs[j := tab\<lparr>table := write_items offset rs (table tab)\<rparr>])) (\<lambda>_. ret ElemDropped))))
          (\<lambda>_ tabs'. length tabs' = length (md_tables M) \<and> (\<forall>tab \<in> set tabs'. sound_table ?n tab)) (\<lambda>_ _. True) tabs
      | Err e \<Rightarrow> True | Panic \<Rightarrow> False)"
    if "el_kind el = EK_Active i e" "\<forall>r \<in> set rs. ref_ok ?n (Ref r)" for i e rs
  proof -
    let ?j = "case i of Some t \<Rightarrow> unat t | None \<Rightarrow> 0"
    from el that(1) have ok: "const_ok (map val_cty globals) ?n C_I32 e" and j: "?j < length tabs"
      using g' tabs by (auto simp: valid_element_def)
    have "sound_table ?n ((tabs ! ?j)\<lparr>table := write_items off rs (table (tabs ! ?j))\<rparr>)" for off
      using set_write_items [of off rs "table (tabs ! ?j)"] that(2) tabs(2) j
      by (fastforce simp: sound_table_def)
    then show ?thesis
      using returns_const_i32 [OF ok g'(2), where 'e = TraceWasmError] j tabs
      by (auto simp: returns_def index_def Let_def dest!: set_update_subset_insert [THEN subsetD] split: result.splits)
  qed
  show ?thesis
    using items active tabs
    by (auto simp: init_element_def returns_def split: result.splits ElementKind.split)
qed

section \<open>Instances that can run\<close>

text \<open>The limits an instance starts with.\<close>

abbreviation limits_of :: "Config option \<Rightarrow> Config" where
  "limits_of conf \<equiv> (case conf of Some c \<Rightarrow> c | None \<Rightarrow> default_config)"

context memory_backend
begin

lemma init_data_wp:
  assumes d: "valid_data M d" and g: "typed_globals M globals" and m: "valid m"
  shows "wp (init_data D globals d) (\<lambda>v m'. length (data_segment v) \<le> USIZE_MAX \<and> valid m') (\<lambda>_ _. True) m"
proof (cases "da_kind d")
  case (DK_Active i e)
  with d g have "const_ok (map val_cty globals) (length (md_func_decls M)) C_I32 e"
    by (simp add: valid_data_def typed_globals_def)
  from returns_const_i32 [OF this, where 'e = TraceWasmError] g
  have e: "returns (const_i32 e globals :: (TraceWasmError, u32) result) (\<lambda>_. True)"
    by (simp add: typed_globals_def)
  have stored: "wp (mv_write D off (da_data d)) (\<lambda>_ m'. valid m') (\<lambda>_ _. True) m" for off
    by (rule wp_mono [OF write_bytes_law [OF m]]) simp_all
  show ?thesis
    using e stored DK_Active by (auto simp: init_data_def returns_def data_segment_def split: result.splits)
qed (use d m in \<open>simp add: init_data_def valid_data_def data_segment_def\<close>)

lemma returns_build:
  assumes sections: "valid_sections M" and decl: "declared (Module.truncate M)"
    and honest: "honest R registry (length (md_func_decls M))"
  shows "returns (build_instance new_instance is_func_ref D R M registry conf)
    (keeps_limits valid (Module.truncate M) (length (md_tables M)) (length (md_datas M))
      (max_call_stack_depth (limits_of conf)))"
proof -
  let ?n = "length (md_func_decls M)"
  let ?conf = "set_max_memory_size_in_pages (max_memory_pages M (max_memory_size_in_pages (limits_of conf))) (limits_of conf)"
  let ?good = "keeps_limits valid (Module.truncate M) (length (md_tables M)) (length (md_datas M))
      (max_call_stack_depth (limits_of conf))"
  let ?tables = "\<lambda>tabs. length tabs = length (md_tables M) \<and> (\<forall>tab \<in> set tabs. sound_table ?n tab)"
  have mem: "valid (mv_allocate_initial_memory D (initial_pages M))"
  proof -
    have "initial_pages M \<le> U32_MAX" by (simp add: initial_pages_def split: list.split)
    from alloc_law [OF this] show ?thesis by simp
  qed
  have datas: "returns (owning (mv_allocate_initial_memory D (initial_pages M)) (map_op (init_data D globals) (md_datas M)))
      (\<lambda>(datas, m). ?good (new_instance m registry ?conf globals tabs elements datas))"
    if g: "typed_globals M globals" and tabs: "?tables tabs" for globals tabs elements
  proof (rule returns_owning, rule wp_mono)
    show "wp (map_op (init_data D globals) (md_datas M))
        (\<lambda>datas m. list_all2 (\<lambda>_ v. length (data_segment v) \<le> USIZE_MAX) (md_datas M) datas \<and> valid m)
        (\<lambda>_ _. True) (mv_allocate_initial_memory D (initial_pages M))"
      by (rule wp_map_op [where I = valid, OF init_data_wp [OF _ g] mem])
        (use sections in \<open>simp_all add: valid_sections_def\<close>)
    fix datas m
    assume "list_all2 (\<lambda>_ v. length (data_segment v) \<le> USIZE_MAX) (md_datas M) datas \<and> valid m"
    then show "case (datas, m) of (datas, m) \<Rightarrow> ?good (new_instance m registry ?conf globals tabs elements datas)"
      using tabs typed_globals_length [OF g]
      by (auto simp: keeps_limits_def conforms_def new_instance_def sound_table_def set_max_memory_size_in_pages_def
          list_all2_conv_all_nth in_set_conv_nth)
  qed simp
  have elements: "returns (owning tabs (map_op (init_element is_func_ref globals) (md_elements M))) (\<lambda>(_, tabs). ?tables tabs)"
    if g: "typed_globals M globals" and tabs: "?tables tabs" for globals tabs
  proof (rule returns_owning, rule wp_mono)
    show "wp (map_op (init_element is_func_ref globals) (md_elements M))
        (\<lambda>es tabs. list_all2 (\<lambda>_ _. True) (md_elements M) es \<and> ?tables tabs) (\<lambda>_ _. True) tabs"
      by (rule wp_map_op [where I = ?tables, OF _ tabs])
        (use sections init_element_wp [OF _ g] in \<open>auto simp: valid_sections_def\<close>)
  qed simp_all
  have tables: "returns (collect (init_table cap globals) (md_tables M)) ?tables"
    if g: "typed_globals M globals" for cap globals
  proof (rule returns_mono [OF returns_collect])
    show "returns (init_table cap globals t) (sound_table ?n)" if "t \<in> set (md_tables M)" for t
      using sections that by (intro returns_init_table [OF _ g]) (simp add: valid_sections_def)
  qed (auto simp: list_all2_conv_all_nth in_set_conv_nth)
  have globals: "returns (init_globals R registry M) (typed_globals M)"
    using sections decl by (intro returns_init_globals [OF _ _ honest]) (auto simp: valid_sections_def declared_def)
  let ?memory = "mv_allocate_initial_memory D (initial_pages M)"
  let ?data_step = "\<lambda>globals elements tabs. and_then (owning ?memory (map_op (init_data D globals) (md_datas M)))
    (\<lambda>(datas, m). Ok (new_instance m registry ?conf globals tabs elements datas))"
  let ?element_step = "\<lambda>globals tabs. and_then (owning tabs (map_op (init_element is_func_ref globals) (md_elements M)))
    (\<lambda>(elements, tabs). ?data_step globals elements tabs)"
  have data_step: "returns (?data_step globals elements tabs) ?good" if "typed_globals M globals" "?tables tabs" for globals tabs elements
    using returns_mono [OF datas [OF that, of elements]] by (simp add: case_prod_beta)
  have element_step: "returns (?element_step globals tabs) ?good" if "typed_globals M globals" "?tables tabs" for globals tabs
    using returns_mono [OF elements [OF that]] data_step [OF that(1)] by (simp add: case_prod_beta)
  have table_step: "returns (and_then (collect (init_table cap globals) (md_tables M)) (?element_step globals)) ?good"
    if "typed_globals M globals" for cap globals
    using returns_mono [OF tables [OF that]] element_step [OF that] by simp
  have "returns (and_then (init_globals R registry M) (\<lambda>globals.
      and_then (collect (init_table cap globals) (md_tables M)) (?element_step globals))) ?good" for cap
    using returns_mono [OF globals] table_step by simp
  then show ?thesis
    using returns_check_imports [OF decl, of R registry] by (simp add: build_instance_def Let_def)
qed

lemma instantiate_safe:
  fixes R :: "('m, 'i) ImportRegistry"
  assumes perm: "permitted valid (import_registry_impl.truncate R) (Module.truncate M) (length (md_tables M))
      (length (md_datas M)) (max_call_stack_depth (limits_of conf)) B"
    and sections: "valid_sections M" and names: "valid_names M"
    and honest: "honest R registry (length (md_func_decls M))"
    and run: "instantiate n (stack_machine fe D (import_registry_impl.truncate R)) new_instance is_func_ref D R M
      registry conf = Some r"
  shows "returns r (keeps_limits valid (Module.truncate M) (length (md_tables M)) (length (md_datas M))
      (max_call_stack_depth (limits_of conf)))"
proof -
  let ?good = "keeps_limits valid (Module.truncate M) (length (md_tables M)) (length (md_datas M))
      (max_call_stack_depth (limits_of conf))"
  have decl: "declared (Module.truncate M)" using perm by (simp add: permitted_def sound_module_def)
  note built = returns_build [OF sections decl honest, of is_func_ref conf]
  show ?thesis
  proof (cases "build_instance new_instance is_func_ref D R M registry conf :: (TraceWasmError, ('m, 'i) StackInstance) result")
    case (Ok s)
    with built have s: "?good s" by simp
    show ?thesis
    proof (cases "md_start_section M")
      case (Some f)
      show ?thesis
      proof (cases "unat f < md_imported_func_count M")
        case False
        with names Some have f: "local_function (Module.truncate M) f"
            "decl_type (Module.truncate M) f = \<lparr>ft_params = [], ft_results = []\<rparr>"
          by (auto simp: valid_names_def local_function_def)
        have "sane ?good [] x"
          if "run n (stack_machine fe D (import_registry_impl.truncate R)) f [] (Module.truncate M) s = Some x" for x
          using run_sane [OF perm s f(1) _ that] f(2) by simp
        with run Ok Some False show ?thesis
          by (auto simp: instantiate_def sane_def split: option.splits result.splits)
      qed (use run Ok Some in \<open>auto simp: instantiate_def\<close>)
    qed (use run Ok s in \<open>auto simp: instantiate_def\<close>)
  qed (use run built in \<open>auto simp: instantiate_def\<close>)
qed

end

section \<open>Typed functions\<close>

fun scalar :: "ValType \<Rightarrow> bool" where
  "scalar (T_Ref _) = False"
| "scalar T_V128 = False"
| "scalar _ = True"

lemma from_vals_typed:
  "list_all2 (\<lambda>v ty. has_ty v ty = Ok True) vs tys \<Longrightarrow> list_all scalar tys \<Longrightarrow> from_vals tys vs = Some vs"
proof (induction vs tys rule: list_all2_induct)
  case (Cons v vs ty tys)
  then show ?case by (cases ty; cases v) auto
qed simp

lemma get_typed_func_Ok:
  assumes "get_typed_func param_types result_types M name = Ok f" and "valid_names M"
  shows "local_function (Module.truncate M) f"
    and "ft_params (decl_type (Module.truncate M) f) = param_types"
    and "ft_results (decl_type (Module.truncate M) f) = result_types"
  using assms
  by (auto simp: get_typed_func_def to_func_def ok_or_def and_then_eq_Ok index_def local_function_def decl_type_def
      split: option.splits Export.splits if_splits)

section \<open>Active segments\<close>

text \<open>Where an active segment goes, and what is left of a segment afterwards.\<close>

definition segment_offset :: "Val list \<Rightarrow> Data \<Rightarrow> usize option" where
  "segment_offset globals d = (case da_kind d of
      DK_Passive \<Rightarrow> None
    | DK_Active _ e \<Rightarrow> (case (const_i32 e globals :: (TraceWasmError, u32) result) of Ok w \<Rightarrow> Some (i32_as_usize w) | _ \<Rightarrow> None))"

definition placed_in :: "Val list \<Rightarrow> Data \<Rightarrow> u8 list \<Rightarrow> u8 list" where
  "placed_in globals d bytes = (case segment_offset globals d of Some off \<Rightarrow> overwrite bytes off (da_data d) | None \<Rightarrow> bytes)"

definition data_fits :: "Val list \<Rightarrow> nat \<Rightarrow> Data \<Rightarrow> bool" where
  "data_fits globals len d \<longleftrightarrow> (case segment_offset globals d of Some off \<Rightarrow> off + length (da_data d) \<le> len | None \<Rightarrow> True)"

definition data_left :: "Data \<Rightarrow> DataVal" where
  "data_left d = (case da_kind d of DK_Passive \<Rightarrow> DataPassive (da_data d) | DK_Active _ _ \<Rightarrow> DataDropped)"

definition plain_data :: "Val list \<Rightarrow> Data \<Rightarrow> bool" where
  "plain_data globals d \<longleftrightarrow> (\<forall>i e. da_kind d = DK_Active i e \<longrightarrow>
     i = 0 \<and> (\<exists>w. const_i32 e globals = (Ok w :: (TraceWasmError, u32) result)))"

text \<open>All segments before the first that does not fit have been written.\<close>

definition data_outcome ::
    "('m \<Rightarrow> u8 list) \<Rightarrow> Val list \<Rightarrow> Data list \<Rightarrow> u8 list \<Rightarrow>
     (TraceWasmError \<times> 'm, DataVal list \<times> 'm) result \<Rightarrow> bool" where
  "data_outcome contents globals datas bytes r \<longleftrightarrow> (case r of
      Ok (vs, m) \<Rightarrow> vs = map data_left datas \<and> contents m = fold (placed_in globals) datas bytes \<and>
        list_all (data_fits globals (length bytes)) datas
    | Err (e, m) \<Rightarrow> (\<exists>before d after off. datas = before @ d # after \<and>
        list_all (data_fits globals (length bytes)) before \<and> segment_offset globals d = Some off \<and>
        length bytes < off + length (da_data d) \<and> e = MemoryErr (OutOfBoundsAccess Write off (length bytes)) \<and>
        contents m = fold (placed_in globals) before bytes)
    | Panic \<Rightarrow> False)"

lemma length_placed_in: "data_fits globals (length bytes) d \<Longrightarrow> length (placed_in globals d bytes) = length bytes"
  by (auto simp: data_fits_def placed_in_def split: option.splits)

context memory_backend
begin

lemma init_data_cases:
  assumes "plain_data globals d" and "valid m"
  shows "wp (init_data D globals d)
    (\<lambda>v m'. v = data_left d \<and> data_fits globals (length (contents m)) d \<and>
       contents m' = placed_in globals d (contents m) \<and> valid m')
    (\<lambda>e m'. contents m' = contents m \<and> (\<exists>off. segment_offset globals d = Some off \<and>
       length (contents m) < off + length (da_data d) \<and> e = MemoryErr (OutOfBoundsAccess Write off (length (contents m))))) m"
proof (cases "da_kind d")
  case (DK_Active i e)
  with assms(1) obtain w where w: "i = 0" "const_i32 e globals = (Ok w :: (TraceWasmError, u32) result)"
    by (auto simp: plain_data_def)
  show ?thesis
    using DK_Active w wp_mono [OF write_bytes_law [OF assms(2), of "i32_as_usize w" "da_data d"]]
    by (simp add: init_data_def data_left_def data_fits_def placed_in_def segment_offset_def)
qed (use assms in \<open>simp add: init_data_def data_left_def data_fits_def placed_in_def segment_offset_def\<close>)

lemma init_datas_outcome:
  assumes "list_all (plain_data globals) datas" and "valid m"
  shows "data_outcome contents globals datas (contents m) (map_op (init_data D globals) datas m)"
  using assms
proof (induction datas arbitrary: m)
  case Nil
  then show ?case by (simp add: data_outcome_def ret_def)
next
  case (Cons d datas)
  from Cons.prems have d: "plain_data globals d" by simp
  from init_data_cases [OF this Cons.prems(2)] show ?case
  proof (cases rule: wp_cases)
    case (Ok v m1)
    then have m1: "valid m1" "data_fits globals (length (contents m)) d"
      "contents m1 = placed_in globals d (contents m)" "v = data_left d" by simp_all
    have len: "length (contents m1) = length (contents m)" using m1 by (simp add: length_placed_in)
    have rest: "data_outcome contents globals datas (contents m1) (map_op (init_data D globals) datas m1)"
      using Cons m1(1) by simp
    show ?thesis
    proof (cases "map_op (init_data D globals) datas m1")
      case (Err p)
      then obtain e m2 where p: "map_op (init_data D globals) datas m1 = Err (e, m2)" by (cases p) simp
      with rest len obtain before d' after off where "datas = before @ d' # after"
        "list_all (data_fits globals (length (contents m))) before" "segment_offset globals d' = Some off"
        "length (contents m) < off + length (da_data d')"
        "e = MemoryErr (OutOfBoundsAccess Write off (length (contents m)))"
        "contents m2 = fold (placed_in globals) before (contents m1)"
        by (auto simp: data_outcome_def)
      with Ok p m1 show ?thesis
        by (auto simp: data_outcome_def bnd_def intro!: exI [of _ "d # before"])
    qed (use Ok rest m1 len in \<open>auto simp: data_outcome_def bnd_def ret_def\<close>)
  next
    case (Err e m1)
    then show ?thesis
      by (auto simp: data_outcome_def bnd_def intro!: exI [of _ "[]"])
  qed
qed

end

text \<open>\<open>as_i32() as usize\<close>: an offset with its top bit set is beyond every memory.\<close>

lemma uint_u32_small: "uint (w :: u32) < 4294967296"
  using uint_lt2p [of w] by simp

lemma bit_31: "bit (uint (w :: u32)) 31 \<longleftrightarrow> 2147483648 \<le> uint w"
proof -
  have "uint w div 2147483648 = (if 2147483648 \<le> uint w then 1 else 0)"
    using uint_u32_small [of w] by (simp add: div_pos_geq div_pos_pos_trivial)
  then show ?thesis by (simp add: bit_iff_odd)
qed

lemma sint_u32: "sint (w :: u32) = uint w - (if 2147483648 \<le> uint w then 4294967296 else 0)"
proof -
  have "take_bit 32 (uint w) = uint w" by (rule take_bit_int_eq_self) (use uint_u32_small [of w] in simp_all)
  then have "signed_take_bit 31 (uint w) = uint w - 4294967296 * of_bool (bit (uint w) 31)"
    unfolding signed_take_bit_eq_take_bit_minus by simp
  then show ?thesis unfolding sint_uint bit_31 by simp
qed

lemma uint_u64_of_int: "uint (word_of_int k :: u64) = k mod 18446744073709551616"
  by (simp add: uint_word_of_int)

lemma i32_as_usize_eq:
  "int (i32_as_usize w) = (if 2147483648 \<le> uint w then 18446744069414584320 + uint w else uint w)"
proof -
  have "int (i32_as_usize w) = sint w mod 18446744073709551616"
    unfolding i32_as_usize_def scast_eq of_nat_unat by (rule uint_u64_of_int)
  moreover have "sint w mod 18446744073709551616 = 18446744069414584320 + uint w" if "2147483648 \<le> uint w"
  proof -
    have "sint w mod 18446744073709551616 = (sint w + 18446744073709551616) mod 18446744073709551616"
      by (rule mod_add_self2 [symmetric])
    also have "\<dots> = sint w + 18446744073709551616"
      by (rule mod_pos_pos_trivial) (use that uint_u32_small [of w] in \<open>simp_all add: sint_u32\<close>)
    finally show ?thesis using that by (simp add: sint_u32)
  qed
  moreover have "sint w mod 18446744073709551616 = uint w" if "\<not> 2147483648 \<le> uint w"
    using that uint_u32_small [of w] by (simp add: sint_u32 mod_pos_pos_trivial)
  ultimately show ?thesis by simp
qed

lemma high_segments_never_fit:
  assumes "linear_valid m" and "2147483648 \<le> uint w"
  shows "length (inner m) < i32_as_usize w"
proof -
  have "int (i32_as_usize w) = 18446744069414584320 + uint w" using assms(2) by (simp add: i32_as_usize_eq)
  moreover obtain p where "p \<le> U32_MAX" "length (inner m) = p * WASM_MEMORY_PAGE_SIZE"
    using assms(1) by (rule linear_validE)
  ultimately show ?thesis using assms(2) by (simp add: WASM_MEMORY_PAGE_SIZE_def)
qed

end
