(* ===== verification/InstantiationProperties.thy ===== *)
theory InstantiationProperties
  imports InstantiationSafety
begin

text \<open>
  A validated module, with a registry that keeps to its documentation, becomes an instance of which
  every later run is free of panics; a typed function finds what it promises; active segments are in
  memory, or instantiation has failed.
\<close>

section \<open>A module with a memory, a segment and an export\<close>

definition countdown_full :: "(StackInstruction, StackFrameLayout) FullModule" where
  "countdown_full = \<lparr>md_types = countdown_types, md_func_decls = countdown_decls, md_globals = [],
     md_imported_func_count = 1, md_func_bodies = [countdown_body],
     md_exported_func_index_to_name = (\<lambda>_. None), md_memories = [\<lparr>mt_initial = 1, mt_maximum = Some 2\<rparr>],
     md_global_kinds = [], md_imported_global_count = 0, md_tables = [], md_elements = [],
     md_datas = [\<lparr>da_kind = DK_Active 0 [Const (I32Const 8)], da_data = [1, 2, 3]\<rparr>],
     md_start_section = None, md_exports = [''count'' \<mapsto> ExportFunc 1]\<rparr>"

definition tick_registry :: "(LinearMemory, unit) ImportRegistry" where
  "tick_registry = \<lparr>ir_execute = (\<lambda>_ _ _. ret []), ir_signature = (\<lambda>_ _ _. Some ([], [])),
     ir_func_count = (\<lambda>_. 1), ir_global_count = (\<lambda>_. 0), ir_get_global = (\<lambda>_ _ _. Inl ''no globals'')\<rparr>"

lemma countdown_full_sel:
  "Module.truncate countdown_full = countdown_module" "import_registry_impl.truncate tick_registry = demo_registry"
  by (simp_all add: Module.truncate_def countdown_full_def countdown_module_def
      import_registry_impl.truncate_def tick_registry_def demo_registry_def)

lemma segment_const: "const_i32 [Const (I32Const 8)] [] = (Ok 8 :: ('e, u32) result)"
  by (simp add: const_i32_def const_expr_evaluator_def new_stack_def push_def push_grow_def
      pop_def index_def bnd_def ret_def modify_def gets_def lift_result_def Let_def)

lemma countdown_full_valid: "valid_sections countdown_full" "valid_names countdown_full"
  "honest tick_registry () (length (md_func_decls countdown_full))"
proof -
  have "const_ok [] n C_I32 [Const (I32Const 8)]" for n
    unfolding const_ok_def
    by (rule exI [of _ "[Inr (Op_I32Const 8, 0), Inr (Op_End, 2)]"]) (simp add: const_check_def)
  then show "valid_sections countdown_full"
    by (simp add: valid_sections_def valid_globals_def valid_data_def global_types_def countdown_full_def)
  show "valid_names countdown_full" by (simp add: valid_names_def countdown_full_def countdown_decls_def)
  show "honest tick_registry () (length (md_func_decls countdown_full))"
    by (simp add: honest_def tick_registry_def)
qed

section \<open>The embedder's view\<close>



text \<open>C9: a handle that \<open>get_typed_func\<close> has returned names a local function of
  the declared type, and a call through it with a tuple of the parameter types never panics: it
  returns a tuple of the result types or traps, and either way the instance can be called again. In
  particular the \<open>expect\<close> on the conversion of the results never fires.\<close>

theorem typed_calls_are_safe:
  assumes "permitted linear_valid R (Module.truncate M) tables datas lim B" and "valid_names M"
    and "keeps_limits linear_valid (Module.truncate M) tables datas lim s"
    and "get_typed_func param_types result_types M name = Ok f"
    and "list_all scalar result_types" and "list_all2 (\<lambda>v ty. has_ty v ty = Ok True) params param_types"
    and "typed_call n (stack_machine fe linear_memory R) f result_types M params s = Some r"
  shows "sane (keeps_limits linear_valid (Module.truncate M) tables datas lim) result_types r"
proof -
  note f = get_typed_func_Ok [OF assms(4,2)]
  have len: "length params = length (ft_params (decl_type (Module.truncate M) f))"
    using list_all2_lengthD [OF assms(6)] f(2) by simp
  from assms(7) obtain x where x: "run n (stack_machine fe linear_memory R) f params (Module.truncate M) s = Some x"
    by (auto simp: typed_call_def fbnd_def split: option.splits)
  from linear.run_sane [OF assms(1,3) f(1) len x] f(3)
  have "sane (keeps_limits linear_valid (Module.truncate M) tables datas lim) result_types x" by simp
  then show ?thesis
    using assms(5,7) x from_vals_typed
    by (auto simp: typed_call_def fbnd_def fop_of_def ret_def sane_def split: result.splits option.splits)
qed

theorem typed_calls_are_safe_witness:
  "get_typed_func [T_I32] [T_I32] countdown_full ''count'' = Ok 1 \<and>
   (\<forall>n. typed_call n demo_machine 1 [T_I32] countdown_full [I32 7] (page_instance []) \<noteq> Some Panic)"
proof (intro conjI allI notI)
  show found: "get_typed_func [T_I32] [T_I32] countdown_full ''count'' = Ok 1"
    by (simp add: get_typed_func_def countdown_full_def ok_or_def to_func_def index_def countdown_decls_def
        countdown_types_def)
  fix n
  assume run: "typed_call n demo_machine 1 [T_I32] countdown_full [I32 7] (page_instance []) = Some Panic"
  have perm: "permitted linear_valid demo_registry (Module.truncate countdown_full) 0 1 2000 10"
    and limits: "keeps_limits linear_valid (Module.truncate countdown_full) 0 1 2000 (page_instance [])"
    using countdown_permitted page_keeps_limits by (simp_all add: countdown_full_sel)
  from typed_calls_are_safe [OF perm countdown_full_valid(2) limits found _ _ run]
  show False by (simp add: sane_def)
qed

text \<open>C24: the data segments are copied in order. Each active segment
  that fits overwrites the bytes at its offset and nothing else, a later segment wins where two overlap, and active
  segments are dropped while passive ones stay. The first segment that does not fit ends
  instantiation with the out-of-bounds error of its offset; the ones before it have been written. An offset
  of \<open>2 ^ 31\<close> or more never fits, however large the memory: the code reads it as a negative number.\<close>

theorem data_segments_initialise_memory:
  assumes "list_all (plain_data globals) datas" and "linear_valid m"
  shows "data_outcome inner globals datas (inner m) (map_op (init_data linear_memory globals) datas m) \<and>
    (\<forall>d i e w. da_kind d = DK_Active i e \<longrightarrow> const_i32 e globals = (Ok w :: (TraceWasmError, u32) result) \<longrightarrow>
       2147483648 \<le> uint w \<longrightarrow> \<not> data_fits globals (length (inner m)) d)"
proof
  show "data_outcome inner globals datas (inner m) (map_op (init_data linear_memory globals) datas m)"
    using assms by (rule linear.init_datas_outcome)
  show "\<forall>d i e w. da_kind d = DK_Active i e \<longrightarrow> const_i32 e globals = (Ok w :: (TraceWasmError, u32) result) \<longrightarrow>
      2147483648 \<le> uint w \<longrightarrow> \<not> data_fits globals (length (inner m)) d"
    using high_segments_never_fit [OF assms(2)] by (fastforce simp: data_fits_def segment_offset_def)
qed

theorem data_segments_initialise_memory_witness:
  "\<exists>m'. map_op (init_data linear_memory []) (md_datas countdown_full) one_page = Ok ([DataDropped], m') \<and>
     inner m' = overwrite (inner one_page) 8 [1, 2, 3]"
proof -
  have "i32_as_usize 8 = 8" by (simp add: i32_as_usize_def)
  then have off: "segment_offset [] (hd (md_datas countdown_full)) = Some 8"
    by (simp add: segment_offset_def countdown_full_def segment_const)
  have plain: "list_all (plain_data []) (md_datas countdown_full)"
    by (simp add: plain_data_def countdown_full_def segment_const)
  have datas: "md_datas countdown_full = [hd (md_datas countdown_full)]" by (simp add: countdown_full_def)
  have len: "length (da_data (hd (md_datas countdown_full))) = 3" "length (inner one_page) = 65536"
    by (simp_all add: countdown_full_def one_page_def new_linear_def with_byte_len_def WASM_MEMORY_PAGE_SIZE_def)
  show ?thesis
    using data_segments_initialise_memory [OF plain one_page_valid, THEN conjunct1] off len
    by (subst (asm) datas, subst (asm) datas)
      (auto simp: data_outcome_def placed_in_def data_left_def countdown_full_def Cons_eq_append_conv split: result.splits)
qed

end
