(* ===== verification/Spec2Isabelle.thy ===== *)
theory Spec2Isabelle
  imports SafetyProperties ConstExprProperties FloatProperties RegProperties RegLoweringProperties RegStraightProperties RegFunctionProperties InstantiationProperties
begin

text \<open>
  A verification of the WebAssembly interpreter of this repository: the crate
  \<open>tracewasm-core\<close>, from the operators of a function body to the outcome of a call, on both of
  its machines. All paths below are under \<open>src/tracewasm-core/src\<close>.

  \<^bold>\<open>The program.\<close> A module's function bodies are lowered once, for one of two machines.
  \<open>StackInstruction::emit_instructions_for_func\<close> turns the operators that \<open>wasmparser\<close> yields into a
  flat list of instructions in which every branch is an absolute index with its arity and the height
  to unwind to. \<open>RegInstruction::emit_instructions_for_func\<close> simulates the operand stack instead: a
  local or a constant is forwarded to the instruction that uses it, a local that is overwritten while
  an operand still reads it is spilled, and the frame slots of all operands are resolved in a last
  pass, when the sizes of the frame's regions are known. A call then runs a driver loop over such
  lists: \<open>execute\<close> performs one instruction on the \<open>Instance\<close> (memory, frame, globals, tables,
  segments, host functions) and tells the driver to go on, to jump, or to enter a function. The
  operand stack of all activations is one vector with a pointer, and so is the register file; a
  callee's locals start where its caller left its arguments. A trap carries one record per open
  activation.

  \<^bold>\<open>The theories of the model\<close>, in the order of the code:
  \<^item> \<open>Prelude\<close>: machine integers, results with a value for a panic, operations on a state, and
    the weakest preconditions that all component proofs are simplification with.
  \<^item> \<open>Errors\<close> (\<open>error.rs\<close>, the types of \<open>module/mod.rs\<close>) and \<open>Values\<close> (\<open>runtime/value.rs\<close>).
  \<^item> \<open>MemoryView\<close> (\<open>memory/mod.rs\<close>): the traits as a record of operations, the default methods,
    and their contract as the locales \<open>memory_view\<close> and \<open>memory_backend\<close>. \<open>LinearMemory\<close>
    (\<open>memory/linear.rs\<close>, and \<open>CountingMemory\<close> of the playground): two backends, and the
    interpretations that discharge the contract for both.
  \<^item> \<open>OperandStack\<close> (\<open>runtime/stack.rs\<close>): the stack and the calling convention, with the locale
    \<open>unwinding_stack\<close> and its interpretation.
  \<^item> \<open>Instructions\<close>, \<open>ControlStack\<close>, \<open>Lowering\<close> (\<open>instruction/mod.rs\<close>,
    \<open>instruction/stack/mod.rs\<close>): the instruction set, the open labels, and the pass.
  \<^item> \<open>Validation\<close>: what the pass relies on of \<open>wasmparser\<close>'s validation, as an executable
    predicate on operators.
  \<^item> \<open>Floats\<close>, \<open>Numeric\<close>: the numeric operators; IEEE floats as bit patterns, an operation being
    the exact rational result rounded once.
  \<^item> \<open>Instance\<close> (\<open>instance/\<close>), \<open>StackExec\<close> (\<open>execute\<close>), \<open>Driver\<close> (\<open>runtime/mod.rs\<close>): the
    machine, both drivers over any machine, and the entry point \<open>run\<close>.
  \<^item> \<open>Instantiation\<close> (\<open>module/mod.rs\<close>, \<open>instance/\<close>): \<open>Module::instantiate\<close> on any machine, from the
    import checks to the start function, and the typed functions of an embedder.
  \<^item> \<open>RegisterFrame\<close> (\<open>runtime/reg.rs\<close>), \<open>RegExec\<close>, \<open>RegMachine\<close> (\<open>instruction/register/mod.rs\<close>):
    the register file, every arm of the register instructions, and the machine they make.
  \<^item> \<open>RegSimStack\<close> (\<open>lazy.rs\<close>, \<open>backpatch.rs\<close>, the interner, \<open>SimulatedStack\<close>) and \<open>RegLowering\<close>: the
    pass that emits register instructions, for every operator, and the resolving pass.

  \<^bold>\<open>The theories of the proofs.\<close>
  \<^item> \<open>LoweringTargets\<close>, \<open>LoweringTotal\<close>, \<open>LoweringProperties\<close>: on a validated body the stack lowering
    neither panics nor fails, and every jump it emits stays in the body.
  \<^item> \<open>DriverEquivalence\<close>: a simulation between the two drivers. \<open>Preservation\<close>, \<open>Backtraces\<close>: what
    no instruction changes, and the shape of the trace a failed run carries.
  \<^item> \<open>Heights\<close>, \<open>LoweringHeights\<close>, \<open>Certificates\<close>: a lowered body has a certificate, the height of
    the operand stack at each instruction control can reach. \<open>ExecSafety\<close>, \<open>ExecProgress\<close>,
    \<open>DriverSafety\<close>: an instruction of a certified body does not panic and arrives at a certified
    height, and so does a run, by the locale \<open>safe_machine\<close> of what the driver needs of a machine.
    \<open>SafetyProperties\<close>: a call of a function of a validated module returns values of the declared
    types or traps, and never panics. \<open>InstantiationSafety\<close>, \<open>InstantiationProperties\<close>: instantiation
    does not panic either and establishes what these calls need, a typed handle can always be called,
    and the data segments are where they belong.
  \<^item> \<open>ExecRules\<close>: rules for the instructions' effects. \<open>MemoryProperties\<close>, \<open>FrameProperties\<close>,
    \<open>ControlProperties\<close>, \<open>DriverProperties\<close>, \<open>ConstExprProperties\<close>, \<open>NumericProperties\<close>: the
    properties of the components, each with a concrete instance. \<open>FloatFacts\<close>, \<open>FloatProperties\<close>:
    the float operators against rational arithmetic.
  \<^item> \<open>RegFrameProperties\<close>, \<open>RegOperands\<close>: the register file and the slots of a frame. \<open>RegAgreement\<close>,
    \<open>RegOperators\<close>, \<open>RegProperties\<close>: the two machines agree on every operator they share.
  \<^item> \<open>RegLazies\<close>, \<open>RegForwarding\<close>, \<open>RegForwardingTotal\<close>: the simulated stack, with its shared entries,
    reference counts, origin table and free spill slots, refines a list of the places its operands
    are read from. \<open>RegPlaces\<close>, \<open>RegLoweringProperties\<close>: in a finished body every operand is one slot
    of the frame, and different operands are different slots.
  \<^item> \<open>RegMatching\<close> (two frames that hold the same values in the places the two codes read them from),
    \<open>RegResolve\<close> (the resolving pass), \<open>RegStraight\<close>, \<open>RegEmission\<close>, \<open>RegStraightCode\<close>,
    \<open>RegStraightOperators\<close>, \<open>RegStraightProperties\<close>: what the two lowerings make of any run of
    operators without control flow does the same on the two machines.
  \<^item> \<open>StraightRuns\<close>, \<open>RegReturn\<close>, \<open>RegBodies\<close>, \<open>RegFunctions\<close>, \<open>RegFunctionProperties\<close>: the same for
    whole functions, from the arguments to the results, under the driver.

  \<^bold>\<open>Conventions.\<close> A Rust \<open>Result\<close> is a \<open>result\<close>, whose \<open>Panic\<close> is any panic, failed debug
  assertion or arithmetic overflow; a theorem that excludes it therefore also holds of a release
  build. \<open>wp m Q E s\<close> says that from \<open>s\<close> the operation does not panic, establishes \<open>Q\<close> if it
  returns and \<open>E\<close> if it fails; \<open>wlp\<close> also admits a panic or an error. Values and addresses are
  words; \<open>usize\<close> is \<open>nat\<close> with its overflow checks written out; instruction indices and heights,
  \<open>u32\<close> in the code, and register indices, \<open>u16\<close> in the code, are \<open>nat\<close> with their truncations and
  overflow checks explicit.

  \<^bold>\<open>Fuel and bounds.\<close> A guest may loop forever, so the drivers run on fuel and \<open>None\<close> is a run that has
  not returned. One unit is spent per instruction and one per call. The claims about drivers do not
  assume fuel to be enough where the claim is that they return: unbounded recursion is shown to
  return on some fuel, more fuel never changes an outcome, the second driver is shown to
  return whenever the first does, and a function without control flow returns on both machines once
  the fuel exceeds the lengths of its two bodies. The operand stack's height is a \<open>u32\<close> that the code
  does not check: runs are shown free of panics when \<open>max limit 1 * B\<close> is a \<open>u32\<close>, for the call depth
  limit and a number \<open>B\<close> of slots that one activation needs at most.

  \<^bold>\<open>Parameters.\<close> Host functions (\<open>ir_execute\<close>), the memory of the embedder (\<open>memory_impl\<close>), and
  the bits of the NaN an operation produces (\<open>float_env\<close>), which Rust leaves open; the import registry
  (\<open>ImportRegistry\<close>) and, of \<open>wasmparser\<close>, whether a reference type is \<open>funcref\<close>.

  \<^bold>\<open>Not modelled.\<close> Parsing and compiling a binary, which is calls into \<open>wasmparser\<close> and copying; the
  macros that generate registries and tuple conversions; the rendering of traces; the LLVM backend
  (\<open>tracewasm-llvm\<close>), which builds IR through bindings and is unfinished; tests and benchmarks. The
  register lowering is modelled for every operator; proved of it is what is said above, which leaves
  the code of blocks, branches and calls.
\<close>

end
